(* ===== verification/Prelude.thy ===== *)
theory Prelude
  imports Main "HOL-Library.Word"
begin

text \<open>
  What every component shares: the integer types of the C code (LP64: \<open>unsigned long\<close> and
  \<open>guint64\<close> have 64 bits), errors as values, C strings and the operations of the C library
  and of GLib on them.

  A C string in a buffer is the list of its characters before the terminating NUL, and a
  pointer into the string is the suffix it points at: \<open>*p\<close> is the head, \<open>p++\<close> is the tail, a
  pointer at the NUL is \<open>[]\<close>. An output argument (\<open>strtoull (p, &p, 0)\<close>) is a second
  component of the result.
\<close>

section \<open>Types and errors\<close>

type_synonym guint64 = "64 word"
type_synonym guint32 = "32 word"
type_synonym guint16 = "16 word"
type_synonym gint32 = "32 word"  \<comment> \<open>read with \<open>sint\<close>\<close>

text \<open>
  The ways in which the code does not return: \<open>Exit\<close> is a call of the
  \<open>glibtop_error\<close> family (message on standard error, then \<open>exit (1)\<close>); \<open>Crash\<close> marks a
  point where the C code would use memory it must not use (a NULL pointer, an index outside
  of an array), so that a theorem can say that this never happens, or that it does; \<open>Blocks\<close>
  is a call that waits for input that does not come.
\<close>

datatype gerr = Exit string | Crash string | Blocks

type_synonym 'a res = "gerr + 'a"

fun bind_res :: "'a res \<Rightarrow> ('a \<Rightarrow> 'b res) \<Rightarrow> 'b res" where
  "bind_res (Inl e) f = Inl e"
| "bind_res (Inr x) f = f x"

named_theorems ctext "rewriting of parsers over the tokens of a buffer"

lemma bind_res_Inr_iff: "bind_res r f = Inr y \<longleftrightarrow> (\<exists>x. r = Inr x \<and> f x = Inr y)"
  by (cases r) auto

lemma bind_res_Inl_iff:
  "bind_res r f = Inl e \<longleftrightarrow> r = Inl e \<or> (\<exists>x. r = Inr x \<and> f x = Inl e)"
  by (cases r) auto

definition BUFSIZ :: nat where
  \<comment> \<open>of the C library\<close>
  "BUFSIZ = 8192"

section \<open>Characters\<close>

abbreviation "NUL \<equiv> CHR 0x00"
abbreviation "NL \<equiv> CHR 0x0A"
abbreviation "SP \<equiv> CHR '' ''"

definition isspace :: "char \<Rightarrow> bool" where
  \<comment> \<open>the C locale: space, \<open>\t\<close>, \<open>\n\<close>, \<open>\v\<close>, \<open>\f\<close>, \<open>\r\<close>\<close>
  "isspace c \<longleftrightarrow> c \<in> {SP, CHR 0x09, NL, CHR 0x0B, CHR 0x0C, CHR 0x0D}"

definition g_ascii_isspace :: "char \<Rightarrow> bool" where
  \<comment> \<open>GLib's table has no entry for \<open>\v\<close>\<close>
  "g_ascii_isspace c \<longleftrightarrow> c \<in> {SP, CHR 0x09, NL, CHR 0x0C, CHR 0x0D}"

definition isdigit :: "char \<Rightarrow> bool" where
  "isdigit c \<longleftrightarrow> 48 \<le> (of_char c :: nat) \<and> (of_char c :: nat) \<le> 57"

lemma g_space_isspace [simp]: "g_ascii_isspace c \<Longrightarrow> isspace c"
  by (auto simp: g_ascii_isspace_def isspace_def)

lemma g_space_SP [simp]: "g_ascii_isspace SP" "g_ascii_isspace NL" "g_ascii_isspace (CHR 0x09)"
  by (simp_all add: g_ascii_isspace_def)

definition digit_val :: "char \<Rightarrow> nat" where
  "digit_val c = (let n = of_char c in
     if 48 \<le> n \<and> n \<le> 57 then n - 48
     else if 97 \<le> n \<and> n \<le> 122 then n - 87
     else if 65 \<le> n \<and> n \<le> 90 then n - 55
     else 36)"

definition digit_chr :: "nat \<Rightarrow> char" where
  "digit_chr d = (if d < 10 then char_of (48 + d) else char_of (87 + d))"

lemma digit_val_chr [simp]: "d < 36 \<Longrightarrow> digit_val (digit_chr d) = d"
  by (simp add: digit_val_def digit_chr_def Let_def)

lemma digit_val_space: "isspace c \<Longrightarrow> digit_val c = 36"
  by (auto simp: isspace_def digit_val_def)

lemma digit_val_0 [simp]: "digit_val (CHR ''0'') = 0"
  by (simp add: digit_val_def)

lemma digit_chr_0 [simp]: "digit_chr 0 = CHR ''0''"
  by (simp add: digit_chr_def char_of_def bit_iff_odd)

lemma digit_chr_eq_zero: "d < 36 \<Longrightarrow> digit_chr d = CHR ''0'' \<longleftrightarrow> d = 0"
  using digit_val_chr [of d] by (auto simp del: digit_val_chr)

section \<open>Numbers in text: printf and strtoull\<close>

text \<open>\<open>%u\<close>, \<open>%lu\<close> and \<open>%x\<close> print a number without leading zeros.\<close>

function show_base :: "nat \<Rightarrow> nat \<Rightarrow> string" where
  "show_base b n =
     (if n < b \<or> b < 2 then [digit_chr n] else show_base b (n div b) @ [digit_chr (n mod b)])"
  by pat_completeness auto
termination
  by (relation "measure (\<lambda>(b, n). n)") auto

declare show_base.simps [simp del]

abbreviation "show_nat \<equiv> show_base 10"

definition digits_to_nat :: "nat \<Rightarrow> string \<Rightarrow> nat" where
  "digits_to_nat b ds = foldl (\<lambda>a c. a * b + digit_val c) 0 ds"

lemma show_base_ne [simp]: "show_base b n \<noteq> []"
  by (subst show_base.simps) simp

lemma digits_to_nat_show [simp]: "2 \<le> b \<Longrightarrow> b \<le> 36 \<Longrightarrow> digits_to_nat b (show_base b n) = n"
proof (induction b n rule: show_base.induct)
  case (1 b n)
  have "n mod b < 36" if "2 \<le> b" "b \<le> 36"
    using that mod_less_divisor [of b n] by linarith
  with 1 show ?case
    by (subst show_base.simps) (auto simp: digits_to_nat_def)
qed

lemma show_base_digits:
  "2 \<le> b \<Longrightarrow> b \<le> 36 \<Longrightarrow> c \<in> set (show_base b n) \<Longrightarrow> digit_val c < b"
proof (induction b n rule: show_base.induct)
  case (1 b n)
  have m: "n mod b < b" using "1.prems" by simp
  have "n mod b < 36" using m "1.prems" by linarith
  with 1 m show ?case
    by (subst (asm) (2) show_base.simps) (auto split: if_splits)
qed

lemma hd_show_base:
  "2 \<le> b \<Longrightarrow> b \<le> 36 \<Longrightarrow> 0 < n \<Longrightarrow> hd (show_base b n) \<noteq> CHR ''0''"
proof (induction b n rule: show_base.induct)
  case (1 b n)
  then show ?case
    by (subst show_base.simps) (auto simp: digit_chr_eq_zero div_greater_zero_iff)
qed

lemma show_base_0: "2 \<le> b \<Longrightarrow> show_base b 0 = ''0''"
  by (subst show_base.simps) simp

lemma show_nat_chars: "\<forall>c\<in>set (show_nat n). digit_val c < 36"
  using show_base_digits [of 10 _ n] by fastforce

lemma show_nat_no_space: "c \<in> set (show_nat n) \<Longrightarrow> \<not> isspace c \<and> c \<noteq> NUL"
  using show_nat_chars [of n] digit_val_space [of c] by (auto simp: digit_val_def)

lemma length_show_nat: "n < 10 ^ Suc k \<Longrightarrow> length (show_nat n) \<le> Suc k"
proof (induction k arbitrary: n)
  case 0
  then show ?case by (subst show_base.simps) simp
next
  case (Suc k)
  show ?case
  proof (cases "n < 10")
    case False
    have "n div 10 < 10 ^ Suc k" using Suc.prems by (simp add: less_mult_imp_div_less mult.commute)
    from Suc.IH [OF this] show ?thesis by (subst show_base.simps) (simp add: False)
  qed (subst show_base.simps, simp)
qed

lemma show_nat_plain: "NL \<notin> set (show_nat n)" "NUL \<notin> set (show_nat n)"
  using show_nat_no_space [of NL n] show_nat_no_space [of NUL n] by (auto simp: isspace_def)

text \<open>
  \<open>strto\<close> is the common part of \<open>strtoul\<close>, \<open>strtoull\<close> and \<open>strtol\<close>: leading white space, an
  optional sign, the \<open>0x\<close> and \<open>0\<close> prefixes of base 0 and 16 (\<open>0x\<close> counts only before a hex
  digit), the longest run of digits. No digits at all is \<open>None\<close>: then the functions return 0
  and leave the pointer where it was.
\<close>

fun strto_sign :: "string \<Rightarrow> bool \<times> string" where
  "strto_sign (c # s) =
     (if c = CHR ''-'' then (True, s) else if c = CHR ''+'' then (False, s) else (False, c # s))"
| "strto_sign [] = (False, [])"

fun strto_hex :: "string \<Rightarrow> bool" where
  "strto_hex (a # b # c # s) \<longleftrightarrow>
     a = CHR ''0'' \<and> (b = CHR ''x'' \<or> b = CHR ''X'') \<and> digit_val c < 16"
| "strto_hex _ \<longleftrightarrow> False"

definition strto_prefix :: "nat \<Rightarrow> string \<Rightarrow> nat \<times> string" where
  "strto_prefix base s =
     (if (base = 0 \<or> base = 16) \<and> strto_hex s then (16, drop 2 s)
      else if base = 0 then (if s \<noteq> [] \<and> hd s = CHR ''0'' then (8, s) else (10, s))
      else (base, s))"

definition strto :: "nat \<Rightarrow> string \<Rightarrow> (bool \<times> nat \<times> string) option" where
  "strto base s =
     (let (neg, s1) = strto_sign (dropWhile isspace s);
          (b, s2) = strto_prefix base s1;
          ds = takeWhile (\<lambda>c. digit_val c < b) s2
      in if ds = [] then None
         else Some (neg, digits_to_nat b ds, dropWhile (\<lambda>c. digit_val c < b) s2))"

definition strtoull :: "nat \<Rightarrow> string \<Rightarrow> guint64 \<times> string" where
  "strtoull base s = (case strto base s of
     None \<Rightarrow> (0, s)
   | Some (neg, n, r) \<Rightarrow>
       (if 2 ^ 64 \<le> n then - 1 else if neg then - of_nat n else of_nat n, r))"

definition strtol :: "nat \<Rightarrow> string \<Rightarrow> 64 word \<times> string" where
  "strtol base s = (case strto base s of
     None \<Rightarrow> (0, s)
   | Some (neg, n, r) \<Rightarrow>
       (if neg then (if 2 ^ 63 < n then 2 ^ 63 else - of_nat n)
        else (if 2 ^ 63 \<le> n then 2 ^ 63 - 1 else of_nat n), r))"

text \<open>\<open>unsigned long\<close> and \<open>unsigned long long\<close> have the same width; \<open>g_ascii_strtoull\<close> is
  documented as \<open>strtoull\<close> in the C locale.\<close>

abbreviation (input) "strtoul \<equiv> strtoull"
abbreviation (input) "g_ascii_strtoull \<equiv> strtoull"

definition atoi :: "string \<Rightarrow> gint32" where
  "atoi s = ucast (fst (strtol 10 s))"

definition sep :: "string \<Rightarrow> bool" where
  \<comment> \<open>what may follow a token: the end of the string or white space\<close>
  "sep r \<longleftrightarrow> r = [] \<or> g_ascii_isspace (hd r)"

lemma sep_simps [simp]: "sep []" "sep (c # r) \<longleftrightarrow> g_ascii_isspace c"
  by (simp_all add: sep_def)

lemma takeWhile_digits:
  assumes "\<And>c. c \<in> set ds \<Longrightarrow> digit_val c < b" and "b \<le> 36" and "sep r"
  shows "takeWhile (\<lambda>c. digit_val c < b) (ds @ r) = ds"
    and "dropWhile (\<lambda>c. digit_val c < b) (ds @ r) = r"
proof -
  have "r = [] \<or> \<not> digit_val (hd r) < b"
    using assms(2,3) by (cases r) (auto simp: digit_val_space)
  then show "takeWhile (\<lambda>c. digit_val c < b) (ds @ r) = ds"
    and "dropWhile (\<lambda>c. digit_val c < b) (ds @ r) = r"
    using assms(1) by (cases r; simp add: takeWhile_append dropWhile_append)+
qed

lemma hd_show_digit: "digit_val (hd (show_nat n)) < 10"
  by (rule show_base_digits [of 10 _ n]) simp_all

lemma strto_sign_digit: "digit_val c < 36 \<Longrightarrow> strto_sign (c # s) = (False, c # s)"
  by (auto simp: digit_val_def)

lemma dropWhile_space_show:
  assumes "\<forall>c\<in>set ws. g_ascii_isspace c"
  shows "dropWhile isspace (ws @ show_nat n @ r) = show_nat n @ r"
proof -
  have "\<not> isspace (hd (show_nat n))"
    using hd_show_digit [of n] digit_val_space by fastforce
  then have "dropWhile isspace (show_nat n @ r) = show_nat n @ r"
    by (cases "show_nat n") auto
  with assms show ?thesis by (induction ws) auto
qed

lemma strto_sign_show: "strto_sign (show_nat n @ r) = (False, show_nat n @ r)"
  using hd_show_digit [of n] by (cases "show_nat n") (auto simp del: strto_sign.simps
      intro!: strto_sign_digit)

lemma not_strto_hex_show: "sep r \<Longrightarrow> \<not> strto_hex (show_nat n @ r)"
proof (cases "n = 0")
  case True
  assume "sep r"
  then show ?thesis
    using True by (cases r; cases "tl r") (auto simp: show_base_0 g_ascii_isspace_def)
next
  case False
  then have "hd (show_nat n) \<noteq> CHR ''0''" by (simp add: hd_show_base)
  then show ?thesis
    by (cases "show_nat n" rule: strto_hex.cases; cases r; cases "tl r") auto
qed

text \<open>Reading back what \<open>%lu\<close> printed, in base 0 and in base 10, with anything that separates
  tokens around it.\<close>

lemma strto_show:
  assumes ws: "\<forall>c\<in>set ws. g_ascii_isspace c" and r: "sep r" and base: "base = 0 \<or> base = 10"
  shows "strto base (ws @ show_nat n @ r) = Some (False, n, r)"
proof -
  have "\<exists>b. (b = 8 \<or> b = 10) \<and> strto_prefix base (show_nat n @ r) = (b, show_nat n @ r) \<and> (b = 8 \<longrightarrow> n = 0)"
    using base hd_show_base [of 10 n] not_strto_hex_show [OF r, of n]
    by (auto simp: strto_prefix_def)
  then obtain b where b: "b = 8 \<or> b = 10" "b = 8 \<longrightarrow> n = 0"
    "strto_prefix base (show_nat n @ r) = (b, show_nat n @ r)" by blast
  have b36: "b \<le> 36" using b(1) by auto
  have dig: "\<And>c. c \<in> set (show_nat n) \<Longrightarrow> digit_val c < b"
    using b(1,2) show_base_digits [of 10 _ n] by (cases "n = 0") (auto simp: show_base_0)
  have val: "digits_to_nat b (show_nat n) = n"
  proof (cases "b = 10")
    case False
    with b(1,2) show ?thesis by (simp add: show_base_0 digits_to_nat_def)
  qed simp
  have tw: "takeWhile (\<lambda>c. digit_val c < b) (show_nat n @ r) = show_nat n"
    and dw: "dropWhile (\<lambda>c. digit_val c < b) (show_nat n @ r) = r"
    using takeWhile_digits [OF dig b36 r] by simp_all
  show ?thesis
    by (simp add: strto_def dropWhile_space_show [OF ws] strto_sign_show b(3) tw dw val)
qed

lemma strtoull_show:
  assumes "\<forall>c\<in>set ws. g_ascii_isspace c" and "sep r" and "base = 0 \<or> base = 10" and "n < 2 ^ 64"
  shows "strtoull base (ws @ show_nat n @ r) = (of_nat n, r)"
  using strto_show [OF assms(1-3), of n] assms(4) by (simp add: strtoull_def)

section \<open>Strings\<close>

definition c_str :: "string \<Rightarrow> string" where
  \<comment> \<open>the C string that starts a run of bytes\<close>
  "c_str bs = takeWhile (\<lambda>c. c \<noteq> NUL) bs"

definition strncmp_eq :: "string \<Rightarrow> string \<Rightarrow> bool" where
  \<comment> \<open>\<open>!strncmp (s, key, strlen (key))\<close>: \<open>s\<close> starts with \<open>key\<close>\<close>
  "strncmp_eq s key \<longleftrightarrow> take (length key) s = key"

fun strstr :: "string \<Rightarrow> string \<Rightarrow> string option" where
  "strstr [] key = (if key = [] then Some [] else None)"
| "strstr (c # s) key = (if strncmp_eq (c # s) key then Some (c # s) else strstr s key)"

definition strchr :: "string \<Rightarrow> char \<Rightarrow> string option" where
  "strchr s c = (case dropWhile (\<lambda>d. d \<noteq> c) s of [] \<Rightarrow> None | r \<Rightarrow> Some r)"

fun strrchr :: "string \<Rightarrow> char \<Rightarrow> string option" where
  "strrchr [] c = None"
| "strrchr (d # s) c =
     (case strrchr s c of Some r \<Rightarrow> Some r | None \<Rightarrow> if d = c then Some (d # s) else None)"

definition g_strlcpy :: "string \<Rightarrow> nat \<Rightarrow> string" where
  \<comment> \<open>what \<open>g_strlcpy (dest, src, dest_size)\<close> leaves in \<open>dest\<close>: at most \<open>dest_size - 1\<close>
    characters and the NUL\<close>
  "g_strlcpy src dest_size = take (dest_size - 1) src"

definition g_strstrip :: "string \<Rightarrow> string" where
  "g_strstrip s = rev (dropWhile g_ascii_isspace (rev (dropWhile g_ascii_isspace s)))"

fun split_lines :: "string \<Rightarrow> string list" where
  \<comment> \<open>the lines \<open>getline\<close> returns, each with its newline\<close>
  "split_lines [] = []"
| "split_lines (c # s) =
     (if c = NL then [c] # split_lines s
      else case split_lines s of [] \<Rightarrow> [[c]] | l # ls \<Rightarrow> (c # l) # ls)"

definition show_int :: "int \<Rightarrow> string" where
  "show_int i = (if i < 0 then CHR ''-'' # show_nat (nat (- i)) else show_nat (nat i))"

lemma split_lines_append:
  "NL \<notin> set l \<Longrightarrow> split_lines (l @ NL # r) = (l @ [NL]) # split_lines r"
  by (induction l) auto

lemma c_str_id: "NUL \<notin> set s \<Longrightarrow> c_str s = s"
  by (simp add: c_str_def takeWhile_eq_all_conv) blast

lemma c_str_append: "NUL \<notin> set s \<Longrightarrow> c_str (s @ NUL # r) = s"
  by (induction s) (auto simp: c_str_def)

lemma length_c_str: "length (c_str s) \<le> length s"
  by (simp add: c_str_def length_takeWhile_le)

lemma concat_split_lines [simp]: "concat (split_lines s) = s"
  by (induction s rule: split_lines.induct) (auto split: list.splits)

lemma length_g_strlcpy: "0 < n \<Longrightarrow> length (g_strlcpy s n) < n"
  by (simp add: g_strlcpy_def)

lemma strrchr_None [simp]: "strrchr s c = None \<longleftrightarrow> c \<notin> set s"
  by (induction s) (auto split: option.splits)

lemma strrchr_last: "c \<notin> set r \<Longrightarrow> strrchr (a @ c # r) c = Some (c # r)"
  by (induction a) (auto split: option.splits, (metis strrchr_None option.distinct(1))+)

section \<open>Bits and bytes\<close>

abbreviation flag :: "nat \<Rightarrow> guint64" where
  \<comment> \<open>\<open>1L << n\<close>\<close>
  "flag n \<equiv> push_bit n 1"

fun le_enc :: "nat \<Rightarrow> nat \<Rightarrow> string" where
  \<comment> \<open>the \<open>k\<close> bytes of an integer in memory, least significant first\<close>
  "le_enc 0 n = []"
| "le_enc (Suc k) n = char_of (n mod 256) # le_enc k (n div 256)"

fun le_dec :: "string \<Rightarrow> nat" where
  "le_dec [] = 0"
| "le_dec (c # cs) = of_char c + 256 * le_dec cs"

lemma length_le_enc [simp]: "length (le_enc k n) = k"
  by (induction k arbitrary: n) auto

lemma le_dec_enc: "le_dec (le_enc k n) = n mod 256 ^ k"
proof (induction k arbitrary: n)
  case (Suc k)
  have "n mod (256 * 256 ^ k) = n mod 256 + 256 * ((n div 256) mod 256 ^ k)"
    by (simp add: mod_mult2_eq algebra_simps)
  with Suc show ?case by simp
qed simp

lemma le_enc_dec: "length bs = k \<Longrightarrow> le_enc k (le_dec bs) = bs"
proof (induction bs arbitrary: k)
  case (Cons c bs)
  have "of_char c < (256::nat)" by (rule nat_of_char_less_256)
  with Cons show ?case by (cases k) (auto simp: div_add1_eq)
qed simp

definition u32_bytes :: "32 word \<Rightarrow> string" where "u32_bytes w = le_enc 4 (unat w)"
definition u64_bytes :: "64 word \<Rightarrow> string" where "u64_bytes w = le_enc 8 (unat w)"
definition bytes_u32 :: "string \<Rightarrow> 32 word" where "bytes_u32 bs = of_nat (le_dec (take 4 bs))"
definition bytes_u64 :: "string \<Rightarrow> 64 word" where "bytes_u64 bs = of_nat (le_dec (take 8 bs))"

lemma unat_of_nat64: "n < 2 ^ 64 \<Longrightarrow> unat (of_nat n :: 64 word) = n"
  by (simp add: unat_of_nat)

lemma of_nat64_eq: "m < 2 ^ 64 \<Longrightarrow> n < 2 ^ 64 \<Longrightarrow> (of_nat m :: 64 word) = of_nat n \<longleftrightarrow> m = n"
  by (metis unat_of_nat64)

lemma unat_ucast_32_64 [simp]: "unat (ucast (w :: 32 word) :: 64 word) = unat w"
proof -
  have "unat w < 2 ^ 32" using unsigned_less [of w, where ?'a = nat] by simp
  then show ?thesis by (simp add: unsigned_ucast_eq take_bit_nat_eq_self_iff)
qed

definition u16_bytes :: "16 word \<Rightarrow> string" where "u16_bytes w = le_enc 2 (unat w)"
definition bytes_u16 :: "string \<Rightarrow> 16 word" where "bytes_u16 bs = of_nat (le_dec (take 2 bs))"

lemma length_word_bytes [simp]:
  "length (u16_bytes u) = 2" "length (u32_bytes w) = 4" "length (u64_bytes v) = 8"
  by (simp_all add: u16_bytes_def u32_bytes_def u64_bytes_def)

lemma bytes_u16_u16 [simp]: "bytes_u16 (u16_bytes w @ r) = w"
proof -
  have "unat w < 256 ^ 2" using unsigned_less [of w, where ?'a = nat] by simp
  then show ?thesis by (simp add: bytes_u16_def u16_bytes_def le_dec_enc)
qed

lemma bytes_u32_u32 [simp]: "bytes_u32 (u32_bytes w @ r) = w"
proof -
  have "unat w < 256 ^ 4" using unsigned_less [of w, where ?'a = nat] by simp
  then show ?thesis by (simp add: bytes_u32_def u32_bytes_def le_dec_enc)
qed

lemma bytes_u64_u64 [simp]: "bytes_u64 (u64_bytes w @ r) = w"
proof -
  have "unat w < 256 ^ 8" using unsigned_less [of w, where ?'a = nat] by simp
  then show ?thesis by (simp add: bytes_u64_def u64_bytes_def le_dec_enc)
qed

lemmas bytes_word_self [simp] = bytes_u32_u32 [where r = "[]", simplified] bytes_u64_u64 [where r = "[]", simplified]

fun u64s_bytes :: "guint64 list \<Rightarrow> string" where
  "u64s_bytes [] = []"
| "u64s_bytes (w # ws) = u64_bytes w @ u64s_bytes ws"

fun bytes_u64s :: "nat \<Rightarrow> string \<Rightarrow> guint64 list" where
  "bytes_u64s 0 bs = []"
| "bytes_u64s (Suc k) bs = bytes_u64 bs # bytes_u64s k (drop 8 bs)"

lemma length_u64s_bytes [simp]: "length (u64s_bytes ws) = 8 * length ws"
  by (induction ws) auto

lemma bytes_u64s_u64s: "length ws = k \<Longrightarrow> bytes_u64s k (u64s_bytes ws @ r) = ws"
  by (induction ws arbitrary: k) auto

end
