(* ===== verification/Server.thy ===== *)
theory Server
  imports Prelude
begin

text \<open>
  The state a client holds: \<open>struct _glibtop\<close> (\<open>glibtop.h\<close>) with the feature table
  \<open>glibtop_sysdeps\<close>, the constants of \<open>include/glibtop/open.h\<close>, the tables of
  \<open>lib/sysdeps.c\<close> and \<open>sysdeps/common/sysdeps_suid.c\<close>, and \<open>lib/parameter.c\<close>.
\<close>

section \<open>Features\<close>

text \<open>The \<open>GLIBTOP_SYSDEPS_\<close> constants; \<open>feature_nr\<close> is their value.\<close>

datatype feature =
    F_CPU | F_MEM | F_SWAP | F_UPTIME | F_LOADAVG | F_SHM_LIMITS | F_MSG_LIMITS | F_SEM_LIMITS
  | F_PROCLIST | F_PROC_STATE | F_PROC_UID | F_PROC_MEM | F_PROC_TIME | F_PROC_SIGNAL
  | F_PROC_KERNEL | F_PROC_SEGMENT | F_PROC_ARGS | F_PROC_MAP | F_MOUNTLIST | F_FSUSAGE
  | F_NETLOAD | F_PPP | F_NETLIST | F_PROC_OPEN_FILES | F_PROC_WD | F_PROC_AFFINITY
  | F_PROC_IO | F_DISK

fun feature_nr :: "feature \<Rightarrow> nat" where
  "feature_nr F_CPU = 1"
| "feature_nr F_MEM = 2"
| "feature_nr F_SWAP = 3"
| "feature_nr F_UPTIME = 4"
| "feature_nr F_LOADAVG = 5"
| "feature_nr F_SHM_LIMITS = 6"
| "feature_nr F_MSG_LIMITS = 7"
| "feature_nr F_SEM_LIMITS = 8"
| "feature_nr F_PROCLIST = 9"
| "feature_nr F_PROC_STATE = 10"
| "feature_nr F_PROC_UID = 11"
| "feature_nr F_PROC_MEM = 12"
| "feature_nr F_PROC_TIME = 13"
| "feature_nr F_PROC_SIGNAL = 14"
| "feature_nr F_PROC_KERNEL = 15"
| "feature_nr F_PROC_SEGMENT = 16"
| "feature_nr F_PROC_ARGS = 17"
| "feature_nr F_PROC_MAP = 18"
| "feature_nr F_MOUNTLIST = 19"
| "feature_nr F_FSUSAGE = 20"
| "feature_nr F_NETLOAD = 21"
| "feature_nr F_PPP = 22"
| "feature_nr F_NETLIST = 23"
| "feature_nr F_PROC_OPEN_FILES = 24"
| "feature_nr F_PROC_WD = 25"
| "feature_nr F_PROC_AFFINITY = 26"
| "feature_nr F_PROC_IO = 27"
| "feature_nr F_DISK = 28"

text \<open>The features are ordered by their numbers.\<close>

lemma feature_nr_inj: "feature_nr f = feature_nr g \<Longrightarrow> f = g"
  by (cases f; cases g) simp_all

instantiation feature :: linorder
begin

definition less_eq_feature :: "feature \<Rightarrow> feature \<Rightarrow> bool" where
  "less_eq_feature f g = (feature_nr f \<le> feature_nr g)"

definition less_feature :: "feature \<Rightarrow> feature \<Rightarrow> bool" where
  "less_feature f g = (feature_nr f < feature_nr g)"

instance
  by standard (auto simp: less_eq_feature_def less_feature_def feature_nr_inj)

end

definition GLIBTOP_SYSDEPS_ALL :: guint64 where
  "GLIBTOP_SYSDEPS_ALL = push_bit 29 1 - 1"

text \<open>\<open>struct _glibtop_sysdeps\<close>: one \<open>guint64\<close> per feature, in the order of the struct.\<close>

record glibtop_sysdeps =
  sd_flags :: guint64
  sd_features :: guint64
  sd :: "feature \<Rightarrow> guint64"
  sd_reserved :: "nat \<Rightarrow> guint64"

definition sysdeps_members :: "feature list" where
  "sysdeps_members =
     [F_CPU, F_MEM, F_SWAP, F_UPTIME, F_LOADAVG, F_SHM_LIMITS, F_MSG_LIMITS, F_SEM_LIMITS,
      F_PROCLIST, F_PROC_STATE, F_PROC_UID, F_PROC_MEM, F_PROC_TIME, F_PROC_SIGNAL,
      F_PROC_KERNEL, F_PROC_SEGMENT, F_PROC_ARGS, F_PROC_MAP, F_PROC_OPEN_FILES, F_MOUNTLIST,
      F_FSUSAGE, F_NETLIST, F_NETLOAD, F_PPP, F_PROC_WD, F_PROC_AFFINITY, F_PROC_IO, F_DISK]"

definition sizeof_sysdeps :: nat where "sizeof_sysdeps = 37 * 8"

text \<open>The bytes of the struct in memory, and back.\<close>

definition sysdeps_bytes :: "glibtop_sysdeps \<Rightarrow> string" where
  "sysdeps_bytes s =
     u64s_bytes (sd_flags s # sd_features s # map (sd s) sysdeps_members @ map (sd_reserved s) [0..<7])"

fun assoc_index :: "feature list \<Rightarrow> guint64 list \<Rightarrow> feature \<Rightarrow> guint64" where
  "assoc_index (f # fs) (w # ws) g = (if f = g then w else assoc_index fs ws g)"
| "assoc_index _ _ g = 0"

definition bytes_sysdeps :: "string \<Rightarrow> glibtop_sysdeps" where
  "bytes_sysdeps bs =
     (let ws = bytes_u64s 37 bs in
      \<lparr>sd_flags = ws ! 0, sd_features = ws ! 1,
       sd = assoc_index sysdeps_members (drop 2 ws),
       sd_reserved = (\<lambda>i. if i < 7 then ws ! (30 + i) else 0)\<rparr>)"

definition sysdeps_zero :: glibtop_sysdeps where
  "sysdeps_zero = \<lparr>sd_flags = 0, sd_features = 0, sd = (\<lambda>_. 0), sd_reserved = (\<lambda>_. 0)\<rparr>"

section \<open>The server structure\<close>

record glibtop_machine =
  m_uid :: int
  m_euid :: int
  m_gid :: int
  m_egid :: int

text \<open>\<open>server_user\<close>, \<open>uid\<close>, \<open>euid\<close>, \<open>gid\<close>, \<open>egid\<close> and \<open>real_ndisk\<close> are left out: no code
  reads or writes them.\<close>

record glibtop =
  s_flags :: "32 word"
  s_method :: "32 word"
  s_error_method :: "32 word"
  s_input :: "int \<times> int"
  s_output :: "int \<times> int"
  s_socket :: int
  s_ncpu :: int
  s_real_ncpu :: int
  s_os_version_code :: nat
  s_name :: "string option"
  s_server_command :: "string option"
  s_server_host :: "string option"
  s_server_rsh :: "string option"
  s_features :: guint64
  s_server_port :: guint64
  s_sysdeps :: glibtop_sysdeps
  s_required :: glibtop_sysdeps
  s_pid :: int
  s_machine :: "glibtop_machine option"
  s_ndisk :: int

definition glibtop_global_server :: glibtop where
  \<comment> \<open>static storage: everything zero\<close>
  "glibtop_global_server =
     \<lparr>s_flags = 0, s_method = 0, s_error_method = 0, s_input = (0, 0), s_output = (0, 0),
      s_socket = 0, s_ncpu = 0, s_real_ncpu = 0, s_os_version_code = 0, s_name = None,
      s_server_command = None, s_server_host = None, s_server_rsh = None, s_features = 0,
      s_server_port = 0, s_sysdeps = sysdeps_zero, s_required = sysdeps_zero, s_pid = 0,
      s_machine = None, s_ndisk = 0\<rparr>"

abbreviation (input) "GLIBTOP_INIT_STATE_INIT \<equiv> 0x10000 :: 32 word"
abbreviation (input) "GLIBTOP_INIT_STATE_OPEN \<equiv> 0x20000 :: 32 word"
abbreviation (input) "GLIBTOP_INIT_STATE_SERVER \<equiv> 0x40000 :: 32 word"
abbreviation (input) "GLIBTOP_INIT_STATE_SYSDEPS \<equiv> 0x80000 :: 32 word"

abbreviation (input) "GLIBTOP_INIT_NO_OPEN \<equiv> 1 :: 32 word"
abbreviation (input) "GLIBTOP_INIT_NO_INIT \<equiv> 2 :: 32 word"
abbreviation (input) "GLIBTOP_FEATURES_NO_SERVER \<equiv> 4 :: 32 word"
abbreviation (input) "GLIBTOP_FEATURES_EXCEPT \<equiv> 8 :: 32 word"

abbreviation (input) "GLIBTOP_METHOD_DIRECT \<equiv> 1 :: 32 word"
abbreviation (input) "GLIBTOP_METHOD_PIPE \<equiv> 2 :: 32 word"
abbreviation (input) "GLIBTOP_METHOD_INET \<equiv> 3 :: 32 word"
abbreviation (input) "GLIBTOP_METHOD_UNIX \<equiv> 4 :: 32 word"

abbreviation (input) "GLIBTOP_ERROR_METHOD_IGNORE \<equiv> 0 :: 32 word"
abbreviation (input) "GLIBTOP_ERROR_METHOD_WARN_ONCE \<equiv> 1 :: 32 word"
abbreviation (input) "GLIBTOP_ERROR_METHOD_WARN \<equiv> 2 :: 32 word"
abbreviation (input) "GLIBTOP_ERROR_METHOD_ABORT \<equiv> 3 :: 32 word"

definition set_sysdeps :: "feature \<Rightarrow> guint64 \<Rightarrow> glibtop \<Rightarrow> glibtop" where
  \<comment> \<open>\<open>server->sysdeps.f = v\<close>\<close>
  "set_sysdeps f v s = s\<lparr>s_sysdeps := (s_sysdeps s)\<lparr>sd := (sd (s_sysdeps s))(f := v)\<rparr>\<rparr>"

section \<open>Which features need the server\<close>

text \<open>
  A port defines \<open>GLIBTOP_SUID_f\<close> as 0 or as the bit of the feature: \<open>suid f\<close> says which.
  \<open>server_features_terms\<close> are the summands of \<open>glibtop_server_features\<close>, and the init hooks
  are kept as the features whose hook the tables hold, in their order.
\<close>

definition GLIBTOP_SUID :: "(feature \<Rightarrow> bool) \<Rightarrow> feature \<Rightarrow> guint64" where
  "GLIBTOP_SUID suid f = (if suid f then push_bit (feature_nr f) 1 else 0)"

definition server_features_terms :: "feature list" where
  "server_features_terms =
     [F_CPU, F_DISK, F_MEM, F_SWAP, F_UPTIME, F_LOADAVG, F_SHM_LIMITS, F_MSG_LIMITS, F_SEM_LIMITS,
      F_PROCLIST, F_PROC_STATE, F_PROC_UID, F_PROC_MEM, F_PROC_TIME, F_PROC_SIGNAL,
      F_PROC_KERNEL, F_PROC_SEGMENT, F_PROC_ARGS, F_PROC_MAP, F_PROC_OPEN_FILES, F_NETLOAD,
      F_NETLIST, F_PROC_WD, F_PROC_AFFINITY, F_PPP, F_PROC_IO]"

definition glibtop_server_features :: "(feature \<Rightarrow> bool) \<Rightarrow> guint64" where
  "glibtop_server_features suid = sum_list (map (GLIBTOP_SUID suid) server_features_terms)"

definition init_hook_table :: "feature list" where
  "init_hook_table =
     [F_CPU, F_DISK, F_MEM, F_SWAP, F_UPTIME, F_LOADAVG, F_SHM_LIMITS, F_MSG_LIMITS, F_SEM_LIMITS,
      F_PROCLIST, F_PROC_STATE, F_PROC_UID, F_PROC_MEM, F_PROC_TIME, F_PROC_SIGNAL,
      F_PROC_KERNEL, F_PROC_SEGMENT, F_PROC_ARGS, F_PROC_MAP, F_NETLOAD, F_NETLIST, F_PROC_WD,
      F_PROC_AFFINITY, F_PPP, F_PROC_IO, F_PROC_OPEN_FILES]"

definition glibtop_init_hook_s :: "(feature \<Rightarrow> bool) \<Rightarrow> feature list" where
  "glibtop_init_hook_s suid = filter (\<lambda>f. \<not> suid f) init_hook_table"

definition glibtop_init_hook_p :: "(feature \<Rightarrow> bool) \<Rightarrow> feature list" where
  "glibtop_init_hook_p suid = filter suid init_hook_table"

text \<open>The table that \<open>sysdeps_suid.c\<close> gives to the setuid server.\<close>

definition suid_init_hook_p :: "(feature \<Rightarrow> bool) \<Rightarrow> feature list" where
  "suid_init_hook_p suid = filter suid
     [F_CPU, F_DISK, F_MEM, F_SWAP, F_UPTIME, F_LOADAVG, F_SHM_LIMITS, F_MSG_LIMITS, F_SEM_LIMITS,
      F_PROCLIST, F_PROC_STATE, F_PROC_UID, F_PROC_MEM, F_PROC_TIME, F_PROC_SIGNAL,
      F_PROC_KERNEL, F_PROC_SEGMENT, F_PROC_ARGS, F_PROC_MAP, F_NETLOAD, F_NETLIST, F_PPP,
      F_PROC_IO]"

definition glibtop_get_sysdeps_r :: "glibtop \<Rightarrow> glibtop_sysdeps" where
  "glibtop_get_sysdeps_r server = s_sysdeps server"

section \<open>Parameters\<close>

abbreviation (input) "GLIBTOP_PARAM_METHOD \<equiv> 1 :: nat"
abbreviation (input) "GLIBTOP_PARAM_FEATURES \<equiv> 2 :: nat"
abbreviation (input) "GLIBTOP_PARAM_COMMAND \<equiv> 3 :: nat"
abbreviation (input) "GLIBTOP_PARAM_HOST \<equiv> 4 :: nat"
abbreviation (input) "GLIBTOP_PARAM_PORT \<equiv> 5 :: nat"
abbreviation (input) "GLIBTOP_PARAM_ERROR_METHOD \<equiv> 6 :: nat"
abbreviation (input) "GLIBTOP_PARAM_REQUIRED \<equiv> 7 :: nat"

text \<open>
  The macro \<open>_write_data\<close>: the value returned (a \<open>size_t\<close>) and the bytes written to
  \<open>data_ptr\<close>. \<open>have_ptr\<close> is \<open>data_ptr != NULL\<close>, and the buffer has \<open>data_size\<close> bytes: the NUL
  written for a NULL pointer does not fit into an empty one.
\<close>

definition write_data :: "bool \<Rightarrow> nat \<Rightarrow> string option \<Rightarrow> (guint64 \<times> string) res" where
  "write_data have_ptr data_size ptr =
     (let size = (case ptr of None \<Rightarrow> 0 | Some bs \<Rightarrow> length bs) in
      if \<not> have_ptr \<or> data_size < size then Inr (- of_nat size, [])
      else case ptr of
        None \<Rightarrow> if data_size = 0 then Inl (Crash ''write behind data_ptr'') else Inr (1, [NUL])
      | Some bs \<Rightarrow> Inr (of_nat size, bs))"

definition glibtop_get_parameter_l ::
  "glibtop \<Rightarrow> nat \<Rightarrow> bool \<Rightarrow> nat \<Rightarrow> (guint64 \<times> string) res" where
  "glibtop_get_parameter_l server parameter have_ptr data_size =
     (if parameter = GLIBTOP_PARAM_METHOD then
        write_data have_ptr data_size (Some (u32_bytes (s_method server)))
      else if parameter = GLIBTOP_PARAM_FEATURES then
        write_data have_ptr data_size (Some (u64_bytes (s_features server)))
      else if parameter = GLIBTOP_PARAM_COMMAND then
        write_data have_ptr data_size (s_server_command server)
      else if parameter = GLIBTOP_PARAM_HOST then
        write_data have_ptr data_size (s_server_host server)
      else if parameter = GLIBTOP_PARAM_PORT then
        write_data have_ptr data_size (Some (u64_bytes (s_server_port server)))
      else if parameter = GLIBTOP_PARAM_ERROR_METHOD then
        write_data have_ptr data_size (Some (u32_bytes (s_error_method server)))
      else if parameter = GLIBTOP_PARAM_REQUIRED then
        write_data have_ptr data_size (Some (sysdeps_bytes (s_required server)))
      else Inr (0, []))"

text \<open>\<open>data\<close> is what \<open>data_ptr\<close> points at (\<open>None\<close>: it is NULL), \<open>data_size\<close> its length.\<close>

definition check_data :: "string option \<Rightarrow> nat \<Rightarrow> bool" where
  "check_data data n = (case data of None \<Rightarrow> False | Some bs \<Rightarrow> length bs = n)"

definition glibtop_set_parameter_l :: "glibtop \<Rightarrow> nat \<Rightarrow> string option \<Rightarrow> glibtop" where
  "glibtop_set_parameter_l server parameter data =
     (if parameter = GLIBTOP_PARAM_METHOD then
        (if check_data data 4 then server\<lparr>s_method := bytes_u32 (the data)\<rparr> else server)
      else if parameter = GLIBTOP_PARAM_ERROR_METHOD then
        (if check_data data 4 then server\<lparr>s_error_method := bytes_u32 (the data)\<rparr> else server)
      else if parameter = GLIBTOP_PARAM_REQUIRED then
        (if check_data data sizeof_sysdeps then server\<lparr>s_required := bytes_sysdeps (the data)\<rparr>
         else server)
      else server)"

section \<open>Round trips\<close>

definition sysdeps_words :: "glibtop_sysdeps \<Rightarrow> guint64 list" where
  "sysdeps_words s =
     sd_flags s # sd_features s # map (sd s) sysdeps_members @ map (sd_reserved s) [0..<7]"

lemma length_sysdeps_words [simp]: "length (sysdeps_words s) = 37"
  by (simp add: sysdeps_words_def sysdeps_members_def)

lemma length_sysdeps_bytes [simp]: "length (sysdeps_bytes s) = sizeof_sysdeps"
  by (simp add: sysdeps_bytes_def sizeof_sysdeps_def sysdeps_members_def)

lemma words_of_sysdeps [simp]: "bytes_u64s 37 (sysdeps_bytes s @ r) = sysdeps_words s"
  by (simp add: sysdeps_bytes_def sysdeps_words_def [symmetric] bytes_u64s_u64s)

lemma assoc_index_members: "assoc_index sysdeps_members (map v sysdeps_members @ r) f = v f"
  by (cases f) (simp_all add: sysdeps_members_def)

lemma sysdeps_round_trip:
  "bytes_sysdeps (sysdeps_bytes s @ r) = s\<lparr>sd_reserved := (\<lambda>i. if i < 7 then sd_reserved s i else 0)\<rparr>"
proof -
  have "sysdeps_words s ! (30 + i) = sd_reserved s i" if "i < 7" for i
  proof -
    have "length (sd_flags s # sd_features s # map (sd s) sysdeps_members) = 30"
      by (simp add: sysdeps_members_def)
    then show ?thesis using that nth_append_length_plus
        [of "sd_flags s # sd_features s # map (sd s) sysdeps_members" "map (sd_reserved s) [0..<7]" i]
      by (simp add: sysdeps_words_def)
  qed
  moreover have "sysdeps_words s ! 0 = sd_flags s" "sysdeps_words s ! 1 = sd_features s"
    "drop 2 (sysdeps_words s) = map (sd s) sysdeps_members @ map (sd_reserved s) [0..<7]"
    by (simp_all add: sysdeps_words_def)
  moreover have "assoc_index sysdeps_members (map (sd s) sysdeps_members @ r) = sd s" for r
    by (rule ext) (rule assoc_index_members)
  ultimately show ?thesis
    by (simp add: bytes_sysdeps_def Let_def fun_eq_iff cong: if_cong)
qed

lemma write_data_value:
  "length bs \<le> n \<Longrightarrow> write_data True n (Some bs) = Inr (of_nat (length bs), bs)"
  by (simp add: write_data_def)

lemma check_data_iff: "check_data data n \<longleftrightarrow> data \<noteq> None \<and> length (the data) = n"
  by (simp add: check_data_def split: option.split)

lemma set_parameter_masked:
  "s\<lparr>s_method := m, s_method := 0, s_error_method := 0, s_required := sysdeps_zero\<rparr>
     = s\<lparr>s_method := 0, s_error_method := 0, s_required := sysdeps_zero\<rparr>"
  "s\<lparr>s_error_method := m, s_method := 0, s_error_method := 0, s_required := sysdeps_zero\<rparr>
     = s\<lparr>s_method := 0, s_error_method := 0, s_required := sysdeps_zero\<rparr>"
  "s\<lparr>s_required := r, s_method := 0, s_error_method := 0, s_required := sysdeps_zero\<rparr>
     = s\<lparr>s_method := 0, s_error_method := 0, s_required := sysdeps_zero\<rparr>"
  by simp_all

text \<open>
  C9. Setting a parameter and reading it back: for the three parameters that can be set, a value of
  the right length is what a reader with room for it gets, with its length; any other length, a NULL
  pointer, and the read-only parameters leave the structure unchanged; each of the three fields changes
  only by its own parameter, and no other field by any.
\<close>

theorem parameter_round_trip:
  assumes "\<forall>i\<ge>7. sd_reserved r i = 0"
  shows "(\<forall>n\<ge>4. glibtop_get_parameter_l (glibtop_set_parameter_l s GLIBTOP_PARAM_METHOD (Some (u32_bytes m)))
        GLIBTOP_PARAM_METHOD True n = Inr (4, u32_bytes m))
    \<and> (\<forall>n\<ge>4. glibtop_get_parameter_l (glibtop_set_parameter_l s GLIBTOP_PARAM_ERROR_METHOD (Some (u32_bytes m)))
        GLIBTOP_PARAM_ERROR_METHOD True n = Inr (4, u32_bytes m))
    \<and> (\<forall>n\<ge>sizeof_sysdeps. glibtop_get_parameter_l (glibtop_set_parameter_l s GLIBTOP_PARAM_REQUIRED
        (Some (sysdeps_bytes r))) GLIBTOP_PARAM_REQUIRED True n = Inr (of_nat sizeof_sysdeps, sysdeps_bytes r))
    \<and> (p \<notin> {GLIBTOP_PARAM_METHOD, GLIBTOP_PARAM_ERROR_METHOD, GLIBTOP_PARAM_REQUIRED} \<or> data = None
        \<or> p \<noteq> GLIBTOP_PARAM_REQUIRED \<and> length (the data) \<noteq> 4 \<or> p = GLIBTOP_PARAM_REQUIRED \<and> length (the data) \<noteq> sizeof_sysdeps
        \<longrightarrow> glibtop_set_parameter_l s p data = s)
    \<and> (glibtop_set_parameter_l s p data)\<lparr>s_method := 0, s_error_method := 0, s_required := sysdeps_zero\<rparr>
        = s\<lparr>s_method := 0, s_error_method := 0, s_required := sysdeps_zero\<rparr>
    \<and> (p \<noteq> GLIBTOP_PARAM_METHOD \<longrightarrow> s_method (glibtop_set_parameter_l s p data) = s_method s)
    \<and> (p \<noteq> GLIBTOP_PARAM_ERROR_METHOD \<longrightarrow> s_error_method (glibtop_set_parameter_l s p data) = s_error_method s)
    \<and> (p \<noteq> GLIBTOP_PARAM_REQUIRED \<longrightarrow> s_required (glibtop_set_parameter_l s p data) = s_required s)"
proof (intro conjI)
  show "(glibtop_set_parameter_l s p data)\<lparr>s_method := 0, s_error_method := 0, s_required := sysdeps_zero\<rparr>
        = s\<lparr>s_method := 0, s_error_method := 0, s_required := sysdeps_zero\<rparr>"
    unfolding glibtop_set_parameter_l_def by (simp only: set_parameter_masked split: if_split) simp
  show "p \<notin> {GLIBTOP_PARAM_METHOD, GLIBTOP_PARAM_ERROR_METHOD, GLIBTOP_PARAM_REQUIRED} \<or> data = None
        \<or> p \<noteq> GLIBTOP_PARAM_REQUIRED \<and> length (the data) \<noteq> 4 \<or> p = GLIBTOP_PARAM_REQUIRED \<and> length (the data) \<noteq> sizeof_sysdeps
        \<longrightarrow> glibtop_set_parameter_l s p data = s"
    by (intro impI, elim disjE) (simp_all add: glibtop_set_parameter_l_def check_data_iff)
  have "(\<lambda>i. if i < 7 then sd_reserved r i else 0) = sd_reserved r" using assms by (auto simp: fun_eq_iff)
  then have "bytes_sysdeps (sysdeps_bytes r) = r" using sysdeps_round_trip [of r "[]"] by simp
  then show "\<forall>n\<ge>sizeof_sysdeps. glibtop_get_parameter_l (glibtop_set_parameter_l s GLIBTOP_PARAM_REQUIRED
        (Some (sysdeps_bytes r))) GLIBTOP_PARAM_REQUIRED True n = Inr (of_nat sizeof_sysdeps, sysdeps_bytes r)"
    by (simp add: glibtop_get_parameter_l_def glibtop_set_parameter_l_def check_data_def write_data_value)
qed (simp_all add: glibtop_get_parameter_l_def glibtop_set_parameter_l_def check_data_def write_data_value)

theorem parameter_round_trip_witness:
  "glibtop_get_parameter_l (glibtop_set_parameter_l glibtop_global_server GLIBTOP_PARAM_METHOD (Some (u32_bytes 3)))
     GLIBTOP_PARAM_METHOD True 8 = Inr (4, u32_bytes 3)"
proof -
  have "\<forall>i\<ge>7. sd_reserved sysdeps_zero i = 0" by (simp add: sysdeps_zero_def)
  from parameter_round_trip [OF this, of glibtop_global_server 3 0 None] show ?thesis by simp
qed

end
