(* ===== verification/Wire.thy ===== *)
theory Wire
  imports Server
begin

text \<open>
  The protocol between a client and a server: \<open>include/glibtop/command.h\<close>, the client's side
  in \<open>lib/command.c\<close>, \<open>lib/read.c\<close>, \<open>lib/write.c\<close>, the server's side in \<open>src/daemon/io.c\<close>.

  A connection delivers a list of events: bytes, the end of the stream, an interruption, an
  error. A call of \<open>read\<close> or \<open>recv\<close> takes what is there, at most as many bytes as it asked
  for; behind the end of the list a call blocks.
\<close>

section \<open>Streams\<close>

datatype nev = Recv string | Eof | Eintr | Eerr

fun stream_bytes :: "nev list \<Rightarrow> string" where
  "stream_bytes [] = []"
| "stream_bytes (Recv c # evs) = c @ stream_bytes evs"
| "stream_bytes (_ # evs) = stream_bytes evs"

definition smooth :: "nev list \<Rightarrow> bool" where
  \<comment> \<open>nothing but data\<close>
  "smooth evs \<longleftrightarrow> (\<forall>e\<in>set evs. \<exists>c. e = Recv c \<and> c \<noteq> [])"

definition flowing :: "nev list \<Rightarrow> bool" where
  \<comment> \<open>data, and perhaps interruptions\<close>
  "flowing evs \<longleftrightarrow> (\<forall>e\<in>set evs. e = Eintr \<or> (\<exists>c. e = Recv c \<and> c \<noteq> []))"

text \<open>\<open>glibtop_read_l\<close>: exactly \<open>size\<close> bytes, or no return.\<close>

fun glibtop_read_l :: "nat \<Rightarrow> nev list \<Rightarrow> (string \<times> nev list) res" where
  "glibtop_read_l n [] = (if n = 0 then Inr ([], []) else Inl Blocks)"
| "glibtop_read_l n (Eintr # evs) =
     (if n = 0 then Inr ([], Eintr # evs) else glibtop_read_l n evs)"
| "glibtop_read_l n (Eof # evs) =
     (if n = 0 then Inr ([], Eof # evs) else Inl (Exit ''read''))"
| "glibtop_read_l n (Eerr # evs) =
     (if n = 0 then Inr ([], Eerr # evs) else Inl (Exit ''read''))"
| "glibtop_read_l n (Recv c # evs) =
     (if n = 0 then Inr ([], Recv c # evs)
      else if c = [] then Inl (Exit ''read'')
      else if n < length c then Inr (take n c, Recv (drop n c) # evs)
      else bind_res (glibtop_read_l (n - length c) evs) (\<lambda>(bs, evs). Inr (c @ bs, evs)))"

text \<open>
  \<open>do_read\<close>: the value returned (0 or \<open>total_size\<close>), the bytes stored at \<open>ptr\<close>, and what is
  left of the stream. Any failure, an interruption too, ends the loop.
\<close>

fun do_read_loop :: "nat \<Rightarrow> nat \<Rightarrow> nev list \<Rightarrow> (nat \<times> string \<times> nev list) res" where
  "do_read_loop already remaining [] =
     (if remaining = 0 then Inr (already, [], []) else Inl Blocks)"
| "do_read_loop already remaining (e # evs) =
     (if remaining = 0 then Inr (already, [], e # evs)
      else case e of
        Recv c \<Rightarrow>
          (if c = [] then Inr (0, [], evs)
           else if remaining < length c
           then Inr (already + remaining, take remaining c, Recv (drop remaining c) # evs)
           else bind_res (do_read_loop (already + length c) (remaining - length c) evs)
                  (\<lambda>(n, bs, evs). Inr (n, c @ bs, evs)))
      | _ \<Rightarrow> Inr (0, [], evs))"

definition do_read :: "nat \<Rightarrow> nev list \<Rightarrow> (nat \<times> string \<times> nev list) res" where
  "do_read total_size evs = do_read_loop 0 total_size evs"

text \<open>
  \<open>glibtop_write_l\<close>: what the successive calls of \<open>write\<close> return, the first one that is not
  interrupted ends the loop; behind the list, \<open>write\<close> takes everything. The result is what
  got into the stream: a short write is not continued.
\<close>

datatype wev = Wintr | Werr | Wshort nat

fun glibtop_write_l :: "string \<Rightarrow> wev list \<Rightarrow> (string \<times> wev list) res" where
  "glibtop_write_l buf [] = Inr (buf, [])"
| "glibtop_write_l buf (w # ws) =
     (if buf = [] then Inr ([], w # ws)
      else case w of
        Wintr \<Rightarrow> glibtop_write_l buf ws
      | Werr \<Rightarrow> Inl (Exit ''wrote'')
      | Wshort n \<Rightarrow> Inr (take n buf, ws))"

text \<open>
  \<open>glibtop_read_data_l\<close>: one call for the size, one for the data, and only a negative result
  is an error. \<open>garbage\<close> is what the uninitialised \<open>size\<close> and \<open>ptr\<close> held: the bytes that no
  call wrote stay.
\<close>

fun recv_once :: "nat \<Rightarrow> nev list \<Rightarrow> (string \<times> nev list) res" where
  "recv_once n [] = Inl Blocks"
| "recv_once n (Recv c # evs) =
     Inr (take n c, if n < length c then Recv (drop n c) # evs else evs)"
| "recv_once n (Eof # evs) = Inr ([], evs)"
| "recv_once n (_ # evs) = Inl (Exit ''read data'')"

definition glibtop_read_data_l ::
  "string \<Rightarrow> (nat \<Rightarrow> string) \<Rightarrow> nev list \<Rightarrow> (string option \<times> nev list) res" where
  "glibtop_read_data_l garbage heap evs =
     bind_res (recv_once 8 evs) (\<lambda>(bs, evs).
       let n = unat (bytes_u64 (bs @ drop (length bs) garbage)) in
       if n = 0 then Inr (None, evs)
       else bind_res (recv_once n evs) (\<lambda>(bs, evs).
         Inr (Some (bs @ drop (length bs) (heap n)), evs)))"

section \<open>Commands and responses\<close>

definition PARAM_SIZE :: nat where "PARAM_SIZE = 16"
definition sizeof_command :: nat where "sizeof_command = 3 * 8 + PARAM_SIZE"

record glibtop_command =
  c_command :: guint64
  c_size :: guint64
  c_data_size :: guint64
  c_parameter :: string

definition command_bytes :: "glibtop_command \<Rightarrow> string" where
  "command_bytes c =
     u64_bytes (c_command c) @ u64_bytes (c_size c) @ u64_bytes (c_data_size c) @ c_parameter c"

definition bytes_command :: "string \<Rightarrow> glibtop_command" where
  "bytes_command bs =
     \<lparr>c_command = bytes_u64 bs, c_size = bytes_u64 (drop 8 bs), c_data_size = bytes_u64 (drop 16 bs),
      c_parameter = take PARAM_SIZE (drop 24 bs)\<rparr>"

text \<open>
  The largest member of the union is \<open>glibtop_cpu\<close>: ten words, eight arrays with one word for
  each of 1024 processors, one word. Every member starts where the union starts.
\<close>

definition sizeof_union :: nat where "sizeof_union = 8 * (10 + 8 * 1024 + 1)"
definition offset_union :: nat where "offset_union = 3 * 8"
definition sizeof_response :: nat where "sizeof_response = offset_union + sizeof_union"

record glibtop_response =
  r_offset :: "64 word"  \<comment> \<open>signed\<close>
  r_size :: guint64
  r_data_size :: guint64
  r_u :: string

definition response_bytes :: "glibtop_response \<Rightarrow> string" where
  "response_bytes r =
     u64_bytes (r_offset r) @ u64_bytes (r_size r) @ u64_bytes (r_data_size r) @ r_u r"

definition bytes_response :: "string \<Rightarrow> glibtop_response" where
  "bytes_response bs =
     \<lparr>r_offset = bytes_u64 bs, r_size = bytes_u64 (drop 8 bs), r_data_size = bytes_u64 (drop 16 bs),
      r_u = take sizeof_union (drop offset_union bs)\<rparr>"

definition union_of :: "string \<Rightarrow> string" where
  \<comment> \<open>a member written over the zeroed union\<close>
  "union_of st = st @ replicate (sizeof_union - length st) NUL"

text \<open>\<open>do_output\<close>: the response, then \<open>data_size\<close> bytes from \<open>data\<close>.\<close>

definition do_output :: "glibtop_response \<Rightarrow> nat \<Rightarrow> guint64 \<Rightarrow> string option \<Rightarrow> string res" where
  "do_output resp offset data_size data =
     (let resp = resp\<lparr>r_offset := of_nat offset, r_data_size := data_size\<rparr> in
      if data_size = 0 then Inr (response_bytes resp)
      else case data of
        None \<Rightarrow> Inl (Crash ''write from NULL'')
      | Some d \<Rightarrow>
          if length d < unat data_size then Inl (Crash ''write behind data'')
          else Inr (response_bytes resp @ take (unat data_size) d))"

section \<open>A call\<close>

abbreviation (input) "GLIBTOP_CMND_QUIT \<equiv> 0 :: nat"
abbreviation (input) "GLIBTOP_CMND_SYSDEPS \<equiv> 1 :: nat"

definition GLIBTOP_CMND :: "feature \<Rightarrow> nat" where
  \<comment> \<open>the numbers of \<open>command.h\<close> are those of the features, plus one\<close>
  "GLIBTOP_CMND f = feature_nr f + 1"

abbreviation (input) "GLIBTOP_MAX_CMND \<equiv> 30 :: nat"

record connection =
  to_server :: string
  write_events :: "wev list"
  from_server :: "nev list"

text \<open>The command that \<open>glibtop_call_l\<close> writes.\<close>

definition call_command :: "nat \<Rightarrow> string \<Rightarrow> glibtop_command" where
  "call_command command send_buf =
     (let send_size = length send_buf;
          cmnd = \<lparr>c_command = of_nat command, c_size = 0, c_data_size = 0,
                  c_parameter = replicate PARAM_SIZE NUL\<rparr>
      in if send_size \<le> PARAM_SIZE
         then cmnd\<lparr>c_parameter := send_buf @ drop send_size (c_parameter cmnd), c_size := of_nat send_size\<rparr>
         else cmnd\<lparr>c_data_size := of_nat send_size\<rparr>)"

text \<open>
  \<open>glibtop_call_l\<close> behind its \<open>glibtop_init_r\<close>: the bytes for \<open>recv_buf\<close> (no \<open>recv_size\<close>:
  \<open>recv_buf\<close> is NULL), the data block it returns, and the connection afterwards.
\<close>

definition call_reply ::
  "nat option \<Rightarrow> connection \<Rightarrow> (string \<times> string option \<times> connection) res" where
  "call_reply recv_size conn =
     bind_res (glibtop_read_l sizeof_response (from_server conn)) (\<lambda>(response, evs).
     bind_res (case recv_size of
         None \<Rightarrow> Inr []
       | Some n \<Rightarrow>
           (let offset = sint (r_offset (bytes_response response)) in
            if offset < 0 \<or> sizeof_response < nat offset + n then Inl (Crash ''copy from outside of response'')
            else Inr (take n (drop (nat offset) response)))) (\<lambda>recv_buf.
     let data_size = r_data_size (bytes_response response) in
     if data_size = 0 then Inr (recv_buf, None, conn\<lparr>from_server := evs\<rparr>)
     else bind_res (glibtop_read_l (unat data_size) evs) (\<lambda>(data, evs).
       Inr (recv_buf, Some data, conn\<lparr>from_server := evs\<rparr>))))"

definition call_l ::
  "nat \<Rightarrow> string \<Rightarrow> nat option \<Rightarrow> connection \<Rightarrow> (string \<times> string option \<times> connection) res" where
  "call_l command send_buf recv_size conn =
     (if \<not> command < GLIBTOP_MAX_CMND then Inl (Exit ''assertion failed'')
      else bind_res (glibtop_write_l (command_bytes (call_command command send_buf)) (write_events conn))
        (\<lambda>(bs, ws). call_reply recv_size
           (conn\<lparr>to_server := to_server conn @ bs, write_events := ws\<rparr>)))"

section \<open>Reading is independent of how the bytes arrive\<close>

text \<open>
  The contract that both sides' read loops keep, as an interface: \<open>ok\<close> are the streams on which
  \<open>rd\<close> works; it delivers exactly the bytes asked for and leaves the others.
\<close>

locale exact_reader =
  fixes rd :: "nat \<Rightarrow> nev list \<Rightarrow> (string \<times> nev list) res"
    and ok :: "nev list \<Rightarrow> bool"
  assumes rd_exact: "ok evs \<Longrightarrow> n \<le> length (stream_bytes evs) \<Longrightarrow>
      \<exists>evs'. rd n evs = Inr (take n (stream_bytes evs), evs') \<and> ok evs'
        \<and> stream_bytes evs' = drop n (stream_bytes evs)"
    and rd_blocks: "ok evs \<Longrightarrow> length (stream_bytes evs) < n \<Longrightarrow> rd n evs = Inl Blocks"
begin

lemma rd_prefix:
  assumes "ok evs" and "stream_bytes evs = a @ b"
  obtains evs' where "rd (length a) evs = Inr (a, evs')" "ok evs'" "stream_bytes evs' = b"
  using rd_exact [of evs "length a"] assms by auto

lemma rd_two:
  assumes "ok evs" and "stream_bytes evs = a @ b @ c"
  obtains evs' evs'' where "rd (length a) evs = Inr (a, evs')" "rd (length b) evs' = Inr (b, evs'')"
    "ok evs'" "ok evs''" "stream_bytes evs' = b @ c" "stream_bytes evs'' = c"
proof -
  obtain evs' where 1: "rd (length a) evs = Inr (a, evs')" "ok evs'" "stream_bytes evs' = b @ c"
    using assms by (rule rd_prefix)
  obtain evs'' where 2: "rd (length b) evs' = Inr (b, evs'')" "ok evs''" "stream_bytes evs'' = c"
    using 1(2,3) by (rule rd_prefix)
  show ?thesis by (rule that [OF 1(1) 2(1) 1(2) 2(2) 1(3) 2(3)])
qed

lemma chunking_irrelevant:
  assumes "ok evs" "ok fvs" and "stream_bytes evs = stream_bytes fvs"
  shows "map_sum id fst (rd n evs) = map_sum id fst (rd n fvs)"
proof (cases "n \<le> length (stream_bytes evs)")
  case True
  then show ?thesis using rd_exact [OF assms(1) True] rd_exact [OF assms(2), of n] assms(3) by auto
next
  case False
  then show ?thesis using rd_blocks assms by simp
qed

end

lemma smooth_simps [simp]:
  "smooth []" "smooth (e # evs) \<longleftrightarrow> (\<exists>c. e = Recv c \<and> c \<noteq> []) \<and> smooth evs"
  by (auto simp: smooth_def)

lemma flowing_simps [simp]:
  "flowing []" "flowing (e # evs) \<longleftrightarrow> (e = Eintr \<or> (\<exists>c. e = Recv c \<and> c \<noteq> [])) \<and> flowing evs"
  by (auto simp: flowing_def)

lemma read_l_exact:
  "flowing evs \<Longrightarrow> n \<le> length (stream_bytes evs) \<Longrightarrow>
     \<exists>evs'. glibtop_read_l n evs = Inr (take n (stream_bytes evs), evs') \<and> flowing evs'
       \<and> stream_bytes evs' = drop n (stream_bytes evs)"
proof (induction n evs rule: glibtop_read_l.induct)
  case (5 n c evs)
  show ?case
  proof (cases "n = 0 \<or> n < length c")
    case True
    with "5.prems" show ?thesis by auto
  next
    case False
    then have n: "n \<noteq> 0" "\<not> n < length c" and c: "c \<noteq> []" using "5.prems" by auto
    obtain evs' where "glibtop_read_l (n - length c) evs = Inr (take (n - length c) (stream_bytes evs), evs')"
      "flowing evs'" "stream_bytes evs' = drop (n - length c) (stream_bytes evs)"
      using "5.IH" [OF n(1) c n(2)] "5.prems" by (auto simp: le_diff_conv)
    with n c show ?thesis by simp
  qed
qed auto

lemma read_l_blocks:
  "flowing evs \<Longrightarrow> length (stream_bytes evs) < n \<Longrightarrow> glibtop_read_l n evs = Inl Blocks"
  by (induction n evs rule: glibtop_read_l.induct) auto

interpretation client: exact_reader glibtop_read_l flowing
  by unfold_locales (simp_all add: read_l_exact read_l_blocks)

definition server_read :: "nat \<Rightarrow> nev list \<Rightarrow> (string \<times> nev list) res" where
  \<comment> \<open>\<open>do_read\<close> without its value\<close>
  "server_read n evs = bind_res (do_read n evs) (\<lambda>(k, bs, evs). Inr (bs, evs))"

lemma do_read_loop_exact:
  "smooth evs \<Longrightarrow> n \<le> length (stream_bytes evs) \<Longrightarrow>
     \<exists>evs'. do_read_loop already n evs = Inr (already + n, take n (stream_bytes evs), evs')
       \<and> smooth evs' \<and> stream_bytes evs' = drop n (stream_bytes evs)"
proof (induction already n evs rule: do_read_loop.induct)
  case (2 already n e evs)
  obtain c where e: "e = Recv c" "c \<noteq> []" using "2.prems" by auto
  show ?case
  proof (cases "n = 0 \<or> n < length c")
    case True
    with "2.prems" e show ?thesis by auto
  next
    case False
    then have n: "n \<noteq> 0" "\<not> n < length c" by auto
    obtain evs' where "do_read_loop (already + length c) (n - length c) evs =
        Inr (already + length c + (n - length c), take (n - length c) (stream_bytes evs), evs')"
      "smooth evs'" "stream_bytes evs' = drop (n - length c) (stream_bytes evs)"
      using "2.IH" [OF n(1) e(1,2) n(2)] "2.prems" e(1) by (auto simp: le_diff_conv)
    with n e show ?thesis by simp
  qed
qed simp

lemma do_read_loop_blocks:
  "smooth evs \<Longrightarrow> length (stream_bytes evs) < n \<Longrightarrow> do_read_loop already n evs = Inl Blocks"
  by (induction already n evs rule: do_read_loop.induct) auto

interpretation server: exact_reader server_read smooth
proof
  fix evs n assume "smooth evs" "n \<le> length (stream_bytes evs)"
  then show "\<exists>evs'. server_read n evs = Inr (take n (stream_bytes evs), evs') \<and> smooth evs'
      \<and> stream_bytes evs' = drop n (stream_bytes evs)"
    using do_read_loop_exact [of evs n 0] by (auto simp: server_read_def do_read_def)
next
  fix evs n assume "smooth evs" "length (stream_bytes evs) < n"
  then show "server_read n evs = Inl Blocks"
    by (simp add: server_read_def do_read_def do_read_loop_blocks)
qed

text \<open>The value of \<open>do_read\<close> on such a stream is the size asked for.\<close>

lemma do_read_server:
  assumes "smooth evs" and "server_read n evs = Inr (bs, evs')"
  shows "do_read n evs = Inr (n, bs, evs')"
proof (cases "n \<le> length (stream_bytes evs)")
  case True
  then show ?thesis
    using do_read_loop_exact [OF assms(1) True, of 0] assms(2) by (auto simp: server_read_def do_read_def)
next
  case False
  then show ?thesis using assms server.rd_blocks [of evs n] by simp
qed

abbreviation stream_size :: "nev list \<Rightarrow> nat" where
  "stream_size evs \<equiv> length (stream_bytes evs) + length evs"

lemma do_read_loop_size:
  "do_read_loop already n evs = Inr (k, bs, evs') \<Longrightarrow>
     stream_size evs' \<le> stream_size evs
     \<and> (k \<noteq> 0 \<longrightarrow> k = already + n \<and> length bs = n \<and> stream_size evs' + n \<le> stream_size evs)"
proof (induction already n evs arbitrary: k bs rule: do_read_loop.induct)
  case (2 already n e evs)
  show ?case
  proof (cases "n = 0 \<or> (\<forall>c. e \<noteq> Recv c \<or> c = [])")
    case True
    with "2.prems" show ?thesis by (cases e) (auto split: if_splits)
  next
    case False
    then obtain c where e: "n \<noteq> 0" "e = Recv c" "c \<noteq> []" by auto
    show ?thesis
    proof (cases "n < length c")
      case True
      with "2.prems" e show ?thesis by auto
    next
      case False
      with "2.prems" e obtain bs' where
        r: "do_read_loop (already + length c) (n - length c) evs = Inr (k, bs', evs')" "bs = c @ bs'"
        by (auto simp: bind_res_Inr_iff)
      from "2.IH" [OF e(1) e(2,3) False r(1)] False e r(2) show ?thesis by auto
    qed
  qed
qed (simp split: if_splits)

section \<open>Layout\<close>

lemma length_command_bytes [simp]:
  "length (command_bytes c) = 24 + length (c_parameter c)"
  by (simp add: command_bytes_def)

lemma bytes_command_bytes [simp]:
  "length (c_parameter c) = PARAM_SIZE \<Longrightarrow> bytes_command (command_bytes c) = c"
  by (simp add: bytes_command_def command_bytes_def)

lemma length_response_bytes [simp]: "length (response_bytes r) = 24 + length (r_u r)"
  by (simp add: response_bytes_def)

lemma bytes_response_bytes [simp]:
  "length (r_u r) = sizeof_union \<Longrightarrow> bytes_response (response_bytes r) = r"
  by (simp add: bytes_response_def response_bytes_def offset_union_def)

lemma length_union_of [simp]: "length st \<le> sizeof_union \<Longrightarrow> length (union_of st) = sizeof_union"
  by (simp add: union_of_def)

lemma take_union_of [simp]: "n \<le> length st \<Longrightarrow> take n (union_of st) = take n st"
  by (simp add: union_of_def)

lemma length_call_parameter [simp]:
  "length (c_parameter (call_command command send_buf)) = PARAM_SIZE"
  by (simp add: call_command_def Let_def)

text \<open>Reading a reply, whatever chunks it comes in.\<close>

lemma call_reply_output:
  assumes out: "do_output resp offset_union ds data = Inr bs"
    and u: "length (r_u resp) = sizeof_union" and n: "n \<le> sizeof_union"
    and evs: "flowing (from_server conn)" "stream_bytes (from_server conn) = bs @ rest"
  shows "\<exists>evs'. call_reply (Some n) conn = Inr (take n (r_u resp),
      if ds = 0 then None else map_option (take (unat ds)) data, conn\<lparr>from_server := evs'\<rparr>)
      \<and> flowing evs' \<and> stream_bytes evs' = rest"
proof -
  define r where "r = resp\<lparr>r_offset := of_nat offset_union, r_data_size := ds\<rparr>"
  define block where "block = (if ds = 0 then [] else take (unat ds) (the data))"
  have u': "length (r_u r) = sizeof_union" by (simp add: r_def u)
  have len: "length (response_bytes r) = sizeof_response"
    by (simp add: u' sizeof_response_def offset_union_def)
  have bs: "bs = response_bytes r @ block"
    and d: "ds \<noteq> 0 \<Longrightarrow> data \<noteq> None \<and> length block = unat ds"
    using out by (auto simp: do_output_def r_def block_def Let_def split: if_splits option.splits)
  obtain e1 e2 where rd: "glibtop_read_l sizeof_response (from_server conn) = Inr (response_bytes r, e1)"
    "glibtop_read_l (length block) e1 = Inr (block, e2)" "flowing e1" "flowing e2"
    "stream_bytes e1 = block @ rest" "stream_bytes e2 = rest"
    using client.rd_two [OF evs(1), of "response_bytes r" block rest] evs(2) bs len by auto
  have off: "sint (r_offset r) = 24" by (simp add: r_def offset_union_def)
  have tk: "take n (drop 24 (response_bytes r)) = take n (r_u resp)"
    by (simp add: response_bytes_def r_def)
  have bnd: "\<not> sizeof_response < 24 + n" using n by (simp add: sizeof_response_def offset_union_def)
  show ?thesis
  proof (cases "ds = 0")
    case True
    then have "e1 = from_server conn \<or> stream_bytes e1 = rest" using rd(5) by (simp add: block_def)
    with True rd show ?thesis
      by (auto simp: call_reply_def u' off tk bnd r_def [symmetric] Let_def block_def)
        (simp_all add: r_def)
  next
    case False
    with rd d show ?thesis
      by (auto simp: call_reply_def u' off tk bnd Let_def) (auto simp: r_def block_def)
  qed
qed

end
