(* ===== verification/Daemon.thy ===== *)
theory Daemon
  imports Wire
begin

unbundle bit_operations_syntax

text \<open>
  The servers: \<open>handle_parent_connection\<close> (\<open>src/daemon/main.c\<close>, the daemon that answers remote
  clients), \<open>handle_slave_connection\<close> (\<open>src/daemon/slave.c\<close>, the setuid server at the other end
  of a pipe), the greeting (\<open>src/daemon/version.c\<close>), and the parameters a client packs into a
  call (the stubs that \<open>lib/lib.pl\<close> generates from \<open>features.def\<close>).
\<close>

section \<open>Arguments of a feature\<close>

datatype call_arg =
    NoArg
  | ArgList "64 word" "64 word"       \<comment> \<open>\<open>which\<close>, \<open>arg\<close>\<close>
  | ArgPid "32 word"
  | ArgPidMax "32 word" "32 word"     \<comment> \<open>\<open>pid\<close>, \<open>max_len\<close>\<close>
  | ArgInt "32 word"                  \<comment> \<open>\<open>all_fs\<close>\<close>
  | ArgShort "16 word"                \<comment> \<open>\<open>device\<close>\<close>
  | ArgString string

text \<open>The columns of \<open>features.def\<close>: the arguments that the stub of a feature takes.\<close>

fun feature_arg :: "feature \<Rightarrow> call_arg \<Rightarrow> bool" where
  "feature_arg F_PROCLIST a = (case a of ArgList _ _ \<Rightarrow> True | _ \<Rightarrow> False)"
| "feature_arg F_PROC_ARGS a = (case a of ArgPidMax _ _ \<Rightarrow> True | _ \<Rightarrow> False)"
| "feature_arg F_MOUNTLIST a = (case a of ArgInt _ \<Rightarrow> True | _ \<Rightarrow> False)"
| "feature_arg F_PPP a = (case a of ArgShort _ \<Rightarrow> True | _ \<Rightarrow> False)"
| "feature_arg F_FSUSAGE a = (case a of ArgString s \<Rightarrow> NUL \<notin> set s | _ \<Rightarrow> False)"
| "feature_arg F_NETLOAD a = (case a of ArgString s \<Rightarrow> NUL \<notin> set s | _ \<Rightarrow> False)"
| "feature_arg f a =
     (if f \<in> {F_CPU, F_DISK, F_MEM, F_SWAP, F_UPTIME, F_LOADAVG, F_SHM_LIMITS, F_MSG_LIMITS,
              F_SEM_LIMITS, F_NETLIST}
      then a = NoArg else (case a of ArgPid _ \<Rightarrow> True | _ \<Rightarrow> False))"

text \<open>What \<open>send_ptr\<close> points at: the struct \<open>param_buf\<close>, or the string with its NUL.\<close>

fun send_buf :: "call_arg \<Rightarrow> string" where
  "send_buf NoArg = []"
| "send_buf (ArgList which arg) = u64_bytes which @ u64_bytes arg"
| "send_buf (ArgPid pid) = u32_bytes pid"
| "send_buf (ArgPidMax pid max_len) = u32_bytes pid @ u32_bytes max_len"
| "send_buf (ArgInt all_fs) = u32_bytes all_fs"
| "send_buf (ArgShort device) = u16_bytes device"
| "send_buf (ArgString s) = s @ [NUL]"

text \<open>\<open>sizeof (glibtop_f)\<close>\<close>

fun sizeof_struct :: "feature \<Rightarrow> nat" where
  "sizeof_struct F_CPU = 65624"
| "sizeof_struct F_MEM = 72"
| "sizeof_struct F_SWAP = 48"
| "sizeof_struct F_UPTIME = 32"
| "sizeof_struct F_LOADAVG = 56"
| "sizeof_struct F_SHM_LIMITS = 48"
| "sizeof_struct F_MSG_LIMITS = 64"
| "sizeof_struct F_SEM_LIMITS = 88"
| "sizeof_struct F_PROCLIST = 32"
| "sizeof_struct F_PROC_STATE = 80"
| "sizeof_struct F_PROC_UID = 336"
| "sizeof_struct F_PROC_MEM = 56"
| "sizeof_struct F_PROC_TIME = 16464"
| "sizeof_struct F_PROC_SIGNAL = 72"
| "sizeof_struct F_PROC_KERNEL = 112"
| "sizeof_struct F_PROC_SEGMENT = 72"
| "sizeof_struct F_PROC_ARGS = 16"
| "sizeof_struct F_PROC_MAP = 32"
| "sizeof_struct F_MOUNTLIST = 32"
| "sizeof_struct F_FSUSAGE = 72"
| "sizeof_struct F_NETLOAD = 160"
| "sizeof_struct F_PPP = 32"
| "sizeof_struct F_NETLIST = 16"
| "sizeof_struct F_PROC_OPEN_FILES = 32"
| "sizeof_struct F_PROC_WD = 448"
| "sizeof_struct F_PROC_AFFINITY = 16"
| "sizeof_struct F_PROC_IO = 120"
| "sizeof_struct F_DISK = 32784"

section \<open>The daemon\<close>

text \<open>
  The library functions that a server calls are a parameter: \<open>svc f a\<close> is what
  \<open>glibtop_get_f_l (server, &resp->u.data.f, a)\<close> writes into the struct, and the block it
  returns (\<open>None\<close>: it returns NULL, or nothing).
\<close>

type_synonym service = "feature \<Rightarrow> call_arg \<Rightarrow> (string \<times> string option) res"

text \<open>The part before the \<open>switch\<close>: the contents of \<open>parameter\<close>; \<open>None\<close> is the return after a
  warning. The value of the second \<open>do_read\<close> is not looked at.\<close>

definition fill :: "string \<Rightarrow> string" where
  \<comment> \<open>bytes at the start of the zeroed buffer\<close>
  "fill bs = bs @ replicate (BUFSIZ - length bs) NUL"

definition parent_parameter ::
  "glibtop_command \<Rightarrow> nev list \<Rightarrow> (string \<times> nev list) option res" where
  "parent_parameter cmnd evs =
     (if c_data_size cmnd \<noteq> 0 then
        (if BUFSIZ \<le> unat (c_data_size cmnd) then Inr None
         else bind_res (do_read (unat (c_data_size cmnd)) evs)
                (\<lambda>(_, bs, evs). Inr (Some (fill bs, evs))))
      else if c_size cmnd \<noteq> 0 then
        (if BUFSIZ \<le> unat (c_size cmnd) then Inr None
         else if length (c_parameter cmnd) < unat (c_size cmnd)
         then Inl (Crash ''memcpy from behind cmnd->parameter'')
         else Inr (Some (fill (take (unat (c_size cmnd)) (c_parameter cmnd)), evs)))
      else Inr (Some (fill [], evs)))"

text \<open>The argument each case of the \<open>switch\<close> takes out of \<open>parameter\<close>; \<open>None\<close> where a case has no
  code yet, or where there is no case.\<close>

fun parent_arg :: "feature \<Rightarrow> string \<Rightarrow> call_arg option" where
  "parent_arg F_PROCLIST p = Some (ArgList (bytes_u64 p) (bytes_u64 (drop 8 p)))"
| "parent_arg F_PROC_MAP p = Some (ArgPid (bytes_u32 p))"
| "parent_arg F_PROC_WD p = None"
| "parent_arg F_NETLIST p = None"
| "parent_arg F_PROC_ARGS p = Some (ArgPidMax (bytes_u32 p) 0)"
| "parent_arg F_PROC_STATE p = Some (ArgPid (bytes_u32 p))"
| "parent_arg F_PROC_UID p = Some (ArgPid (bytes_u32 p))"
| "parent_arg F_PROC_MEM p = Some (ArgPid (bytes_u32 p))"
| "parent_arg F_PROC_TIME p = Some (ArgPid (bytes_u32 p))"
| "parent_arg F_PROC_SIGNAL p = Some (ArgPid (bytes_u32 p))"
| "parent_arg F_PROC_KERNEL p = Some (ArgPid (bytes_u32 p))"
| "parent_arg F_PROC_SEGMENT p = Some (ArgPid (bytes_u32 p))"
| "parent_arg F_MOUNTLIST p = Some (ArgInt (bytes_u32 p))"
| "parent_arg F_FSUSAGE p = Some (ArgString (c_str p))"
| "parent_arg F_PROC_IO p = Some (ArgPid (bytes_u32 p))"
| "parent_arg F_PPP p = Some (ArgShort (bytes_u16 p))"
| "parent_arg F_NETLOAD p = Some (ArgString (c_str p))"
| "parent_arg F_PROC_OPEN_FILES p = None"
| "parent_arg F_PROC_AFFINITY p = None"
| "parent_arg f p = Some NoArg"

text \<open>The \<open>data_size\<close> that a case passes to \<open>do_output\<close>: the third word of the lists' structs is
  \<open>total\<close>, the second word of \<open>glibtop_proc_args\<close> is \<open>size\<close>.\<close>

definition output_size :: "feature \<Rightarrow> string \<Rightarrow> string option \<Rightarrow> guint64" where
  "output_size f u ptr =
     (if f \<in> {F_PROCLIST, F_PROC_MAP, F_MOUNTLIST} then bytes_u64 (drop 16 u)
      else if f = F_PROC_ARGS then (if ptr \<noteq> None then bytes_u64 (drop 8 u) + 1 else 0)
      else 0)"

definition zero_response :: glibtop_response where
  "zero_response = \<lparr>r_offset = 0, r_size = 0, r_data_size = 0, r_u = replicate sizeof_union NUL\<rparr>"

definition all_features :: "feature list" where
  "all_features = sysdeps_members"

definition command_feature :: "guint64 \<Rightarrow> feature option" where
  "command_feature command = find (\<lambda>f. of_nat (GLIBTOP_CMND f) = command) all_features"

text \<open>One command: the bytes written, and whether the loop goes on.\<close>

definition parent_command ::
  "service \<Rightarrow> glibtop_sysdeps \<Rightarrow> guint64 \<Rightarrow> string \<Rightarrow> (string \<times> bool) res" where
  "parent_command svc sysdeps command parameter =
     (if command = of_nat GLIBTOP_CMND_QUIT then
        bind_res (do_output zero_response 0 0 None) (\<lambda>out. Inr (out, False))
      else if command = of_nat GLIBTOP_CMND_SYSDEPS then
        bind_res (do_output (zero_response\<lparr>r_u := union_of (sysdeps_bytes (sysdeps\<lparr>sd_features := GLIBTOP_SYSDEPS_ALL\<rparr>))\<rparr>)
          offset_union 0 None) (\<lambda>out. Inr (out, True))
      else case command_feature command of
        None \<Rightarrow> Inr ([], True)
      | Some f \<Rightarrow> (case parent_arg f parameter of
          None \<Rightarrow> Inr ([], True)
        | Some a \<Rightarrow>
            bind_res (svc f a) (\<lambda>(st, ptr).
            let u = union_of st in
            bind_res (do_output (zero_response\<lparr>r_u := u\<rparr>) offset_union (output_size f u ptr) ptr)
              (\<lambda>out. Inr (out, True)))))"

lemma parent_parameter_size:
  "parent_parameter cmnd evs = Inr (Some (p, evs')) \<Longrightarrow> stream_size evs' \<le> stream_size evs"
  by (auto simp: parent_parameter_def do_read_def bind_res_Inr_iff split: if_splits
      dest: do_read_loop_size)

text \<open>\<open>handle_parent_connection\<close> after the greeting: the bytes written, and how it ends:
  it returns, waits for a client that is silent, or dies.\<close>

function parent_loop ::
  "service \<Rightarrow> glibtop_sysdeps \<Rightarrow> nev list \<Rightarrow> string \<times> unit res" where
  "parent_loop svc sysdeps evs =
     (case do_read sizeof_command evs of
        Inl e \<Rightarrow> ([], Inl e)
      | Inr (n, bs, evs1) \<Rightarrow>
          (if n = 0 then ([], Inr ())
           else (let cmnd = bytes_command bs in
             case parent_parameter cmnd evs1 of
               Inl e \<Rightarrow> ([], Inl e)
             | Inr None \<Rightarrow> ([], Inr ())
             | Inr (Some (parameter, evs2)) \<Rightarrow>
                 (case parent_command svc sysdeps (c_command cmnd) parameter of
                    Inl e \<Rightarrow> ([], Inl e)
                  | Inr (out, False) \<Rightarrow> (out, Inr ())
                  | Inr (out, True) \<Rightarrow>
                      (let (out', r) = parent_loop svc sysdeps evs2 in (out @ out', r))))))"
  by pat_completeness auto
termination
proof (relation "measure (\<lambda>(svc, sysdeps, evs). stream_size evs)", goal_cases)
  case (2 svc sysdeps evs z n y bs evs1 cmnd o1 pr parameter evs2 r1 out b)
  then have r: "do_read_loop 0 sizeof_command evs = Inr (n, bs, evs1)" "n \<noteq> 0"
    and p: "parent_parameter cmnd evs1 = Inr (Some (parameter, evs2))"
    by (simp_all add: do_read_def)
  have "stream_size evs1 + sizeof_command \<le> stream_size evs"
    using do_read_loop_size [OF r(1)] r(2) by blast
  moreover have "stream_size evs2 \<le> stream_size evs1" using p by (rule parent_parameter_size)
  ultimately show ?case by (simp add: sizeof_command_def PARAM_SIZE_def)
qed simp

declare parent_loop.simps [simp del]

section \<open>The greeting\<close>

text \<open>\<open>version\<close> and \<open>server_version\<close> are the strings that \<open>configure\<close> puts into \<open>LIBGTOP_VERSION\<close>
  and \<open>LIBGTOP_SERVER_VERSION\<close>.\<close>

definition version_string :: "string \<Rightarrow> string \<Rightarrow> string" where
  "version_string version server_version =
     ''Libgtop '' @ version @ '' server version '' @ server_version @ '' (''
     @ show_nat sizeof_command @ '','' @ show_nat sizeof_response @ '',''
     @ show_nat sizeof_union @ '','' @ show_nat sizeof_sysdeps @ '').''"

definition glibtop_send_version :: "string \<Rightarrow> string \<Rightarrow> string" where
  "glibtop_send_version version server_version =
     (let buffer = version_string version server_version in
      u64_bytes (of_nat (length buffer + 1)) @ buffer @ [NUL])"

definition handle_parent_connection ::
  "string \<Rightarrow> string \<Rightarrow> service \<Rightarrow> glibtop_sysdeps \<Rightarrow> nev list \<Rightarrow> string \<times> unit res" where
  "handle_parent_connection version server_version svc sysdeps evs =
     (let (out, r) = parent_loop svc sysdeps evs
      in (glibtop_send_version version server_version @ out, r))"

section \<open>The setuid server\<close>

text \<open>The same for \<open>slave.c\<close>. The cases of features without \<open>GLIBTOP_SUID_f\<close> are not compiled,
  and anything unknown ends the process. \<open>svc\<close> are the functions \<open>glibtop_get_f_p\<close>.\<close>

definition slave_parameter :: "glibtop_command \<Rightarrow> nev list \<Rightarrow> (string \<times> nev list) res" where
  "slave_parameter cmnd evs =
     (if c_data_size cmnd \<noteq> 0 then
        (if BUFSIZ \<le> unat (c_data_size cmnd) then Inl (Exit ''Client sent too many bytes'')
         else bind_res (do_read (unat (c_data_size cmnd)) evs) (\<lambda>(_, bs, evs). Inr (fill bs, evs)))
      else if c_size cmnd \<noteq> 0 then
        (if BUFSIZ \<le> unat (c_size cmnd) then Inl (Exit ''Client sent too many bytes'')
         else if length (c_parameter cmnd) < unat (c_size cmnd)
         then Inl (Crash ''memcpy from behind cmnd->parameter'')
         else Inr (fill (take (unat (c_size cmnd)) (c_parameter cmnd)), evs))
      else Inr (fill [], evs))"

fun slave_arg :: "feature \<Rightarrow> string \<Rightarrow> call_arg option" where
  "slave_arg F_PROCLIST p = Some (ArgList (bytes_u64 p) (bytes_u64 (drop 8 p)))"
| "slave_arg F_PROC_ARGS p = Some (ArgPidMax (bytes_u32 p) (ucast (bytes_u16 (drop 4 p))))"
| "slave_arg F_PROC_MAP p = Some (ArgPid (bytes_u32 p))"
| "slave_arg F_PROC_STATE p = Some (ArgPid (bytes_u32 p))"
| "slave_arg F_PROC_UID p = Some (ArgPid (bytes_u32 p))"
| "slave_arg F_PROC_MEM p = Some (ArgPid (bytes_u32 p))"
| "slave_arg F_PROC_TIME p = Some (ArgPid (bytes_u32 p))"
| "slave_arg F_PROC_IO p = Some (ArgPid (bytes_u32 p))"
| "slave_arg F_PROC_SIGNAL p = Some (ArgPid (bytes_u32 p))"
| "slave_arg F_PROC_KERNEL p = Some (ArgPid (bytes_u32 p))"
| "slave_arg F_PROC_SEGMENT p = Some (ArgPid (bytes_u32 p))"
| "slave_arg F_NETLOAD p = Some (ArgString (c_str p))"
| "slave_arg F_PPP p = Some (ArgShort (bytes_u16 p))"
| "slave_arg f p =
     (if f \<in> {F_CPU, F_DISK, F_MEM, F_SWAP, F_UPTIME, F_LOADAVG, F_SHM_LIMITS, F_MSG_LIMITS,
              F_SEM_LIMITS} then Some NoArg else None)"

text \<open>\<open>handle_slave_command\<close> for what is not one of the three lists, and the \<open>switch\<close> around it.\<close>

definition handle_slave_command ::
  "(feature \<Rightarrow> bool) \<Rightarrow> service \<Rightarrow> glibtop_sysdeps \<Rightarrow> guint64 \<Rightarrow> string \<Rightarrow> string res" where
  "handle_slave_command suid svc sysdeps command parameter =
     (if command = of_nat GLIBTOP_CMND_SYSDEPS then
        Inr (union_of (sysdeps_bytes (sysdeps\<lparr>sd_features := glibtop_server_features suid,
          sd_flags := glibtop_server_features suid OR 1\<rparr>)))
      else case command_feature command of
        None \<Rightarrow> Inl (Exit ''Child received unknown command'')
      | Some f \<Rightarrow>
          (if \<not> suid f then Inl (Exit ''Child received unknown command'')
           else case slave_arg f parameter of
             None \<Rightarrow> Inl (Exit ''Child received unknown command'')
           | Some a \<Rightarrow> bind_res (svc f a) (\<lambda>(st, ptr). Inr (union_of st))))"

definition slave_command ::
  "(feature \<Rightarrow> bool) \<Rightarrow> service \<Rightarrow> glibtop_sysdeps \<Rightarrow> guint64 \<Rightarrow> string \<Rightarrow> (string \<times> bool) res" where
  "slave_command suid svc sysdeps command parameter =
     (if command = of_nat GLIBTOP_CMND_QUIT then
        bind_res (do_output zero_response 0 0 None) (\<lambda>out. Inr (out, False))
      else case Option.bind (command_feature command)
             (\<lambda>f. if suid f \<and> f \<in> {F_PROCLIST, F_PROC_ARGS, F_PROC_MAP} then Some f else None) of
        Some f \<Rightarrow>
          bind_res (svc f (the (slave_arg f parameter))) (\<lambda>(st, ptr).
          let u = union_of st in
          bind_res (do_output (zero_response\<lparr>r_u := u\<rparr>) offset_union (output_size f u ptr) ptr)
            (\<lambda>out. Inr (out, True)))
      | None \<Rightarrow>
          bind_res (handle_slave_command suid svc sysdeps command parameter) (\<lambda>u.
          bind_res (do_output (zero_response\<lparr>r_u := u\<rparr>) offset_union 0 None)
            (\<lambda>out. Inr (out, True))))"

lemma slave_parameter_size:
  "slave_parameter cmnd evs = Inr (p, evs') \<Longrightarrow> stream_size evs' \<le> stream_size evs"
  by (auto simp: slave_parameter_def do_read_def bind_res_Inr_iff split: if_splits
      dest: do_read_loop_size)

function slave_loop ::
  "(feature \<Rightarrow> bool) \<Rightarrow> service \<Rightarrow> glibtop_sysdeps \<Rightarrow> nev list \<Rightarrow> string \<times> unit res" where
  "slave_loop suid svc sysdeps evs =
     (case do_read sizeof_command evs of
        Inl e \<Rightarrow> ([], Inl e)
      | Inr (n, bs, evs1) \<Rightarrow>
          (if n = 0 then ([], Inr ())
           else (let cmnd = bytes_command bs in
             case slave_parameter cmnd evs1 of
               Inl e \<Rightarrow> ([], Inl e)
             | Inr (parameter, evs2) \<Rightarrow>
                 (case slave_command suid svc sysdeps (c_command cmnd) parameter of
                    Inl e \<Rightarrow> ([], Inl e)
                  | Inr (out, False) \<Rightarrow> (out, Inr ())
                  | Inr (out, True) \<Rightarrow>
                      (let (out', r) = slave_loop suid svc sysdeps evs2 in (out @ out', r))))))"
  by pat_completeness auto
termination
proof (relation "measure (\<lambda>(suid, svc, sysdeps, evs). stream_size evs)", goal_cases)
  case (2 suid svc sysdeps evs z n y bs evs1 cmnd o1 parameter evs2 r1 out b)
  then have r: "do_read_loop 0 sizeof_command evs = Inr (n, bs, evs1)" "n \<noteq> 0"
    and p: "slave_parameter cmnd evs1 = Inr (parameter, evs2)"
    by (simp_all add: do_read_def)
  have "stream_size evs1 + sizeof_command \<le> stream_size evs"
    using do_read_loop_size [OF r(1)] r(2) by blast
  moreover have "stream_size evs2 \<le> stream_size evs1" using p by (rule slave_parameter_size)
  ultimately show ?case by (simp add: sizeof_command_def PARAM_SIZE_def)
qed simp

declare slave_loop.simps [simp del]

definition handle_slave_connection ::
  "string \<Rightarrow> string \<Rightarrow> (feature \<Rightarrow> bool) \<Rightarrow> service \<Rightarrow> glibtop_sysdeps \<Rightarrow> nev list \<Rightarrow> string \<times> unit res" where
  "handle_slave_connection version server_version suid svc sysdeps evs =
     (let (out, r) = slave_loop suid svc sysdeps evs
      in (glibtop_send_version version server_version @ out, r))"

end
