(* ===== verification/Rpc.thy ===== *)
theory Rpc
  imports Daemon
begin

text \<open>
  A client (\<open>glibtop_call_l\<close>) and the daemon (\<open>handle_parent_connection\<close>) together: what one
  side writes is what the other side reads, in any chunks.
\<close>

section \<open>One request\<close>

definition answered :: "feature \<Rightarrow> bool" where
  \<comment> \<open>the \<open>switch\<close> of the daemon has code for it\<close>
  "answered f \<longleftrightarrow> f \<notin> {F_PROC_WD, F_NETLIST, F_PROC_OPEN_FILES, F_PROC_AFFINITY}"

fun daemon_arg :: "call_arg \<Rightarrow> call_arg" where
  \<comment> \<open>\<open>main.c\<close> passes 0 for \<open>max_len\<close>\<close>
  "daemon_arg (ArgPidMax pid max_len) = ArgPidMax pid 0"
| "daemon_arg a = a"

definition request :: "feature \<Rightarrow> call_arg \<Rightarrow> string" where
  "request f a = command_bytes (call_command (GLIBTOP_CMND f) (send_buf a))"

definition reply_block :: "feature \<Rightarrow> string \<Rightarrow> string option \<Rightarrow> string option" where
  \<comment> \<open>the block a caller gets for the struct \<open>st\<close> and the pointer \<open>ptr\<close>\<close>
  "reply_block f st ptr =
     (if output_size f st ptr = 0 then None else map_option (take (unat (output_size f st ptr))) ptr)"

lemma feature_nr_le: "1 \<le> feature_nr f \<and> feature_nr f \<le> 28"
  by (cases f) simp_all

lemma all_features: "f \<in> set all_features"
  by (cases f) (simp_all add: all_features_def sysdeps_members_def)

lemma GLIBTOP_CMND_less: "GLIBTOP_CMND f < 30"
  using feature_nr_le [of f] by (simp add: GLIBTOP_CMND_def)

lemma of_nat_CMND_eq:
  "(of_nat (GLIBTOP_CMND f) :: guint64) = of_nat n \<longleftrightarrow> GLIBTOP_CMND f = n" if "n < 30"
  using GLIBTOP_CMND_less [of f] that by (intro of_nat64_eq) simp_all

lemma command_feature_CMND [simp]: "command_feature (of_nat (GLIBTOP_CMND f)) = Some f"
proof -
  have "(of_nat (GLIBTOP_CMND g) :: guint64) = of_nat (GLIBTOP_CMND f) \<longleftrightarrow> g = f" for g
    using of_nat_CMND_eq [OF GLIBTOP_CMND_less, of g f] feature_nr_inj by (auto simp: GLIBTOP_CMND_def)
  moreover have "find (\<lambda>g. g = f) fs = Some f" if "f \<in> set fs" for fs
    using that by (induction fs) auto
  ultimately show ?thesis using all_features [of f] by (simp add: command_feature_def)
qed

lemma CMND_not_control [simp]:
  "(of_nat (GLIBTOP_CMND f) :: guint64) \<noteq> 0" "(of_nat (GLIBTOP_CMND f) :: guint64) \<noteq> 1"
  using of_nat_CMND_eq [of 0 f] of_nat_CMND_eq [of 1 f] feature_nr_le [of f]
  by (simp_all add: GLIBTOP_CMND_def)

lemma parent_arg_fill:
  assumes "feature_arg f a" and "answered f"
  shows "parent_arg f (fill (send_buf a)) = Some (daemon_arg a)"
  using assms
  by (cases f; cases a) (simp_all add: answered_def fill_def c_str_append append.assoc)

lemma do_read_prefix:
  assumes "smooth evs" and "stream_bytes evs = a @ b" and "length a = n"
  obtains evs' where "do_read n evs = Inr (n, a, evs')" "smooth evs'" "stream_bytes evs' = b"
proof -
  obtain evs' where "server_read (length a) evs = Inr (a, evs')" "smooth evs'" "stream_bytes evs' = b"
    using assms(1,2) by (rule server.rd_prefix)
  then show ?thesis using do_read_server [OF assms(1)] assms(3) by (intro that) auto
qed

lemma parent_parameter_short:
  assumes "length (send_buf a) \<le> PARAM_SIZE"
  shows "parent_parameter (call_command (GLIBTOP_CMND f) (send_buf a)) evs
    = Inr (Some (fill (send_buf a), evs))"
proof -
  have "(of_nat (length (send_buf a)) :: guint64) = 0 \<longleftrightarrow> send_buf a = []"
    using assms of_nat64_eq [of "length (send_buf a)" 0] by (auto simp: PARAM_SIZE_def)
  moreover have "unat (of_nat (length (send_buf a)) :: guint64) = length (send_buf a)"
    using assms by (intro unat_of_nat64) (simp add: PARAM_SIZE_def)
  ultimately show ?thesis
    using assms by (auto simp: parent_parameter_def call_command_def Let_def BUFSIZ_def PARAM_SIZE_def)
qed

section \<open>Sessions\<close>

text \<open>The bytes of one answer, and those of a sequence of requests.\<close>

definition reply_bytes :: "feature \<Rightarrow> string \<times> string option \<Rightarrow> string" where
  "reply_bytes f = (\<lambda>(st, ptr).
     response_bytes \<lparr>r_offset = of_nat offset_union, r_size = 0, r_data_size = output_size f st ptr,
       r_u = union_of st\<rparr>
     @ (case reply_block f st ptr of None \<Rightarrow> [] | Some d \<Rightarrow> d))"

type_synonym calls = "(feature \<times> call_arg) list"

definition requests :: "calls \<Rightarrow> string" where
  "requests cs = concat (map (\<lambda>(f, a). request f a) cs)"

fun replies :: "calls \<Rightarrow> (string \<times> string option) list \<Rightarrow> string" where
  "replies ((f, a) # cs) (r # rs) = reply_bytes f r @ replies cs rs"
| "replies _ _ = []"

text \<open>The calls that a client makes through the stubs, one after the other, and the same calls
  of the library functions without a server.\<close>

fun client_calls :: "calls \<Rightarrow> connection \<Rightarrow> ((string \<times> string option) list \<times> connection) res" where
  "client_calls [] conn = Inr ([], conn)"
| "client_calls ((f, a) # cs) conn =
     bind_res (call_l (GLIBTOP_CMND f) (send_buf a) (Some (sizeof_struct f)) conn) (\<lambda>(st, d, conn).
     bind_res (client_calls cs conn) (\<lambda>(rs, conn). Inr ((st, d) # rs, conn)))"

fun direct_calls :: "service \<Rightarrow> calls \<Rightarrow> (string \<times> string option) list res" where
  "direct_calls svc [] = Inr []"
| "direct_calls svc ((f, a) # cs) =
     bind_res (svc f a) (\<lambda>r. bind_res (direct_calls svc cs) (\<lambda>rs. Inr (r # rs)))"

text \<open>A caller of \<open>glibtop_get_proc_args\<close> may limit the length of what it gets; the daemon drops the limit.\<close>

definition without_limit :: "feature \<times> call_arg \<Rightarrow> feature \<times> call_arg" where
  "without_limit = (\<lambda>(f, a). (f, daemon_arg a))"

fun unlimited :: "call_arg \<Rightarrow> bool" where
  "unlimited (ArgPidMax pid max_len) = (max_len = 0)"
| "unlimited a = True"

lemma unlimited_daemon_arg: "unlimited a \<Longrightarrow> daemon_arg a = a"
  by (cases a) simp_all

lemma map_without_limit: "\<forall>(f, a)\<in>set cs. unlimited a \<Longrightarrow> map without_limit cs = cs"
  by (induction cs) (auto simp: without_limit_def unlimited_daemon_arg)

fun seen_results :: "calls \<Rightarrow> (string \<times> string option) list \<Rightarrow> (string \<times> string option) list" where
  \<comment> \<open>with the blocks cut to the size that the struct states\<close>
  "seen_results ((f, a) # cs) ((st, ptr) # rs) = (st, reply_block f st ptr) # seen_results cs rs"
| "seen_results _ _ = []"

definition servable :: "feature \<times> call_arg \<Rightarrow> bool" where
  \<comment> \<open>a call of the right form, whose parameter fits into the command\<close>
  "servable = (\<lambda>(f, a). feature_arg f a \<and> answered f \<and> length (send_buf a) \<le> PARAM_SIZE)"

text \<open>What a server relies on when it calls the library: a getter fills the struct of its
  feature, and a block has at least the size that the struct states. \<open>targ a\<close> is what the server
  passes for the argument \<open>a\<close> of the client.\<close>

locale served =
  fixes svc :: service and targ :: "call_arg \<Rightarrow> call_arg"
  assumes struct_size: "svc f (targ a) = Inr (st, ptr) \<Longrightarrow> length st = sizeof_struct f"
    and block_size: "svc f (targ a) = Inr (st, ptr) \<Longrightarrow> output_size f st ptr \<noteq> 0 \<Longrightarrow>
      \<exists>d. ptr = Some d \<and> unat (output_size f st ptr) \<le> length d"

locale getter_service = served svc daemon_arg for svc

lemma sizeof_struct_le: "sizeof_struct f \<le> sizeof_union"
  by (cases f) (simp_all add: sizeof_union_def)

lemma bytes_u64_append: "8 \<le> length a \<Longrightarrow> bytes_u64 (a @ b) = bytes_u64 a"
  by (simp add: bytes_u64_def)

lemma output_size_union:
  "length st = sizeof_struct f \<Longrightarrow> output_size f (union_of st) ptr = output_size f st ptr"
  by (cases f) (simp_all add: output_size_def union_of_def bytes_u64_append)

context served
begin

lemma output_reply:
  assumes "svc f (targ a) = Inr (st, ptr)"
  shows "do_output (zero_response\<lparr>r_u := union_of st\<rparr>) offset_union (output_size f st ptr) ptr
    = Inr (reply_bytes f (st, ptr))"
proof (cases "output_size f st ptr = 0")
  case True
  then show ?thesis
    by (simp add: do_output_def reply_bytes_def reply_block_def zero_response_def)
next
  case False
  then obtain d where "ptr = Some d" "\<not> length d < unat (output_size f st ptr)"
    using block_size [OF assms] by auto
  with False show ?thesis
    by (simp add: do_output_def reply_bytes_def reply_block_def zero_response_def)
qed

lemma client_gets:
  assumes "svc f (targ a') = Inr (st, ptr)" and "write_events conn = []"
    and "flowing (from_server conn)" "stream_bytes (from_server conn) = reply_bytes f (st, ptr) @ rest"
  obtains fvs where "flowing fvs" "stream_bytes fvs = rest"
    "call_l (GLIBTOP_CMND f) (send_buf a) (Some (sizeof_struct f)) conn
      = Inr (st, reply_block f st ptr,
          conn\<lparr>to_server := to_server conn @ request f a, from_server := fvs\<rparr>)"
proof -
  let ?conn = "conn\<lparr>to_server := to_server conn @ request f a\<rparr>"
  have len: "length st = sizeof_struct f" using assms(1) struct_size by simp
  have u: "length (r_u (zero_response\<lparr>r_u := union_of st\<rparr>)) = sizeof_union"
    using sizeof_struct_le [of f] len by simp
  have "stream_bytes (from_server ?conn) = reply_bytes f (st, ptr) @ rest" "flowing (from_server ?conn)"
    using assms by simp_all
  from call_reply_output [OF output_reply [OF assms(1)] u sizeof_struct_le [of f] this(2,1)]
  obtain fvs where "flowing fvs" "stream_bytes fvs = rest"
    "call_reply (Some (sizeof_struct f)) ?conn
      = Inr (st, reply_block f st ptr, ?conn\<lparr>from_server := fvs\<rparr>)"
    by (auto simp: len reply_block_def)
  moreover have w: "conn\<lparr>to_server := x, write_events := []\<rparr> = conn\<lparr>to_server := x\<rparr>" for x
    using assms(2) by (cases conn) simp
  ultimately show ?thesis
    using GLIBTOP_CMND_less [of f] assms(2)
    by (intro that [of fvs]) (simp_all add: call_l_def request_def [symmetric] w)
qed

end

context getter_service
begin

lemma daemon_answers:
  assumes c: "servable (f, a)" and r: "svc f (daemon_arg a) = Inr r"
    and evs: "smooth evs" "stream_bytes evs = request f a @ later"
  obtains evs' where "smooth evs'" "stream_bytes evs' = later"
    "parent_loop svc sysdeps evs = (reply_bytes f r @ fst (parent_loop svc sysdeps evs'),
       snd (parent_loop svc sysdeps evs'))"
proof -
  obtain st ptr where r': "r = (st, ptr)" by (cases r)
  have c': "feature_arg f a" "answered f" "length (send_buf a) \<le> PARAM_SIZE"
    using c by (simp_all add: servable_def)
  let ?cmnd = "call_command (GLIBTOP_CMND f) (send_buf a)"
  obtain evs' where e: "do_read sizeof_command evs = Inr (sizeof_command, request f a, evs')"
    "smooth evs'" "stream_bytes evs' = later"
    using do_read_prefix [OF evs, of sizeof_command] by (auto simp: request_def sizeof_command_def)
  have bytes: "bytes_command (request f a) = ?cmnd" "sizeof_command \<noteq> 0"
    by (simp_all add: request_def sizeof_command_def)
  have cmd: "c_command ?cmnd = of_nat (GLIBTOP_CMND f)"
    by (simp add: call_command_def Let_def)
  have len: "length st = sizeof_struct f" using r r' struct_size by simp
  have "parent_command svc sysdeps (of_nat (GLIBTOP_CMND f)) (fill (send_buf a))
      = Inr (reply_bytes f r, True)"
    using r r' output_reply [of f a st ptr]
    by (simp add: parent_command_def parent_arg_fill [OF c'(1,2)] output_size_union [OF len])
  then have "parent_loop svc sysdeps evs = (reply_bytes f r @ fst (parent_loop svc sysdeps evs'),
       snd (parent_loop svc sysdeps evs'))"
    by (subst parent_loop.simps)
      (simp add: e(1) bytes Let_def cmd
        parent_parameter_short [OF c'(3)] case_prod_unfold)
  with e(2,3) show ?thesis by (intro that)
qed

lemma daemon_session:
  "\<forall>c\<in>set cs. servable c \<Longrightarrow> direct_calls svc (map without_limit cs) = Inr rs \<Longrightarrow> smooth evs
     \<Longrightarrow> stream_bytes evs = requests cs @ later
     \<Longrightarrow> \<exists>evs'. smooth evs' \<and> stream_bytes evs' = later
        \<and> parent_loop svc sysdeps evs = (replies cs rs @ fst (parent_loop svc sysdeps evs'),
            snd (parent_loop svc sysdeps evs'))"
proof (induction cs arbitrary: rs evs)
  case Nil
  then show ?case by (auto simp: requests_def)
next
  case (Cons c cs)
  obtain f a where c: "c = (f, a)" by (cases c)
  obtain r rs' where r: "svc f (daemon_arg a) = Inr r" "direct_calls svc (map without_limit cs) = Inr rs'" "rs = r # rs'"
    using Cons.prems(2) by (auto simp: c without_limit_def bind_res_Inr_iff)
  have s: "servable (f, a)" and b: "stream_bytes evs = request f a @ (requests cs @ later)"
    using Cons.prems c by (simp_all add: requests_def)
  obtain evs1 where e1: "smooth evs1" "stream_bytes evs1 = requests cs @ later"
    "parent_loop svc sysdeps evs = (reply_bytes f r @ fst (parent_loop svc sysdeps evs1),
       snd (parent_loop svc sysdeps evs1))"
    using s r(1) Cons.prems(3) b by (rule daemon_answers)
  with Cons.IH [OF _ r(2) e1(1,2)] Cons.prems(1) show ?case by (auto simp: c r(3))
qed

lemma client_session:
  "\<forall>c\<in>set cs. servable c \<Longrightarrow> direct_calls svc (map without_limit cs) = Inr rs \<Longrightarrow> write_events conn = []
     \<Longrightarrow> flowing (from_server conn) \<Longrightarrow> stream_bytes (from_server conn) = replies cs rs @ rest
     \<Longrightarrow> \<exists>fvs. flowing fvs \<and> stream_bytes fvs = rest
        \<and> client_calls cs conn = Inr (seen_results cs rs,
            conn\<lparr>to_server := to_server conn @ requests cs, from_server := fvs\<rparr>)"
proof (induction cs arbitrary: rs conn)
  case Nil
  then show ?case by (auto simp: requests_def)
next
  case (Cons c cs)
  obtain f a where c: "c = (f, a)" by (cases c)
  obtain st ptr rs' where r: "svc f (daemon_arg a) = Inr (st, ptr)" "direct_calls svc (map without_limit cs) = Inr rs'"
    "rs = (st, ptr) # rs'"
    using Cons.prems(2) by (auto simp: c without_limit_def bind_res_Inr_iff)
  have b: "stream_bytes (from_server conn) = reply_bytes f (st, ptr) @ (replies cs rs' @ rest)"
    using Cons.prems(5) by (simp add: c r(3))
  obtain fvs where f: "flowing fvs" "stream_bytes fvs = replies cs rs' @ rest"
    "call_l (GLIBTOP_CMND f) (send_buf a) (Some (sizeof_struct f)) conn
      = Inr (st, reply_block f st ptr,
          conn\<lparr>to_server := to_server conn @ request f a, from_server := fvs\<rparr>)"
    using r(1) Cons.prems(3,4) b by (rule client_gets)
  with Cons.IH [OF _ r(2), of "conn\<lparr>to_server := to_server conn @ request f a, from_server := fvs\<rparr>"]
    Cons.prems(1,3) show ?case by (auto simp: c r(3) requests_def)
qed

end

lemma request_ne [simp]: "request f a \<noteq> []"
proof -
  have "length (request f a) \<noteq> 0" by (simp add: request_def)
  then show ?thesis by auto
qed

lemma parent_loop_empty: "smooth evs \<Longrightarrow> stream_bytes evs = [] \<Longrightarrow> parent_loop svc sysdeps evs = ([], Inl Blocks)"
  by (cases evs)
    (auto simp: parent_loop.simps [of svc sysdeps "[]"] do_read_def sizeof_command_def)

definition demo_service :: service where
  \<comment> \<open>a service with a block, for the witnesses\<close>
  "demo_service f a =
     Inr (replicate (sizeof_struct f) NUL, if f = F_PROC_ARGS then Some ''x'' else None)"

lemma bytes_u64_zero: "bytes_u64 (replicate n NUL) = 0"
proof -
  have "le_dec (replicate k NUL) = 0" for k by (induction k) auto
  then show ?thesis by (simp add: bytes_u64_def)
qed

lemma demo_service: "getter_service demo_service"
  by unfold_locales (auto simp: demo_service_def output_size_def bytes_u64_zero split: if_splits)

lemma seen_results_without_limit: "seen_results (map without_limit cs) rs = seen_results cs rs"
  by (induction cs rs rule: seen_results.induct) (auto simp: without_limit_def)

text \<open>
  C2. A session with the daemon gives the client what the library functions give without one: for
  any sequence of calls of the features that the daemon answers, with parameters of at most 16 bytes and no limit for the
  arguments of a process, and however the streams are cut into chunks, the daemon answers every request in its order, the client's
  calls return the structs and blocks that the same calls of the service return (the block as long as the struct says),
  nothing is left over in either stream, and the daemon waits for more. A limit changes nothing: a client that asks
  the same with limits gets the same answers, which are then not those of the library.
\<close>

theorem rpc_session:
  assumes svc: "getter_service svc"
    and cs: "\<forall>c\<in>set cs. servable c" "\<forall>(f, a)\<in>set cs. unlimited a" and rs: "direct_calls svc cs = Inr rs"
    and cs': "\<forall>c\<in>set cs'. servable c" "map without_limit cs' = cs"
    and evs: "smooth evs" "stream_bytes evs = requests cs'"
    and conn: "to_server conn = []" "write_events conn = []" "flowing (from_server conn)"
      "stream_bytes (from_server conn) = fst (parent_loop svc sysdeps evs)"
  shows "snd (parent_loop svc sysdeps evs) = Inl Blocks
     \<and> (\<exists>conn'. client_calls cs' conn = Inr (seen_results cs rs, conn')
          \<and> to_server conn' = stream_bytes evs \<and> stream_bytes (from_server conn') = [])"
proof -
  have rs': "direct_calls svc (map without_limit cs') = Inr rs" using rs cs'(2) by simp
  have "stream_bytes evs = requests cs' @ []" using evs(2) by simp
  from getter_service.daemon_session [OF svc cs'(1) rs' evs(1) this]
  obtain evs' where e: "smooth evs'" "stream_bytes evs' = []"
    "parent_loop svc sysdeps evs = (replies cs' rs @ fst (parent_loop svc sysdeps evs'),
       snd (parent_loop svc sysdeps evs'))" by blast
  then have p: "parent_loop svc sysdeps evs = (replies cs' rs, Inl Blocks)"
    using parent_loop_empty [OF e(1,2), of svc sysdeps] by simp
  then have "stream_bytes (from_server conn) = replies cs' rs @ []" using conn(4) by simp
  from getter_service.client_session [OF svc cs'(1) rs' conn(2,3) this]
  have "\<exists>fvs. flowing fvs \<and> stream_bytes fvs = [] \<and> client_calls cs' conn = Inr (seen_results cs rs,
      conn\<lparr>to_server := to_server conn @ requests cs', from_server := fvs\<rparr>)"
    unfolding cs'(2) [symmetric] seen_results_without_limit .
  then show ?thesis using p conn(1) evs(2) by auto
qed

theorem rpc_session_witness:
  "\<exists>evs conn conn'. stream_bytes (from_server conn) = fst (parent_loop demo_service sysdeps_zero evs)
     \<and> client_calls [(F_MEM, NoArg), (F_PROC_ARGS, ArgPidMax 7 80)] conn
       = Inr ([(replicate 72 NUL, None), (replicate 16 NUL, Some ''x'')], conn')"
proof -
  let ?cs = "[(F_MEM, NoArg), (F_PROC_ARGS, ArgPidMax 7 0)]"
  let ?cs' = "[(F_MEM, NoArg), (F_PROC_ARGS, ArgPidMax 7 80)]"
  let ?rs = "[(replicate 72 NUL, None), (replicate 16 NUL, Some ''x'')]"
  define evs where "evs = [Recv (requests ?cs')]"
  define out where "out = fst (parent_loop demo_service sysdeps_zero evs)"
  define conn where "conn = \<lparr>to_server = [], write_events = [],
    from_server = Eintr # (if out = [] then [] else [Recv out])\<rparr>"
  have cs: "\<forall>c\<in>set ?cs. servable c" "\<forall>(f, a)\<in>set ?cs. unlimited a" "\<forall>c\<in>set ?cs'. servable c" "map without_limit ?cs' = ?cs"
    by (simp_all add: servable_def answered_def PARAM_SIZE_def without_limit_def)
  have rs: "direct_calls demo_service ?cs = Inr ?rs" by (simp add: demo_service_def)
  have evs: "smooth evs" "stream_bytes evs = requests ?cs'"
    by (simp_all add: evs_def requests_def)
  have seen: "seen_results ?cs ?rs = ?rs"
    by (simp add: reply_block_def output_size_def bytes_u64_zero)
  have "to_server conn = []" "write_events conn = []" "flowing (from_server conn)"
    "stream_bytes (from_server conn) = fst (parent_loop demo_service sysdeps_zero evs)"
    by (simp_all add: conn_def out_def [symmetric])
  from rpc_session [OF demo_service cs(1,2) rs cs(3,4) evs this] this(4) show ?thesis unfolding seen by blast
qed

context getter_service
begin

lemma daemon_answers_data:
  \<comment> \<open>a parameter that follows its command\<close>
  assumes a: "feature_arg f a" "answered f" "PARAM_SIZE < length (send_buf a)" "length (send_buf a) < BUFSIZ"
    and r: "svc f (daemon_arg a) = Inr r" and evs: "smooth evs" "stream_bytes evs = request f a @ send_buf a"
  shows "parent_loop svc sysdeps evs = (reply_bytes f r, Inl Blocks)"
proof -
  let ?cmnd = "call_command (GLIBTOP_CMND f) (send_buf a)"
  obtain st ptr where r': "r = (st, ptr)" by (cases r)
  obtain evs1 where e: "do_read sizeof_command evs = Inr (sizeof_command, request f a, evs1)"
    "smooth evs1" "stream_bytes evs1 = send_buf a"
    using do_read_prefix [OF evs, of sizeof_command] by (auto simp: request_def sizeof_command_def)
  then have "stream_bytes evs1 = send_buf a @ []" by simp
  then obtain evs2 where e2: "do_read (length (send_buf a)) evs1 = Inr (length (send_buf a), send_buf a, evs2)"
    "smooth evs2" "stream_bytes evs2 = []"
    using do_read_prefix [OF e(2), of "send_buf a" "[]" "length (send_buf a)"] by blast
  have bytes: "bytes_command (request f a) = ?cmnd" "sizeof_command \<noteq> 0"
    by (simp_all add: request_def sizeof_command_def)
  have cmd: "c_command ?cmnd = of_nat (GLIBTOP_CMND f)" by (simp add: call_command_def Let_def)
  have ds: "unat (c_data_size ?cmnd) = length (send_buf a)"
    using a(3,4) unat_of_nat64 [of "length (send_buf a)"] by (simp add: call_command_def Let_def BUFSIZ_def)
  moreover have "c_data_size ?cmnd \<noteq> 0" using ds a(3) by (auto simp: PARAM_SIZE_def)
  ultimately have par: "parent_parameter ?cmnd evs1 = Inr (Some (fill (send_buf a), evs2))"
    using a(4) e2(1) by (simp add: parent_parameter_def)
  have len: "length st = sizeof_struct f" using r r' struct_size by simp
  have "parent_command svc sysdeps (of_nat (GLIBTOP_CMND f)) (fill (send_buf a)) = Inr (reply_bytes f r, True)"
    using r r' output_reply [of f a st ptr]
    by (simp add: parent_command_def parent_arg_fill [OF a(1,2)] output_size_union [OF len])
  then show ?thesis
    by (subst parent_loop.simps)
      (simp add: e(1) bytes Let_def cmd par case_prod_unfold parent_loop_empty [OF e2(2,3)])
qed

end

text \<open>
  C3. A parameter of more than 16 bytes (the directory of \<open>fsusage\<close>, the interface of \<open>netload\<close>) is announced
  but never sent. Whatever the daemon answers, \<open>glibtop_call_l\<close> has written the command, \<open>request f a\<close>, and nothing else; on these
  bytes the daemon answers nothing and waits, and so does the client, without an answer. The bytes of the parameter
  are all that is missing: behind the command they let the daemon answer with what its function returns.
\<close>

theorem long_parameter_deadlock:
  assumes svc: "getter_service svc" and a: "feature_arg f a" "PARAM_SIZE < length (send_buf a)" "length (send_buf a) < BUFSIZ"
    and r: "svc f a = Inr (st, ptr)" and w: "write_events conn = []"
  shows "(\<forall>evs. smooth evs \<and> stream_bytes evs = request f a \<longrightarrow> parent_loop svc sysdeps evs = ([], Inl Blocks))
    \<and> (from_server conn = [] \<longrightarrow> call_l (GLIBTOP_CMND f) (send_buf a) (Some (sizeof_struct f)) conn = Inl Blocks)
    \<and> (flowing (from_server conn) \<and> stream_bytes (from_server conn) = reply_bytes f (st, ptr) \<longrightarrow>
        (\<exists>conn'. call_l (GLIBTOP_CMND f) (send_buf a) (Some (sizeof_struct f)) conn = Inr (st, reply_block f st ptr, conn')
          \<and> to_server conn' = to_server conn @ request f a))
    \<and> (\<forall>evs. smooth evs \<and> stream_bytes evs = request f a @ send_buf a \<longrightarrow>
        parent_loop svc sysdeps evs = (reply_bytes f (st, ptr), Inl Blocks))"
proof (intro conjI allI impI; (elim conjE)?)
  let ?cmnd = "call_command (GLIBTOP_CMND f) (send_buf a)"
  have f: "answered f" "daemon_arg a = a"
    using a(1,2) by (cases a; cases f; simp add: PARAM_SIZE_def answered_def)+
  show "parent_loop svc sysdeps evs = ([], Inl Blocks)" if evs: "smooth evs" "stream_bytes evs = request f a" for evs
  proof -
    have bytes: "bytes_command (request f a) = ?cmnd" "sizeof_command \<noteq> 0"
      "length (request f a) = sizeof_command"
      by (simp_all add: request_def sizeof_command_def)
    have "stream_bytes evs = request f a @ []" using evs(2) by simp
    then obtain evs' where e: "do_read sizeof_command evs = Inr (sizeof_command, request f a, evs')"
      "smooth evs'" "stream_bytes evs' = []"
      using do_read_prefix [OF evs(1), of "request f a" "[]" sizeof_command] bytes(3) by auto
    have "evs' = []" using e(2,3) by (cases evs') auto
    moreover have ds: "unat (c_data_size ?cmnd) = length (send_buf a)"
      using a(2,3) unat_of_nat64 [of "length (send_buf a)"]
      by (simp add: call_command_def Let_def BUFSIZ_def)
    moreover have "c_data_size ?cmnd \<noteq> 0" using ds a(2) by (auto simp: PARAM_SIZE_def)
    ultimately have "parent_parameter ?cmnd evs' = Inl Blocks"
      using a(2,3) by (auto simp: parent_parameter_def do_read_def)
    then show ?thesis by (subst parent_loop.simps) (simp add: e(1) bytes Let_def)
  qed
  show "call_l (GLIBTOP_CMND f) (send_buf a) (Some (sizeof_struct f)) conn = Inl Blocks" if "from_server conn = []"
    using GLIBTOP_CMND_less [of f] w that
    by (simp add: call_l_def call_reply_def sizeof_response_def offset_union_def)
  show "\<exists>conn'. call_l (GLIBTOP_CMND f) (send_buf a) (Some (sizeof_struct f)) conn = Inr (st, reply_block f st ptr, conn')
      \<and> to_server conn' = to_server conn @ request f a"
    if fl: "flowing (from_server conn)" "stream_bytes (from_server conn) = reply_bytes f (st, ptr)"
  proof -
    have sv: "served svc daemon_arg" using svc by (simp add: getter_service_def)
    have b: "stream_bytes (from_server conn) = reply_bytes f (st, ptr) @ []" using fl(2) by simp
    have r': "svc f (daemon_arg a) = Inr (st, ptr)" using r f(2) by simp
    obtain fvs where "call_l (GLIBTOP_CMND f) (send_buf a) (Some (sizeof_struct f)) conn
        = Inr (st, reply_block f st ptr, conn\<lparr>to_server := to_server conn @ request f a, from_server := fvs\<rparr>)"
      by (rule served.client_gets [OF sv r' w fl(1) b])
    then show ?thesis by simp
  qed
  show "parent_loop svc sysdeps evs = (reply_bytes f (st, ptr), Inl Blocks)"
    if "smooth evs" "stream_bytes evs = request f a @ send_buf a" for evs
    by (rule getter_service.daemon_answers_data [OF svc a(1) f(1) a(2,3) _ that]) (simp add: f(2) r)
qed

theorem long_parameter_deadlock_witness:
  "parent_loop demo_service sysdeps_zero [Recv (request F_FSUSAGE (ArgString ''/home/user/backup''))] = ([], Inl Blocks)
   \<and> fst (parent_loop demo_service sysdeps_zero
       [Recv (request F_FSUSAGE (ArgString ''/home/user/backup'') @ ''/home/user/backup'' @ [NUL])]) \<noteq> []"
proof -
  let ?a = "ArgString ''/home/user/backup''"
  have "demo_service F_FSUSAGE ?a = Inr (replicate (sizeof_struct F_FSUSAGE) NUL, None)" by (simp add: demo_service_def)
  from long_parameter_deadlock [OF demo_service _ _ _ this, of "\<lparr>to_server = [], write_events = [], from_server = []\<rparr>" sysdeps_zero]
  have d: "parent_loop demo_service sysdeps_zero [Recv (request F_FSUSAGE ?a)] = ([], Inl Blocks)"
    "parent_loop demo_service sysdeps_zero [Recv (request F_FSUSAGE ?a @ send_buf ?a)]
      = (reply_bytes F_FSUSAGE (replicate (sizeof_struct F_FSUSAGE) NUL, None), Inl Blocks)"
    by (simp_all add: PARAM_SIZE_def BUFSIZ_def)
  have "0 < length (response_bytes r)" for r by (simp del: length_greater_0_conv)
  then have "reply_bytes F_FSUSAGE (replicate (sizeof_struct F_FSUSAGE) NUL, None) \<noteq> []"
    by (simp add: reply_bytes_def del: length_response_bytes)
  with d show ?thesis by simp
qed

text \<open>
  C4. Four features have no code in the \<open>switch\<close> of the daemon (two of them are marked \<open>FIXME\<close>):
  a request for one gets no answer at all, the daemon waits for the next command, although its
  answer to \<open>GLIBTOP_CMND_SYSDEPS\<close> says that it has every feature.
\<close>

theorem silent_features:
  assumes "\<not> answered f" and "length (send_buf a) \<le> PARAM_SIZE"
    and "smooth evs" and "stream_bytes evs = request f a"
  shows "parent_loop svc sysdeps evs = ([], Inl Blocks)
    \<and> parent_command svc sysdeps 1 parameter = Inr (response_bytes (zero_response\<lparr>r_offset := 24,
        r_u := union_of (sysdeps_bytes (sysdeps\<lparr>sd_features := GLIBTOP_SYSDEPS_ALL\<rparr>))\<rparr>), True)
    \<and> bit GLIBTOP_SYSDEPS_ALL (feature_nr f)"
proof -
  let ?cmnd = "call_command (GLIBTOP_CMND f) (send_buf a)"
  have bytes: "bytes_command (request f a) = ?cmnd" "sizeof_command \<noteq> 0"
    "length (request f a) = sizeof_command"
    by (simp_all add: request_def sizeof_command_def)
  have "stream_bytes evs = request f a @ []" using assms(4) by simp
  then obtain evs' where e: "do_read sizeof_command evs = Inr (sizeof_command, request f a, evs')"
    "smooth evs'" "stream_bytes evs' = []"
    using do_read_prefix [OF assms(3), of "request f a" "[]" sizeof_command] bytes(3) by auto
  have cmd: "c_command ?cmnd = of_nat (GLIBTOP_CMND f)"
    by (simp add: call_command_def Let_def)
  have "parent_arg f (fill (send_buf a)) = None" using assms(1) by (cases f) (simp_all add: answered_def)
  then have "parent_command svc sysdeps (of_nat (GLIBTOP_CMND f)) (fill (send_buf a)) = Inr ([], True)"
    by (simp add: parent_command_def)
  then have "parent_loop svc sysdeps evs = ([], Inl Blocks)"
    by (subst parent_loop.simps)
      (simp add: e(1) bytes Let_def cmd parent_parameter_short [OF assms(2)]
        parent_loop_empty [OF e(2,3)])
  moreover have "bit GLIBTOP_SYSDEPS_ALL (feature_nr f)"
    by (cases f) (simp_all add: GLIBTOP_SYSDEPS_ALL_def bit_simps)
  ultimately show ?thesis
    by (simp add: parent_command_def do_output_def zero_response_def offset_union_def)
qed

theorem silent_features_witness:
  "parent_loop demo_service sysdeps_zero [Recv (request F_PROC_AFFINITY (ArgPid 1))] = ([], Inl Blocks)"
  using silent_features [of F_PROC_AFFINITY "ArgPid 1" "[Recv (request F_PROC_AFFINITY (ArgPid 1))]"
    demo_service sysdeps_zero] by (simp add: answered_def PARAM_SIZE_def)

text \<open>
  C5. The daemon copies \<open>cmnd->size\<close> bytes out of the sixteen bytes of \<open>cmnd->parameter\<close> after
  comparing the size with \<open>BUFSIZ\<close> only: it reads behind the command exactly for the sizes
  between the two. No command that \<open>glibtop_call_l\<close> builds has such a size.
\<close>

theorem parent_parameter_overread:
  assumes "length (c_parameter cmnd) = PARAM_SIZE"
  shows "((\<exists>w. parent_parameter cmnd evs = Inl (Crash w)) \<longleftrightarrow>
      c_data_size cmnd = 0 \<and> PARAM_SIZE < unat (c_size cmnd) \<and> unat (c_size cmnd) < BUFSIZ)
    \<and> (length buf < 2 ^ 64 \<longrightarrow> parent_parameter (call_command command buf) evs \<noteq> Inl (Crash w))"
proof -
  have dr: "do_read n evs \<noteq> Inl (Crash w)" for n w
  proof -
    have "do_read_loop already n evs \<noteq> Inl (Crash w)" for already
      by (induction already n evs rule: do_read_loop.induct)
        (auto simp: bind_res_Inl_iff split: nev.splits)
    then show ?thesis by (simp add: do_read_def)
  qed
  have iff: "(\<exists>w. parent_parameter cmnd evs = Inl (Crash w)) \<longleftrightarrow>
      c_data_size cmnd = 0 \<and> PARAM_SIZE < unat (c_size cmnd) \<and> unat (c_size cmnd) < BUFSIZ"
    if "length (c_parameter cmnd) = PARAM_SIZE" for cmnd
    using that dr by (auto simp: parent_parameter_def bind_res_Inl_iff unat_eq_0)
  have "length buf < 2 ^ 64 \<longrightarrow> parent_parameter (call_command command buf) evs \<noteq> Inl (Crash w)"
  proof
    assume b: "length buf < 2 ^ 64"
    have "\<not> (c_data_size (call_command command buf) = 0
        \<and> PARAM_SIZE < unat (c_size (call_command command buf)))"
      using unat_of_nat64 [OF b] by (auto simp: call_command_def Let_def)
    with iff [OF length_call_parameter, of command buf]
    show "parent_parameter (call_command command buf) evs \<noteq> Inl (Crash w)" by blast
  qed
  with iff [OF assms] show ?thesis by blast
qed

theorem parent_parameter_overread_witness:
  "\<exists>w. parent_parameter \<lparr>c_command = 2, c_size = 17, c_data_size = 0,
     c_parameter = replicate PARAM_SIZE NUL\<rparr> [] = Inl (Crash w)"
  using parent_parameter_overread [of "\<lparr>c_command = 2, c_size = 17, c_data_size = 0,
     c_parameter = replicate PARAM_SIZE NUL\<rparr>" "[]"] by (simp add: PARAM_SIZE_def BUFSIZ_def)

lemma do_read_smooth:
  assumes "smooth evs" "smooth fvs" "stream_bytes evs = stream_bytes fvs"
  shows "(do_read n evs = Inl Blocks \<and> do_read n fvs = Inl Blocks)
    \<or> (\<exists>bs evs' fvs'. do_read n evs = Inr (n, bs, evs') \<and> do_read n fvs = Inr (n, bs, fvs')
        \<and> smooth evs' \<and> smooth fvs' \<and> stream_bytes evs' = stream_bytes fvs')"
proof (cases "n \<le> length (stream_bytes evs)")
  case True
  let ?a = "take n (stream_bytes evs)" and ?b = "drop n (stream_bytes evs)"
  have a: "length ?a = n" using True by simp
  obtain evs' where "do_read n evs = Inr (n, ?a, evs')" "smooth evs'" "stream_bytes evs' = ?b"
    by (rule do_read_prefix [OF assms(1) append_take_drop_id [symmetric] a])
  moreover obtain fvs' where "do_read n fvs = Inr (n, ?a, fvs')" "smooth fvs'" "stream_bytes fvs' = ?b"
    using do_read_prefix [OF assms(2) _ a, of ?b] assms(3) by auto
  ultimately show ?thesis by auto
next
  case False
  then show ?thesis
    using do_read_loop_blocks [of evs n 0] do_read_loop_blocks [of fvs n 0] assms
    by (simp add: do_read_def)
qed

lemma parent_parameter_smooth:
  assumes "smooth evs" "smooth fvs" "stream_bytes evs = stream_bytes fvs"
  shows "(\<exists>r. parent_parameter c evs = Inl r \<and> parent_parameter c fvs = Inl r)
    \<or> parent_parameter c evs = Inr None \<and> parent_parameter c fvs = Inr None
    \<or> (\<exists>p evs' fvs'. parent_parameter c evs = Inr (Some (p, evs')) \<and> parent_parameter c fvs = Inr (Some (p, fvs'))
        \<and> smooth evs' \<and> smooth fvs' \<and> stream_bytes evs' = stream_bytes fvs')"
  using do_read_smooth [OF assms, of "unat (c_data_size c)"] assms
  by (auto simp: parent_parameter_def)

text \<open>
  C6. What the daemon answers does not depend on how the client's bytes arrive: two streams
  with the same bytes get the same answers and end the same way, whatever the commands are.
\<close>

theorem parent_loop_chunks:
  assumes "smooth evs" and "smooth fvs" and "stream_bytes evs = stream_bytes fvs"
  shows "parent_loop svc sysdeps evs = parent_loop svc sysdeps fvs"
  using assms
proof (induction svc sysdeps evs arbitrary: fvs rule: parent_loop.induct)
  case (1 svc sysdeps evs)
  show ?case
  proof (cases "do_read sizeof_command evs")
    case (Inl e)
    then have "do_read sizeof_command fvs = Inl e"
      using do_read_smooth [OF "1.prems", of sizeof_command] by auto
    with Inl show ?thesis by (simp add: parent_loop.simps [of svc sysdeps evs] parent_loop.simps [of svc sysdeps fvs])
  next
    case (Inr x)
    then obtain bs evs1 fvs1 where d: "do_read sizeof_command evs = Inr (sizeof_command, bs, evs1)"
      "do_read sizeof_command fvs = Inr (sizeof_command, bs, fvs1)" and s1: "smooth evs1" "smooth fvs1"
      "stream_bytes evs1 = stream_bytes fvs1"
      using do_read_smooth [OF "1.prems", of sizeof_command] by auto
    have nz: "sizeof_command \<noteq> 0" by (simp add: sizeof_command_def)
    note simps = parent_loop.simps [of svc sysdeps evs] parent_loop.simps [of svc sysdeps fvs] d nz Let_def
    from parent_parameter_smooth [OF s1, of "bytes_command bs"]
    consider (err) r where "parent_parameter (bytes_command bs) evs1 = Inl r" "parent_parameter (bytes_command bs) fvs1 = Inl r"
      | (ret) "parent_parameter (bytes_command bs) evs1 = Inr None" "parent_parameter (bytes_command bs) fvs1 = Inr None"
      | (go) p evs2 fvs2 where "parent_parameter (bytes_command bs) evs1 = Inr (Some (p, evs2))"
        "parent_parameter (bytes_command bs) fvs1 = Inr (Some (p, fvs2))"
        "smooth evs2" "smooth fvs2" "stream_bytes evs2 = stream_bytes fvs2" by blast
    then show ?thesis
    proof cases
      case go
      then have "parent_loop svc sysdeps evs2 = parent_loop svc sysdeps fvs2"
        if "parent_command svc sysdeps (c_command (bytes_command bs)) p = Inr (out, True)" for out
        using "1.IH" [OF d(1) refl refl nz refl go(1) refl refl that refl _ go(3,4,5)] by simp
      then show ?thesis using go(1,2)
        by (auto simp: simps split: sum.splits bool.splits prod.splits)
    qed (simp_all add: simps)
  qed
qed

theorem parent_loop_chunks_witness:
  "parent_loop demo_service sysdeps_zero (map (\<lambda>c. Recv [c]) (request F_MEM NoArg))
     = parent_loop demo_service sysdeps_zero [Recv (request F_MEM NoArg)]"
proof -
  have "smooth (map (\<lambda>c. Recv [c]) bs)" "stream_bytes (map (\<lambda>c. Recv [c]) bs) = bs" for bs
    by (induction bs) auto
  then show ?thesis by (intro parent_loop_chunks) simp_all
qed

section \<open>The end of a connection\<close>

text \<open>A stream that ends: behind the last event every \<open>read\<close> returns 0. Two of them are enough, since a
  loop that sees one at the start of a command returns.\<close>

definition closing :: "nev list \<Rightarrow> bool" where
  "closing evs \<longleftrightarrow> (\<exists>es. evs = es @ [Eof, Eof] \<and> Eof \<notin> set es)"

lemma closing_end: "Eof \<notin> set es \<Longrightarrow> closing (es @ [Eof, Eof])"
  by (auto simp: closing_def)

lemma do_read_loop_closing:
  assumes "Eof \<notin> set es"
  shows "\<exists>n bs evs'. do_read_loop already remaining (es @ [Eof, Eof]) = Inr (n, bs, evs')
    \<and> (closing evs' \<or> (n = 0 \<and> evs' = [Eof]))"
  using assms
proof (induction es arbitrary: already remaining)
  case Nil
  then show ?case using closing_end [of "[]"] by simp
next
  case (Cons e es)
  show ?case
  proof (cases "remaining = 0")
    case True
    then show ?thesis using closing_end [OF Cons.prems] by simp
  next
    case False
    have es: "Eof \<notin> set es" using Cons.prems by simp
    show ?thesis
    proof (cases e)
      case (Recv c)
      have "closing ((Recv (drop remaining c) # es) @ [Eof, Eof])" using es by (intro closing_end) simp
      then show ?thesis
        using False Recv closing_end [OF es] Cons.IH [OF es, of "already + length c" "remaining - length c"] by auto
    qed (use False closing_end [OF es] Cons.prems in simp_all)
  qed
qed

lemma do_read_closing:
  assumes "closing evs"
  obtains n bs evs' where "do_read k evs = Inr (n, bs, evs')" "closing evs' \<or> (n = 0 \<and> evs' = [Eof])"
proof -
  obtain es where "evs = es @ [Eof, Eof]" "Eof \<notin> set es" using assms by (auto simp: closing_def)
  then show ?thesis using do_read_loop_closing [of es 0 k] that unfolding do_read_def by blast
qed

lemma do_output_not_blocks: "do_output resp offset n data \<noteq> Inl Blocks"
  by (simp add: do_output_def Let_def split: option.splits)

lemma parent_command_not_blocks:
  "(\<And>f a. svc f a \<noteq> Inl Blocks) \<Longrightarrow> parent_command svc sysdeps cmd p \<noteq> Inl Blocks"
  using do_output_not_blocks
  by (auto simp: parent_command_def bind_res_Inl_iff Let_def split: option.splits prod.splits)

lemma slave_command_not_blocks:
  "(\<And>f a. svc f a \<noteq> Inl Blocks) \<Longrightarrow> slave_command suid svc sysdeps cmd p \<noteq> Inl Blocks"
  using do_output_not_blocks
  by (auto simp: slave_command_def handle_slave_command_def bind_res_Inl_iff Let_def split: option.splits prod.splits if_splits)

text \<open>The parameter of a command: it never waits, and the stream still closes.\<close>

lemma parent_parameter_closing:
  assumes "closing evs"
  shows "parent_parameter cmnd evs \<noteq> Inl Blocks"
    and "parent_parameter cmnd evs = Inr (Some (p, evs')) \<Longrightarrow> closing evs' \<or> evs' = [Eof]"
proof -
  obtain n bs evs1 where "do_read (unat (c_data_size cmnd)) evs = Inr (n, bs, evs1)" "closing evs1 \<or> (n = 0 \<and> evs1 = [Eof])"
    using assms by (rule do_read_closing)
  then show "parent_parameter cmnd evs \<noteq> Inl Blocks"
    and "parent_parameter cmnd evs = Inr (Some (p, evs')) \<Longrightarrow> closing evs' \<or> evs' = [Eof]"
    using assms by (auto simp: parent_parameter_def split: if_splits)
qed

lemma slave_parameter_closing:
  assumes "closing evs"
  shows "slave_parameter cmnd evs \<noteq> Inl Blocks"
    and "slave_parameter cmnd evs = Inr (p, evs') \<Longrightarrow> closing evs' \<or> evs' = [Eof]"
proof -
  obtain n bs evs1 where "do_read (unat (c_data_size cmnd)) evs = Inr (n, bs, evs1)" "closing evs1 \<or> (n = 0 \<and> evs1 = [Eof])"
    using assms by (rule do_read_closing)
  then show "slave_parameter cmnd evs \<noteq> Inl Blocks"
    and "slave_parameter cmnd evs = Inr (p, evs') \<Longrightarrow> closing evs' \<or> evs' = [Eof]"
    using assms by (auto simp: slave_parameter_def split: if_splits)
qed

lemma parent_loop_closing:
  assumes svc: "\<And>f a. svc f a \<noteq> Inl Blocks"
  shows "closing evs \<or> evs = [Eof] \<Longrightarrow> snd (parent_loop svc sysdeps evs) \<noteq> Inl Blocks"
proof (induction "stream_size evs" arbitrary: evs rule: less_induct)
  case less
  show ?case
  proof (cases "evs = [Eof]")
    case True
    then show ?thesis by (subst parent_loop.simps) (simp add: do_read_def sizeof_command_def)
  next
    case False
    then have cl: "closing evs" using less.prems by blast
    then obtain n bs evs1 where 1: "do_read sizeof_command evs = Inr (n, bs, evs1)" "closing evs1 \<or> (n = 0 \<and> evs1 = [Eof])"
      by (rule do_read_closing)
    show ?thesis
    proof (cases "n = 0")
      case True
      with 1 show ?thesis by (subst parent_loop.simps) simp
    next
      case nz: False
      with 1 have c1: "closing evs1" by blast
      have "stream_size evs1 + sizeof_command \<le> stream_size evs"
        using do_read_loop_size [of 0 sizeof_command evs n bs evs1] 1(1) nz by (simp add: do_read_def)
      then have "snd (parent_loop svc sysdeps evs2) \<noteq> Inl Blocks"
        if "parent_parameter (bytes_command bs) evs1 = Inr (Some (p, evs2))" for p evs2
        using less.hyps [of evs2] parent_parameter_closing(2) [OF c1 that] parent_parameter_size [OF that]
        by (simp add: sizeof_command_def)
      with 1(1) nz parent_parameter_closing(1) [OF c1] parent_command_not_blocks [OF svc]
      show ?thesis
        by (subst parent_loop.simps) (auto simp: Let_def split: sum.splits option.splits bool.splits prod.splits)
    qed
  qed
qed

lemma slave_loop_closing:
  assumes svc: "\<And>f a. svc f a \<noteq> Inl Blocks"
  shows "closing evs \<or> evs = [Eof] \<Longrightarrow> snd (slave_loop suid svc sysdeps evs) \<noteq> Inl Blocks"
proof (induction "stream_size evs" arbitrary: evs rule: less_induct)
  case less
  show ?case
  proof (cases "evs = [Eof]")
    case True
    then show ?thesis by (subst slave_loop.simps) (simp add: do_read_def sizeof_command_def)
  next
    case False
    then have cl: "closing evs" using less.prems by blast
    then obtain n bs evs1 where 1: "do_read sizeof_command evs = Inr (n, bs, evs1)" "closing evs1 \<or> (n = 0 \<and> evs1 = [Eof])"
      by (rule do_read_closing)
    show ?thesis
    proof (cases "n = 0")
      case True
      with 1 show ?thesis by (subst slave_loop.simps) simp
    next
      case nz: False
      with 1 have c1: "closing evs1" by blast
      have "stream_size evs1 + sizeof_command \<le> stream_size evs"
        using do_read_loop_size [of 0 sizeof_command evs n bs evs1] 1(1) nz by (simp add: do_read_def)
      then have "snd (slave_loop suid svc sysdeps evs2) \<noteq> Inl Blocks"
        if "slave_parameter (bytes_command bs) evs1 = Inr (p, evs2)" for p evs2
        using less.hyps [of evs2] slave_parameter_closing(2) [OF c1 that] slave_parameter_size [OF that]
        by (simp add: sizeof_command_def)
      with 1(1) nz slave_parameter_closing(1) [OF c1] slave_command_not_blocks [OF svc]
      show ?thesis
        by (subst slave_loop.simps) (auto simp: Let_def split: sum.splits option.splits bool.splits prod.splits)
    qed
  qed
qed

text \<open>
  C30. The servers end with their client: whatever bytes, interruptions and errors came before, once
  the stream is at its end, neither the daemon nor the setuid server waits for more; they return, or
  end with an error. This needs only that the functions of the library they call do not wait.
\<close>

theorem servers_end:
  assumes "\<And>f a. svc f a \<noteq> Inl Blocks" and "Eof \<notin> set evs"
  shows "snd (handle_parent_connection v sv svc sysdeps (evs @ [Eof, Eof])) \<noteq> Inl Blocks
    \<and> snd (handle_slave_connection v sv suid svc sysdeps (evs @ [Eof, Eof])) \<noteq> Inl Blocks"
  using parent_loop_closing [where svc = svc and evs = "evs @ [Eof, Eof]" and sysdeps = sysdeps]
    slave_loop_closing [where svc = svc and evs = "evs @ [Eof, Eof]" and suid = suid and sysdeps = sysdeps] assms(1) closing_end [OF assms(2)]
  by (auto simp: handle_parent_connection_def handle_slave_connection_def split: prod.splits)

theorem servers_end_witness:
  "snd (handle_parent_connection ''2.38'' ''5'' (\<lambda>f a. Inl (Exit ''none'')) sysdeps_zero ([Recv ''xyz'', Eintr] @ [Eof, Eof])) \<noteq> Inl Blocks"
  using servers_end [of "\<lambda>f a. Inl (Exit ''none'')" "[Recv ''xyz'', Eintr]" "''2.38''" "''5''" sysdeps_zero] by simp

end
