(* ===== verification/Client.thy ===== *)
theory Client
  imports Rpc
begin

unbundle bit_operations_syntax

text \<open>
  The life of a client: \<open>lib/init.c\<close>, \<open>lib/open.c\<close>, \<open>lib/close.c\<close> and the stubs
  \<open>glibtop_get_f_l\<close> that \<open>lib/lib.pl\<close> generates.

  The world is a record: the environment, what connecting, \<open>pipe\<close> and \<open>fork\<close> give, the bytes a
  server will send, the sysdeps functions of the port. The state of a client is its
  \<open>struct _glibtop\<close> and the connection. The functions below \<open>glibtop_open_l\<close> call
  \<open>glibtop_init_r\<close> again; at that point the structure is initialised and marked as open, and
  these calls return at once (\<open>init_r_done\<close>).
\<close>

section \<open>State and world\<close>

record client =
  cl :: glibtop
  conn :: connection

record world =
  w_server :: "string option"           \<comment> \<open>\<open>getenv ("LIBGTOP_SERVER")\<close>\<close>
  w_rsh :: "string option"              \<comment> \<open>\<open>getenv ("LIBGTOP_RSH")\<close>\<close>
  w_default_server :: string            \<comment> \<open>the macro \<open>LIBGTOP_SERVER\<close>\<close>
  w_version :: string
  w_server_version :: string
  w_connect :: "string option \<Rightarrow> guint64 \<Rightarrow> int res"  \<comment> \<open>\<open>glibtop_make_connection\<close>: the socket\<close>
  w_pipes :: "((int \<times> int) \<times> (int \<times> int)) option"
  w_fork :: int
  w_stream :: "nev list"                \<comment> \<open>what the server sends\<close>
  w_suid :: "feature \<Rightarrow> bool"
  w_open_s :: "glibtop \<Rightarrow> glibtop res"   \<comment> \<open>\<open>glibtop_open_s\<close>\<close>
  w_hook :: "feature \<Rightarrow> glibtop \<Rightarrow> glibtop"  \<comment> \<open>\<open>_glibtop_init_f_s\<close>\<close>

definition flagged :: "32 word \<Rightarrow> 32 word \<Rightarrow> bool" where
  "flagged flags m \<longleftrightarrow> flags AND m \<noteq> 0"

definition set_flag :: "32 word \<Rightarrow> glibtop \<Rightarrow> glibtop" where
  "set_flag m s = s\<lparr>s_flags := s_flags s OR m\<rparr>"

section \<open>init.c\<close>

definition DEFAULT_PORT :: guint64 where "DEFAULT_PORT = 42800"

fun split_colon :: "string \<Rightarrow> string \<times> string option" where
  \<comment> \<open>\<open>temp = strstr (s, ":"); if (temp) *temp = 0\<close>: before and behind the colon\<close>
  "split_colon [] = ([], None)"
| "split_colon (c # s) =
     (if c = CHR '':'' then ([], Some s) else (let (a, r) = split_colon s in (c # a, r)))"

definition scan_ld :: "string \<Rightarrow> guint64 option" where
  \<comment> \<open>\<open>sscanf (s, "%ld", &port)\<close>\<close>
  "scan_ld s = (if strto 10 s = None then None else Some (fst (strtol 10 s)))"

definition inet_fields :: "string option \<Rightarrow> glibtop \<Rightarrow> glibtop" where
  \<comment> \<open>what follows \<open>:inet\<close>\<close>
  "inet_fields temp server =
     (let server = server\<lparr>s_method := GLIBTOP_METHOD_INET\<rparr>;
          (server, temp) =
            (case temp of
               None \<Rightarrow> (if s_server_host server = None then server\<lparr>s_server_host := Some ''localhost''\<rparr>
                        else server, None)
             | Some t \<Rightarrow> (let (host, temp2) = split_colon t
                          in (server\<lparr>s_server_host := Some host\<rparr>, temp2)))
      in case temp of
           None \<Rightarrow> (if s_server_port server = 0 then server\<lparr>s_server_port := DEFAULT_PORT\<rparr> else server)
         | Some t \<Rightarrow> (case scan_ld (fst (split_colon t)) of
               None \<Rightarrow> server\<lparr>s_server_port := DEFAULT_PORT\<rparr>
             | Some p \<Rightarrow> server\<lparr>s_server_port := p\<rparr>))"

definition init_server :: "world \<Rightarrow> guint64 \<Rightarrow> glibtop \<Rightarrow> glibtop res" where
  "init_server W features server =
     (let server = (if s_server_command server = None
            then server\<lparr>s_server_command := Some (case w_server W of Some t \<Rightarrow> t | None \<Rightarrow> w_default_server W)\<rparr>
            else server);
          server = (if s_server_rsh server = None
            then server\<lparr>s_server_rsh := Some (case w_rsh W of Some t \<Rightarrow> t | None \<Rightarrow> ''/usr/bin/ssh'')\<rparr>
            else server)
      in if s_method server \<noteq> 0 then Inr server
      else case the (s_server_command server) of
        c # rest \<Rightarrow>
          (if c \<noteq> CHR '':'' then
             Inr (server\<lparr>s_method := if features AND glibtop_server_features (w_suid W) \<noteq> 0
                                     then GLIBTOP_METHOD_PIPE else GLIBTOP_METHOD_DIRECT\<rparr>)
           else (let (command, temp) = split_colon rest in
             if command = ''direct'' then Inr (server\<lparr>s_method := GLIBTOP_METHOD_DIRECT\<rparr>)
             else if command = ''inet'' then Inr (inet_fields temp server)
             else if command = ''unix'' then Inr (server\<lparr>s_method := GLIBTOP_METHOD_UNIX\<rparr>)
             else if command = ''pipe'' then
               Inr (server\<lparr>s_method := GLIBTOP_METHOD_PIPE, s_server_command := Some (w_default_server W)\<rparr>)
             else Inl (Exit ''Unknown server method'')))
      | [] \<Rightarrow>
          Inr (server\<lparr>s_method := if features AND glibtop_server_features (w_suid W) \<noteq> 0
                                  then GLIBTOP_METHOD_PIPE else GLIBTOP_METHOD_DIRECT\<rparr>))"

definition glibtop_init_s :: "world \<Rightarrow> 32 word \<Rightarrow> glibtop \<Rightarrow> glibtop res" where
  "glibtop_init_s W flags server =
     (if flagged flags GLIBTOP_INIT_NO_INIT then Inr server
      else if flagged (s_flags server) GLIBTOP_INIT_STATE_SYSDEPS then Inr server
      else bind_res (w_open_s W server) (\<lambda>server.
        Inr (set_flag GLIBTOP_INIT_STATE_SYSDEPS
          (fold (w_hook W) (glibtop_init_hook_s (w_suid W)) server))))"

section \<open>open.c\<close>

text \<open>The \<open>switch\<close>: connecting. The child of the \<open>fork\<close> never comes back.\<close>

definition open_connection :: "world \<Rightarrow> client \<Rightarrow> client res" where
  "open_connection W c =
     (let server = cl c;
          fresh = \<lparr>to_server = [], write_events = [], from_server = w_stream W\<rparr>;
          up = (\<lambda>server. Inr \<lparr>cl = (set_flag GLIBTOP_INIT_STATE_SERVER server)\<lparr>s_features := - 1\<rparr>, conn = fresh\<rparr>)
      in if s_method server = GLIBTOP_METHOD_DIRECT then Inr (c\<lparr>cl := server\<lparr>s_features := 0\<rparr>\<rparr>)
      else if s_method server = GLIBTOP_METHOD_INET then
        bind_res (w_connect W (s_server_host server) (s_server_port server)) (\<lambda>sock.
          up (server\<lparr>s_socket := sock\<rparr>))
      else if s_method server = GLIBTOP_METHOD_UNIX then
        bind_res (w_connect W (Some ''unix'') 0) (\<lambda>sock. up (server\<lparr>s_socket := sock\<rparr>))
      else if s_method server = GLIBTOP_METHOD_PIPE then
        (case w_pipes W of
           None \<Rightarrow> Inl (Exit ''cannot make a pipe'')
         | Some (inp, outp) \<Rightarrow>
             (if w_fork W < 0 then Inl (Exit ''fork failed'')
              else if w_fork W = 0 then Inl (Exit ''execl'')
              else up (server\<lparr>s_input := inp, s_output := outp, s_pid := w_fork W\<rparr>)))
      else Inr c)"

text \<open>Asking a server for its version and its features.\<close>

definition handshake :: "world \<Rightarrow> client \<Rightarrow> client res" where
  "handshake W c =
     (let version = version_string (w_version W) (w_server_version W);
          n = length version + 1
      in bind_res (glibtop_read_l 8 (from_server (conn c))) (\<lambda>(nbytes, evs).
         if bytes_u64 nbytes \<noteq> of_nat n then Inl (Exit ''Requested bytes but got others'')
         else bind_res (glibtop_read_l n evs) (\<lambda>(buffer, evs).
           if buffer \<noteq> version @ [NUL] then Inl (Exit ''server version'')
           else bind_res (call_l GLIBTOP_CMND_SYSDEPS [] (Some sizeof_sysdeps) ((conn c)\<lparr>from_server := evs\<rparr>))
             (\<lambda>(bs, _, conn).
               Inr \<lparr>cl = (cl c)\<lparr>s_features := sd_features (bytes_sysdeps bs), s_sysdeps := bytes_sysdeps bs\<rparr>,
                    conn = conn\<rparr>))))"

definition glibtop_open_l :: "world \<Rightarrow> string \<Rightarrow> 32 word \<Rightarrow> client \<Rightarrow> client res" where
  "glibtop_open_l W program_name flags c =
     (let server = (set_flag GLIBTOP_INIT_STATE_OPEN ((cl c)\<lparr>s_name := Some program_name\<rparr>))
                     \<lparr>s_error_method := GLIBTOP_ERROR_METHOD_WARN_ONCE\<rparr>
      in bind_res (open_connection W (c\<lparr>cl := server\<rparr>)) (\<lambda>c.
         bind_res (if flagged (s_flags (cl c)) GLIBTOP_INIT_STATE_SERVER then handshake W c else Inr c) (\<lambda>c.
         bind_res (glibtop_init_s W flags (cl c)) (\<lambda>server. Inr (c\<lparr>cl := server\<rparr>)))))"

section \<open>glibtop_init_r\<close>

text \<open>The first part, \<open>features\<close> and the method; \<open>glibtop_machine_new\<close> allocates zeros.\<close>

definition init_method :: "world \<Rightarrow> guint64 \<Rightarrow> 32 word \<Rightarrow> glibtop \<Rightarrow> glibtop res" where
  "init_method W features flags server =
     (let server = server\<lparr>s_machine := Some \<lparr>m_uid = 0, m_euid = 0, m_gid = 0, m_egid = 0\<rparr>\<rparr>;
          features = (if flagged flags GLIBTOP_FEATURES_EXCEPT
                      then NOT features AND GLIBTOP_SYSDEPS_ALL else features);
          features = (if features = 0 then GLIBTOP_SYSDEPS_ALL else features);
          (server, features) = (if flagged flags GLIBTOP_FEATURES_NO_SERVER
                      then (server\<lparr>s_method := GLIBTOP_METHOD_DIRECT\<rparr>, 0) else (server, features));
          server = server\<lparr>s_features := features\<rparr>
      in bind_res (init_server W features server) (\<lambda>server.
         let server = set_flag GLIBTOP_INIT_STATE_INIT server in
         Inr (if (s_method server = GLIBTOP_METHOD_PIPE \<or> s_method server = GLIBTOP_METHOD_UNIX)
                 \<and> glibtop_server_features (w_suid W) AND features = 0
              then server\<lparr>s_method := GLIBTOP_METHOD_DIRECT\<rparr> else server)))"

definition glibtop_init_r :: "world \<Rightarrow> guint64 \<Rightarrow> 32 word \<Rightarrow> client \<Rightarrow> client res" where
  "glibtop_init_r W features flags c =
     (if flagged flags GLIBTOP_INIT_NO_INIT then Inr c
      else bind_res
        (if flagged (s_flags (cl c)) GLIBTOP_INIT_STATE_INIT then Inr c
         else bind_res (init_method W features flags (cl c)) (\<lambda>server. Inr (c\<lparr>cl := server\<rparr>)))
        (\<lambda>c. if flagged flags GLIBTOP_INIT_NO_OPEN then Inr c
             else if flagged (s_flags (cl c)) GLIBTOP_INIT_STATE_OPEN then Inr c
             else glibtop_open_l W ''glibtop'' flags c))"

section \<open>close.c\<close>

text \<open>The connection that is closed, if any; nothing in the structure changes.\<close>

datatype closed = Nothing | Socket int | Process int int int

definition glibtop_close_r :: "client \<Rightarrow> (closed \<times> client) res" where
  "glibtop_close_r c =
     (let m = s_method (cl c) in
      if m = GLIBTOP_METHOD_UNIX \<or> m = GLIBTOP_METHOD_INET then
        bind_res (call_l GLIBTOP_CMND_QUIT [] None (conn c)) (\<lambda>(_, _, conn).
          Inr (Socket (s_socket (cl c)), c\<lparr>conn := conn\<rparr>))
      else if m = GLIBTOP_METHOD_PIPE then
        Inr (Process (s_pid (cl c)) (fst (s_input (cl c))) (snd (s_output (cl c))), c)
      else Inr (Nothing, c))"

section \<open>The stubs\<close>

definition missing_feature ::
  "32 word \<Rightarrow> guint64 \<Rightarrow> guint64 \<Rightarrow> guint64 res" where
  \<comment> \<open>\<open>_glibtop_missing_feature\<close>: the new value of \<open>*required\<close>\<close>
  "missing_feature error_method present required =
     (if NOT present AND required = 0 then Inr required
      else if error_method = GLIBTOP_ERROR_METHOD_WARN_ONCE then Inr (required AND present)
      else if error_method = GLIBTOP_ERROR_METHOD_ABORT then Inl (Exit ''Client requested field mask'')
      else Inr required)"

definition set_required :: "feature \<Rightarrow> guint64 \<Rightarrow> glibtop \<Rightarrow> glibtop" where
  "set_required f v s = s\<lparr>s_required := (s_required s)\<lparr>sd := (sd (s_required s))(f := v)\<rparr>\<rparr>"

definition check_required :: "feature \<Rightarrow> string \<Rightarrow> glibtop \<Rightarrow> glibtop res" where
  \<comment> \<open>\<open>flags\<close> is the first member of every struct\<close>
  "check_required f buf server =
     (let flags = bytes_u64 buf; required = sd (s_required server) f in
      if flags AND required \<noteq> 0 then
        bind_res (missing_feature (s_error_method server) flags required) (\<lambda>required.
          Inr (set_required f required server))
      else Inr server)"

text \<open>\<open>glibtop_get_f_l\<close>: \<open>svc\<close> are the functions \<open>glibtop_get_f_s\<close> of the port.\<close>

definition uses_server :: "feature \<Rightarrow> glibtop \<Rightarrow> bool" where
  "uses_server f server \<longleftrightarrow>
     flagged (s_flags server) GLIBTOP_INIT_STATE_SERVER \<and> s_features server AND flag (feature_nr f) \<noteq> 0"

definition glibtop_get_l ::
  "world \<Rightarrow> service \<Rightarrow> feature \<Rightarrow> call_arg \<Rightarrow> client \<Rightarrow> ((string \<times> string option) \<times> client) res" where
  "glibtop_get_l W svc f a c =
     bind_res (glibtop_init_r W (flag (feature_nr f)) 0 c) (\<lambda>c.
     bind_res
       (if uses_server f (cl c) then
          bind_res (call_l (GLIBTOP_CMND f) (send_buf a) (Some (sizeof_struct f)) (conn c)) (\<lambda>(buf, data, conn).
            Inr ((buf, data), c\<lparr>conn := conn\<rparr>))
        else if w_suid W f \<and> f \<notin> {F_MOUNTLIST, F_FSUSAGE} then Inl (Exit ''glibtop_get: ENOSYS'')
        else bind_res (svc f a) (\<lambda>r. Inr (r, c)))
       (\<lambda>((buf, data), c).
     bind_res (check_required f buf (cl c)) (\<lambda>server. Inr ((buf, data), c\<lparr>cl := server\<rparr>))))"

section \<open>Flags\<close>

lemma flagged_or [simp]: "flagged (a OR b) m \<longleftrightarrow> flagged a m \<or> flagged b m"
  by (simp add: flagged_def bit.conj_disj_distrib2 or_eq_0_iff)

lemma flagged_0 [simp]: "\<not> flagged 0 m"
  by (simp add: flagged_def)

lemma flagged_numeral [simp]: "flagged (numeral k) (numeral m) \<longleftrightarrow> (numeral k :: 32 word) AND numeral m \<noteq> 0"
  "flagged (numeral k) 1 \<longleftrightarrow> (numeral k :: 32 word) AND 1 \<noteq> 0"
  by (simp_all add: flagged_def)

lemma s_flags_set_flag [simp]: "s_flags (set_flag m s) = s_flags s OR m"
  by (simp add: set_flag_def)

lemma set_flag_simps [simp]:
  "s_method (set_flag m s) = s_method s" "s_features (set_flag m s) = s_features s"
  "s_required (set_flag m s) = s_required s" "s_error_method (set_flag m s) = s_error_method s"
  by (simp_all add: set_flag_def)

abbreviation "initialised c \<equiv> flagged (s_flags (cl c)) GLIBTOP_INIT_STATE_INIT"
abbreviation "opened c \<equiv> flagged (s_flags (cl c)) GLIBTOP_INIT_STATE_OPEN"
abbreviation "connected c \<equiv> flagged (s_flags (cl c)) GLIBTOP_INIT_STATE_SERVER"
abbreviation "has_sysdeps c \<equiv> flagged (s_flags (cl c)) GLIBTOP_INIT_STATE_SYSDEPS"

section \<open>What the client relies on in a port\<close>

text \<open>The part of the structure that belongs to the library: the open function and the init
  hooks of a port leave it alone.\<close>

definition core :: "glibtop \<Rightarrow> glibtop" where
  "core s = s\<lparr>s_ncpu := 0, s_real_ncpu := 0, s_os_version_code := 0, s_name := None,
     s_sysdeps := sysdeps_zero, s_ndisk := 0\<rparr>"

lemma core_eqD:
  assumes "core s = core t"
  shows "s_flags s = s_flags t" "s_method s = s_method t" "s_error_method s = s_error_method t"
    "s_features s = s_features t" "s_required s = s_required t" "s_socket s = s_socket t"
    "s_server_host s = s_server_host t" "s_server_port s = s_server_port t"
  using assms by (cases s; cases t; simp add: core_def)+

lemma core_set_flag: "core (set_flag m s) = set_flag m (core s)"
  by (simp add: core_def set_flag_def)

locale sysdeps_port =
  fixes W :: world
  assumes open_core: "w_open_s W s = Inr s' \<Longrightarrow> core s' = core s"
    and hook_core: "core (w_hook W f s) = core s"
begin

lemma hooks_core: "core (fold (w_hook W) fs s) = core s"
  by (induction fs arbitrary: s) (simp_all add: hook_core)

lemma init_s_core:
  assumes "glibtop_init_s W flags s = Inr s'" and "\<not> flagged flags GLIBTOP_INIT_NO_INIT"
  shows "flagged (s_flags s') GLIBTOP_INIT_STATE_SYSDEPS"
    and "core s' = core s \<or> core s' = core (set_flag GLIBTOP_INIT_STATE_SYSDEPS s)"
  using assms
  by (auto simp: glibtop_init_s_def bind_res_Inr_iff core_set_flag hooks_core open_core split: if_splits)

lemma open_l_result:
  assumes "glibtop_open_l W nm flags c = Inr c'" and "\<not> flagged flags GLIBTOP_INIT_NO_INIT"
  shows "opened c' \<and> has_sysdeps c' \<and> (initialised c \<longrightarrow> initialised c')
    \<and> (connected c' \<longleftrightarrow> connected c \<or> s_method (cl c) \<in> {GLIBTOP_METHOD_INET, GLIBTOP_METHOD_UNIX, GLIBTOP_METHOD_PIPE})
    \<and> s_method (cl c') = s_method (cl c)
    \<and> (\<not> connected c' \<longrightarrow> conn c' = conn c)"
proof -
  define c0 where "c0 = c\<lparr>cl := (set_flag GLIBTOP_INIT_STATE_OPEN ((cl c)\<lparr>s_name := Some nm\<rparr>))
                     \<lparr>s_error_method := GLIBTOP_ERROR_METHOD_WARN_ONCE\<rparr>\<rparr>"
  obtain c1 c2 s' where r: "open_connection W c0 = Inr c1"
    "(if connected c1 then handshake W c1 else Inr c1) = Inr c2"
    "glibtop_init_s W flags (cl c2) = Inr s'" "c' = c2\<lparr>cl := s'\<rparr>"
    using assms(1) by (auto simp: glibtop_open_l_def Let_def bind_res_Inr_iff c0_def)
  have 0: "opened c0" "initialised c0 \<longleftrightarrow> initialised c" "connected c0 \<longleftrightarrow> connected c"
    "s_method (cl c0) = s_method (cl c)" "conn c0 = conn c"
    by (simp_all add: c0_def flagged_def [of "0x20000"])
  have 1: "opened c1" "initialised c0 \<longrightarrow> initialised c1" "s_method (cl c1) = s_method (cl c0)"
    "connected c1 \<longleftrightarrow> connected c0 \<or> s_method (cl c0) \<in> {GLIBTOP_METHOD_INET, GLIBTOP_METHOD_UNIX, GLIBTOP_METHOD_PIPE}"
    "\<not> connected c1 \<longrightarrow> conn c1 = conn c0"
    using r(1) 0(1)
    by (auto simp: open_connection_def Let_def bind_res_Inr_iff flagged_def [of "0x40000"]
        split: if_splits option.splits)
  have 2: "s_flags (cl c2) = s_flags (cl c1)" "s_method (cl c2) = s_method (cl c1)"
    "\<not> connected c1 \<longrightarrow> conn c2 = conn c1"
    using r(2) by (auto simp: handshake_def Let_def bind_res_Inr_iff split: if_splits)
  note c = init_s_core [OF r(3) assms(2)]
  have 3: "opened c2 \<longrightarrow> opened c'" "initialised c2 \<longrightarrow> initialised c'" "connected c2 \<longleftrightarrow> connected c'"
    "s_method (cl c') = s_method (cl c2)" "conn c' = conn c2" "has_sysdeps c'"
    using c core_eqD(1,2) [of s' "cl c2"] core_eqD(1,2) [of s' "set_flag GLIBTOP_INIT_STATE_SYSDEPS (cl c2)"]
    by (auto simp: r(4) flagged_def [of "0x80000"] set_flag_def)
  from 0 1 2 3 show ?thesis by auto
qed

end

lemma inet_fields_simps [simp]:
  "s_flags (inet_fields t s) = s_flags s" "s_required (inet_fields t s) = s_required s"
  "s_features (inet_fields t s) = s_features s" "s_method (inet_fields t s) = GLIBTOP_METHOD_INET"
  by (auto simp: inet_fields_def Let_def split: option.splits prod.splits)

lemma init_server_keeps:
  assumes "init_server W features s = Inr s'"
  shows "s_flags s' = s_flags s \<and> s_required s' = s_required s \<and> s_features s' = s_features s"
proof -
  define t where "t = (if s_server_command s = None
            then s\<lparr>s_server_command := Some (case w_server W of Some t \<Rightarrow> t | None \<Rightarrow> w_default_server W)\<rparr>
            else s)"
  define u where "u = (if s_server_rsh t = None
            then t\<lparr>s_server_rsh := Some (case w_rsh W of Some t \<Rightarrow> t | None \<Rightarrow> ''/usr/bin/ssh'')\<rparr>
            else t)"
  have "s_flags u = s_flags s" "s_required u = s_required s" "s_features u = s_features s"
    by (simp_all add: u_def t_def)
  moreover have "s_flags s' = s_flags u \<and> s_required s' = s_required u \<and> s_features s' = s_features u"
    using assms unfolding init_server_def t_def [symmetric] u_def [symmetric] Let_def
    by (auto split: if_splits list.splits prod.splits)
  ultimately show ?thesis by simp
qed

lemma init_method_flags:
  assumes "init_method W features flags s = Inr s'"
  shows "flagged (s_flags s') GLIBTOP_INIT_STATE_INIT
     \<and> s_flags s' = s_flags s OR GLIBTOP_INIT_STATE_INIT \<and> s_required s' = s_required s"
  using assms
  by (auto simp: init_method_def Let_def bind_res_Inr_iff set_flag_def split: prod.splits if_splits
      dest!: init_server_keeps)

lemma init_r_done:
  "initialised c \<Longrightarrow> opened c \<Longrightarrow> glibtop_init_r W features flags c = Inr c"
  by (simp add: glibtop_init_r_def)

context sysdeps_port
begin

lemma init_r_result:
  assumes "glibtop_init_r W features flags c = Inr c'"
    and "\<not> flagged flags GLIBTOP_INIT_NO_INIT" "\<not> flagged flags GLIBTOP_INIT_NO_OPEN"
  shows "initialised c' \<and> opened c' \<and> (opened c \<and> initialised c \<longrightarrow> c' = c)
    \<and> (opened c \<or> has_sysdeps c') \<and> (connected c \<longrightarrow> connected c') \<and> (has_sysdeps c \<longrightarrow> has_sysdeps c')
    \<and> (\<not> connected c' \<longrightarrow> conn c' = conn c)"
proof -
  obtain c1 where 1: "(if initialised c then Inr c
       else bind_res (init_method W features flags (cl c)) (\<lambda>server. Inr (c\<lparr>cl := server\<rparr>))) = Inr c1"
    and 2: "(if opened c1 then Inr c1 else glibtop_open_l W ''glibtop'' flags c1) = Inr c'"
    using assms by (auto simp: glibtop_init_r_def bind_res_Inr_iff)
  have c1: "initialised c1" "opened c1 \<longleftrightarrow> opened c" "connected c1 \<longleftrightarrow> connected c"
    "has_sysdeps c1 \<longleftrightarrow> has_sysdeps c" "conn c1 = conn c" "initialised c \<longrightarrow> c1 = c"
    using 1 init_method_flags [of W features flags "cl c"]
    by (auto simp: bind_res_Inr_iff split: if_splits)
  show ?thesis
  proof (cases "opened c1")
    case True
    with 2 c1 show ?thesis by auto
  next
    case False
    then have "glibtop_open_l W ''glibtop'' flags c1 = Inr c'" using 2 by simp
    from open_l_result [OF this assms(2)] c1 False show ?thesis by auto
  qed
qed

end

text \<open>
  C7. Initialisation happens once: after a call of \<open>glibtop_init_r\<close> that was not told to leave out
  a part, the client is initialised, open and has its sysdeps, and every later call, with any
  features and flags, changes nothing (so the recursive calls from the read, write and call
  functions end).
\<close>

theorem init_r_once:
  assumes "sysdeps_port W" and "glibtop_init_r W features flags c = Inr c'"
    and "\<not> flagged flags GLIBTOP_INIT_NO_INIT" "\<not> flagged flags GLIBTOP_INIT_NO_OPEN"
    and "\<not> opened c"
  shows "initialised c' \<and> opened c' \<and> has_sysdeps c' \<and> glibtop_init_r W features' flags' c' = Inr c'"
  using sysdeps_port.init_r_result [OF assms(1-4)] assms(5) by (simp add: init_r_done)

definition no_connection :: connection where
  "no_connection = \<lparr>to_server = [], write_events = [], from_server = []\<rparr>"

definition fresh_client :: client where
  "fresh_client = \<lparr>cl = glibtop_global_server, conn = no_connection\<rparr>"

definition demo_world :: world where
  \<comment> \<open>a port without setuid features whose functions do nothing\<close>
  "demo_world = \<lparr>w_server = None, w_rsh = None, w_default_server = ''/usr/libexec/libgtop_server2'',
     w_version = ''2.38.0'', w_server_version = ''5'', w_connect = (\<lambda>h p. Inr 7), w_pipes = None, w_fork = 1,
     w_stream = [], w_suid = (\<lambda>_. False), w_open_s = Inr, w_hook = (\<lambda>f s. s)\<rparr>"

lemma demo_port: "sysdeps_port (demo_world\<lparr>w_server := e, w_stream := st\<rparr>)" "sysdeps_port demo_world"
  by unfold_locales (simp_all add: demo_world_def)

lemma fold_skip: "fold (\<lambda>f s. s) fs s = s"
  by (induction fs) auto

lemma no_suid_features [simp]: "glibtop_server_features (\<lambda>_. False) = 0"
  by (simp add: glibtop_server_features_def GLIBTOP_SUID_def server_features_terms_def)

theorem init_r_once_witness:
  "\<exists>c'. glibtop_init_r demo_world 0 0 fresh_client = Inr c'
     \<and> glibtop_init_r demo_world 2 0 c' = Inr c' \<and> s_method (cl c') = GLIBTOP_METHOD_DIRECT"
proof -
  have "\<exists>c'. glibtop_init_r demo_world 0 0 fresh_client = Inr c' \<and> s_method (cl c') = GLIBTOP_METHOD_DIRECT"
    by (simp add: glibtop_init_r_def fresh_client_def glibtop_global_server_def init_method_def
        init_server_def demo_world_def glibtop_open_l_def open_connection_def glibtop_init_s_def
        set_flag_def Let_def fold_skip)
  moreover have "\<not> opened fresh_client" by (simp add: fresh_client_def glibtop_global_server_def)
  ultimately show ?thesis
    using init_r_once [OF demo_port(2), of 0 0 fresh_client _ 2 0] by auto
qed

section \<open>The states a client can reach\<close>

inductive client_step :: "world \<Rightarrow> service \<Rightarrow> client \<Rightarrow> client \<Rightarrow> bool" for W svc where
  Init: "glibtop_init_r W features flags c = Inr c' \<Longrightarrow> client_step W svc c c'"
| Get: "glibtop_get_l W svc f a c = Inr (r, c') \<Longrightarrow> client_step W svc c c'"
| Param: "client_step W svc c (c\<lparr>cl := glibtop_set_parameter_l (cl c) parameter data\<rparr>)"
| Close: "glibtop_close_r c = Inr (x, c') \<Longrightarrow> client_step W svc c c'"

inductive reachable :: "world \<Rightarrow> service \<Rightarrow> client \<Rightarrow> bool" for W svc where
  Start: "reachable W svc fresh_client"
| Step: "reachable W svc c \<Longrightarrow> client_step W svc c c' \<Longrightarrow> reachable W svc c'"

inductive_simps client_step_simps: "client_step W svc c c'"

text \<open>The same, as long as nobody sets the method of a client that is open.\<close>

inductive undisturbed :: "world \<Rightarrow> service \<Rightarrow> client \<Rightarrow> bool" for W svc where
  Begin: "undisturbed W svc fresh_client"
| Go: "undisturbed W svc c \<Longrightarrow> client_step W svc c c' \<Longrightarrow> (opened c \<longrightarrow> s_method (cl c') = s_method (cl c))
    \<Longrightarrow> undisturbed W svc c'"

definition method_connected :: "client \<Rightarrow> bool" where
  "method_connected c \<longleftrightarrow>
     (connected c \<longleftrightarrow> s_method (cl c) \<in> {GLIBTOP_METHOD_INET, GLIBTOP_METHOD_UNIX, GLIBTOP_METHOD_PIPE})"

definition client_ok :: "client \<Rightarrow> bool" where
  "client_ok c \<longleftrightarrow> (opened c \<longrightarrow> initialised c \<and> has_sysdeps c) \<and> (connected c \<longrightarrow> opened c)
     \<and> (\<not> connected c \<longrightarrow> conn c = no_connection)"

lemma set_parameter_flags [simp]: "s_flags (glibtop_set_parameter_l s p d) = s_flags s"
  by (simp add: glibtop_set_parameter_l_def)

lemma call_l_no_connection:
  "call_l command buf n no_connection \<noteq> Inr r"
  by (simp add: call_l_def call_reply_def no_connection_def sizeof_response_def offset_union_def)

lemma check_required_flags:
  "check_required f buf s = Inr s' \<Longrightarrow> s_flags s' = s_flags s"
  by (auto simp: check_required_def Let_def bind_res_Inr_iff set_required_def split: if_splits)

lemma check_required_keeps:
  "check_required f buf s = Inr s' \<Longrightarrow> s_flags s' = s_flags s \<and> s_method s' = s_method s"
  by (auto simp: check_required_def Let_def bind_res_Inr_iff set_required_def split: if_splits)

context sysdeps_port
begin

lemma init_r_ok:
  assumes ok: "client_ok c" and r: "glibtop_init_r W features flags c = Inr c'"
  shows "client_ok c'"
proof (cases "flagged flags GLIBTOP_INIT_NO_INIT")
  case True
  with r ok show ?thesis by (simp add: glibtop_init_r_def)
next
  case False
  show ?thesis
  proof (cases "flagged flags GLIBTOP_INIT_NO_OPEN")
    case True
    with r False ok init_method_flags [of W features flags "cl c"] show ?thesis
      by (auto simp: glibtop_init_r_def bind_res_Inr_iff client_ok_def flagged_def [of "0x10000"]
          split: if_splits)
  next
    case False2: False
    from init_r_result [OF r False False2] ok show ?thesis by (auto simp: client_ok_def)
  qed
qed

lemma get_l_ok:
  assumes ok: "client_ok c" and r: "glibtop_get_l W svc f a c = Inr (x, c')"
  shows "client_ok c'"
proof -
  obtain c1 where 1: "glibtop_init_r W (flag (feature_nr f)) 0 c = Inr c1"
    and 2: "s_flags (cl c') = s_flags (cl c1)" "uses_server f (cl c1) \<or> conn c' = conn c1"
    using r by (auto simp: glibtop_get_l_def bind_res_Inr_iff dest!: check_required_flags split: if_splits)
  from init_r_ok [OF ok 1] 2 show ?thesis by (auto simp: client_ok_def uses_server_def)
qed

lemma close_ok:
  assumes "client_ok c" and "glibtop_close_r c = Inr (x, c')"
  shows "client_ok c'"
  using assms call_l_no_connection [of _ "[]" None]
  by (auto simp: glibtop_close_r_def Let_def bind_res_Inr_iff client_ok_def split: if_splits)

lemma reachable_ok: "reachable W svc c \<Longrightarrow> client_ok c"
proof (induction rule: reachable.induct)
  case Start
  then show ?case by (simp add: client_ok_def fresh_client_def glibtop_global_server_def)
next
  case (Step c c')
  from Step.hyps(2) show ?case
  proof (cases rule: client_step.cases)
    case (Init features flags)
    then show ?thesis by (rule init_r_ok [OF Step.IH])
  next
    case (Get f a r)
    then show ?thesis by (rule get_l_ok [OF Step.IH])
  next
    case (Param parameter data)
    then show ?thesis using Step.IH by (simp add: client_ok_def)
  next
    case (Close x)
    then show ?thesis by (rule close_ok [OF Step.IH])
  qed
qed

lemma init_r_method:
  assumes ok: "client_ok c" and m: "opened c \<longrightarrow> method_connected c"
    and r: "glibtop_init_r W features flags c = Inr c'"
  shows "opened c' \<longrightarrow> method_connected c'"
proof (cases "opened c")
  case True
  then have "initialised c" using ok by (simp add: client_ok_def)
  with True m r show ?thesis by (auto simp: glibtop_init_r_def split: if_splits)
next
  case closed: False
  show ?thesis
  proof (cases "flagged flags GLIBTOP_INIT_NO_INIT")
    case True
    with closed r show ?thesis by (simp add: glibtop_init_r_def)
  next
    case False
    obtain c1 where 1: "(if initialised c then Inr c
         else bind_res (init_method W features flags (cl c)) (\<lambda>server. Inr (c\<lparr>cl := server\<rparr>))) = Inr c1"
      and 2: "(if flagged flags GLIBTOP_INIT_NO_OPEN then Inr c1 else if opened c1 then Inr c1
         else glibtop_open_l W ''glibtop'' flags c1) = Inr c'"
      using r False by (auto simp: glibtop_init_r_def bind_res_Inr_iff)
    have c1: "opened c1 \<longleftrightarrow> opened c" "connected c1 \<longleftrightarrow> connected c"
      using 1 init_method_flags [of W features flags "cl c"] by (auto simp: bind_res_Inr_iff split: if_splits)
    have n: "\<not> opened c1" "\<not> connected c1" using closed ok c1 by (auto simp: client_ok_def)
    show ?thesis
    proof (cases "flagged flags GLIBTOP_INIT_NO_OPEN")
      case True
      with 2 n show ?thesis by simp
    next
      case False2: False
      with 2 n have "glibtop_open_l W ''glibtop'' flags c1 = Inr c'" by simp
      from open_l_result [OF this False] n show ?thesis by (simp add: method_connected_def)
    qed
  qed
qed

lemma undisturbed_reachable: "undisturbed W svc c \<Longrightarrow> reachable W svc c"
  by (induction rule: undisturbed.induct) (auto intro: Start Step)

lemma undisturbed_method: "undisturbed W svc c \<Longrightarrow> opened c \<longrightarrow> method_connected c"
proof (induction rule: undisturbed.induct)
  case Begin
  show ?case by (simp add: fresh_client_def glibtop_global_server_def)
next
  case (Go c c')
  have ok: "client_ok c" using Go.hyps(1) by (rule reachable_ok [OF undisturbed_reachable])
  from Go.hyps(2) show ?case
  proof (cases rule: client_step.cases)
    case (Init features flags)
    then show ?thesis by (rule init_r_method [OF ok Go.IH])
  next
    case (Get f a r)
    then obtain c1 where 1: "glibtop_init_r W (flag (feature_nr f)) 0 c = Inr c1"
      and 2: "s_flags (cl c') = s_flags (cl c1)" "s_method (cl c') = s_method (cl c1)"
      by (auto simp: glibtop_get_l_def bind_res_Inr_iff dest!: check_required_keeps split: if_splits)
    with init_r_method [OF ok Go.IH 1] show ?thesis by (simp add: method_connected_def)
  next
    case (Param parameter data)
    with Go.hyps(3) Go.IH show ?thesis by (simp add: method_connected_def)
  next
    case (Close x)
    then have "cl c' = cl c" by (auto simp: glibtop_close_r_def Let_def bind_res_Inr_iff split: if_splits)
    with Go.IH show ?thesis by (simp add: method_connected_def)
  qed
qed

end



section \<open>Which clients need a server\<close>

lemma init_method_no_suid:
  assumes "init_method W features flags s = Inr s'" and "w_suid W = (\<lambda>_. False)"
  shows "s_method s' \<noteq> GLIBTOP_METHOD_PIPE" "s_method s' \<noteq> GLIBTOP_METHOD_UNIX"
  using assms by (auto simp: init_method_def Let_def bind_res_Inr_iff split: prod.splits if_splits)

lemma init_method_no_server:
  assumes "init_method W features flags s = Inr s'" and "flagged flags GLIBTOP_FEATURES_NO_SERVER"
  shows "s_method s' = GLIBTOP_METHOD_DIRECT"
  using assms
  by (auto simp: init_method_def init_server_def Let_def bind_res_Inr_iff set_flag_def
      split: prod.splits if_splits)

lemma init_r_fresh:
  assumes "glibtop_init_r W features flags c = Inr c'" and "\<not> initialised c" "\<not> opened c"
    and "\<not> flagged flags GLIBTOP_INIT_NO_INIT" "\<not> flagged flags GLIBTOP_INIT_NO_OPEN"
  obtains s where "init_method W features flags (cl c) = Inr s"
    "glibtop_open_l W ''glibtop'' flags (c\<lparr>cl := s\<rparr>) = Inr c'" "s_flags s = s_flags (cl c) OR GLIBTOP_INIT_STATE_INIT"
proof -
  obtain s where s: "init_method W features flags (cl c) = Inr s"
    and r: "(if flagged (s_flags s) GLIBTOP_INIT_STATE_OPEN then Inr (c\<lparr>cl := s\<rparr>)
      else glibtop_open_l W ''glibtop'' flags (c\<lparr>cl := s\<rparr>)) = Inr c'"
    using assms by (auto simp: glibtop_init_r_def bind_res_Inr_iff)
  have f: "s_flags s = s_flags (cl c) OR GLIBTOP_INIT_STATE_INIT"
    using init_method_flags [OF s] by simp
  with r assms(3) have "glibtop_open_l W ''glibtop'' flags (c\<lparr>cl := s\<rparr>) = Inr c'" by simp
  with s f show ?thesis by (intro that)
qed

text \<open>
  Where no feature needs privileges (Linux: every \<open>GLIBTOP_SUID_\<close> constant is 0) a client
  never starts the setuid server, neither over a pipe nor over a Unix socket, whatever the
  environment says; the only server it can be connected to after initialisation is a daemon
  it reaches over the network.
\<close>

theorem no_suid_no_local_server:
  assumes "sysdeps_port W" and "w_suid W = (\<lambda>_. False)"
    and "glibtop_init_r W features flags c = Inr c'"
    and "\<not> initialised c" "\<not> opened c" "\<not> connected c"
    and "\<not> flagged flags GLIBTOP_INIT_NO_INIT" "\<not> flagged flags GLIBTOP_INIT_NO_OPEN"
  shows "s_method (cl c') \<notin> {GLIBTOP_METHOD_PIPE, GLIBTOP_METHOD_UNIX}
    \<and> (connected c' \<longleftrightarrow> s_method (cl c') = GLIBTOP_METHOD_INET)"
proof -
  obtain s where s: "init_method W features flags (cl c) = Inr s"
    "glibtop_open_l W ''glibtop'' flags (c\<lparr>cl := s\<rparr>) = Inr c'" "s_flags s = s_flags (cl c) OR GLIBTOP_INIT_STATE_INIT"
    using assms(3-5,7,8) by (rule init_r_fresh)
  have "\<not> connected (c\<lparr>cl := s\<rparr>)" using assms(6) s(3) by simp
  with sysdeps_port.open_l_result [OF assms(1) s(2) assms(7)] init_method_no_suid [OF s(1) assms(2)]
  show ?thesis by auto
qed

theorem no_suid_no_local_server_witness:
  "\<exists>c'. glibtop_init_r (demo_world\<lparr>w_server := Some '':pipe'', w_stream := []\<rparr>) 0 0 fresh_client = Inr c'
     \<and> s_method (cl c') \<notin> {GLIBTOP_METHOD_PIPE, GLIBTOP_METHOD_UNIX}"
proof -
  let ?W = "demo_world\<lparr>w_server := Some '':pipe'', w_stream := []\<rparr>"
  have "\<exists>c'. glibtop_init_r ?W 0 0 fresh_client = Inr c'"
    by (simp add: glibtop_init_r_def fresh_client_def glibtop_global_server_def init_method_def
        init_server_def demo_world_def glibtop_open_l_def open_connection_def glibtop_init_s_def
        set_flag_def Let_def fold_skip)
  then obtain c' where c': "glibtop_init_r ?W 0 0 fresh_client = Inr c'" by blast
  have "w_suid ?W = (\<lambda>_. False)" "\<not> initialised fresh_client" "\<not> opened fresh_client" "\<not> connected fresh_client"
    by (simp_all add: demo_world_def fresh_client_def glibtop_global_server_def)
  with no_suid_no_local_server [OF demo_port(1) _ c'] c' show ?thesis by auto
qed

text \<open>
  \<open>GLIBTOP_FEATURES_NO_SERVER\<close> keeps its promise on every port and in every environment: the
  client calls the functions of its own port, is not connected and wants no feature from a
  server.
\<close>

theorem no_server_is_direct:
  assumes "sysdeps_port W" and "flagged flags GLIBTOP_FEATURES_NO_SERVER"
    and "glibtop_init_r W features flags c = Inr c'"
    and "\<not> initialised c" "\<not> opened c" "\<not> connected c"
    and "\<not> flagged flags GLIBTOP_INIT_NO_INIT" "\<not> flagged flags GLIBTOP_INIT_NO_OPEN"
  shows "s_method (cl c') = GLIBTOP_METHOD_DIRECT \<and> conn c' = conn c \<and> (\<forall>f. \<not> uses_server f (cl c'))"
proof -
  obtain s where s: "init_method W features flags (cl c) = Inr s"
    "glibtop_open_l W ''glibtop'' flags (c\<lparr>cl := s\<rparr>) = Inr c'" "s_flags s = s_flags (cl c) OR GLIBTOP_INIT_STATE_INIT"
    using assms(3-5,7,8) by (rule init_r_fresh)
  have "\<not> connected (c\<lparr>cl := s\<rparr>)" using assms(6) s(3) by simp
  with sysdeps_port.open_l_result [OF assms(1) s(2) assms(7)] init_method_no_server [OF s(1) assms(2)]
  show ?thesis by (simp add: uses_server_def)
qed

theorem no_server_is_direct_witness:
  "\<exists>c'. glibtop_init_r (demo_world\<lparr>w_server := Some '':inet:host'', w_stream := []\<rparr>) 0 4 fresh_client = Inr c'
     \<and> s_method (cl c') = GLIBTOP_METHOD_DIRECT"
proof -
  let ?W = "demo_world\<lparr>w_server := Some '':inet:host'', w_stream := []\<rparr>"
  have "\<exists>c'. glibtop_init_r ?W 0 4 fresh_client = Inr c'"
    by (simp add: glibtop_init_r_def fresh_client_def glibtop_global_server_def init_method_def
        init_server_def demo_world_def glibtop_open_l_def open_connection_def glibtop_init_s_def
        set_flag_def Let_def fold_skip)
  then obtain c' where c': "glibtop_init_r ?W 0 4 fresh_client = Inr c'" by blast
  have "\<not> initialised fresh_client" "\<not> opened fresh_client" "\<not> connected fresh_client"
    by (simp_all add: fresh_client_def glibtop_global_server_def)
  with no_server_is_direct [OF demo_port(1) _ c'] c' show ?thesis by auto
qed

section \<open>A client and a daemon\<close>

definition sysdeps_request :: string where
  "sysdeps_request = command_bytes (call_command GLIBTOP_CMND_SYSDEPS [])"

definition sysdeps_answer :: "glibtop_sysdeps \<Rightarrow> string" where
  "sysdeps_answer sysdeps = response_bytes (zero_response\<lparr>r_offset := of_nat offset_union,
     r_u := union_of (sysdeps_bytes sysdeps)\<rparr>)"

definition sysdeps_reply :: "glibtop_sysdeps \<Rightarrow> string" where
  "sysdeps_reply sysdeps = sysdeps_answer (sysdeps\<lparr>sd_features := GLIBTOP_SYSDEPS_ALL\<rparr>)"

lemma daemon_answers_sysdeps:
  assumes "smooth evs" and "stream_bytes evs = sysdeps_request @ later"
  obtains evs' where "smooth evs'" "stream_bytes evs' = later"
    "parent_loop svc sysdeps evs = (sysdeps_reply sysdeps @ fst (parent_loop svc sysdeps evs'),
       snd (parent_loop svc sysdeps evs'))"
proof -
  let ?cmnd = "call_command GLIBTOP_CMND_SYSDEPS []"
  have bytes: "bytes_command sysdeps_request = ?cmnd" "sizeof_command \<noteq> 0"
    "length sysdeps_request = sizeof_command"
    by (simp_all add: sysdeps_request_def sizeof_command_def del: One_nat_def)
  obtain evs' where e: "do_read sizeof_command evs = Inr (sizeof_command, sysdeps_request, evs')"
    "smooth evs'" "stream_bytes evs' = later"
    using do_read_prefix [OF assms bytes(3)] by blast
  have p: "parent_parameter ?cmnd evs' = Inr (Some (fill [], evs'))" "c_command ?cmnd = 1"
    by (simp_all add: parent_parameter_def call_command_def Let_def)
  have "parent_command svc sysdeps 1 (fill []) = Inr (sysdeps_reply sysdeps, True)"
    by (simp add: parent_command_def do_output_def sysdeps_reply_def sysdeps_answer_def zero_response_def)
  then have "parent_loop svc sysdeps evs = (sysdeps_reply sysdeps @ fst (parent_loop svc sysdeps evs'),
       snd (parent_loop svc sysdeps evs'))"
    by (subst parent_loop.simps) (simp add: e(1) bytes Let_def p case_prod_unfold del: One_nat_def)
  with e(2,3) show ?thesis by (intro that)
qed

lemma sizeof_sysdeps_le: "sizeof_sysdeps \<le> sizeof_union"
  by (simp add: sizeof_sysdeps_def sizeof_union_def)

lemma client_gets_sysdeps:
  assumes "flowing (from_server k)" "stream_bytes (from_server k) = sysdeps_answer sysdeps @ rest"
    and "write_events k = []"
  obtains fvs where "flowing fvs" "stream_bytes fvs = rest"
    "call_l GLIBTOP_CMND_SYSDEPS [] (Some sizeof_sysdeps) k
      = Inr (sysdeps_bytes sysdeps, None,
          k\<lparr>to_server := to_server k @ sysdeps_request, from_server := fvs\<rparr>)"
proof -
  let ?conn = "k\<lparr>to_server := to_server k @ sysdeps_request\<rparr>"
  let ?r = "zero_response\<lparr>r_u := union_of (sysdeps_bytes sysdeps)\<rparr>"
  have out: "do_output ?r offset_union 0 None = Inr (sysdeps_answer sysdeps)"
    by (simp add: do_output_def sysdeps_answer_def zero_response_def)
  have u: "length (r_u ?r) = sizeof_union" using sizeof_sysdeps_le by simp
  have "flowing (from_server ?conn)" "stream_bytes (from_server ?conn) = sysdeps_answer sysdeps @ rest"
    using assms by simp_all
  from call_reply_output [OF out u sizeof_sysdeps_le this]
  obtain fvs where f: "flowing fvs" "stream_bytes fvs = rest"
    "call_reply (Some sizeof_sysdeps) ?conn
      = Inr (sysdeps_bytes sysdeps, None, ?conn\<lparr>from_server := fvs\<rparr>)"
    by auto
  have w: "k\<lparr>to_server := x, write_events := []\<rparr> = k\<lparr>to_server := x\<rparr>" for x
    using assms(3) by (cases k) simp
  from f show ?thesis using assms(3)
    by (intro that [of fvs]) (simp_all add: call_l_def sysdeps_request_def [symmetric] w del: One_nat_def)
qed

lemma handshake_ok:
  assumes c: "flowing (from_server (conn c))" "write_events (conn c) = []"
      "stream_bytes (from_server (conn c)) =
        glibtop_send_version (w_version W) (w_server_version W) @ sysdeps_answer sysdeps @ rest"
  obtains fvs where "flowing fvs" "stream_bytes fvs = rest"
    "handshake W c = Inr \<lparr>cl = (cl c)\<lparr>s_features := sd_features sysdeps,
         s_sysdeps := bytes_sysdeps (sysdeps_bytes sysdeps)\<rparr>,
       conn = (conn c)\<lparr>to_server := to_server (conn c) @ sysdeps_request, from_server := fvs\<rparr>\<rparr>"
proof -
  let ?v = "version_string (w_version W) (w_server_version W)"
  let ?n = "u64_bytes (of_nat (length ?v + 1))"
  have b: "stream_bytes (from_server (conn c)) = ?n @ (?v @ [NUL]) @ sysdeps_answer sysdeps @ rest"
    using c(3) by (simp add: glibtop_send_version_def Let_def)
  obtain e1 e2 where e: "glibtop_read_l (length ?n) (from_server (conn c)) = Inr (?n, e1)"
    "glibtop_read_l (length (?v @ [NUL])) e1 = Inr (?v @ [NUL], e2)" "flowing e2"
    "stream_bytes e2 = sysdeps_answer sysdeps @ rest"
    using client.rd_two [OF c(1) b] by metis
  have "flowing (from_server ((conn c)\<lparr>from_server := e2\<rparr>))"
    "stream_bytes (from_server ((conn c)\<lparr>from_server := e2\<rparr>)) = sysdeps_answer sysdeps @ rest"
    "write_events ((conn c)\<lparr>from_server := e2\<rparr>) = []"
    using e c(2) by simp_all
  then obtain fvs where f: "flowing fvs" "stream_bytes fvs = rest"
    "call_l GLIBTOP_CMND_SYSDEPS [] (Some sizeof_sysdeps) ((conn c)\<lparr>from_server := e2\<rparr>)
      = Inr (sysdeps_bytes sysdeps, None,
          ((conn c)\<lparr>from_server := e2\<rparr>)\<lparr>to_server := to_server ((conn c)\<lparr>from_server := e2\<rparr>) @ sysdeps_request,
            from_server := fvs\<rparr>)"
    by (rule client_gets_sysdeps)
  have "sd_features (bytes_sysdeps (sysdeps_bytes sysdeps))
      = sd_features sysdeps"
    using sysdeps_round_trip [of _ "[]"] by simp
  moreover have "glibtop_read_l 8 (from_server (conn c)) = Inr (?n, e1)"
    "glibtop_read_l (length ?v + 1) e1 = Inr (?v @ [NUL], e2)"
    using e(1,2) by simp_all
  ultimately show ?thesis using f
    by (intro that [of fvs]) (simp_all add: handshake_def Let_def del: One_nat_def)
qed

text \<open>A fresh client that gets a connection, whatever the server is, once the server sends the greeting,
  its features with the bit of the one the client wants, and the answer.\<close>

definition being_opened :: "glibtop \<Rightarrow> client" where
  \<comment> \<open>the client in \<open>glibtop_open_l\<close> before it connects\<close>
  "being_opened s = \<lparr>cl = (set_flag GLIBTOP_INIT_STATE_OPEN (s\<lparr>s_name := Some ''glibtop''\<rparr>))
        \<lparr>s_error_method := GLIBTOP_ERROR_METHOD_WARN_ONCE\<rparr>, conn = no_connection\<rparr>"

lemma fresh_get:
  assumes port: "sysdeps_port W" and svc: "served svc targ"
    and open_s: "\<And>s. \<exists>s'. w_open_s W s = Inr s'"
    and s: "init_method W (flag (feature_nr f)) 0 glibtop_global_server = Inr s"
    and oc: "open_connection W (being_opened s) = Inr c1"
      "connected c1" "s_required (cl c1) = sysdeps_zero"
      "conn c1 = \<lparr>to_server = [], write_events = [], from_server = w_stream W\<rparr>"
    and feat: "sd_features sysdeps AND flag (feature_nr f) \<noteq> 0"
    and r: "svc f (targ a') = Inr (st, ptr)"
    and stream: "flowing (w_stream W)" "stream_bytes (w_stream W)
      = glibtop_send_version (w_version W) (w_server_version W) @ sysdeps_answer sysdeps @ reply_bytes f (st, ptr)"
  shows "\<exists>c'. glibtop_get_l W local_svc f a fresh_client = Inr ((st, reply_block f st ptr), c')
    \<and> to_server (conn c') = sysdeps_request @ request f a"
proof -
  obtain fvs where h: "flowing fvs" "stream_bytes fvs = reply_bytes f (st, ptr)"
    "handshake W c1 = Inr \<lparr>cl = (cl c1)\<lparr>s_features := sd_features sysdeps,
         s_sysdeps := bytes_sysdeps (sysdeps_bytes sysdeps)\<rparr>,
       conn = (conn c1)\<lparr>to_server := to_server (conn c1) @ sysdeps_request, from_server := fvs\<rparr>\<rparr>"
    (is "_ = Inr \<lparr>cl = ?s2, conn = ?k\<rparr>")
    by (rule handshake_ok [of c1 W sysdeps "reply_bytes f (st, ptr)"]) (use stream oc(4) in simp_all)
  obtain t where "w_open_s W ?s2 = Inr t" using open_s by blast
  then have "\<exists>s3. glibtop_init_s W 0 ?s2 = Inr s3" by (simp add: glibtop_init_s_def)
  then obtain s3 where s3: "glibtop_init_s W 0 ?s2 = Inr s3" by blast
  define c3 where "c3 = \<lparr>cl = s3, conn = ?k\<rparr>"
  have init: "glibtop_init_r W (flag (feature_nr f)) 0 fresh_client = Inr c3"
  proof -
    have "glibtop_open_l W ''glibtop'' 0 (fresh_client\<lparr>cl := s\<rparr>) = Inr c3"
      using oc(1,2) h(3) s3
      by (simp add: glibtop_open_l_def fresh_client_def being_opened_def [symmetric] Let_def c3_def)
    moreover have "\<not> initialised fresh_client" "init_method W (flag (feature_nr f)) 0 (cl fresh_client) = Inr s"
      "s_flags s = GLIBTOP_INIT_STATE_INIT"
      using s init_method_flags [OF s] by (simp_all add: fresh_client_def glibtop_global_server_def del: push_bit_of_1)
    ultimately show ?thesis by (simp add: glibtop_init_r_def del: push_bit_of_1)
  qed
  have core: "s_features s3 = sd_features sysdeps" "s_required s3 = sysdeps_zero" "connected c3"
    using sysdeps_port.init_s_core(2) [OF port s3] oc(2,3)
      core_eqD(1,4,5) [of s3 ?s2] core_eqD(1,4,5) [of s3 "set_flag GLIBTOP_INIT_STATE_SYSDEPS ?s2"]
    by (auto simp: c3_def)
  have k: "write_events (conn c3) = []" "flowing (from_server (conn c3))"
    "stream_bytes (from_server (conn c3)) = reply_bytes f (st, ptr) @ []"
    using h(1,2) oc(4) by (simp_all add: c3_def)
  obtain gvs where g: "call_l (GLIBTOP_CMND f) (send_buf a) (Some (sizeof_struct f)) (conn c3)
      = Inr (st, reply_block f st ptr,
          (conn c3)\<lparr>to_server := to_server (conn c3) @ request f a, from_server := gvs\<rparr>)"
    by (rule served.client_gets [OF svc r k])
  have use: "uses_server f (cl c3)" using core feat by (simp add: uses_server_def c3_def)
  have req: "check_required f st (cl c3) = Inr (cl c3)"
    using core(2) by (simp add: check_required_def c3_def sysdeps_zero_def)
  show ?thesis
    by (simp add: glibtop_get_l_def init use g req del: push_bit_of_1) (simp add: c3_def oc(4))
qed

text \<open>
  The whole path: a fresh client whose \<open>LIBGTOP_SERVER\<close> names a network server calls one
  getter. It connects, checks the greeting, asks for the features and sends the request; at
  the other end runs the daemon. The getter returns exactly the struct and the block that
  the daemon's own library function returns (without a limit for the arguments of a process), and never calls a function of its own port.
\<close>

theorem remote_get:
  assumes port: "sysdeps_port W" and svc: "getter_service svc"
    and env: "w_server W = Some ('':inet:'' @ host)" "\<And>h p. \<exists>sock. w_connect W h p = Inr sock"
      "\<And>s. \<exists>s'. w_open_s W s = Inr s'"
    and a: "servable (f, a)" and r: "svc f (daemon_arg a) = Inr (st, ptr)"
    and evs: "smooth evs" "stream_bytes evs = sysdeps_request @ request f a"
    and stream: "flowing (w_stream W)" "stream_bytes (w_stream W)
      = fst (handle_parent_connection (w_version W) (w_server_version W) svc sysdeps evs)"
  shows "\<exists>c'. glibtop_get_l W local_svc f a fresh_client = Inr ((st, reply_block f st ptr), c')
    \<and> to_server (conn c') = stream_bytes evs"
proof -
  obtain evs1 where e1: "smooth evs1" "stream_bytes evs1 = request f a @ []"
    "parent_loop svc sysdeps evs = (sysdeps_reply sysdeps @ fst (parent_loop svc sysdeps evs1),
       snd (parent_loop svc sysdeps evs1))"
    using daemon_answers_sysdeps [OF evs, of svc sysdeps] by auto
  obtain evs2 where e2: "smooth evs2" "stream_bytes evs2 = []"
    "parent_loop svc sysdeps evs1 = (reply_bytes f (st, ptr) @ fst (parent_loop svc sysdeps evs2),
       snd (parent_loop svc sysdeps evs2))"
    using getter_service.daemon_answers [OF svc a r e1(1,2)] by blast
  have S: "stream_bytes (w_stream W) = glibtop_send_version (w_version W) (w_server_version W)
      @ sysdeps_answer (sysdeps\<lparr>sd_features := GLIBTOP_SYSDEPS_ALL\<rparr>) @ reply_bytes f (st, ptr)"
    using stream(2) e1(3) e2(3) parent_loop_empty [OF e2(1,2), of svc sysdeps]
    by (simp add: handle_parent_connection_def sysdeps_reply_def)
  have fl: "flag (feature_nr f) \<noteq> (0 :: guint64)"
    "sd_features (sysdeps\<lparr>sd_features := GLIBTOP_SYSDEPS_ALL\<rparr>) AND flag (feature_nr f) \<noteq> 0"
    by (cases f; simp add: GLIBTOP_SYSDEPS_ALL_def)+
  obtain s where s: "init_method W (flag (feature_nr f)) 0 glibtop_global_server = Inr s"
    "s_method s = GLIBTOP_METHOD_INET"
    using env(1) fl(1)
    by (auto simp: init_method_def init_server_def glibtop_global_server_def Let_def set_flag_def)
  have sf: "s_required s = sysdeps_zero"
    using init_method_flags [OF s(1)] by (simp add: glibtop_global_server_def)
  obtain sock where sock: "w_connect W (s_server_host s) (s_server_port s) = Inr sock" using env(2) by blast
  define c1 where "c1 = \<lparr>cl = (set_flag GLIBTOP_INIT_STATE_SERVER ((cl (being_opened s))\<lparr>s_socket := sock\<rparr>))\<lparr>s_features := - 1\<rparr>,
        conn = \<lparr>to_server = [], write_events = [], from_server = w_stream W\<rparr>\<rparr>"
  have oc: "open_connection W (being_opened s) = Inr c1" "connected c1" "s_required (cl c1) = sysdeps_zero"
    "conn c1 = \<lparr>to_server = [], write_events = [], from_server = w_stream W\<rparr>"
    using s(2) sock sf by (simp_all add: open_connection_def being_opened_def c1_def Let_def set_flag_def)
  from svc have sv: "served svc daemon_arg" by (simp add: getter_service_def)
  from fresh_get [OF port sv env(3) s(1) oc fl(2) r stream(1) S] evs(2) show ?thesis by auto
qed

lemma request_bytes_ne [simp]: "sysdeps_request \<noteq> []"
proof -
  have "length sysdeps_request \<noteq> 0" by (simp add: sysdeps_request_def)
  then show ?thesis by auto
qed

theorem remote_get_witness:
  "\<exists>W c'. glibtop_get_l W (\<lambda>_ _. Inl (Exit ''not called'')) F_MEM NoArg fresh_client
     = Inr ((replicate 72 NUL, None), c')"
proof -
  define evs where "evs = [Recv (sysdeps_request @ request F_MEM NoArg)]"
  define out where "out = fst (handle_parent_connection (w_version demo_world) (w_server_version demo_world)
    demo_service sysdeps_zero evs)"
  define W where "W = demo_world\<lparr>w_server := Some ('':inet:'' @ ''localhost''),
    w_stream := if out = [] then [] else [Recv out]\<rparr>"
  have 1: "sysdeps_port W" unfolding W_def by (rule demo_port)
  have 2: "w_server W = Some ('':inet:'' @ ''localhost'')" "\<And>h p. \<exists>sock. w_connect W h p = Inr sock"
    "\<And>s. \<exists>s'. w_open_s W s = Inr s'" "w_version W = w_version demo_world"
    "w_server_version W = w_server_version demo_world"
    by (simp_all add: W_def demo_world_def)
  have 3: "servable (F_MEM, NoArg)" "demo_service F_MEM (daemon_arg NoArg) = Inr (replicate 72 NUL, None)"
    by (simp_all add: servable_def answered_def demo_service_def)
  have 4: "smooth evs" "stream_bytes evs = sysdeps_request @ request F_MEM NoArg"
    by (simp_all add: evs_def)
  have 5: "flowing (w_stream W)" "stream_bytes (w_stream W)
      = fst (handle_parent_connection (w_version W) (w_server_version W) demo_service sysdeps_zero evs)"
    unfolding 2(4,5) by (simp_all add: W_def out_def [symmetric])
  from remote_get [OF 1 demo_service 2(1-3) 3 4 5, of "\<lambda>_ _. Inl (Exit ''not called'')"]
  show ?thesis by (auto simp: reply_block_def output_size_def)
qed

end
