(* ===== verification/ProcText.thy ===== *)
theory ProcText
  imports Prelude
begin

text \<open>
  \<open>sysdeps/linux/glibtop_private.c\<close> and \<open>glibtop_private.h\<close>: how every Linux sysdeps
  function gets at the text of a file under \<open>/proc\<close> and walks through it.

  The kernel is a parameter. \<open>k_read path\<close> is \<open>None\<close> where \<open>open\<close> fails; otherwise it lists
  what the successive \<open>read\<close> calls on the descriptor meet: a chunk of bytes, an interruption
  (\<open>EINTR\<close>), another error; after the list comes the end of the file. A \<open>read\<close> of fewer
  bytes than a chunk has leaves the rest of the chunk for the next one.
\<close>

datatype rdev = Chunk string | Intr | RdErr

record kernel =
  k_read :: "string \<Rightarrow> rdev list option"
  k_isdir :: "string \<Rightarrow> bool"
  k_readlink :: "string \<Rightarrow> string option"
  k_stat :: "string \<Rightarrow> (32 word \<times> 32 word) option"  \<comment> \<open>\<open>st_uid\<close>, \<open>st_gid\<close>\<close>
  k_readdir :: "string \<Rightarrow> (string \<times> bool) list option"  \<comment> \<open>\<open>d_name\<close>, \<open>d_type == DT_DIR\<close>\<close>

section \<open>Moving through a buffer\<close>

definition next_token :: "string \<Rightarrow> string" where
  "next_token p = dropWhile g_ascii_isspace p"

definition skip_token :: "string \<Rightarrow> string" where
  "skip_token p =
     (let p = next_token p;
          p = dropWhile (\<lambda>c. \<not> g_ascii_isspace c) p
      in next_token p)"

fun skip_multiple_token :: "string \<Rightarrow> nat \<Rightarrow> string" where
  "skip_multiple_token p 0 = p"
| "skip_multiple_token p (Suc count) = skip_multiple_token (skip_token p) count"

definition skip_line :: "string \<Rightarrow> string" where
  "skip_line p =
     (let p = dropWhile (\<lambda>c. c \<noteq> NL) p in case p of [] \<Rightarrow> [] | _ # p' \<Rightarrow> p')"

lemma length_skip_line_le: "length (skip_line p) \<le> length p"
  using length_dropWhile_le [of "\<lambda>c. c \<noteq> NL" p] by (auto simp: skip_line_def split: list.splits)

lemma length_skip_line: "p \<noteq> [] \<Longrightarrow> length (skip_line p) < length p"
  using length_dropWhile_le [of "\<lambda>c. c \<noteq> NL" p] by (auto simp: skip_line_def split: list.splits)

definition get_scaled :: "string \<Rightarrow> string option \<Rightarrow> guint64" where
  "get_scaled buffer key =
     (case (case key of
              None \<Rightarrow> Some buffer
            | Some k \<Rightarrow> map_option (drop (length k)) (strstr buffer k)) of
        None \<Rightarrow> 0
      | Some ptr \<Rightarrow>
          (let (value, next) = strtoull 0 ptr in
           case dropWhile (\<lambda>c. c \<noteq> CHR ''k'' \<and> c \<noteq> CHR ''M'') next of
             [] \<Rightarrow> value
           | c # _ \<Rightarrow> if c = CHR ''k'' then value * 1024 else value * (1024 * 1024)))"

text \<open>The versions are \<open>unsigned\<close> there: the arithmetic wraps at 32 bits.\<close>

definition LINUX_VERSION_CODE :: "nat \<Rightarrow> nat \<Rightarrow> nat \<Rightarrow> nat" where
  "LINUX_VERSION_CODE x y z = (0x10000 * x + 0x100 * y + z) mod 2 ^ 32"

definition proc_stat_after_cmd :: "string \<Rightarrow> string option \<times> string" where
  \<comment> \<open>the pointer it returns and what is left in the buffer: the last \<open>)\<close> becomes NUL\<close>
  "proc_stat_after_cmd p =
     (case strrchr p (CHR '')'') of
        None \<Rightarrow> (None, p)
      | Some q \<Rightarrow> (Some (tl q), take (length p - length q) p))"

definition check_cpu_line :: "string \<Rightarrow> nat \<Rightarrow> bool" where
  \<comment> \<open>\<open>start\<close> has room for 9 characters and the NUL\<close>
  "check_cpu_line line i = strncmp_eq line (take 9 (''cpu'' @ show_nat i))"

section \<open>Reading files\<close>

datatype try_file = TRY_FILE_TO_BUFFER_OK | TRY_FILE_TO_BUFFER_OPEN | TRY_FILE_TO_BUFFER_READ

text \<open>The loop of \<open>try_file_to_buffer\<close>: \<open>room\<close> is \<open>bufsiz - len\<close>, \<open>buf\<close> what was read so
  far.\<close>

fun read_loop :: "nat \<Rightarrow> rdev list \<Rightarrow> string \<Rightarrow> try_file \<times> string" where
  "read_loop room [] buf = (TRY_FILE_TO_BUFFER_OK, buf)"
| "read_loop room (Intr # evs) buf =
     (if room = 0 then (TRY_FILE_TO_BUFFER_OK, buf) else read_loop room evs buf)"
| "read_loop room (RdErr # evs) buf =
     (if room = 0 then (TRY_FILE_TO_BUFFER_OK, buf) else (TRY_FILE_TO_BUFFER_READ, buf))"
| "read_loop room (Chunk c # evs) buf =
     (if room = 0 \<or> c = [] then (TRY_FILE_TO_BUFFER_OK, buf)
      else read_loop (room - length c) evs (buf @ take room c))"

text \<open>The text in a buffer that was zero before, with the result. The other callers look at it only where the result is
  \<open>TRY_FILE_TO_BUFFER_OK\<close>: where a \<open>read\<close> fails, the bytes before are in the buffer, and no NUL is put behind them
  (\<open>file_in_memory\<close> below has the buffer itself).\<close>

definition try_file_to_buffer :: "kernel \<Rightarrow> nat \<Rightarrow> string \<Rightarrow> try_file \<times> string" where
  "try_file_to_buffer K bufsiz path =
     (case k_read K path of
        None \<Rightarrow> (TRY_FILE_TO_BUFFER_OPEN, [])
      | Some evs \<Rightarrow> (let (st, bytes) = read_loop (bufsiz - 1) evs [] in (st, c_str bytes)))"

definition file_to_buffer :: "kernel \<Rightarrow> nat \<Rightarrow> string \<Rightarrow> string res" where
  "file_to_buffer K bufsiz filename =
     (case try_file_to_buffer K bufsiz filename of
        (TRY_FILE_TO_BUFFER_OPEN, _) \<Rightarrow> Inl (Exit (''open ('' @ filename @ '')''))
      | (TRY_FILE_TO_BUFFER_READ, _) \<Rightarrow> Inl (Exit (''read ('' @ filename @ '')''))
      | (TRY_FILE_TO_BUFFER_OK, buffer) \<Rightarrow> Inr buffer)"

abbreviation proc_path :: "int \<Rightarrow> string \<Rightarrow> string" where
  "proc_path pid name \<equiv> ''/proc/'' @ show_int pid @ name"

definition proc_file_to_buffer :: "kernel \<Rightarrow> nat \<Rightarrow> string \<Rightarrow> int \<Rightarrow> string option" where
  \<comment> \<open>\<open>None\<close>: the result is negative\<close>
  "proc_file_to_buffer K bufsiz name pid =
     (case try_file_to_buffer K bufsiz (proc_path pid name) of
        (TRY_FILE_TO_BUFFER_OK, buffer) \<Rightarrow> Some buffer
      | _ \<Rightarrow> None)"

definition proc_stat_to_buffer :: "kernel \<Rightarrow> nat \<Rightarrow> int \<Rightarrow> string option" where
  "proc_stat_to_buffer K bufsiz pid = proc_file_to_buffer K bufsiz ''/stat'' pid"

definition proc_status_to_buffer :: "kernel \<Rightarrow> nat \<Rightarrow> int \<Rightarrow> string option" where
  "proc_status_to_buffer K bufsiz pid = proc_file_to_buffer K bufsiz ''/status'' pid"

definition proc_statm_to_buffer :: "kernel \<Rightarrow> nat \<Rightarrow> int \<Rightarrow> string option" where
  "proc_statm_to_buffer K bufsiz pid = proc_file_to_buffer K bufsiz ''/statm'' pid"

text \<open>The text a stdio stream on the file delivers, and its lines: a stream ends at the first
  \<open>read\<close> that does not return data.\<close>

fun stdio_text :: "rdev list \<Rightarrow> string" where
  "stdio_text (Chunk c # evs) = c @ (if c = [] then [] else stdio_text evs)"
| "stdio_text _ = []"

definition fopen_lines :: "kernel \<Rightarrow> string \<Rightarrow> string list option" where
  "fopen_lines K path = map_option (\<lambda>evs. map c_str (split_lines (stdio_text evs))) (k_read K path)"

text \<open>\<open>fgets (line, n, f)\<close> returns at most \<open>n - 1\<close> characters of a line; the rest comes with the next
  calls.\<close>

function chunk_line :: "nat \<Rightarrow> string \<Rightarrow> string list" where
  "chunk_line n l = (if n = 0 \<or> length l \<le> n then [l] else take n l # chunk_line n (drop n l))"
  by pat_completeness auto
termination
  by (relation "measure (\<lambda>(n, l). length l)") auto

declare chunk_line.simps [simp del]

definition fgets_lines :: "kernel \<Rightarrow> nat \<Rightarrow> string \<Rightarrow> string list option" where
  "fgets_lines K n path =
     map_option (\<lambda>evs. map c_str (concat (map (chunk_line (n - 1)) (split_lines (stdio_text evs))))) (k_read K path)"

lemma chunk_line_short: "length l \<le> n \<Longrightarrow> chunk_line n l = [l]"
  by (subst chunk_line.simps) simp

lemma fgets_lines_short:
  assumes "fopen_lines K path = Some ls" "\<forall>l\<in>set ls. length l < n" "\<forall>evs. k_read K path = Some evs \<longrightarrow> NUL \<notin> set (stdio_text evs)"
  shows "fgets_lines K n path = Some ls"
proof -
  obtain evs where evs: "k_read K path = Some evs" "ls = map c_str (split_lines (stdio_text evs))"
    using assms(1) by (auto simp: fopen_lines_def)
  define ts where "ts = split_lines (stdio_text evs)"
  have "NUL \<notin> set l" if "l \<in> set ts" for l
  proof -
    have "set l \<subseteq> set (concat ts)" using that by auto
    then show ?thesis using assms(3) evs(1) unfolding ts_def concat_split_lines by blast
  qed
  then have c: "c_str l = l" if "l \<in> set ts" for l using that c_str_id by blast
  then have ls: "ls = ts" using evs(2) by (simp add: ts_def [symmetric] map_idI)
  have "concat (map (chunk_line (n - 1)) ts) = ts"
  proof -
    have "map (chunk_line (n - 1)) ts = map (\<lambda>l. [l]) ts"
      using assms(2) ls by (intro map_cong refl chunk_line_short) fastforce
    moreover have "concat (map (\<lambda>l. [l]) ts) = ts" by (induction ts) auto
    ultimately show ?thesis by (simp only:)
  qed
  then show ?thesis using c ls evs(1) by (simp add: fgets_lines_def ts_def [symmetric] map_idI)
qed

text \<open>A file of whole lines.\<close>

definition text_lines :: "string list \<Rightarrow> bool" where
  "text_lines ls \<longleftrightarrow> (\<forall>l\<in>set ls. \<exists>k. l = k @ [NL] \<and> NL \<notin> set k \<and> NUL \<notin> set k)"

lemma text_lines_simps [simp]:
  "text_lines []" "text_lines (l # ls) \<longleftrightarrow> (\<exists>k. l = k @ [NL] \<and> NL \<notin> set k \<and> NUL \<notin> set k) \<and> text_lines ls"
  by (auto simp: text_lines_def)

lemma split_lines_concat: "text_lines ls \<Longrightarrow> split_lines (concat ls) = ls"
  by (induction ls) (auto simp: split_lines_append)

lemma text_lines_no_NUL: "text_lines ls \<Longrightarrow> NUL \<notin> set (concat ls) \<and> map c_str ls = ls"
  by (induction ls) (auto simp: c_str_id)

lemma fopen_lines_text:
  assumes "k_read K path = Some [Chunk (concat ls)]" "text_lines ls"
  shows "fopen_lines K path = Some ls"
  using assms text_lines_no_NUL [OF assms(2)] by (simp add: fopen_lines_def split_lines_concat)

lemma fgets_lines_text:
  assumes "k_read K path = Some [Chunk (concat ls)]" "text_lines ls" "\<forall>l\<in>set ls. length l < n"
  shows "fgets_lines K n path = Some ls"
proof (rule fgets_lines_short)
  show "\<forall>evs. k_read K path = Some evs \<longrightarrow> NUL \<notin> set (stdio_text evs)"
    using text_lines_no_NUL [OF assms(2)] by (auto simp: assms(1))
qed (use fopen_lines_text [OF assms(1,2)] assms(3) in simp_all)

fun read_boot_time_loop :: "string list \<Rightarrow> guint64" where
  "read_boot_time_loop [] = 0"
| "read_boot_time_loop (line # lines) =
     (if strncmp_eq line ''btime'' then fst (strtoul 10 (skip_token line))
      else read_boot_time_loop lines)"

definition read_boot_time :: "kernel \<Rightarrow> guint64 res" where
  "read_boot_time K =
     (case fopen_lines K ''/proc/stat'' of
        None \<Rightarrow> Inl (Exit ''fopen(/proc/stat)'')
      | Some lines \<Rightarrow> Inr (read_boot_time_loop lines))"

definition get_boot_time :: "kernel \<Rightarrow> guint64 \<Rightarrow> guint64 res" where
  \<comment> \<open>the second argument is the static \<open>boot_time\<close>; the result is its new value\<close>
  "get_boot_time K boot_time = (if boot_time = 0 then read_boot_time K else Inr boot_time)"

definition has_sysfs :: "kernel \<Rightarrow> bool option \<Rightarrow> bool \<times> bool option" where
  \<comment> \<open>the static pair \<open>init\<close>, \<open>sysfs\<close> is the option\<close>
  "has_sysfs K st =
     (case st of
        None \<Rightarrow> (let sysfs = k_isdir K ''/sys'' in (sysfs, Some sysfs))
      | Some sysfs \<Rightarrow> (sysfs, st))"

definition safe_readlink :: "kernel \<Rightarrow> string \<Rightarrow> nat \<Rightarrow> string option" where
  "safe_readlink K path bufsiz =
     map_option (\<lambda>target. c_str (take (bufsiz - 1) target)) (k_readlink K path)"

section \<open>Tokens\<close>

text \<open>
  The abstract view of a buffer: the list of its white-space separated tokens. Each step of
  a pointer through the buffer is a step in that list, whatever the separators are.
\<close>

function words :: "string \<Rightarrow> string list" where
  "words p =
     (let q = next_token p in
      if q = [] then []
      else takeWhile (\<lambda>c. \<not> g_ascii_isspace c) q
           # words (dropWhile (\<lambda>c. \<not> g_ascii_isspace c) q))"
  by pat_completeness auto
termination
proof (relation "measure length", goal_cases)
  case (2 p q)
  then obtain c r where q: "q = c # r" and c: "\<not> g_ascii_isspace c"
    by (metis dropWhile_eq_Cons_conv list.exhaust next_token_def)
  have "length q \<le> length p" using 2 by (simp add: next_token_def length_dropWhile_le)
  moreover have "length (dropWhile (\<lambda>c. \<not> g_ascii_isspace c) q) < length q"
    using q c length_dropWhile_le [of "\<lambda>c. \<not> g_ascii_isspace c" r] by simp
  ultimately show ?case by simp
qed simp

declare words.simps [simp del]

definition after_tok :: "string \<Rightarrow> string" where
  \<comment> \<open>right behind the first token\<close>
  "after_tok p = dropWhile (\<lambda>c. \<not> g_ascii_isspace c) (next_token p)"

lemma words_Nil [simp]: "words [] = []"
  by (simp add: words.simps next_token_def)

lemma next_token_idem [simp]: "next_token (next_token p) = next_token p"
  by (simp add: next_token_def)

lemma words_next_token [ctext]: "words (next_token p) = words p"
  by (subst (1 2) words.simps) simp

lemma words_unfold:
  "words p = (if next_token p = [] then []
     else takeWhile (\<lambda>c. \<not> g_ascii_isspace c) (next_token p) # words (after_tok p))"
  by (subst words.simps) (simp add: after_tok_def Let_def)

lemma words_after_tok [ctext]: "words (after_tok p) = tl (words p)"
  by (subst (2) words_unfold) (simp add: after_tok_def)

lemma skip_token_after_tok: "skip_token p = next_token (after_tok p)"
  by (simp add: skip_token_def after_tok_def Let_def)

lemma words_skip_token [ctext]: "words (skip_token p) = tl (words p)"
  by (simp add: skip_token_after_tok words_next_token words_after_tok)

lemma words_skip_multiple [ctext]: "words (skip_multiple_token p n) = drop n (words p)"
  by (induction p n rule: skip_multiple_token.induct) (simp_all add: words_skip_token drop_Suc)

lemma words_space_Cons [simp]: "g_ascii_isspace c \<Longrightarrow> words (c # p) = words p"
  by (subst (1 2) words_unfold) (simp add: next_token_def after_tok_def)

lemma words_spaces: "\<forall>c\<in>set ws. g_ascii_isspace c \<Longrightarrow> words (ws @ p) = words p"
  by (induction ws) auto

text \<open>A buffer with at least one token, taken apart.\<close>

lemma words_ConsE:
  assumes "words p = t # ts"
  obtains ws where "p = ws @ t @ after_tok p" and "\<forall>c\<in>set ws. g_ascii_isspace c"
    and "t \<noteq> []" and "\<forall>c\<in>set t. \<not> g_ascii_isspace c" and "sep (after_tok p)"
    and "words (after_tok p) = ts"
proof
  have nt: "next_token p \<noteq> []" and t: "t = takeWhile (\<lambda>c. \<not> g_ascii_isspace c) (next_token p)"
    using assms by (auto simp: words_unfold [of p] split: if_splits)
  show "p = takeWhile g_ascii_isspace p @ t @ after_tok p"
    by (simp add: t after_tok_def next_token_def)
  show "\<forall>c\<in>set (takeWhile g_ascii_isspace p). g_ascii_isspace c"
    by (metis set_takeWhileD)
  show "t \<noteq> []" using nt t
    by (metis dropWhile_eq_Nil_conv hd_dropWhile list.set_sel(1) next_token_def takeWhile_eq_Nil_iff)
  show "\<forall>c\<in>set t. \<not> g_ascii_isspace c" by (metis set_takeWhileD t)
  show "sep (after_tok p)"
    using hd_dropWhile [of "\<lambda>c. \<not> g_ascii_isspace c"] by (auto simp: sep_def after_tok_def)
  show "words (after_tok p) = ts" by (simp add: words_after_tok assms)
qed

lemma dropWhile_tok:
  assumes "\<forall>c\<in>set t. \<not> g_ascii_isspace c" and "sep r"
  shows "dropWhile (\<lambda>c. \<not> g_ascii_isspace c) (t @ r) = r"
    and "takeWhile (\<lambda>c. \<not> g_ascii_isspace c) (t @ r) = t"
  using assms by (cases r; induction t; auto)+

lemma next_token_tok:
  assumes "\<forall>c\<in>set ws. g_ascii_isspace c" "t \<noteq> []" "\<forall>c\<in>set t. \<not> g_ascii_isspace c"
  shows "next_token (ws @ t @ r) = t @ r"
  using assms by (induction ws) (cases t; auto simp: next_token_def)+

lemma words_tok:
  assumes "\<forall>c\<in>set ws. g_ascii_isspace c" "t \<noteq> []" "\<forall>c\<in>set t. \<not> g_ascii_isspace c" "sep r"
  shows "words (ws @ t @ r) = t # words r" and "after_tok (ws @ t @ r) = r"
  using assms next_token_tok [OF assms(1-3), of r] dropWhile_tok [OF assms(3,4)]
  by (simp_all add: words_unfold [of "ws @ t @ r"] after_tok_def)

text \<open>What follows the buffer's first token, when more text follows the buffer.\<close>

lemma after_tok_append:
  assumes "words p \<noteq> []" and "sep r"
  shows "after_tok (p @ r) = after_tok p @ r" and "words (p @ r) = hd (words p) # words (after_tok p @ r)"
proof -
  obtain t ts where w: "words p = t # ts" using assms(1) by (cases "words p") auto
  then obtain ws where ws: "p = ws @ t @ after_tok p" "\<forall>c\<in>set ws. g_ascii_isspace c"
    "t \<noteq> []" "\<forall>c\<in>set t. \<not> g_ascii_isspace c" "sep (after_tok p)"
    by (rule words_ConsE)
  have sep: "sep (after_tok p @ r)" using ws(5) assms(2) by (cases "after_tok p") (auto simp: sep_def)
  have e: "p @ r = ws @ t @ (after_tok p @ r)" using ws(1) by (metis append.assoc)
  show "after_tok (p @ r) = after_tok p @ r"
    by (simp only: e words_tok(2) [OF ws(2-4) sep])
  show "words (p @ r) = hd (words p) # words (after_tok p @ r)"
    by (simp only: e words_tok(1) [OF ws(2-4) sep] w list.sel)
qed

lemma words_append: "sep r \<Longrightarrow> words (p @ r) = words p @ words r"
proof (induction p rule: words.induct)
  case (1 p)
  show ?case
  proof (cases "words p = []")
    case True
    then have "\<forall>c\<in>set p. g_ascii_isspace c"
      by (auto simp: words_unfold [of p] next_token_def split: if_splits)
    with True show ?thesis by (simp add: words_spaces)
  next
    case False
    then have nt: "next_token p \<noteq> []" by (auto simp: words_unfold [of p])
    have "words (after_tok p @ r) = words (after_tok p) @ words r"
      using "1.IH" [OF refl nt "1.prems"] by (simp add: after_tok_def)
    with after_tok_append(2) [OF False "1.prems"] False show ?thesis
      by (simp add: words_after_tok)
  qed
qed

text \<open>Reading the number at the head of the token list.\<close>

lemma strtoull_words:
  assumes "words p = show_nat n # ts" and "n < 2 ^ 64" and "base = 0 \<or> base = 10"
  shows "strtoull base p = (of_nat n, after_tok p)"
proof -
  from assms(1) obtain ws where "p = ws @ show_nat n @ after_tok p"
    "\<forall>c\<in>set ws. g_ascii_isspace c" "sep (after_tok p)" by (rule words_ConsE)
  then show ?thesis using strtoull_show [of ws "after_tok p" base n] assms(2,3) by metis
qed

definition is_num :: "string \<Rightarrow> bool" where
  \<comment> \<open>a number printed with \<open>%lu\<close> that fits into 64 bits\<close>
  "is_num t \<longleftrightarrow> t = show_nat (digits_to_nat 10 t) \<and> digits_to_nat 10 t < 2 ^ 64"

abbreviation num :: "string \<Rightarrow> guint64" where
  "num t \<equiv> of_nat (digits_to_nat 10 t)"

lemma is_num_show [simp]: "is_num (show_nat n) \<longleftrightarrow> n < 2 ^ 64"
  by (simp add: is_num_def)

lemma strtoull_num [ctext]:
  assumes "words p \<noteq> []" and "is_num (hd (words p))"
  shows "strtoull 0 p = (num (hd (words p)), after_tok p)"
    and "strtoull 10 p = (num (hd (words p)), after_tok p)"
  using assms strtoull_words [of p "digits_to_nat 10 (hd (words p))" "tl (words p)"]
  by (cases "words p"; simp add: is_num_def)+

text \<open>A signed number at the head of the token list.\<close>

definition is_int :: "string \<Rightarrow> bool" where
  \<comment> \<open>a number printed with \<open>%d\<close>\<close>
  "is_int t \<longleftrightarrow> (\<exists>i. t = show_int i \<and> - (2 ^ 31) \<le> i \<and> i < 2 ^ 31)"

definition int_tok :: "string \<Rightarrow> int" where
  "int_tok t = (if t \<noteq> [] \<and> hd t = CHR ''-'' then - int (digits_to_nat 10 (tl t)) else int (digits_to_nat 10 t))"

lemma hd_show_not_minus [simp]: "hd (show_nat n) \<noteq> CHR ''-''"
  using hd_show_digit [of n] by (auto simp: digit_val_def)

lemma int_tok_show [simp]: "int_tok (show_int i) = i"
  by (simp add: int_tok_def show_int_def)

lemma strtol_show_int:
  assumes ws: "\<forall>c\<in>set ws. g_ascii_isspace c" and r: "sep r" and base: "base = 0 \<or> base = 10"
    and i: "- (2 ^ 31) \<le> i" "i < 2 ^ 31"
  shows "strtol base (ws @ show_int i @ r) = (of_int i, r)"
proof (cases "i < 0")
  case False
  then have "of_nat (nat i) = (of_int i :: 64 word)" by simp
  moreover have "nat i < 2 ^ 63" using False i(2) by (simp add: nat_less_iff)
  ultimately show ?thesis
    using False strto_show [OF ws r base, of "nat i"]
    by (simp add: strtol_def show_int_def not_le)
next
  case True
  define n where "n = nat (- i)"
  have pos: "strto base (show_nat n @ r) = Some (False, n, r)"
    using strto_show [of "[]" r base n] r base by simp
  have dw: "dropWhile isspace (show_nat n @ r) = show_nat n @ r"
    using dropWhile_space_show [of "[]" n r] by simp
  have dm: "dropWhile isspace (ws @ CHR ''-'' # show_nat n @ r) = CHR ''-'' # show_nat n @ r"
  proof -
    have "\<not> isspace (CHR ''-'')" by (simp add: isspace_def)
    with ws show ?thesis by (induction ws) auto
  qed
  have "strto base (ws @ CHR ''-'' # show_nat n @ r) = Some (True, n, r)"
    using pos unfolding strto_def dw dm strto_sign_show
    by (auto simp: Let_def split: prod.splits if_splits)
  moreover have "\<not> 2 ^ 63 < n" using i(1) by (simp add: n_def)
  moreover have "- of_nat n = (of_int i :: 64 word)" using True by (simp add: n_def)
  ultimately show ?thesis using True by (simp add: strtol_def show_int_def n_def)
qed

lemma strtol_int [ctext]:
  assumes "words p \<noteq> []" and "is_int (hd (words p))" and "base = 0 \<or> base = 10"
  shows "strtol base p = (of_int (int_tok (hd (words p))), after_tok p)"
proof -
  obtain t ts where w: "words p = t # ts" using assms(1) by (cases "words p") auto
  obtain i where i: "t = show_int i" "- (2 ^ 31) \<le> i" "i < 2 ^ 31" using assms(2) w by (auto simp: is_int_def)
  obtain ws where ws: "p = ws @ t @ after_tok p" "\<forall>c\<in>set ws. g_ascii_isspace c" "sep (after_tok p)"
    using w by (rule words_ConsE)
  have "strtol base (ws @ show_int i @ after_tok p) = (of_int i, after_tok p)"
    using strtol_show_int [OF ws(2,3) assms(3) i(2,3)] .
  then have "strtol base p = (of_int i, after_tok p)" using ws(1) i(1) by metis
  then show ?thesis by (simp add: w i(1))
qed

text \<open>The same inside of a line that more text follows.\<close>

lemma strtoull_line [ctext]:
  assumes "words q \<noteq> []" and "is_num (hd (words q))"
  shows "strtoull 0 (q @ NL # r) = (num (hd (words q)), after_tok q @ NL # r)"
  using strtoull_num(1) [of "q @ NL # r"] after_tok_append [OF assms(1), of "NL # r"] assms by simp

lemma next_token_append: "words q \<noteq> [] \<Longrightarrow> next_token (q @ r) = next_token q @ r"
  by (auto simp: next_token_def dropWhile_append words_unfold [of q] split: if_splits)

lemma next_token_line [ctext]: "words q \<noteq> [] \<Longrightarrow> next_token (q @ NL # r) = next_token q @ NL # r"
  by (rule next_token_append)

lemma skip_token_line [ctext]:
  "tl (words q) \<noteq> [] \<Longrightarrow> skip_token (q @ NL # r) = skip_token q @ NL # r"
  by (cases "words q") (simp_all add: skip_token_after_tok after_tok_append words_after_tok next_token_line)

lemma set_after_tok: "set (after_tok q) \<subseteq> set q"
  by (auto simp: after_tok_def next_token_def dest!: set_dropWhileD)

lemma set_skip_token: "set (skip_token q) \<subseteq> set q"
  by (auto simp: skip_token_after_tok after_tok_def next_token_def dest!: set_dropWhileD)

lemma NL_after_tok [ctext]: "NL \<notin> set q \<Longrightarrow> NL \<notin> set (after_tok q)"
  using set_after_tok by blast

lemma NL_skip_token [ctext]: "NL \<notin> set q \<Longrightarrow> NL \<notin> set (skip_token q)"
  using set_skip_token by blast

lemma skip_line_line [ctext]: "NL \<notin> set q \<Longrightarrow> skip_line (q @ NL # r) = r"
  by (induction q) (auto simp: skip_line_def)

abbreviation unlines :: "string list \<Rightarrow> string" where
  "unlines ls \<equiv> concat (map (\<lambda>l. l @ [NL]) ls)"

lemma check_cpu_line_tag [ctext]: "check_cpu_line ((''cpu'' @ show_nat i) @ r) i"
  by (simp add: check_cpu_line_def strncmp_eq_def take_map min_def)

section \<open>What a buffer holds after reading a file\<close>

fun file_bytes :: "rdev list \<Rightarrow> string" where
  "file_bytes [] = []"
| "file_bytes (Chunk c # evs) = c @ file_bytes evs"
| "file_bytes (_ # evs) = file_bytes evs"

definition readable :: "rdev list \<Rightarrow> bool" where
  \<comment> \<open>no error, and a \<open>read\<close> before the end returns data\<close>
  "readable evs \<longleftrightarrow> RdErr \<notin> set evs \<and> Chunk [] \<notin> set evs"

lemma read_loop_readable:
  "readable evs \<Longrightarrow> read_loop room evs buf = (TRY_FILE_TO_BUFFER_OK, buf @ take room (file_bytes evs))"
  by (induction room evs buf rule: read_loop.induct) (auto simp: readable_def)

lemma length_read_loop: "length (snd (read_loop room evs buf)) \<le> length buf + room"
  by (induction room evs buf rule: read_loop.induct) (auto split: if_splits simp: min_def not_le)

lemma try_file_to_buffer_readable:
  assumes "k_read K path = Some evs" and "readable evs"
  shows "try_file_to_buffer K bufsiz path
    = (TRY_FILE_TO_BUFFER_OK, c_str (take (bufsiz - 1) (file_bytes evs)))"
  using assms by (simp add: try_file_to_buffer_def read_loop_readable)

lemma file_to_buffer_readable:
  assumes "k_read K path = Some evs" and "readable evs"
  shows "file_to_buffer K bufsiz path = Inr (c_str (take (bufsiz - 1) (file_bytes evs)))"
  using assms by (simp add: file_to_buffer_def try_file_to_buffer_readable)

lemma file_to_buffer_small:
  assumes "k_read K path = Some evs" and "readable evs" and "length (file_bytes evs) < bufsiz"
    and "NUL \<notin> set (file_bytes evs)"
  shows "file_to_buffer K bufsiz path = Inr (file_bytes evs)"
  using assms by (simp add: file_to_buffer_readable c_str_id)

section \<open>The buffer in memory\<close>

text \<open>\<open>try_file_to_buffer\<close> on a buffer in memory, all of whose bytes are kept: \<open>put_at\<close> writes at an index, and would make
  the list longer where it wrote behind the end; \<open>len\<close> is the number of bytes read.\<close>

definition put_at :: "nat \<Rightarrow> string \<Rightarrow> string \<Rightarrow> string" where
  "put_at i bs mem = take i mem @ bs @ drop (i + length bs) mem"

fun memory_loop :: "nat \<Rightarrow> rdev list \<Rightarrow> nat \<Rightarrow> string \<Rightarrow> try_file \<times> nat \<times> string" where
  "memory_loop bufsiz [] len mem = (TRY_FILE_TO_BUFFER_OK, len, mem)"
| "memory_loop bufsiz (Intr # evs) len mem =
     (if bufsiz \<le> len then (TRY_FILE_TO_BUFFER_OK, len, mem) else memory_loop bufsiz evs len mem)"
| "memory_loop bufsiz (RdErr # evs) len mem =
     (if bufsiz \<le> len then (TRY_FILE_TO_BUFFER_OK, len, mem) else (TRY_FILE_TO_BUFFER_READ, len, mem))"
| "memory_loop bufsiz (Chunk c # evs) len mem =
     (if bufsiz \<le> len \<or> c = [] then (TRY_FILE_TO_BUFFER_OK, len, mem)
      else let bs = take (bufsiz - len) c in memory_loop bufsiz evs (len + length bs) (put_at len bs mem))"

definition file_in_memory :: "kernel \<Rightarrow> string \<Rightarrow> string \<Rightarrow> try_file \<times> string" where
  \<comment> \<open>\<open>bufsiz\<close> is the length of the memory\<close>
  "file_in_memory K mem path =
     (let bufsiz = length mem - 1; mem = put_at 0 [NUL] mem in
      case k_read K path of
        None \<Rightarrow> (TRY_FILE_TO_BUFFER_OPEN, mem)
      | Some evs \<Rightarrow>
          (case memory_loop bufsiz evs 0 mem of
             (TRY_FILE_TO_BUFFER_READ, len, mem) \<Rightarrow> (TRY_FILE_TO_BUFFER_READ, mem)
           | (_, len, mem) \<Rightarrow> (TRY_FILE_TO_BUFFER_OK, put_at len [NUL] mem)))"

lemma put_at_read:
  assumes "length d + length bs \<le> length mem"
  shows "put_at (length d) bs (d @ drop (length d) mem) = (d @ bs) @ drop (length (d @ bs)) mem"
  using assms by (simp add: put_at_def add.commute)

lemma memory_loop_read:
  assumes "length d \<le> bufsiz" "bufsiz \<le> length mem" and r: "read_loop (bufsiz - length d) evs d = (st, d')"
  shows "memory_loop bufsiz evs (length d) (d @ drop (length d) mem) = (st, length d', d' @ drop (length d') mem)"
    "length d' \<le> bufsiz"
  using assms
proof (induction evs arbitrary: d)
  case (Cons e evs)
  {
    case 1
    show ?case
    proof (cases e)
      case (Chunk c)
      let ?bs = "take (bufsiz - length d) c"
      show ?thesis
      proof (cases "bufsiz \<le> length d \<or> c = []")
        case True
        with 1 Chunk show ?thesis by auto
      next
        case False
        have l: "length (d @ ?bs) \<le> bufsiz" using 1(1) by simp
        have "bufsiz - length (d @ ?bs) = bufsiz - length d - length c" by simp
        then have "read_loop (bufsiz - length (d @ ?bs)) evs (d @ ?bs) = (st, d')"
          using False 1(3) Chunk by (simp del: length_append)
        from Cons.IH(1) [OF l 1(2) this] put_at_read [of d ?bs mem] False l 1(2) Chunk show ?thesis
          by (simp add: Let_def)
      qed
    qed (use 1 Cons.IH(1) [of d] in \<open>auto split: if_splits\<close>)
  next
    case 2
    show ?case
    proof (cases e)
      case (Chunk c)
      let ?bs = "take (bufsiz - length d) c"
      show ?thesis
      proof (cases "bufsiz \<le> length d \<or> c = []")
        case True
        with 2 Chunk show ?thesis by auto
      next
        case False
        have l: "length (d @ ?bs) \<le> bufsiz" using 2(1) by simp
        have "bufsiz - length (d @ ?bs) = bufsiz - length d - length c" by simp
        then have "read_loop (bufsiz - length (d @ ?bs)) evs (d @ ?bs) = (st, d')"
          using False 2(3) Chunk by (simp del: length_append)
        from Cons.IH(2) [OF l 2(2) this] show ?thesis .
      qed
    qed (use 2 Cons.IH(2) [of d] in \<open>auto split: if_splits\<close>)
  }
qed simp_all

lemma file_in_memory_result:
  assumes mem: "mem \<noteq> []" and evs: "k_read K path = Some evs" and r: "read_loop (length mem - 1) evs [] = (st, d)"
  shows "length d < length mem"
    and "file_in_memory K mem path = (if st = TRY_FILE_TO_BUFFER_READ then (st, d @ drop (length d) (put_at 0 [NUL] mem))
      else (TRY_FILE_TO_BUFFER_OK, d @ NUL # drop (Suc (length d)) mem))"
proof -
  obtain b mem' where m: "mem = b # mem'" using mem by (cases mem) auto
  have p: "put_at 0 [NUL] mem = NUL # mem'" by (simp add: put_at_def m)
  have "memory_loop (length mem - 1) evs (length []) ([] @ drop (length []) (NUL # mem')) = (st, length d, d @ drop (length d) (NUL # mem'))"
    and l: "length d \<le> length mem - 1"
    using memory_loop_read [of "[]" "length mem - 1" "NUL # mem'" evs st d] r by (simp_all add: m)
  then have loop: "memory_loop (length mem - 1) evs 0 (NUL # mem') = (st, length d, d @ drop (length d) (NUL # mem'))" by simp
  show "length d < length mem" using l m by simp
  then have "put_at (length d) [NUL] (d @ drop (length d) (NUL # mem')) = d @ NUL # drop (Suc (length d)) mem"
    by (simp add: put_at_def m)
  then show "file_in_memory K mem path = (if st = TRY_FILE_TO_BUFFER_READ then (st, d @ drop (length d) (put_at 0 [NUL] mem))
      else (TRY_FILE_TO_BUFFER_OK, d @ NUL # drop (Suc (length d)) mem))"
    unfolding file_in_memory_def p evs Let_def option.case loop prod.case by (cases st) simp_all
qed

lemma read_loop_never_open: "fst (read_loop room evs buf) \<noteq> TRY_FILE_TO_BUFFER_OPEN"
  by (induction room evs buf rule: read_loop.induct) auto

lemma c_str_fill: "c_str (d @ NUL # r) = c_str d"
  by (induction d) (simp_all add: c_str_def)

lemma read_loop_failing:
  "readable evs \<Longrightarrow> length (file_bytes evs) < room \<Longrightarrow>
     read_loop room (evs @ RdErr # evs') buf = (TRY_FILE_TO_BUFFER_READ, buf @ file_bytes evs)"
  by (induction room evs buf rule: read_loop.induct) (auto simp: readable_def)

text \<open>
  C16. Reading a file into a buffer, whatever was in its memory before: the bytes behind the buffer are never written,
  and where no \<open>read\<close> fails, the buffer has the first bytes of the file, as many as there is room for in front of a NUL, then the
  NUL, then what was there before, however the kernel cuts the file into pieces and however often it interrupts the
  call. A file that cannot be opened leaves an empty text. Where a \<open>read\<close> fails, this is reported, and the buffer has the bytes
  read up to there without a NUL behind them. On a buffer that was zero, or with the first two results, the text in
  the buffer is that of \<open>try_file_to_buffer\<close>, on which the getters are built.
\<close>

theorem try_file_to_buffer_spec:
  assumes "mem \<noteq> []"
  shows "length (snd (file_in_memory K mem path)) = length mem
    \<and> (\<forall>evs. k_read K path = Some evs \<and> readable evs \<longrightarrow>
        (let d = take (length mem - 1) (file_bytes evs) in
         file_in_memory K mem path = (TRY_FILE_TO_BUFFER_OK, d @ NUL # drop (Suc (length d)) mem)))
    \<and> (k_read K path = None \<longrightarrow> file_in_memory K mem path = (TRY_FILE_TO_BUFFER_OPEN, NUL # tl mem))
    \<and> (\<forall>evs evs'. k_read K path = Some (evs @ RdErr # evs') \<and> readable evs \<and> length (file_bytes evs) < length mem - 1 \<longrightarrow>
        file_in_memory K mem path
          = (TRY_FILE_TO_BUFFER_READ, file_bytes evs @ drop (length (file_bytes evs)) (NUL # tl mem)))
    \<and> fst (try_file_to_buffer K (length mem) path) = fst (file_in_memory K mem path)
    \<and> (fst (file_in_memory K mem path) \<noteq> TRY_FILE_TO_BUFFER_READ \<or> set mem = {NUL} \<longrightarrow>
        snd (try_file_to_buffer K (length mem) path) = c_str (snd (file_in_memory K mem path)))"
proof -
  obtain b mem' where m: "mem = b # mem'" using assms by (cases mem) auto
  have p: "put_at 0 [NUL] mem = NUL # tl mem" by (simp add: put_at_def m)
  show ?thesis
  proof (cases "k_read K path")
    case None
    then show ?thesis by (simp add: file_in_memory_def try_file_to_buffer_def put_at_def m c_str_def)
  next
    case (Some evs)
    obtain st d where r: "read_loop (length mem - 1) evs [] = (st, d)" by fastforce
    note f = file_in_memory_result [OF assms Some r, unfolded p]
    have st: "st \<noteq> TRY_FILE_TO_BUFFER_OPEN" using read_loop_never_open [of "length mem - 1" evs "[]"] r by simp
    have t: "try_file_to_buffer K (length mem) path = (st, c_str d)"
      unfolding try_file_to_buffer_def Some Let_def option.case r by simp
    have len: "length (snd (file_in_memory K mem path)) = length mem"
      using f m by simp
    have ok: "(let d = take (length mem - 1) (file_bytes evs) in
        file_in_memory K mem path = (TRY_FILE_TO_BUFFER_OK, d @ NUL # drop (Suc (length d)) mem))" if "readable evs"
      using read_loop_readable [OF that, of "length mem - 1" "[]"] r f(2) by (simp add: Let_def)
    have err: "file_in_memory K mem path
        = (TRY_FILE_TO_BUFFER_READ, file_bytes e @ drop (length (file_bytes e)) (NUL # tl mem))"
      if "evs = e @ RdErr # e'" "readable e" "length (file_bytes e) < length mem - 1" for e e'
      using read_loop_failing [OF that(2,3), of e' "[]"] r f(2) that(1) by simp
    have zero: "c_str (d @ drop (length d) (NUL # tl mem)) = c_str d" if "set mem = {NUL}"
    proof -
      have "\<forall>c\<in>set (drop (length d) (NUL # tl mem)). c = NUL"
        using that m set_drop_subset [of "length d" "NUL # mem'"] by auto
      moreover have "drop (length d) (NUL # tl mem) \<noteq> []" using f(1) m by simp
      ultimately obtain r where "drop (length d) (NUL # tl mem) = NUL # r"
        by (cases "drop (length d) (NUL # tl mem)") auto
      then show ?thesis by (simp add: c_str_fill)
    qed
    have words: "snd (try_file_to_buffer K (length mem) path) = c_str (snd (file_in_memory K mem path))"
      if "fst (file_in_memory K mem path) \<noteq> TRY_FILE_TO_BUFFER_READ \<or> set mem = {NUL}"
      using that f(2) zero t by (auto simp: c_str_fill split: if_splits)
    have "fst (try_file_to_buffer K (length mem) path) = fst (file_in_memory K mem path)"
      using f(2) t st by (cases st) simp_all
    with len ok err words Some show ?thesis by auto
  qed
qed

text \<open>A kernel with the given files, for witnesses.\<close>

definition file_kernel :: "(string \<times> string) list \<Rightarrow> kernel" where
  "file_kernel fs = \<lparr>k_read = (\<lambda>p. map_option (\<lambda>c. if c = [] then [] else [Chunk c]) (map_of fs p)),
     k_isdir = (\<lambda>_. True), k_readlink = (\<lambda>_. None), k_stat = (\<lambda>_. Some (1000, 100)),
     k_readdir = (\<lambda>_. None)\<rparr>"

lemma file_kernel_buffer:
  assumes "map_of fs path = Some c" "length c < n" "NUL \<notin> set c"
  shows "try_file_to_buffer (file_kernel fs) n path = (TRY_FILE_TO_BUFFER_OK, c)"
proof -
  define evs where "evs = (if c = [] then [] else [Chunk c])"
  have "k_read (file_kernel fs) path = Some evs" "readable evs" "file_bytes evs = c"
    using assms(1) by (simp_all add: file_kernel_def evs_def readable_def)
  from try_file_to_buffer_readable [OF this(1,2), of n] this(3) assms(2,3) show ?thesis
    by (simp add: c_str_id)
qed

lemma file_kernel_proc:
  assumes "map_of fs (proc_path pid name) = Some c" "length c < n" "NUL \<notin> set c"
  shows "proc_file_to_buffer (file_kernel fs) n name pid = Some c"
  using file_kernel_buffer [OF assms] by (simp add: proc_file_to_buffer_def)

theorem try_file_to_buffer_spec_witness:
  "file_in_memory (file_kernel [(''/proc/uptime'', ''12.5 99'')]) ''oldtext'' ''/proc/uptime''
     = (TRY_FILE_TO_BUFFER_OK, ''12.5 9'' @ [NUL])
   \<and> file_in_memory ((file_kernel [])\<lparr>k_read := (\<lambda>_. Some [Chunk ''12'', Intr, RdErr])\<rparr>) ''oldtext'' ''/proc/uptime''
     = (TRY_FILE_TO_BUFFER_READ, ''12dtext'')"
proof -
  let ?K = "file_kernel [(''/proc/uptime'', ''12.5 99'')]"
  let ?E = "(file_kernel [])\<lparr>k_read := (\<lambda>_. Some [Chunk ''12'', Intr, RdErr])\<rparr>"
  have n: "''oldtext'' \<noteq> []" by simp
  have 1: "k_read ?K ''/proc/uptime'' = Some [Chunk ''12.5 99'']" "readable [Chunk ''12.5 99'']"
    by (simp_all add: file_kernel_def readable_def)
  have 2: "k_read ?E ''/proc/uptime'' = Some ([Chunk ''12'', Intr] @ RdErr # [])" "readable [Chunk ''12'', Intr]"
    "length (file_bytes [Chunk ''12'', Intr]) < length ''oldtext'' - 1"
    by (simp_all add: readable_def)
  from try_file_to_buffer_spec [OF n, of ?K "''/proc/uptime''"] 1
  have "let d = take (length ''oldtext'' - 1) (file_bytes [Chunk ''12.5 99'']) in
    file_in_memory ?K ''oldtext'' ''/proc/uptime'' = (TRY_FILE_TO_BUFFER_OK, d @ NUL # drop (Suc (length d)) ''oldtext'')"
    by blast
  moreover from try_file_to_buffer_spec [OF n, of ?E "''/proc/uptime''"] 2
  have "file_in_memory ?E ''oldtext'' ''/proc/uptime'' = (TRY_FILE_TO_BUFFER_READ, file_bytes [Chunk ''12'', Intr]
    @ drop (length (file_bytes [Chunk ''12'', Intr])) (NUL # tl ''oldtext''))"
    by blast
  ultimately show ?thesis by (simp add: Let_def)
qed

end
