(* ===== verification/SysStat.thy ===== *)
theory SysStat
  imports Server ProcText
begin

unbundle bit_operations_syntax

text \<open>
  The system-wide functions of the Linux port: \<open>open.c\<close>, \<open>cpu.c\<close>, \<open>mem.c\<close>, \<open>swap.c\<close>,
  \<open>uptime.c\<close>, \<open>loadavg.c\<close> under \<open>sysdeps/linux\<close>. Floating point numbers are a type
  parameter, and \<open>g_ascii_strtod\<close> is an argument of the functions that call it.
\<close>

abbreviation "GLIBTOP_NCPU \<equiv> 1024 :: nat"
abbreviation "STAT_BUFSIZ \<equiv> 81920 :: nat"

section \<open>open.c\<close>

text \<open>\<open>%u\<close> of \<open>sscanf\<close>.\<close>

definition scan_u :: "string \<Rightarrow> (nat \<times> string) option" where
  "scan_u s = (case strto 10 s of
     None \<Rightarrow> None
   | Some _ \<Rightarrow> (let (v, r) = strtoul 10 s in Some (unat v mod 2 ^ 32, r)))"

fun scan_dot :: "string \<Rightarrow> string option" where
  "scan_dot (c # s) = (if c = CHR ''.'' then Some s else None)"
| "scan_dot [] = None"

text \<open>\<open>sscanf (release, "%u.%u.%u", &x, &y, &z)\<close>: the number of conversions, and \<open>x\<close>, \<open>y\<close>,
  \<open>z\<close>, which start as 0.\<close>

definition sscanf_version :: "string \<Rightarrow> nat \<times> nat \<times> nat \<times> nat" where
  "sscanf_version release = (case scan_u release of
     None \<Rightarrow> (0, 0, 0, 0)
   | Some (x, r) \<Rightarrow> (case Option.bind (scan_dot r) scan_u of
       None \<Rightarrow> (1, x, 0, 0)
     | Some (y, r) \<Rightarrow> (case Option.bind (scan_dot r) scan_u of
         None \<Rightarrow> (2, x, y, 0)
       | Some (z, r) \<Rightarrow> (3, x, y, z))))"

text \<open>\<open>uname\<close> is the \<open>release\<close> field, \<open>None\<close> if the call fails. The warnings for odd release
  strings and a missing \<open>/sys\<close> are output only; the call of \<open>has_sysfs\<close> fills its cache.\<close>

definition set_linux_version ::
  "kernel \<Rightarrow> string option \<Rightarrow> bool option \<Rightarrow> glibtop \<Rightarrow> (glibtop \<times> bool option) res" where
  "set_linux_version K uname sysfs server =
     (case uname of
        None \<Rightarrow> Inl (Exit ''uname() failed'')
      | Some release \<Rightarrow>
          (let (version_string_depth, x, y, z) = sscanf_version release;
               sysfs = (if LINUX_VERSION_CODE 2 6 0 \<le> LINUX_VERSION_CODE x y z
                        then snd (has_sysfs K sysfs) else sysfs)
           in Inr (server\<lparr>s_os_version_code := LINUX_VERSION_CODE x y z\<rparr>, sysfs)))"

lemma check_cpu_line_nonempty [simp]: "\<not> check_cpu_line [] i"
  by (simp add: check_cpu_line_def strncmp_eq_def)

function count_cpu_lines :: "string \<Rightarrow> nat \<Rightarrow> int" where
  \<comment> \<open>the loop that leaves \<open>real_ncpu\<close>\<close>
  "count_cpu_lines p real_ncpu =
     (if \<not> check_cpu_line p real_ncpu then int real_ncpu - 1
      else count_cpu_lines (skip_line p) (Suc real_ncpu))"
  by pat_completeness auto
termination
proof (relation "measure (\<lambda>(p, n). length p)", goal_cases)
  case (2 p n)
  then have "p \<noteq> []" by (cases p) auto
  then show ?case by (simp add: length_skip_line)
qed simp

declare count_cpu_lines.simps [simp del]

definition glibtop_open_s ::
  "kernel \<Rightarrow> string option \<Rightarrow> bool option \<Rightarrow> glibtop \<Rightarrow> string \<Rightarrow> (glibtop \<times> bool option) res" where
  "glibtop_open_s K uname sysfs server program_name =
     bind_res (set_linux_version K uname sysfs (server\<lparr>s_name := Some program_name\<rparr>))
       (\<lambda>(server, sysfs).
     bind_res (file_to_buffer K STAT_BUFSIZ ''/proc/stat'') (\<lambda>buffer.
       let real_ncpu = count_cpu_lines (skip_line buffer) 0
       in Inr (server\<lparr>s_real_ncpu := real_ncpu, s_ncpu := min (int GLIBTOP_NCPU - 1) real_ncpu\<rparr>,
               sysfs)))"

section \<open>cpu.c\<close>

record glibtop_cpu =
  cpu_flags :: guint64
  cpu_total :: guint64
  cpu_user :: guint64
  cpu_nice :: guint64
  cpu_sys :: guint64
  cpu_idle :: guint64
  cpu_iowait :: guint64
  cpu_irq :: guint64
  cpu_softirq :: guint64
  cpu_frequency :: guint64
  xcpu_total :: "nat \<Rightarrow> guint64"
  xcpu_user :: "nat \<Rightarrow> guint64"
  xcpu_nice :: "nat \<Rightarrow> guint64"
  xcpu_sys :: "nat \<Rightarrow> guint64"
  xcpu_idle :: "nat \<Rightarrow> guint64"
  xcpu_iowait :: "nat \<Rightarrow> guint64"
  xcpu_irq :: "nat \<Rightarrow> guint64"
  xcpu_softirq :: "nat \<Rightarrow> guint64"

definition cpu_zero :: glibtop_cpu where
  "cpu_zero = \<lparr>cpu_flags = 0, cpu_total = 0, cpu_user = 0, cpu_nice = 0, cpu_sys = 0, cpu_idle = 0,
     cpu_iowait = 0, cpu_irq = 0, cpu_softirq = 0, cpu_frequency = 0,
     xcpu_total = (\<lambda>_. 0), xcpu_user = (\<lambda>_. 0), xcpu_nice = (\<lambda>_. 0), xcpu_sys = (\<lambda>_. 0),
     xcpu_idle = (\<lambda>_. 0), xcpu_iowait = (\<lambda>_. 0), xcpu_irq = (\<lambda>_. 0), xcpu_softirq = (\<lambda>_. 0)\<rparr>"

definition sysdeps_cpu :: guint64 where
  \<comment> \<open>TOTAL, USER, NICE, SYS, IDLE, FREQUENCY\<close>
  "sysdeps_cpu = flag 0 + flag 1 + flag 2 + flag 3 + flag 4 + flag 5"

definition sysdeps_cpu_smp :: guint64 where
  \<comment> \<open>XCPU: TOTAL, USER, NICE, SYS, IDLE\<close>
  "sysdeps_cpu_smp = flag 6 + flag 7 + flag 8 + flag 9 + flag 10"

definition sysdeps_cpu_2_6 :: guint64 where
  \<comment> \<open>IOWAIT, IRQ, SOFTIRQ\<close>
  "sysdeps_cpu_2_6 = flag 12 + flag 13 + flag 14"

definition sysdeps_cpu_smp_2_6 :: guint64 where
  \<comment> \<open>XCPU: IOWAIT, IRQ, SOFTIRQ\<close>
  "sysdeps_cpu_smp_2_6 = flag 15 + flag 16 + flag 17"

definition kernel_2_6 :: "glibtop \<Rightarrow> bool" where
  "kernel_2_6 server \<longleftrightarrow> LINUX_VERSION_CODE 2 6 0 \<le> s_os_version_code server"

definition cpu_sysdeps_bits :: "glibtop \<Rightarrow> guint64" where
  "cpu_sysdeps_bits server =
     sysdeps_cpu OR (if s_ncpu server \<noteq> 0 then sysdeps_cpu_smp else 0)
     OR (if kernel_2_6 server
         then sysdeps_cpu_2_6 OR (if s_ncpu server \<noteq> 0 then sysdeps_cpu_smp_2_6 else 0) else 0)"

definition init_cpu_s :: "glibtop \<Rightarrow> glibtop" where
  "init_cpu_s server = set_sysdeps F_CPU (cpu_sysdeps_bits server) server"

definition get_cpu_global :: "glibtop \<Rightarrow> string \<Rightarrow> glibtop_cpu \<times> string" where
  "get_cpu_global server buffer =
     (let p = skip_token buffer;
          (user, p) = strtoull 0 p;
          (nice, p) = strtoull 0 p;
          (sys, p) = strtoull 0 p;
          (idle, p) = strtoull 0 p;
          buf = cpu_zero\<lparr>cpu_user := user, cpu_nice := nice, cpu_sys := sys, cpu_idle := idle,
                  cpu_total := user + nice + sys + idle\<rparr>;
          (buf, p) =
            (if kernel_2_6 server then
               (let (iowait, p) = strtoull 0 p;
                    (irq, p) = strtoull 0 p;
                    (softirq, p) = strtoull 0 p
                in (buf\<lparr>cpu_iowait := iowait, cpu_irq := irq, cpu_softirq := softirq,
                      cpu_total := cpu_total buf + (iowait + irq + softirq)\<rparr>, p))
             else (buf, p))
      in (buf\<lparr>cpu_frequency := 100, cpu_flags := sysdeps_cpu\<rparr>, p))"

definition get_xcpu :: "glibtop \<Rightarrow> nat \<Rightarrow> string \<Rightarrow> glibtop_cpu \<Rightarrow> glibtop_cpu \<times> string" where
  \<comment> \<open>the body of the loop after \<open>"cpuN"\<close>\<close>
  "get_xcpu server i p buf =
     (let (user, p) = strtoull 0 p;
          (nice, p) = strtoull 0 p;
          (sys, p) = strtoull 0 p;
          (idle, p) = strtoull 0 p;
          buf = buf\<lparr>xcpu_user := (xcpu_user buf)(i := user), xcpu_nice := (xcpu_nice buf)(i := nice),
                  xcpu_sys := (xcpu_sys buf)(i := sys), xcpu_idle := (xcpu_idle buf)(i := idle),
                  xcpu_total := (xcpu_total buf)(i := user + nice + sys + idle)\<rparr>
      in if kernel_2_6 server then
           (let (iowait, p) = strtoull 0 p;
                (irq, p) = strtoull 0 p;
                (softirq, p) = strtoull 0 p
            in (buf\<lparr>xcpu_iowait := (xcpu_iowait buf)(i := iowait), xcpu_irq := (xcpu_irq buf)(i := irq),
                  xcpu_softirq := (xcpu_softirq buf)(i := softirq),
                  xcpu_total := (xcpu_total buf)(i := xcpu_total buf i + (iowait + irq + softirq))\<rparr>, p))
         else (buf, p))"

text \<open>The loop over \<open>i = 0 .. ncpu\<close>, with the number of iterations left. The arrays have
  \<open>GLIBTOP_NCPU\<close> elements.\<close>

fun xcpu_loop :: "glibtop \<Rightarrow> nat \<Rightarrow> nat \<Rightarrow> string \<Rightarrow> glibtop_cpu \<Rightarrow> glibtop_cpu res" where
  "xcpu_loop server 0 i p buf = Inr buf"
| "xcpu_loop server (Suc left) i p buf =
     (let p = skip_line p in
      if \<not> check_cpu_line p i then Inr buf
      else if GLIBTOP_NCPU \<le> i then Inl (Crash ''xcpu index'')
      else (let (buf, p) = get_xcpu server i (skip_token p) buf
            in xcpu_loop server left (Suc i) p buf))"

definition glibtop_get_cpu_s :: "kernel \<Rightarrow> glibtop \<Rightarrow> glibtop_cpu res" where
  "glibtop_get_cpu_s K server =
     bind_res (file_to_buffer K STAT_BUFSIZ ''/proc/stat'') (\<lambda>buffer.
       let (buf, p) = get_cpu_global server buffer in
     bind_res (xcpu_loop server (nat (s_ncpu server + 1)) 0 p buf) (\<lambda>buf.
       let flags = cpu_flags buf;
           flags = (if s_ncpu server \<noteq> 0 then flags OR sysdeps_cpu_smp else flags);
           flags = (if kernel_2_6 server then
                      (let flags = flags OR sysdeps_cpu_2_6
                       in if s_ncpu server \<noteq> 0 then flags OR sysdeps_cpu_smp_2_6 else flags)
                    else flags)
       in Inr (buf\<lparr>cpu_flags := flags\<rparr>)))"

section \<open>mem.c and swap.c\<close>

record glibtop_mem =
  mem_flags :: guint64
  mem_total :: guint64
  mem_used :: guint64
  mem_free :: guint64
  mem_shared :: guint64
  mem_buffer :: guint64
  mem_cached :: guint64
  mem_user :: guint64
  mem_locked :: guint64

definition sysdeps_mem :: guint64 where
  "sysdeps_mem = flag 0 + flag 1 + flag 2 + flag 3 + flag 4 + flag 5 + flag 6"

definition init_mem_s :: "glibtop \<Rightarrow> glibtop" where
  "init_mem_s server = set_sysdeps F_MEM sysdeps_mem server"

definition get_mem_buffer :: "glibtop \<Rightarrow> string \<Rightarrow> glibtop_mem" where
  "get_mem_buffer server buffer =
     (let total = get_scaled buffer (Some ''MemTotal:'');
          free = get_scaled buffer (Some ''MemFree:'');
          shared = get_scaled buffer (Some ''Shmem:'');
          bufs = get_scaled buffer (Some ''Buffers:'');
          cached = get_scaled buffer (Some ''Cached:'') + get_scaled buffer (Some ''Slab:'');
          user = (if LINUX_VERSION_CODE 3 14 0 \<le> s_os_version_code server
                  then total - get_scaled buffer (Some ''MemAvailable:'')
                  else total - free - cached - bufs)
      in \<lparr>mem_flags = sysdeps_mem, mem_total = total, mem_used = total - free, mem_free = free,
          mem_shared = shared, mem_buffer = bufs, mem_cached = cached, mem_user = user,
          mem_locked = 0\<rparr>)"

definition glibtop_get_mem_s :: "kernel \<Rightarrow> glibtop \<Rightarrow> glibtop_mem res" where
  "glibtop_get_mem_s K server =
     bind_res (file_to_buffer K BUFSIZ ''/proc/meminfo'') (\<lambda>buffer. Inr (get_mem_buffer server buffer))"

record glibtop_swap =
  swap_flags :: guint64
  swap_total :: guint64
  swap_used :: guint64
  swap_free :: guint64
  swap_pagein :: guint64
  swap_pageout :: guint64

definition sysdeps_swap :: guint64 where
  "sysdeps_swap = flag 0 + flag 1 + flag 2"

definition sysdeps_swap_paging :: guint64 where
  "sysdeps_swap_paging = flag 3 + flag 4"

definition init_swap_s :: "glibtop \<Rightarrow> glibtop" where
  "init_swap_s server = set_sysdeps F_SWAP (sysdeps_swap OR sysdeps_swap_paging) server"

definition glibtop_get_swap_s :: "kernel \<Rightarrow> glibtop \<Rightarrow> glibtop_swap res" where
  "glibtop_get_swap_s K server =
     bind_res (file_to_buffer K BUFSIZ ''/proc/meminfo'') (\<lambda>buffer.
       let total = get_scaled buffer (Some ''SwapTotal:'');
           free = get_scaled buffer (Some ''SwapFree:'');
           buf = \<lparr>swap_flags = sysdeps_swap, swap_total = total, swap_used = total - free,
                  swap_free = free, swap_pagein = 0, swap_pageout = 0\<rparr>
       in if kernel_2_6 server then
            bind_res (file_to_buffer K BUFSIZ ''/proc/vmstat'') (\<lambda>buffer.
              case strstr buffer (NL # ''pswpin'') of
                None \<Rightarrow> Inr buf
              | Some p \<Rightarrow>
                  (let p = skip_token p;
                       (pagein, p) = strtoull 0 p;
                       p = skip_token p;
                       (pageout, p) = strtoull 0 p
                   in Inr (buf\<lparr>swap_pagein := pagein, swap_pageout := pageout,
                             swap_flags := swap_flags buf OR sysdeps_swap_paging\<rparr>)))
          else
            bind_res (file_to_buffer K BUFSIZ ''/proc/stat'') (\<lambda>buffer.
              case strstr buffer (NL # ''swap'') of
                None \<Rightarrow> Inr buf
              | Some p \<Rightarrow>
                  (let p = skip_token p;
                       (pagein, p) = strtoull 0 p;
                       (pageout, p) = strtoull 0 p
                   in Inr (buf\<lparr>swap_pagein := pagein, swap_pageout := pageout,
                             swap_flags := swap_flags buf OR sysdeps_swap_paging\<rparr>))))"

section \<open>uptime.c and loadavg.c\<close>

record 'd glibtop_uptime =
  uptime_flags :: guint64
  uptime_uptime :: 'd
  uptime_idletime :: 'd
  uptime_boot_time :: guint64

definition sysdeps_uptime :: guint64 where
  "sysdeps_uptime = flag 0 + flag 1 + flag 2"

definition init_uptime_s :: "glibtop \<Rightarrow> glibtop" where
  "init_uptime_s server = set_sysdeps F_UPTIME sysdeps_uptime server"

text \<open>The last argument is the cache of \<open>get_boot_time\<close>, whose new value the result carries as
  \<open>uptime_boot_time\<close>.\<close>

definition glibtop_get_uptime_s ::
  "(string \<Rightarrow> 'd \<times> string) \<Rightarrow> kernel \<Rightarrow> guint64 \<Rightarrow> 'd glibtop_uptime res" where
  "glibtop_get_uptime_s strtod K boot_time =
     bind_res (file_to_buffer K BUFSIZ ''/proc/uptime'') (\<lambda>buffer.
       let (uptime, p) = strtod buffer;
           (idletime, p) = strtod p
       in bind_res (get_boot_time K boot_time) (\<lambda>boot_time.
            Inr \<lparr>uptime_flags = sysdeps_uptime, uptime_uptime = uptime, uptime_idletime = idletime,
                 uptime_boot_time = boot_time\<rparr>))"

record 'd glibtop_loadavg =
  la_flags :: guint64
  la_loadavg :: "'d \<times> 'd \<times> 'd"
  la_nr_running :: guint64
  la_nr_tasks :: guint64
  la_last_pid :: guint64

definition sysdeps_loadavg :: guint64 where
  "sysdeps_loadavg = flag 0"

definition sysdeps_loadavg_tasks :: guint64 where
  "sysdeps_loadavg_tasks = flag 1 + flag 2 + flag 3"

definition init_loadavg_s :: "glibtop \<Rightarrow> glibtop" where
  "init_loadavg_s server = set_sysdeps F_LOADAVG sysdeps_loadavg server"

fun loadavg_scan :: "string \<Rightarrow> bool" where
  \<comment> \<open>the \<open>while (*p)\<close> loop: it does not return from the function\<close>
  "loadavg_scan [] = True"
| "loadavg_scan (c # p) = (c = CHR ''/'' \<or> isdigit c \<and> loadavg_scan p)"

definition glibtop_get_loadavg_s ::
  "(string \<Rightarrow> 'd \<times> string) \<Rightarrow> kernel \<Rightarrow> 'd glibtop_loadavg res" where
  "glibtop_get_loadavg_s strtod K =
     bind_res (file_to_buffer K BUFSIZ ''/proc/loadavg'') (\<lambda>buffer.
       let (l0, p) = strtod buffer;
           (l1, p) = strtod p;
           (l2, p) = strtod p;
           buf = \<lparr>la_flags = sysdeps_loadavg, la_loadavg = (l0, l1, l2), la_nr_running = 0,
                  la_nr_tasks = 0, la_last_pid = 0\<rparr>;
           old = next_token p
       in if \<not> loadavg_scan old then Inr buf
          else (let (nr_running, p) = strtoull 0 old in
            case p of
              [] \<Rightarrow> Inl (Crash ''loadavg: p++ behind the NUL'')
            | _ # p \<Rightarrow>
                (let (nr_tasks, p) = strtoull 0 p;
                     (last_pid, p) = strtoull 0 p
                 in Inr (buf\<lparr>la_nr_running := nr_running, la_nr_tasks := nr_tasks,
                           la_last_pid := last_pid,
                           la_flags := la_flags buf OR sysdeps_loadavg_tasks\<rparr>))))"

section \<open>What the functions return\<close>

text \<open>
  \<open>cpu_line tag vs l\<close>: \<open>l\<close> is a line of \<open>/proc/stat\<close> that starts with \<open>tag\<close> and goes on with the
  counters \<open>vs\<close>, the seven the code reads and perhaps more, separated by any white space.
\<close>

definition cpu_line :: "string \<Rightarrow> nat list \<Rightarrow> string \<Rightarrow> bool" where
  "cpu_line tag vs l \<longleftrightarrow>
     NL \<notin> set l \<and> take (length tag) l = tag \<and> words l = tag # map show_nat vs
     \<and> 7 \<le> length vs \<and> (\<forall>v\<in>set vs. v < 2 ^ 64)"

text \<open>The counters of a row, and what a row of \<open>/proc/stat\<close> means.\<close>

definition cpu_row :: "bool \<Rightarrow> nat list \<Rightarrow> guint64 list" where
  "cpu_row new vs =
     (let v = (\<lambda>k. of_nat (vs ! k) :: guint64); w = (\<lambda>k. if new then v k else 0) in
      [v 0, v 1, v 2, v 3, w 4, w 5, w 6, v 0 + v 1 + v 2 + v 3 + (w 4 + w 5 + w 6)])"

definition global_row :: "glibtop_cpu \<Rightarrow> guint64 list" where
  "global_row b = [cpu_user b, cpu_nice b, cpu_sys b, cpu_idle b, cpu_iowait b, cpu_irq b,
     cpu_softirq b, cpu_total b, cpu_frequency b, cpu_flags b]"

definition xcpu_row :: "glibtop_cpu \<Rightarrow> nat \<Rightarrow> guint64 list" where
  "xcpu_row b i = [xcpu_user b i, xcpu_nice b i, xcpu_sys b i, xcpu_idle b i, xcpu_iowait b i,
     xcpu_irq b i, xcpu_softirq b i, xcpu_total b i]"

lemma list7E:
  assumes "7 \<le> length vs"
  obtains a b c d e f g r where "vs = a # b # c # d # e # f # g # r"
proof -
  from assms obtain a b c d e f g r where "vs = a # b # c # d # e # f # g # r"
    by (auto simp: numeral_eq_Suc Suc_le_length_iff)
  then show ?thesis by (rule that)
qed

lemma get_cpu_global_line:
  assumes "cpu_line tag vs l"
  shows "\<exists>q. snd (get_cpu_global server (l @ NL # r)) = q @ NL # r \<and> NL \<notin> set q
     \<and> global_row (fst (get_cpu_global server (l @ NL # r)))
       = cpu_row (kernel_2_6 server) vs @ [100, sysdeps_cpu]
     \<and> xcpu_row (fst (get_cpu_global server (l @ NL # r))) = (\<lambda>_. [0, 0, 0, 0, 0, 0, 0, 0])"
proof -
  obtain a b c d e f g rs where vs: "vs = a # b # c # d # e # f # g # rs"
    using assms by (auto simp: cpu_line_def elim: list7E)
  have nl: "NL \<notin> set l" and w: "words l = tag # map show_nat vs"
    and bd: "a < 2 ^ 64" "b < 2 ^ 64" "c < 2 ^ 64" "d < 2 ^ 64" "e < 2 ^ 64" "f < 2 ^ 64" "g < 2 ^ 64"
    using assms by (auto simp: cpu_line_def vs)
  show ?thesis
    using nl bd
    by (cases "kernel_2_6 server")
      (simp_all add: get_cpu_global_def ctext w vs cpu_row_def global_row_def xcpu_row_def
        cpu_zero_def Let_def fun_eq_iff)
qed

lemma get_xcpu_line:
  assumes "cpu_line tag vs l"
  shows "\<exists>q. snd (get_xcpu server i (skip_token (l @ NL # r)) b) = q @ NL # r \<and> NL \<notin> set q
     \<and> global_row (fst (get_xcpu server i (skip_token (l @ NL # r)) b)) = global_row b
     \<and> xcpu_row (fst (get_xcpu server i (skip_token (l @ NL # r)) b))
       = (xcpu_row b)(i := if kernel_2_6 server then cpu_row True vs
           else take 4 (cpu_row False vs) @ [xcpu_iowait b i, xcpu_irq b i, xcpu_softirq b i]
             @ drop 7 (cpu_row False vs))"
proof -
  obtain a b' c d e f g rs where vs: "vs = a # b' # c # d # e # f # g # rs"
    using assms by (auto simp: cpu_line_def elim: list7E)
  have nl: "NL \<notin> set l" and w: "words l = tag # map show_nat vs"
    and bd: "a < 2 ^ 64" "b' < 2 ^ 64" "c < 2 ^ 64" "d < 2 ^ 64" "e < 2 ^ 64" "f < 2 ^ 64" "g < 2 ^ 64"
    using assms by (auto simp: cpu_line_def vs)
  show ?thesis
    using nl bd
    by (cases "kernel_2_6 server")
      (simp_all add: get_xcpu_def ctext w vs cpu_row_def global_row_def xcpu_row_def
        cpu_zero_def Let_def fun_eq_iff)
qed

lemma cpu_line_check:
  assumes "cpu_line (''cpu'' @ show_nat i) vs l"
  shows "check_cpu_line (l @ r) i"
proof -
  let ?t = "''cpu'' @ show_nat i"
  have "l = ?t @ drop (length ?t) l"
    using assms by (metis append_take_drop_id cpu_line_def)
  then have "l @ r = ?t @ (drop (length ?t) l @ r)" by (metis append.assoc)
  then show ?thesis by (metis check_cpu_line_tag)
qed

text \<open>The loop over the processors, from a pointer somewhere in the line before the first of
  the lines \<open>ls\<close>; before the loop the rows are zero.\<close>

lemma xcpu_loop_lines:
  assumes "\<forall>j<length ls. cpu_line (''cpu'' @ show_nat (i + j)) (xs (i + j)) (ls ! j)"
    and "i + length ls \<le> GLIBTOP_NCPU" and "NL \<notin> set q"
    and "\<forall>j. i \<le> j \<longrightarrow> xcpu_row b j = [0, 0, 0, 0, 0, 0, 0, 0]"
  shows "\<exists>b'. xcpu_loop server (length ls) i (q @ NL # unlines ls @ rest) b = Inr b'
     \<and> global_row b' = global_row b
     \<and> (\<forall>j<length ls. xcpu_row b' (i + j) = cpu_row (kernel_2_6 server) (xs (i + j)))
     \<and> (\<forall>j. j < i \<longrightarrow> xcpu_row b' j = xcpu_row b j)
     \<and> (\<forall>j. i + length ls \<le> j \<longrightarrow> xcpu_row b' j = [0, 0, 0, 0, 0, 0, 0, 0])"
  using assms
proof (induction ls arbitrary: i q b)
  case Nil
  then show ?case by simp
next
  case (Cons l ls)
  have l: "cpu_line (''cpu'' @ show_nat i) (xs i) l" using Cons.prems(1) by force
  define s where "s = get_xcpu server i (skip_token (l @ NL # unlines ls @ rest)) b"
  obtain q' where q': "snd s = q' @ NL # unlines ls @ rest" "NL \<notin> set q'"
    "global_row (fst s) = global_row b"
    and row: "xcpu_row (fst s) = (xcpu_row b)(i := if kernel_2_6 server then cpu_row True (xs i)
           else take 4 (cpu_row False (xs i)) @ [xcpu_iowait b i, xcpu_irq b i, xcpu_softirq b i]
             @ drop 7 (cpu_row False (xs i)))"
    using get_xcpu_line [OF l, of server i "unlines ls @ rest" b] by (auto simp: s_def)
  have "xcpu_iowait b i = 0" "xcpu_irq b i = 0" "xcpu_softirq b i = 0"
    using Cons.prems(4) by (auto simp: xcpu_row_def)
  then have row': "xcpu_row (fst s) = (xcpu_row b)(i := cpu_row (kernel_2_6 server) (xs i))"
    by (simp add: row cpu_row_def Let_def)
  have "\<forall>j<length ls. cpu_line (''cpu'' @ show_nat (Suc i + j)) (xs (Suc i + j)) (ls ! j)"
  proof (intro allI impI)
    fix j assume "j < length ls"
    then show "cpu_line (''cpu'' @ show_nat (Suc i + j)) (xs (Suc i + j)) (ls ! j)"
      using Cons.prems(1) [rule_format, of "Suc j"] by simp
  qed
  moreover have "Suc i + length ls \<le> GLIBTOP_NCPU" using Cons.prems(2) by simp
  moreover have "\<forall>j. Suc i \<le> j \<longrightarrow> xcpu_row (fst s) j = [0, 0, 0, 0, 0, 0, 0, 0]"
    using Cons.prems(4) by (simp add: row')
  ultimately obtain b' where b': "xcpu_loop server (length ls) (Suc i) (snd s) (fst s) = Inr b'"
    "global_row b' = global_row b"
    "\<forall>j<length ls. xcpu_row b' (Suc i + j) = cpu_row (kernel_2_6 server) (xs (Suc i + j))"
    "\<forall>j. j < Suc i \<longrightarrow> xcpu_row b' j = xcpu_row (fst s) j"
    "\<forall>j. Suc i + length ls \<le> j \<longrightarrow> xcpu_row b' j = [0, 0, 0, 0, 0, 0, 0, 0]"
    using Cons.IH [of "Suc i" q' "fst s"] q' by auto
  have skip: "skip_line (q @ NL # unlines (l # ls) @ rest) = l @ NL # unlines ls @ rest"
    using Cons.prems(3) by (simp add: skip_line_line)
  have "check_cpu_line (l @ NL # unlines ls @ rest) i" by (rule cpu_line_check [OF l])
  moreover have "\<not> GLIBTOP_NCPU \<le> i" using Cons.prems(2) by simp
  ultimately have run: "xcpu_loop server (length (l # ls)) i (q @ NL # unlines (l # ls) @ rest) b = Inr b'"
    using b'(1) skip by (simp add: s_def case_prod_unfold Let_def)
  have rows: "xcpu_row b' (i + j) = cpu_row (kernel_2_6 server) (xs (i + j))"
    if "j < length (l # ls)" for j
    using that b'(3,4) row' by (cases j) auto
  show ?case
    using run rows b'(2,4,5) row' by (intro exI [of _ b']) auto
qed

text \<open>
  C1. The counters of \<open>/proc/stat\<close> come out as they went in: for a text with a line for all
  processors and then one line for each processor \<open>0 .. ncpu\<close>, in the format of the kernel,
  \<open>glibtop_get_cpu_s\<close> returns the global counters and, at index \<open>i\<close>, those of processor \<open>i\<close>; the
  totals are the sums; the rows beyond the last processor stay zero; the flags are exactly
  those that the init hook announces; no index is out of range.
\<close>

theorem get_cpu_s_spec:
  assumes stat: "file_to_buffer K STAT_BUFSIZ ''/proc/stat'' = Inr (unlines (l # ls) @ rest)"
    and l: "cpu_line ''cpu'' v l"
    and ls: "\<forall>j<length ls. cpu_line (''cpu'' @ show_nat j) (xs j) (ls ! j)"
    and n: "s_ncpu server = int (length ls) - 1" "length ls \<le> GLIBTOP_NCPU"
  shows "\<exists>buf. glibtop_get_cpu_s K server = Inr buf
     \<and> global_row buf = cpu_row (kernel_2_6 server) v @ [100, sd (s_sysdeps (init_cpu_s server)) F_CPU]
     \<and> (\<forall>j<length ls. xcpu_row buf j = cpu_row (kernel_2_6 server) (xs j))
     \<and> (\<forall>j\<ge>length ls. xcpu_row buf j = [0, 0, 0, 0, 0, 0, 0, 0])"
proof -
  define g where "g = get_cpu_global server (l @ NL # unlines ls @ rest)"
  obtain q where g: "snd g = q @ NL # unlines ls @ rest" "NL \<notin> set q"
    "global_row (fst g) = cpu_row (kernel_2_6 server) v @ [100, sysdeps_cpu]"
    "xcpu_row (fst g) = (\<lambda>_. [0, 0, 0, 0, 0, 0, 0, 0])"
    using get_cpu_global_line [OF l, of server "unlines ls @ rest"] by (auto simp: g_def)
  obtain b where b: "xcpu_loop server (length ls) 0 (snd g) (fst g) = Inr b"
    "global_row b = global_row (fst g)"
    "\<forall>j<length ls. xcpu_row b j = cpu_row (kernel_2_6 server) (xs j)"
    "\<forall>j\<ge>length ls. xcpu_row b j = [0, 0, 0, 0, 0, 0, 0, 0]"
    using xcpu_loop_lines [of ls 0 xs q "fst g" server rest] ls n(2) g by auto
  have N: "nat (s_ncpu server + 1) = length ls" using n(1) by simp
  define fl where "fl = sd (s_sysdeps (init_cpu_s server)) F_CPU"
  have fb: "cpu_flags b = sysdeps_cpu" and gb: "global_row (b\<lparr>cpu_flags := fl\<rparr>) =
    cpu_row (kernel_2_6 server) v @ [100, fl]"
    using b(2) g(3) by (auto simp: global_row_def cpu_row_def Let_def)
  have "glibtop_get_cpu_s K server = Inr (b\<lparr>cpu_flags := fl\<rparr>)"
    using b(1) N stat fb by (simp add: glibtop_get_cpu_s_def g_def [symmetric] case_prod_unfold Let_def
        fl_def init_cpu_s_def set_sysdeps_def cpu_sysdeps_bits_def ac_simps)
  moreover have "xcpu_row (b\<lparr>cpu_flags := fl\<rparr>) = xcpu_row b" by (simp add: xcpu_row_def fun_eq_iff)
  ultimately show ?thesis using gb b(3,4) by (simp add: fl_def)
qed

definition stat_kernel :: "string \<Rightarrow> kernel" where
  \<comment> \<open>a kernel with one file, \<open>/proc/stat\<close>, read in two chunks with an interruption\<close>
  "stat_kernel text = \<lparr>k_read = (\<lambda>f. if f = ''/proc/stat''
     then Some [Chunk (take 5 text), Intr, Chunk (drop 5 text)] else None),
     k_isdir = (\<lambda>_. True), k_readlink = (\<lambda>_. None), k_stat = (\<lambda>_. None),
     k_readdir = (\<lambda>_. None)\<rparr>"

lemma stat_kernel_buffer:
  assumes "5 < length text" "length text < n" "NUL \<notin> set text"
  shows "file_to_buffer (stat_kernel text) n ''/proc/stat'' = Inr text"
proof -
  have "drop 5 text \<noteq> []" "take 5 text \<noteq> []" using assms(1) by auto
  then show ?thesis
    using file_to_buffer_small [of "stat_kernel text" "''/proc/stat''"
        "[Chunk (take 5 text), Intr, Chunk (drop 5 text)]" n] assms(2,3)
    by (simp add: stat_kernel_def readable_def)
qed

theorem get_cpu_s_witness:
  "\<exists>buf. glibtop_get_cpu_s (stat_kernel (unlines [''cpu  10 20 30 40 5 6 7 0'', ''cpu0 4 20 10 15 5 2 0 0'',
        ''cpu1 6 0 20 25 0 4 7 0''] @ ''intr 99'')) (glibtop_global_server\<lparr>s_ncpu := 1, s_os_version_code := LINUX_VERSION_CODE 5 4 0\<rparr>) = Inr buf
     \<and> take 8 (global_row buf) = [10, 20, 30, 40, 5, 6, 7, 118] \<and> xcpu_row buf 1 = [6, 0, 20, 25, 0, 4, 7, 62]"
proof -
  let ?l = "''cpu  10 20 30 40 5 6 7 0''" and ?ls = "[''cpu0 4 20 10 15 5 2 0 0'', ''cpu1 6 0 20 25 0 4 7 0'']"
  let ?v = "[10, 20, 30, 40, 5, 6, 7, 0] :: nat list"
  let ?xs = "(\<lambda>j. if j = 0 then [4, 20, 10, 15, 5, 2, 0, 0] else [6, 0, 20, 25, 0, 4, 7, 0]) :: nat \<Rightarrow> nat list"
  let ?s = "glibtop_global_server\<lparr>s_ncpu := 1, s_os_version_code := LINUX_VERSION_CODE 5 4 0\<rparr>"
  have stat: "file_to_buffer (stat_kernel (unlines (?l # ?ls) @ ''intr 99'')) STAT_BUFSIZ ''/proc/stat''
    = Inr (unlines (?l # ?ls) @ ''intr 99'')"
  proof (rule stat_kernel_buffer)
    show "5 < length (unlines (?l # ?ls) @ ''intr 99'')" by code_simp
    show "length (unlines (?l # ?ls) @ ''intr 99'') < STAT_BUFSIZ" by simp
    show "NUL \<notin> set (unlines (?l # ?ls) @ ''intr 99'')" by code_simp
  qed
  have "words ?l = ''cpu'' # map show_nat ?v"
    "words ''cpu0 4 20 10 15 5 2 0 0'' = (''cpu'' @ show_nat 0) # map show_nat [4, 20, 10, 15, 5, 2, 0, 0]"
    "words ''cpu1 6 0 20 25 0 4 7 0'' = (''cpu'' @ show_nat 1) # map show_nat [6, 0, 20, 25, 0, 4, 7, 0]"
    "show_nat 0 = ''0''" "show_nat 1 = ''1''"
    by code_simp+
  then have l: "cpu_line ''cpu'' ?v ?l"
    and "cpu_line (''cpu'' @ show_nat 0) (?xs 0) (?ls ! 0)" "cpu_line (''cpu'' @ show_nat 1) (?xs 1) (?ls ! 1)"
    by (simp_all add: cpu_line_def)
  then have ls: "\<forall>j<length ?ls. cpu_line (''cpu'' @ show_nat j) (?xs j) (?ls ! j)"
    by (auto simp: less_Suc_eq)
  have k: "kernel_2_6 ?s" by (simp add: kernel_2_6_def LINUX_VERSION_CODE_def)
  obtain buf where b: "glibtop_get_cpu_s (stat_kernel (unlines (?l # ?ls) @ ''intr 99'')) ?s = Inr buf"
    "global_row buf = cpu_row (kernel_2_6 ?s) ?v @ [100, sd (s_sysdeps (init_cpu_s ?s)) F_CPU]"
    "\<forall>j<length ?ls. xcpu_row buf j = cpu_row (kernel_2_6 ?s) (?xs j)"
    using get_cpu_s_spec [OF stat l ls, of ?s] by auto
  then show ?thesis using k b(3)[rule_format, of 1] by (intro exI [of _ buf]) (simp add: cpu_row_def)
qed

section \<open>Counting the processors\<close>

lemma count_cpu_lines_lines:
  assumes "\<forall>j<length ls. NL \<notin> set (ls ! j) \<and> (\<forall>r. check_cpu_line (ls ! j @ r) (i + j))"
    and "\<not> check_cpu_line rest (i + length ls)"
  shows "count_cpu_lines (unlines ls @ rest) i = int (i + length ls) - 1"
  using assms
proof (induction ls arbitrary: i)
  case Nil
  then show ?case by (simp add: count_cpu_lines.simps [of rest])
next
  case (Cons l ls)
  have l: "NL \<notin> set l" "check_cpu_line (l @ NL # unlines ls @ rest) i" using Cons.prems(1) by force+
  have "\<forall>j<length ls. NL \<notin> set (ls ! j) \<and> (\<forall>r. check_cpu_line (ls ! j @ r) (Suc i + j))"
  proof (intro allI impI)
    fix j assume "j < length ls"
    then show "NL \<notin> set (ls ! j) \<and> (\<forall>r. check_cpu_line (ls ! j @ r) (Suc i + j))"
      using Cons.prems(1) [rule_format, of "Suc j"] by simp
  qed
  moreover have "\<not> check_cpu_line rest (Suc i + length ls)" using Cons.prems(2) by simp
  ultimately have "count_cpu_lines (unlines ls @ rest) (Suc i) = int (Suc i + length ls) - 1"
    by (rule Cons.IH)
  with l show ?case
    by (subst count_cpu_lines.simps) (simp add: skip_line_line)
qed

text \<open>
  C17. Opening finds the processors: if the first line of \<open>/proc/stat\<close> is followed by one line
  \<open>cpu0\<close>, \<open>cpu1\<close>, \<dots> for each of \<open>n\<close> processors and then by something else, \<open>real_ncpu\<close> becomes \<open>n - 1\<close>
  and \<open>ncpu\<close> the same number but at most 1023, so that every index of the getters' loops fits into
  the arrays; the version code orders releases as their numbers, while the second and the third
  are below 256.
\<close>

theorem open_s_counts:
  assumes un: "uname = Some release" and v: "sscanf_version release = (d, x, y, z)"
    and stat: "file_to_buffer K STAT_BUFSIZ ''/proc/stat'' = Inr (l @ NL # unlines ls @ rest)"
    and l: "NL \<notin> set l" and ls: "\<forall>j<length ls. NL \<notin> set (ls ! j)
      \<and> (\<forall>r. check_cpu_line (ls ! j @ r) j)"
    and rest: "\<not> check_cpu_line rest (length ls)"
    and small: "x < 256" "y < 256" "z < 256"
  shows "\<exists>server' sysfs'. glibtop_open_s K uname sysfs server nm = Inr (server', sysfs')
    \<and> s_real_ncpu server' = int (length ls) - 1
    \<and> s_ncpu server' = min 1023 (int (length ls) - 1) \<and> nat (s_ncpu server' + 1) \<le> GLIBTOP_NCPU
    \<and> (\<forall>a<256. \<forall>b<256. \<forall>c<256. LINUX_VERSION_CODE a b c \<le> s_os_version_code server'
         \<longleftrightarrow> a < x \<or> a = x \<and> (b < y \<or> b = y \<and> c \<le> z))"
proof -
  have "\<forall>j<length ls. NL \<notin> set (ls ! j) \<and> (\<forall>r. check_cpu_line (ls ! j @ r) (0 + j))" using ls by simp
  then have "count_cpu_lines (unlines ls @ rest) 0 = int (length ls) - 1"
    using count_cpu_lines_lines [of ls 0 rest] rest by simp
  moreover have "skip_line (l @ NL # unlines ls @ rest) = unlines ls @ rest"
    using l by (rule skip_line_line)
  moreover have "LINUX_VERSION_CODE a b c \<le> LINUX_VERSION_CODE x y z
         \<longleftrightarrow> a < x \<or> a = x \<and> (b < y \<or> b = y \<and> c \<le> z)" if "a < 256" "b < 256" "c < 256" for a b c
  proof -
    have "LINUX_VERSION_CODE a b c = 65536 * a + 256 * b + c" "LINUX_VERSION_CODE x y z = 65536 * x + 256 * y + z"
      using that small by (simp_all add: LINUX_VERSION_CODE_def)
    then show ?thesis using that small by linarith
  qed
  ultimately show ?thesis
    by (simp add: glibtop_open_s_def set_linux_version_def un v stat Let_def)
qed

theorem open_s_counts_witness:
  "\<exists>server' sysfs'. glibtop_open_s (stat_kernel (unlines [''cpu  10 20 30 40'', ''cpu0 4 20 10 15'',
        ''cpu1 6 0 20 25''] @ ''intr 99'')) (Some ''6.1.0-13'') None glibtop_global_server ''top'' = Inr (server', sysfs')
     \<and> s_ncpu server' = 1 \<and> s_real_ncpu server' = 1 \<and> LINUX_VERSION_CODE 2 6 0 \<le> s_os_version_code server'"
proof -
  let ?ls = "[''cpu0 4 20 10 15'', ''cpu1 6 0 20 25'']"
  let ?t = "''cpu  10 20 30 40'' @ NL # unlines ?ls @ ''intr 99''"
  have stat: "file_to_buffer (stat_kernel ?t) STAT_BUFSIZ ''/proc/stat'' = Inr ?t"
  proof (rule stat_kernel_buffer)
    show "5 < length ?t" by code_simp
    show "length ?t < STAT_BUFSIZ" by simp
    show "NUL \<notin> set ?t" by code_simp
  qed
  have n: "show_nat 0 = ''0''" "show_nat 1 = ''1''" "show_nat 2 = ''2''" by code_simp+
  have ls: "\<forall>j<length ?ls. NL \<notin> set (?ls ! j) \<and> (\<forall>r. check_cpu_line (?ls ! j @ r) j)"
    using n by (auto simp: less_Suc_eq check_cpu_line_def strncmp_eq_def)
  have rest: "\<not> check_cpu_line ''intr 99'' (length ?ls)"
    using n by (simp add: check_cpu_line_def strncmp_eq_def numeral_2_eq_2 [symmetric] del: numeral_2_eq_2)
  have v: "sscanf_version ''6.1.0-13'' = (3, 6, 1, 0)"
  proof -
    have "strto 10 ''6.1.0-13'' = Some (False, 6, ''.1.0-13'')" "strto 10 ''1.0-13'' = Some (False, 1, ''.0-13'')"
      "strto 10 ''0-13'' = Some (False, 0, ''-13'')" by code_simp+
    then show ?thesis by (simp add: sscanf_version_def scan_u_def strtoull_def)
  qed
  have "NL \<notin> set ''cpu  10 20 30 40''" by simp
  from open_s_counts [OF refl v stat this ls rest, of None glibtop_global_server "''top''"]
  show ?thesis by auto
qed

section \<open>Reading /proc/meminfo\<close>

text \<open>A file of lines \<open>Key: 123 kB\<close>: the key, the number of blanks, the value.\<close>

type_synonym meminfo_line = "string \<times> nat \<times> nat"

definition meminfo_text :: "meminfo_line list \<Rightarrow> string" where
  "meminfo_text = concat o map (\<lambda>(k, w, n). k @ CHR '':'' # replicate w SP @ show_nat n @ '' kB'' @ [NL])"

definition meminfo_ok :: "meminfo_line list \<Rightarrow> bool" where
  "meminfo_ok kvs \<longleftrightarrow> (\<forall>(k, w, n)\<in>set kvs. CHR '':'' \<notin> set k \<and> n < 2 ^ 64)"

text \<open>The abstract view: the value, in bytes, of the first line whose key ends like the key asked
  for.\<close>

definition ends_with :: "string \<Rightarrow> string \<Rightarrow> bool" where
  "ends_with k key \<longleftrightarrow> drop (length k - length key) k = key"

fun meminfo_lookup :: "string \<Rightarrow> meminfo_line list \<Rightarrow> guint64" where
  "meminfo_lookup key [] = 0"
| "meminfo_lookup key ((k, w, n) # kvs) =
     (if ends_with k key then of_nat n * 1024 else meminfo_lookup key kvs)"

lemma ends_with_iff: "ends_with k key \<longleftrightarrow> (\<exists>a. k = a @ key)"
proof
  assume "ends_with k key"
  then have "k = take (length k - length key) k @ key"
    by (metis append_take_drop_id ends_with_def)
  then show "\<exists>a. k = a @ key" ..
qed (auto simp: ends_with_def)

lemma strncmp_eq_iff: "strncmp_eq s key \<longleftrightarrow> (\<exists>r. s = key @ r)"
proof
  assume "strncmp_eq s key"
  then have "s = key @ drop (length key) s" by (metis append_take_drop_id strncmp_eq_def)
  then show "\<exists>r. s = key @ r" ..
qed (auto simp: strncmp_eq_def)

lemma takeWhile_upto: "x \<notin> set u \<Longrightarrow> takeWhile (\<lambda>d. d \<noteq> x) (u @ x # v) = u"
  by (induction u) auto

lemma strstr_colon:
  assumes key: "CHR '':'' \<notin> set key" "key \<noteq> []" and u: "CHR '':'' \<notin> set u"
  shows "strstr (u @ CHR '':'' # v) (key @ '':'') =
    (if ends_with u key then Some (key @ CHR '':'' # v) else strstr v (key @ '':''))"
  using u
proof (induction u)
  case Nil
  have "\<not> strncmp_eq (CHR '':'' # v) (key @ '':'')" using key
    by (cases key) (auto simp: strncmp_eq_iff)
  then show ?case using key by (auto simp: ends_with_iff)
next
  case (Cons c u)
  show ?case
  proof (cases "c # u = key")
    case True
    then have "strncmp_eq (c # u @ CHR '':'' # v) (key @ '':'')" by (auto simp: strncmp_eq_iff)
    moreover have "ends_with (c # u) key" using True by (auto simp: ends_with_iff)
    ultimately show ?thesis using True by auto
  next
    case False
    have n: "\<not> strncmp_eq (c # u @ CHR '':'' # v) (key @ '':'')"
    proof
      assume "strncmp_eq (c # u @ CHR '':'' # v) (key @ '':'')"
      then obtain r where "(c # u) @ CHR '':'' # v = key @ CHR '':'' # r" by (auto simp: strncmp_eq_iff)
      moreover have "CHR '':'' \<notin> set (c # u)" using Cons.prems by simp
      ultimately have "c # u = key"
        using key(1) takeWhile_upto [of "CHR '':''" "c # u" v] takeWhile_upto [of "CHR '':''" key r] by simp
      with False show False ..
    qed
    have e: "ends_with (c # u) key \<longleftrightarrow> ends_with u key"
      using False by (auto simp: ends_with_iff Cons_eq_append_conv)
    show ?thesis using n e Cons by simp
  qed
qed

lemma strstr_no_colon:
  "CHR '':'' \<notin> set u \<Longrightarrow> strstr u (key @ '':'') = None"
proof (induction u)
  case (Cons c u)
  have "\<not> strncmp_eq (c # u) (key @ '':'')"
  proof
    assume "strncmp_eq (c # u) (key @ '':'')"
    then obtain r where "c # u = key @ CHR '':'' # r" by (auto simp: strncmp_eq_iff)
    then have "CHR '':'' \<in> set (c # u)" by simp
    with Cons.prems show False ..
  qed
  with Cons show ?case by simp
qed simp

lemma get_scaled_value:
  assumes "strstr buffer (key @ '':'') = Some (key @ CHR '':'' # replicate w SP @ show_nat n @ '' kB'' @ r)"
    and "n < 2 ^ 64"
  shows "get_scaled buffer (Some (key @ '':'')) = of_nat n * 1024"
proof -
  have "strtoull 0 (replicate w SP @ show_nat n @ '' kB'' @ r) = (of_nat n, '' kB'' @ r)"
    by (rule strtoull_show) (use assms(2) in auto)
  then show ?thesis by (simp add: get_scaled_def assms(1))
qed

lemma get_scaled_meminfo_tail:
  assumes key: "CHR '':'' \<notin> set key" "key \<noteq> []" "NL \<notin> set key"
  shows "meminfo_ok kvs \<Longrightarrow> CHR '':'' \<notin> set x \<Longrightarrow> x = [] \<or> last x = NL \<Longrightarrow>
    (case strstr (x @ meminfo_text kvs) (key @ '':'') of None \<Rightarrow> meminfo_lookup key kvs = 0
     | Some p \<Rightarrow> \<exists>w n r. p = key @ CHR '':'' # replicate w SP @ show_nat n @ '' kB'' @ r
         \<and> n < 2 ^ 64 \<and> meminfo_lookup key kvs = of_nat n * 1024)"
proof (induction kvs arbitrary: x)
  case Nil
  then show ?case by (simp add: meminfo_text_def strstr_no_colon)
next
  case (Cons kv kvs)
  obtain k w n where kv: "kv = (k, w, n)" by (cases kv)
  have k: "CHR '':'' \<notin> set k" "n < 2 ^ 64" "meminfo_ok kvs"
    using Cons.prems(1) by (auto simp: meminfo_ok_def kv)
  define y where "y = replicate w SP @ show_nat n @ '' kB'' @ [NL]"
  have tx: "x @ meminfo_text (kv # kvs) = (x @ k) @ CHR '':'' # (y @ meminfo_text kvs)"
    by (simp add: meminfo_text_def kv y_def)
  have ends: "ends_with (x @ k) key \<longleftrightarrow> ends_with k key"
  proof (cases "x = []")
    case False
    then obtain x' where x': "x = x' @ [NL]" using Cons.prems(3) by (metis append_butlast_last_id)
    have "\<exists>a'. k = a' @ key" if "x' @ NL # k = a @ key" for a
      using that key(3) by (auto simp: append_eq_append_conv2 Cons_eq_append_conv)
    then show ?thesis by (auto simp: ends_with_iff x')
  qed simp
  have y: "CHR '':'' \<notin> set y" "last y = NL"
    using show_base_digits [of 10 "CHR '':''" n] by (auto simp: y_def digit_val_def)
  have xk: "CHR '':'' \<notin> set (x @ k)" using Cons.prems(2) k(1) by simp
  show ?case
  proof (cases "ends_with k key")
    case True
    have p: "key @ CHR '':'' # (y @ meminfo_text kvs)
        = key @ CHR '':'' # replicate w SP @ show_nat n @ '' kB'' @ (NL # meminfo_text kvs)"
      by (simp add: y_def)
    have "meminfo_lookup key (kv # kvs) = of_nat n * 1024" using True by (simp add: kv)
    with True k(2) p show ?thesis
      unfolding tx strstr_colon [OF key(1,2) xk] ends by (simp only: if_True option.case) blast
  next
    case False
    have "meminfo_lookup key (kv # kvs) = meminfo_lookup key kvs" using False by (simp add: kv)
    with Cons.IH [OF k(3) y(1)] y(2) False show ?thesis
      unfolding tx strstr_colon [OF key(1,2) xk] ends by (simp only: if_False disj_not1 simp_thms)
  qed
qed

text \<open>The refinement: scanning the text for the key is looking it up in the list.\<close>

lemma get_scaled_meminfo:
  assumes "CHR '':'' \<notin> set key" "key \<noteq> []" "NL \<notin> set key" and "meminfo_ok kvs"
  shows "get_scaled (meminfo_text kvs) (Some (key @ '':'')) = meminfo_lookup key kvs"
proof (cases "strstr (meminfo_text kvs) (key @ '':'')")
  case None
  with get_scaled_meminfo_tail [OF assms, of "[]"] show ?thesis by (simp add: get_scaled_def)
next
  case (Some p)
  with get_scaled_meminfo_tail [OF assms, of "[]"] obtain w n r where
    "p = key @ CHR '':'' # replicate w SP @ show_nat n @ '' kB'' @ r" "n < 2 ^ 64"
    "meminfo_lookup key kvs = of_nat n * 1024" by auto
  with get_scaled_value [of "meminfo_text kvs" key w n r] Some show ?thesis by simp
qed

text \<open>
  Memory: for a \<open>/proc/meminfo\<close> of lines \<open>Key: n kB\<close>, in any order, every field of the result
  is the value of its key in bytes (of the first line whose key ends like it, 0 if there is none),
  what is used and what is free make up the total, and from kernel 3.14 on \<open>user\<close> is the total
  without \<open>MemAvailable\<close>.
\<close>

theorem get_mem_s_spec:
  assumes f: "file_to_buffer K BUFSIZ ''/proc/meminfo'' = Inr (meminfo_text kvs)" and ok: "meminfo_ok kvs"
  shows "\<exists>m. glibtop_get_mem_s K server = Inr m
    \<and> mem_total m = meminfo_lookup ''MemTotal'' kvs \<and> mem_free m = meminfo_lookup ''MemFree'' kvs
    \<and> mem_used m + mem_free m = mem_total m
    \<and> mem_shared m = meminfo_lookup ''Shmem'' kvs \<and> mem_buffer m = meminfo_lookup ''Buffers'' kvs
    \<and> mem_cached m = meminfo_lookup ''Cached'' kvs + meminfo_lookup ''Slab'' kvs
    \<and> mem_user m = (if LINUX_VERSION_CODE 3 14 0 \<le> s_os_version_code server
        then mem_total m - meminfo_lookup ''MemAvailable'' kvs
        else mem_used m - mem_cached m - mem_buffer m)
    \<and> mem_flags m = sd (s_sysdeps (init_mem_s server)) F_MEM"
proof -
  note g = get_scaled_meminfo [OF _ _ _ ok]
  note keys = g [of "''MemTotal''"] g [of "''MemFree''"] g [of "''Shmem''"] g [of "''Buffers''"]
    g [of "''Cached''"] g [of "''Slab''"] g [of "''MemAvailable''"]
  show ?thesis
    using keys by (simp add: glibtop_get_mem_s_def f get_mem_buffer_def init_mem_s_def set_sysdeps_def Let_def)
qed

definition demo_meminfo :: "meminfo_line list" where
  "demo_meminfo = [(''MemTotal'', 8, 16000), (''MemFree'', 9, 4000), (''MemAvailable'', 4, 9000),
     (''Cached'', 9, 3000), (''SwapCached'', 5, 7), (''Slab'', 4, 20)]"

theorem get_mem_s_witness:
  "\<exists>m. glibtop_get_mem_s (file_kernel [(''/proc/meminfo'', meminfo_text demo_meminfo)])
       (glibtop_global_server\<lparr>s_os_version_code := LINUX_VERSION_CODE 6 1 0\<rparr>) = Inr m
     \<and> mem_total m = 16000 * 1024 \<and> mem_used m = 12000 * 1024 \<and> mem_cached m = 3020 * 1024
     \<and> mem_user m = 7000 * 1024"
proof -
  let ?K = "file_kernel [(''/proc/meminfo'', meminfo_text demo_meminfo)]"
  let ?s = "glibtop_global_server\<lparr>s_os_version_code := LINUX_VERSION_CODE 6 1 0\<rparr>"
  have d: "NUL \<notin> set (show_nat n)" for n
    using show_base_digits [of 10 NUL n] by (auto simp: digit_val_def)
  have "length (show_nat 16000) = 5" "length (show_nat 4000) = 4" "length (show_nat 9000) = 4"
    "length (show_nat 3000) = 4" "length (show_nat 7) = 1" "length (show_nat 20) = 2"
    by (simp_all add: show_base.simps)
  then have "length (meminfo_text demo_meminfo) < BUFSIZ" "NUL \<notin> set (meminfo_text demo_meminfo)"
    using d by (auto simp: meminfo_text_def demo_meminfo_def BUFSIZ_def)
  then have "file_to_buffer ?K BUFSIZ ''/proc/meminfo'' = Inr (meminfo_text demo_meminfo)"
    using file_kernel_buffer [of "[(''/proc/meminfo'', meminfo_text demo_meminfo)]"]
    by (simp add: file_to_buffer_def)
  moreover have "meminfo_ok demo_meminfo" by (simp add: meminfo_ok_def demo_meminfo_def)
  ultimately obtain m where m: "glibtop_get_mem_s ?K ?s = Inr m"
    "mem_total m = meminfo_lookup ''MemTotal'' demo_meminfo" "mem_free m = meminfo_lookup ''MemFree'' demo_meminfo"
    "mem_used m + mem_free m = mem_total m"
    "mem_cached m = meminfo_lookup ''Cached'' demo_meminfo + meminfo_lookup ''Slab'' demo_meminfo"
    "mem_user m = (if LINUX_VERSION_CODE 3 14 0 \<le> s_os_version_code ?s
        then mem_total m - meminfo_lookup ''MemAvailable'' demo_meminfo
        else mem_used m - mem_cached m - mem_buffer m)"
    using get_mem_s_spec [of ?K demo_meminfo ?s] by blast
  have "mem_used m = mem_total m - mem_free m" using m(4) by (simp add: algebra_simps)
  with m show ?thesis
    by (simp add: demo_meminfo_def ends_with_def LINUX_VERSION_CODE_def)
qed

end
