(* ===== verification/ProcInfo.thy ===== *)
theory ProcInfo
  imports SysStat
begin

unbundle bit_operations_syntax

text \<open>
  What the Linux port says about one process: \<open>procstate.c\<close>, \<open>procuid.c\<close>, \<open>proctime.c\<close>,
  \<open>procmem.c\<close>, \<open>prockernel.c\<close>, \<open>procsegment.c\<close>, \<open>procsignal.c\<close>, \<open>procio.c\<close>, \<open>procargs.c\<close> under
  \<open>sysdeps/linux\<close>, and \<open>sysdeps/common/procargs.c\<close>. The page size is an argument where the code
  calls \<open>getpagesize\<close>. A \<open>pid_t\<close> is an \<open>int\<close>.
\<close>

section \<open>procstate.c\<close>

abbreviation (input) "GLIBTOP_PROCESS_RUNNING \<equiv> 1 :: 32 word"
abbreviation (input) "GLIBTOP_PROCESS_INTERRUPTIBLE \<equiv> 2 :: 32 word"
abbreviation (input) "GLIBTOP_PROCESS_UNINTERRUPTIBLE \<equiv> 4 :: 32 word"
abbreviation (input) "GLIBTOP_PROCESS_ZOMBIE \<equiv> 8 :: 32 word"
abbreviation (input) "GLIBTOP_PROCESS_STOPPED \<equiv> 16 :: 32 word"
abbreviation (input) "GLIBTOP_PROCESS_SWAPPING \<equiv> 32 :: 32 word"
abbreviation (input) "GLIBTOP_PROCESS_DEAD \<equiv> 64 :: 32 word"

record glibtop_proc_state =
  ps_flags :: guint64
  ps_cmd :: string
  ps_state :: "32 word"
  ps_uid :: "32 word"
  ps_gid :: "32 word"
  ps_last_processor :: "32 word"

definition proc_state_zero :: glibtop_proc_state where
  "proc_state_zero = \<lparr>ps_flags = 0, ps_cmd = [], ps_state = 0, ps_uid = 0, ps_gid = 0, ps_last_processor = 0\<rparr>"

definition sysdeps_proc_state :: guint64 where "sysdeps_proc_state = flag 0 + flag 1"
definition sysdeps_proc_state_uid :: guint64 where "sysdeps_proc_state_uid = flag 2 + flag 3"

definition init_proc_state_s :: "glibtop \<Rightarrow> glibtop" where
  "init_proc_state_s server = set_sysdeps F_PROC_STATE (sysdeps_proc_state OR sysdeps_proc_state_uid) server"

fun process_state :: "string \<Rightarrow> 32 word" where
  \<comment> \<open>the \<open>switch\<close>; 0 where no case applies\<close>
  "process_state [] = 0"
| "process_state (c # p) =
     (if c = CHR ''R'' then GLIBTOP_PROCESS_RUNNING
      else if c = CHR ''Z'' then GLIBTOP_PROCESS_ZOMBIE
      else if c = CHR ''S'' then GLIBTOP_PROCESS_INTERRUPTIBLE
      else if c = CHR ''T'' then GLIBTOP_PROCESS_STOPPED
      else if c = CHR ''D'' then GLIBTOP_PROCESS_UNINTERRUPTIBLE
      else if c = CHR ''W'' then GLIBTOP_PROCESS_SWAPPING
      else if c = CHR ''X'' then GLIBTOP_PROCESS_DEAD
      else 0)"

definition glibtop_get_proc_state_s :: "kernel \<Rightarrow> int \<Rightarrow> glibtop_proc_state res" where
  "glibtop_get_proc_state_s K pid =
     (case k_stat K (proc_path pid []) of
        None \<Rightarrow> Inr proc_state_zero
      | Some (uid, gid) \<Rightarrow>
          (let buf = proc_state_zero\<lparr>ps_uid := uid, ps_gid := gid, ps_flags := sysdeps_proc_state_uid\<rparr> in
           case proc_stat_to_buffer K BUFSIZ pid of
             None \<Rightarrow> Inr buf
           | Some buffer \<Rightarrow>
               (case proc_stat_after_cmd buffer of
                  (None, _) \<Rightarrow> Inl (Crash ''next_token (NULL)'')
                | (Some p, buffer) \<Rightarrow>
                    (let p = next_token p;
                         buf = buf\<lparr>ps_state := process_state p\<rparr>;
                         p = skip_multiple_token p 36;
                         buf = buf\<lparr>ps_last_processor := atoi p\<rparr>
                     in case skip_token buffer of
                          [] \<Rightarrow> Inl (Exit ''Bad data in /proc/pid/stat'')
                        | c # p \<Rightarrow>
                            (if c \<noteq> CHR ''('' then Inl (Exit ''Bad data in /proc/pid/stat'')
                             else Inr (buf\<lparr>ps_cmd := g_strlcpy p 40,
                                         ps_flags := ps_flags buf OR sysdeps_proc_state\<rparr>))))))"

section \<open>procuid.c\<close>

record glibtop_proc_uid =
  pu_flags :: guint64
  pu_uid :: gint32
  pu_euid :: gint32
  pu_gid :: gint32
  pu_egid :: gint32
  pu_pid :: gint32
  pu_ppid :: gint32
  pu_pgrp :: gint32
  pu_session :: gint32
  pu_tty :: gint32
  pu_tpgid :: gint32
  pu_priority :: gint32
  pu_nice :: gint32

definition proc_uid_zero :: glibtop_proc_uid where
  "proc_uid_zero = \<lparr>pu_flags = 0, pu_uid = 0, pu_euid = 0, pu_gid = 0, pu_egid = 0, pu_pid = 0,
     pu_ppid = 0, pu_pgrp = 0, pu_session = 0, pu_tty = 0, pu_tpgid = 0, pu_priority = 0, pu_nice = 0\<rparr>"

definition sysdeps_proc_uid :: guint64 where
  "sysdeps_proc_uid = flag 0 + flag 1 + flag 2 + flag 3"

definition sysdeps_proc_uid_stat :: guint64 where
  "sysdeps_proc_uid_stat =
     flag 8 + flag 9 + flag 10 + flag 11 + flag 12 + flag 13 + flag 14 + flag 15"

definition init_proc_uid_s :: "glibtop \<Rightarrow> glibtop" where
  "init_proc_uid_s server = set_sysdeps F_PROC_UID (sysdeps_proc_uid OR sysdeps_proc_uid_stat) server"

text \<open>\<open>strtol\<close> whose value goes into a \<open>gint32\<close>.\<close>

definition strtol32 :: "string \<Rightarrow> gint32 \<times> string" where
  "strtol32 p = (let (v, p) = strtol 0 p in (ucast v, p))"

text \<open>The part that reads \<open>/proc/pid/status\<close>; the flag says whether it came to the end.\<close>

definition proc_uid_status :: "string \<Rightarrow> glibtop_proc_uid \<times> bool" where
  "proc_uid_status buffer =
     (let buf = proc_uid_zero in
      case strstr buffer (NL # ''Pid:'') of
        None \<Rightarrow> (buf, False)
      | Some p \<Rightarrow>
          (let p = skip_token p;
               (pid, p) = strtol32 p;
               p = skip_token p;
               (ppid, p) = strtol32 p;
               buf = buf\<lparr>pu_pid := pid, pu_ppid := ppid\<rparr>
           in case strstr p (NL # ''Uid:'') of
                None \<Rightarrow> (buf, False)
              | Some p \<Rightarrow>
                  (let p = skip_token p;
                       (uid, p) = strtol32 p;
                       (euid, p) = strtol32 p;
                       buf = buf\<lparr>pu_uid := uid, pu_euid := euid\<rparr>
                   in case strstr p (NL # ''Gid:'') of
                        None \<Rightarrow> (buf, False)
                      | Some p \<Rightarrow>
                          (let p = skip_token p;
                               (gid, p) = strtol32 p;
                               (egid, p) = strtol32 p
                           in (buf\<lparr>pu_gid := gid, pu_egid := egid, pu_flags := sysdeps_proc_uid\<rparr>, True)))))"

text \<open>The part that reads \<open>/proc/pid/stat\<close>, from behind the command.\<close>

definition proc_uid_stat :: "glibtop \<Rightarrow> string \<Rightarrow> glibtop_proc_uid \<Rightarrow> glibtop_proc_uid" where
  "proc_uid_stat server p buf =
     (let p = skip_multiple_token p 2;
          (pgrp, p) = strtol32 p;
          (session, p) = strtol32 p;
          (tty, p) = strtol32 p;
          (tpgid, p) = strtol32 p;
          p = skip_multiple_token p 9;
          (priority, p) = strtol32 p;
          (nice, p) = strtol32 p;
          tty = (if tty = 0 then - 1 else tty);
          (priority, nice, tty) =
            (if s_os_version_code server < LINUX_VERSION_CODE 1 3 39
             then (2 * 15 - priority, 15 - nice, tty)
             else if s_os_version_code server < LINUX_VERSION_CODE 1 1 30 \<and> tty \<noteq> - 1
             then (priority, nice, 4 * 0x100 + tty)
             else (priority, nice, tty))
      in buf\<lparr>pu_pgrp := pgrp, pu_session := session, pu_tty := tty, pu_tpgid := tpgid,
            pu_priority := priority, pu_nice := nice,
            pu_flags := pu_flags buf OR sysdeps_proc_uid_stat\<rparr>)"

definition glibtop_get_proc_uid_s :: "kernel \<Rightarrow> glibtop \<Rightarrow> int \<Rightarrow> glibtop_proc_uid" where
  "glibtop_get_proc_uid_s K server pid =
     (case proc_status_to_buffer K BUFSIZ pid of
        None \<Rightarrow> proc_uid_zero
      | Some buffer \<Rightarrow>
          (case proc_uid_status buffer of
             (buf, False) \<Rightarrow> buf
           | (buf, True) \<Rightarrow>
               (case proc_stat_to_buffer K BUFSIZ pid of
                  None \<Rightarrow> buf
                | Some buffer \<Rightarrow>
                    (case proc_stat_after_cmd buffer of
                       (None, _) \<Rightarrow> buf
                     | (Some p, _) \<Rightarrow> proc_uid_stat server p buf))))"

section \<open>proctime.c\<close>

record glibtop_proc_time =
  pt_flags :: guint64
  pt_start_time :: guint64
  pt_rtime :: guint64
  pt_utime :: guint64
  pt_stime :: guint64
  pt_cutime :: guint64
  pt_cstime :: guint64
  pt_timeout :: guint64
  pt_it_real_value :: guint64
  pt_frequency :: guint64
  pt_xcpu_utime :: "nat \<Rightarrow> guint64"
  pt_xcpu_stime :: "nat \<Rightarrow> guint64"

definition proc_time_zero :: glibtop_proc_time where
  "proc_time_zero = \<lparr>pt_flags = 0, pt_start_time = 0, pt_rtime = 0, pt_utime = 0, pt_stime = 0, pt_cutime = 0,
     pt_cstime = 0, pt_timeout = 0, pt_it_real_value = 0, pt_frequency = 0,
     pt_xcpu_utime = (\<lambda>_. 0), pt_xcpu_stime = (\<lambda>_. 0)\<rparr>"

definition sysdeps_proc_time :: guint64 where
  \<comment> \<open>UTIME, CUTIME, RTIME, STIME, CSTIME, FREQUENCY, TIMEOUT, IT_REAL_VALUE, START_TIME\<close>
  "sysdeps_proc_time =
     flag 2 + flag 4 + flag 1 + flag 3 + flag 5 + flag 8 + flag 6 + flag 7 + flag 0"

definition sysdeps_proc_time_smp :: guint64 where "sysdeps_proc_time_smp = flag 9 + flag 10"

definition init_proc_time_s :: "glibtop \<Rightarrow> glibtop" where
  "init_proc_time_s server =
     set_sysdeps F_PROC_TIME
       (sysdeps_proc_time OR (if s_ncpu server \<noteq> 0 then sysdeps_proc_time_smp else 0)) server"

text \<open>The fields of \<open>/proc/pid/stat\<close>, from behind the command; \<open>boot_time\<close> is what
  \<open>get_boot_time\<close> returns.\<close>

definition proc_time_stat :: "guint64 \<Rightarrow> string \<Rightarrow> glibtop_proc_time \<times> string" where
  "proc_time_stat boot_time p =
     (let p = skip_multiple_token p 11;
          (utime, p) = strtoull 0 p;
          (stime, p) = strtoull 0 p;
          (cutime, p) = strtoull 0 p;
          (cstime, p) = strtoull 0 p;
          p = skip_multiple_token p 3;
          (it_real_value, p) = strtoull 0 p;
          (start, p) = strtoull 0 p
      in (proc_time_zero\<lparr>pt_utime := utime, pt_stime := stime, pt_rtime := utime + stime,
            pt_cutime := cutime, pt_cstime := cstime, pt_it_real_value := it_real_value,
            pt_start_time := boot_time + start div 100, pt_frequency := 100,
            pt_flags := sysdeps_proc_time\<rparr>, p))"

text \<open>
  \<open>/proc/pid/cpu\<close> is read into the same buffer, and the pointer keeps its place there. The
  memory behind the NUL of the new text still holds the old one; \<open>reread\<close> is the string the
  pointer now points at, \<open>k\<close> its index.
\<close>

definition reread :: "string \<Rightarrow> string \<Rightarrow> nat \<Rightarrow> string" where
  "reread new old k = c_str (drop k (new @ NUL # drop (Suc (length new)) (old @ [NUL])))"

fun proc_xcpu_loop :: "nat \<Rightarrow> nat \<Rightarrow> string \<Rightarrow> glibtop_proc_time \<Rightarrow> glibtop_proc_time res" where
  "proc_xcpu_loop 0 i p buf = Inr buf"
| "proc_xcpu_loop (Suc left) i p buf =
     (case p of
        [] \<Rightarrow> Inl (Crash ''proctime: p + 1 behind the NUL'')
      | _ # p1 \<Rightarrow>
          (if \<not> check_cpu_line p1 i then Inr buf
           else if GLIBTOP_NCPU \<le> i then Inl (Crash ''xcpu index'')
           else (let p = skip_token p;
                     (utime, p) = strtoull 0 p;
                     (stime, p) = strtoull 0 p
                 in proc_xcpu_loop left (Suc i) p
                      (buf\<lparr>pt_xcpu_utime := (pt_xcpu_utime buf)(i := utime),
                           pt_xcpu_stime := (pt_xcpu_stime buf)(i := stime)\<rparr>))))"

text \<open>\<open>boot_time\<close> is the cache of \<open>get_boot_time\<close>.\<close>

definition glibtop_get_proc_time_s ::
  "kernel \<Rightarrow> glibtop \<Rightarrow> guint64 \<Rightarrow> int \<Rightarrow> glibtop_proc_time res" where
  "glibtop_get_proc_time_s K server boot_time pid =
     (case proc_stat_to_buffer K BUFSIZ pid of
        None \<Rightarrow> Inr proc_time_zero
      | Some buffer \<Rightarrow>
          (case proc_stat_after_cmd buffer of
             (None, _) \<Rightarrow> Inr proc_time_zero
           | (Some p0, cmd) \<Rightarrow>
               bind_res (get_boot_time K boot_time) (\<lambda>boot_time.
               let (buf, p) = proc_time_stat boot_time p0 in
               if s_ncpu server = 0 then Inr buf
               else case proc_file_to_buffer K BUFSIZ ''/cpu'' pid of
                 None \<Rightarrow> Inr buf
               | Some new \<Rightarrow>
                   (let p = reread new (cmd @ NUL # p0) (length buffer - length p);
                        p = skip_multiple_token p 3
                    in bind_res (proc_xcpu_loop (nat (s_ncpu server + 1)) 0 p buf) (\<lambda>buf.
                         Inr (buf\<lparr>pt_flags := pt_flags buf OR sysdeps_proc_time_smp\<rparr>))))))"

section \<open>procmem.c\<close>

record glibtop_proc_mem =
  pm_flags :: guint64
  pm_size :: guint64
  pm_vsize :: guint64
  pm_resident :: guint64
  pm_share :: guint64
  pm_rss :: guint64
  pm_rss_rlim :: guint64

definition proc_mem_zero :: glibtop_proc_mem where
  "proc_mem_zero = \<lparr>pm_flags = 0, pm_size = 0, pm_vsize = 0, pm_resident = 0, pm_share = 0, pm_rss = 0,
     pm_rss_rlim = 0\<rparr>"

definition sysdeps_proc_mem :: guint64 where "sysdeps_proc_mem = flag 0 + flag 2 + flag 3"
definition sysdeps_proc_mem_pss :: guint64 where "sysdeps_proc_mem_pss = flag 4"

definition init_proc_mem_s :: "glibtop \<Rightarrow> glibtop" where
  "init_proc_mem_s server =
     set_sysdeps F_PROC_MEM
       (sysdeps_proc_mem OR (if LINUX_VERSION_CODE 2 6 25 \<le> s_os_version_code server
                             then sysdeps_proc_mem_pss else 0)) server"

fun get_pss_loop :: "string list \<Rightarrow> guint64 \<Rightarrow> guint64" where
  "get_pss_loop [] pss = pss"
| "get_pss_loop (line # lines) pss =
     (if strncmp_eq line ''Pss:'' then get_pss_loop lines (pss + get_scaled (drop 4 line) None)
      else get_pss_loop lines pss)"

definition get_pss :: "kernel \<Rightarrow> int \<Rightarrow> guint64 res" where
  \<comment> \<open>not called: its call is disabled\<close>
  "get_pss K pid =
     (case fopen_lines K (''/proc/'' @ show_nat (unat (word_of_int pid :: 32 word)) @ ''/smaps'') of
        None \<Rightarrow> Inl (Exit ''Cannot open /proc/pid/smaps'')
      | Some lines \<Rightarrow> Inr (get_pss_loop lines 0))"

definition glibtop_get_proc_mem_s :: "kernel \<Rightarrow> guint64 \<Rightarrow> int \<Rightarrow> glibtop_proc_mem" where
  "glibtop_get_proc_mem_s K pagesize pid =
     (case proc_statm_to_buffer K BUFSIZ pid of
        None \<Rightarrow> proc_mem_zero
      | Some buffer \<Rightarrow>
          (let (size', p) = strtoull 0 buffer;
               (resident, p) = strtoull 0 p;
               (share, p) = strtoull 0 p
           in \<lparr>pm_flags = sysdeps_proc_mem, pm_size = size' * pagesize, pm_vsize = size' * pagesize,
               pm_resident = resident * pagesize, pm_share = share * pagesize,
               pm_rss = resident * pagesize, pm_rss_rlim = - 1\<rparr>))"

section \<open>prockernel.c, procsegment.c, procsignal.c\<close>

record glibtop_proc_kernel =
  pk_flags :: guint64
  pk_k_flags :: guint64
  pk_min_flt :: guint64
  pk_maj_flt :: guint64
  pk_cmin_flt :: guint64
  pk_cmaj_flt :: guint64
  pk_kstk_esp :: guint64
  pk_kstk_eip :: guint64
  pk_nwchan :: guint64
  pk_wchan :: string

definition proc_kernel_zero :: glibtop_proc_kernel where
  "proc_kernel_zero = \<lparr>pk_flags = 0, pk_k_flags = 0, pk_min_flt = 0, pk_maj_flt = 0, pk_cmin_flt = 0,
     pk_cmaj_flt = 0, pk_kstk_esp = 0, pk_kstk_eip = 0, pk_nwchan = 0, pk_wchan = []\<rparr>"

definition sysdeps_proc_kernel :: guint64 where
  "sysdeps_proc_kernel =
     flag 0 + flag 1 + flag 2 + flag 3 + flag 4 + flag 5 + flag 6 + flag 7 + flag 8"

definition init_proc_kernel_s :: "glibtop \<Rightarrow> glibtop" where
  "init_proc_kernel_s server = set_sysdeps F_PROC_KERNEL sysdeps_proc_kernel server"

definition glibtop_get_proc_kernel_s :: "kernel \<Rightarrow> int \<Rightarrow> glibtop_proc_kernel" where
  "glibtop_get_proc_kernel_s K pid =
     (case proc_stat_to_buffer K BUFSIZ pid of
        None \<Rightarrow> proc_kernel_zero
      | Some buffer \<Rightarrow>
          (case proc_stat_after_cmd buffer of
             (None, _) \<Rightarrow> proc_kernel_zero
           | (Some p, _) \<Rightarrow>
               (let p = skip_multiple_token p 6;
                    (k_flags, p) = strtoull 0 p;
                    (min_flt, p) = strtoull 0 p;
                    (cmin_flt, p) = strtoull 0 p;
                    (maj_flt, p) = strtoull 0 p;
                    (cmaj_flt, p) = strtoull 0 p;
                    p = skip_multiple_token p 15;
                    (kstk_esp, p) = strtoull 0 p;
                    (kstk_eip, p) = strtoull 0 p;
                    p = skip_multiple_token p 4;
                    (nwchan, p) = strtoull 0 p;
                    (_, wchan) = try_file_to_buffer K 40 (proc_path pid ''/wchan'')
                in \<lparr>pk_flags = sysdeps_proc_kernel, pk_k_flags = k_flags, pk_min_flt = min_flt,
                    pk_maj_flt = maj_flt, pk_cmin_flt = cmin_flt, pk_cmaj_flt = cmaj_flt,
                    pk_kstk_esp = kstk_esp, pk_kstk_eip = kstk_eip, pk_nwchan = nwchan,
                    pk_wchan = wchan\<rparr>)))"

record glibtop_proc_segment =
  pg_flags :: guint64
  pg_text_rss :: guint64
  pg_shlib_rss :: guint64
  pg_data_rss :: guint64
  pg_stack_rss :: guint64
  pg_dirty_size :: guint64
  pg_start_code :: guint64
  pg_end_code :: guint64
  pg_start_stack :: guint64

definition proc_segment_zero :: glibtop_proc_segment where
  "proc_segment_zero = \<lparr>pg_flags = 0, pg_text_rss = 0, pg_shlib_rss = 0, pg_data_rss = 0, pg_stack_rss = 0,
     pg_dirty_size = 0, pg_start_code = 0, pg_end_code = 0, pg_start_stack = 0\<rparr>"

definition sysdeps_proc_segment :: guint64 where "sysdeps_proc_segment = flag 5 + flag 6 + flag 7"
definition sysdeps_proc_segment_statm :: guint64 where
  "sysdeps_proc_segment_statm = flag 0 + flag 2 + flag 4"

definition init_proc_segment_s :: "glibtop \<Rightarrow> glibtop" where
  "init_proc_segment_s server =
     set_sysdeps F_PROC_SEGMENT (sysdeps_proc_segment OR sysdeps_proc_segment_statm) server"

definition glibtop_get_proc_segment_s :: "kernel \<Rightarrow> guint64 \<Rightarrow> int \<Rightarrow> glibtop_proc_segment" where
  "glibtop_get_proc_segment_s K pagesize pid =
     (case proc_stat_to_buffer K BUFSIZ pid of
        None \<Rightarrow> proc_segment_zero
      | Some buffer \<Rightarrow>
          (case proc_stat_after_cmd buffer of
             (None, _) \<Rightarrow> proc_segment_zero
           | (Some p, _) \<Rightarrow>
               (let p = skip_multiple_token p 23;
                    (start_code, p) = strtoull 0 p;
                    (end_code, p) = strtoull 0 p;
                    (start_stack, p) = strtoull 0 p;
                    buf = proc_segment_zero\<lparr>pg_start_code := start_code, pg_end_code := end_code,
                            pg_start_stack := start_stack, pg_flags := sysdeps_proc_segment\<rparr>
                in case proc_statm_to_buffer K BUFSIZ pid of
                     None \<Rightarrow> buf
                   | Some buffer \<Rightarrow>
                       (let p = skip_multiple_token buffer 3;
                            (text_rss, p) = strtoull 0 p;
                            (shlib_rss, p) = strtoull 0 p;
                            (data_rss, p) = strtoull 0 p;
                            (dirty_size, p) = strtoull 0 p
                        in buf\<lparr>pg_text_rss := text_rss * pagesize, pg_shlib_rss := shlib_rss * pagesize,
                              pg_data_rss := data_rss * pagesize, pg_dirty_size := dirty_size * pagesize,
                              pg_flags := pg_flags buf OR sysdeps_proc_segment_statm\<rparr>))))"

text \<open>Only the first element of each array is written; the second stays 0.\<close>

record glibtop_proc_signal =
  pi_flags :: guint64
  pi_signal :: guint64
  pi_blocked :: guint64
  pi_sigignore :: guint64
  pi_sigcatch :: guint64

definition proc_signal_zero :: glibtop_proc_signal where
  "proc_signal_zero = \<lparr>pi_flags = 0, pi_signal = 0, pi_blocked = 0, pi_sigignore = 0, pi_sigcatch = 0\<rparr>"

definition sysdeps_proc_signal :: guint64 where
  "sysdeps_proc_signal = flag 0 + flag 1 + flag 2 + flag 3"

definition init_proc_signal_s :: "glibtop \<Rightarrow> glibtop" where
  "init_proc_signal_s server = set_sysdeps F_PROC_SIGNAL sysdeps_proc_signal server"

definition glibtop_get_proc_signal_s :: "kernel \<Rightarrow> int \<Rightarrow> glibtop_proc_signal" where
  "glibtop_get_proc_signal_s K pid =
     (case proc_stat_to_buffer K BUFSIZ pid of
        None \<Rightarrow> proc_signal_zero
      | Some buffer \<Rightarrow>
          (case proc_stat_after_cmd buffer of
             (None, _) \<Rightarrow> proc_signal_zero
           | (Some p, _) \<Rightarrow>
               (let p = skip_multiple_token p 28;
                    (signal, p) = strtoull 0 p;
                    (blocked, p) = strtoull 0 p;
                    (sigignore, p) = strtoull 0 p;
                    (sigcatch, p) = strtoull 0 p
                in \<lparr>pi_flags = sysdeps_proc_signal, pi_signal = signal, pi_blocked = blocked,
                    pi_sigignore = sigignore, pi_sigcatch = sigcatch\<rparr>)))"

section \<open>procio.c\<close>

record glibtop_proc_io =
  pio_flags :: guint64
  pio_disk_rchar :: guint64
  pio_disk_wchar :: guint64
  pio_disk_rbytes :: guint64
  pio_disk_wbytes :: guint64

definition proc_io_zero :: glibtop_proc_io where
  "proc_io_zero = \<lparr>pio_flags = 0, pio_disk_rchar = 0, pio_disk_wchar = 0, pio_disk_rbytes = 0,
     pio_disk_wbytes = 0\<rparr>"

definition sysdeps_proc_io :: guint64 where
  "sysdeps_proc_io = flag 0 + flag 1 + flag 2 + flag 3"

definition init_proc_io_s :: "glibtop \<Rightarrow> glibtop" where
  "init_proc_io_s server = set_sysdeps F_PROC_IO sysdeps_proc_io server"

definition glibtop_get_proc_io_s :: "kernel \<Rightarrow> glibtop \<Rightarrow> int \<Rightarrow> glibtop_proc_io" where
  "glibtop_get_proc_io_s K server pid =
     (if s_os_version_code server < LINUX_VERSION_CODE 2 6 20 then proc_io_zero
      else case proc_file_to_buffer K BUFSIZ ''/io'' pid of
        None \<Rightarrow> proc_io_zero
      | Some buffer \<Rightarrow>
          (let p = skip_token buffer;
               (rchar, p) = g_ascii_strtoull 10 p;
               p = skip_line p;
               p = skip_token p;
               (wchar, p) = g_ascii_strtoull 10 p;
               p = skip_line p;
               p = skip_line p;
               p = skip_line p;
               p = skip_token p;
               (rbytes, p) = g_ascii_strtoull 10 p;
               p = skip_line p;
               p = skip_token p;
               (wbytes, p) = g_ascii_strtoull 10 p
           in \<lparr>pio_flags = sysdeps_proc_io, pio_disk_rchar = rchar, pio_disk_wchar = wchar,
               pio_disk_rbytes = rbytes, pio_disk_wbytes = wbytes\<rparr>))"

section \<open>procargs.c\<close>

text \<open>\<open>g_file_get_contents\<close>: all bytes of the file; it fails when a \<open>read\<close> fails, an
  interrupted one too (it reads through stdio).\<close>

fun contents_loop :: "rdev list \<Rightarrow> string option" where
  "contents_loop [] = Some []"
| "contents_loop (Chunk c # evs) = (if c = [] then Some [] else map_option ((@) c) (contents_loop evs))"
| "contents_loop (_ # evs) = None"

definition g_file_get_contents :: "kernel \<Rightarrow> string \<Rightarrow> string option" where
  "g_file_get_contents K path = Option.bind (k_read K path) contents_loop"

record glibtop_proc_args =
  pa_flags :: guint64
  pa_size :: guint64

definition sysdeps_proc_args :: guint64 where "sysdeps_proc_args = flag 0"

definition init_proc_args_s :: "glibtop \<Rightarrow> glibtop" where
  "init_proc_args_s server = set_sysdeps F_PROC_ARGS sysdeps_proc_args server"

text \<open>With the block it returns: \<open>g_file_get_contents\<close> puts a NUL behind the contents, and the
  truncated block has \<open>max_len\<close> bytes.\<close>

definition glibtop_get_proc_args_s ::
  "kernel \<Rightarrow> int \<Rightarrow> 32 word \<Rightarrow> glibtop_proc_args \<times> string option" where
  "glibtop_get_proc_args_s K pid max_len =
     (case g_file_get_contents K (proc_path pid ''/cmdline'') of
        None \<Rightarrow> (\<lparr>pa_flags = 0, pa_size = 0\<rparr>, None)
      | Some args \<Rightarrow>
          (let n = unat max_len;
               (block, len) =
                 (if n \<noteq> 0 \<and> n < length args then (take (n - 1) args @ [NUL], n)
                  else (args @ [NUL], length args))
           in (\<lparr>pa_flags = sysdeps_proc_args, pa_size = of_nat len\<rparr>, Some block)))"

function split_args0 :: "string \<Rightarrow> nat \<Rightarrow> string list" where
  \<comment> \<open>\<open>args0\<close> from \<open>arg\<close> on, and how many bytes are left before \<open>args0 + size\<close>\<close>
  "split_args0 args0 n =
     (if n = 0 then []
      else c_str args0 # split_args0 (drop (length (c_str args0) + 1) args0) (n - (length (c_str args0) + 1)))"
  by pat_completeness auto
termination
  by (relation "measure (\<lambda>(args0, n). n)") auto

declare split_args0.simps [simp del]

text \<open>\<open>args_l\<close> is the stub \<open>glibtop_get_proc_args_l\<close>, which calls the getter of the port or a server.
  The NULL at the end of the result is left out.\<close>

definition glibtop_get_proc_argv_l ::
  "(int \<Rightarrow> 32 word \<Rightarrow> (glibtop_proc_args \<times> string option) res) \<Rightarrow> int \<Rightarrow> 32 word \<Rightarrow> string list res" where
  "glibtop_get_proc_argv_l args_l pid max_len =
     bind_res (args_l pid max_len) (\<lambda>(buf, args0).
       case args0 of
         None \<Rightarrow> if pa_size buf = 0 then Inr [] else Inl (Crash ''strlen of a pointer near NULL'')
       | Some args0 \<Rightarrow> Inr (split_args0 args0 (unat (pa_size buf))))"

section \<open>What the functions return\<close>

text \<open>
  \<open>stat_file K pid cmd rest\<close>: the buffer holds a line of \<open>/proc/pid/stat\<close> for a process whose name
  is \<open>cmd\<close>, any string: it may contain blanks and parentheses. \<open>field rest k\<close> is the field with
  the number \<open>k\<close> in the kernel's documentation; the third is the first one behind the name.
\<close>

definition stat_file :: "kernel \<Rightarrow> int \<Rightarrow> string \<Rightarrow> string \<Rightarrow> bool" where
  "stat_file K pid cmd rest \<longleftrightarrow>
     proc_stat_to_buffer K BUFSIZ pid = Some (show_int pid @ '' ('' @ cmd @ '')'' @ rest)
     \<and> CHR '')'' \<notin> set rest"

definition field :: "string \<Rightarrow> nat \<Rightarrow> string" where
  "field rest k = words rest ! (k - 3)"

lemma proc_stat_after_cmd_file:
  assumes "CHR '')'' \<notin> set rest"
  shows "proc_stat_after_cmd (show_int pid @ '' ('' @ cmd @ '')'' @ rest)
    = (Some rest, show_int pid @ '' ('' @ cmd)"
proof -
  have "strrchr ((show_int pid @ '' ('' @ cmd) @ CHR '')'' # rest) (CHR '')'') = Some (CHR '')'' # rest)"
    using assms by (rule strrchr_last)
  then show ?thesis by (simp add: proc_stat_after_cmd_def)
qed

lemma stat_fileE:
  assumes "stat_file K pid cmd rest"
  obtains line where "proc_stat_to_buffer K BUFSIZ pid = Some line"
    "proc_stat_after_cmd line = (Some rest, show_int pid @ '' ('' @ cmd)"
  using assms proc_stat_after_cmd_file [of rest pid cmd] by (auto simp only: stat_file_def)

lemma hd_drop_field: "k < length xs \<Longrightarrow> hd (drop k xs) = xs ! k"
  by (rule hd_drop_conv_nth)

lemma drop_ne: "k < length xs \<Longrightarrow> drop k xs \<noteq> []"
  by simp

lemma tl_drop_Suc: "tl (drop k xs) = drop (Suc k) xs"
  by (simp add: drop_Suc tl_drop)

lemmas field_simps' = hd_drop_field drop_ne tl_drop_Suc

lemma proc_xcpu_loop_fields:
  "proc_xcpu_loop left i p b = Inr b' \<Longrightarrow> \<exists>us ss. b' = b\<lparr>pt_xcpu_utime := us, pt_xcpu_stime := ss\<rparr>"
proof (induction left arbitrary: i p b)
  case 0
  then show ?case by (intro exI [of _ "pt_xcpu_utime b"] exI [of _ "pt_xcpu_stime b"]) simp
next
  case (Suc left)
  show ?case
  proof (cases p)
    case (Cons c p1)
    show ?thesis
    proof (cases "check_cpu_line p1 i")
      case False
      with Suc.prems Cons show ?thesis by (intro exI [of _ "pt_xcpu_utime b"] exI [of _ "pt_xcpu_stime b"]) simp
    next
      case True
      with Suc.prems Cons obtain p2 us ss where
        "proc_xcpu_loop left (Suc i) p2 (b\<lparr>pt_xcpu_utime := us, pt_xcpu_stime := ss\<rparr>) = Inr b'"
        by (auto simp: Let_def case_prod_unfold split: if_splits)
      from Suc.IH [OF this] show ?thesis by auto
    qed
  qed (use Suc.prems in simp)
qed

text \<open>
  C13. The counters of a process: for any name the process has, the getters for the times, the
  kernel data, the segments and the signals return the fields of \<open>/proc/pid/stat\<close> with the
  numbers that the kernel documents (14 \<open>utime\<close>, 15 \<open>stime\<close>, 22 \<open>starttime\<close>, \<dots>). With one processor, and on
  kernels without \<open>/proc/pid/cpu\<close>, the times of the single processors are 0; where this file is there, whatever is in it, a getter
  for the times that returns has the same totals.
\<close>

theorem stat_getters:
  assumes sf: "stat_file K pid cmd rest" and len: "33 \<le> length (words rest)"
    and num: "\<forall>k\<in>{9..17} \<union> {21, 22} \<union> {26..35}. is_num (field rest k)"
    and boot: "get_boot_time K bt = Inr boot"
    and totals: "totals = proc_time_zero
        \<lparr>pt_utime := num (field rest 14), pt_stime := num (field rest 15),
         pt_rtime := num (field rest 14) + num (field rest 15), pt_cutime := num (field rest 16),
         pt_cstime := num (field rest 17), pt_it_real_value := num (field rest 21),
         pt_start_time := boot + num (field rest 22) div 100, pt_frequency := 100,
         pt_flags := sysdeps_proc_time\<rparr>"
  shows "(s_ncpu server = 0 \<or> proc_file_to_buffer K BUFSIZ ''/cpu'' pid = None \<longrightarrow>
          glibtop_get_proc_time_s K server bt pid = Inr totals)
    \<and> (\<forall>b. glibtop_get_proc_time_s K server bt pid = Inr b \<longrightarrow>
          (\<exists>us ss fl. b = totals\<lparr>pt_xcpu_utime := us, pt_xcpu_stime := ss, pt_flags := sysdeps_proc_time OR fl\<rparr>))
    \<and> (\<exists>w. glibtop_get_proc_kernel_s K pid = \<lparr>pk_flags = sysdeps_proc_kernel,
         pk_k_flags = num (field rest 9), pk_min_flt = num (field rest 10), pk_maj_flt = num (field rest 12),
         pk_cmin_flt = num (field rest 11), pk_cmaj_flt = num (field rest 13),
         pk_kstk_esp = num (field rest 29), pk_kstk_eip = num (field rest 30),
         pk_nwchan = num (field rest 35), pk_wchan = w\<rparr>)
    \<and> glibtop_get_proc_signal_s K pid = \<lparr>pi_flags = sysdeps_proc_signal,
         pi_signal = num (field rest 31), pi_blocked = num (field rest 32),
         pi_sigignore = num (field rest 33), pi_sigcatch = num (field rest 34)\<rparr>
    \<and> pg_start_code (glibtop_get_proc_segment_s K pagesize pid) = num (field rest 26)
    \<and> pg_end_code (glibtop_get_proc_segment_s K pagesize pid) = num (field rest 27)
    \<and> pg_start_stack (glibtop_get_proc_segment_s K pagesize pid) = num (field rest 28)"
proof -
  obtain line where st: "proc_stat_to_buffer K BUFSIZ pid = Some line"
    and af: "proc_stat_after_cmd line = (Some rest, show_int pid @ '' ('' @ cmd)"
    using sf by (rule stat_fileE)
  have n: "is_num (words rest ! (k - 3))" if "k \<in> {9..17} \<union> {21, 22} \<union> {26..35}" for k
    using num that by (auto simp: field_def)
  note nums = n [of 9] n [of 10] n [of 11] n [of 12] n [of 13] n [of 14] n [of 15] n [of 16] n [of 17]
    n [of 21] n [of 22] n [of 26] n [of 27] n [of 28] n [of 29] n [of 30] n [of 31] n [of 32] n [of 33]
    n [of 34] n [of 35]
  note step = ctext field_simps' Let_def case_prod_unfold field_def
  have t: "fst (proc_time_stat boot rest) = totals"
    using nums len by (simp add: totals proc_time_stat_def step)
  have z: "totals = totals\<lparr>pt_xcpu_utime := pt_xcpu_utime totals, pt_xcpu_stime := pt_xcpu_stime totals,
      pt_flags := sysdeps_proc_time OR 0\<rparr>" by (simp add: totals)
  have fl: "pt_flags totals = sysdeps_proc_time" by (simp add: totals)
  have time: "s_ncpu server = 0 \<or> proc_file_to_buffer K BUFSIZ ''/cpu'' pid = None \<longrightarrow>
      glibtop_get_proc_time_s K server bt pid = Inr totals"
    using t by (auto simp: glibtop_get_proc_time_s_def st af boot case_prod_unfold Let_def)
  have smp: "\<exists>us ss fl. b = totals\<lparr>pt_xcpu_utime := us, pt_xcpu_stime := ss, pt_flags := sysdeps_proc_time OR fl\<rparr>"
    if g: "glibtop_get_proc_time_s K server bt pid = Inr b" for b
  proof (cases "s_ncpu server = 0 \<or> proc_file_to_buffer K BUFSIZ ''/cpu'' pid = None")
    case True
    with time g z show ?thesis by (metis sum.inject(2))
  next
    case False
    then obtain new b' left i p where "proc_xcpu_loop left i p totals = Inr b'" "b = b'\<lparr>pt_flags := pt_flags b' OR sysdeps_proc_time_smp\<rparr>"
      using g t by (auto simp: glibtop_get_proc_time_s_def st af boot case_prod_unfold Let_def bind_res_Inr_iff)
    moreover from this(1) obtain us ss where "b' = totals\<lparr>pt_xcpu_utime := us, pt_xcpu_stime := ss\<rparr>"
      using proc_xcpu_loop_fields by blast
    ultimately show ?thesis using fl by auto
  qed
  moreover have "\<exists>w. glibtop_get_proc_kernel_s K pid = \<lparr>pk_flags = sysdeps_proc_kernel,
         pk_k_flags = num (field rest 9), pk_min_flt = num (field rest 10), pk_maj_flt = num (field rest 12),
         pk_cmin_flt = num (field rest 11), pk_cmaj_flt = num (field rest 13),
         pk_kstk_esp = num (field rest 29), pk_kstk_eip = num (field rest 30),
         pk_nwchan = num (field rest 35), pk_wchan = w\<rparr>"
    using nums len by (simp add: glibtop_get_proc_kernel_s_def st af step)
  moreover have "glibtop_get_proc_signal_s K pid = \<lparr>pi_flags = sysdeps_proc_signal,
         pi_signal = num (field rest 31), pi_blocked = num (field rest 32),
         pi_sigignore = num (field rest 33), pi_sigcatch = num (field rest 34)\<rparr>"
    using nums len by (simp add: glibtop_get_proc_signal_s_def st af step)
  moreover have "pg_start_code (glibtop_get_proc_segment_s K pagesize pid) = num (field rest 26)"
    "pg_end_code (glibtop_get_proc_segment_s K pagesize pid) = num (field rest 27)"
    "pg_start_stack (glibtop_get_proc_segment_s K pagesize pid) = num (field rest 28)"
    using nums len
    by (simp_all add: glibtop_get_proc_segment_s_def st af step split: option.splits)
  ultimately show ?thesis using time by blast
qed

definition demo_rest :: string where
  "demo_rest = '' S 1 2 3 4 5 6 7 8 9 10 11 12 13 14 15 16 17 18 19 20 21 22 23 24 25 26 27 28 29 30 31 32 33 34 35 36 37''"

definition demo_process :: kernel where
  \<comment> \<open>a process with a nasty name\<close>
  "demo_process = file_kernel [(proc_path 7 ''/stat'', show_int 7 @ '' ('' @ ''a) (b'' @ '')'' @ demo_rest)]"

lemma show_int_nat [simp]: "show_int (int n) = show_nat n"
  by (simp add: show_int_def)

lemma show_digits: "c \<in> set (show_nat n) \<Longrightarrow> isdigit c"
  using show_base_digits [of 10 c n] by (auto simp: digit_val_def isdigit_def Let_def split: if_splits)

lemma show_int_7: "show_int 7 = ''7''"
  by code_simp

lemma demo_words: "words demo_rest = ''S'' # map show_nat [1..<38]"
  by code_simp

lemma demo_stat_file: "stat_file demo_process 7 ''a) (b'' demo_rest"
proof -
  have "length (show_int 7 @ '' ('' @ ''a) (b'' @ '')'' @ demo_rest) < BUFSIZ"
    "NUL \<notin> set (show_int 7 @ '' ('' @ ''a) (b'' @ '')'' @ demo_rest)" "CHR '')'' \<notin> set demo_rest"
    by (simp_all add: show_int_7 demo_rest_def BUFSIZ_def)
  then show ?thesis
    by (simp only: stat_file_def demo_process_def proc_stat_to_buffer_def)
      (simp add: file_kernel_proc)
qed

lemma demo_field: "4 \<le> k \<Longrightarrow> k < 41 \<Longrightarrow> field demo_rest k = show_nat (k - 3)"
  by (cases "k - 3") (simp_all add: field_def demo_words)

theorem stat_getters_witness:
  "\<exists>b. glibtop_get_proc_time_s demo_process glibtop_global_server 5 7 = Inr b
     \<and> pt_utime b = 11 \<and> pt_stime b = 12 \<and> pt_rtime b = 23"
proof -
  have num: "\<forall>k\<in>{9..17} \<union> {21, 22} \<union> {26..35}. is_num (field demo_rest k)"
    by (auto simp: demo_field)
  have len: "33 \<le> length (words demo_rest)" by (simp add: demo_words)
  have "get_boot_time demo_process 5 = Inr 5" "s_ncpu glibtop_global_server = 0"
    by (simp_all add: get_boot_time_def glibtop_global_server_def)
  from stat_getters [OF demo_stat_file len num this(1) refl, of glibtop_global_server 4096] this(2) show ?thesis
    by (simp add: demo_field)
qed

lemma digit_no_space: "isdigit c \<Longrightarrow> \<not> g_ascii_isspace c"
  by (auto simp: isdigit_def g_ascii_isspace_def)

lemma show_int_tok: "show_int i \<noteq> []" "\<forall>c\<in>set (show_int i). \<not> g_ascii_isspace c"
  by (auto simp: show_int_def g_ascii_isspace_def [of "CHR ''-''"] dest!: show_digits digit_no_space)

lemma ucast_of_int [simp]: "(ucast (of_int i :: 64 word) :: 32 word) = of_int i"
  by (simp add: ucast_eq take_bit_int_def mod_mod_cancel unsigned_of_int of_int_of_nat_eq word_of_int_eq_iff)

text \<open>
  The name of a process comes back as it is, up to the 39 characters that fit: blanks and
  parentheses in it do no harm. The owner is that of the directory \<open>/proc/pid\<close>, the state that of the third
  field, the processor the number in field 39.
\<close>

theorem proc_state_spec:
  assumes sf: "stat_file K pid cmd rest" and st: "k_stat K (proc_path pid []) = Some (uid, gid)"
    and len: "37 \<le> length (words rest)" and p: "is_int (field rest 39)"
  shows "glibtop_get_proc_state_s K pid = Inr \<lparr>ps_flags = sysdeps_proc_state_uid OR sysdeps_proc_state,
     ps_cmd = take 39 cmd, ps_state = process_state (field rest 3), ps_uid = uid, ps_gid = gid,
     ps_last_processor = of_int (int_tok (field rest 39))\<rparr>"
proof -
  obtain line where l: "proc_stat_to_buffer K BUFSIZ pid = Some line"
    "proc_stat_after_cmd line = (Some rest, show_int pid @ '' ('' @ cmd)"
    using sf by (rule stat_fileE)
  have "after_tok (show_int pid @ '' ('' @ cmd) = '' ('' @ cmd"
    using words_tok(2) [of "[]" "show_int pid" "'' ('' @ cmd"] show_int_tok by simp
  then have name: "skip_token (show_int pid @ '' ('' @ cmd) = CHR ''('' # cmd"
    by (simp add: skip_token_after_tok next_token_def g_ascii_isspace_def)
  obtain t ts where w: "words rest = t # ts" using len by (cases "words rest") auto
  then obtain ws where ws: "rest = ws @ t @ after_tok rest" "\<forall>c\<in>set ws. g_ascii_isspace c" "t \<noteq> []"
    "\<forall>c\<in>set t. \<not> g_ascii_isspace c" by (rule words_ConsE)
  have "next_token rest = t @ after_tok rest"
    using next_token_tok [OF ws(2-4)] ws(1) by metis
  then have state: "process_state (next_token rest) = process_state (field rest 3)"
    using ws(3) by (cases t) (simp_all add: field_def w)
  have "atoi (skip_multiple_token (next_token rest) 36) = of_int (int_tok (field rest 39))"
    using len p by (simp add: atoi_def ctext field_simps' field_def)
  with name state st l show ?thesis
    by (simp add: glibtop_get_proc_state_s_def Let_def proc_state_zero_def g_strlcpy_def)
qed

theorem proc_state_spec_witness:
  "glibtop_get_proc_state_s demo_process 7 = Inr \<lparr>ps_flags = sysdeps_proc_state_uid OR sysdeps_proc_state,
     ps_cmd = ''a) (b'', ps_state = 2, ps_uid = 1000, ps_gid = 100, ps_last_processor = 36\<rparr>"
proof -
  have "k_stat demo_process (proc_path 7 []) = Some (1000, 100)"
    by (simp add: demo_process_def file_kernel_def)
  moreover have "37 \<le> length (words demo_rest)" by (simp add: demo_words)
  moreover have f: "field demo_rest 39 = show_int 36"
    by (simp add: demo_field show_int_def)
  moreover have "is_int (show_int 36)" unfolding is_int_def by (rule exI [of _ 36]) simp
  moreover have "field demo_rest 3 = ''S''" by (simp add: field_def demo_words)
  ultimately show ?thesis
    using proc_state_spec [OF demo_stat_file, of 1000 100] by simp
qed

text \<open>
  The owner is never made up (a security requirement that the code states): whatever the
  files contain, a result with one of the flags of \<open>uid\<close> and \<open>gid\<close> has the owner that \<open>stat\<close>
  gave for the directory of the process, and without that all fields are zero.
\<close>

theorem proc_state_owner:
  assumes "glibtop_get_proc_state_s K pid = Inr buf"
  shows "(if ps_flags buf AND sysdeps_proc_state_uid \<noteq> 0
     then k_stat K (proc_path pid []) = Some (ps_uid buf, ps_gid buf) else buf = proc_state_zero)"
proof -
  have fl: "(sysdeps_proc_state_uid OR sysdeps_proc_state) AND sysdeps_proc_state_uid \<noteq> 0"
    "sysdeps_proc_state_uid AND sysdeps_proc_state_uid \<noteq> 0"
    by (simp_all add: sysdeps_proc_state_uid_def sysdeps_proc_state_def)
  show ?thesis
    using assms fl
    by (auto simp: glibtop_get_proc_state_s_def Let_def proc_state_zero_def
        split: option.splits prod.splits list.splits if_splits)
qed

theorem proc_state_owner_witness:
  "\<exists>buf. glibtop_get_proc_state_s (file_kernel []) 7 = Inr buf \<and> ps_uid buf = 1000
     \<and> k_stat (file_kernel []) (proc_path 7 []) = Some (ps_uid buf, ps_gid buf)"
proof -
  have "glibtop_get_proc_state_s (file_kernel []) 7
      = Inr (proc_state_zero\<lparr>ps_uid := 1000, ps_gid := 100, ps_flags := sysdeps_proc_state_uid\<rparr>)"
    by (simp add: glibtop_get_proc_state_s_def proc_stat_to_buffer_def proc_file_to_buffer_def
        try_file_to_buffer_def file_kernel_def)
  from proc_state_owner [OF this] this show ?thesis
    by (auto simp: sysdeps_proc_state_uid_def proc_state_zero_def)
qed

lemma strtol32_int:
  assumes "words p \<noteq> []" and "is_int (hd (words p))"
  shows "strtol32 p = (of_int (int_tok (hd (words p))), after_tok p)"
  using strtol_int [OF assms] by (simp add: strtol32_def)

abbreviation int32 :: "string \<Rightarrow> gint32" where
  "int32 t \<equiv> of_int (int_tok t)"

text \<open>
  The second half of \<open>glibtop_get_proc_uid_s\<close>: the process group, session and foreground
  group are the fields 5, 6, 8, the terminal is field 7 with 0 turned into -1, priority and nice
  value are the fields 18 and 19, mapped for kernels before 1.3.39. The terminal is never moved
  by \<open>4 * 0x100\<close>: no version is below 1.1.30 without being below 1.3.39, and that test comes
  first.
\<close>

theorem proc_uid_stat_spec:
  assumes len: "17 \<le> length (words rest)"
    and int: "\<forall>k\<in>{5..8} \<union> {18, 19}. is_int (field rest k)"
  shows "proc_uid_stat server rest buf = buf
     \<lparr>pu_pgrp := int32 (field rest 5), pu_session := int32 (field rest 6),
      pu_tty := (if int32 (field rest 7) = 0 then - 1 else int32 (field rest 7)),
      pu_tpgid := int32 (field rest 8),
      pu_priority := (if s_os_version_code server < LINUX_VERSION_CODE 1 3 39
        then 30 - int32 (field rest 18) else int32 (field rest 18)),
      pu_nice := (if s_os_version_code server < LINUX_VERSION_CODE 1 3 39
        then 15 - int32 (field rest 19) else int32 (field rest 19)),
      pu_flags := pu_flags buf OR sysdeps_proc_uid_stat\<rparr>"
proof -
  have n: "is_int (words rest ! (k - 3))" if "k \<in> {5..8} \<union> {18, 19}" for k
    using int that by (auto simp: field_def)
  note ints = n [of 5] n [of 6] n [of 7] n [of 8] n [of 18] n [of 19]
  have v: "s_os_version_code server < LINUX_VERSION_CODE 1 3 39"
    if "s_os_version_code server < LINUX_VERSION_CODE 1 1 30"
    using that by (simp add: LINUX_VERSION_CODE_def)
  show ?thesis
    using ints len v
    by (simp add: proc_uid_stat_def ctext field_simps' strtol32_int Let_def case_prod_unfold field_def)
qed

theorem proc_uid_stat_spec_witness:
  "pu_priority (proc_uid_stat (glibtop_global_server\<lparr>s_os_version_code := LINUX_VERSION_CODE 6 1 0\<rparr>)
     demo_rest proc_uid_zero) = 15"
proof -
  have show_is_int: "show_nat n = show_int (int n)" for n by simp
  have "is_int (show_nat n)" "int_tok (show_nat n) = int n" if "n < 100" for n
  proof -
    show "is_int (show_nat n)" unfolding is_int_def show_is_int
      using that by (intro exI [of _ "int n"]) auto
    show "int_tok (show_nat n) = int n" unfolding show_is_int by (rule int_tok_show)
  qed
  then have int: "\<forall>k\<in>{5..8} \<union> {18, 19}. is_int (field demo_rest k)" and "int_tok (show_nat 15) = 15"
    by (auto simp: demo_field)
  moreover have "17 \<le> length (words demo_rest)" by (simp add: demo_words)
  ultimately show ?thesis
    by (subst proc_uid_stat_spec) (simp_all add: demo_field LINUX_VERSION_CODE_def)
qed

lemma split_args0_args:
  "\<forall>a\<in>set xs. NUL \<notin> set a \<Longrightarrow>
     split_args0 (concat (map (\<lambda>a. a @ [NUL]) xs) @ r) (length (concat (map (\<lambda>a. a @ [NUL]) xs))) = xs"
proof (induction xs)
  case (Cons a xs)
  have "c_str (a @ NUL # concat (map (\<lambda>a. a @ [NUL]) xs) @ r) = a"
    using Cons.prems by (simp add: c_str_append)
  with Cons show ?case by (subst split_args0.simps) simp
qed (simp add: split_args0.simps)

text \<open>
  C15. The command line of a process, split and put together again: the kernel gives the
  arguments, each with a NUL, and where the stub \<open>glibtop_get_proc_args_l\<close> returns what the getter of
  the port does, \<open>glibtop_get_proc_argv_l\<close> returns exactly these arguments, empty ones too. With a limit, \<open>glibtop_get_proc_args_s\<close> returns a block whose size is at most
  the limit, which ends with a NUL and starts like the command line.
\<close>

theorem proc_args_spec:
  assumes xs: "\<forall>a\<in>set xs. NUL \<notin> set a" and len: "length (concat (map (\<lambda>a. a @ [NUL]) xs)) < 2 ^ 64"
    and f: "g_file_get_contents K (proc_path pid ''/cmdline'') = Some (concat (map (\<lambda>a. a @ [NUL]) xs))"
    and args_l: "args_l pid 0 = Inr (glibtop_get_proc_args_s K pid 0)"
  shows "glibtop_get_proc_argv_l args_l pid 0 = Inr xs
    \<and> (0 < max_len \<longrightarrow> (\<exists>buf block. glibtop_get_proc_args_s K pid max_len = (buf, Some block)
         \<and> pa_size buf \<le> ucast max_len
         \<and> last block = NUL \<and> unat (pa_size buf) \<le> length block
         \<and> take (length block - 1) block = take (length block - 1) (concat (map (\<lambda>a. a @ [NUL]) xs))))"
proof -
  let ?c = "concat (map (\<lambda>a. a @ [NUL]) xs)"
  have A: "glibtop_get_proc_args_s K pid m =
      (if unat m \<noteq> 0 \<and> unat m < length ?c
       then (\<lparr>pa_flags = sysdeps_proc_args, pa_size = of_nat (unat m)\<rparr>, Some (take (unat m - 1) ?c @ [NUL]))
       else (\<lparr>pa_flags = sysdeps_proc_args, pa_size = of_nat (length ?c)\<rparr>, Some (?c @ [NUL])))" for m
    unfolding glibtop_get_proc_args_s_def f by (simp add: Let_def)
  have argv: "glibtop_get_proc_argv_l args_l pid 0 = Inr xs"
    using split_args0_args [OF xs, of "[NUL]"] unat_of_nat64 [OF len]
    by (simp add: glibtop_get_proc_argv_l_def args_l A)
  have "\<exists>buf block. glibtop_get_proc_args_s K pid max_len = (buf, Some block)
         \<and> pa_size buf \<le> ucast max_len \<and> last block = NUL \<and> unat (pa_size buf) \<le> length block
         \<and> take (length block - 1) block = take (length block - 1) ?c" if m: "0 < max_len"
  proof (cases "unat max_len < length ?c")
    case True
    have u: "unat max_len \<noteq> 0" using m by (simp add: unat_eq_0)
    have "(of_nat (unat max_len) :: guint64) = ucast max_len" by simp
    moreover have "unat (ucast max_len :: guint64) = unat max_len" by (rule unat_ucast_32_64)
    moreover have "length (take (unat max_len - 1) ?c @ [NUL]) = unat max_len" using True u by simp
    ultimately show ?thesis using True u
      by (simp add: A)
  next
    case False
    have "(of_nat (length ?c) :: guint64) \<le> ucast max_len"
    proof -
      have "unat (of_nat (length ?c) :: guint64) = length ?c" by (rule unat_of_nat64 [OF len])
      moreover have "unat (ucast max_len :: guint64) = unat max_len" by (rule unat_ucast_32_64)
      ultimately show ?thesis using False by (simp add: word_le_nat_alt)
    qed
    with False unat_of_nat64 [OF len] show ?thesis
      by (simp add: A)
  qed
  with argv show ?thesis by blast
qed

theorem proc_args_spec_witness:
  "glibtop_get_proc_argv_l
     (\<lambda>pid m. Inr (glibtop_get_proc_args_s
        (file_kernel [(proc_path 7 ''/cmdline'', ''ls'' @ [NUL] @ [NUL] @ ''-l'' @ [NUL])]) pid m)) 7 0
     = Inr [''ls'', [], ''-l'']"
proof -
  let ?K = "file_kernel [(proc_path 7 ''/cmdline'', ''ls'' @ [NUL] @ [NUL] @ ''-l'' @ [NUL])]"
  have "g_file_get_contents ?K (proc_path 7 ''/cmdline'') = Some (concat (map (\<lambda>a. a @ [NUL]) [''ls'', [], ''-l'']))"
    by (simp add: g_file_get_contents_def file_kernel_def)
  from proc_args_spec [OF _ _ this, of "\<lambda>pid m. Inr (glibtop_get_proc_args_s ?K pid m)" 5] show ?thesis by simp
qed

end
