(* ===== verification/ProcList.thy ===== *)
theory ProcList
  imports ProcInfo
begin

unbundle bit_operations_syntax

text \<open>
  \<open>proclist.c\<close>, \<open>procwd.c\<close> and \<open>procaffinity.c\<close> under \<open>sysdeps/linux\<close>: the functions that return
  a list for the whole system or for one process.
\<close>

section \<open>proclist.c\<close>

abbreviation (input) "GLIBTOP_KERN_PROC_ALL \<equiv> 0 :: 64 word"
abbreviation (input) "GLIBTOP_KERN_PROC_PID \<equiv> 1 :: 64 word"
abbreviation (input) "GLIBTOP_KERN_PROC_PGRP \<equiv> 2 :: 64 word"
abbreviation (input) "GLIBTOP_KERN_PROC_SESSION \<equiv> 3 :: 64 word"
abbreviation (input) "GLIBTOP_KERN_PROC_TTY \<equiv> 4 :: 64 word"
abbreviation (input) "GLIBTOP_KERN_PROC_UID \<equiv> 5 :: 64 word"
abbreviation (input) "GLIBTOP_KERN_PROC_RUID \<equiv> 6 :: 64 word"
abbreviation (input) "GLIBTOP_KERN_PROC_MASK \<equiv> 15 :: 64 word"
abbreviation (input) "GLIBTOP_EXCLUDE_IDLE \<equiv> 0x1000 :: 64 word"
abbreviation (input) "GLIBTOP_EXCLUDE_SYSTEM \<equiv> 0x2000 :: 64 word"
abbreviation (input) "GLIBTOP_EXCLUDE_NOTTY \<equiv> 0x4000 :: 64 word"

record glibtop_proclist =
  pl_flags :: guint64
  pl_number :: guint64
  pl_total :: guint64
  pl_size :: guint64

definition sysdeps_proclist :: guint64 where "sysdeps_proclist = flag 1 + flag 0 + flag 2"

definition init_proclist_s :: "glibtop \<Rightarrow> glibtop" where
  "init_proclist_s server = set_sysdeps F_PROCLIST sysdeps_proclist server"

definition has_flag :: "guint64 \<Rightarrow> nat \<Rightarrow> bool" where
  "has_flag flags n \<longleftrightarrow> flags AND flag n \<noteq> 0"

text \<open>The \<open>switch\<close>: whether the process is kept. A field that the getter could not read keeps it.\<close>

definition which_matches :: "kernel \<Rightarrow> glibtop \<Rightarrow> 64 word \<Rightarrow> 64 word \<Rightarrow> 32 word \<Rightarrow> bool" where
  "which_matches K server which arg pid =
     (let w = which AND GLIBTOP_KERN_PROC_MASK;
          procuid = glibtop_get_proc_uid_s K server (sint pid) in
      if w = GLIBTOP_KERN_PROC_PID then ucast arg = pid
      else if w = GLIBTOP_KERN_PROC_UID then
        (case k_stat K (''/proc/'' @ show_nat (unat pid)) of
           None \<Rightarrow> False
         | Some (st_uid, _) \<Rightarrow> ucast arg = st_uid)
      else if w = GLIBTOP_KERN_PROC_PGRP then
        (has_flag (pu_flags procuid) 10 \<longrightarrow> ucast arg = pu_pgrp procuid)
      else if w = GLIBTOP_KERN_PROC_SESSION then
        (has_flag (pu_flags procuid) 11 \<longrightarrow> ucast arg = pu_session procuid)
      else if w = GLIBTOP_KERN_PROC_TTY then
        (has_flag (pu_flags procuid) 12 \<longrightarrow> ucast arg = pu_tty procuid)
      else if w = GLIBTOP_KERN_PROC_RUID then
        (has_flag (pu_flags procuid) 1 \<longrightarrow> ucast arg = pu_euid procuid)
      else True)"

text \<open>The \<open>GLIBTOP_EXCLUDE_\<close> flags.\<close>

definition not_excluded :: "kernel \<Rightarrow> glibtop \<Rightarrow> 64 word \<Rightarrow> 32 word \<Rightarrow> bool res" where
  "not_excluded K server which pid =
     (let procuid = glibtop_get_proc_uid_s K server (sint pid) in
      if which AND GLIBTOP_EXCLUDE_NOTTY \<noteq> 0 \<and> has_flag (pu_flags procuid) 12 \<and> pu_tty procuid = - 1
      then Inr False
      else bind_res
        (if which AND GLIBTOP_EXCLUDE_IDLE \<noteq> 0 then
           bind_res (glibtop_get_proc_state_s K (sint pid)) (\<lambda>procstate.
             Inr (has_flag (ps_flags procstate) 1 \<longrightarrow> ps_state procstate = GLIBTOP_PROCESS_RUNNING))
         else Inr True)
        (\<lambda>running.
           Inr (running \<and> \<not> (which AND GLIBTOP_EXCLUDE_SYSTEM \<noteq> 0
             \<and> has_flag (pu_flags procuid) 0 \<and> pu_uid procuid = 0))))"

definition entry_pid :: "string \<times> bool \<Rightarrow> 32 word option" where
  \<comment> \<open>the first two tests: a directory whose name starts with a number that is not 0\<close>
  "entry_pid = (\<lambda>(d_name, is_dir).
     (let pid = ucast (fst (strtoul 10 d_name)) in
      if \<not> is_dir \<or> pid = 0 then None else Some pid))"

fun proclist_loop ::
  "kernel \<Rightarrow> glibtop \<Rightarrow> 64 word \<Rightarrow> 64 word \<Rightarrow> (string \<times> bool) list \<Rightarrow> 32 word list res" where
  "proclist_loop K server which arg [] = Inr []"
| "proclist_loop K server which arg (entry # entries) =
     (case entry_pid entry of
        None \<Rightarrow> proclist_loop K server which arg entries
      | Some pid \<Rightarrow>
          (if \<not> which_matches K server which arg pid then proclist_loop K server which arg entries
           else bind_res (not_excluded K server which pid) (\<lambda>keep.
             bind_res (proclist_loop K server which arg entries) (\<lambda>pids.
               Inr (if keep then pid # pids else pids)))))"

text \<open>\<open>fstat_ok\<close> is the result of \<open>fstat\<close> on the directory.\<close>

definition glibtop_get_proclist_s ::
  "kernel \<Rightarrow> bool \<Rightarrow> glibtop \<Rightarrow> 64 word \<Rightarrow> 64 word \<Rightarrow> (glibtop_proclist \<times> 32 word list option) res" where
  "glibtop_get_proclist_s K fstat_ok server which arg =
     (let zero = \<lparr>pl_flags = 0, pl_number = 0, pl_total = 0, pl_size = 0\<rparr> in
      case k_readdir K ''/proc'' of
        None \<Rightarrow> Inr (zero, None)
      | Some entries \<Rightarrow>
          (if \<not> fstat_ok then Inr (zero, None)
           else bind_res (proclist_loop K server which arg entries) (\<lambda>pids.
             Inr (\<lparr>pl_flags = sysdeps_proclist, pl_number = of_nat (length pids),
                   pl_total = of_nat (length pids) * 4, pl_size = 4\<rparr>, Some pids))))"

section \<open>procwd.c\<close>

record glibtop_proc_wd =
  wd_flags :: guint64
  wd_number :: "32 word"
  wd_root :: string
  wd_exe :: string

definition init_proc_wd_s :: "glibtop \<Rightarrow> glibtop" where
  "init_proc_wd_s server = set_sysdeps F_PROC_WD (flag 2 + flag 1 + flag 0) server"

fun is_in :: "string list \<Rightarrow> string \<Rightarrow> bool" where
  "is_in [] str = False"
| "is_in (d # array) str = (d = str \<or> is_in array str)"

definition upath :: "32 word \<Rightarrow> string \<Rightarrow> string" where
  \<comment> \<open>\<open>"/proc/%u/..."\<close>, cut off at 79 characters\<close>
  "upath pid name = take 79 (''/proc/'' @ show_nat (unat pid) @ name)"

fun task_loop :: "kernel \<Rightarrow> 32 word \<Rightarrow> (string \<times> bool) list \<Rightarrow> string list \<Rightarrow> string list" where
  "task_loop K pid [] dirs = dirs"
| "task_loop K pid ((d_name, _) # subs) dirs =
     (if d_name = [] \<or> \<not> isdigit (hd d_name) then task_loop K pid subs dirs
      else case safe_readlink K (upath pid (''/task/'' @ d_name @ ''/cwd'')) 256 of
        None \<Rightarrow> task_loop K pid subs dirs
      | Some dir \<Rightarrow>
          (if is_in dirs dir then task_loop K pid subs dirs
           else task_loop K pid subs (dirs @ [dir])))"

definition glibtop_get_proc_wd_s :: "kernel \<Rightarrow> 32 word \<Rightarrow> glibtop_proc_wd \<times> string list" where
  "glibtop_get_proc_wd_s K pid =
     (let (root, flags) = (case safe_readlink K (upath pid ''/root'') 216 of
            None \<Rightarrow> ([], 0) | Some l \<Rightarrow> (l, flag 1));
          (exe, flags) = (case safe_readlink K (upath pid ''/exe'') 216 of
            None \<Rightarrow> ([], flags) | Some l \<Rightarrow> (l, flags OR flag 2));
          dirs = (case safe_readlink K (upath pid ''/cwd'') 256 of None \<Rightarrow> [] | Some dir \<Rightarrow> [dir]);
          dirs = (case k_readdir K (upath pid ''/task'') of
            None \<Rightarrow> dirs | Some subs \<Rightarrow> task_loop K pid subs dirs)
      in (\<lparr>wd_flags = flags OR flag 0, wd_number = of_nat (length dirs), wd_root = root, wd_exe = exe\<rparr>, dirs))"

section \<open>procaffinity.c\<close>

record glibtop_proc_affinity =
  af_flags :: guint64
  af_number :: "32 word"
  af_all :: bool

definition init_proc_affinity_s :: "glibtop \<Rightarrow> glibtop" where
  "init_proc_affinity_s server = set_sysdeps F_PROC_AFFINITY (flag 0 OR flag 1) server"

text \<open>\<open>set\<close> is what \<open>sched_getaffinity\<close> gives. \<open>ncpu\<close> is at least -1.\<close>

definition glibtop_get_proc_affinity_s ::
  "(nat \<Rightarrow> bool) option \<Rightarrow> glibtop \<Rightarrow> (glibtop_proc_affinity \<times> 16 word list) res" where
  "glibtop_get_proc_affinity_s cpu_set server =
     (case cpu_set of
        None \<Rightarrow> Inl (Exit ''sched_getaffinity failed'')
      | Some is_set \<Rightarrow>
          (let cpus = map of_nat (filter is_set [0..<min 1024 (nat (s_ncpu server + 1))])
           in Inr (\<lparr>af_flags = flag 0 OR flag 1, af_number = of_nat (length cpus),
                    af_all = (length cpus = nat (s_ncpu server + 1))\<rparr>, cpus)))"

section \<open>The processes of a listing\<close>

abbreviation (input) "TAB \<equiv> CHR 0x09"

text \<open>
  What the process list should be is stated over the files of \<open>/proc\<close> and the kernel's documentation of them,
  not over the getters. A process has the owner of its directory, its real and its effective user id (the first two numbers of
  the line \<open>Uid:\<close> of \<open>status\<close>), and the state letter, process group, session and terminal of the fields 3, 5, 6
  and 7 of \<open>stat\<close>.
\<close>

record process =
  pr_owner :: "32 word"
  pr_ruid :: nat
  pr_euid :: nat
  pr_state :: char
  pr_pgrp :: int
  pr_session :: int
  pr_tty :: int

definition status_text :: "string \<Rightarrow> int \<Rightarrow> int \<Rightarrow> string \<Rightarrow> nat \<Rightarrow> nat \<Rightarrow> string \<Rightarrow> string \<Rightarrow> string" where
  "status_text before pid ppid between ruid euid others groups =
     before @ NL # ''Pid:'' @ TAB # show_int pid @ NL # ''PPid:'' @ TAB # show_int ppid @ between
     @ NL # ''Uid:'' @ TAB # show_nat ruid @ TAB # show_nat euid @ others
     @ NL # ''Gid:'' @ groups"

definition status_file :: "kernel \<Rightarrow> int \<Rightarrow> nat \<Rightarrow> nat \<Rightarrow> bool" where
  "status_file K pid ruid euid \<longleftrightarrow>
     (\<exists>before ppid between others groups.
        proc_status_to_buffer K BUFSIZ pid = Some (status_text before pid ppid between ruid euid others groups)
        \<and> strstr before (NL # ''Pid:'') = None \<and> strstr between (NL # ''Uid:'') = None
        \<and> strstr others (NL # ''Gid:'') = None \<and> sep between \<and> sep others
        \<and> - (2 ^ 31) \<le> ppid \<and> ppid < 2 ^ 31)
     \<and> - (2 ^ 31) \<le> pid \<and> pid < 2 ^ 31 \<and> ruid < 2 ^ 32 \<and> euid < 2 ^ 32"

definition is_process :: "kernel \<Rightarrow> int \<Rightarrow> process \<Rightarrow> bool" where
  "is_process K pid p \<longleftrightarrow>
     (\<exists>gid. k_stat K (proc_path pid []) = Some (pr_owner p, gid))
     \<and> status_file K pid (pr_ruid p) (pr_euid p)
     \<and> (\<exists>cmd rest. stat_file K pid cmd rest \<and> 37 \<le> length (words rest)
          \<and> (\<forall>k\<in>{5..8} \<union> {18, 19, 39}. is_int (field rest k))
          \<and> field rest 3 = [pr_state p] \<and> field rest 5 = show_int (pr_pgrp p)
          \<and> field rest 6 = show_int (pr_session p) \<and> field rest 7 = show_int (pr_tty p))"

text \<open>A process that ended while the directory was read.\<close>

definition has_ended :: "kernel \<Rightarrow> int \<Rightarrow> bool" where
  "has_ended K pid \<longleftrightarrow> k_stat K (proc_path pid []) = None \<and> proc_status_to_buffer K BUFSIZ pid = None
     \<and> proc_stat_to_buffer K BUFSIZ pid = None"

definition is_listed :: "kernel \<Rightarrow> int \<Rightarrow> process option \<Rightarrow> bool" where
  "is_listed K pid po = (case po of None \<Rightarrow> has_ended K pid | Some p \<Rightarrow> is_process K pid p)"

text \<open>The entries of \<open>/proc\<close>: a directory for each process, named with its number, and other files and
  directories.\<close>

inductive proc_entries :: "(string \<times> bool) list \<Rightarrow> int list \<Rightarrow> bool" where
  "proc_entries [] []"
| "proc_entries es ns \<Longrightarrow> 0 < n \<Longrightarrow> n < 2 ^ 31 \<Longrightarrow> proc_entries ((show_nat n, True) # es) (int n # ns)"
| "proc_entries es ns \<Longrightarrow> c \<in> set ''._abcdefghijklmnopqrstuvwxyz'' \<Longrightarrow> proc_entries ((c # name, d) # es) ns"
| "proc_entries es ns \<Longrightarrow> proc_entries ((name, False) # es) ns"

text \<open>Which processes a request asks for. The kind of a request is the number in its lowest four bits.\<close>

definition asked_for :: "64 word \<Rightarrow> 64 word \<Rightarrow> int \<Rightarrow> process option \<Rightarrow> bool" where
  "asked_for which arg pid po =
     (let kind = unat which mod 16; arg = (ucast arg :: 32 word) in
      case po of
        None \<Rightarrow> (kind = 1 \<longrightarrow> arg = of_int pid) \<and> kind \<noteq> 5
      | Some p \<Rightarrow>
          (kind = 1 \<longrightarrow> arg = of_int pid)
          \<and> (kind = 2 \<longrightarrow> arg = of_int (pr_pgrp p))
          \<and> (kind = 3 \<longrightarrow> arg = of_int (pr_session p))
          \<and> (kind = 4 \<longrightarrow> arg = (if (of_int (pr_tty p) :: 32 word) = 0 then - 1 else of_int (pr_tty p)))
          \<and> (kind = 5 \<longrightarrow> arg = pr_owner p)
          \<and> (kind = 6 \<longrightarrow> arg = of_nat (pr_euid p))
          \<and> (bit which 12 \<longrightarrow> pr_state p = CHR ''R'')
          \<and> (bit which 13 \<longrightarrow> pr_ruid p \<noteq> 0)
          \<and> (bit which 14 \<longrightarrow> (of_int (pr_tty p) :: 32 word) \<notin> {0, - 1}))"

lemma strstr_behind:
  "strstr before (NL # k) = None \<Longrightarrow> NL \<notin> set k \<Longrightarrow> strstr (before @ NL # k @ r) (NL # k) = Some (NL # k @ r)"
proof (induction before)
  case (Cons c before)
  have "take (length k) (before @ NL # k @ r) \<noteq> k" if "c = NL"
  proof
    assume t: "take (length k) (before @ NL # k @ r) = k"
    have "length k \<le> length before"
    proof (rule ccontr)
      assume "\<not> ?thesis"
      then have "NL \<in> set (take (length k) (before @ NL # k @ r))"
        by (cases "length k - length before") auto
      with t Cons.prems(2) show False by simp
    qed
    with t that Cons.prems(1) show False by (simp add: strncmp_eq_def)
  qed
  with Cons show ?case by (auto simp: strncmp_eq_def split: if_splits)
qed (simp add: strncmp_eq_def)

lemma skip_token_key:
  assumes "\<forall>c\<in>set k. \<not> g_ascii_isspace c" "k \<noteq> []" "sep r"
  shows "skip_token (NL # k @ r) = next_token r"
  using words_tok(2) [of "[NL]" k r] assms by (simp add: skip_token_after_tok)

lemma uid_status_text:
  assumes "strstr before (NL # ''Pid:'') = None" "strstr between (NL # ''Uid:'') = None"
    "strstr others (NL # ''Gid:'') = None" "sep between" "sep others"
    "- (2 ^ 31) \<le> ppid" "ppid < 2 ^ 31" "- (2 ^ 31) \<le> pid" "pid < 2 ^ 31" "ruid < 2 ^ 32" "euid < 2 ^ 32"
  shows "\<exists>gid egid. proc_uid_status (status_text before pid ppid between ruid euid others groups)
    = (proc_uid_zero\<lparr>pu_pid := of_int pid, pu_ppid := of_int ppid, pu_uid := of_nat ruid, pu_euid := of_nat euid,
         pu_gid := gid, pu_egid := egid, pu_flags := sysdeps_proc_uid\<rparr>, True)"
proof -
  have keys: "\<forall>c\<in>set ''Pid:''. \<not> g_ascii_isspace c" "\<forall>c\<in>set ''PPid:''. \<not> g_ascii_isspace c"
    "\<forall>c\<in>set ''Uid:''. \<not> g_ascii_isspace c" by (auto simp: g_ascii_isspace_def)
  have int: "next_token (TAB # show_int i @ r) = show_int i @ r" for i r
    using next_token_tok [of "[TAB]" "show_int i" r] show_int_tok by simp
  have nat: "next_token (TAB # show_nat n @ r) = show_nat n @ r" for n r
    using int [of "int n" r] by simp
  have l: "strtol32 (show_int i @ r) = (of_int i, r)" if "- (2 ^ 31) \<le> i" "i < 2 ^ 31" "sep r" for i r
    using strtol_show_int [of "[]" r 0 i] that by (simp add: strtol32_def)
  have u: "strtol32 (ws @ show_nat n @ r) = (of_nat n, r)"
    if "n < 2 ^ 32" "sep r" "\<forall>c\<in>set ws. g_ascii_isspace c" for n r ws
  proof -
    have "(ucast (of_nat n :: 64 word) :: 32 word) = of_nat n"
      using ucast_of_int [of "int n"] by simp
    with strto_show [of ws r 0 n] that show ?thesis by (simp add: strtol32_def strtol_def)
  qed
  have sp: "sep (q @ NL # r)" if "sep q" for q r
    using that by (cases q) simp_all
  have s: "strstr (before @ NL # ''Pid:'' @ r) (NL # ''Pid:'') = Some (NL # ''Pid:'' @ r)"
    "strstr (between @ NL # ''Uid:'' @ r) (NL # ''Uid:'') = Some (NL # ''Uid:'' @ r)"
    "strstr (others @ NL # ''Gid:'' @ r) (NL # ''Gid:'') = Some (NL # ''Gid:'' @ r)" for r
    by (rule strstr_behind [OF assms(1)] strstr_behind [OF assms(2)] strstr_behind [OF assms(3)]; simp)+
  have k: "skip_token (NL # ''Pid:'' @ TAB # show_int i @ r) = show_int i @ r"
    "skip_token (NL # ''PPid:'' @ TAB # show_int i @ r) = show_int i @ r"
    "skip_token (NL # ''Uid:'' @ TAB # show_nat n @ r) = show_nat n @ r" for i n r
    by (subst skip_token_key; simp add: keys int nat)+
  have v: "strtol32 (show_int pid @ NL # r) = (of_int pid, NL # r)"
    "strtol32 (show_int ppid @ between @ NL # r) = (of_int ppid, between @ NL # r)"
    "strtol32 (show_nat ruid @ TAB # r) = (of_nat ruid, TAB # r)"
    "strtol32 (TAB # show_nat euid @ others @ NL # r) = (of_nat euid, others @ NL # r)" for r
    using assms l [OF _ _ sp] l u [of ruid "TAB # r" "[]"] u [of euid "others @ NL # r" "[TAB]"] sp [of others r]
    by simp_all
  show ?thesis
    unfolding proc_uid_status_def status_text_def Let_def s option.case k v prod.case case_prod_unfold fst_conv snd_conv
    by auto
qed

lemma has_flag_uid:
  "has_flag (sysdeps_proc_uid OR sysdeps_proc_uid_stat) n \<longleftrightarrow> n \<in> {0..3} \<union> {8..15}" if "n < 16" for n
proof -
  have "n \<in> set [0..<16]" using that by simp
  moreover have "\<forall>n\<in>set [0..<16]. has_flag (sysdeps_proc_uid OR sysdeps_proc_uid_stat) n = (n \<in> {0..3} \<union> {8..15})"
    by (simp add: upt_rec has_flag_def sysdeps_proc_uid_def sysdeps_proc_uid_stat_def)
  ultimately show ?thesis by blast
qed

lemma process_uid:
  assumes "is_process K pid p"
  shows "let b = glibtop_get_proc_uid_s K server pid in
     pu_flags b = sysdeps_proc_uid OR sysdeps_proc_uid_stat
     \<and> pu_uid b = of_nat (pr_ruid p) \<and> pu_euid b = of_nat (pr_euid p)
     \<and> pu_pgrp b = of_int (pr_pgrp p) \<and> pu_session b = of_int (pr_session p)
     \<and> pu_tty b = (if (of_int (pr_tty p) :: 32 word) = 0 then - 1 else of_int (pr_tty p))"
proof -
  obtain before ppid between others groups where
    st: "proc_status_to_buffer K BUFSIZ pid = Some (status_text before pid ppid between (pr_ruid p) (pr_euid p) others groups)"
    and c: "strstr before (NL # ''Pid:'') = None" "strstr between (NL # ''Uid:'') = None"
    "strstr others (NL # ''Gid:'') = None" "sep between" "sep others"
    "- (2 ^ 31) \<le> ppid" "ppid < 2 ^ 31" "- (2 ^ 31) \<le> pid" "pid < 2 ^ 31" "pr_ruid p < 2 ^ 32" "pr_euid p < 2 ^ 32"
    using assms unfolding is_process_def status_file_def by blast
  obtain gid egid where u: "proc_uid_status (status_text before pid ppid between (pr_ruid p) (pr_euid p) others groups)
    = (proc_uid_zero\<lparr>pu_pid := of_int pid, pu_ppid := of_int ppid, pu_uid := of_nat (pr_ruid p), pu_euid := of_nat (pr_euid p),
         pu_gid := gid, pu_egid := egid, pu_flags := sysdeps_proc_uid\<rparr>, True)"
    using uid_status_text [OF c] by blast
  obtain cmd rest where sf: "stat_file K pid cmd rest" and len: "37 \<le> length (words rest)"
    and int: "\<forall>k\<in>{5..8} \<union> {18, 19, 39}. is_int (field rest k)"
    and f: "field rest 5 = show_int (pr_pgrp p)" "field rest 6 = show_int (pr_session p)" "field rest 7 = show_int (pr_tty p)"
    using assms unfolding is_process_def by blast
  obtain line where l: "proc_stat_to_buffer K BUFSIZ pid = Some line"
    "proc_stat_after_cmd line = (Some rest, show_int pid @ '' ('' @ cmd)"
    using sf by (rule stat_fileE)
  have "17 \<le> length (words rest)" "\<forall>k\<in>{5..8} \<union> {18, 19}. is_int (field rest k)" using len int by auto
  note p = proc_uid_stat_spec [OF this]
  show ?thesis
    unfolding glibtop_get_proc_uid_s_def st option.case u prod.case bool.case l p f int_tok_show Let_def by simp
qed

lemma process_state_R: "process_state [c] = GLIBTOP_PROCESS_RUNNING \<longleftrightarrow> c = CHR ''R''"
  by simp

lemma process_state:
  assumes "is_process K pid p"
  shows "\<exists>b. glibtop_get_proc_state_s K pid = Inr b \<and> has_flag (ps_flags b) 1
     \<and> (ps_state b = GLIBTOP_PROCESS_RUNNING \<longleftrightarrow> pr_state p = CHR ''R'')"
proof -
  obtain cmd rest gid where p: "stat_file K pid cmd rest" "k_stat K (proc_path pid []) = Some (pr_owner p, gid)"
    "37 \<le> length (words rest)" "is_int (field rest 39)" "field rest 3 = [pr_state p]"
    using assms unfolding is_process_def by blast
  have "has_flag (sysdeps_proc_state_uid OR sysdeps_proc_state) 1"
    by (simp add: has_flag_def sysdeps_proc_state_uid_def sysdeps_proc_state_def)
  then show ?thesis
    using proc_state_spec [OF p(1-4)] p(5) process_state_R [of "pr_state p"] by simp
qed

definition kept :: "kernel \<Rightarrow> glibtop \<Rightarrow> 64 word \<Rightarrow> 64 word \<Rightarrow> 32 word \<Rightarrow> bool res" where
  "kept K server which arg pid =
     (if which_matches K server which arg pid then not_excluded K server which pid else Inr False)"

lemma proclist_loop_filter:
  assumes "\<forall>pid\<in>set (List.map_filter entry_pid entries). kept K server which arg pid = Inr (keep pid)"
  shows "proclist_loop K server which arg entries = Inr (filter keep (List.map_filter entry_pid entries))"
  using assms
  by (induction entries) (auto simp: kept_def map_filter_simps split: option.splits if_splits)

lemma proc_entries_pids:
  "proc_entries entries ns \<Longrightarrow> List.map_filter entry_pid entries = map of_int ns \<and> (\<forall>n\<in>set ns. 0 < n \<and> n < 2 ^ 31)
     \<and> length ns \<le> length entries"
proof (induction rule: proc_entries.induct)
  case (2 es ns n)
  have "fst (strtoul 10 (show_nat n)) = of_nat n"
    using strtoull_show [of "[]" "[]" 10 n] 2 by simp
  moreover have "(ucast (of_nat n :: 64 word) :: 32 word) = of_nat n"
    using ucast_of_int [of "int n"] by simp
  moreover have "(of_nat n :: 32 word) \<noteq> 0" 
  proof
    assume "(of_nat n :: 32 word) = 0"
    then have "unat (of_nat n :: 32 word) = 0" by simp
    with 2 show False by (simp add: unsigned_of_nat take_bit_nat_eq_self)
  qed
  ultimately show ?case using 2 by (simp add: entry_pid_def map_filter_simps)
next
  case (3 es ns c name d)
  have "\<forall>c\<in>set ''._abcdefghijklmnopqrstuvwxyz''. \<not> isspace c \<and> \<not> digit_val c < 10 \<and> c \<noteq> CHR ''-'' \<and> c \<noteq> CHR ''+''"
    by code_simp
  with 3 have c: "\<not> isspace c" "\<not> digit_val c < 10" "c \<noteq> CHR ''-''" "c \<noteq> CHR ''+''" by blast+
  then have "strto 10 (c # name) = None"
    by (simp add: strto_def strto_prefix_def)
  with 3 show ?case by (simp add: entry_pid_def map_filter_simps strtoull_def)
next
  case (4 es ns name)
  then show ?case by (simp add: entry_pid_def map_filter_simps)
qed (simp add: map_filter_simps)

lemma kind_of: "(w :: 64 word) AND 15 = of_nat (unat w mod 16)"
proof -
  have "w AND 15 = take_bit 4 w" by (simp add: take_bit_eq_mask mask_eq_exp_minus_1)
  moreover have "unat (take_bit 4 w) = unat w mod 16"
    unfolding unsigned_take_bit_eq by (simp add: take_bit_eq_mod)
  moreover have "take_bit 4 w = of_nat (unat (take_bit 4 w))" by simp
  ultimately show ?thesis by (simp only:)
qed

lemma kept_asked_for:
  assumes p: "is_listed K pid po" and pid: "0 < pid" "pid < 2 ^ 31"
  shows "kept K server which arg (of_int pid) = Inr (asked_for which arg pid po)"
proof -
  have s: "sint (of_int pid :: 32 word) = pid" using pid by (simp add: signed_of_int signed_take_bit_int_eq_self)
  have u: "''/proc/'' @ show_nat (unat (of_int pid :: 32 word)) = proc_path pid []"
    using pid by (simp add: show_int_def unsigned_of_int take_bit_int_eq_self)
  define k where "k = unat which mod 16"
  have k: "k < 16" by (simp add: k_def)
  have w: "which AND 15 = of_nat k" by (simp add: k_def kind_of)
  have kk: "(of_nat k :: 64 word) = of_nat m \<longleftrightarrow> k = m" if "m < 16" for m
    using k that by (simp add: of_nat64_eq)
  note ks = kk [of 1] kk [of 2] kk [of 3] kk [of 4] kk [of 5] kk [of 6]
  have bits: "which AND 0x1000 \<noteq> 0 \<longleftrightarrow> bit which 12" "which AND 0x2000 \<noteq> 0 \<longleftrightarrow> bit which 13"
    "which AND 0x4000 \<noteq> 0 \<longleftrightarrow> bit which 14"
    using and_exp_eq_0_iff_not_bit [of which 12] and_exp_eq_0_iff_not_bit [of which 13]
      and_exp_eq_0_iff_not_bit [of which 14] by simp_all
  show ?thesis
  proof (cases po)
    case None
    then have g: "glibtop_get_proc_uid_s K server pid = proc_uid_zero" "glibtop_get_proc_state_s K pid = Inr proc_state_zero"
      and st: "k_stat K (proc_path pid []) = None"
      using p by (simp_all add: is_listed_def has_ended_def glibtop_get_proc_uid_s_def glibtop_get_proc_state_s_def)
    have z: "\<not> has_flag 0 n" for n by (simp add: has_flag_def)
    show ?thesis
      using ks unfolding kept_def which_matches_def not_excluded_def asked_for_def s u w Let_def g st
      by (auto simp: None k_def [symmetric] proc_uid_zero_def proc_state_zero_def z)
  next
    case (Some p')
    then have ip: "is_process K pid p'" using p by (simp add: is_listed_def)
    note uid = process_uid [OF ip, of server, unfolded Let_def]
    obtain b where b: "glibtop_get_proc_state_s K pid = Inr b" "has_flag (ps_flags b) 1"
      "ps_state b = GLIBTOP_PROCESS_RUNNING \<longleftrightarrow> pr_state p' = CHR ''R''"
      using process_state [OF ip] by blast
    obtain gid where st: "k_stat K (proc_path pid []) = Some (pr_owner p', gid)"
      and r: "pr_ruid p' < 2 ^ 32" using ip by (auto simp: is_process_def status_file_def)
    have z: "(of_nat (pr_ruid p') :: 32 word) = 0 \<longleftrightarrow> pr_ruid p' = 0"

    proof
      assume "(of_nat (pr_ruid p') :: 32 word) = 0"
      then have "unat (of_nat (pr_ruid p') :: 32 word) = 0" by simp
      with r show "pr_ruid p' = 0" by (simp add: unsigned_of_nat take_bit_nat_eq_self)
    qed simp
    note f = has_flag_uid [of 0] has_flag_uid [of 1] has_flag_uid [of 10] has_flag_uid [of 11] has_flag_uid [of 12]
    show ?thesis
      using ks f b uid unfolding kept_def which_matches_def not_excluded_def asked_for_def s u w Let_def st bits
      by (auto simp: Some k_def [symmetric] z)
  qed
qed

text \<open>
  C18. The process list: from a directory that has the processes with the numbers \<open>ns\<close>, each of them either there as
  the kernel documents its files or ended meanwhile, the function returns, in the order of the directory, those that \<open>which\<close> and
  \<open>arg\<close> ask for: the process with a number, the members of a process group or of a session, those on a terminal (-1 where there is
  none), those whose directory a user owns. The request \<open>GLIBTOP_KERN_PROC_RUID\<close>, for which \<open>proclist.h\<close> promises the
  processes with a real user id, compares the effective one. The flags leave out what does not run, what
  belongs to root by its real user id, what has no terminal. A process that ended is left out only where its number or the owner of its
  directory is asked for. \<open>number\<close>, \<open>size\<close> and \<open>total\<close> describe the block that is returned.
\<close>

theorem proclist_spec:
  assumes d: "k_readdir K ''/proc'' = Some entries" and len: "length entries < 2 ^ 62"
    and e: "proc_entries entries ns" and p: "\<forall>n\<in>set ns. is_listed K n (P n)"
    and pids: "pids = filter (\<lambda>n. asked_for which arg n (P n)) ns"
  shows "\<exists>buf. glibtop_get_proclist_s K True server which arg = Inr (buf, Some (map of_int pids))
    \<and> unat (pl_number buf) = length pids \<and> pl_size buf = 4 \<and> unat (pl_total buf) = 4 * length pids
    \<and> pl_flags buf = sd (s_sysdeps (init_proclist_s server)) F_PROCLIST"
proof -
  note l = proc_entries_pids [OF e]
  define f where "f = (\<lambda>w :: 32 word. asked_for which arg (sint w) (P (sint w)))"
  have s: "sint (of_int n :: 32 word) = n" if "n \<in> set ns" for n
    using l that by (auto simp: signed_of_int intro!: signed_take_bit_int_eq_self)
  have "\<forall>pid\<in>set (List.map_filter entry_pid entries). kept K server which arg pid = Inr (f pid)"
    using l p kept_asked_for [of K _ "P _" server which arg] s by (auto simp: f_def)
  from proclist_loop_filter [OF this] l
  have "proclist_loop K server which arg entries = Inr (filter f (map of_int ns))" by simp
  moreover have "filter f (map of_int ns) = map of_int pids"
    using s unfolding pids filter_map by (auto simp: f_def intro!: arg_cong [of _ _ "map of_int"] filter_cong)
  moreover have "length pids \<le> length ns" unfolding pids by (rule length_filter_le)
  then have n: "4 * length pids < 2 ^ 64" "length pids < 2 ^ 64" using len l by simp_all
  moreover have "(of_nat (length pids) * 4 :: guint64) = of_nat (4 * length pids)" by simp
  then have "unat (of_nat (length pids) * 4 :: guint64) = 4 * length pids"
    using unat_of_nat64 [OF n(1)] by (simp only:)
  ultimately show ?thesis
    using unat_of_nat64 [OF n(2)] by (simp add: glibtop_get_proclist_s_def d init_proclist_s_def set_sysdeps_def)
qed

text \<open>A system with a process 7, which runs with the effective user id 1000 and the real one 500, and a process 42
  that has ended.\<close>

definition demo_status :: string where
  "demo_status = status_text ''Name:'' 7 1 [] 500 1000 [] []"

definition proc_dir_kernel :: kernel where
  "proc_dir_kernel = (file_kernel [(proc_path 7 ''/stat'', show_int 7 @ '' ('' @ ''a) (b'' @ '')'' @ demo_rest),
       (proc_path 7 ''/status'', demo_status)])
     \<lparr>k_readdir := (\<lambda>p. if p = ''/proc''
        then Some [(show_nat 7, True), (''acpi'', True), (''7'', False), (show_nat 42, True)] else None),
      k_stat := (\<lambda>p. if p = proc_path 7 [] then Some (1000, 100) else None)\<rparr>"

lemma demo_listed:
  "is_process proc_dir_kernel 7 \<lparr>pr_owner = 1000, pr_ruid = 500, pr_euid = 1000, pr_state = CHR ''S'', pr_pgrp = 2,
     pr_session = 3, pr_tty = 4\<rparr>" (is "is_process ?K 7 ?p")
  "has_ended proc_dir_kernel 42"
proof -
  define fs where "fs = [(proc_path 7 ''/stat'', show_int 7 @ '' ('' @ ''a) (b'' @ '')'' @ demo_rest),
       (proc_path 7 ''/status'', demo_status)]"
  have same: "proc_file_to_buffer ?K = proc_file_to_buffer (file_kernel fs)"
    by (simp add: fun_eq_iff proc_dir_kernel_def fs_def proc_file_to_buffer_def try_file_to_buffer_def)
  have st: "demo_status = ''Name:'' @ NL # ''Pid:'' @ TAB # ''7'' @ NL # ''PPid:'' @ TAB # ''1''
     @ NL # ''Uid:'' @ TAB # ''500'' @ TAB # ''1000'' @ NL # ''Gid:''"
    by (simp only: demo_status_def status_text_def append_Nil append_Nil2) code_simp
  have "length demo_status < BUFSIZ" "NUL \<notin> set demo_status"
    by (simp_all add: st BUFSIZ_def)
  then have a: "proc_status_to_buffer ?K BUFSIZ 7 = Some demo_status"
    by (simp add: proc_status_to_buffer_def same file_kernel_proc fs_def)
  have "length (show_int 7 @ '' ('' @ ''a) (b'' @ '')'' @ demo_rest) < BUFSIZ"
    "NUL \<notin> set (show_int 7 @ '' ('' @ ''a) (b'' @ '')'' @ demo_rest)" and c: "CHR '')'' \<notin> set demo_rest"
    by (simp_all add: show_int_7 demo_rest_def BUFSIZ_def)
  then have b: "proc_stat_to_buffer ?K BUFSIZ 7 = Some (show_int 7 @ '' ('' @ ''a) (b'' @ '')'' @ demo_rest)"
    unfolding proc_stat_to_buffer_def same by (intro file_kernel_proc) (simp_all add: fs_def)
  have n: "is_int (show_nat n)" if "n < 100" for n
    unfolding is_int_def using that by (intro exI [of _ "int n"]) (simp add: show_int_def)
  have f: "\<forall>k\<in>{5..8} \<union> {18, 19, 39}. is_int (field demo_rest k)"
    using n by (auto simp: demo_field)
  have "status_file ?K 7 500 1000"
    unfolding status_file_def a demo_status_def
    by (rule conjI, rule exI [of _ "''Name:''"], rule exI [of _ 1], rule exI [of _ "[]"], rule exI [of _ "[]"],
        rule exI [of _ "[]"]) (simp_all add: strncmp_eq_def)
  moreover have "stat_file ?K 7 ''a) (b'' demo_rest" using b c by (simp add: stat_file_def)
  moreover have "field demo_rest 5 = show_int 2" "field demo_rest 6 = show_int 3" "field demo_rest 7 = show_int 4"
    "field demo_rest 3 = ''S''" "37 \<le> length (words demo_rest)"
    by (simp_all add: demo_field show_int_def) (simp_all add: field_def demo_words)
  moreover have "k_stat ?K (proc_path 7 []) = Some (1000, 100)" by (simp add: proc_dir_kernel_def)
  ultimately show "is_process ?K 7 ?p" using f unfolding is_process_def by (intro conjI) auto
  have "proc_path 42 [] \<noteq> proc_path 7 []" "proc_path 42 ''/stat'' \<notin> fst ` set fs" "proc_path 42 ''/status'' \<notin> fst ` set fs"
    by (simp_all add: fs_def) code_simp+
  then show "has_ended ?K 42"
    unfolding has_ended_def proc_status_to_buffer_def proc_stat_to_buffer_def same
    by (simp add: proc_file_to_buffer_def try_file_to_buffer_def file_kernel_def map_of_eq_None_iff [THEN iffD2] proc_dir_kernel_def)
qed

theorem proclist_spec_witness:
  "\<exists>buf. glibtop_get_proclist_s proc_dir_kernel True glibtop_global_server GLIBTOP_KERN_PROC_RUID 1000
       = Inr (buf, Some [7, 42]) \<and> unat (pl_total buf) = 8"
proof -
  define P where "P = (\<lambda>n :: int. if n = 7 then Some \<lparr>pr_owner = 1000, pr_ruid = 500, pr_euid = 1000, pr_state = CHR ''S'',
     pr_pgrp = 2, pr_session = 3, pr_tty = 4\<rparr> else None)"
  have d: "k_readdir proc_dir_kernel ''/proc'' = Some [(show_nat 7, True), (''acpi'', True), (''7'', False), (show_nat 42, True)]"
    by (simp add: proc_dir_kernel_def)
  have "proc_entries [(show_nat 7, True), (''acpi'', True), (''7'', False), (show_nat 42, True)] [int 7, int 42]"
    by (intro proc_entries.intros) simp_all
  moreover have "\<forall>n\<in>set [int 7, int 42]. is_listed proc_dir_kernel n (P n)"
    using demo_listed by (simp add: is_listed_def P_def)
  moreover have "filter (\<lambda>n. asked_for 6 1000 n (P n)) [int 7, int 42] = [7, 42]"
    by (simp add: asked_for_def P_def)
  ultimately show ?thesis
    using proclist_spec [OF d, of "[int 7, int 42]" P "[7, 42]" 6 1000 glibtop_global_server] by fastforce
qed

lemma is_in_iff [simp]: "is_in ds str \<longleftrightarrow> str \<in> set ds"
  by (induction ds) auto

definition task_dir :: "kernel \<Rightarrow> 32 word \<Rightarrow> string \<Rightarrow> string option" where
  "task_dir K pid d_name = safe_readlink K (upath pid (''/task/'' @ d_name @ ''/cwd'')) 256"

lemma task_loop_spec:
  "distinct dirs \<Longrightarrow> distinct (task_loop K pid subs dirs) \<and> set (task_loop K pid subs dirs)
     = set dirs \<union> {dir. \<exists>d_name b. (d_name, b) \<in> set subs \<and> d_name \<noteq> [] \<and> isdigit (hd d_name)
         \<and> task_dir K pid d_name = Some dir}"
proof (induction K pid subs dirs rule: task_loop.induct)
  case (2 K pid d_name b subs dirs)
  have t: "safe_readlink K (upath pid (''/task/'' @ d_name @ ''/cwd'')) 256 = task_dir K pid d_name"
    by (simp add: task_dir_def)
  show ?case
  proof (cases "d_name = [] \<or> \<not> isdigit (hd d_name)")
    case True
    with 2(1) [OF True 2(5)] show ?thesis by auto
  next
    case False
    show ?thesis
    proof (cases "task_dir K pid d_name")
      case None
      with 2(2) [OF False] False 2(5) t show ?thesis by auto
    next
      case (Some dir)
      show ?thesis
      proof (cases "is_in dirs dir")
        case True
        with 2(3) [OF False _ True] Some False 2(5) t show ?thesis by auto
      next
        case False2: False
        with 2(4) [OF False _ False2] Some False 2(5) t show ?thesis by auto
      qed
    qed
  qed
qed simp

text \<open>
  The working directories of a process: the list has no directory twice, it holds exactly the
  targets of \<open>cwd\<close> of the process and of its tasks as far as the links can be read, and \<open>number\<close>
  is its length.
\<close>

theorem proc_wd_spec:
  assumes "glibtop_get_proc_wd_s K pid = (buf, dirs)"
  shows "distinct dirs \<and> wd_number buf = of_nat (length dirs)
    \<and> set dirs = set_option (safe_readlink K (upath pid ''/cwd'') 256)
        \<union> {dir. \<exists>subs d_name b. k_readdir K (upath pid ''/task'') = Some subs \<and> (d_name, b) \<in> set subs
             \<and> d_name \<noteq> [] \<and> isdigit (hd d_name) \<and> task_dir K pid d_name = Some dir}"
proof -
  define d0 where "d0 = (case safe_readlink K (upath pid ''/cwd'') 256 of None \<Rightarrow> [] | Some dir \<Rightarrow> [dir])"
  have d0: "distinct d0" "set d0 = set_option (safe_readlink K (upath pid ''/cwd'') 256)"
    by (cases "safe_readlink K (upath pid ''/cwd'') 256"; simp add: d0_def)+
  have "dirs = (case k_readdir K (upath pid ''/task'') of
            None \<Rightarrow> d0 | Some subs \<Rightarrow> task_loop K pid subs d0)"
    and n: "wd_number buf = of_nat (length dirs)"
    using assms unfolding glibtop_get_proc_wd_s_def d0_def [symmetric]
    by (auto simp: Let_def split: option.splits prod.splits)
  with task_loop_spec [OF d0(1), of K pid] d0 n show ?thesis by (auto split: option.splits)
qed

lemma distinct_singleton_set: "distinct xs \<and> set xs = {x} \<Longrightarrow> xs = [x]"
proof -
  assume a: "distinct xs \<and> set xs = {x}"
  then have "length xs = 1" using distinct_card [of xs] by simp
  with a show "xs = [x]" by (cases xs) auto
qed

definition wd_kernel :: kernel where
  "wd_kernel = (file_kernel [])\<lparr>k_readdir := (\<lambda>p. Some [(''.'', True), (''7'', True), (''8'', True)]),
     k_readlink := (\<lambda>p. Some ''/home'')\<rparr>"

theorem proc_wd_spec_witness:
  "snd (glibtop_get_proc_wd_s wd_kernel 7) = [''/home'']"
proof -
  obtain buf dirs where r: "glibtop_get_proc_wd_s wd_kernel 7 = (buf, dirs)" by fastforce
  have l: "safe_readlink wd_kernel p 256 = Some ''/home''" for p
    by (simp add: safe_readlink_def wd_kernel_def c_str_def)
  have "distinct dirs \<and> set dirs = {''/home''}"
    using proc_wd_spec [OF r] unfolding task_dir_def l by auto
  then have "dirs = [''/home'']"
    by (rule distinct_singleton_set)
  with r show ?thesis by simp
qed

text \<open>
  The affinity: the list holds exactly the processors of the mask, in order and once each,
  and \<open>all\<close> says that none of the system's processors is missing.
\<close>

theorem proc_affinity_spec:
  assumes "0 \<le> s_ncpu server" and "s_ncpu server < 1024"
    and "glibtop_get_proc_affinity_s (Some is_set) server = Inr (buf, cpus)"
  shows "set (map unat cpus) = {i. is_set i \<and> int i \<le> s_ncpu server} \<and> sorted (map unat cpus) \<and> distinct cpus
    \<and> unat (af_number buf) = length cpus
    \<and> (af_all buf \<longleftrightarrow> (\<forall>i. int i \<le> s_ncpu server \<longrightarrow> is_set i))"
proof -
  define n where "n = nat (s_ncpu server + 1)"
  have n: "n \<le> 1024" "min 1024 n = n" "\<And>i. int i \<le> s_ncpu server \<longleftrightarrow> i < n"
    using assms(1,2) by (auto simp: n_def)
  define xs where "xs = filter is_set [0..<n]"
  have r: "cpus = map of_nat xs" "buf = \<lparr>af_flags = flag 0 OR flag 1, af_number = of_nat (length cpus),
      af_all = (length cpus = n)\<rparr>"
    using assms(3) n(2) by (auto simp: glibtop_get_proc_affinity_s_def Let_def n_def [symmetric] xs_def)
  have "unat (of_nat i :: 16 word) = i" if "i \<in> set xs" for i
    using that n(1) by (simp add: xs_def unat_of_nat)
  then have u: "map unat cpus = xs" by (simp add: r(1) comp_def map_idI)
  have len: "length xs \<le> n" using length_filter_le [of is_set "[0..<n]"] by (simp add: xs_def)
  have "length (filter is_set [0..<n]) = n \<longleftrightarrow> (\<forall>i<n. is_set i)"
  proof
    assume "length (filter is_set [0..<n]) = n"
    then have "filter is_set [0..<n] = [0..<n]"
      using length_filter_less [of _ "[0..<n]" is_set]
      by (intro filter_True) (metis length_upt minus_nat.diff_0 less_irrefl)
    then show "\<forall>i<n. is_set i" by (auto simp: filter_id_conv)
  qed (simp add: filter_id_conv [THEN iffD2])
  then have all: "af_all buf \<longleftrightarrow> (\<forall>i<n. is_set i)" by (simp add: r xs_def)
  have "distinct (map unat cpus)" unfolding u by (simp add: xs_def)
  then have "distinct cpus" by (simp only: distinct_map)
  moreover have "sorted xs" by (simp add: xs_def sorted_wrt_filter)
  moreover have "unat (af_number buf) = length cpus"
    using len n(1) by (simp add: r unat_of_nat)
  moreover have "set xs = {i. is_set i \<and> int i \<le> s_ncpu server}" unfolding n(3) xs_def by auto
  ultimately show ?thesis unfolding u using all n(3) by simp
qed

theorem proc_affinity_spec_witness:
  "\<exists>buf cpus. glibtop_get_proc_affinity_s (Some (\<lambda>i. i \<noteq> 1)) (glibtop_global_server\<lparr>s_ncpu := 3\<rparr>) = Inr (buf, cpus)
     \<and> set (map unat cpus) = {0, 2, 3} \<and> \<not> af_all buf"
proof -
  obtain buf cpus where r: "glibtop_get_proc_affinity_s (Some (\<lambda>i. i \<noteq> 1)) (glibtop_global_server\<lparr>s_ncpu := 3\<rparr>) = Inr (buf, cpus)"
    by (simp add: glibtop_get_proc_affinity_s_def)
  have s: "{i. i \<noteq> 1 \<and> int i \<le> 3} = {0, 2, 3 :: nat}" by auto
  have n: "s_ncpu (glibtop_global_server\<lparr>s_ncpu := 3\<rparr>) = 3" by simp
  have a: "\<not> (\<forall>i. int i \<le> 3 \<longrightarrow> i \<noteq> 1)" by (auto intro: exI [of _ 1])
  note spec = proc_affinity_spec [OF _ _ r, unfolded n s]
  have "set (map unat cpus) = {0, 2, 3}" "\<not> af_all buf" using spec a by simp_all
  with r show ?thesis by blast
qed

end
