(* ===== verification/Scanf.thy ===== *)
theory Scanf
  imports ProcText
begin

text \<open>
  \<open>sscanf\<close> for the conversions that the Linux port uses. A lone \<open>0x\<close> is read as 0 here, as
  \<open>strtoul\<close> does; the files of the kernel do not hold one.
\<close>

section \<open>Conversions\<close>

definition scan_num :: "nat \<Rightarrow> nat option \<Rightarrow> string \<Rightarrow> ((bool \<times> nat) \<times> string) option" where
  \<comment> \<open>sign and number, and the text behind it; the second argument is the width\<close>
  "scan_num base w s =
     (let s = dropWhile isspace s; t = (case w of None \<Rightarrow> s | Some n \<Rightarrow> take n s) in
      case strto base t of
        None \<Rightarrow> None
      | Some (neg, v, r) \<Rightarrow> Some ((neg, v), drop (length t - length r) s))"

fun scan_lit :: "char \<Rightarrow> string \<Rightarrow> string option" where
  "scan_lit c [] = None"
| "scan_lit c (d # s) = (if c = d then Some s else None)"

definition scan_word :: "string \<Rightarrow> string option" where
  \<comment> \<open>\<open>%*s\<close>\<close>
  "scan_word s =
     (let s = dropWhile isspace s in if s = [] then None else Some (dropWhile (\<lambda>c. \<not> isspace c) s))"

datatype conv = SkipNum nat | SkipWord | Lit char | Num nat "nat option"

text \<open>A format: the numbers that are stored before the first conversion that fails. White space in
  a format is skipped by the conversion behind it.\<close>

fun scan_all :: "conv list \<Rightarrow> string \<Rightarrow> (bool \<times> nat) list" where
  "scan_all [] s = []"
| "scan_all (SkipNum b # cs) s =
     (case scan_num b None s of None \<Rightarrow> [] | Some (_, s) \<Rightarrow> scan_all cs s)"
| "scan_all (SkipWord # cs) s = (case scan_word s of None \<Rightarrow> [] | Some s \<Rightarrow> scan_all cs s)"
| "scan_all (Lit c # cs) s = (case scan_lit c s of None \<Rightarrow> [] | Some s \<Rightarrow> scan_all cs s)"
| "scan_all (Num b w # cs) s =
     (case scan_num b w s of None \<Rightarrow> [] | Some (v, s) \<Rightarrow> v # scan_all cs s)"

definition scan_int32 :: "bool \<times> nat \<Rightarrow> 32 word" where
  "scan_int32 = (\<lambda>(neg, v). if neg then - of_nat v else of_nat v)"

definition scan_u64 :: "bool \<times> nat \<Rightarrow> 64 word" where
  \<comment> \<open>\<open>%llu\<close>\<close>
  "scan_u64 = (\<lambda>(neg, v). if 2 ^ 64 \<le> v then - 1 else if neg then - of_nat v else of_nat v)"

section \<open>Numbers that printf wrote\<close>

lemma scan_num_show:
  assumes "\<forall>c\<in>set ws. g_ascii_isspace c" "sep r"
  shows "scan_num 10 None (ws @ show_nat n @ r) = Some ((False, n), r)"
proof -
  have "dropWhile isspace (ws @ show_nat n @ r) = show_nat n @ r"
    using assms(1) by (rule dropWhile_space_show)
  moreover have "strto 10 (show_nat n @ r) = Some (False, n, r)"
    using strto_show [of "[]" r 10 n] assms(2) by simp
  ultimately show ?thesis by (simp add: scan_num_def)
qed

section \<open>Hex digits\<close>

definition hex :: "string \<Rightarrow> bool" where
  "hex ds \<longleftrightarrow> ds \<noteq> [] \<and> (\<forall>c\<in>set ds. digit_val c < 16)"

abbreviation hexval :: "string \<Rightarrow> nat" where "hexval \<equiv> digits_to_nat 16"

lemma digits_to_nat_less: "\<forall>c\<in>set ds. digit_val c < 16 \<Longrightarrow> hexval ds < 16 ^ length ds"
proof (induction ds rule: rev_induct)
  case (snoc d ds)
  then have "hexval ds < 16 ^ length ds" "digit_val d < 16" by auto
  then show ?case by (simp add: digits_to_nat_def)
qed (simp add: digits_to_nat_def)

lemma hex_not_space: "digit_val c < 16 \<Longrightarrow> \<not> isspace c"
  using digit_val_space [of c] by auto

lemma hex_no_x: "digit_val (CHR ''x'') = 33" "digit_val (CHR ''X'') = 33"
  by (simp_all add: digit_val_def)

lemma strto_hexdigits:
  assumes "hex ds" and "\<forall>c\<in>set ws. isspace c"
    and "r = [] \<or> (16 \<le> digit_val (hd r) \<and> hd r \<noteq> CHR ''x'' \<and> hd r \<noteq> CHR ''X'')"
  shows "strto 16 (ws @ ds @ r) = Some (False, hexval ds, r)"
proof -
  obtain d ds' where ds: "ds = d # ds'" and dig: "\<forall>c\<in>set ds. digit_val c < 16"
    using assms(1) by (cases ds) (auto simp: hex_def)
  have "dropWhile isspace (ws @ ds @ r) = ds @ r"
    using assms(2) hex_not_space [of d] dig ds by (induction ws) auto
  moreover have "strto_sign (ds @ r) = (False, ds @ r)"
    using strto_sign_digit [of d] dig ds by auto
  moreover have "\<not> strto_hex (ds @ r)"
  proof
    assume h: "strto_hex (ds @ r)"
    then have "length (ds @ r) \<ge> 2" "(ds @ r) ! 1 \<in> {CHR ''x'', CHR ''X''}"
      by (cases "ds @ r" rule: strto_hex.cases; auto)+
    then show False
    proof (cases ds')
      case Nil
      with \<open>(ds @ r) ! 1 \<in> _\<close> \<open>length (ds @ r) \<ge> 2\<close> ds assms(3) show False by (cases r) auto
    next
      case (Cons e es)
      with \<open>(ds @ r) ! 1 \<in> _\<close> ds dig show False by (auto simp: hex_no_x)
    qed
  qed
  moreover have "takeWhile (\<lambda>c. digit_val c < 16) (ds @ r) = ds" "dropWhile (\<lambda>c. digit_val c < 16) (ds @ r) = r"
    using dig assms(3) by (cases r; simp add: takeWhile_append dropWhile_append)+
  ultimately show ?thesis
    by (simp add: strto_def strto_prefix_def Let_def ds)
qed

lemma strtoull_hexdigits:
  assumes "hex ds" and "\<forall>c\<in>set ws. isspace c" and "hexval ds < 2 ^ 64"
    and "r = [] \<or> (16 \<le> digit_val (hd r) \<and> hd r \<noteq> CHR ''x'' \<and> hd r \<noteq> CHR ''X'')"
  shows "strtoull 16 (ws @ ds @ r) = (of_nat (hexval ds), r)"
  using strto_hexdigits [OF assms(1,2,4)] assms(3) by (simp add: strtoull_def)

lemma digit_val_delims: "digit_val (CHR ''-'') = 36" "digit_val (CHR '':'') = 36" "digit_val SP = 36"
  by (simp_all add: digit_val_def)

lemma scan_hex:
  assumes "hex ds" "\<forall>c\<in>set ws. isspace c"
    and "r = [] \<or> (16 \<le> digit_val (hd r) \<and> hd r \<noteq> CHR ''x'' \<and> hd r \<noteq> CHR ''X'')"
  shows "scan_num 16 None (ws @ ds @ r) = Some ((False, hexval ds), r)"
proof -
  have "dropWhile isspace (ws @ ds @ r) = ds @ r"
    using assms(1,2) hex_not_space by (induction ws) (cases ds; auto simp: hex_def)+
  moreover have "strto 16 (ds @ r) = Some (False, hexval ds, r)"
    using strto_hexdigits [OF assms(1), of "[]" r] assms(3) by simp
  ultimately show ?thesis by (simp add: scan_num_def)
qed

lemma scan_hex_width:
  assumes "hex ds" "\<forall>c\<in>set ws. isspace c" "length ds = n"
  shows "scan_num 16 (Some n) (ws @ ds @ r) = Some ((False, hexval ds), r)"
proof -
  have "dropWhile isspace (ws @ ds @ r) = ds @ r"
    using assms(1,2) hex_not_space by (induction ws) (cases ds; auto simp: hex_def)+
  moreover have "strto 16 ds = Some (False, hexval ds, [])"
    using strto_hexdigits [OF assms(1), of "[]" "[]"] by simp
  ultimately show ?thesis using assms(3) by (simp add: scan_num_def)
qed

text \<open>A decimal conversion on hex digits stops at the first letter.\<close>

definition decimal :: "string \<Rightarrow> bool" where
  "decimal ds \<longleftrightarrow> (\<forall>c\<in>set ds. digit_val c < 10)"

lemma strto_ten:
  assumes "digit_val c < 36"
  shows "strto 10 (c # s) =
    (if digit_val c < 10
     then Some (False, digits_to_nat 10 (takeWhile (\<lambda>c. digit_val c < 10) (c # s)), dropWhile (\<lambda>c. digit_val c < 10) s)
     else None)"
proof -
  have "\<not> isspace c" using assms digit_val_space [of c] by auto
  then show ?thesis using strto_sign_digit [OF assms] by (simp add: strto_def strto_prefix_def Let_def)
qed

lemma scan_num_ten:
  assumes "digit_val c < 36" "\<forall>c\<in>set ws. isspace c"
  shows "scan_num 10 None (ws @ c # s) =
    (if digit_val c < 10
     then Some ((False, digits_to_nat 10 (takeWhile (\<lambda>c. digit_val c < 10) (c # s))), dropWhile (\<lambda>c. digit_val c < 10) s)
     else None)"
proof -
  have "\<not> isspace c" using assms(1) digit_val_space [of c] by auto
  then have "dropWhile isspace (ws @ c # s) = c # s" using assms(2) by (induction ws) auto
  moreover have "drop (length (c # s) - length (dropWhile (\<lambda>c. digit_val c < 10) s)) (c # s) = dropWhile (\<lambda>c. digit_val c < 10) s"
  proof -
    have "c # s = (c # takeWhile (\<lambda>c. digit_val c < 10) s) @ dropWhile (\<lambda>c. digit_val c < 10) s" by simp
    moreover from this have "length (c # s) - length (dropWhile (\<lambda>c. digit_val c < 10) s) = length (c # takeWhile (\<lambda>c. digit_val c < 10) s)"
      by (metis add_diff_cancel_right' length_append)
    ultimately show ?thesis by (metis append_eq_conv_conj)
  qed
  ultimately show ?thesis by (simp add: scan_num_def strto_ten [OF assms(1)] Let_def del: drop.simps)
qed

lemma strto_dec:
  assumes "r = [] \<or> 10 \<le> digit_val (hd r)"
  shows "strto 10 (show_nat n @ r) = Some (False, n, r)"
proof -
  obtain c s where s: "show_nat n = c # s" by (cases "show_nat n") auto
  have d: "\<forall>c\<in>set (show_nat n). digit_val c < 10" using show_base_digits [of 10] by auto
  have tw: "takeWhile (\<lambda>c. digit_val c < 10) (c # s @ r) = show_nat n" "dropWhile (\<lambda>c. digit_val c < 10) (s @ r) = r"
    using d assms by (cases r; simp add: s takeWhile_append dropWhile_append)+
  have "digit_val c < 10" using d by (simp add: s)
  moreover have "digits_to_nat 10 (c # s) = n" using digits_to_nat_show [of 10 n] by (simp add: s)
  ultimately show ?thesis using strto_ten [of c "s @ r"] tw by (simp add: s)
qed

lemma atoi_dec:
  assumes "r = [] \<or> 10 \<le> digit_val (hd r)" "n < 2 ^ 31"
  shows "atoi (show_nat n @ r) = of_nat n"
  using strto_dec [OF assms(1), of n] assms(2)
  by (simp add: atoi_def strtol_def unsigned_of_nat take_bit_nat_eq_self)

lemma scan_two_decimals:
  assumes h: "hex ds" and ws: "\<forall>c\<in>set ws. isspace c" and r: "r = [] \<or> 36 \<le> digit_val (hd r)"
  shows "scan_all (SkipNum 10 # SkipNum 10 # cs) (ws @ ds @ r) =
    (if decimal ds then scan_all (SkipNum 10 # cs) r else [])"
proof -
  obtain c s where ds: "ds = c # s" and c: "digit_val c < 16" and s: "\<forall>c\<in>set s. digit_val c < 16"
    using h by (cases ds) (auto simp: hex_def)
  let ?d = "\<lambda>c. digit_val c < 10"
  have n: "scan_num 10 None (ws @ ds @ r) =
     (if ?d c then Some ((False, digits_to_nat 10 (takeWhile ?d (c # s @ r))), dropWhile ?d (s @ r)) else None)"
    using scan_num_ten [of c ws "s @ r"] c ws ds by simp
  show ?thesis
  proof (cases "decimal ds")
    case True
    then have "dropWhile ?d (s @ r) = dropWhile ?d r" using ds by (simp add: decimal_def dropWhile_append)
    also have "\<dots> = r" using r by (cases r) auto
    finally show ?thesis using True n ds by (simp add: decimal_def)
  next
    case False
    show ?thesis
    proof (cases "?d c")
      case True
      with False ds have "\<not> (\<forall>c\<in>set s. ?d c)" by (auto simp: decimal_def)
      then have d: "dropWhile ?d (s @ r) = dropWhile ?d s @ r" "dropWhile ?d s \<noteq> []"
        by (auto simp: dropWhile_append dropWhile_eq_Nil_conv)
      then obtain e u where e: "dropWhile ?d s = e # u" by (cases "dropWhile ?d s") auto
      then have "\<not> ?d e" "e \<in> set s" by (metis hd_dropWhile list.distinct(1) list.sel(1), metis list.set_intros(1) set_dropWhileD)
      then have "scan_num 10 None ([] @ e # u @ r) = None"
        using s scan_num_ten [of e "[]" "u @ r"] by fastforce
      with n d(1) e False True show ?thesis by simp
    next
      case nd: False
      with n False show ?thesis by simp
    qed
  qed
qed

section \<open>A row of numbers\<close>

text \<open>Numbers with white space in front of them, and what follows the last one.\<close>

definition fields_text :: "(string \<times> nat) list \<times> string \<Rightarrow> string" where
  "fields_text = (\<lambda>(fs, rest). concat (map (\<lambda>(ws, n). ws @ show_nat n) fs) @ rest)"

definition fields_ok :: "(string \<times> nat) list \<times> string \<Rightarrow> bool" where
  "fields_ok = (\<lambda>(fs, rest). (\<forall>(ws, n)\<in>set fs. (\<forall>c\<in>set ws. g_ascii_isspace c) \<and> n < 2 ^ 64)
     \<and> (\<forall>(ws, n)\<in>set (tl fs). ws \<noteq> []) \<and> sep rest)"

lemma fields_sep:
  assumes "fields_ok ((ws, n) # fs, rest)"
  shows "sep (fields_text (fs, rest))" "fields_ok (fs, rest)"
proof -
  show "fields_ok (fs, rest)" using assms by (cases fs) (auto simp: fields_ok_def)
  show "sep (fields_text (fs, rest))"
  proof (cases fs)
    case Nil
    with assms show ?thesis by (simp add: fields_ok_def fields_text_def)
  next
    case (Cons x fs')
    with assms obtain c ws' n' where "x = (c # ws', n')" "g_ascii_isspace c"
      by (cases x; cases "fst x") (auto simp: fields_ok_def)
    with Cons show ?thesis by (simp add: fields_text_def)
  qed
qed

lemma scan_fields:
  assumes "fields_ok (fs, rest)" "length cs \<le> length fs" "set cs \<subseteq> {SkipNum 10, Num 10 None}"
  shows "scan_all cs (fields_text (fs, rest)) =
    map (\<lambda>(c, ws, n). (False, n)) (filter (\<lambda>(c, _). c = Num 10 None) (zip cs fs))"
  using assms
proof (induction cs arbitrary: fs)
  case (Cons c cs)
  then obtain ws n fs' where fs: "fs = (ws, n) # fs'" by (cases fs) auto
  note ok = fields_sep [of ws n fs' rest]
  have s: "fields_text (fs, rest) = ws @ show_nat n @ fields_text (fs', rest)"
    by (simp add: fields_text_def fs)
  have "\<forall>c\<in>set ws. g_ascii_isspace c" using Cons.prems(1) by (simp add: fields_ok_def fs)
  then have n: "scan_num 10 None (fields_text (fs, rest)) = Some ((False, n), fields_text (fs', rest))"
    unfolding s using ok Cons.prems(1) by (intro scan_num_show) (simp_all add: fs)
  have "c = SkipNum 10 \<or> c = Num 10 None" using Cons.prems(3) by auto
  with n Cons.IH [of fs'] Cons.prems ok show ?case by (auto simp: fs)
qed simp

end
