(* ===== verification/ProcMap.thy ===== *)
theory ProcMap
  imports Scanf ProcText Server
begin

unbundle bit_operations_syntax

text \<open>
  \<open>procmap.c\<close> and \<open>procmap_smaps.c\<close> under \<open>sysdeps/linux\<close>: the memory map of a process from
  \<open>/proc/PID/smaps\<close> or \<open>/proc/PID/maps\<close>. The array of entries is not cleared when it is
  allocated: \<open>junk\<close> is what it holds before an entry is filled in. The macro \<open>MKDEV\<close> of
  \<open>linux/kdev_t.h\<close> is the parameter \<open>mkdev\<close>.
\<close>

section \<open>The keyword table\<close>

datatype smap_field =
    SMAP_size | SMAP_rss | SMAP_shared_clean | SMAP_shared_dirty | SMAP_private_clean
  | SMAP_private_dirty | SMAP_pss | SMAP_swap

definition asso_values :: "nat list" where
  "asso_values = replicate 80 19 @ [0, 19, 5, 0] @ replicate 17 19 @ [5] @ replicate 8 19
     @ [5, 19, 0, 19, 19, 0] @ replicate 5 19 @ [0] @ replicate 134 19"

definition hash :: "string \<Rightarrow> nat \<Rightarrow> nat" where
  "hash str len = len + asso_values ! of_char (str ! (len - 1)) + asso_values ! of_char (hd str)"

definition lengthtable :: "nat list" where
  "lengthtable = [0, 0, 0, 3, 4, 0, 0, 0, 3, 4, 0, 0, 12, 13, 0, 0, 0, 12, 13]"

definition wordlist :: "(string \<times> smap_field) option list" where
  "wordlist = [None, None, None, Some (''Pss'', SMAP_pss), Some (''Swap'', SMAP_swap), None, None, None,
     Some (''Rss'', SMAP_rss), Some (''Size'', SMAP_size), None, None,
     Some (''Shared_Dirty'', SMAP_shared_dirty), Some (''Private_Dirty'', SMAP_private_dirty),
     None, None, None, Some (''Shared_Clean'', SMAP_shared_clean),
     Some (''Private_Clean'', SMAP_private_clean)]"

definition find_smap :: "string \<Rightarrow> nat \<Rightarrow> smap_field option" where
  "find_smap str len =
     (if len \<le> 13 \<and> 3 \<le> len then
        (let key = hash str len in
         if key \<le> 18 \<and> len = lengthtable ! key then
           (case wordlist ! key of
              None \<Rightarrow> None
            | Some (s, v) \<Rightarrow> if take len str = s then Some v else None)
         else None)
      else None)"

section \<open>procmap.c\<close>

record glibtop_map_entry =
  me_flags :: guint64
  me_start :: guint64
  me_end :: guint64
  me_offset :: guint64
  me_perm :: guint64
  me_inode :: guint64
  me_device :: guint64
  me_smaps :: "smap_field \<Rightarrow> guint64"
  me_filename :: string

record glibtop_proc_map =
  pm_flags :: guint64
  pm_number :: guint64
  pm_total :: guint64
  pm_size :: guint64

definition sysdeps_proc_map :: guint64 where "sysdeps_proc_map = flag 0 + flag 1 + flag 2"

definition sysdeps_map_entry :: guint64 where
  "sysdeps_map_entry = flag 0 + flag 1 + flag 2 + flag 3 + flag 4 + flag 5 + flag 6"

definition sysdeps_map_entry_smaps :: guint64 where
  "sysdeps_map_entry_smaps = flag 7 + flag 8 + flag 13 + flag 14 + flag 10 + flag 9 + flag 12 + flag 11"

definition init_proc_map_s :: "glibtop \<Rightarrow> glibtop" where
  "init_proc_map_s server = set_sysdeps F_PROC_MAP sysdeps_proc_map server"

fun is_smap_value :: "string \<Rightarrow> nat option" where
  \<comment> \<open>the distance of the colon from the start of the line\<close>
  "is_smap_value [] = None"
| "is_smap_value (c # s) =
     (if isspace c then None else if c = CHR '':'' then Some 0 else map_option Suc (is_smap_value s))"

definition parse_smaps :: "glibtop_map_entry \<Rightarrow> string \<Rightarrow> glibtop_map_entry option" where
  \<comment> \<open>\<open>None\<close>: the line is no value line\<close>
  "parse_smaps entry line =
     (case is_smap_value line of
        None \<Rightarrow> None
      | Some len \<Rightarrow> (case find_smap line len of
            None \<Rightarrow> Some entry
          | Some v \<Rightarrow> Some (entry\<lparr>me_smaps := (me_smaps entry)(v := get_scaled (drop len line) None)\<rparr>)))"

record map_fields =
  mf_start :: guint64
  mf_end :: guint64
  mf_flags :: string
  mf_offset :: guint64
  mf_major :: guint16
  mf_minor :: guint16
  mf_inode :: guint64
  mf_filename :: string

definition parse_line :: "string \<Rightarrow> map_fields option res" where
  "parse_line line =
     (let (start, p) = strtoull 16 line in
      if p = [] \<or> hd p \<noteq> CHR ''-'' then Inr None
      else let (end, p) = strtoull 16 (tl p); p = next_token p in
      if length p < 4 then Inl (Crash ''reads behind the end of the line'')
      else let flags = take 4 p; p = drop 4 p; (offset, p) = strtoull 16 p;
               (dev_major, p) = strtoul 16 p in
      if p = [] \<or> hd p \<noteq> CHR '':'' then Inr None
      else let (dev_minor, p) = strtoul 16 (tl p); (inode, p) = strtoull 10 p; p = next_token p in
      Inr (Some \<lparr>mf_start = start, mf_end = end, mf_flags = flags, mf_offset = offset,
        mf_major = ucast dev_major, mf_minor = ucast dev_minor, mf_inode = inode,
        mf_filename = takeWhile (\<lambda>c. c \<noteq> NL) p\<rparr>))"

abbreviation (input) "GLIBTOP_MAP_PERM_READ \<equiv> 1 :: guint64"
abbreviation (input) "GLIBTOP_MAP_PERM_WRITE \<equiv> 2 :: guint64"
abbreviation (input) "GLIBTOP_MAP_PERM_EXECUTE \<equiv> 4 :: guint64"
abbreviation (input) "GLIBTOP_MAP_PERM_SHARED \<equiv> 8 :: guint64"
abbreviation (input) "GLIBTOP_MAP_PERM_PRIVATE \<equiv> 16 :: guint64"

definition map_perm :: "string \<Rightarrow> guint64" where
  "map_perm flags =
     (if flags ! 0 = CHR ''r'' then GLIBTOP_MAP_PERM_READ else 0)
     OR (if flags ! 1 = CHR ''w'' then GLIBTOP_MAP_PERM_WRITE else 0)
     OR (if flags ! 2 = CHR ''x'' then GLIBTOP_MAP_PERM_EXECUTE else 0)
     OR (if flags ! 3 = CHR ''s'' then GLIBTOP_MAP_PERM_SHARED
         else if flags ! 3 = CHR ''p'' then GLIBTOP_MAP_PERM_PRIVATE else 0)"

definition fill_entry ::
  "(guint16 \<Rightarrow> guint16 \<Rightarrow> guint64) \<Rightarrow> bool \<Rightarrow> map_fields \<Rightarrow> glibtop_map_entry \<Rightarrow> glibtop_map_entry" where
  "fill_entry mkdev has_smaps f entry =
     entry\<lparr>me_flags := sysdeps_map_entry OR (if has_smaps then sysdeps_map_entry_smaps else 0),
       me_start := mf_start f, me_end := mf_end f, me_offset := mf_offset f,
       me_perm := map_perm (mf_flags f), me_device := mkdev (mf_major f) (mf_minor f),
       me_inode := mf_inode f, me_filename := g_strlcpy (mf_filename f) 216\<rparr>"

fun smaps_block :: "glibtop_map_entry \<Rightarrow> string list \<Rightarrow> glibtop_map_entry \<times> string list" where
  \<comment> \<open>the inner loop: the lines that belong to the entry\<close>
  "smaps_block entry [] = (entry, [])"
| "smaps_block entry (line # lines) =
     (case parse_smaps entry line of
        None \<Rightarrow> (entry, line # lines)
      | Some entry' \<Rightarrow> smaps_block entry' lines)"

lemma length_smaps_block: "length (snd (smaps_block entry lines)) \<le> length lines"
  by (induction entry lines rule: smaps_block.induct) (auto split: option.splits)

lemma smaps_block_shrinks: "(entry, rest) = smaps_block e lines \<Longrightarrow> length rest < Suc (length lines)"
  using length_smaps_block [of e lines] by (metis le_imp_less_Suc snd_conv)

function map_loop ::
  "(guint16 \<Rightarrow> guint16 \<Rightarrow> guint64) \<Rightarrow> bool \<Rightarrow> (nat \<Rightarrow> glibtop_map_entry) \<Rightarrow> nat \<Rightarrow> string list
     \<Rightarrow> glibtop_map_entry list res" where
  "map_loop mkdev has_smaps junk added [] = Inr []"
| "map_loop mkdev has_smaps junk added (line # lines) =
     bind_res (parse_line line) (\<lambda>pl. case pl of
       None \<Rightarrow> map_loop mkdev has_smaps junk added lines
     | Some f \<Rightarrow>
         (let (entry, rest) =
              (if has_smaps then smaps_block (fill_entry mkdev has_smaps f (junk added)) lines
               else (fill_entry mkdev has_smaps f (junk added), lines))
          in bind_res (map_loop mkdev has_smaps junk (Suc added) rest) (\<lambda>entries.
               Inr (entry # entries))))"
  by pat_completeness auto
termination
  by (relation "measure (\<lambda>(_, _, _, _, lines). length lines)")
    (auto split: if_splits dest: smaps_block_shrinks)

definition glibtop_get_proc_map_s ::
  "(guint16 \<Rightarrow> guint16 \<Rightarrow> guint64) \<Rightarrow> kernel \<Rightarrow> (nat \<Rightarrow> glibtop_map_entry) \<Rightarrow> glibtop \<Rightarrow> 32 word
     \<Rightarrow> (glibtop_proc_map \<times> glibtop_map_entry list option) res" where
  "glibtop_get_proc_map_s mkdev K junk server pid =
     (let has_smaps = LINUX_VERSION_CODE 2 6 14 \<le> s_os_version_code server;
          filename = ''/proc/'' @ show_nat (unat pid) @ (if has_smaps then ''/smaps'' else ''/maps'')
      in case fopen_lines K filename of
        None \<Rightarrow> Inr (\<lparr>pm_flags = 0, pm_number = 0, pm_total = 0, pm_size = 0\<rparr>, None)
      | Some lines \<Rightarrow>
          bind_res (map_loop mkdev has_smaps junk 0 lines) (\<lambda>entries.
            Inr (\<lparr>pm_flags = sysdeps_proc_map, pm_number = of_nat (length entries),
                  pm_total = of_nat (length entries) * 336, pm_size = 336\<rparr>, Some entries)))"

section \<open>The keyword table is a table\<close>

definition smap_keywords :: "(string \<times> smap_field) list" where
  "smap_keywords =
     [(''Private_Clean'', SMAP_private_clean), (''Private_Dirty'', SMAP_private_dirty), (''Pss'', SMAP_pss),
      (''Rss'', SMAP_rss), (''Shared_Clean'', SMAP_shared_clean), (''Shared_Dirty'', SMAP_shared_dirty),
      (''Size'', SMAP_size), (''Swap'', SMAP_swap)]"

lemma wordlist_table:
  "wordlist ! key = Some (s, v) \<Longrightarrow> key \<le> 18 \<Longrightarrow> map_of smap_keywords s = Some v \<and> length s = lengthtable ! key"
proof -
  assume a: "wordlist ! key = Some (s, v)" "key \<le> 18"
  have "\<forall>key\<in>set [0..<19]. case wordlist ! key of None \<Rightarrow> True
      | Some (s, v) \<Rightarrow> map_of smap_keywords s = Some v \<and> length s = lengthtable ! key"
    by code_simp
  then have "case wordlist ! key of None \<Rightarrow> True
      | Some (s, v) \<Rightarrow> map_of smap_keywords s = Some v \<and> length s = lengthtable ! key"
    using a(2) by (simp add: all_set_conv_all_nth) 
  with a(1) show ?thesis by simp
qed

lemma table_hash:
  "(w, v) \<in> set smap_keywords \<Longrightarrow> find_smap w (length w) = Some v \<and> w \<noteq> []"
proof -
  have "\<forall>(w, v)\<in>set smap_keywords. find_smap w (length w) = Some v \<and> w \<noteq> []" by code_simp
  then show "(w, v) \<in> set smap_keywords \<Longrightarrow> find_smap w (length w) = Some v \<and> w \<noteq> []" by auto
qed

lemma find_smap_take: "0 < len \<Longrightarrow> len \<le> length str \<Longrightarrow> find_smap str len = find_smap (take len str) len"
proof -
  assume a: "0 < len" "len \<le> length str"
  then have "hd (take len str) = hd str" "take len str ! (len - 1) = str ! (len - 1)" by auto
  then have "hash str len = hash (take len str) len" by (simp add: hash_def)
  moreover have "take len (take len str) = take len str" by simp
  ultimately show ?thesis unfolding find_smap_def by (simp only:)
qed

lemma find_smap_keywords:
  assumes "len \<le> length str"
  shows "find_smap str len = map_of smap_keywords (take len str)"
proof (cases "map_of smap_keywords (take len str)")
  case None
  have "find_smap str len = None"
  proof (cases "3 \<le> len \<and> len \<le> 13 \<and> hash str len \<le> 18")
    case True
    then show ?thesis
    proof (cases "wordlist ! hash str len")
      case (Some sv)
      obtain s v where sv: "sv = (s, v)" by (cases sv)
      have "map_of smap_keywords s = Some v"
        using wordlist_table [of "hash str len" s v] Some True sv by simp
      then have "take len str \<noteq> s" using None by auto
      then show ?thesis by (simp add: find_smap_def Let_def Some sv)
    qed (simp add: find_smap_def Let_def)
  qed (auto simp: find_smap_def Let_def)
  with None show ?thesis by simp
next
  case (Some v)
  then have m: "(take len str, v) \<in> set smap_keywords" by (rule map_of_SomeD)
  have l: "length (take len str) = len" using assms by simp
  have "find_smap (take len str) len = Some v" "take len str \<noteq> []" using table_hash [OF m] l by auto
  then show ?thesis using find_smap_take [of len str] assms Some by (cases len) auto
qed

text \<open>
  C19. The perfect hash of \<open>_glibtop_find_smap\<close> finds exactly the keywords of \<open>procmap_smaps.gperf\<close>:
  for every line and length it is the lookup of the first \<open>len\<close> characters in the table.
\<close>

theorem find_smap_table:
  assumes "len \<le> length str"
  shows "find_smap str len = map_of smap_keywords (take len str)"
  using assms by (rule find_smap_keywords)

theorem find_smap_table_witness:
  "find_smap ''Private_Dirty:       12 kB'' 13 = Some SMAP_private_dirty"
  using find_smap_table [of 13 "''Private_Dirty:       12 kB''"] by (simp add: smap_keywords_def)

section \<open>Lines of the map\<close>

text \<open>A line as the kernel writes it: the numbers as hex digits with any padding.\<close>

record map_text =
  mt_start :: string
  mt_end :: string
  mt_perm :: string
  mt_offset :: string
  mt_major :: string
  mt_minor :: string
  mt_inode :: nat
  mt_pad :: string
  mt_name :: string

definition map_line :: "map_text \<Rightarrow> string" where
  "map_line m = mt_start m @ CHR ''-'' # mt_end m @ SP # mt_perm m @ SP # mt_offset m @ SP # mt_major m
     @ CHR '':'' # mt_minor m @ SP # show_nat (mt_inode m) @ SP # mt_pad m @ mt_name m @ [NL]"

definition map_text_ok :: "map_text \<Rightarrow> bool" where
  "map_text_ok m \<longleftrightarrow>
     (\<forall>ds\<in>{mt_start m, mt_end m, mt_offset m, mt_major m, mt_minor m}. hex ds \<and> hexval ds < 2 ^ 64)
     \<and> length (mt_perm m) = 4 \<and> \<not> g_ascii_isspace (hd (mt_perm m)) \<and> mt_inode m < 2 ^ 64
     \<and> set (mt_pad m) \<subseteq> {SP} \<and> NL \<notin> set (mt_name m) \<and> NUL \<notin> set (map_line m)
     \<and> (mt_name m = [] \<or> \<not> g_ascii_isspace (hd (mt_name m)))"

definition text_fields :: "map_text \<Rightarrow> map_fields" where
  "text_fields m = \<lparr>mf_start = of_nat (hexval (mt_start m)), mf_end = of_nat (hexval (mt_end m)),
     mf_flags = mt_perm m, mf_offset = of_nat (hexval (mt_offset m)),
     mf_major = ucast (of_nat (hexval (mt_major m)) :: 64 word),
     mf_minor = ucast (of_nat (hexval (mt_minor m)) :: 64 word),
     mf_inode = of_nat (mt_inode m), mf_filename = mt_name m\<rparr>"

lemma parse_line_text:
  assumes "map_text_ok m"
  shows "parse_line (map_line m) = Inr (Some (text_fields m))"
proof -
  define r5 where "r5 = mt_pad m @ mt_name m @ [NL]"
  define r4 where "r4 = SP # show_nat (mt_inode m) @ SP # r5"
  define r3 where "r3 = CHR '':'' # mt_minor m @ r4"
  define r2 where "r2 = SP # mt_offset m @ SP # mt_major m @ r3"
  define r1 where "r1 = SP # mt_perm m @ r2"
  have line: "map_line m = [] @ mt_start m @ CHR ''-'' # mt_end m @ r1"
    by (simp add: map_line_def r1_def r2_def r3_def r4_def r5_def)
  have ok: "hex ds \<and> hexval ds < 2 ^ 64"
    if "ds \<in> {mt_start m, mt_end m, mt_offset m, mt_major m, mt_minor m}" for ds
    using assms that unfolding map_text_ok_def by blast
  have 1: "strtoull 16 (map_line m) = (of_nat (hexval (mt_start m)), CHR ''-'' # mt_end m @ r1)"
    unfolding line using ok by (intro strtoull_hexdigits) (simp_all add: digit_val_delims)
  have 2: "strtoull 16 ([] @ mt_end m @ r1) = (of_nat (hexval (mt_end m)), r1)"
    using ok by (intro strtoull_hexdigits) (simp_all add: digit_val_delims r1_def)
  have 3: "next_token r1 = mt_perm m @ r2" "length (mt_perm m) = 4"
    using assms by (cases "mt_perm m"; auto simp: r1_def next_token_def map_text_ok_def)+
  have 4: "strtoull 16 ([SP] @ mt_offset m @ SP # mt_major m @ r3) = (of_nat (hexval (mt_offset m)), SP # mt_major m @ r3)"
    using ok by (intro strtoull_hexdigits) (simp_all add: digit_val_delims isspace_def)
  have 5: "strtoull 16 ([SP] @ mt_major m @ r3) = (of_nat (hexval (mt_major m)), r3)"
    using ok by (intro strtoull_hexdigits) (simp_all add: digit_val_delims isspace_def r3_def)
  have 6: "strtoull 16 ([] @ mt_minor m @ r4) = (of_nat (hexval (mt_minor m)), r4)"
    using ok by (intro strtoull_hexdigits) (simp_all add: digit_val_delims isspace_def r4_def)
  have 7: "strtoull 10 ([SP] @ show_nat (mt_inode m) @ SP # r5) = (of_nat (mt_inode m), SP # r5)"
    using assms by (intro strtoull_show) (simp_all add: map_text_ok_def)
  have 8: "next_token (SP # r5) = next_token (mt_name m @ [NL])"
  proof -
    have "\<forall>c\<in>set (SP # mt_pad m). g_ascii_isspace c" using assms by (auto simp: map_text_ok_def)
    then show ?thesis
      using dropWhile_append2 [of "SP # mt_pad m" g_ascii_isspace "mt_name m @ [NL]"]
      by (simp add: next_token_def r5_def)
  qed
  have 9: "takeWhile (\<lambda>c. c \<noteq> NL) (next_token (mt_name m @ [NL])) = mt_name m"
    using assms by (cases "mt_name m") (auto simp: next_token_def map_text_ok_def takeWhile_append)
  show ?thesis
    using 1 2 3 4 5 6 7 8 9
    by (simp add: parse_line_def Let_def r2_def r3_def r4_def text_fields_def)
qed

text \<open>
  A line of the map as the kernel prints it, with any padding of the numbers, is taken apart
  into exactly its fields; the name may hold spaces and is empty for an anonymous mapping.
\<close>

theorem parse_line_map_line:
  assumes "map_text_ok m"
  shows "parse_line (map_line m) = Inr (Some (text_fields m))"
  using assms by (rule parse_line_text)

definition demo_map :: map_text where
  "demo_map = \<lparr>mt_start = ''00400000'', mt_end = ''0040b000'', mt_perm = ''r-xp'', mt_offset = ''00000000'',
     mt_major = ''08'', mt_minor = ''1f'', mt_inode = 1234, mt_pad = ''   '', mt_name = ''/my lib''\<rparr>"

lemma hexval_code: "digits_to_nat 16 (ds @ [c]) = digits_to_nat 16 ds * 16 + digit_val c"
  by (simp add: digits_to_nat_def)

lemma demo_map_ok: "map_text_ok demo_map"
proof -
  have "show_nat 1234 = ''1234''" by code_simp
  then show ?thesis
    by (simp add: map_text_ok_def demo_map_def hex_def digit_val_def digits_to_nat_def map_line_def
        g_ascii_isspace_def)
qed

theorem parse_line_map_line_witness:
  "parse_line (map_line demo_map) = Inr (Some \<lparr>mf_start = 0x400000, mf_end = 0x40b000, mf_flags = ''r-xp'',
     mf_offset = 0, mf_major = 8, mf_minor = 0x1f, mf_inode = 1234, mf_filename = ''/my lib''\<rparr>)"
  using parse_line_map_line [OF demo_map_ok]
  by (simp add: text_fields_def demo_map_def digits_to_nat_def digit_val_def)

section \<open>The whole file\<close>

lemma is_smap_value_space:
  "\<forall>c\<in>set w. c \<noteq> CHR '':'' \<Longrightarrow> isspace s \<Longrightarrow> is_smap_value (w @ s # r) = None"
  by (induction w) auto

lemma map_line_no_value: "map_text_ok m \<Longrightarrow> is_smap_value (map_line m) = None"
proof -
  assume ok: "map_text_ok m"
  have c: "c \<noteq> CHR '':''" if "digit_val c < 16" for c using that digit_val_delims by auto
  have "\<forall>c\<in>set (mt_start m @ CHR ''-'' # mt_end m). c \<noteq> CHR '':''"
    using ok c by (auto simp: map_text_ok_def hex_def)
  from is_smap_value_space [OF this, of SP] show ?thesis by (simp add: map_line_def isspace_def)
qed

lemma is_smap_value_colon:
  "is_smap_value l = Some n \<Longrightarrow> n < length l \<and> drop n l = CHR '':'' # drop (Suc n) l"
  by (induction l arbitrary: n) (auto split: if_splits)

lemma get_scaled_colon: "get_scaled (CHR '':'' # s) None = 0"
proof -
  have "strto 0 (CHR '':'' # s) = None"
    by (simp add: strto_def isspace_def strto_prefix_def digit_val_delims del: strto_hex.simps)
      (cases s; cases "tl s"; simp add: digit_val_delims)
  then show ?thesis
    by (simp add: get_scaled_def strtoull_def Let_def split: list.splits)
qed

definition names_value :: "string \<Rightarrow> smap_field \<Rightarrow> bool" where
  "names_value l v \<longleftrightarrow> (\<exists>n. is_smap_value l = Some n \<and> map_of smap_keywords (take n l) = Some v)"

lemma parse_smaps_zero:
  assumes "is_smap_value l \<noteq> None"
  shows "parse_smaps e l = Some (e\<lparr>me_smaps := (\<lambda>v. if names_value l v then 0 else me_smaps e v)\<rparr>)"
proof -
  obtain n where n: "is_smap_value l = Some n" using assms by auto
  note c = is_smap_value_colon [OF n]
  have f: "find_smap l n = map_of smap_keywords (take n l)" using c by (intro find_smap_keywords) simp
  have g: "get_scaled (drop n l) None = 0" using c get_scaled_colon by metis
  show ?thesis
    by (cases "map_of smap_keywords (take n l)")
      (auto simp: parse_smaps_def n f g names_value_def fun_eq_iff intro!: glibtop_map_entry.equality)
qed

definition value_lines :: "string list \<Rightarrow> bool" where
  "value_lines vs \<longleftrightarrow> (\<forall>l\<in>set vs. is_smap_value l \<noteq> None)"

definition with_values :: "string list \<Rightarrow> glibtop_map_entry \<Rightarrow> glibtop_map_entry" where
  "with_values vs e = e\<lparr>me_smaps := (\<lambda>v. if \<exists>l\<in>set vs. names_value l v then 0 else me_smaps e v)\<rparr>"

lemma with_values_Cons:
  "with_values vs (e\<lparr>me_smaps := (\<lambda>v. if names_value l v then 0 else me_smaps e v)\<rparr>) = with_values (l # vs) e"
proof -
  have "(\<lambda>v. if \<exists>l\<in>set vs. names_value l v then 0 else if names_value l v then 0 else me_smaps e v)
      = (\<lambda>v. if \<exists>l\<in>set (l # vs). names_value l v then 0 else me_smaps e v)" by auto
  then show ?thesis by (simp add: with_values_def cong: if_cong)
qed

lemma smaps_block_values:
  "value_lines vs \<Longrightarrow> rest = [] \<or> is_smap_value (hd rest) = None
     \<Longrightarrow> smaps_block e (vs @ rest) = (with_values vs e, rest)"
proof (induction vs arbitrary: e)
  case Nil
  then show ?case by (cases rest) (auto simp: with_values_def parse_smaps_def)
next
  case (Cons l vs)
  then have "is_smap_value l \<noteq> None" "value_lines vs" by (simp_all add: value_lines_def)
  with Cons show ?case by (simp add: parse_smaps_zero with_values_Cons)
qed

type_synonym map_block = "map_text \<times> string list"

definition block_lines :: "map_block list \<Rightarrow> string list" where
  "block_lines bs = concat (map (\<lambda>(m, vs). map_line m # vs) bs)"

definition block_entry ::
  "(guint16 \<Rightarrow> guint16 \<Rightarrow> guint64) \<Rightarrow> glibtop_map_entry \<Rightarrow> map_block \<Rightarrow> glibtop_map_entry" where
  "block_entry mkdev junk = (\<lambda>(m, vs). with_values vs (fill_entry mkdev True (text_fields m) junk))"

lemma map_loop_blocks:
  "\<forall>(m, vs)\<in>set bs. map_text_ok m \<and> value_lines vs \<Longrightarrow>
     map_loop mkdev True junk added (block_lines bs)
       = Inr (map (\<lambda>i. block_entry mkdev (junk (added + i)) (bs ! i)) [0..<length bs])"
proof (induction bs arbitrary: added)
  case Nil
  then show ?case by (simp add: block_lines_def)
next
  case (Cons b bs)
  obtain m vs where b: "b = (m, vs)" by (cases b)
  have ok: "map_text_ok m" "value_lines vs" using Cons.prems b by auto
  have rest: "block_lines bs = [] \<or> is_smap_value (hd (block_lines bs)) = None"
    using Cons.prems map_line_no_value by (cases bs) (auto simp: block_lines_def)
  have l: "block_lines (b # bs) = map_line m # vs @ block_lines bs" by (simp add: block_lines_def b)
  have u: "[0..<Suc (length bs)] = 0 # map Suc [0..<length bs]"
    using upt_conv_Cons [of 0 "Suc (length bs)"] map_Suc_upt [of 0 "length bs"] by (simp del: upt_Suc)
  have "map_loop mkdev True junk (Suc added) (block_lines bs)
      = Inr (map (\<lambda>i. block_entry mkdev (junk (Suc added + i)) (bs ! i)) [0..<length bs])"
    using Cons.IH Cons.prems by simp
  moreover have "map_loop mkdev True junk added (map_line m # vs @ block_lines bs)
      = bind_res (map_loop mkdev True junk (Suc added) (block_lines bs)) (\<lambda>es.
          Inr (block_entry mkdev (junk added) (m, vs) # es))"
    by (simp add: parse_line_text [OF ok(1)] smaps_block_values [OF ok(2) rest] block_entry_def)
  moreover have "map (\<lambda>i. block_entry mkdev (junk (added + i)) ((b # bs) ! i)) [0..<length (b # bs)]
      = block_entry mkdev (junk added) (m, vs) # map (\<lambda>i. block_entry mkdev (junk (Suc added + i)) (bs ! i)) [0..<length bs]"
    unfolding list.size(4) add_Suc_right add_0_right u list.map(2) map_map comp_def nth_Cons_0 nth_Cons_Suc b
    by simp
  ultimately show ?case unfolding l by simp
qed

lemma map_flags_bits: "bit (sysdeps_map_entry OR sysdeps_map_entry_smaps) k \<longleftrightarrow> k \<le> 14"
proof -
  have "sysdeps_map_entry OR sysdeps_map_entry_smaps = mask 15"
    by (simp add: sysdeps_map_entry_def sysdeps_map_entry_smaps_def mask_eq_exp_minus_1)
  then show ?thesis by (auto simp: bit_mask_iff)
qed

lemma map_perm_bits:
  "bit (map_perm fl) k \<longleftrightarrow> k = 0 \<and> fl ! 0 = CHR ''r'' \<or> k = 1 \<and> fl ! 1 = CHR ''w''
     \<or> k = 2 \<and> fl ! 2 = CHR ''x'' \<or> k = 3 \<and> fl ! 3 = CHR ''s'' \<or> k = 4 \<and> fl ! 3 = CHR ''p''"
proof -
  have e: "bit (2 ^ m :: guint64) k \<longleftrightarrow> k = m" if "m < 64" for m
    using that by (auto simp: bit_exp_iff)
  have b: "bit (1 :: guint64) k \<longleftrightarrow> k = 0" "bit (2 :: guint64) k \<longleftrightarrow> k = 1" "bit (4 :: guint64) k \<longleftrightarrow> k = 2"
    "bit (8 :: guint64) k \<longleftrightarrow> k = 3" "bit (16 :: guint64) k \<longleftrightarrow> k = 4"
    using e [of 0] e [of 1] e [of 2] e [of 3] e [of 4] by simp_all
  have c: "bit (if P then w else 0 :: guint64) k \<longleftrightarrow> P \<and> bit w k"
    "bit (if P then w else if Q then v else 0 :: guint64) k \<longleftrightarrow> P \<and> bit w k \<or> \<not> P \<and> Q \<and> bit v k" for P Q v w
    by simp_all
  show ?thesis unfolding map_perm_def bit_or_iff c b by auto
qed

lemma ucast_of_nat16: "(ucast (of_nat n :: 64 word) :: 16 word) = of_nat n"
  by (rule bit_word_eqI) (auto simp: bit_simps bit_ucast_iff)

text \<open>
  C20. The map of a process on a kernel with \<open>smaps\<close>: one entry for each block of the file in its
  order, with the addresses, the offset, the device, the inode and the name of its first line and one bit for each letter of its
  permissions, and \<open>number\<close>, \<open>size\<close> and \<open>total\<close> describe the array.
  The sizes are not what the file says, though: \<open>get_scaled\<close> is given the text from the colon on,
  where no number starts, so every size that the file names comes back as 0, and one that it does
  not name is what the uncleared array held, while the flags claim all of them.
\<close>

theorem proc_map_spec:
  assumes v: "LINUX_VERSION_CODE 2 6 14 \<le> s_os_version_code server"
    and f: "fopen_lines K (''/proc/'' @ show_nat (unat pid) @ ''/smaps'') = Some (block_lines bs)"
    and ok: "\<forall>(m, vs)\<in>set bs. map_text_ok m \<and> value_lines vs" and len: "length bs < 2 ^ 50"
  shows "\<exists>buf entries. glibtop_get_proc_map_s mkdev K junk server pid = Inr (buf, Some entries)
    \<and> length entries = length bs \<and> unat (pm_number buf) = length bs
    \<and> unat (pm_total buf) = 336 * length bs \<and> pm_size buf = 336 \<and> pm_flags buf = 7
    \<and> (\<forall>i m vs. i < length bs \<longrightarrow> bs ! i = (m, vs) \<longrightarrow>
         (me_start (entries ! i) = of_nat (hexval (mt_start m)) \<and> me_end (entries ! i) = of_nat (hexval (mt_end m))
         \<and> me_offset (entries ! i) = of_nat (hexval (mt_offset m))
         \<and> me_device (entries ! i) = mkdev (of_nat (hexval (mt_major m))) (of_nat (hexval (mt_minor m)))
         \<and> (\<forall>k. bit (me_flags (entries ! i)) k \<longleftrightarrow> k \<le> 14)
         \<and> me_inode (entries ! i) = of_nat (mt_inode m)
         \<and> (\<forall>k. bit (me_perm (entries ! i)) k \<longleftrightarrow> k = 0 \<and> mt_perm m ! 0 = CHR ''r'' \<or> k = 1 \<and> mt_perm m ! 1 = CHR ''w''
               \<or> k = 2 \<and> mt_perm m ! 2 = CHR ''x'' \<or> k = 3 \<and> mt_perm m ! 3 = CHR ''s'' \<or> k = 4 \<and> mt_perm m ! 3 = CHR ''p'')
         \<and> me_filename (entries ! i) = take 215 (mt_name m)
         \<and> me_smaps (entries ! i) = (\<lambda>v. if \<exists>l\<in>set vs. names_value l v then 0 else me_smaps (junk i) v)))"
    (is "\<exists>buf entries. _ \<and> _ \<and> _ \<and> _ \<and> _ \<and> _ \<and> (\<forall>i m vs. _ \<longrightarrow> _ \<longrightarrow> ?fields entries i m vs)")
proof -
  define entries where "entries = map (\<lambda>i. block_entry mkdev (junk i) (bs ! i)) [0..<length bs]"
  have loop: "map_loop mkdev True junk 0 (block_lines bs) = Inr entries"
    using map_loop_blocks [OF ok, of mkdev junk 0] by (simp add: entries_def)
  have n: "336 * length bs < 2 ^ 64" "length bs < 2 ^ 64" using len by simp_all
  have t: "unat (of_nat (length bs) * 336 :: guint64) = 336 * length bs"
    using unat_of_nat64 [OF n(1)] by (simp add: mult.commute)
  have r: "glibtop_get_proc_map_s mkdev K junk server pid
      = Inr (\<lparr>pm_flags = sysdeps_proc_map, pm_number = of_nat (length entries),
          pm_total = of_nat (length entries) * 336, pm_size = 336\<rparr>, Some entries)"
    using v f loop by (simp add: glibtop_get_proc_map_s_def)
  have e: "me_start (entries ! i) = of_nat (hexval (mt_start m)) \<and> me_end (entries ! i) = of_nat (hexval (mt_end m))
         \<and> me_offset (entries ! i) = of_nat (hexval (mt_offset m))
         \<and> me_device (entries ! i) = mkdev (of_nat (hexval (mt_major m))) (of_nat (hexval (mt_minor m)))
         \<and> (\<forall>k. bit (me_flags (entries ! i)) k \<longleftrightarrow> k \<le> 14)
         \<and> me_inode (entries ! i) = of_nat (mt_inode m)
         \<and> (\<forall>k. bit (me_perm (entries ! i)) k \<longleftrightarrow> k = 0 \<and> mt_perm m ! 0 = CHR ''r'' \<or> k = 1 \<and> mt_perm m ! 1 = CHR ''w''
               \<or> k = 2 \<and> mt_perm m ! 2 = CHR ''x'' \<or> k = 3 \<and> mt_perm m ! 3 = CHR ''s'' \<or> k = 4 \<and> mt_perm m ! 3 = CHR ''p'')
         \<and> me_filename (entries ! i) = take 215 (mt_name m)
         \<and> me_smaps (entries ! i) = (\<lambda>v. if \<exists>l\<in>set vs. names_value l v then 0 else me_smaps (junk i) v)"
    if "i < length bs" "bs ! i = (m, vs)" for i m vs
  proof -
    have "entries ! i = block_entry mkdev (junk i) (m, vs)" using that by (simp add: entries_def)
    then show ?thesis
      using map_flags_bits map_perm_bits
      by (simp add: block_entry_def with_values_def fill_entry_def text_fields_def g_strlcpy_def ucast_of_nat16 cong: if_cong)
  qed
  have l: "length entries = length bs" by (simp add: entries_def)
  show ?thesis
  proof (rule exI, rule exI, intro conjI)
    show "\<forall>i m vs. i < length bs \<longrightarrow> bs ! i = (m, vs) \<longrightarrow> ?fields entries i m vs" using e by blast
  qed (fact r, insert l t unat_of_nat64 [OF n(2)], simp_all add: sysdeps_proc_map_def)
qed

definition smaps_kernel :: kernel where
  "smaps_kernel = (file_kernel [])\<lparr>k_read := (\<lambda>p. if p = ''/proc/7/smaps''
     then Some [Chunk (map_line demo_map), Chunk (''Size:                 44 kB'' @ [NL])] else None)\<rparr>"

lemma smaps_kernel_lines:
  "fopen_lines smaps_kernel ''/proc/7/smaps'' = Some (block_lines [(demo_map, [''Size:                 44 kB'' @ [NL]])])"
proof -
  define l where "l = ''Size:                 44 kB''"
  obtain k where k: "map_line demo_map = k @ [NL]" "NL \<notin> set k" "NUL \<notin> set k"
  proof
    show "map_line demo_map = butlast (map_line demo_map) @ [NL]" by (simp add: map_line_def butlast_append)
    have "show_nat 1234 = ''1234''" by code_simp
    then show "NL \<notin> set (butlast (map_line demo_map))" "NUL \<notin> set (butlast (map_line demo_map))"
      by (simp_all add: map_line_def demo_map_def butlast_append)
  qed
  have l: "NL \<notin> set l" "NUL \<notin> set l" by (simp_all add: l_def)
  have "stdio_text [Chunk (map_line demo_map), Chunk (l @ [NL])] = k @ NL # l @ NL # []"
    by (simp add: k)
  then have "fopen_lines smaps_kernel ''/proc/7/smaps'' = Some (map c_str [k @ [NL], l @ [NL]])"
    using split_lines_append [OF k(2), of "l @ NL # []"] split_lines_append [OF l(1), of "[]"]
    by (simp add: fopen_lines_def smaps_kernel_def l_def [symmetric])
  moreover have "c_str (k @ [NL]) = k @ [NL]" "c_str (l @ [NL]) = l @ [NL]"
    using k(3) l(2) by (simp_all add: c_str_id)
  ultimately show ?thesis by (simp add: block_lines_def k(1) l_def)
qed

theorem proc_map_spec_witness:
  "\<exists>buf e. glibtop_get_proc_map_s (\<lambda>_ _. 0) smaps_kernel (\<lambda>_. fill_entry (\<lambda>_ _. 0) True (text_fields demo_map)
       \<lparr>me_flags = 0, me_start = 0, me_end = 0, me_offset = 0, me_perm = 0, me_inode = 0, me_device = 0,
        me_smaps = (\<lambda>_. 99), me_filename = []\<rparr>)
       (glibtop_global_server\<lparr>s_os_version_code := 0x60000\<rparr>) 7 = Inr (buf, Some [e])
     \<and> me_smaps e SMAP_size = 0 \<and> me_smaps e SMAP_rss = 99 \<and> me_filename e = ''/my lib''"
proof -
  let ?bs = "[(demo_map, [''Size:                 44 kB'' @ [NL]])]"
  let ?junk = "\<lambda>_::nat. fill_entry (\<lambda>_ _. 0) True (text_fields demo_map)
       \<lparr>me_flags = 0, me_start = 0, me_end = 0, me_offset = 0, me_perm = 0, me_inode = 0, me_device = 0,
        me_smaps = (\<lambda>_. 99), me_filename = []\<rparr>"
  let ?server = "glibtop_global_server\<lparr>s_os_version_code := 0x60000\<rparr>"
  have v: "LINUX_VERSION_CODE 2 6 14 \<le> s_os_version_code ?server" by (simp add: LINUX_VERSION_CODE_def)
  have s: "show_nat 7 = ''7''" by code_simp
  have f: "fopen_lines smaps_kernel (''/proc/'' @ show_nat (unat (7 :: 32 word)) @ ''/smaps'') = Some (block_lines ?bs)"
    using smaps_kernel_lines by (simp add: s)
  have val: "is_smap_value (''Size:                 44 kB'' @ [NL]) = Some 4" by (simp add: isspace_def)
  have ok: "\<forall>(m, vs)\<in>set ?bs. map_text_ok m \<and> value_lines vs"
    using demo_map_ok val by (simp add: value_lines_def)
  have names: "names_value (''Size:                 44 kB'' @ [NL]) v \<longleftrightarrow> v = SMAP_size" for v
    unfolding names_value_def val by (auto simp: smap_keywords_def)
  obtain buf entries where r: "glibtop_get_proc_map_s (\<lambda>_ _. 0) smaps_kernel ?junk ?server 7 = Inr (buf, Some entries)"
    "length entries = 1"
    "me_filename (entries ! 0) = take 215 (mt_name demo_map)"
    "me_smaps (entries ! 0) = (\<lambda>v. if \<exists>l\<in>set [''Size:                 44 kB'' @ [NL]]. names_value l v then 0 else me_smaps (?junk 0) v)"
    using proc_map_spec [OF v f ok, of "\<lambda>_ _. 0" ?junk] by auto
  obtain e where e: "entries = [e]" using r(2) by (cases entries) auto
  have "me_smaps e = (\<lambda>v. if v = SMAP_size then 0 else 99)" "me_filename e = ''/my lib''"
    using r(3,4) names by (simp_all add: e fill_entry_def demo_map_def cong: if_cong)
  with r(1) show ?thesis unfolding e by (intro exI [of _ buf] exI [of _ e]) simp
qed

end
