(* ===== verification/Net.thy ===== *)
theory Net
  imports ProcText Server
begin

unbundle bit_operations_syntax

text \<open>
  \<open>netload.c\<close>, \<open>netlist.c\<close> and \<open>ppp.c\<close> under \<open>sysdeps/linux\<close>: the network interfaces. What the
  \<open>ioctl\<close> calls and \<open>getifaddrs\<close> give is a parameter; the counters come from the files of the kernel.
\<close>

section \<open>netload.c\<close>

record glibtop_netload =
  nl_flags :: guint64
  nl_if_flags :: guint64
  nl_mtu :: guint32
  nl_subnet :: guint32
  nl_address :: guint32
  packets_in :: guint64
  packets_out :: guint64
  packets_total :: guint64
  bytes_in :: guint64
  bytes_out :: guint64
  bytes_total :: guint64
  errors_in :: guint64
  errors_out :: guint64
  errors_total :: guint64
  collisions :: guint64
  address6 :: string
  prefix6 :: string
  scope6 :: nat
  hwaddress :: string

definition netload_zero :: glibtop_netload where
  "netload_zero = \<lparr>nl_flags = 0, nl_if_flags = 0, nl_mtu = 0, nl_subnet = 0, nl_address = 0,
     packets_in = 0, packets_out = 0, packets_total = 0, bytes_in = 0, bytes_out = 0, bytes_total = 0,
     errors_in = 0, errors_out = 0, errors_total = 0, collisions = 0,
     address6 = replicate 16 NUL, prefix6 = replicate 16 NUL, scope6 = 0, hwaddress = replicate 8 NUL\<rparr>"

definition sysdeps_netload :: guint64 where "sysdeps_netload = flag 10 + flag 11 + flag 13"
definition sysdeps_netload_data :: guint64 where "sysdeps_netload_data = flag 3 + flag 2 + flag 1"
definition sysdeps_netload_bytes :: guint64 where "sysdeps_netload_bytes = flag 7 + flag 8 + flag 9"
definition sysdeps_netload_packets :: guint64 where "sysdeps_netload_packets = flag 4 + flag 5 + flag 6"
definition sysdeps_netload_total :: guint64 where "sysdeps_netload_total = flag 6 + flag 9"
definition sysdeps_netload_in :: guint64 where "sysdeps_netload_in = flag 6 + flag 9 + flag 4 + flag 7"
definition sysdeps_netload_out :: guint64 where "sysdeps_netload_out = flag 6 + flag 9 + flag 5 + flag 8"
definition sysdeps_netload_6 :: guint64 where "sysdeps_netload_6 = flag 14 + flag 15 + flag 16"

definition init_netload_s :: "glibtop \<Rightarrow> glibtop" where
  "init_netload_s server = set_sysdeps F_NETLOAD
     (sysdeps_netload OR sysdeps_netload_data OR sysdeps_netload_bytes OR sysdeps_netload_packets) server"

definition add_flags :: "guint64 \<Rightarrow> glibtop_netload \<Rightarrow> glibtop_netload" where
  "add_flags m buf = buf\<lparr>nl_flags := nl_flags buf OR m\<rparr>"

subsection \<open>Addresses of IPv6\<close>

text \<open>The macros of \<open>netinet/in.h\<close> on the sixteen bytes of an address, and \<open>IN6_IS_ADDR_GLOBAL\<close>.\<close>

definition byte6 :: "string \<Rightarrow> nat \<Rightarrow> nat" where "byte6 a i = of_char (a ! i)"

definition in6_linklocal :: "string \<Rightarrow> bool" where
  "in6_linklocal a \<longleftrightarrow> byte6 a 0 = 0xfe \<and> byte6 a 1 div 64 = 2"

definition in6_sitelocal :: "string \<Rightarrow> bool" where
  "in6_sitelocal a \<longleftrightarrow> byte6 a 0 = 0xfe \<and> byte6 a 1 div 64 = 3"

definition in6_global :: "string \<Rightarrow> bool" where
  "in6_global a \<longleftrightarrow> byte6 a 0 = 0x3f \<or> byte6 a 0 = 0x20"

definition in6_multicast :: "string \<Rightarrow> bool" where "in6_multicast a \<longleftrightarrow> byte6 a 0 = 0xff"

definition in6_mc_orglocal :: "string \<Rightarrow> bool" where
  "in6_mc_orglocal a \<longleftrightarrow> in6_multicast a \<and> byte6 a 1 mod 16 = 8"

definition in6_unspecified :: "string \<Rightarrow> bool" where
  "in6_unspecified a \<longleftrightarrow> take 16 a = replicate 16 NUL"

definition in6_loopback :: "string \<Rightarrow> bool" where
  "in6_loopback a \<longleftrightarrow> take 16 a = replicate 15 NUL @ [CHR 0x01]"

definition in6_v4compat :: "string \<Rightarrow> bool" where
  "in6_v4compat a \<longleftrightarrow> take 12 a = replicate 12 NUL \<and> \<not> in6_unspecified a \<and> \<not> in6_loopback a"

definition ipv6_scope :: "string \<Rightarrow> nat" where
  "ipv6_scope a =
     (if in6_linklocal a then 1
      else if in6_sitelocal a then 2
      else if in6_global a \<or> in6_mc_orglocal a \<or> in6_v4compat a \<or> in6_multicast a \<or> in6_unspecified a then 4
      else if in6_loopback a then 8
      else 0)"

text \<open>One element of what \<open>getifaddrs\<close> gives: the name, and address and mask if it is one of IPv6.\<close>

record ifaddr =
  ifa_name :: string
  ifa_in6 :: "(string \<times> string option) option"

definition get_ipv6 :: "ifaddr list option \<Rightarrow> string \<Rightarrow> glibtop_netload \<Rightarrow> glibtop_netload res" where
  "get_ipv6 getifaddrs interface buf =
     (case getifaddrs of
        None \<Rightarrow> Inr buf
      | Some ifas \<Rightarrow> (case find (\<lambda>ifr6. ifa_name ifr6 = interface \<and> ifa_in6 ifr6 \<noteq> None) ifas of
            None \<Rightarrow> Inr buf
          | Some ifr6 \<Rightarrow> (case ifa_in6 ifr6 of
                None \<Rightarrow> Inr buf
              | Some (_, None) \<Rightarrow> Inl (Crash ''ifa_netmask is NULL'')
              | Some (a, Some m) \<Rightarrow>
                  Inr (add_flags sysdeps_netload_6 (buf\<lparr>address6 := a, prefix6 := m, scope6 := ipv6_scope a\<rparr>)))))"

subsection \<open>Linux 2.6: one file for each value\<close>

definition read_value :: "kernel \<Rightarrow> string \<Rightarrow> string \<Rightarrow> guint64 option" where
  "read_value K device filename =
     (case try_file_to_buffer K BUFSIZ (''/sys/class/net/'' @ device @ ''/statistics/'' @ filename) of
        (TRY_FILE_TO_BUFFER_OK, buffer) \<Rightarrow> Some (fst (strtoull 10 buffer))
      | _ \<Rightarrow> None)"

definition store :: "guint64 option \<Rightarrow> guint64 \<Rightarrow> (guint64 \<Rightarrow> glibtop_netload \<Rightarrow> glibtop_netload)
    \<Rightarrow> glibtop_netload \<Rightarrow> glibtop_netload" where
  \<comment> \<open>\<open>if (read_value (server, dev, ..., &field)) buf->flags |= m\<close>\<close>
  "store v m upd buf = (case v of None \<Rightarrow> buf | Some x \<Rightarrow> add_flags m (upd x buf))"

definition linux_2_6_stats :: "kernel \<Rightarrow> string \<Rightarrow> glibtop_netload \<Rightarrow> glibtop_netload" where
  "linux_2_6_stats K dev buf =
     (let buf = store (read_value K dev ''rx_packets'') (flag 4) (\<lambda>x. packets_in_update (\<lambda>_. x)) buf;
          buf = store (read_value K dev ''tx_packets'') (flag 5) (\<lambda>x. packets_out_update (\<lambda>_. x)) buf;
          buf = add_flags (flag 6) (buf\<lparr>packets_total := packets_in buf + packets_out buf\<rparr>);
          buf = store (read_value K dev ''rx_bytes'') (flag 7) (\<lambda>x. bytes_in_update (\<lambda>_. x)) buf;
          buf = store (read_value K dev ''tx_bytes'') (flag 8) (\<lambda>x. bytes_out_update (\<lambda>_. x)) buf;
          buf = add_flags (flag 9) (buf\<lparr>bytes_total := bytes_in buf + bytes_out buf\<rparr>);
          buf = store (read_value K dev ''rx_errors'') (flag 10) (\<lambda>x. errors_in_update (\<lambda>_. x)) buf;
          buf = store (read_value K dev ''tx_errors'') (flag 11) (\<lambda>x. errors_out_update (\<lambda>_. x)) buf;
          buf = add_flags (flag 12) (buf\<lparr>errors_total := errors_in buf + errors_out buf\<rparr>)
      in store (read_value K dev ''collisions'') (flag 13) (\<lambda>x. collisions_update (\<lambda>_. x)) buf)"

subsection \<open>Linux 2.0: IP accounting\<close>

abbreviation (input) "GLIBTOP_IP_FW_ACCTIN \<equiv> 0x1000 :: guint64"
abbreviation (input) "GLIBTOP_IP_FW_ACCTOUT \<equiv> 0x2000 :: guint64"

text \<open>The name that the loop cuts out of a line, and the rest of the line. \<open>*p++ = 0\<close> puts the NUL
  where the next token starts; without one the pointer is then behind the buffer's text (\<open>None\<close>).\<close>

definition acct_dev :: "string \<Rightarrow> (string \<times> string option) res" where
  "acct_dev buffer =
     (case skip_token buffer of
        [] \<Rightarrow> Inl (Crash ''reads behind the end of the line'')
      | _ # dev \<Rightarrow>
          (let p = skip_token dev in
           if p = [] then Inr (dev, None)
           else Inr (take (length dev - length p) dev, Some (tl p))))"

definition acct_line :: "string \<Rightarrow> string \<Rightarrow> glibtop_netload \<Rightarrow> glibtop_netload res" where
  "acct_line interface buffer buf =
     bind_res (acct_dev buffer) (\<lambda>(dev, p).
       if dev \<noteq> interface then Inr buf
       else case p of None \<Rightarrow> Inl (Crash ''reads behind the end of the line'') | Some p \<Rightarrow>
            let p = skip_token p; (flags, p) = strtoull 16 p; p = skip_multiple_token p 2;
                (packets, p) = strtoull 0 p; (bytes, p) = strtoull 0 p;
                buf = buf\<lparr>packets_total := packets_total buf + packets, bytes_total := bytes_total buf + bytes\<rparr> in
            Inr (if flags AND GLIBTOP_IP_FW_ACCTIN \<noteq> 0 then
                   add_flags sysdeps_netload_in (buf\<lparr>packets_in := packets_in buf + packets, bytes_in := bytes_in buf + bytes\<rparr>)
                 else if flags AND GLIBTOP_IP_FW_ACCTOUT \<noteq> 0 then
                   add_flags sysdeps_netload_out (buf\<lparr>packets_out := packets_out buf + packets, bytes_out := bytes_out buf + bytes\<rparr>)
                 else add_flags sysdeps_netload_total buf))"

fun acct_loop :: "string \<Rightarrow> string list \<Rightarrow> glibtop_netload \<Rightarrow> glibtop_netload res" where
  "acct_loop interface [] buf = Inr buf"
| "acct_loop interface (line # lines) buf =
     bind_res (acct_line interface line buf) (\<lambda>buf. acct_loop interface lines buf)"

definition linux_2_0_stats :: "kernel \<Rightarrow> string \<Rightarrow> glibtop_netload \<Rightarrow> glibtop_netload res" where
  "linux_2_0_stats K interface buf =
     (case fgets_lines K (BUFSIZ - 1) ''/proc/net/ip_acct'' of
        None \<Rightarrow> Inr buf
      | Some lines \<Rightarrow> acct_loop interface (drop 1 lines) buf)"

subsection \<open>Linux 2.4: a table of all interfaces\<close>

text \<open>
  The loop over the header, from behind the first \<open>|\<close> to the second: after the characters of
  white space the next character is skipped without a test. The pointer leaves the text if
  there is no second \<open>|\<close>.
\<close>

function count_fields :: "string \<Rightarrow> nat \<Rightarrow> nat res" where
  "count_fields [] nfields = Inl (Crash ''reads behind the end of the line'')"
| "count_fields (c # p) nfields =
     (if c = CHR ''|'' then Inr nfields
      else if \<not> isspace c then count_fields p nfields
      else case dropWhile isspace p of
        [] \<Rightarrow> Inl (Crash ''reads behind the end of the line'')
      | _ # p' \<Rightarrow> count_fields p' (Suc nfields))"
  by pat_completeness auto
termination
proof (relation "measure (\<lambda>(p, _). length p)", goal_cases)
  case (3 c p nfields d p')
  then show ?case using length_dropWhile_le [of isspace p] by simp
qed auto

text \<open>The line of the interface, from behind the colon.\<close>

definition dev_values :: "bool \<Rightarrow> nat \<Rightarrow> string \<Rightarrow> glibtop_netload \<Rightarrow> glibtop_netload" where
  "dev_values have_bytes nfields p buf =
     (let (buf, p, nfields) =
            (if have_bytes then (let (v, p) = strtoull 0 p in (buf\<lparr>bytes_in := v\<rparr>, p, nfields - 1))
             else (buf, p, nfields));
          (pin, p) = strtoull 0 p; (ein, p) = strtoull 0 p;
          p = skip_multiple_token p nfields;
          (buf, p) = (if have_bytes then (let (v, p) = strtoull 0 p in (buf\<lparr>bytes_out := v\<rparr>, p)) else (buf, p));
          (pout, p) = strtoull 0 p; (eout, p) = strtoull 0 p;
          p = skip_multiple_token p 2;
          buf = buf\<lparr>packets_in := pin, errors_in := ein, packets_out := pout, errors_out := eout,
                    collisions := fst (strtoull 0 p)\<rparr>;
          buf = buf\<lparr>bytes_total := bytes_in buf + bytes_out buf, packets_total := packets_in buf + packets_out buf\<rparr>
      in add_flags (sysdeps_netload OR sysdeps_netload_packets OR (if have_bytes then sysdeps_netload_bytes else 0)) buf)"

fun dev_loop :: "bool \<Rightarrow> nat \<Rightarrow> string \<Rightarrow> string list \<Rightarrow> glibtop_netload \<Rightarrow> glibtop_netload" where
  "dev_loop have_bytes nfields interface [] buf = buf"
| "dev_loop have_bytes nfields interface (buffer # lines) buf =
     (let dev = dropWhile isspace buffer in
      case strchr dev (CHR '':'') of
        None \<Rightarrow> dev_loop have_bytes nfields interface lines buf
      | Some q \<Rightarrow>
          (let dev = take (length dev - length q) dev; p = dropWhile isspace (tl q) in
           if p = [] \<or> \<not> isdigit (hd p) then dev_loop have_bytes nfields interface lines buf
           else if dev \<noteq> interface then dev_loop have_bytes nfields interface lines buf
           else dev_values have_bytes nfields p buf))"

text \<open>The header is the second line, or the first if there is no other; an empty file leaves the
  buffer uninitialised.\<close>

definition linux_2_4_stats :: "kernel \<Rightarrow> string \<Rightarrow> glibtop_netload \<Rightarrow> glibtop_netload res" where
  "linux_2_4_stats K interface buf =
     (case fgets_lines K (BUFSIZ - 1) ''/proc/net/dev'' of
        None \<Rightarrow> Inr buf
      | Some [] \<Rightarrow> Inl (Crash ''buffer is not initialised'')
      | Some (l # lines) \<Rightarrow>
          (let header = (case lines of [] \<Rightarrow> l | h # _ \<Rightarrow> h) in
           case strchr header (CHR ''|'') of
             None \<Rightarrow> Inr buf
           | Some q \<Rightarrow>
               (let p = tl q; have_bytes = strncmp_eq p ''bytes'' in
                bind_res (count_fields p 0) (\<lambda>nfields.
                  Inr (if nfields < 2 then buf
                       else dev_loop have_bytes (nfields - 1) interface (drop 1 lines) buf)))))"

subsection \<open>The getter\<close>

text \<open>What the \<open>ioctl\<close> calls give for an interface; \<open>None\<close>: the call fails. \<open>d_flags\<close> is a \<open>short\<close>.\<close>

record netdev =
  d_flags :: "16 word option"
  d_wireless :: bool
  d_addr :: "guint32 option"
  d_netmask :: "guint32 option"
  d_mtu :: "gint32 option"
  d_hwaddr :: "string option"

text \<open>The tests of \<open>flags\<close>: the \<open>IFF_\<close> constant and the \<open>GLIBTOP_IF_FLAGS_\<close> bit.\<close>

definition iff_table :: "(guint64 \<times> nat) list" where
  "iff_table = [(0x1, 1), (0x2, 2), (0x4, 3), (0x8, 4), (0x10, 5), (0x40, 6), (0x80, 7), (0x100, 8),
     (0x200, 9), (0x1000, 16)]"

definition if_flag_bits :: "guint64 \<Rightarrow> guint64" where
  "if_flag_bits flags = fold (\<lambda>(iff, n) r. if flags AND iff \<noteq> 0 then r OR flag n else r) iff_table 0"

definition netload_ioctls :: "netdev \<Rightarrow> glibtop_netload \<Rightarrow> glibtop_netload" where
  "netload_ioctls d buf =
     (let buf = (case d_flags d of None \<Rightarrow> buf | Some flags \<Rightarrow>
            add_flags (flag 0) (buf\<lparr>nl_if_flags := nl_if_flags buf OR if_flag_bits (scast flags)\<rparr>));
          buf = (if d_wireless d then buf\<lparr>nl_if_flags := nl_if_flags buf OR flag 17\<rparr> else buf);
          buf = (case d_addr d of None \<Rightarrow> buf | Some a \<Rightarrow> add_flags (flag 3) (buf\<lparr>nl_address := a\<rparr>));
          buf = (case d_netmask d of None \<Rightarrow> buf | Some a \<Rightarrow> add_flags (flag 2) (buf\<lparr>nl_subnet := a\<rparr>));
          buf = (case d_mtu d of None \<Rightarrow> buf | Some m \<Rightarrow> add_flags (flag 1) (buf\<lparr>nl_mtu := m\<rparr>))
      in case d_hwaddr d of None \<Rightarrow> buf | Some h \<Rightarrow> add_flags (flag 17) (buf\<lparr>hwaddress := take 8 h\<rparr>))"

text \<open>\<open>skfd\<close> is the result of \<open>socket\<close>, and \<open>ioctl\<close> says what the calls on it give for a name: nothing
  if it is negative.\<close>

record netsys =
  ns_socket :: int
  ns_ioctl :: "string \<Rightarrow> netdev"
  ns_getifaddrs :: "ifaddr list option"

definition no_netdev :: netdev where
  "no_netdev = \<lparr>d_flags = None, d_wireless = False, d_addr = None, d_netmask = None, d_mtu = None, d_hwaddr = None\<rparr>"

definition glibtop_get_netload_s ::
  "kernel \<Rightarrow> netsys \<Rightarrow> bool option \<Rightarrow> glibtop \<Rightarrow> string \<Rightarrow> (glibtop_netload \<times> bool option) res" where
  "glibtop_get_netload_s K N sysfs server interface =
     (let buf = netload_zero;
          buf = (if ns_socket N = 0 then buf
                 else netload_ioctls (if ns_socket N < 0 then no_netdev else ns_ioctl N (g_strlcpy interface 16)) buf);
          (stats, sysfs) =
            (if s_os_version_code server < LINUX_VERSION_CODE 2 1 14 then (linux_2_0_stats K interface buf, sysfs)
             else if s_os_version_code server > LINUX_VERSION_CODE 2 6 0 then
               (let (have, sysfs) = has_sysfs K sysfs in
                (if have then Inr (linux_2_6_stats K interface buf) else linux_2_4_stats K interface buf, sysfs))
             else (linux_2_4_stats K interface buf, sysfs))
      in bind_res stats (\<lambda>buf. bind_res (get_ipv6 (ns_getifaddrs N) interface buf) (\<lambda>buf. Inr (buf, sysfs))))"

section \<open>netlist.c\<close>

record glibtop_netlist =
  nli_flags :: guint64
  nli_number :: guint32

definition sysdeps_netlist :: guint64 where "sysdeps_netlist = flag 0"

definition init_netlist_s :: "glibtop \<Rightarrow> glibtop" where
  "init_netlist_s server = set_sysdeps F_NETLIST sysdeps_netlist server"

fun netlist_loop :: "string list \<Rightarrow> string list" where
  "netlist_loop [] = []"
| "netlist_loop (line # lines) =
     (case strchr line (CHR '':'') of
        None \<Rightarrow> netlist_loop lines
      | Some s \<Rightarrow> g_strstrip (take (length line - length s) line) # netlist_loop lines)"

definition glibtop_get_netlist_s :: "kernel \<Rightarrow> glibtop_netlist \<times> string list option" where
  "glibtop_get_netlist_s K =
     (case fgets_lines K 1024 ''/proc/net/dev'' of
        None \<Rightarrow> (\<lparr>nli_flags = 0, nli_number = 0\<rparr>, None)
      | Some lines \<Rightarrow> (let devices = netlist_loop lines in
          (\<lparr>nli_flags = sysdeps_netlist, nli_number = of_nat (length devices)\<rparr>, Some devices)))"

section \<open>ppp.c\<close>

record glibtop_ppp =
  ppp_flags :: guint64
  ppp_state :: guint64
  ppp_bytes_in :: guint64
  ppp_bytes_out :: guint64

definition sysdeps_ppp :: guint64 where "sysdeps_ppp = flag 0 + flag 1 + flag 2"

definition init_ppp_s :: "glibtop \<Rightarrow> glibtop" where
  "init_ppp_s server = set_sysdeps F_PPP sysdeps_ppp server"

text \<open>\<open>isdn_stats\<close> is what the \<open>ioctl\<close> leaves in the array; the sums are kept in an \<open>int\<close>.\<close>

fun sum_stats :: "guint64 list \<Rightarrow> gint32 \<Rightarrow> gint32 \<Rightarrow> gint32 \<times> gint32" where
  "sum_stats (i # j # rest) inn out = sum_stats rest (inn + ucast i) (out + ucast j)"
| "sum_stats _ inn out = (inn, out)"

definition get_ISDN_stats :: "guint64 list option \<Rightarrow> (gint32 \<times> gint32) option" where
  "get_ISDN_stats isdn_stats = map_option (\<lambda>stats. sum_stats (take 128 stats) 0 0) isdn_stats"

lemma dropWhile_not_space_shorter: "p \<noteq> [] \<Longrightarrow> \<not> isspace (hd p) \<Longrightarrow> length (tl (dropWhile (\<lambda>c. \<not> isspace c) p)) < length p"
  using length_dropWhile_le [of "\<lambda>c. \<not> isspace c" p] by (cases p) (auto simp: less_Suc_eq_le)

function isdn_flags :: "string \<Rightarrow> bool" where
  "isdn_flags [] = False"
| "isdn_flags (c # s) =
     (if isspace c then isdn_flags s
      else let p = takeWhile (\<lambda>c. \<not> isspace c) (c # s); e = dropWhile (\<lambda>c. \<not> isspace c) (c # s) in
        if e = [] then False
        else if p = ''?'' \<or> p = ''0'' then isdn_flags (tl e)
        else True)"
  by pat_completeness auto
termination
proof (relation "measure length", goal_cases)
  case (3 c s p e)
  then show ?case using dropWhile_not_space_shorter [of "c # s"] by simp
qed auto

definition is_ISDN_on :: "kernel \<Rightarrow> bool option" where
  \<comment> \<open>\<open>None\<close>: the result is FALSE\<close>
  "is_ISDN_on K =
     (case fgets_lines K BUFSIZ ''/dev/isdninfo'' of
        None \<Rightarrow> None
      | Some lines \<Rightarrow>
          (if length lines < 5 then None
           else let buffer = lines ! 4 in
             if \<not> strncmp_eq buffer ''flags:'' then None else Some (isdn_flags (drop 6 buffer))))"

definition glibtop_get_ppp_s :: "kernel \<Rightarrow> guint64 list option \<Rightarrow> glibtop_ppp" where
  "glibtop_get_ppp_s K isdn_stats =
     (let (state, f1) = (case is_ISDN_on K of None \<Rightarrow> (0, 0) | Some online \<Rightarrow> (if online then 2 else 1, flag 0));
          (inn, out, f2) = (case get_ISDN_stats isdn_stats of
            None \<Rightarrow> (0, 0, 0) | Some (i, j) \<Rightarrow> (scast i, scast j, flag 1 OR flag 2))
      in \<lparr>ppp_flags = f1 OR f2, ppp_state = state, ppp_bytes_in = inn, ppp_bytes_out = out\<rparr>)"

section \<open>What the functions return\<close>

lemma netload_ioctls_counters [simp]:
  "packets_in (netload_ioctls d buf) = packets_in buf" "packets_out (netload_ioctls d buf) = packets_out buf"
  "bytes_in (netload_ioctls d buf) = bytes_in buf" "bytes_out (netload_ioctls d buf) = bytes_out buf"
  "errors_in (netload_ioctls d buf) = errors_in buf" "errors_out (netload_ioctls d buf) = errors_out buf"
  "collisions (netload_ioctls d buf) = collisions buf"
  by (simp_all add: netload_ioctls_def add_flags_def Let_def split: option.split)

definition known :: "guint64 option \<Rightarrow> guint64" where
  "known v = (case v of None \<Rightarrow> 0 | Some x \<Rightarrow> x)"

lemma store_simps [simp]:
  "store None m upd buf = buf" "store (Some x) m upd buf = add_flags m (upd x buf)"
  by (simp_all add: store_def)

lemma store_field:
  assumes "\<And>x b. sel (upd x b) = x" "\<And>m b. sel (add_flags m b) = sel b" "sel buf = 0"
  shows "sel (store v m upd buf) = known v"
  using assms by (cases v) (simp_all add: known_def)

lemma store_keeps:
  assumes "\<And>x b. sel (upd x b) = sel b" "\<And>m b. sel (add_flags m b) = sel b"
  shows "sel (store v m upd buf) = sel buf"
  using assms by (cases v) simp_all

lemma sel_add_flags [simp]:
  "packets_in (add_flags m b) = packets_in b" "packets_out (add_flags m b) = packets_out b"
  "packets_total (add_flags m b) = packets_total b"
  "bytes_in (add_flags m b) = bytes_in b" "bytes_out (add_flags m b) = bytes_out b"
  "bytes_total (add_flags m b) = bytes_total b"
  "errors_in (add_flags m b) = errors_in b" "errors_out (add_flags m b) = errors_out b"
  "errors_total (add_flags m b) = errors_total b" "collisions (add_flags m b) = collisions b"
  "nl_flags (add_flags m b) = nl_flags b OR m"
  by (simp_all add: add_flags_def)

definition when_read :: "guint64 option \<Rightarrow> guint64 \<Rightarrow> guint64" where
  "when_read v m = (if v = None then 0 else m)"

lemma store_flags:
  "(\<And>x b. nl_flags (upd x b) = nl_flags b) \<Longrightarrow> nl_flags (store v m upd buf) = nl_flags buf OR when_read v m"
  by (cases v) (simp_all add: when_read_def)

lemma linux_2_6_values:
  fixes K :: kernel and dev :: string
  assumes "packets_in buf = 0" "packets_out buf = 0" "bytes_in buf = 0" "bytes_out buf = 0"
    "errors_in buf = 0" "errors_out buf = 0" "collisions buf = 0"
  defines "v \<equiv> read_value K dev"
  shows "let r = linux_2_6_stats K dev buf in
    packets_in r = known (v ''rx_packets'') \<and> packets_out r = known (v ''tx_packets'')
    \<and> packets_total r = packets_in r + packets_out r
    \<and> bytes_in r = known (v ''rx_bytes'') \<and> bytes_out r = known (v ''tx_bytes'')
    \<and> bytes_total r = bytes_in r + bytes_out r
    \<and> errors_in r = known (v ''rx_errors'') \<and> errors_out r = known (v ''tx_errors'')
    \<and> errors_total r = errors_in r + errors_out r \<and> collisions r = known (v ''collisions'')
    \<and> nl_flags r = nl_flags buf OR when_read (v ''rx_packets'') (flag 4) OR when_read (v ''tx_packets'') (flag 5)
        OR flag 6 OR when_read (v ''rx_bytes'') (flag 7) OR when_read (v ''tx_bytes'') (flag 8) OR flag 9
        OR when_read (v ''rx_errors'') (flag 10) OR when_read (v ''tx_errors'') (flag 11) OR flag 12
        OR when_read (v ''collisions'') (flag 13)"
proof -
  note keep = store_keeps [where sel = packets_in] store_keeps [where sel = packets_out]
    store_keeps [where sel = packets_total] store_keeps [where sel = bytes_in]
    store_keeps [where sel = bytes_out] store_keeps [where sel = bytes_total]
    store_keeps [where sel = errors_in] store_keeps [where sel = errors_out]
    store_keeps [where sel = errors_total] store_keeps [where sel = collisions]
  note val = store_field [where sel = packets_in] store_field [where sel = packets_out]
    store_field [where sel = bytes_in] store_field [where sel = bytes_out]
    store_field [where sel = errors_in] store_field [where sel = errors_out] store_field [where sel = collisions]
  show ?thesis
    unfolding linux_2_6_stats_def Let_def v_def [symmetric]
    by (simp add: keep val store_flags assms(1-7) or.assoc del: push_bit_of_1)
qed

lemma bit_flag: "bit (flag n) k \<longleftrightarrow> k = n \<and> n < 64"
  by (auto simp: bit_simps bit_1_iff)

definition flag_if :: "bool \<Rightarrow> nat \<Rightarrow> guint64" where
  "flag_if b n = (if b then flag n else 0)"

lemma bit_flag_if: "bit (flag_if b n) k \<longleftrightarrow> b \<and> k = n \<and> n < 64"
  by (simp add: flag_if_def bit_flag del: push_bit_of_1)

lemma ioctl_flags_or:
  "nl_flags (netload_ioctls d buf) = nl_flags buf OR flag_if (d_flags d \<noteq> None) 0 OR flag_if (d_addr d \<noteq> None) 3
     OR flag_if (d_netmask d \<noteq> None) 2 OR flag_if (d_mtu d \<noteq> None) 1 OR flag_if (d_hwaddr d \<noteq> None) 17"
  by (simp add: netload_ioctls_def Let_def flag_if_def or.assoc split: option.split)

lemma ioctl_flags: "bit (nl_flags (netload_ioctls d netload_zero)) n \<Longrightarrow> n \<in> {0, 1, 2, 3, 17}"
  unfolding ioctl_flags_or bit_or_iff bit_flag_if by (auto simp: netload_zero_def)

lemma bit_netload_6: "bit sysdeps_netload_6 n \<Longrightarrow> n \<in> {14, 15, 16}"
proof -
  have e: "sysdeps_netload_6 = flag_if True 14 OR flag_if True 15 OR flag_if True 16"
    by (simp add: sysdeps_netload_6_def flag_if_def)
  show "bit sysdeps_netload_6 n \<Longrightarrow> n \<in> {14, 15, 16}"
    unfolding e bit_or_iff bit_flag_if by auto
qed

lemma get_ipv6_result:
  assumes "get_ipv6 ifas interface buf = Inr buf'"
  shows "(buf' = buf \<or> (\<exists>a m. buf' = add_flags sysdeps_netload_6 (buf\<lparr>address6 := a, prefix6 := m, scope6 := ipv6_scope a\<rparr>)))"
  using assms unfolding get_ipv6_def
  by (simp split: option.splits prod.splits; blast)

lemma when_read_flag_if: "when_read v (flag n) = flag_if (v \<noteq> None) n"
  by (simp add: when_read_def flag_if_def)

lemma flag_True: "flag n = flag_if True n"
  by (simp add: flag_if_def)

definition counter_files :: "(nat \<times> string) list" where
  "counter_files = [(4, ''rx_packets''), (5, ''tx_packets''), (7, ''rx_bytes''), (8, ''tx_bytes''),
     (10, ''rx_errors''), (11, ''tx_errors''), (13, ''collisions'')]"

text \<open>
  C21. On a kernel behind 2.6.0 with \<open>/sys\<close>: every counter of an interface is the number in its file,
  or 0 if that cannot be read; its flag is set exactly if it could; the totals are the sums (with the
  wrap-around of 64 bits), whatever the \<open>ioctl\<close> calls and \<open>getifaddrs\<close> say.
\<close>

theorem netload_counters:
  assumes "glibtop_get_netload_s K N (Some True) server interface = Inr (buf, sysfs)"
    and "s_os_version_code server > LINUX_VERSION_CODE 2 6 0"
  defines "v \<equiv> read_value K interface"
  shows "packets_in buf = known (v ''rx_packets'') \<and> packets_out buf = known (v ''tx_packets'')
    \<and> bytes_in buf = known (v ''rx_bytes'') \<and> bytes_out buf = known (v ''tx_bytes'')
    \<and> errors_in buf = known (v ''rx_errors'') \<and> errors_out buf = known (v ''tx_errors'')
    \<and> collisions buf = known (v ''collisions'')
    \<and> packets_total buf = packets_in buf + packets_out buf \<and> bytes_total buf = bytes_in buf + bytes_out buf
    \<and> errors_total buf = errors_in buf + errors_out buf
    \<and> (\<forall>(n, f)\<in>set counter_files. bit (nl_flags buf) n \<longleftrightarrow> v f \<noteq> None)"
proof -
  define d where "d = (if ns_socket N < 0 then no_netdev else ns_ioctl N (g_strlcpy interface 16))"
  define b where "b = (if ns_socket N = 0 then netload_zero else netload_ioctls d netload_zero)"
  have nv: "\<not> s_os_version_code server < LINUX_VERSION_CODE 2 1 14"
    using assms(2) by (simp add: LINUX_VERSION_CODE_def)
  have r: "get_ipv6 (ns_getifaddrs N) interface (linux_2_6_stats K interface b) = Inr buf"
    using assms(1,2) nv
    unfolding glibtop_get_netload_s_def Let_def b_def d_def
    by (simp only: has_sysfs_def option.case prod.case if_False if_True bind_res.simps bind_res_Inr_iff)
      auto
  have z: "packets_in b = 0" "packets_out b = 0" "bytes_in b = 0" "bytes_out b = 0"
    "errors_in b = 0" "errors_out b = 0" "collisions b = 0"
    by (simp_all add: b_def netload_zero_def)
  have bf: "\<not> bit (nl_flags b) n" if "n \<notin> {0, 1, 2, 3, 17}" for n
    using ioctl_flags [of d n] that by (auto simp: b_def) (simp add: netload_zero_def)
  note s = linux_2_6_values [OF z, of K interface, unfolded Let_def, folded v_def]
  define s' where "s' = linux_2_6_stats K interface b"
  have buf: "nl_flags buf = nl_flags s' \<or> nl_flags buf = nl_flags s' OR sysdeps_netload_6"
    "packets_in buf = packets_in s'" "packets_out buf = packets_out s'" "packets_total buf = packets_total s'"
    "bytes_in buf = bytes_in s'" "bytes_out buf = bytes_out s'" "bytes_total buf = bytes_total s'"
    "errors_in buf = errors_in s'" "errors_out buf = errors_out s'" "errors_total buf = errors_total s'"
    "collisions buf = collisions s'"
    using get_ipv6_result [OF r] unfolding s'_def [symmetric] by auto
  have sf: "nl_flags s' = nl_flags b OR flag_if (v ''rx_packets'' \<noteq> None) 4 OR flag_if (v ''tx_packets'' \<noteq> None) 5
      OR flag_if True 6 OR flag_if (v ''rx_bytes'' \<noteq> None) 7 OR flag_if (v ''tx_bytes'' \<noteq> None) 8 OR flag_if True 9
      OR flag_if (v ''rx_errors'' \<noteq> None) 10 OR flag_if (v ''tx_errors'' \<noteq> None) 11 OR flag_if True 12
      OR flag_if (v ''collisions'' \<noteq> None) 13"
    unfolding s'_def using s [unfolded when_read_flag_if, unfolded flag_True] by (elim conjE)
  have fl: "bit (nl_flags s') n \<longleftrightarrow> v f \<noteq> None" if "(n, f) \<in> set counter_files" for n f
  proof -
    have "n \<notin> {0, 1, 2, 3, 17}" using that by (auto simp: counter_files_def)
    from bf [OF this] show ?thesis
      using that unfolding sf bit_or_iff bit_flag_if counter_files_def by auto
  qed
  have "bit (nl_flags buf) n \<longleftrightarrow> v f \<noteq> None" if "(n, f) \<in> set counter_files" for n f
    using buf(1) fl [OF that] bit_netload_6 [of n] that by (auto simp: bit_or_iff counter_files_def)
  then show ?thesis using s unfolding s'_def [symmetric] buf(2-) by blast
qed

definition net_kernel :: kernel where
  "net_kernel = file_kernel
     [(''/sys/class/net/eth0/statistics/rx_packets'', ''3'' @ [NL]),
      (''/sys/class/net/eth0/statistics/tx_packets'', ''4'' @ [NL])]"

definition net_demo :: netsys where
  "net_demo = \<lparr>ns_socket = 3, ns_ioctl = (\<lambda>_. no_netdev), ns_getifaddrs = None\<rparr>"

lemma read_net_kernel:
  "read_value net_kernel ''eth0'' ''rx_packets'' = Some 3" "read_value net_kernel ''eth0'' ''tx_packets'' = Some 4"
  "read_value net_kernel ''eth0'' ''rx_bytes'' = None"
proof -
  have "strto 10 (''3'' @ [NL]) = Some (False, 3, [NL])" "strto 10 (''4'' @ [NL]) = Some (False, 4, [NL])"
    by code_simp+
  then show "read_value net_kernel ''eth0'' ''rx_packets'' = Some 3" "read_value net_kernel ''eth0'' ''tx_packets'' = Some 4"
    by (simp_all add: read_value_def net_kernel_def file_kernel_buffer strtoull_def BUFSIZ_def)
  show "read_value net_kernel ''eth0'' ''rx_bytes'' = None"
    by (simp add: read_value_def net_kernel_def file_kernel_def try_file_to_buffer_def)
qed

theorem netload_counters_witness:
  "\<exists>buf. glibtop_get_netload_s net_kernel net_demo (Some True) (glibtop_global_server\<lparr>s_os_version_code := 0x60000\<rparr>) ''eth0''
       = Inr (buf, Some True) \<and> packets_total buf = 7 \<and> bit (nl_flags buf) 4 \<and> \<not> bit (nl_flags buf) 7"
proof -
  let ?server = "glibtop_global_server\<lparr>s_os_version_code := 0x60000\<rparr>"
  have v: "s_os_version_code ?server > LINUX_VERSION_CODE 2 6 0" by (simp add: LINUX_VERSION_CODE_def)
  have nv: "\<not> s_os_version_code ?server < LINUX_VERSION_CODE 2 1 14" by (simp add: LINUX_VERSION_CODE_def)
  obtain buf where r: "glibtop_get_netload_s net_kernel net_demo (Some True) ?server ''eth0'' = Inr (buf, Some True)"
    using v nv unfolding glibtop_get_netload_s_def Let_def
    by (simp only: has_sysfs_def option.case prod.case if_False if_True bind_res.simps)
      (simp add: net_demo_def get_ipv6_def)
  from netload_counters [OF r v] have "packets_total buf = 7 \<and> bit (nl_flags buf) 4 \<and> \<not> bit (nl_flags buf) 7"
    unfolding read_net_kernel by (simp add: counter_files_def read_net_kernel known_def)
  with r show ?thesis by blast
qed

subsection \<open>The table of Linux 2.4\<close>

lemma strchr_split: "c \<notin> set a \<Longrightarrow> strchr (a @ c # r) c = Some (c # r)"
  by (induction a) (auto simp: strchr_def)

lemma strchr_none: "c \<notin> set a \<Longrightarrow> strchr a c = None"
  by (induction a) (auto simp: strchr_def)

definition dev_header1 :: string where
  "dev_header1 = ''Inter-|   Receive                                                |  Transmit'' @ [NL]"

definition dev_header2 :: string where
  "dev_header2 = '' face |bytes    packets errs drop fifo frame compressed multicast|bytes    packets errs drop fifo colls carrier compressed'' @ [NL]"

lemma dev_header_parts:
  "\<exists>p. strchr dev_header2 (CHR ''|'') = Some (CHR ''|'' # p) \<and> strncmp_eq p ''bytes'' \<and> count_fields p 0 = Inr 7"
proof -
  have "\<exists>p. dev_header2 = '' face '' @ CHR ''|'' # p \<and> strncmp_eq p ''bytes'' \<and> count_fields p 0 = Inr 7"
    unfolding dev_header2_def by (rule exI, rule conjI, simp) code_simp
  then obtain p where p: "dev_header2 = '' face '' @ CHR ''|'' # p" "strncmp_eq p ''bytes''" "count_fields p 0 = Inr 7"
    by blast
  have "strchr dev_header2 (CHR ''|'') = Some (CHR ''|'' # p)" unfolding p(1) by (rule strchr_split) simp
  with p show ?thesis by blast
qed

text \<open>A line of the table: the name, a colon, and at least fourteen numbers.\<close>

definition dev_line :: "string \<Rightarrow> nat list \<Rightarrow> string \<Rightarrow> bool" where
  "dev_line name ns line \<longleftrightarrow> (\<exists>ws p. line = ws @ name @ CHR '':'' # p \<and> (\<forall>c\<in>set ws. isspace c)
     \<and> words p = map show_nat ns \<and> 14 \<le> length ns \<and> (\<forall>n\<in>set ns. n < 2 ^ 64)
     \<and> CHR 0x0B \<notin> set p)"

definition dev_name :: "string \<Rightarrow> bool" where
  "dev_name name \<longleftrightarrow> CHR '':'' \<notin> set name \<and> name \<noteq> [] \<and> \<not> isspace (hd name)"

lemma strtoull_at:
  assumes "words p = drop k (map show_nat ns)" "k < length ns" "\<forall>n\<in>set ns. n < 2 ^ 64"
  shows "\<exists>p'. strtoull 0 p = (of_nat (ns ! k), p') \<and> words p' = drop (Suc k) (map show_nat ns)"
proof -
  have w: "words p = show_nat (ns ! k) # drop (Suc k) (map show_nat ns)"
    using assms(1,2) Cons_nth_drop_Suc [of k "map show_nat ns"] by simp
  have "ns ! k < 2 ^ 64" using assms(2,3) by simp
  from strtoull_words [OF w this] show ?thesis using words_after_tok [of p] w by simp
qed

lemma words_skip_at:
  "words p = drop k (map show_nat ns) \<Longrightarrow> words (skip_multiple_token p n) = drop (k + n) (map show_nat ns)"
  by (simp add: words_skip_multiple add.commute)

lemma dev_values_spec:
  assumes w: "words p = map show_nat ns" and n: "14 \<le> length ns" "\<forall>n\<in>set ns. n < 2 ^ 64"
  shows "let r = dev_values True 6 p buf in
      bytes_in r = of_nat (ns ! 0) \<and> packets_in r = of_nat (ns ! 1) \<and> errors_in r = of_nat (ns ! 2)
    \<and> bytes_out r = of_nat (ns ! 8) \<and> packets_out r = of_nat (ns ! 9) \<and> errors_out r = of_nat (ns ! 10)
    \<and> collisions r = of_nat (ns ! 13) \<and> bytes_total r = of_nat (ns ! 0) + of_nat (ns ! 8)
    \<and> packets_total r = of_nat (ns ! 1) + of_nat (ns ! 9)
    \<and> nl_flags r = nl_flags buf OR (sysdeps_netload OR sysdeps_netload_packets OR sysdeps_netload_bytes)"
proof -
  note at = strtoull_at [OF _ _ n(2)]
  have ne: "ns \<noteq> []" using n(1) by auto
  obtain p1 where 1: "strtoull 0 p = (of_nat (ns ! 0), p1)" "words p1 = drop 1 (map show_nat ns)"
    using at [of p 0] w ne by auto
  obtain p2 where 2: "strtoull 0 p1 = (of_nat (ns ! 1), p2)" "words p2 = drop 2 (map show_nat ns)"
    using at [OF 1(2)] n(1) by (auto simp: numeral_2_eq_2)
  obtain p3 where 3: "strtoull 0 p2 = (of_nat (ns ! 2), p3)" "words p3 = drop 3 (map show_nat ns)"
    using at [OF 2(2)] n(1) by (auto simp: eval_nat_numeral)
  have s1: "words (skip_multiple_token p3 5) = drop 8 (map show_nat ns)"
    using words_skip_at [OF 3(2), of 5] by simp
  obtain p4 where 4: "strtoull 0 (skip_multiple_token p3 5) = (of_nat (ns ! 8), p4)" "words p4 = drop 9 (map show_nat ns)"
    using at [OF s1] n(1) by (auto simp del: skip_multiple_token.simps)
  obtain p5 where 5: "strtoull 0 p4 = (of_nat (ns ! 9), p5)" "words p5 = drop 10 (map show_nat ns)"
    using at [OF 4(2)] n(1) by auto
  obtain p6 where 6: "strtoull 0 p5 = (of_nat (ns ! 10), p6)" "words p6 = drop 11 (map show_nat ns)"
    using at [OF 5(2)] n(1) by auto
  have s2: "words (skip_multiple_token p6 2) = drop 13 (map show_nat ns)"
    using words_skip_at [OF 6(2), of 2] by simp
  obtain p7 where 7: "strtoull 0 (skip_multiple_token p6 2) = (of_nat (ns ! 13), p7)"
    using at [OF s2] n(1) by (auto simp del: skip_multiple_token.simps)
  have f: "(6 :: nat) - 1 = 5" by simp
  show ?thesis
    unfolding dev_values_def Let_def if_True 1(1) prod.case 2(1) 3(1) f 4(1) 5(1) 6(1) 7(1)
    by simp
qed

lemma dev_line_parts:
  assumes "dev_line name ns line" and "dev_name name"
  obtains q where "strchr (dropWhile isspace line) (CHR '':'') = Some (CHR '':'' # q)"
    and "take (length (dropWhile isspace line) - length (CHR '':'' # q)) (dropWhile isspace line) = name"
    and "dropWhile isspace q \<noteq> []" "isdigit (hd (dropWhile isspace q))" "words (dropWhile isspace q) = map show_nat ns"
proof -
  obtain ws p where l: "line = ws @ name @ CHR '':'' # p" "\<forall>c\<in>set ws. isspace c" "words p = map show_nat ns"
    "14 \<le> length ns" "CHR 0x0B \<notin> set p" using assms(1) by (auto simp: dev_line_def)
  have d: "dropWhile isspace line = name @ CHR '':'' # p"
    using l(1,2) assms(2) by (cases name) (auto simp: dev_name_def dropWhile_append2)
  have c: "CHR '':'' \<notin> set name" using assms(2) by (simp add: dev_name_def)
  have s: "dropWhile isspace p = next_token p"
  proof -
    have "isspace c \<longleftrightarrow> g_ascii_isspace c" if "c \<in> set p" for c
      using that l(5) by (auto simp: isspace_def g_ascii_isspace_def)
    then show ?thesis unfolding next_token_def by (intro dropWhile_cong) auto
  qed
  obtain n ns' where ns: "ns = n # ns'" using l(4) by (cases ns) auto
  have w: "words (next_token p) = show_nat n # map show_nat ns'" using l(3) ns by (simp add: words_next_token)
  then obtain ws' where ws': "next_token p = ws' @ show_nat n @ after_tok (next_token p)" "\<forall>c\<in>set ws'. g_ascii_isspace c"
    by (rule words_ConsE)
  have "ws' = []"
  proof (cases ws')
    case (Cons a b)
    then have "g_ascii_isspace (hd (next_token p))" "next_token p \<noteq> []" using ws' by (metis append_Cons list.sel(1) list.set_intros(1)) (use ws' Cons in auto)
    then show ?thesis using hd_dropWhile [of g_ascii_isspace p] by (simp add: next_token_def)
  qed
  then have h: "hd (next_token p) = hd (show_nat n)" "next_token p \<noteq> []" using ws'(1) by (metis append_Nil hd_append2 show_base_ne) (use w in auto)
  have "isdigit (hd (show_nat n))"
    using hd_show_digit [of n] by (auto simp: isdigit_def digit_val_def Let_def split: if_splits)
  then show thesis
    using that [of p] strchr_split [OF c, of p] h w ns unfolding d s by simp
qed

lemma dev_loop_skip:
  "dev_line name ns line \<Longrightarrow> dev_name name \<Longrightarrow> name \<noteq> interface \<Longrightarrow>
     dev_loop hb k interface (line # lines) buf = dev_loop hb k interface lines buf"
  by (erule (1) dev_line_parts) (simp add: Let_def)

lemma dev_loop_hit:
  assumes "dev_line name ns line" and "dev_name name"
  shows "\<exists>p. words p = map show_nat ns \<and> dev_loop hb k name (line # lines) buf = dev_values hb k p buf"
  using assms by (rule dev_line_parts) (auto simp: Let_def)

lemma dev_loop_find:
  "\<forall>l\<in>set pre. \<exists>nm ns. dev_line nm ns l \<and> dev_name nm \<and> nm \<noteq> name \<Longrightarrow>
     dev_loop hb k name (pre @ lines) buf = dev_loop hb k name lines buf"
  by (induction pre) (auto simp: dev_loop_skip simp del: dev_loop.simps)

text \<open>
  C22. Without \<open>/sys\<close> the counters come from the table \<open>/proc/net/dev\<close>: for the header that Linux
  2.2 and later write, and wherever the line of the interface stands in the table, each counter is
  the column of its name (bytes, packets and errors of both directions, collisions), and the totals
  are the sums.
\<close>

theorem netload_table:
  assumes f: "fgets_lines K (BUFSIZ - 1) ''/proc/net/dev'' = Some (dev_header1 # dev_header2 # pre @ line # post)"
    and pre: "\<forall>l\<in>set pre. \<exists>nm ns. dev_line nm ns l \<and> dev_name nm \<and> nm \<noteq> interface"
    and line: "dev_line interface ns line" "dev_name interface"
  shows "\<exists>r. linux_2_4_stats K interface buf = Inr r
    \<and> bytes_in r = of_nat (ns ! 0) \<and> packets_in r = of_nat (ns ! 1) \<and> errors_in r = of_nat (ns ! 2)
    \<and> bytes_out r = of_nat (ns ! 8) \<and> packets_out r = of_nat (ns ! 9) \<and> errors_out r = of_nat (ns ! 10)
    \<and> collisions r = of_nat (ns ! 13) \<and> bytes_total r = bytes_in r + bytes_out r
    \<and> packets_total r = packets_in r + packets_out r
    \<and> nl_flags r = nl_flags buf OR (sysdeps_netload OR sysdeps_netload_packets OR sysdeps_netload_bytes)"
proof -
  obtain h where h: "strchr dev_header2 (CHR ''|'') = Some (CHR ''|'' # h)" "strncmp_eq h ''bytes''" "count_fields h 0 = Inr 7"
    using dev_header_parts by blast
  obtain p where p: "words p = map show_nat ns" "dev_loop True 6 interface (line # post) buf = dev_values True 6 p buf"
    using dev_loop_hit [OF line] by blast
  have n: "14 \<le> length ns" "\<forall>n\<in>set ns. n < 2 ^ 64" using line(1) by (auto simp: dev_line_def)
  have "linux_2_4_stats K interface buf = Inr (dev_loop True 6 interface (pre @ line # post) buf)"
    using h(2,3) unfolding linux_2_4_stats_def f by (simp add: h(1))
  then have "linux_2_4_stats K interface buf = Inr (dev_values True 6 p buf)"
    by (simp only: dev_loop_find [OF pre] p(2))
  with dev_values_spec [OF p(1) n, of buf, unfolded Let_def] show ?thesis by (intro exI conjI) (assumption | simp)+
qed

definition dev_text_line :: "string \<Rightarrow> nat list \<Rightarrow> string" where
  "dev_text_line nm ns = nm @ CHR '':'' # concat (map (\<lambda>n. SP # show_nat n) ns) @ [NL]"

lemma dev_text_line:
  assumes "14 \<le> length ns" and "\<forall>n\<in>set ns. n < 2 ^ 64"
  shows "dev_line nm ns (dev_text_line nm ns)"
proof -
  define p where "p = concat (map (\<lambda>n. SP # show_nat n) ns) @ [NL]"
  have "words (concat (map (\<lambda>n. SP # show_nat n) ns) @ [NL]) = map show_nat ns"
  proof (induction ns)
    case (Cons n ns)
    define r where "r = concat (map (\<lambda>n. SP # show_nat n) ns) @ [NL]"
    have "sep r" by (cases ns) (simp_all add: r_def)
    then have "words ([SP] @ show_nat n @ r) = show_nat n # words r"
      using show_nat_no_space [of _ n] by (intro words_tok) (auto dest: g_space_isspace)
    with Cons show ?case by (simp add: r_def)
  qed simp
  moreover have "CHR 0x0B \<notin> set p"
    using show_nat_no_space by (auto simp: p_def isspace_def)
  ultimately show ?thesis
    unfolding dev_line_def dev_text_line_def p_def [symmetric] using assms
    by (intro exI [of _ "[]"] exI [of _ p]) (simp add: p_def)
qed

lemma dev_text_line_text: "NL \<notin> set nm \<Longrightarrow> NUL \<notin> set nm \<Longrightarrow>
    \<exists>k. dev_text_line nm ns = k @ [NL] \<and> NL \<notin> set k \<and> NUL \<notin> set k"
  using show_nat_no_space
  by (intro exI [of _ "nm @ CHR '':'' # concat (map (\<lambda>n. SP # show_nat n) ns)"])
    (auto simp: dev_text_line_def isspace_def)

abbreviation (input) "demo_lo \<equiv> dev_text_line ''lo'' [5, 5, 0, 0, 0, 0, 0, 0, 5, 5, 0, 0, 0, 0, 0, 0]"
abbreviation (input) "demo_eth0 \<equiv> dev_text_line ''eth0'' [9, 3, 1, 0, 0, 0, 0, 0, 8, 2, 0, 0, 0, 6, 0, 0]"

definition table_kernel :: kernel where
  "table_kernel = (file_kernel [])\<lparr>k_read := (\<lambda>p. if p = ''/proc/net/dev''
     then Some [Chunk (concat [dev_header1, dev_header2, demo_lo, demo_eth0])] else None)\<rparr>"

lemma table_kernel_lines:
  assumes "1000 < n"
  shows "fgets_lines table_kernel n ''/proc/net/dev'' = Some [dev_header1, dev_header2, demo_lo, demo_eth0]"
proof (rule fgets_lines_text)
  show "text_lines [dev_header1, dev_header2, demo_lo, demo_eth0]"
    using dev_text_line_text [of "''lo''"] dev_text_line_text [of "''eth0''"]
    by (simp add: dev_header1_def dev_header2_def)
  have s: "show_nat n = [digit_chr n]" if "n < 10" for n using that by (subst show_base.simps) simp
  show "\<forall>l\<in>set [dev_header1, dev_header2, demo_lo, demo_eth0]. length l < n"
    using assms by (simp add: dev_header1_def dev_header2_def dev_text_line_def s)
qed (simp add: table_kernel_def)

theorem netload_table_witness:
  "\<exists>r. linux_2_4_stats table_kernel ''eth0'' netload_zero = Inr r
     \<and> bytes_total r = 17 \<and> packets_in r = 3 \<and> collisions r = 6"
proof -
  have f: "fgets_lines table_kernel (BUFSIZ - 1) ''/proc/net/dev''
      = Some (dev_header1 # dev_header2 # [demo_lo] @ demo_eth0 # [])"
    using table_kernel_lines [of "BUFSIZ - 1"] by (simp add: BUFSIZ_def)
  have n: "dev_name ''lo''" "dev_name ''eth0''" by (simp_all add: dev_name_def isspace_def)
  have l: "dev_line ''lo'' [5, 5, 0, 0, 0, 0, 0, 0, 5, 5, 0, 0, 0, 0, 0, 0] demo_lo"
    "dev_line ''eth0'' [9, 3, 1, 0, 0, 0, 0, 0, 8, 2, 0, 0, 0, 6, 0, 0] demo_eth0"
    by (rule dev_text_line; simp)+
  have pre: "\<forall>l\<in>set [demo_lo]. \<exists>nm ns. dev_line nm ns l \<and> dev_name nm \<and> nm \<noteq> ''eth0''"
    using n(1) l(1) by auto
  from netload_table [OF f pre l(2) n(2), of netload_zero] show ?thesis by (elim exE conjE) (auto intro!: exI)
qed

subsection \<open>IP accounting\<close>

lemma skip_token_prefix:
  assumes "skip_token dev \<noteq> []"
  shows "\<exists>c\<in>set (take (length dev - length (skip_token dev)) dev). g_ascii_isspace c"
proof -
  have p: "skip_token dev = next_token (after_tok dev)" by (rule skip_token_after_tok)
  have "words dev \<noteq> []"
    using assms unfolding p
    by (auto simp: words_unfold [of dev] after_tok_def next_token_def split: if_splits dest!: set_dropWhileD)
  then obtain t ts where "words dev = t # ts" by (cases "words dev") auto
  then obtain ws where ws: "dev = ws @ t @ after_tok dev" "sep (after_tok dev)" by (rule words_ConsE)
  have ne: "after_tok dev \<noteq> []" using assms p by (auto simp: next_token_def)
  define sp where "sp = takeWhile g_ascii_isspace (after_tok dev)"
  have at: "after_tok dev = sp @ skip_token dev" by (simp add: p sp_def next_token_def)
  have "sp \<noteq> []" "\<forall>c\<in>set sp. g_ascii_isspace c"
    using ne ws(2) set_takeWhileD [of _ g_ascii_isspace "after_tok dev"]
    by (auto simp: sp_def sep_def takeWhile_eq_Nil_iff)
  moreover have "dev = (ws @ t @ sp) @ skip_token dev" using ws(1) at by (metis append.assoc)
  then have "take (length dev - length (skip_token dev)) dev = ws @ t @ sp"
    by (metis add_diff_cancel_right' append_eq_conv_conj length_append)
  ultimately show ?thesis by (cases sp) auto
qed

lemma acct_line_keeps:
  assumes "acct_line interface buffer buf = Inr r" and "\<forall>c\<in>set interface. \<not> g_ascii_isspace c"
  shows "r = buf"
proof -
  obtain dev p where d: "acct_dev buffer = Inr (dev, p)" "dev \<noteq> interface \<and> r = buf \<or> p \<noteq> None \<and> dev = interface"
    using assms(1) by (auto simp: acct_line_def bind_res_Inr_iff split: if_splits option.splits)
  have "\<exists>c\<in>set dev. g_ascii_isspace c" if "p \<noteq> None"
    using d(1) that skip_token_prefix by (auto simp: acct_dev_def Let_def split: list.splits if_splits)
  with d(2) assms(2) show ?thesis by blast
qed

text \<open>
  IP accounting, the source of the counters for kernels before 2.1.14, never gives a value: the
  name that is cut out of a line keeps the white space behind it, so no line is the interface's, and
  the buffer comes back as it was (if the function returns at all).
\<close>

theorem ip_acct_never_matches:
  assumes "linux_2_0_stats K interface buf = Inr r" and "\<forall>c\<in>set interface. \<not> g_ascii_isspace c"
  shows "r = buf"
proof -
  have loop: "acct_loop interface ls b = Inr r' \<Longrightarrow> r' = b" for ls b r'
    using acct_line_keeps [OF _ assms(2)]
    by (induction ls arbitrary: b) (auto simp: bind_res_Inr_iff)
  show ?thesis
    using assms(1) by (auto simp: linux_2_0_stats_def split: option.splits dest: loop)
qed

definition acct_kernel :: kernel where
  "acct_kernel = (file_kernel [])\<lparr>k_read := (\<lambda>p. if p = ''/proc/net/ip_acct''
     then Some [Chunk (concat [''IP accounting rules'' @ [NL], ''0000->0000 -eth0 0 1000 0 0 7 700'' @ [NL]])] else None)\<rparr>"

theorem ip_acct_never_matches_witness:
  "linux_2_0_stats acct_kernel ''eth0'' netload_zero = Inr netload_zero"
proof -
  let ?l = "''0000->0000 -eth0 0 1000 0 0 7 700'' @ [NL]"
  have "fgets_lines acct_kernel (BUFSIZ - 1) ''/proc/net/ip_acct'' = Some [''IP accounting rules'' @ [NL], ?l]"
    by (rule fgets_lines_text) (simp_all add: acct_kernel_def BUFSIZ_def)
  moreover have "acct_dev ?l = Inr (''eth0 '', Some ('' 1000 0 0 7 700'' @ [NL]))"
    by (simp add: acct_dev_def skip_token_def next_token_def g_ascii_isspace_def Let_def)
  ultimately have "\<exists>r. linux_2_0_stats acct_kernel ''eth0'' netload_zero = Inr r"
    unfolding linux_2_0_stats_def by (simp add: acct_line_def)
  then obtain r where r: "linux_2_0_stats acct_kernel ''eth0'' netload_zero = Inr r" by blast
  have "r = netload_zero"
    by (rule ip_acct_never_matches [OF r]) (simp add: g_ascii_isspace_def)
  with r show ?thesis by simp
qed

subsection \<open>The list of devices\<close>

definition table_line :: "string \<times> string \<times> nat list \<Rightarrow> string" where
  \<comment> \<open>right-aligned names\<close>
  "table_line = (\<lambda>(ws, nm, ns). ws @ dev_text_line nm ns)"

lemma netlist_loop_line:
  assumes "set ws \<subseteq> {SP}" and "nm \<noteq> []" "CHR '':'' \<notin> set nm" "\<forall>c\<in>set nm. \<not> g_ascii_isspace c"
  shows "netlist_loop (table_line (ws, nm, ns) # ls) = nm # netlist_loop ls"
proof -
  have l: "table_line (ws, nm, ns) = (ws @ nm) @ CHR '':'' # concat (map (\<lambda>n. SP # show_nat n) ns) @ [NL]"
    by (simp add: table_line_def dev_text_line_def)
  have c: "CHR '':'' \<notin> set (ws @ nm)" using assms(1,3) by auto
  have strip: "g_strstrip (ws @ nm) = nm"
  proof -
    have "\<forall>c\<in>set ws. g_ascii_isspace c" using assms(1) by auto
    then have "dropWhile g_ascii_isspace (ws @ nm) = nm"
      using assms(2,4) by (cases nm) (auto simp: dropWhile_append2)
    moreover have "dropWhile g_ascii_isspace (rev nm) = rev nm"
      using assms(4) by (simp add: dropWhile_eq_self_iff hd_rev assms(2))
    ultimately show ?thesis by (simp add: g_strstrip_def)
  qed
  show ?thesis unfolding l by (simp add: strchr_split [OF c, simplified] strip)
qed

text \<open>
  The list of devices has exactly the names of the table \<open>/proc/net/dev\<close>, in its order and
  without the blanks before them, and \<open>number\<close> is their count; and each of them is a name for which
  \<open>netload\<close> finds the line (C28).
\<close>

theorem netlist_names:
  assumes "fgets_lines K 1024 ''/proc/net/dev'' = Some (dev_header1 # dev_header2 # map table_line es)"
    and es: "\<forall>(ws, nm, ns)\<in>set es. set ws \<subseteq> {SP} \<and> dev_name nm \<and> (\<forall>c\<in>set nm. \<not> g_ascii_isspace c)
      \<and> 14 \<le> length ns \<and> (\<forall>n\<in>set ns. n < 2 ^ 64)"
  shows "glibtop_get_netlist_s K =
      (\<lparr>nli_flags = sysdeps_netlist, nli_number = of_nat (length es)\<rparr>, Some (map (\<lambda>(ws, nm, ns). nm) es))
    \<and> (\<forall>e\<in>set es. case e of (ws, nm, ns) \<Rightarrow> dev_line nm ns (table_line e))"
proof -
  have h: "strchr dev_header1 (CHR '':'') = None" "strchr dev_header2 (CHR '':'') = None"
    by (simp_all add: dev_header1_def dev_header2_def strchr_def)
  have l: "netlist_loop (map table_line es) = map (\<lambda>(ws, nm, ns). nm) es"
    using es
  proof (induction es)
    case (Cons e es)
    obtain ws nm ns where e: "e = (ws, nm, ns)" by (cases e)
    show ?case
      using Cons netlist_loop_line [of ws nm ns "map table_line es"] by (simp add: e dev_name_def)
  qed simp
  have d: "dev_line nm ns (ws @ dev_text_line nm ns)" if "(ws, nm, ns) \<in> set es" for ws nm ns
  proof -
    have a: "14 \<le> length ns" "\<forall>n\<in>set ns. n < 2 ^ 64" "set ws \<subseteq> {SP}" using es that by auto
    obtain ws' p where p: "dev_text_line nm ns = ws' @ nm @ CHR '':'' # p" "\<forall>c\<in>set ws'. isspace c"
      "words p = map show_nat ns" "CHR 0x0B \<notin> set p"
      using dev_text_line [OF a(1,2), of nm] by (auto simp: dev_line_def)
    have "\<forall>c\<in>set (ws @ ws'). isspace c" using a(3) p(2) by (auto simp: isspace_def)
    with p a(1,2) show ?thesis unfolding dev_line_def by (metis append.assoc)
  qed
  show ?thesis
    using d by (simp add: glibtop_get_netlist_s_def assms(1) h l Let_def) (auto simp: table_line_def)
qed

theorem netlist_names_witness:
  "snd (glibtop_get_netlist_s table_kernel) = Some [''lo'', ''eth0'']"
proof -
  let ?es = "[([], ''lo'', [5, 5, 0, 0, 0, 0, 0, 0, 5, 5, 0, 0, 0, 0, 0, 0]),
    ([], ''eth0'', [9, 3, 1, 0, 0, 0, 0, 0, 8, 2, 0, 0, 0, 6, 0, 0])] :: (string \<times> string \<times> nat list) list"
  have f: "fgets_lines table_kernel 1024 ''/proc/net/dev'' = Some (dev_header1 # dev_header2 # map table_line ?es)"
    using table_kernel_lines [of 1024] by (simp add: table_line_def)
  have es: "\<forall>(ws, nm, ns)\<in>set ?es. set ws \<subseteq> {SP} \<and> dev_name nm \<and> (\<forall>c\<in>set nm. \<not> g_ascii_isspace c)
      \<and> 14 \<le> length ns \<and> (\<forall>n\<in>set ns. n < 2 ^ 64)"
    by (simp add: dev_name_def isspace_def g_ascii_isspace_def)
  show ?thesis using netlist_names [OF f es] by simp
qed

end
