(* ===== verification/OpenFiles.thy ===== *)
theory OpenFiles
  imports Scanf ProcMap
begin

text \<open>
  \<open>procopenfiles.c\<close> under \<open>sysdeps/linux\<close>: what the file descriptors of a process are. The sockets
  are looked up in tables made from \<open>/proc/net/tcp6\<close>, \<open>tcp\<close> and \<open>unix\<close>; they are read at the
  first socket, which gives the same as reading them at once. \<open>inet_ntop\<close> for IPv6 is the parameter
  \<open>ntop6\<close> on the sixteen bytes of an address.
\<close>

section \<open>The tables of sockets\<close>

record socket_entry =
  se_host :: string
  se_port :: gint32

type_synonym socket_dict = "gint32 \<rightharpoonup> socket_entry"

definition scan_tail :: "conv list" where
  \<comment> \<open>\<open>%*x %*x:%*x %*x:%*x %*d %*d %*d %d\<close>\<close>
  "scan_tail = [SkipNum 16, SkipNum 16, Lit (CHR '':''), SkipNum 16, SkipNum 16, Lit (CHR '':''), SkipNum 16,
     SkipNum 10, SkipNum 10, SkipNum 10, Num 10 None]"

definition inet_format :: "conv list" where
  \<comment> \<open>\<open>%*d: %*x:%*x %8x:%4x\<close> and the tail\<close>
  "inet_format = [SkipNum 10, Lit (CHR '':''), SkipNum 16, Lit (CHR '':''), SkipNum 16, Num 16 (Some 8),
     Lit (CHR '':''), Num 16 (Some 4)] @ scan_tail"

definition inet6_format :: "conv list" where
  "inet6_format = [SkipNum 10, Lit (CHR '':''), SkipWord, Num 16 (Some 8), Num 16 (Some 8), Num 16 (Some 8),
     Num 16 (Some 8), Lit (CHR '':''), Num 16 (Some 4)] @ scan_tail"

definition inet_ntop4 :: "string \<Rightarrow> string" where
  \<comment> \<open>\<open>inet_ntop (AF_INET, ...)\<close> on the four bytes in memory\<close>
  "inet_ntop4 bs =
     show_nat (of_char (bs ! 0)) @ ''.'' @ show_nat (of_char (bs ! 1)) @ ''.''
     @ show_nat (of_char (bs ! 2)) @ ''.'' @ show_nat (of_char (bs ! 3))"

definition inet_socket_parser :: "socket_dict \<Rightarrow> string \<Rightarrow> socket_dict" where
  "inet_socket_parser dict line =
     (case scan_all inet_format line of
        [addr, port, sock] \<Rightarrow>
          dict(scan_int32 sock \<mapsto> \<lparr>se_host = inet_ntop4 (u32_bytes (scan_int32 addr)), se_port = scan_int32 port\<rparr>)
      | _ \<Rightarrow> dict)"

definition inet6_socket_parser :: "(string \<Rightarrow> string option) \<Rightarrow> socket_dict \<Rightarrow> string \<Rightarrow> socket_dict" where
  "inet6_socket_parser ntop6 dict line =
     (case scan_all inet6_format line of
        [a0, a1, a2, a3, port, sock] \<Rightarrow>
          (case ntop6 (concat (map (u32_bytes \<circ> scan_int32) [a0, a1, a2, a3])) of
             None \<Rightarrow> dict
           | Some host \<Rightarrow> dict(scan_int32 sock \<mapsto> \<lparr>se_host = host, se_port = scan_int32 port\<rparr>))
      | _ \<Rightarrow> dict)"

abbreviation "GLIBTOP_OPEN_DEST_HOST_LEN \<equiv> 46 :: nat"
abbreviation "GLIBTOP_OPEN_FILENAME_LEN \<equiv> 215 :: nat"

definition local_socket_parser :: "(gint32 \<rightharpoonup> string) \<Rightarrow> string \<Rightarrow> (gint32 \<rightharpoonup> string)" where
  "local_socket_parser dict line =
     (let p = skip_multiple_token line 6; (sock, p) = strtoul 10 p
      in dict(ucast sock \<mapsto> g_strstrip (g_strlcpy p (GLIBTOP_OPEN_DEST_HOST_LEN + 1))))"

definition get_all :: "kernel \<Rightarrow> string \<Rightarrow> ((gint32 \<rightharpoonup> 'a) \<Rightarrow> string \<Rightarrow> (gint32 \<rightharpoonup> 'a)) \<Rightarrow> (gint32 \<rightharpoonup> 'a)" where
  "get_all K filename parser =
     (case fopen_lines K filename of
        None \<Rightarrow> Map.empty
      | Some lines \<Rightarrow> foldl parser Map.empty (drop 1 lines))"

section \<open>The files\<close>

datatype file_info = NoInfo | SockInfo string gint32 | FileInfo string | LocalInfo string

record glibtop_open_files_entry =
  fe_fd :: gint32
  fe_type :: guint16
  fe_info :: file_info

record glibtop_proc_open_files =
  of_flags :: guint64
  of_number :: guint64
  of_total :: guint64
  of_size :: guint64

abbreviation (input) "GLIBTOP_FILE_TYPE_FILE \<equiv> 1 :: guint16"
abbreviation (input) "GLIBTOP_FILE_TYPE_PIPE \<equiv> 2 :: guint16"
abbreviation (input) "GLIBTOP_FILE_TYPE_INETSOCKET \<equiv> 4 :: guint16"
abbreviation (input) "GLIBTOP_FILE_TYPE_LOCALSOCKET \<equiv> 8 :: guint16"
abbreviation (input) "GLIBTOP_FILE_TYPE_INET6SOCKET \<equiv> 16 :: guint16"

definition sysdeps_proc_open_files :: guint64 where
  "sysdeps_proc_open_files = flag 0 + flag 1 + flag 2"

definition init_proc_open_files_s :: "glibtop \<Rightarrow> glibtop" where
  "init_proc_open_files_s server = set_sysdeps F_PROC_OPEN_FILES sysdeps_proc_open_files server"

definition socket_info ::
  "socket_dict \<Rightarrow> socket_dict \<Rightarrow> (gint32 \<rightharpoonup> string) \<Rightarrow> gint32 \<Rightarrow> guint16 \<times> file_info" where
  "socket_info inet6 inet local sockfd =
     (case inet6 sockfd of
        Some se \<Rightarrow> (GLIBTOP_FILE_TYPE_INET6SOCKET, SockInfo (g_strlcpy (se_host se) 47) (se_port se))
      | None \<Rightarrow> (case inet sockfd of
          Some se \<Rightarrow> (GLIBTOP_FILE_TYPE_INETSOCKET, SockInfo (g_strlcpy (se_host se) 47) (se_port se))
        | None \<Rightarrow> (case local sockfd of
            Some name \<Rightarrow> (GLIBTOP_FILE_TYPE_LOCALSOCKET, LocalInfo (g_strlcpy name 216))
          | None \<Rightarrow> (0, NoInfo))))"

definition open_entry ::
  "socket_dict \<Rightarrow> socket_dict \<Rightarrow> (gint32 \<rightharpoonup> string) \<Rightarrow> string \<Rightarrow> string \<Rightarrow> glibtop_open_files_entry" where
  "open_entry inet6 inet local d_name tgt =
     (let (type, info) =
        (if strncmp_eq tgt ''socket:['' then socket_info inet6 inet local (atoi (drop 8 tgt))
         else if strncmp_eq tgt ''pipe:['' then (GLIBTOP_FILE_TYPE_PIPE, NoInfo)
         else (GLIBTOP_FILE_TYPE_FILE, FileInfo (g_strlcpy tgt 216)))
      in \<lparr>fe_fd = atoi d_name, fe_type = type, fe_info = info\<rparr>)"

fun fd_loop ::
  "kernel \<Rightarrow> (string \<Rightarrow> string \<Rightarrow> glibtop_open_files_entry) \<Rightarrow> int \<Rightarrow> (string \<times> bool) list
     \<Rightarrow> glibtop_open_files_entry list" where
  "fd_loop K entry pid [] = []"
| "fd_loop K entry pid ((d_name, _) # ds) =
     (if d_name \<noteq> [] \<and> hd d_name = CHR ''.'' then fd_loop K entry pid ds
      else case safe_readlink K (proc_path pid (''/fd/'' @ d_name)) BUFSIZ of
        None \<Rightarrow> fd_loop K entry pid ds
      | Some tgt \<Rightarrow> entry d_name tgt # fd_loop K entry pid ds)"

definition glibtop_get_proc_open_files_s ::
  "(string \<Rightarrow> string option) \<Rightarrow> kernel \<Rightarrow> int \<Rightarrow> glibtop_proc_open_files \<times> glibtop_open_files_entry list option" where
  "glibtop_get_proc_open_files_s ntop6 K pid =
     (case k_readdir K (proc_path pid ''/fd'') of
        None \<Rightarrow> (\<lparr>of_flags = 0, of_number = 0, of_total = 0, of_size = 0\<rparr>, None)
      | Some ds \<Rightarrow>
          (let inet6 = get_all K ''/proc/net/tcp6'' (inet6_socket_parser ntop6);
               inet = get_all K ''/proc/net/tcp'' inet_socket_parser;
               local = get_all K ''/proc/net/unix'' local_socket_parser;
               entries = fd_loop K (open_entry inet6 inet local) pid ds
           in (\<lparr>of_flags = sysdeps_proc_open_files, of_number = of_nat (length entries),
                of_total = of_nat (length entries) * 224, of_size = 224\<rparr>, Some entries)))"

section \<open>Lines of \<open>/proc/net/tcp\<close>\<close>

text \<open>A line as \<open>tcp_ipv4.c\<close> of the kernel prints it: addresses and counters as hex digits, also the
  number of retransmits, the user, the timeout and the inode in decimal.\<close>

record tcp_line =
  tl_sl :: nat
  tl_local :: string
  tl_lport :: string
  tl_rem :: string
  tl_rport :: string
  tl_st :: string
  tl_tx :: string
  tl_rx :: string
  tl_tr :: string
  tl_when :: string
  tl_retr :: string
  tl_uid :: nat
  tl_timeout :: nat
  tl_inode :: nat
  tl_rest :: string

definition tcp_tail :: "tcp_line \<Rightarrow> string" where
  "tcp_tail l = SP # tl_st l @ SP # tl_tx l @ CHR '':'' # tl_rx l @ SP # tl_tr l @ CHR '':'' # tl_when l
     @ [SP] @ tl_retr l @ [SP] @ show_nat (tl_uid l) @ [SP] @ show_nat (tl_timeout l) @ [SP] @ show_nat (tl_inode l)
     @ tl_rest l"

definition tcp_text :: "tcp_line \<Rightarrow> string" where
  "tcp_text l = [SP, SP] @ show_nat (tl_sl l) @ CHR '':'' # SP # tl_local l @ CHR '':'' # tl_lport l @ [SP] @ tl_rem l
     @ CHR '':'' # tl_rport l @ tcp_tail l"

text \<open>The address of the peer has \<open>n\<close> digits, 8 in \<open>tcp\<close> and 32 in \<open>tcp6\<close>.\<close>

definition tcp_line_ok :: "nat \<Rightarrow> tcp_line \<Rightarrow> bool" where
  "tcp_line_ok n l \<longleftrightarrow>
     (\<forall>ds\<in>{tl_local l, tl_lport l, tl_rem l, tl_rport l, tl_st l, tl_tx l, tl_rx l, tl_tr l, tl_when l, tl_retr l}. hex ds)
     \<and> length (tl_rem l) = n \<and> length (tl_rport l) = 4 \<and> tl_inode l < 2 ^ 31 \<and> sep (tl_rest l)"

text \<open>The first octet of an address is the lowest byte of the number that the kernel prints.\<close>

definition dotted :: "nat \<Rightarrow> string" where
  "dotted a = show_nat (a mod 256) @ ''.'' @ show_nat (a div 256 mod 256) @ ''.''
     @ show_nat (a div 256 div 256 mod 256) @ ''.'' @ show_nat (a div 256 div 256 div 256 mod 256)"

lemma inet_ntop4_dotted:
  assumes "a < 2 ^ 32"
  shows "inet_ntop4 (u32_bytes (of_nat a)) = dotted a"
proof -
  have four: "(4 :: nat) = Suc (Suc (Suc (Suc 0)))" by simp
  have u: "unat (of_nat a :: 32 word) = a" using assms by (simp add: unat_of_nat take_bit_nat_eq_self)
  have "u32_bytes (of_nat a) = [char_of (a mod 256), char_of (a div 256 mod 256), char_of (a div 256 div 256 mod 256),
      char_of (a div 256 div 256 div 256 mod 256)]"
    unfolding u32_bytes_def u four le_enc.simps ..
  then show ?thesis unfolding inet_ntop4_def dotted_def by simp
qed

lemma digit_val_colon [simp]: "digit_val (CHR '':'') = 36" "digit_val SP = 36"
  by (simp_all add: digit_val_def)

lemma scan_tail_text:
  assumes "tcp_line_ok n l"
  shows "scan_all scan_tail (tcp_tail l) = (if decimal (tl_retr l) then [(False, tl_inode l)] else [])"
proof -
  have h: "hex ds" if "ds \<in> {tl_st l, tl_tx l, tl_rx l, tl_tr l, tl_when l, tl_retr l}" for ds
    using assms that by (auto simp: tcp_line_ok_def)
  have x: "scan_num 16 None (ds @ c # r) = Some ((False, hexval ds), c # r)"
          "scan_num 16 None (SP # ds @ c # r) = Some ((False, hexval ds), c # r)"
    if "ds \<in> {tl_st l, tl_tx l, tl_rx l, tl_tr l, tl_when l}" "c \<in> {SP, CHR '':''}" for ds c r
    using scan_hex [OF h, of ds "[]" "c # r"] scan_hex [OF h, of ds "[SP]" "c # r"] that
    by (auto simp: isspace_def)
  have d: "scan_num 10 None (SP # show_nat n @ r) = Some ((False, n), r)" if "sep r" for n r
    using scan_num_show [of "[SP]" r n] that by simp
  have r: "sep (tl_rest l)" using assms by (simp add: tcp_line_ok_def)
  have two: "scan_all (SkipNum 10 # SkipNum 10 # cs) (SP # tl_retr l @ SP # r)
      = (if decimal (tl_retr l) then scan_all (SkipNum 10 # cs) (SP # r) else [])" for cs r
    using scan_two_decimals [of "tl_retr l" "[SP]" "SP # r" cs] h by (simp add: isspace_def)
  have "scan_all scan_tail (tcp_tail l) = scan_all (SkipNum 10 # SkipNum 10 # [SkipNum 10, Num 10 None])
      (SP # tl_retr l @ SP # show_nat (tl_uid l) @ SP # show_nat (tl_timeout l) @ SP # show_nat (tl_inode l) @ tl_rest l)"
    by (simp add: scan_tail_def tcp_tail_def x)
  then show ?thesis by (simp only: two) (simp add: d r)
qed

definition tcp_entry :: "tcp_line \<Rightarrow> socket_entry" where
  "tcp_entry l = \<lparr>se_host = dotted (hexval (tl_rem l)), se_port = of_nat (hexval (tl_rport l))\<rparr>"

lemma inet_socket_parser_text:
  assumes "tcp_line_ok 8 l"
  shows "inet_socket_parser dict (tcp_text l) =
    (if decimal (tl_retr l) then dict(of_nat (tl_inode l) \<mapsto> tcp_entry l) else dict)"
proof -
  have h: "hex ds" if "ds \<in> {tl_local l, tl_lport l, tl_rem l, tl_rport l}" for ds
    using assms that by (auto simp: tcp_line_ok_def)
  have len: "length (tl_rem l) = 8" "length (tl_rport l) = 4" using assms by (simp_all add: tcp_line_ok_def)
  have x: "scan_num 16 None (ds @ c # r) = Some ((False, hexval ds), c # r)"
          "scan_num 16 None (SP # ds @ c # r) = Some ((False, hexval ds), c # r)"
    if "ds \<in> {tl_local l, tl_lport l}" "c \<in> {SP, CHR '':''}" for ds c r
    using scan_hex [OF h, of ds "[]" "c # r"] scan_hex [OF h, of ds "[SP]" "c # r"] that
    by (auto simp: isspace_def)
  have w: "scan_num 16 (Some 8) (SP # tl_rem l @ r) = Some ((False, hexval (tl_rem l)), r)"
    "scan_num 16 (Some 4) (tl_rport l @ r) = Some ((False, hexval (tl_rport l)), r)" for r
    using scan_hex_width [OF h, of "tl_rem l" "[SP]" 8 r] scan_hex_width [OF h, of "tl_rport l" "[]" 4 r] len
    by (simp_all add: isspace_def)
  have d: "scan_num 10 None (SP # SP # show_nat (tl_sl l) @ CHR '':'' # r) = Some ((False, tl_sl l), CHR '':'' # r)" for r
  proof -
    have "dropWhile isspace (SP # SP # show_nat (tl_sl l) @ CHR '':'' # r) = show_nat (tl_sl l) @ CHR '':'' # r"
      using dropWhile_space_show [of "[SP, SP]" "tl_sl l" "CHR '':'' # r"] by simp
    then show ?thesis using strto_dec [of "CHR '':'' # r" "tl_sl l"] by (simp add: scan_num_def)
  qed
  have s: "scan_all inet_format (tcp_text l) = (False, hexval (tl_rem l)) # (False, hexval (tl_rport l))
      # (if decimal (tl_retr l) then [(False, tl_inode l)] else [])"
    by (simp add: inet_format_def tcp_text_def d x w scan_tail_text [OF assms])
  have "hexval (tl_rem l) < 2 ^ 32"
    using digits_to_nat_less [of "tl_rem l"] h [of "tl_rem l"] len by (simp add: hex_def)
  then show ?thesis
    by (simp add: inet_socket_parser_def s scan_int32_def inet_ntop4_dotted tcp_entry_def)
qed

text \<open>The sixteen bytes of an IPv6 address: four words, printed as numbers of the machine.\<close>

definition word_bytes :: "nat \<Rightarrow> string" where
  "word_bytes a = [char_of (a mod 256), char_of (a div 256 mod 256), char_of (a div 256 div 256 mod 256),
     char_of (a div 256 div 256 div 256 mod 256)]"

definition tcp6_address :: "string \<Rightarrow> string" where
  "tcp6_address ds = word_bytes (hexval (take 8 ds)) @ word_bytes (hexval (take 8 (drop 8 ds)))
     @ word_bytes (hexval (take 8 (drop 16 ds))) @ word_bytes (hexval (take 8 (drop 24 ds)))"

lemma word_bytes_u32: "a < 2 ^ 32 \<Longrightarrow> u32_bytes (of_nat a) = word_bytes a"
proof -
  assume a: "a < 2 ^ 32"
  have four: "(4 :: nat) = Suc (Suc (Suc (Suc 0)))" by simp
  have u: "unat (of_nat a :: 32 word) = a" using a by (simp add: unat_of_nat take_bit_nat_eq_self)
  show ?thesis unfolding u32_bytes_def word_bytes_def u four le_enc.simps ..
qed

definition tcp6_entry :: "(string \<Rightarrow> string) \<Rightarrow> tcp_line \<Rightarrow> socket_entry" where
  "tcp6_entry host6 l = \<lparr>se_host = host6 (tcp6_address (tl_rem l)), se_port = of_nat (hexval (tl_rport l))\<rparr>"

lemma inet6_socket_parser_text:
  assumes "tcp_line_ok 32 l"
  shows "inet6_socket_parser (\<lambda>bs. Some (host6 bs)) dict (tcp_text l) =
    (if decimal (tl_retr l) then dict(of_nat (tl_inode l) \<mapsto> tcp6_entry host6 l) else dict)"
proof -
  have h: "hex ds" if "ds \<in> {tl_local l, tl_lport l, tl_rem l, tl_rport l}" for ds
    using assms that by (auto simp: tcp_line_ok_def)
  have len: "length (tl_rem l) = 32" "length (tl_rport l) = 4" using assms by (simp_all add: tcp_line_ok_def)
  define g where "g = (\<lambda>k. take 8 (drop (8 * k) (tl_rem l)))"
  have rem: "tl_rem l = g 0 @ g 1 @ g 2 @ g 3"
  proof -
    define a b c where "a = drop 8 (tl_rem l)" and "b = drop 8 a" and "c = drop 8 b"
    have "tl_rem l = take 8 (tl_rem l) @ a" "a = take 8 a @ b" "b = take 8 b @ c"
      unfolding a_def b_def c_def by (simp_all only: append_take_drop_id)
    moreover have "c = take 8 c" using len(1) by (simp add: a_def b_def c_def)
    ultimately have "tl_rem l = take 8 (tl_rem l) @ take 8 a @ take 8 b @ take 8 c" by metis
    then show ?thesis by (simp add: g_def a_def b_def c_def)
  qed
  have hg: "hex (g k)" "length (g k) = 8" "hexval (g k) < 2 ^ 32" if "k < 4" for k
  proof -
    show l: "length (g k) = 8" using that len(1) by (simp add: g_def)
    have "set (g k) \<subseteq> set (tl_rem l)" unfolding g_def by (meson in_set_dropD in_set_takeD subsetI)
    moreover have "g k \<noteq> []" using l by auto
    ultimately show "hex (g k)" using h [of "tl_rem l"] by (auto simp: hex_def)
    then show "hexval (g k) < 2 ^ 32" using digits_to_nat_less [of "g k"] l by (simp add: hex_def)
  qed
  have sw: "scan_word (SP # tl_local l @ CHR '':'' # tl_lport l @ SP # r) = Some (SP # r)" for r
  proof -
    have n: "\<forall>c\<in>set (tl_local l @ CHR '':'' # tl_lport l). \<not> isspace c"
      using h [of "tl_local l"] h [of "tl_lport l"] hex_not_space by (auto simp: hex_def isspace_def)
    moreover obtain c cs where "tl_local l @ CHR '':'' # tl_lport l = c # cs" by (cases "tl_local l") auto
    ultimately have "dropWhile isspace (SP # (tl_local l @ CHR '':'' # tl_lport l) @ SP # r) = (tl_local l @ CHR '':'' # tl_lport l) @ SP # r"
      by (simp add: isspace_def)
    moreover have "dropWhile (\<lambda>c. \<not> isspace c) ((tl_local l @ CHR '':'' # tl_lport l) @ SP # r) = SP # r"
      using n by (simp only: dropWhile_append2 Ball_def) (simp add: isspace_def)
    ultimately show ?thesis by (simp add: scan_word_def)
  qed
  have w: "scan_num 16 (Some 8) (SP # g 0 @ r) = Some ((False, hexval (g 0)), r)"
    "scan_num 16 (Some 8) (g (Suc 0) @ r) = Some ((False, hexval (g (Suc 0))), r)"
    "scan_num 16 (Some 8) (g 2 @ r) = Some ((False, hexval (g 2)), r)"
    "scan_num 16 (Some 8) (g 3 @ r) = Some ((False, hexval (g 3)), r)"
    "scan_num 16 (Some 4) (tl_rport l @ r) = Some ((False, hexval (tl_rport l)), r)" for r
    using scan_hex_width [OF hg(1), of 0 "[SP]" 8 r] scan_hex_width [OF hg(1), of "Suc 0" "[]" 8 r]
      scan_hex_width [OF hg(1), of 2 "[]" 8 r] scan_hex_width [OF hg(1), of 3 "[]" 8 r] hg(2) len(2)
      scan_hex_width [OF h, of "tl_rport l" "[]" 4 r]
    by (simp_all add: isspace_def)
  have d: "scan_num 10 None (SP # SP # show_nat (tl_sl l) @ CHR '':'' # r) = Some ((False, tl_sl l), CHR '':'' # r)" for r
  proof -
    have "dropWhile isspace (SP # SP # show_nat (tl_sl l) @ CHR '':'' # r) = show_nat (tl_sl l) @ CHR '':'' # r"
      using dropWhile_space_show [of "[SP, SP]" "tl_sl l" "CHR '':'' # r"] by simp
    then show ?thesis using strto_dec [of "CHR '':'' # r" "tl_sl l"] by (simp add: scan_num_def)
  qed
  have s: "scan_all inet6_format (tcp_text l) = (False, hexval (g 0)) # (False, hexval (g 1)) # (False, hexval (g 2))
      # (False, hexval (g 3)) # (False, hexval (tl_rport l)) # (if decimal (tl_retr l) then [(False, tl_inode l)] else [])"
    by (simp add: inet6_format_def tcp_text_def d sw rem w scan_tail_text [OF assms])
  have "tcp6_address (tl_rem l) = concat (map (u32_bytes \<circ> of_nat \<circ> hexval \<circ> g) [0, 1, 2, 3])"
  proof -
    have wb: "word_bytes (hexval (g k)) = u32_bytes (of_nat (hexval (g k)))" if "k < 4" for k
      using word_bytes_u32 [OF hg(3) [OF that]] by simp
    have "tcp6_address (tl_rem l) = word_bytes (hexval (g 0)) @ word_bytes (hexval (g 1)) @ word_bytes (hexval (g 2)) @ word_bytes (hexval (g 3))"
      by (simp add: tcp6_address_def g_def)
    then show ?thesis by (simp add: wb)
  qed
  then show ?thesis
    by (simp add: inet6_socket_parser_def s scan_int32_def tcp6_entry_def)
qed

section \<open>Lines of \<open>/proc/net/unix\<close>\<close>

text \<open>As \<open>af_unix.c\<close> of the kernel prints it: six words, the inode with any padding, and the name of the socket, if it
  has one.\<close>

record unix_line =
  ul_head :: "string list"
  ul_pad :: string
  ul_inode :: nat
  ul_path :: string

definition unix_text :: "unix_line \<Rightarrow> string" where
  "unix_text l = concat (map (\<lambda>w. w @ [SP]) (ul_head l)) @ ul_pad l @ show_nat (ul_inode l)
     @ (if ul_path l = [] then [] else SP # ul_path l) @ [NL]"

definition unix_line_ok :: "unix_line \<Rightarrow> bool" where
  "unix_line_ok l \<longleftrightarrow> length (ul_head l) = 6 \<and> (\<forall>w\<in>set (ul_head l). w \<noteq> [] \<and> (\<forall>c\<in>set w. \<not> g_ascii_isspace c))
     \<and> set (ul_pad l) \<subseteq> {SP} \<and> ul_inode l < 2 ^ 31 \<and> (\<forall>c\<in>set (ul_path l). \<not> g_ascii_isspace c)"

lemma skip_words:
  assumes "\<forall>w\<in>set ws. w \<noteq> [] \<and> (\<forall>c\<in>set w. \<not> g_ascii_isspace c)"
  shows "next_token (skip_multiple_token (concat (map (\<lambda>w. w @ [SP]) ws) @ r) (length ws)) = next_token r"
  using assms
proof (induction ws)
  case (Cons w ws)
  have skip: "skip_multiple_token (next_token p) n = skip_multiple_token p n \<or> n = 0" for p n
    by (cases n) (simp_all add: skip_token_def)
  have "skip_token (w @ SP # concat (map (\<lambda>w. w @ [SP]) ws) @ r) = next_token (concat (map (\<lambda>w. w @ [SP]) ws) @ r)"
    using words_tok(2) [of "[]" w "SP # concat (map (\<lambda>w. w @ [SP]) ws) @ r"] Cons.prems
    by (simp add: skip_token_after_tok next_token_def g_ascii_isspace_def [of SP])
  moreover have "next_token (skip_multiple_token (next_token p) n) = next_token (skip_multiple_token p n)" for p n
    using skip [of p n] by auto
  ultimately show ?case using Cons by simp
qed simp

lemma local_socket_parser_text:
  assumes "unix_line_ok l"
  shows "local_socket_parser dict (unix_text l) = dict(of_nat (ul_inode l) \<mapsto> take 45 (ul_path l))"
proof -
  define q where "q = (if ul_path l = [] then [] else SP # ul_path l) @ [NL]"
  have ok: "length (ul_head l) = 6" "\<forall>w\<in>set (ul_head l). w \<noteq> [] \<and> (\<forall>c\<in>set w. \<not> g_ascii_isspace c)"
    "\<forall>c\<in>set (ul_pad l). g_ascii_isspace c" "ul_inode l < 2 ^ 31" "\<forall>c\<in>set (ul_path l). \<not> g_ascii_isspace c"
    using assms by (auto simp: unix_line_ok_def)
  define p where "p = skip_multiple_token (unix_text l) 6"
  have np: "next_token p = next_token (ul_pad l @ show_nat (ul_inode l) @ q)"
    using skip_words [OF ok(2), of "ul_pad l @ show_nat (ul_inode l) @ q"] ok(1) by (simp add: p_def unix_text_def q_def)
  have sq: "sep q" by (simp add: q_def)
  have t: "show_nat (ul_inode l) \<noteq> []" "\<forall>c\<in>set (show_nat (ul_inode l)). \<not> g_ascii_isspace c"
    using show_nat_no_space g_space_isspace by (simp, blast)
  have w: "words p = show_nat (ul_inode l) # words q" "after_tok p = q"
    using words_tok [OF ok(3) t sq] np words_next_token [of p] words_next_token [of "ul_pad l @ show_nat (ul_inode l) @ q"]
    by (simp_all add: after_tok_def)
  have v: "strtoul 10 p = (of_nat (ul_inode l), q)"
    using strtoull_words [OF w(1)] ok(4) w(2) by simp
  have u: "(ucast (of_nat (ul_inode l) :: 64 word) :: 32 word) = of_nat (ul_inode l)"
    by (rule bit_word_eqI) (auto simp: bit_simps)
  have strip: "g_strstrip (g_strlcpy q 47) = take 45 (ul_path l)"
  proof (cases "ul_path l = []")
    case True
    then show ?thesis by (simp add: q_def g_strlcpy_def g_strstrip_def)
  next
    case False
    have path: "dropWhile g_ascii_isspace (xs @ ys) = xs @ ys" if "xs \<noteq> []" "set xs \<subseteq> set (ul_path l)" for xs ys
      using that ok(5) by (cases xs) auto
    define n where "n = take 45 (ul_path l)"
    have n: "n \<noteq> []" "set n \<subseteq> set (ul_path l)" using False by (auto simp: n_def dest: in_set_takeD)
    have r: "dropWhile g_ascii_isspace (rev n) = rev n" "dropWhile g_ascii_isspace (NL # rev n) = rev n"
      using path [of "rev n" "[]"] n by simp_all
    have "g_strlcpy q 47 = SP # n \<or> g_strlcpy q 47 = SP # n @ [NL]"
      using False by (cases "length (ul_path l) < 45") (auto simp: q_def g_strlcpy_def n_def)
    then show ?thesis using path [OF n, of "[]"] path [OF n, of "[NL]"] r by (auto simp: g_strstrip_def n_def [symmetric])
  qed
  show ?thesis
    using v u strip by (simp add: local_socket_parser_def p_def [symmetric])
qed

section \<open>The tables\<close>

text \<open>The last line for an inode counts. A line of the internet sockets counts only where the number of retransmits has
  no letter.\<close>

definition tcp_at :: "tcp_line list \<Rightarrow> nat \<Rightarrow> tcp_line option" where
  "tcp_at ls n = find (\<lambda>l. tl_inode l = n \<and> decimal (tl_retr l)) (rev ls)"

definition unix_at :: "unix_line list \<Rightarrow> nat \<Rightarrow> unix_line option" where
  "unix_at ls n = find (\<lambda>l. ul_inode l = n) (rev ls)"

text \<open>A file under \<open>/proc/net\<close>: a header and lines, or no such file.\<close>

definition net_file :: "kernel \<Rightarrow> string \<Rightarrow> string list \<Rightarrow> bool" where
  "net_file K path ls \<longleftrightarrow> k_read K path = None \<and> ls = []
     \<or> (\<exists>header. k_read K path = Some [Chunk (concat (header # ls))] \<and> text_lines (header # ls))"

lemma get_all_net: "net_file K path ls \<Longrightarrow> get_all K path parser = foldl parser Map.empty ls"
proof -
  assume "net_file K path ls"
  then consider "k_read K path = None" "ls = []"
    | header where "k_read K path = Some [Chunk (concat (header # ls))]" "text_lines (header # ls)"
    by (auto simp only: net_file_def)
  then show "get_all K path parser = foldl parser Map.empty ls"
  proof cases
    case 1
    then show ?thesis by (simp add: get_all_def fopen_lines_def)
  next
    case 2
    from fopen_lines_text [OF this] show ?thesis by (simp add: get_all_def)
  qed
qed

lemma of_nat_31: "m < 2 ^ 31 \<Longrightarrow> n < 2 ^ 31 \<Longrightarrow> (of_nat m :: 32 word) = of_nat n \<longleftrightarrow> m = n"
proof
  assume b: "m < 2 ^ 31" "n < 2 ^ 31" and "(of_nat m :: 32 word) = of_nat n"
  then have "unat (of_nat m :: 32 word) = unat (of_nat n :: 32 word)" by simp
  with b show "m = n" by (simp add: unsigned_of_nat take_bit_nat_eq_self)
qed simp

lemma tcp_fold:
  assumes "\<forall>l\<in>set ls. tcp_line_ok k l" "\<And>dict l. l \<in> set ls \<Longrightarrow> parser dict (tcp_text l)
      = (if decimal (tl_retr l) then dict(of_nat (tl_inode l) \<mapsto> entry l) else dict)" "n < 2 ^ 31"
  shows "foldl parser Map.empty (map tcp_text ls) (of_nat n :: gint32) = map_option entry (tcp_at ls n)"
  using assms(1,2)
proof (induction ls rule: rev_induct)
  case (snoc l ls)
  have "tl_inode l < 2 ^ 31" using snoc.prems(1) by (simp add: tcp_line_ok_def)
  with snoc assms(3) show ?case by (auto simp: tcp_at_def of_nat_31)
qed (simp add: tcp_at_def)

lemma unix_fold:
  assumes "\<forall>l\<in>set ls. unix_line_ok l" "n < 2 ^ 31"
  shows "foldl local_socket_parser Map.empty (map unix_text ls) (of_nat n) = map_option (\<lambda>l. take 45 (ul_path l)) (unix_at ls n)"
  using assms(1)
proof (induction ls rule: rev_induct)
  case (snoc l ls)
  have "ul_inode l < 2 ^ 31" using snoc.prems by (simp add: unix_line_ok_def)
  with snoc assms(2) show ?case by (auto simp: unix_at_def of_nat_31 local_socket_parser_text)
qed (simp add: unix_at_def)

section \<open>The open files of a process\<close>

datatype target = TSock nat | TPipe nat | TFile string

fun target_text :: "target \<Rightarrow> string" where
  "target_text (TSock n) = ''socket:['' @ show_nat n @ '']''"
| "target_text (TPipe n) = ''pipe:['' @ show_nat n @ '']''"
| "target_text (TFile s) = s"

fun target_ok :: "target \<Rightarrow> bool" where
  "target_ok (TSock n) \<longleftrightarrow> n < 2 ^ 31"
| "target_ok (TPipe n) \<longleftrightarrow> n < 2 ^ 31"
| "target_ok (TFile s) \<longleftrightarrow> \<not> strncmp_eq s ''socket:['' \<and> \<not> strncmp_eq s ''pipe:['' \<and> NUL \<notin> set s \<and> length s < BUFSIZ"

fun target_info :: "(nat \<Rightarrow> guint16 \<times> file_info) \<Rightarrow> target \<Rightarrow> guint16 \<times> file_info" where
  "target_info sock (TSock n) = sock n"
| "target_info sock (TPipe n) = (GLIBTOP_FILE_TYPE_PIPE, NoInfo)"
| "target_info sock (TFile s) = (GLIBTOP_FILE_TYPE_FILE, FileInfo (take 215 s))"

lemma length_show_nat_31: "n < 2 ^ 31 \<Longrightarrow> length (show_nat n) \<le> 10"
  using length_show_nat [of n 9] by simp

lemma open_entry_target:
  assumes "target_ok tgt" "fd < 2 ^ 31"
  shows "open_entry inet6 inet local (show_nat fd) (target_text tgt) =
    (let (type, info) = target_info (\<lambda>n. socket_info inet6 inet local (of_nat n)) tgt
     in \<lparr>fe_fd = of_nat fd, fe_type = type, fe_info = info\<rparr>)"
proof -
  have fd: "atoi (show_nat fd) = of_nat fd" using atoi_dec [of "[]" fd] assms(2) by simp
  show ?thesis
  proof (cases tgt)
    case (TSock n)
    have "atoi (show_nat n @ '']'') = of_nat n" using atoi_dec [of "'']''" n] assms(1) TSock by (simp add: digit_val_def)
    then show ?thesis using TSock fd by (simp add: open_entry_def strncmp_eq_def split: prod.splits)
  qed (use assms(1) fd in \<open>simp_all add: open_entry_def strncmp_eq_def g_strlcpy_def\<close>)
qed

lemma target_text_plain:
  assumes "target_ok tgt"
  shows "c_str (take (BUFSIZ - 1) (target_text tgt)) = target_text tgt"
proof -
  have "NUL \<notin> set (target_text tgt) \<and> length (target_text tgt) \<le> BUFSIZ - 1"
    using assms show_nat_plain(2) length_show_nat_31 by (cases tgt) (force simp: BUFSIZ_def)+
  then show ?thesis by (simp add: c_str_id)
qed

lemma fd_loop_targets:
  assumes "\<forall>(fd, tgt)\<in>set fds. fd < 2 ^ 31 \<and> target_ok tgt
      \<and> k_readlink K (proc_path pid (''/fd/'' @ show_nat fd)) = Some (target_text tgt)"
  shows "fd_loop K entry pid (map (\<lambda>(fd, _). (show_nat fd, False)) fds)
    = map (\<lambda>(fd, tgt). entry (show_nat fd) (target_text tgt)) fds"
  using assms
proof (induction fds)
  case (Cons x fds)
  obtain fd tgt where x: "x = (fd, tgt)" by (cases x)
  have "hd (show_nat fd) \<noteq> CHR ''.''" using hd_show_digit [of fd] by (auto simp: digit_val_def)
  with Cons x show ?case by (simp add: safe_readlink_def target_text_plain [simplified])
qed simp

text \<open>What is to be reported of a socket: the entry for its inode in \<open>tcp6\<close>, else in \<open>tcp\<close>, else in \<open>unix\<close>.\<close>

definition socket_of ::
  "(string \<Rightarrow> string) \<Rightarrow> tcp_line list \<Rightarrow> tcp_line list \<Rightarrow> unix_line list \<Rightarrow> nat \<Rightarrow> guint16 \<times> file_info" where
  "socket_of host6 ls6 ls us n =
     (case tcp_at ls6 n of
        Some l \<Rightarrow> (16, SockInfo (take 46 (host6 (tcp6_address (tl_rem l)))) (of_nat (hexval (tl_rport l))))
      | None \<Rightarrow> (case tcp_at ls n of
          Some l \<Rightarrow> (4, SockInfo (dotted (hexval (tl_rem l))) (of_nat (hexval (tl_rport l))))
        | None \<Rightarrow> (case unix_at us n of
            Some l \<Rightarrow> (8, LocalInfo (take 45 (ul_path l)))
          | None \<Rightarrow> (0, NoInfo))))"

lemma length_dotted: "length (dotted a) \<le> 15"
proof -
  have "length (show_nat (k mod 256)) \<le> 3" for k
    using length_show_nat [of "k mod 256" 2] mod_less_divisor [of 256 k] by simp
  from this [of a] this [of "a div 256"] this [of "a div 256 div 256"] this [of "a div 256 div 256 div 256"]
  show ?thesis unfolding dotted_def by simp
qed

lemma socket_info_of:
  assumes tables: "net_file K ''/proc/net/tcp6'' (map tcp_text ls6)" "net_file K ''/proc/net/tcp'' (map tcp_text ls)"
      "net_file K ''/proc/net/unix'' (map unix_text us)"
    and ok: "\<forall>l\<in>set ls6. tcp_line_ok 32 l" "\<forall>l\<in>set ls. tcp_line_ok 8 l" "\<forall>l\<in>set us. unix_line_ok l" and n: "n < 2 ^ 31"
  shows "socket_info (get_all K ''/proc/net/tcp6'' (inet6_socket_parser (\<lambda>bs. Some (host6 bs))))
      (get_all K ''/proc/net/tcp'' inet_socket_parser) (get_all K ''/proc/net/unix'' local_socket_parser) (of_nat n)
    = socket_of host6 ls6 ls us n"
proof -
  have "foldl (inet6_socket_parser (\<lambda>bs. Some (host6 bs))) Map.empty (map tcp_text ls6) (of_nat n) = map_option (tcp6_entry host6) (tcp_at ls6 n)"
    using ok(1) by (intro tcp_fold [OF ok(1) _ n] inet6_socket_parser_text) blast
  moreover have "foldl inet_socket_parser Map.empty (map tcp_text ls) (of_nat n) = map_option tcp_entry (tcp_at ls n)"
    using ok(2) by (intro tcp_fold [OF ok(2) _ n] inet_socket_parser_text) blast
  moreover note unix_fold [OF ok(3) n]
  moreover have "g_strlcpy (dotted a) 47 = dotted a" for a using length_dotted [of a] by (simp add: g_strlcpy_def)
  moreover have "g_strlcpy (take 45 p) 216 = take 45 p" for p by (simp add: g_strlcpy_def min_def)
  ultimately show ?thesis
    unfolding socket_info_def socket_of_def
    by (simp add: get_all_net [OF tables(1)] get_all_net [OF tables(2)] get_all_net [OF tables(3)] tcp6_entry_def tcp_entry_def
        split: option.splits) (simp add: g_strlcpy_def)
qed

text \<open>
  C28. The open files of a process: the entries \<open>.\<close> and \<open>..\<close> are left out, every other one gives its
  number and what its link names: a pipe, a file (the first 215 characters of its name), or a socket. A
  socket is looked up by its inode, first in \<open>/proc/net/tcp6\<close>, then in \<open>/proc/net/tcp\<close>, then in \<open>/proc/net/unix\<close>. An internet socket
  has the address of the peer, as \<open>inet_ntop\<close> prints its sixteen bytes or as a dotted quad, and its port, a local one the first
  45 characters of its name. A line of \<open>tcp6\<close> or \<open>tcp\<close>
  counts only if its number of retransmits, which the kernel prints in hex, has no letter: a socket with such a number
  (10 to 15 retransmits are the first) is not found, and its entry has type 0 and no address.
\<close>

theorem open_files_spec:
  assumes "k_readdir K (proc_path pid ''/fd'') =
      Some ((''.'', True) # (''..'', True) # map (\<lambda>(fd, _). (show_nat fd, False)) fds)"
    and "\<forall>(fd, tgt)\<in>set fds. fd < 2 ^ 31 \<and> target_ok tgt
      \<and> k_readlink K (proc_path pid (''/fd/'' @ show_nat fd)) = Some (target_text tgt)"
    and tables: "net_file K ''/proc/net/tcp6'' (map tcp_text ls6)" "net_file K ''/proc/net/tcp'' (map tcp_text ls)"
      "net_file K ''/proc/net/unix'' (map unix_text us)"
    and ok: "\<forall>l\<in>set ls6. tcp_line_ok 32 l" "\<forall>l\<in>set ls. tcp_line_ok 8 l" "\<forall>l\<in>set us. unix_line_ok l"
  shows "glibtop_get_proc_open_files_s (\<lambda>bs. Some (host6 bs)) K pid =
    (\<lparr>of_flags = flag 0 + flag 1 + flag 2, of_number = of_nat (length fds), of_total = of_nat (length fds) * 224,
      of_size = 224\<rparr>,
     Some (map (\<lambda>(fd, tgt).
       let (type, info) = target_info (socket_of host6 ls6 ls us) tgt
       in \<lparr>fe_fd = of_nat fd, fe_type = type, fe_info = info\<rparr>) fds))"
proof -
  note loop = fd_loop_targets [OF assms(2)] and sock = socket_info_of [OF tables ok, of _ host6]
  define inet6 inet local where "inet6 = get_all K ''/proc/net/tcp6'' (inet6_socket_parser (\<lambda>bs. Some (host6 bs)))"
    and "inet = get_all K ''/proc/net/tcp'' inet_socket_parser" and "local = get_all K ''/proc/net/unix'' local_socket_parser"
  have t: "target_info (\<lambda>n. socket_info inet6 inet local (of_nat n)) tgt = target_info (socket_of host6 ls6 ls us) tgt" if "target_ok tgt" for tgt
    using that sock by (cases tgt) (simp_all add: inet6_def inet_def local_def)
  have e: "map (\<lambda>(fd, tgt). open_entry inet6 inet local (show_nat fd) (target_text tgt)) fds
      = map (\<lambda>(fd, tgt). let (type, info) = target_info (socket_of host6 ls6 ls us) tgt
           in \<lparr>fe_fd = of_nat fd, fe_type = type, fe_info = info\<rparr>) fds"
    using assms(2) by (intro map_cong refl) (auto simp only: open_entry_target t split: prod.splits)
  have dots: "fd_loop K entry pid ((''.'', True) # (''..'', True) # ds) = fd_loop K entry pid ds" for entry ds
    by simp
  have n: "length (fd_loop K entry pid (map (\<lambda>(fd, _). (show_nat fd, False)) fds)) = length fds" for entry
    by (simp only: loop length_map)
  show ?thesis
    unfolding glibtop_get_proc_open_files_s_def assms(1) option.case Let_def dots n sysdeps_proc_open_files_def
      inet6_def [symmetric] inet_def [symmetric] local_def [symmetric]
    unfolding loop e [unfolded Let_def] ..
qed

definition demo_tcp :: tcp_line where
  "demo_tcp = \<lparr>tl_sl = 0, tl_local = ''0100007F'', tl_lport = ''A410'', tl_rem = ''0A00A8C0'', tl_rport = ''0050'',
     tl_st = ''01'', tl_tx = ''0'', tl_rx = ''0'', tl_tr = ''00'', tl_when = ''0'', tl_retr = ''00000000'', tl_uid = 7,
     tl_timeout = 0, tl_inode = 9, tl_rest = '' 1'' @ [NL]\<rparr>"

definition demo_unix :: unix_line where
  "demo_unix = \<lparr>ul_head = [''0000000000000000:'', ''00000003'', ''00000000'', ''00000000'', ''0001'', ''03''],
     ul_pad = '' '', ul_inode = 64, ul_path = ''/dev/log''\<rparr>"

definition demo_tcp6 :: tcp_line where
  "demo_tcp6 = demo_tcp\<lparr>tl_rem := ''00000000000000000000000001000000'', tl_inode := 12\<rparr>"

definition demo_fds :: kernel where
  "demo_fds = \<lparr>k_read = (\<lambda>p. if p = ''/proc/net/tcp'' then Some [Chunk (concat ([NL] # map tcp_text [demo_tcp]))]
       else if p = ''/proc/net/tcp6'' then Some [Chunk (concat ([NL] # map tcp_text [demo_tcp6]))]
       else if p = ''/proc/net/unix'' then Some [Chunk (concat ([NL] # map unix_text [demo_unix]))] else None),
     k_isdir = (\<lambda>_. True),
     k_readlink = (\<lambda>p. if p = proc_path 5 (''/fd/'' @ show_nat 0) then Some (target_text (TFile ''/dev/null''))
        else if p = proc_path 5 (''/fd/'' @ show_nat 3) then Some (target_text (TSock 9))
        else if p = proc_path 5 (''/fd/'' @ show_nat 4) then Some (target_text (TSock 12)) else Some (target_text (TSock 64))),
     k_stat = (\<lambda>_. None),
     k_readdir = (\<lambda>_. Some ((''.'', True) # (''..'', True) # map (\<lambda>(fd, _). (show_nat fd, False))
        [(0, TFile ''/dev/null''), (3, TSock 9), (4, TSock 12), (5, TSock 64)]))\<rparr>"

lemma demo_lines_ok: "tcp_line_ok 8 demo_tcp" "tcp_line_ok 32 demo_tcp6" "unix_line_ok demo_unix"
  "text_lines ([NL] # map tcp_text [demo_tcp])" "text_lines ([NL] # map tcp_text [demo_tcp6])" "text_lines ([NL] # map unix_text [demo_unix])"
proof -
  show "tcp_line_ok 8 demo_tcp" by (simp add: tcp_line_ok_def demo_tcp_def hex_def digit_val_def)
  show "tcp_line_ok 32 demo_tcp6" by (simp add: tcp_line_ok_def demo_tcp_def demo_tcp6_def hex_def digit_val_def)
  show "unix_line_ok demo_unix" by (simp add: unix_line_ok_def demo_unix_def g_ascii_isspace_def)
  have s: "show_nat 0 = ''0''" "show_nat 7 = ''7''" "show_nat 9 = ''9''" "show_nat 12 = ''12''" "show_nat 64 = ''64''" by code_simp+
  have "tcp_text l = butlast (tcp_text l) @ [NL] \<and> NL \<notin> set (butlast (tcp_text l)) \<and> NUL \<notin> set (butlast (tcp_text l))"
    if "l \<in> {demo_tcp, demo_tcp6}" for l
    using that by (auto simp: tcp_text_def tcp_tail_def demo_tcp_def demo_tcp6_def s)
  then show "text_lines ([NL] # map tcp_text [demo_tcp])" "text_lines ([NL] # map tcp_text [demo_tcp6])" by auto
  let ?k = "butlast (unix_text demo_unix)"
  have "unix_text demo_unix = ?k @ [NL] \<and> NL \<notin> set ?k \<and> NUL \<notin> set ?k"
    by (simp add: unix_text_def demo_unix_def s)
  then show "text_lines ([NL] # map unix_text [demo_unix])" by auto
qed

theorem open_files_spec_witness:
  "\<exists>buf. glibtop_get_proc_open_files_s (\<lambda>bs. Some (if of_char (last bs) = (1 :: nat) then ''::1'' else ''::'')) demo_fds 5 =
     (buf, Some [\<lparr>fe_fd = 0, fe_type = 1, fe_info = FileInfo ''/dev/null''\<rparr>,
       \<lparr>fe_fd = 3, fe_type = 4, fe_info = SockInfo ''192.168.0.10'' 80\<rparr>,
       \<lparr>fe_fd = 4, fe_type = 16, fe_info = SockInfo ''::1'' 80\<rparr>,
       \<lparr>fe_fd = 5, fe_type = 8, fe_info = LocalInfo ''/dev/log''\<rparr>])"
proof -
  define host6 where "host6 = (\<lambda>bs :: string. if of_char (last bs) = (1 :: nat) then ''::1'' else ''::'')"
  let ?fds = "[(0, TFile ''/dev/null''), (3, TSock 9), (4, TSock 12), (5, TSock 64)]"
  have s: "show_nat 0 = ''0''" "show_nat 3 = ''3''" "show_nat 4 = ''4''" "show_nat 5 = ''5''" by code_simp+
  have l: "\<forall>(fd, tgt)\<in>set ?fds. fd < 2 ^ 31 \<and> target_ok tgt
      \<and> k_readlink demo_fds (proc_path 5 (''/fd/'' @ show_nat fd)) = Some (target_text tgt)"
    by (simp add: demo_fds_def s strncmp_eq_def BUFSIZ_def)
  have t: "net_file demo_fds ''/proc/net/tcp6'' (map tcp_text [demo_tcp6])" "net_file demo_fds ''/proc/net/tcp'' (map tcp_text [demo_tcp])"
    "net_file demo_fds ''/proc/net/unix'' (map unix_text [demo_unix])"
    unfolding net_file_def using demo_lines_ok by (intro disjI2 exI [of _ "[NL]"]; simp add: demo_fds_def)+
  have d: "k_readdir demo_fds (proc_path 5 ''/fd'') =
      Some ((''.'', True) # (''..'', True) # map (\<lambda>(fd, _). (show_nat fd, False)) ?fds)"
    by (simp add: demo_fds_def)
  have h: "hexval ''0A00A8C0'' = 0x0A00A8C0" "hexval ''0050'' = 80" "decimal ''00000000''" "hexval ''00000000'' = 0"
      "hexval ''01000000'' = 0x01000000"
    by (simp_all add: digits_to_nat_def digit_val_def decimal_def)
  have "show_nat 192 = ''192''" "show_nat 168 = ''168''" "show_nat 10 = ''10''" by code_simp+
  then have v4: "socket_of host6 [demo_tcp6] [demo_tcp] [demo_unix] 9 = (4, SockInfo ''192.168.0.10'' 80)"
    by (simp add: socket_of_def tcp_at_def demo_tcp_def demo_tcp6_def h dotted_def s)
  have "last (tcp6_address ''00000000000000000000000001000000'') = char_of (1 :: nat)"
    by (simp add: tcp6_address_def word_bytes_def h)
  then have v6: "socket_of host6 [demo_tcp6] [demo_tcp] [demo_unix] 12 = (16, SockInfo ''::1'' 80)"
    by (simp add: socket_of_def tcp_at_def demo_tcp_def demo_tcp6_def h host6_def)
  have un: "socket_of host6 [demo_tcp6] [demo_tcp] [demo_unix] 64 = (8, LocalInfo ''/dev/log'')"
    by (simp add: socket_of_def tcp_at_def unix_at_def demo_tcp_def demo_tcp6_def demo_unix_def)
  from open_files_spec [OF d l t, of host6] demo_lines_ok(1-3) v4 v6 un
  show ?thesis by (simp add: host6_def)
qed

end
