(* ===== verification/FileSystems.thy ===== *)
theory FileSystems
  imports Scanf Server
begin

unbundle bit_operations_syntax

text \<open>
  \<open>mountlist.c\<close> and \<open>fsusage.c\<close> under \<open>sysdeps/linux\<close>: the mounted file systems and how full they
  are. What \<open>getmntent\<close> of the C library gives for \<open>/etc/mtab\<close> is the parameter \<open>mtab\<close> (\<open>None\<close>:
  \<open>setmntent\<close> fails), the result of \<open>statvfs\<close> is a parameter too. Warnings are left out.
\<close>

section \<open>mountlist.c\<close>

record mntent =
  mnt_fsname :: string
  mnt_dir :: string
  mnt_type :: string
  mnt_opts :: string

record ignore_list =
  table_fstype :: "string list"
  table_mntdir :: "string list"

definition ignore_list_new :: ignore_list where
  "ignore_list_new = \<lparr>table_fstype = [], table_mntdir = []\<rparr>"

definition ignore_list_add_fstype :: "string \<Rightarrow> ignore_list \<Rightarrow> ignore_list" where
  "ignore_list_add_fstype fstype ig = ig\<lparr>table_fstype := fstype # table_fstype ig\<rparr>"

definition ignore_list_add_mntdir :: "string \<Rightarrow> ignore_list \<Rightarrow> ignore_list" where
  "ignore_list_add_mntdir mntdir ig = ig\<lparr>table_mntdir := mntdir # table_mntdir ig\<rparr>"

definition ignore_list_has_fstype :: "ignore_list \<Rightarrow> string \<Rightarrow> bool" where
  "ignore_list_has_fstype ig fstype \<longleftrightarrow> fstype \<in> set (table_fstype ig)"

definition ignore_list_has_mntdir :: "ignore_list \<Rightarrow> string \<Rightarrow> bool" where
  "ignore_list_has_mntdir ig mntdir \<longleftrightarrow> mntdir \<in> set (table_mntdir ig)"

text \<open>A line of \<open>/proc/filesystems\<close>, in the pieces that \<open>fgets\<close> returns.\<close>

definition filesystems_line :: "string \<Rightarrow> ignore_list \<Rightarrow> ignore_list" where
  "filesystems_line line ig =
     (if strncmp_eq line ''nodev'' \<and> \<not> strncmp_eq (drop (length line - 4) line) ''zfs''
      then ignore_list_add_fstype (g_strstrip (drop 5 line)) ig else ig)"

fun strtok_space :: "string \<Rightarrow> string list" where
  \<comment> \<open>the tokens that repeated calls of \<open>strtok (_, " ")\<close> return\<close>
  "strtok_space [] = []"
| "strtok_space (c # s) =
     (if c = SP then strtok_space s
      else case s of
        [] \<Rightarrow> [[c]]
      | d # _ \<Rightarrow> (if d = SP then [c] # strtok_space s
                 else case strtok_space s of [] \<Rightarrow> [[c]] | t # ts \<Rightarrow> (c # t) # ts))"

definition utab_line :: "string \<Rightarrow> ignore_list \<Rightarrow> ignore_list" where
  "utab_line uline ig =
     (if strstr uline ''x-gdu.hide'' = None then ig
      else fold (\<lambda>pch ig. if strncmp_eq pch ''TARGET='' then ignore_list_add_mntdir (drop 7 pch) ig else ig)
             (strtok_space uline) ig)"

text \<open>The list is made at the first file system that is looked up; it does not depend on it.\<close>

definition ignore_list_of :: "kernel \<Rightarrow> ignore_list" where
  "ignore_list_of K =
     (let ig = ignore_list_add_fstype ''none'' ignore_list_new;
          ig = (case fgets_lines K 128 ''/proc/filesystems'' of None \<Rightarrow> ig | Some ls \<Rightarrow> fold filesystems_line ls ig)
      in case fopen_lines K ''/run/mount/utab'' of None \<Rightarrow> ig | Some ls \<Rightarrow> fold utab_line ls ig)"

definition ignore_fs :: "kernel \<Rightarrow> string \<Rightarrow> string \<Rightarrow> bool" where
  "ignore_fs K mntdir fstype =
     (let ig = ignore_list_of K in ignore_list_has_fstype ig fstype \<or> ignore_list_has_mntdir ig mntdir)"

record glibtop_mountentry =
  mo_dev :: guint64
  mo_devname :: string
  mo_mountdir :: string
  mo_type :: string

record glibtop_mountlist =
  ml_flags :: guint64
  ml_number :: guint64
  ml_total :: guint64
  ml_size :: guint64

text \<open>\<open>sizeof "dev="\<close> counts the NUL, so the first digit is left out, and a \<open>dev=\<close> at the very end
  reads behind the string.\<close>

definition mount_dev :: "string \<Rightarrow> guint64 res" where
  "mount_dev opts =
     (case strstr opts ''dev='' of
        None \<Rightarrow> Inr (- 1)
      | Some devopt \<Rightarrow>
          (if length devopt < 5 then Inl (Crash ''strtoull from behind mnt_opts'')
           else Inr (fst (strtoull 0 (drop 5 devopt)))))"

fun mount_loop :: "(mntent \<Rightarrow> bool) \<Rightarrow> mntent list \<Rightarrow> glibtop_mountentry list res" where
  "mount_loop ignored [] = Inr []"
| "mount_loop ignored (mnt # ms) =
     (if ignored mnt then mount_loop ignored ms
      else bind_res (mount_dev (mnt_opts mnt)) (\<lambda>dev.
           bind_res (mount_loop ignored ms) (\<lambda>entries.
             Inr (\<lparr>mo_dev = dev, mo_devname = g_strlcpy (mnt_fsname mnt) 80, mo_mountdir = g_strlcpy (mnt_dir mnt) 80,
                   mo_type = g_strlcpy (mnt_type mnt) 80\<rparr> # entries))))"

definition glibtop_get_mountlist_s ::
  "kernel \<Rightarrow> mntent list option \<Rightarrow> gint32 \<Rightarrow> (glibtop_mountlist \<times> glibtop_mountentry list) res" where
  "glibtop_get_mountlist_s K mtab all_fs =
     bind_res (case mtab of
         None \<Rightarrow> Inr []
       | Some ms \<Rightarrow> mount_loop (\<lambda>mnt. all_fs = 0 \<and> ignore_fs K (mnt_dir mnt) (mnt_type mnt)) ms) (\<lambda>entries.
       Inr (\<lparr>ml_flags = flag 2 OR flag 0 OR flag 1, ml_number = of_nat (length entries),
             ml_total = of_nat (length entries) * 248, ml_size = 248\<rparr>, entries))"

section \<open>fsusage.c\<close>

record glibtop_fsusage =
  fu_flags :: guint64
  fu_blocks :: guint64
  fu_bfree :: guint64
  fu_bavail :: guint64
  fu_files :: guint64
  fu_ffree :: guint64
  fu_block_size :: guint32
  fu_read :: guint64
  fu_write :: guint64

record statvfs =
  f_bsize :: "64 word"
  f_blocks :: "64 word"
  f_bfree :: "64 word"
  f_bavail :: "64 word"
  f_files :: "64 word"
  f_ffree :: "64 word"

fun get_device :: "string \<Rightarrow> mntent list \<Rightarrow> string option" where
  "get_device mountpoint [] = None"
| "get_device mountpoint (mnt # ms) =
     (if mnt_fsname mnt = ''rootfs'' then get_device mountpoint ms
      else if mountpoint = mnt_dir mnt
      then (if strncmp_eq (mnt_fsname mnt) ''/dev/'' then Some (g_strlcpy (drop 5 (mnt_fsname mnt)) 64) else None)
      else get_device mountpoint ms)"

definition is_partition :: "string \<Rightarrow> bool \<times> string" where
  \<comment> \<open>and what is in \<open>prefix\<close> then\<close>
  "is_partition device =
     (let prefix = g_strlcpy device 32 in
      (\<exists>c\<in>set prefix. isdigit c, takeWhile (\<lambda>c. \<not> isdigit c) prefix))"

abbreviation "skip_llu \<equiv> SkipNum 10"
abbreviation "llu \<equiv> Num 10 None"

definition linux_2_6_25_format :: "conv list" where
  "linux_2_6_25_format = [skip_llu, skip_llu, llu, skip_llu, skip_llu, skip_llu, llu, skip_llu]"

definition get_sys_path :: "glibtop \<Rightarrow> string \<Rightarrow> string \<times> conv list" where
  "get_sys_path server device =
     (let (part, prefix) = is_partition device in
      if part then
        (''/sys/block/'' @ prefix @ ''/'' @ device @ ''/stat'',
         if s_os_version_code server < LINUX_VERSION_CODE 2 6 25 then [skip_llu, llu, skip_llu, llu]
         else linux_2_6_25_format)
      else
        (''/sys/block/'' @ device @ ''/stat'',
         if s_os_version_code server < LINUX_VERSION_CODE 2 6 25
         then [skip_llu, skip_llu, llu, skip_llu, skip_llu, skip_llu, llu]
         else linux_2_6_25_format))"

text \<open>The function \<open>linux_2_6_0\<close>: \<open>sscanf\<close> stores what it has matched even if the count is not 2.\<close>

definition fsusage_2_6_0 :: "kernel \<Rightarrow> mntent list option \<Rightarrow> glibtop \<Rightarrow> string \<Rightarrow> glibtop_fsusage \<Rightarrow> glibtop_fsusage" where
  "fsusage_2_6_0 K mtab server path buf =
     (case Option.bind mtab (get_device path) of
        None \<Rightarrow> buf
      | Some device \<Rightarrow>
          (let (filename, format) = get_sys_path server device in
           case try_file_to_buffer K BUFSIZ filename of
             (TRY_FILE_TO_BUFFER_OK, buffer) \<Rightarrow>
               (case scan_all format buffer of
                  [] \<Rightarrow> buf
                | [r] \<Rightarrow> buf\<lparr>fu_read := scan_u64 r\<rparr>
                | r # w # _ \<Rightarrow> buf\<lparr>fu_read := scan_u64 r, fu_write := scan_u64 w,
                                 fu_flags := fu_flags buf OR (flag 6 OR flag 7)\<rparr>)
           | _ \<Rightarrow> buf))"

definition get_fsusage_read_write ::
  "kernel \<Rightarrow> mntent list option \<Rightarrow> glibtop \<Rightarrow> string \<Rightarrow> glibtop_fsusage \<Rightarrow> glibtop_fsusage" where
  "get_fsusage_read_write K mtab server path buf =
     (if LINUX_VERSION_CODE 2 6 0 \<le> s_os_version_code server then fsusage_2_6_0 K mtab server path buf else buf)"

definition sysdeps_fsusage :: guint64 where
  "sysdeps_fsusage = flag 0 + flag 1 + flag 2 + flag 3 + flag 4 + flag 5"

definition fsusage_zero :: glibtop_fsusage where
  "fsusage_zero = \<lparr>fu_flags = 0, fu_blocks = 0, fu_bfree = 0, fu_bavail = 0, fu_files = 0, fu_ffree = 0,
     fu_block_size = 0, fu_read = 0, fu_write = 0\<rparr>"

definition glibtop_get_fsusage_s ::
  "kernel \<Rightarrow> mntent list option \<Rightarrow> (string \<Rightarrow> statvfs option) \<Rightarrow> glibtop \<Rightarrow> string \<Rightarrow> glibtop_fsusage" where
  "glibtop_get_fsusage_s K mtab statvfs server path =
     (case statvfs path of
        None \<Rightarrow> fsusage_zero
      | Some fsd \<Rightarrow>
          get_fsusage_read_write K mtab server path
            (fsusage_zero\<lparr>fu_blocks := f_blocks fsd, fu_bfree := f_bfree fsd,
               fu_bavail := (if f_bfree fsd < f_bavail fsd then 0 else f_bavail fsd),
               fu_files := f_files fsd, fu_ffree := f_ffree fsd, fu_block_size := ucast (f_bsize fsd),
               fu_flags := sysdeps_fsusage\<rparr>))"

section \<open>Which file systems are listed\<close>

definition fs_line :: "bool \<times> string \<Rightarrow> string" where
  \<comment> \<open>a line of \<open>/proc/filesystems\<close>\<close>
  "fs_line = (\<lambda>(nodev, nm). (if nodev then ''nodev'' else []) @ CHR 0x09 # nm @ [NL])"

definition fs_name_ok :: "string \<Rightarrow> bool" where
  "fs_name_ok nm \<longleftrightarrow> nm \<noteq> [] \<and> (\<forall>c\<in>set nm. \<not> g_ascii_isspace c \<and> c \<noteq> NUL) \<and> length nm < 100"

definition zfs_name :: "string \<Rightarrow> bool" where
  "zfs_name nm \<longleftrightarrow> drop (length nm - 3) nm = ''zfs''"

text \<open>A line of \<open>/run/mount/utab\<close>: its tokens but the last one, and the last one.\<close>

definition utab_text :: "string list \<times> string \<Rightarrow> string" where
  "utab_text = (\<lambda>(ts, l). concat (map (\<lambda>t. t @ [SP]) ts) @ l @ [NL])"

definition utab_ok :: "string list \<times> string \<Rightarrow> bool" where
  "utab_ok = (\<lambda>(ts, l). (\<forall>t\<in>set (l # ts). t \<noteq> [] \<and> SP \<notin> set t \<and> NL \<notin> set t \<and> NUL \<notin> set t) \<and> \<not> strncmp_eq (l @ [NL]) ''TARGET='')"

definition hidden :: "(string list \<times> string) list \<Rightarrow> string \<Rightarrow> bool" where
  "hidden us d \<longleftrightarrow> (\<exists>u\<in>set us. strstr (utab_text u) ''x-gdu.hide'' \<noteq> None \<and> ''TARGET='' @ d \<in> set (fst u))"

lemma last_zfs:
  "fs_name_ok nm \<Longrightarrow> strncmp_eq (drop (length (fs_line (True, nm)) - 4) (fs_line (True, nm))) ''zfs'' \<longleftrightarrow> zfs_name nm"
proof -
  assume ok: "fs_name_ok nm"
  show ?thesis
  proof (cases "3 \<le> length nm")
    case True
    define head where "head = ''nodev'' @ [CHR 0x09]"
    have l: "fs_line (True, nm) = head @ nm @ [NL]" and h: "length head = 6" by (simp_all add: fs_line_def head_def)
    have "drop (length (fs_line (True, nm)) - 4) (fs_line (True, nm)) = drop (length nm - 3) nm @ [NL]"
      using True by (simp add: l h)
    moreover have "length (drop (length nm - 3) nm) = 3" using True by simp
    ultimately show ?thesis by (simp add: strncmp_eq_def zfs_name_def)
  next
    case False
    moreover have "nm \<noteq> []" using ok by (simp add: fs_name_ok_def)
    ultimately have "(\<exists>a. nm = [a]) \<or> (\<exists>a b. nm = [a, b])" by (cases nm rule: remdups_adj.cases) (auto simp: not_less_eq_eq Suc_le_eq)
    then show ?thesis by (elim disjE exE) (simp_all add: fs_line_def zfs_name_def strncmp_eq_def)
  qed
qed

lemma filesystems_line_set:
  assumes "fs_name_ok nm"
  shows "filesystems_line (fs_line (nodev, nm)) ig =
    (if nodev \<and> \<not> zfs_name nm then ignore_list_add_fstype nm ig else ig)"
proof (cases nodev)
  case True
  have nd: "strncmp_eq (fs_line (True, nm)) ''nodev''" by (simp add: fs_line_def strncmp_eq_def)
  have "g_strstrip (CHR 0x09 # nm @ [NL]) = nm"
  proof -
    have "\<not> g_ascii_isspace (hd nm)" "\<not> g_ascii_isspace (last nm)" "nm \<noteq> []" using assms by (simp_all add: fs_name_ok_def)
    then obtain c d a b where "nm = c # a" "rev nm = d # b" "\<not> g_ascii_isspace c" "\<not> g_ascii_isspace d"
      by (cases nm; cases "rev nm") (auto simp: hd_rev [symmetric])
    then have "dropWhile g_ascii_isspace nm = nm" "dropWhile g_ascii_isspace (rev nm) = rev nm" by simp_all
    moreover have "dropWhile g_ascii_isspace (nm @ [NL]) = nm @ [NL]" using \<open>nm = c # a\<close> \<open>\<not> g_ascii_isspace c\<close> by simp
    ultimately show ?thesis by (simp add: g_strstrip_def)
  qed
  then have "g_strstrip (drop 5 (fs_line (True, nm))) = nm" by (simp add: fs_line_def)
  then show ?thesis using True nd last_zfs [OF assms] by (simp add: filesystems_line_def)
next
  case False
  then show ?thesis by (simp add: filesystems_line_def fs_line_def strncmp_eq_def)
qed

lemma strtok_word:
  "t \<noteq> [] \<Longrightarrow> SP \<notin> set t \<Longrightarrow> strtok_space (t @ SP # s) = t # strtok_space s"
  "t \<noteq> [] \<Longrightarrow> SP \<notin> set t \<Longrightarrow> strtok_space t = [t]"
proof -
  show "t \<noteq> [] \<Longrightarrow> SP \<notin> set t \<Longrightarrow> strtok_space (t @ SP # s) = t # strtok_space s"
  proof (induction t)
    case (Cons c t)
    then show ?case by (cases t) auto
  qed simp
  show "t \<noteq> [] \<Longrightarrow> SP \<notin> set t \<Longrightarrow> strtok_space t = [t]"
  proof (induction t)
    case (Cons c t)
    then show ?case by (cases t) auto
  qed simp
qed

lemma strtok_utab: "utab_ok (ts, l) \<Longrightarrow> strtok_space (utab_text (ts, l)) = ts @ [l @ [NL]]"
proof (induction ts)
  case Nil
  then show ?case using strtok_word(2) [of "l @ [NL]"] by (simp add: utab_text_def utab_ok_def)
next
  case (Cons t ts)
  then have "utab_ok (ts, l)" "t \<noteq> []" "SP \<notin> set t" by (auto simp: utab_ok_def)
  with Cons.IH strtok_word(1) [of t] show ?case by (simp add: utab_text_def)
qed

lemma strncmp_eq_rest: "{d. key @ d = t} = (if strncmp_eq t key then {drop (length key) t} else {})"
  by (auto simp: strncmp_eq_def) (metis append_take_drop_id)

lemma ignore_list_of_files:
  assumes "k_read K ''/proc/filesystems'' = Some [Chunk (concat (map fs_line fss))]" "\<forall>(nodev, nm)\<in>set fss. fs_name_ok nm"
    and "k_read K ''/run/mount/utab'' = Some [Chunk (concat (map utab_text us))]" "\<forall>u\<in>set us. utab_ok u"
  shows "set (table_fstype (ignore_list_of K)) = insert ''none'' {nm. (True, nm) \<in> set fss \<and> \<not> zfs_name nm}"
    and "set (table_mntdir (ignore_list_of K)) = {d. hidden us d}"
proof -
  have fl: "\<exists>k. fs_line x = k @ [NL] \<and> NL \<notin> set k \<and> NUL \<notin> set k" "length (fs_line x) < 128" if "x \<in> set fss" for x
  proof -
    obtain nd nm where x: "x = (nd, nm)" by (cases x)
    have ok: "fs_name_ok nm" using assms(2) that x by auto
    then have n: "NL \<notin> set nm" "NUL \<notin> set nm" by (auto simp: fs_name_ok_def g_ascii_isspace_def)
    let ?k = "(if nd then ''nodev'' else []) @ CHR 0x09 # nm"
    have "fs_line x = ?k @ [NL] \<and> NL \<notin> set ?k \<and> NUL \<notin> set ?k" using n by (simp add: fs_line_def x)
    then show "\<exists>k. fs_line x = k @ [NL] \<and> NL \<notin> set k \<and> NUL \<notin> set k" by blast
    show "length (fs_line x) < 128" using ok by (simp add: fs_line_def x fs_name_ok_def)
  qed
  then have f: "fgets_lines K 128 ''/proc/filesystems'' = Some (map fs_line fss)"
    by (intro fgets_lines_text [OF assms(1)]) (auto simp: text_lines_def)
  have ul: "\<exists>k. utab_text u = k @ [NL] \<and> NL \<notin> set k \<and> NUL \<notin> set k" if "u \<in> set us" for u
  proof -
    let ?k = "concat (map (\<lambda>t. t @ [SP]) (fst u)) @ snd u"
    have "utab_ok u" using assms(4) that by blast
    then have "utab_text u = ?k @ [NL] \<and> NL \<notin> set ?k \<and> NUL \<notin> set ?k"
      by (cases u) (simp add: utab_text_def utab_ok_def)
    then show ?thesis by blast
  qed
  then have u: "fopen_lines K ''/run/mount/utab'' = Some (map utab_text us)"
    by (intro fopen_lines_text [OF assms(3)]) (auto simp: text_lines_def)
  define ig1 where "ig1 = fold filesystems_line (map fs_line fss) (ignore_list_add_fstype ''none'' ignore_list_new)"
  have "set (table_fstype (fold filesystems_line (map fs_line fss) ig)) = set (table_fstype ig) \<union> {nm. (True, nm) \<in> set fss \<and> \<not> zfs_name nm}
      \<and> table_mntdir (fold filesystems_line (map fs_line fss) ig) = table_mntdir ig" for ig
    using assms(2)
  proof (induction fss arbitrary: ig)
    case (Cons x fss)
    obtain nd nm where x: "x = (nd, nm)" by (cases x)
    with Cons.prems Cons.IH [of "filesystems_line (fs_line x) ig"] show ?case
      by (auto simp: filesystems_line_set ignore_list_add_fstype_def)
  qed simp
  then have ig1: "set (table_fstype ig1) = insert ''none'' {nm. (True, nm) \<in> set fss \<and> \<not> zfs_name nm}" "table_mntdir ig1 = []"
    by (simp_all add: ig1_def ignore_list_add_fstype_def ignore_list_new_def)
  define tg where "tg = (\<lambda>pch ig. if strncmp_eq pch ''TARGET='' then ignore_list_add_mntdir (drop 7 pch) ig else ig)"
  have toks: "table_fstype (fold tg ts ig) = table_fstype ig
      \<and> set (table_mntdir (fold tg ts ig)) = set (table_mntdir ig) \<union> {d. ''TARGET='' @ d \<in> set ts}" for ts ig
  proof (induction ts arbitrary: ig)
    case (Cons t ts)
    have "length ''TARGET='' = 7" by simp
    with strncmp_eq_rest [of "''TARGET=''" t] have k: "{d. ''TARGET='' @ d = t} = (if strncmp_eq t ''TARGET='' then {drop 7 t} else {})" by metis
    have "{d. ''TARGET='' @ d \<in> set (t # ts)} = {d. ''TARGET='' @ d = t} \<union> {d. ''TARGET='' @ d \<in> set ts}" by auto
    moreover have "table_fstype (tg t ig) = table_fstype ig"
      "set (table_mntdir (tg t ig)) = set (table_mntdir ig) \<union> (if strncmp_eq t ''TARGET='' then {drop 7 t} else {})"
      by (simp_all add: tg_def ignore_list_add_mntdir_def)
    ultimately show ?case using Cons.IH [of "tg t ig"] by (simp only: k fold_simps o_apply) (simp only: Un_assoc)
  qed simp
  have "table_fstype (fold utab_line (map utab_text us) ig) = table_fstype ig
      \<and> set (table_mntdir (fold utab_line (map utab_text us) ig)) = set (table_mntdir ig) \<union> {d. hidden us d}" for ig
    using assms(4)
  proof (induction us arbitrary: ig)
    case (Cons u us)
    obtain ts l where ul: "u = (ts, l)" by (cases u)
    have ok: "utab_ok (ts, l)" using Cons.prems ul by simp
    then have "\<not> strncmp_eq (l @ [NL]) ''TARGET=''" by (auto simp only: utab_ok_def prod.case)
    then have l: "''TARGET='' @ d \<noteq> l @ [NL]" for d using strncmp_eq_rest [of "''TARGET=''" "l @ [NL]"] by auto
    have "table_fstype (utab_line (utab_text u) ig) = table_fstype ig"
      "set (table_mntdir (utab_line (utab_text u) ig)) = set (table_mntdir ig) \<union> {d. hidden [u] d}"
      using toks [of "strtok_space (utab_text u)" ig] strtok_utab [OF ok] l
      by (auto simp: utab_line_def tg_def [symmetric] hidden_def ul)
    with Cons.IH [of "utab_line (utab_text u) ig"] Cons.prems show ?case by (auto simp: hidden_def)
  qed (auto simp: hidden_def)
  from this [of ig1] ig1
  show "set (table_fstype (ignore_list_of K)) = insert ''none'' {nm. (True, nm) \<in> set fss \<and> \<not> zfs_name nm}"
    and "set (table_mntdir (ignore_list_of K)) = {d. hidden us d}"
    by (simp_all add: ignore_list_of_def Let_def f u ig1_def)
qed

definition mount_entry :: "mntent \<Rightarrow> glibtop_mountentry" where
  \<comment> \<open>of a file system without a \<open>dev\<close> option\<close>
  "mount_entry m = \<lparr>mo_dev = - 1, mo_devname = take 79 (mnt_fsname m), mo_mountdir = take 79 (mnt_dir m),
     mo_type = take 79 (mnt_type m)\<rparr>"

lemma mount_loop_entries:
  assumes "\<forall>m\<in>set ms. strstr (mnt_opts m) ''dev='' = None"
  shows "mount_loop ignored ms = Inr (map mount_entry (filter (Not \<circ> ignored) ms))"
  using assms by (induction ms) (simp_all add: mount_dev_def mount_entry_def g_strlcpy_def)

lemma mount_dev_digit_lost:
  "mount_dev (''dev='' @ c # ds) = Inr (fst (strtoull 0 ds))" "mount_dev ''dev='' = Inl (Crash ''strtoull from behind mnt_opts'')"
  by (simp_all add: mount_dev_def strncmp_eq_def)

text \<open>
  C29. The list of mounted file systems: with \<open>all_fs\<close> every one, otherwise those whose type is not
  \<open>none\<close> and not marked \<open>nodev\<close> in \<open>/proc/filesystems\<close> (a name that ends in \<open>zfs\<close> counts as a device)
  and whose directory is not hidden by \<open>x-gdu.hide\<close> in \<open>/run/mount/utab\<close>; in the order of
  \<open>/etc/mtab\<close>, each with its first 79 characters. Number, size and total describe the block.
\<close>

theorem mountlist_spec:
  assumes "k_read K ''/proc/filesystems'' = Some [Chunk (concat (map fs_line fss))]" "\<forall>(nodev, nm)\<in>set fss. fs_name_ok nm"
    and "k_read K ''/run/mount/utab'' = Some [Chunk (concat (map utab_text us))]" "\<forall>u\<in>set us. utab_ok u"
    and "\<forall>m\<in>set ms. strstr (mnt_opts m) ''dev='' = None"
    and "entries = map mount_entry (filter (\<lambda>m. all_fs \<noteq> 0
           \<or> (mnt_type m \<noteq> ''none'' \<and> ((True, mnt_type m) \<in> set fss \<longrightarrow> zfs_name (mnt_type m)) \<and> \<not> hidden us (mnt_dir m))) ms)"
  shows "glibtop_get_mountlist_s K (Some ms) all_fs =
    Inr (\<lparr>ml_flags = 7, ml_number = of_nat (length entries), ml_total = of_nat (length entries) * 248, ml_size = 248\<rparr>, entries)"
proof -
  note ig = ignore_list_of_files [OF assms(1-4)]
  have "mount_loop (\<lambda>m. all_fs = 0 \<and> ignore_fs K (mnt_dir m) (mnt_type m)) ms = Inr entries"
    unfolding mount_loop_entries [OF assms(5)] assms(6)
    by (intro arg_cong [where f = Inr] arg_cong [where f = "map mount_entry"] filter_cong refl)
      (auto simp: ignore_fs_def ignore_list_has_fstype_def ignore_list_has_mntdir_def ig)
  then show ?thesis by (simp add: glibtop_get_mountlist_s_def)
qed

definition demo_mounts :: "mntent list" where
  "demo_mounts = [\<lparr>mnt_fsname = ''proc'', mnt_dir = ''/proc'', mnt_type = ''proc'', mnt_opts = ''rw''\<rparr>,
     \<lparr>mnt_fsname = ''/dev/sda3'', mnt_dir = ''/home'', mnt_type = ''ext4'', mnt_opts = ''rw''\<rparr>,
     \<lparr>mnt_fsname = ''/dev/sdb1'', mnt_dir = ''/boot'', mnt_type = ''vfat'', mnt_opts = ''ro''\<rparr>]"

definition demo_utab :: "(string list \<times> string) list" where
  "demo_utab = [([''TARGET=/boot''], ''OPTS=x-gdu.hide'')]"

theorem mountlist_spec_witness:
  "\<exists>buf. glibtop_get_mountlist_s (file_kernel [(''/proc/filesystems'', concat (map fs_line [(True, ''proc''), (False, ''ext4'')])),
        (''/run/mount/utab'', concat (map utab_text demo_utab))]) (Some demo_mounts) 0
     = Inr (buf, [\<lparr>mo_dev = - 1, mo_devname = ''/dev/sda3'', mo_mountdir = ''/home'', mo_type = ''ext4''\<rparr>])"
proof -
  let ?K = "file_kernel [(''/proc/filesystems'', concat (map fs_line [(True, ''proc''), (False, ''ext4'')])),
        (''/run/mount/utab'', concat (map utab_text demo_utab))]"
  have k: "k_read ?K ''/proc/filesystems'' = Some [Chunk (concat (map fs_line [(True, ''proc''), (False, ''ext4'')]))]"
    "k_read ?K ''/run/mount/utab'' = Some [Chunk (concat (map utab_text demo_utab))]"
    by (simp_all add: file_kernel_def fs_line_def demo_utab_def utab_text_def)
  have ok: "\<forall>(nodev, nm)\<in>set [(True, ''proc''), (False, ''ext4'')]. fs_name_ok nm" "\<forall>u\<in>set demo_utab. utab_ok u"
    "\<forall>m\<in>set demo_mounts. strstr (mnt_opts m) ''dev='' = None"
    by (simp_all add: fs_name_ok_def g_ascii_isspace_def demo_utab_def utab_ok_def strncmp_eq_def demo_mounts_def)
  have "hidden demo_utab ''/boot''" "\<not> hidden demo_utab ''/home''"
    by (simp_all add: hidden_def demo_utab_def utab_text_def strncmp_eq_def)
  then have e: "[\<lparr>mo_dev = - 1, mo_devname = ''/dev/sda3'', mo_mountdir = ''/home'', mo_type = ''ext4''\<rparr>] =
      map mount_entry (filter (\<lambda>m. (0 :: gint32) \<noteq> 0
           \<or> (mnt_type m \<noteq> ''none'' \<and> ((True, mnt_type m) \<in> set [(True, ''proc''), (False, ''ext4'')] \<longrightarrow> zfs_name (mnt_type m))
              \<and> \<not> hidden demo_utab (mnt_dir m))) demo_mounts)"
    by (simp add: demo_mounts_def mount_entry_def zfs_name_def)
  show ?thesis using mountlist_spec [OF k(1) ok(1) k(2) ok(2,3) e] by blast
qed

section \<open>How full a file system is\<close>

definition disk_stat_file :: "string \<Rightarrow> string" where
  \<comment> \<open>for a device: what stands before the first digit is the disk of a partition\<close>
  "disk_stat_file dev = ''/sys/block/'' @ (if \<exists>c\<in>set dev. isdigit c then takeWhile (\<lambda>c. \<not> isdigit c) dev @ ''/'' else [])
     @ dev @ ''/stat''"

lemma get_sys_path_2_6_25:
  assumes "LINUX_VERSION_CODE 2 6 25 \<le> s_os_version_code server" "length dev < 32"
  shows "get_sys_path server dev = (disk_stat_file dev, linux_2_6_25_format)"
  using assms by (simp add: get_sys_path_def is_partition_def g_strlcpy_def disk_stat_file_def Let_def)

lemma get_device_mounted:
  assumes "\<forall>m\<in>set pre. mnt_fsname m = ''rootfs'' \<or> mnt_dir m \<noteq> path" "mnt_dir m = path" "mnt_fsname m = ''/dev/'' @ dev"
    "length dev < 32"
  shows "get_device path (pre @ m # post) = Some dev"
  using assms by (induction pre) (auto simp: strncmp_eq_def g_strlcpy_def)

text \<open>
  For the first mount at a path that is not \<open>rootfs\<close> and on a device of \<open>/dev\<close>, from Linux 2.6.25
  on: the sizes are those of \<open>statvfs\<close>, with no blocks available where it says more than are free, and
  the sectors read and written are the third and seventh number of the device's \<open>stat\<close> file, with
  their flags; if there is no such file they are 0 and have no flags. (The directory of the disk is
  the name up to the first digit, so that for a partition of \<open>nvme0n1\<close> there is no such file.)
\<close>

theorem fsusage_spec:
  assumes "statvfs path = Some v" and ver: "LINUX_VERSION_CODE 2 6 25 \<le> s_os_version_code server"
    and dev: "\<forall>m\<in>set pre. mnt_fsname m = ''rootfs'' \<or> mnt_dir m \<noteq> path" "mnt_dir m = path"
      "mnt_fsname m = ''/dev/'' @ dev" "length dev < 32"
    and st: "k_read K (disk_stat_file dev) = map_option (\<lambda>st. [Chunk (fields_text st)]) stat"
      "\<And>st. stat = Some st \<Longrightarrow> fields_ok st \<and> 8 \<le> length (fst st) \<and> length (fields_text st) < BUFSIZ \<and> NUL \<notin> set (fields_text st)"
  shows "glibtop_get_fsusage_s K (Some (pre @ m # post)) statvfs server path =
    \<lparr>fu_flags = (if stat = None then 0x3f else 0xff), fu_blocks = f_blocks v, fu_bfree = f_bfree v,
     fu_bavail = (if f_bfree v < f_bavail v then 0 else f_bavail v), fu_files = f_files v, fu_ffree = f_ffree v,
     fu_block_size = ucast (f_bsize v),
     fu_read = (case stat of None \<Rightarrow> 0 | Some st \<Rightarrow> of_nat (snd (fst st ! 2))),
     fu_write = (case stat of None \<Rightarrow> 0 | Some st \<Rightarrow> of_nat (snd (fst st ! 6)))\<rparr>"
proof -
  have v6: "LINUX_VERSION_CODE 2 6 0 \<le> s_os_version_code server"
    using ver by (simp add: LINUX_VERSION_CODE_def)
  note dp = get_device_mounted [OF dev] get_sys_path_2_6_25 [OF ver dev(4)]
  show ?thesis
  proof (cases stat)
    case None
    then have "try_file_to_buffer K BUFSIZ (disk_stat_file dev) = (TRY_FILE_TO_BUFFER_OPEN, [])"
      using st(1) by (simp add: try_file_to_buffer_def)
    then show ?thesis using None
      by (simp add: glibtop_get_fsusage_s_def assms(1) get_fsusage_read_write_def v6 fsusage_2_6_0_def dp
          fsusage_zero_def sysdeps_fsusage_def)
  next
    case (Some st)
    obtain fs rest where fr: "st = (fs, rest)" by (cases st)
    note ok = st(2) [OF Some]
    have "fs \<noteq> []" using ok by (auto simp: fr)
    then have "fields_text st \<noteq> []" by (cases fs) (auto simp: fields_text_def fr)
    then have "readable [Chunk (fields_text st)]" "file_bytes [Chunk (fields_text st)] = fields_text st"
      by (simp_all add: readable_def)
    moreover have t: "c_str (take (BUFSIZ - 1) (fields_text st)) = fields_text st"
    proof -
      have "length (fields_text st) \<le> BUFSIZ - 1" using ok by linarith
      with ok show ?thesis by (simp add: c_str_id)
    qed
    ultimately have b: "try_file_to_buffer K BUFSIZ (disk_stat_file dev) = (TRY_FILE_TO_BUFFER_OK, fields_text st)"
      using try_file_to_buffer_readable [of K "disk_stat_file dev" "[Chunk (fields_text st)]" BUFSIZ] st(1) Some t
      by simp
    have "Suc (Suc (Suc (Suc (Suc (Suc (Suc (Suc 0))))))) \<le> length fs" using ok by (simp add: fr)
    then obtain a0 a1 a2 a3 a4 a5 a6 a7 fs' where fs: "fs = a0 # a1 # a2 # a3 # a4 # a5 # a6 # a7 # fs'"
      unfolding Suc_le_length_iff by blast
    have "scan_all linux_2_6_25_format (fields_text (fs, rest)) = [(False, snd a2), (False, snd a6)]"
      using scan_fields [of fs rest linux_2_6_25_format] ok
      by (simp add: linux_2_6_25_format_def fr fs split: prod.splits)
    moreover have "snd a2 < 2 ^ 64" "snd a6 < 2 ^ 64" using ok by (auto simp: fields_ok_def fr fs)
    ultimately show ?thesis using Some b
      by (simp add: glibtop_get_fsusage_s_def assms(1) get_fsusage_read_write_def v6 fsusage_2_6_0_def dp
          fsusage_zero_def sysdeps_fsusage_def fr fs scan_u64_def)
  qed
qed

definition demo_stat :: "(string \<times> nat) list \<times> string" where
  "demo_stat = ([([], 1), ('' '', 2), ('' '', 30), ('' '', 4), ('' '', 5), ('' '', 6), ('' '', 70), ('' '', 8), ('' '', 9)], [NL])"

theorem fsusage_spec_witness:
  "let r = glibtop_get_fsusage_s (file_kernel [(''/sys/block/sda/sda3/stat'', fields_text demo_stat)]) (Some demo_mounts)
       (\<lambda>_. Some \<lparr>f_bsize = 4096, f_blocks = 100, f_bfree = 40, f_bavail = 35, f_files = 9, f_ffree = 8\<rparr>)
       (glibtop_global_server\<lparr>s_os_version_code := LINUX_VERSION_CODE 5 4 0\<rparr>) ''/home''
   in fu_flags r = 0xff \<and> fu_bavail r = 35 \<and> fu_read r = 30 \<and> fu_write r = 70"
proof -
  let ?K = "file_kernel [(''/sys/block/sda/sda3/stat'', fields_text demo_stat)]"
  have s: "show_nat (Suc 0) = ''1''" "show_nat 2 = ''2''" "show_nat 30 = ''30''" "show_nat 4 = ''4''" "show_nat 5 = ''5''"
    "show_nat 6 = ''6''" "show_nat 70 = ''70''" "show_nat 8 = ''8''" "show_nat 9 = ''9''" by code_simp+
  have f: "disk_stat_file ''sda3'' = ''/sys/block/sda/sda3/stat''"
    by (simp add: disk_stat_file_def isdigit_def)
  have ok: "fields_ok demo_stat" "8 \<le> length (fst demo_stat)" "length (fields_text demo_stat) < BUFSIZ"
    "NUL \<notin> set (fields_text demo_stat)" "fields_text demo_stat \<noteq> []"
    by (simp_all add: fields_ok_def demo_stat_def fields_text_def s BUFSIZ_def)
  then have k: "k_read ?K (disk_stat_file ''sda3'') = map_option (\<lambda>st. [Chunk (fields_text st)]) (Some demo_stat)"
    by (simp add: f file_kernel_def)
  have ver: "LINUX_VERSION_CODE 2 6 25 \<le> s_os_version_code (glibtop_global_server\<lparr>s_os_version_code := LINUX_VERSION_CODE 5 4 0\<rparr>)"
    by (simp add: LINUX_VERSION_CODE_def)
  have m: "demo_mounts = [demo_mounts ! 0] @ demo_mounts ! 1 # [demo_mounts ! 2]" by (simp add: demo_mounts_def)
  have d: "\<forall>m\<in>set [demo_mounts ! 0]. mnt_fsname m = ''rootfs'' \<or> mnt_dir m \<noteq> ''/home''" "mnt_dir (demo_mounts ! 1) = ''/home''"
    "mnt_fsname (demo_mounts ! 1) = ''/dev/'' @ ''sda3''" "length ''sda3'' < 32"
    by (simp_all add: demo_mounts_def)
  note r = fsusage_spec [where statvfs = "\<lambda>_. Some \<lparr>f_bsize = 4096, f_blocks = 100, f_bfree = 40, f_bavail = 35, f_files = 9, f_ffree = 8\<rparr>",
      OF refl ver d k, of "[demo_mounts ! 2]"]
  show ?thesis
    using r [folded m] ok by (simp add: demo_stat_def)
qed

end
