(* ===== verification/SysLimits.thy ===== *)
theory SysLimits
  imports ProcInfo
begin

unbundle bit_operations_syntax

text \<open>
  \<open>shm_limits.c\<close>, \<open>msg_limits.c\<close>, \<open>sem_limits.c\<close>, \<open>sysinfo.c\<close> and \<open>siglist.c\<close> under
  \<open>sysdeps/linux\<close>. The structs that \<open>shmctl\<close>, \<open>msgctl\<close> and \<open>semctl\<close> leave for \<open>IPC_INFO\<close> are
  parameters, and so are the numbers of the signals.
\<close>

section \<open>IPC limits\<close>

record shminfo =
  shmmax :: "64 word"
  shmmin :: "64 word"
  shmmni :: "64 word"
  shmseg :: "64 word"
  shmall :: "64 word"

record glibtop_shm_limits =
  shm_flags :: guint64
  shm_shmmax :: guint64
  shm_shmmin :: guint64
  shm_shmmni :: guint64
  shm_shmseg :: guint64
  shm_shmall :: guint64

definition sysdeps_shm_limits :: guint64 where
  "sysdeps_shm_limits = flag 0 + flag 1 + flag 2 + flag 3 + flag 4"

definition init_shm_limits_s :: "glibtop \<Rightarrow> glibtop" where
  "init_shm_limits_s server = set_sysdeps F_SHM_LIMITS sysdeps_shm_limits server"

definition glibtop_get_shm_limits_s :: "shminfo \<Rightarrow> glibtop_shm_limits" where
  "glibtop_get_shm_limits_s si =
     \<lparr>shm_flags = sysdeps_shm_limits, shm_shmmax = shmmax si, shm_shmmin = shmmin si, shm_shmmni = shmmni si,
      shm_shmseg = shmseg si, shm_shmall = shmall si\<rparr>"

text \<open>The members of \<open>struct msginfo\<close> and \<open>struct seminfo\<close> are ints; the assignments extend the sign.\<close>

record msginfo =
  msgpool :: "32 word"
  msgmap :: "32 word"
  msgmax :: "32 word"
  msgmnb :: "32 word"
  msgmni :: "32 word"
  msgssz :: "32 word"
  msgtql :: "32 word"

record glibtop_msg_limits =
  msg_flags :: guint64
  msg_msgpool :: guint64
  msg_msgmap :: guint64
  msg_msgmax :: guint64
  msg_msgmnb :: guint64
  msg_msgmni :: guint64
  msg_msgssz :: guint64
  msg_msgtql :: guint64

definition sysdeps_msg_limits :: guint64 where
  "sysdeps_msg_limits = flag 0 + flag 1 + flag 2 + flag 3 + flag 4 + flag 5 + flag 6"

definition init_msg_limits_s :: "glibtop \<Rightarrow> glibtop" where
  "init_msg_limits_s server = set_sysdeps F_MSG_LIMITS sysdeps_msg_limits server"

definition glibtop_get_msg_limits_s :: "msginfo \<Rightarrow> glibtop_msg_limits" where
  "glibtop_get_msg_limits_s mi =
     \<lparr>msg_flags = sysdeps_msg_limits, msg_msgpool = scast (msgpool mi), msg_msgmap = scast (msgmap mi),
      msg_msgmax = scast (msgmax mi), msg_msgmnb = scast (msgmnb mi), msg_msgmni = scast (msgmni mi),
      msg_msgssz = scast (msgssz mi), msg_msgtql = scast (msgtql mi)\<rparr>"

record seminfo =
  semmap :: "32 word"
  semmni :: "32 word"
  semmns :: "32 word"
  semmnu :: "32 word"
  semmsl :: "32 word"
  semopm :: "32 word"
  semume :: "32 word"
  semusz :: "32 word"
  semvmx :: "32 word"
  semaem :: "32 word"

record glibtop_sem_limits =
  sem_flags :: guint64
  sem_semmap :: guint64
  sem_semmni :: guint64
  sem_semmns :: guint64
  sem_semmnu :: guint64
  sem_semmsl :: guint64
  sem_semopm :: guint64
  sem_semume :: guint64
  sem_semusz :: guint64
  sem_semvmx :: guint64
  sem_semaem :: guint64

definition sysdeps_sem_limits :: guint64 where
  "sysdeps_sem_limits = flag 0 + flag 1 + flag 2 + flag 3 + flag 4 + flag 5 + flag 6 + flag 7 + flag 8 + flag 9"

definition init_sem_limits_s :: "glibtop \<Rightarrow> glibtop" where
  "init_sem_limits_s server = set_sysdeps F_SEM_LIMITS sysdeps_sem_limits server"

definition glibtop_get_sem_limits_s :: "seminfo \<Rightarrow> glibtop_sem_limits" where
  "glibtop_get_sem_limits_s si =
     \<lparr>sem_flags = sysdeps_sem_limits, sem_semmap = scast (semmap si), sem_semmni = scast (semmni si),
      sem_semmns = scast (semmns si), sem_semmnu = scast (semmnu si), sem_semmsl = scast (semmsl si),
      sem_semopm = scast (semopm si), sem_semume = scast (semume si), sem_semusz = scast (semusz si),
      sem_semvmx = scast (semvmx si), sem_semaem = scast (semaem si)\<rparr>"

section \<open>sysinfo.c\<close>

text \<open>\<open>g_strsplit (s, "\n\n", 0)\<close> and \<open>g_strsplit_set (s, ":\n", 0)\<close>, as GLib documents them: the empty
  string gives no part at all.\<close>

fun split_blank :: "string \<Rightarrow> string \<Rightarrow> string list" where
  \<comment> \<open>the first argument is what has been read of the current part, in reverse\<close>
  "split_blank acc [] = [rev acc]"
| "split_blank acc [c] = [rev acc @ [c]]"
| "split_blank acc (c # d # s) =
     (if c = NL \<and> d = NL then rev acc # split_blank [] s else split_blank (c # acc) (d # s))"

definition g_strsplit_blank :: "string \<Rightarrow> string list" where
  "g_strsplit_blank s = (if s = [] then [] else split_blank [] s)"

fun split_set :: "char list \<Rightarrow> string \<Rightarrow> string \<Rightarrow> string list" where
  "split_set ds acc [] = [rev acc]"
| "split_set ds acc (c # s) = (if c \<in> set ds then rev acc # split_set ds [] s else split_set ds (c # acc) s)"

definition g_strsplit_set :: "string \<Rightarrow> char list \<Rightarrow> string list" where
  "g_strsplit_set s ds = (if s = [] then [] else split_set ds [] s)"

text \<open>The keys in the order of the file and the table of the values. A key that comes a second time is
  freed by the table, while \<open>labels\<close> keeps a pointer to it (\<open>None\<close>).\<close>

record glibtop_entry =
  labels :: "string option list"
  vals :: "string \<rightharpoonup> string"

record glibtop_sysinfo =
  si_flags :: guint64
  si_ncpu :: guint64
  si_cpuinfo :: "glibtop_entry list"

fun cpuinfo_entry :: "string list \<Rightarrow> glibtop_entry \<Rightarrow> glibtop_entry" where
  "cpuinfo_entry (key # val # ps) e =
     (let key = g_strstrip key; val = g_strstrip val
      in cpuinfo_entry ps \<lparr>labels = labels e @ [if vals e key = None then Some key else None], vals = (vals e)(key \<mapsto> val)\<rparr>)"
| "cpuinfo_entry _ e = e"

fun cpuinfo_loop :: "string list \<Rightarrow> glibtop_entry list \<Rightarrow> glibtop_entry list" where
  "cpuinfo_loop [] cpus = cpus"
| "cpuinfo_loop (this_proc # ps) cpus =
     (if this_proc = [] then cpus
      else if GLIBTOP_NCPU \<le> length cpus then cpus
      else if strstr this_proc ''processor'' = None then cpuinfo_loop ps cpus
      else cpuinfo_loop ps
             (cpus @ [cpuinfo_entry (g_strsplit_set this_proc [CHR '':'', NL]) \<lparr>labels = [], vals = Map.empty\<rparr>]))"

text \<open>The static \<open>sysinfo\<close> is filled once.\<close>

definition sysinfo_zero :: glibtop_sysinfo where
  "sysinfo_zero = \<lparr>si_flags = 0, si_ncpu = 0, si_cpuinfo = []\<rparr>"

definition init_sysinfo :: "kernel \<Rightarrow> glibtop_sysinfo \<Rightarrow> glibtop_sysinfo res" where
  "init_sysinfo K sysinfo =
     (if si_flags sysinfo \<noteq> 0 then Inr sysinfo
      else case g_file_get_contents K ''/proc/cpuinfo'' of
        None \<Rightarrow> Inl (Exit ''g_file_get_contents(/proc/cpuinfo)'')
      | Some buffer \<Rightarrow>
          (let cpus = cpuinfo_loop (g_strsplit_blank (c_str buffer)) []
           in Inr \<lparr>si_flags = flag 1, si_ncpu = of_nat (length cpus), si_cpuinfo = cpus\<rparr>))"

definition glibtop_get_sysinfo_s :: "kernel \<Rightarrow> glibtop_sysinfo \<Rightarrow> (glibtop_sysinfo \<times> glibtop_sysinfo) res" where
  \<comment> \<open>the value, and the static variable afterwards\<close>
  "glibtop_get_sysinfo_s K sysinfo = bind_res (init_sysinfo K sysinfo) (\<lambda>si. Inr (si, si))"

lemma length_cpuinfo_loop: "length cpus \<le> GLIBTOP_NCPU \<Longrightarrow> length (cpuinfo_loop ps cpus) \<le> GLIBTOP_NCPU"
  by (induction ps cpus rule: cpuinfo_loop.induct) auto

lemma sysinfo_once:
  "glibtop_get_sysinfo_s K sysinfo_zero = Inr (v, st) \<Longrightarrow>
     glibtop_get_sysinfo_s K' st = Inr (v, st) \<and> length (si_cpuinfo v) \<le> GLIBTOP_NCPU
     \<and> si_ncpu v = of_nat (length (si_cpuinfo v))"
  using length_cpuinfo_loop [of "[]"]
  by (auto simp: glibtop_get_sysinfo_s_def init_sysinfo_def bind_res_Inr_iff sysinfo_zero_def Let_def split: option.splits)

section \<open>siglist.c\<close>

definition siglist_names :: "(string \<times> string) list" where
  "siglist_names =
     [(''SIGHUP'', ''Hangup (POSIX).''), (''SIGINT'', ''Interrupt (ANSI).''), (''SIGQUIT'', ''Quit (POSIX).''),
      (''SIGILL'', ''Illegal instruction (ANSI).''), (''SIGTRAP'', ''Trace trap (POSIX).''),
      (''SIGABRT'', ''Abort (ANSI).''), (''SIGIOT'', ''IOT trap (4.2 BSD).''), (''SIGBUS'', ''BUS error (4.2 BSD).''),
      (''SIGFPE'', ''Floating-point exception (ANSI).''), (''SIGKILL'', ''Kill, unblockable (POSIX).''),
      (''SIGUSR1'', ''User-defined signal 1 (POSIX).''), (''SIGSEGV'', ''Segmentation violation (ANSI).''),
      (''SIGUSR2'', ''User-defined signal 2 (POSIX).''), (''SIGPIPE'', ''Broken pipe (POSIX).''),
      (''SIGALRM'', ''Alarm clock (POSIX).''), (''SIGTERM'', ''Termination (ANSI).''), (''SIGSTKFLT'', ''Stack fault.''),
      (''SIGCLD'', ''Same as SIGCHLD (System V).''), (''SIGCHLD'', ''Child status has changed (POSIX).''),
      (''SIGCONT'', ''Continue (POSIX).''), (''SIGSTOP'', ''Stop, unblockable (POSIX).''),
      (''SIGTSTP'', ''Keyboard stop (POSIX).''), (''SIGTTIN'', ''Background read from tty (POSIX).''),
      (''SIGTTOU'', ''Background write to tty (POSIX).''), (''SIGURG'', ''Urgent condition on socket (4.2 BSD).''),
      (''SIGXCPU'', ''CPU limit exceeded (4.2 BSD).''), (''SIGXFSZ'', ''File size limit exceeded (4.2 BSD).''),
      (''SIGVTALRM'', ''Virtual alarm clock (4.2 BSD).''), (''SIGPROF'', ''Profiling alarm clock (4.2 BSD).''),
      (''SIGWINCH'', ''Window size change (4.3 BSD, Sun).''), (''SIGPOLL'', ''Pollable event occurred (System V).''),
      (''SIGIO'', ''I/O now possible (4.2 BSD).''), (''SIGPWR'', ''Power failure restart (System V).''),
      (''SIGSYS'', ''Bad system call.''), (''SIGUNUSED'', '''')]"

text \<open>The signals that \<open>signal.h\<close> defines, and the entry with number 0 at the end.\<close>

definition glibtop_sys_siglist :: "(string \<Rightarrow> nat option) \<Rightarrow> (nat \<times> (string \<times> string) option) list" where
  "glibtop_sys_siglist sig =
     List.map_filter (\<lambda>(nm, label). map_option (\<lambda>n. (n, Some (nm, label))) (sig nm)) siglist_names @ [(0, None)]"

end
