(* ===== verification/Disk.thy ===== *)
theory Disk
  imports ProcText Server
begin

unbundle bit_operations_syntax

text \<open>
  \<open>disk.c\<close> under \<open>sysdeps/linux\<close>, with \<open>get_from_pipe\<close> of \<open>glibtop_private.c\<close>: the counters of
  \<open>/proc/diskstats\<close>. What the pipe from \<open>lsblk\<close> delivers is a parameter, and so is what the
  memory on the stack holds before it is written.
\<close>

abbreviation "GLIBTOP_NDISK \<equiv> 1024 :: nat"
abbreviation "DISK_BUFSIZ \<equiv> 81920 :: nat"

section \<open>Reading\<close>

text \<open>\<open>get_from_pipe\<close>: the buffer afterwards; no NUL is written behind the bytes. \<open>None\<close>: \<open>popen\<close>
  fails, and the NULL it returns goes to \<open>fread\<close>.\<close>

definition get_from_pipe :: "string \<Rightarrow> nat \<Rightarrow> string option \<Rightarrow> string res" where
  "get_from_pipe old bufsiz out =
     (case out of
        None \<Rightarrow> Inl (Crash ''fread from NULL'')
      | Some bytes \<Rightarrow> Inr (take bufsiz bytes @ drop (length bytes) old))"

text \<open>The string in a buffer; without a NUL the functions read behind it.\<close>

definition buffer_str :: "string \<Rightarrow> string res" where
  "buffer_str buf = (if NUL \<in> set buf then Inr (c_str buf) else Inl (Crash ''read behind the buffer''))"

text \<open>\<open>%s\<close> into an array of the given size.\<close>

definition scan_str :: "nat \<Rightarrow> string \<Rightarrow> (string \<times> string) option res" where
  "scan_str n s =
     (let s = dropWhile isspace s; w = takeWhile (\<lambda>c. \<not> isspace c) s in
      if s = [] then Inr None
      else if n \<le> length w then Inl (Crash ''sscanf writes behind the array'')
      else Inr (Some (w, dropWhile (\<lambda>c. \<not> isspace c) s)))"

section \<open>The tree of lsblk\<close>

record partition_info =
  pi_name :: string
  pi_type :: string
  pi_raid_num :: string

text \<open>The state of the loop: the array as far as it is written, \<open>n\<close>, \<open>tlvl\<close> and \<open>max\<close> of its first
  element.\<close>

record primary =
  pr_parts :: "partition_info list"
  pr_n :: nat
  pr_tlvl :: nat
  pr_max :: nat

definition disk_type :: "string \<Rightarrow> bool" where
  "disk_type type \<longleftrightarrow> type = ''loop'' \<or> type = ''rom'' \<or> type = ''disk''"

definition raid_type :: "string \<Rightarrow> bool" where
  "raid_type type \<longleftrightarrow> strncmp_eq type ''raid''"

definition tree_step :: "string \<Rightarrow> primary \<Rightarrow> primary" where
  \<comment> \<open>the \<open>if\<close> over \<open>tlvl\<close>\<close>
  "tree_step type p =
     (let n = pr_n p; prev = pi_type (pr_parts p ! (n - 1)) in
      if pr_tlvl p = 0 then
        (if disk_type type then p\<lparr>pr_max := pr_max p + 1\<rparr>
         else if type = ''part'' then p\<lparr>pr_tlvl := 1\<rparr> else p)
      else if pr_tlvl p = 1 then
        (if disk_type type then p\<lparr>pr_n := n - 1, pr_tlvl := 0, pr_max := pr_max p + 1\<rparr>
         else if type = ''part'' then p\<lparr>pr_n := n - 1\<rparr>
         else if type = ''lvm'' \<or> raid_type type then p\<lparr>pr_tlvl := 2, pr_max := pr_max p + 1\<rparr> else p)
      else if pr_tlvl p = 2 then
        (if disk_type type then p\<lparr>pr_n := n - 1, pr_tlvl := 0, pr_max := pr_max p + 1\<rparr>
         else if (prev = ''lvm'' \<and> type = ''lvm'') \<or> (prev = ''raid'' \<and> raid_type type) then p\<lparr>pr_n := n - 1\<rparr>
         else if (prev = ''lvm'' \<or> prev = ''raid'') \<and> type = ''part'' then p\<lparr>pr_n := n - 1, pr_tlvl := 1\<rparr>
         else if prev = ''raid'' \<and> type = ''lvm'' then p\<lparr>pr_tlvl := 3, pr_max := pr_max p + 1\<rparr> else p)
      else
        (if disk_type type then p\<lparr>pr_n := n - 1, pr_tlvl := 0, pr_max := pr_max p + 1\<rparr>
         else if type = ''lvm'' then p\<lparr>pr_n := n - 1\<rparr>
         else if raid_type type then p\<lparr>pr_n := n - 1, pr_tlvl := 2\<rparr>
         else if type = ''part'' then p\<lparr>pr_n := n - 1, pr_tlvl := 1\<rparr> else p))"

text \<open>\<open>strncpy (type, _, 4)\<close> writes no NUL behind four characters: what follows is the string that the
  stack holds at the fifth byte of the member, \<open>junk i\<close> for element \<open>i\<close>.\<close>

definition part_entry :: "string \<Rightarrow> string \<Rightarrow> string \<Rightarrow> partition_info" where
  "part_entry junk name type =
     (let ty = take 4 type @ (if 4 \<le> length type then junk else []) in
      \<lparr>pi_name = name, pi_type = ty, pi_raid_num = (if ty = ''raid'' then drop 4 type else [])\<rparr>)"

definition write_part :: "(nat \<Rightarrow> string) \<Rightarrow> string \<Rightarrow> string \<Rightarrow> primary \<Rightarrow> primary res" where
  "write_part junk name type p =
     (if GLIBTOP_NDISK \<le> pr_n p then Inl (Crash ''primary_part index'')
      else let n = pr_n p; e = part_entry (junk n) name type
        in Inr (p\<lparr>pr_parts := (if n < length (pr_parts p) then (pr_parts p)[n := e] else pr_parts p @ [e]), pr_n := n + 1\<rparr>))"

lemma scan_str_Some: "scan_str n s = Inr (Some x) \<Longrightarrow> s \<noteq> []"
  by (auto simp: scan_str_def Let_def split: if_splits)

function primary_loop :: "(nat \<Rightarrow> string) \<Rightarrow> string \<Rightarrow> primary \<Rightarrow> primary res" where
  "primary_loop junk m p =
     (case scan_str 256 m of
        Inl e \<Rightarrow> Inl e
      | Inr None \<Rightarrow> Inr p
      | Inr (Some (name, rest)) \<Rightarrow>
          (case scan_str 256 rest of
             Inl e \<Rightarrow> Inl e
           | Inr None \<Rightarrow> Inr p
           | Inr (Some (type, _)) \<Rightarrow>
               (case write_part junk name type (tree_step type p) of
                  Inl e \<Rightarrow> Inl e
                | Inr p \<Rightarrow> primary_loop junk (skip_line m) p)))"
  by pat_completeness auto
termination
  by (relation "measure (\<lambda>(junk, m, p). length m)") (auto dest!: scan_str_Some simp: length_skip_line)

declare primary_loop.simps [simp del]

definition find_primary_part :: "(nat \<Rightarrow> string) \<Rightarrow> string \<Rightarrow> primary res" where
  "find_primary_part junk m = primary_loop junk m \<lparr>pr_parts = [], pr_n = 0, pr_tlvl = 0, pr_max = 0\<rparr>"

section \<open>The counters\<close>

definition is_virtual_drive :: "primary \<Rightarrow> string \<Rightarrow> bool res" where
  "is_virtual_drive p line =
     (if line = [] then Inr False
      else bind_res (scan_str 256 line) (\<lambda>w.
        Inr (case w of None \<Rightarrow> True
             | Some (name, _) \<Rightarrow> name \<notin> pi_name ` set (take (pr_max p) (pr_parts p)))))"

function max_lines :: "string \<Rightarrow> nat res" where
  "max_lines p =
     (case scan_str 10 p of
        Inl e \<Rightarrow> Inl e
      | Inr None \<Rightarrow> Inr 0
      | Inr (Some _) \<Rightarrow> (case max_lines (skip_line p) of Inl e \<Rightarrow> Inl e | Inr n \<Rightarrow> Inr (n + 1)))"
  by pat_completeness auto
termination
  by (relation "measure length") (auto dest!: scan_str_Some simp: length_skip_line)

declare max_lines.simps [simp del]

record glibtop_disk =
  dk_flags :: guint64
  xdisk_sectors_read :: "nat \<Rightarrow> guint64"
  xdisk_time_read :: "nat \<Rightarrow> guint64"
  xdisk_sectors_write :: "nat \<Rightarrow> guint64"
  xdisk_time_write :: "nat \<Rightarrow> guint64"

definition sysdeps_disk :: guint64 where
  "sysdeps_disk = flag 0 + flag 1 + flag 2 + flag 3"

definition init_disk_s :: "glibtop \<Rightarrow> glibtop" where
  "init_disk_s server = set_sysdeps F_DISK sysdeps_disk server"

definition disk_zero :: glibtop_disk where
  "disk_zero = \<lparr>dk_flags = 0, xdisk_sectors_read = (\<lambda>_. 0), xdisk_time_read = (\<lambda>_. 0),
     xdisk_sectors_write = (\<lambda>_. 0), xdisk_time_write = (\<lambda>_. 0)\<rparr>"

text \<open>The counters of one disk, from the name on, and the rest of the text.\<close>

definition disk_line :: "nat \<Rightarrow> string \<Rightarrow> glibtop_disk \<Rightarrow> glibtop_disk \<times> string" where
  "disk_line i p buf =
     (let p = skip_token (skip_token (skip_token p));
          (sr, p) = strtoull 0 p;
          (tr, p) = strtoull 0 p;
          p = skip_token (skip_token p);
          (sw, p) = strtoull 0 p;
          (tw, p) = strtoull 0 p
      in (buf\<lparr>xdisk_sectors_read := (xdisk_sectors_read buf)(i := sr), xdisk_time_read := (xdisk_time_read buf)(i := tr),
              xdisk_sectors_write := (xdisk_sectors_write buf)(i := sw), xdisk_time_write := (xdisk_time_write buf)(i := tw)\<rparr>,
          skip_line p))"

text \<open>The loop with \<open>i\<close> and \<open>ndisk\<close>, which goes down for each line that is left out.\<close>

function disk_loop :: "primary \<Rightarrow> nat \<Rightarrow> nat \<Rightarrow> string \<Rightarrow> glibtop_disk \<Rightarrow> (glibtop_disk \<times> nat) res" where
  "disk_loop parts i ndisk p buf =
     (if ndisk \<le> i then Inr (buf, ndisk)
      else (let p = skip_multiple_token p 2 in
        case is_virtual_drive parts p of
          Inl e \<Rightarrow> Inl e
        | Inr virtual \<Rightarrow>
            (let (ndisk, p) = (if virtual then (ndisk, p) else (ndisk - 1, skip_multiple_token (skip_line p) 2)) in
             if GLIBTOP_NDISK \<le> i then Inl (Crash ''xdisk index'')
             else let (buf, p) = disk_line i p buf in disk_loop parts (i + 1) ndisk p buf)))"
  by pat_completeness auto
termination
  by (relation "measure (\<lambda>(parts, i, ndisk, p, buf). ndisk - i)") (auto split: if_splits)

declare disk_loop.simps [simp del]

text \<open>\<open>pipe\<close>: what \<open>lsblk\<close> prints; \<open>stack\<close>: what the buffer for it and the array held before. The number
  of disks goes to \<open>server->ndisk\<close>.\<close>

definition glibtop_get_disk_s ::
  "kernel \<Rightarrow> string option \<Rightarrow> string \<times> (nat \<Rightarrow> string) \<Rightarrow> glibtop \<Rightarrow> (glibtop_disk \<times> glibtop) res" where
  "glibtop_get_disk_s K pipe stack server =
     bind_res (file_to_buffer K DISK_BUFSIZ ''/proc/diskstats'') (\<lambda>buffer.
     bind_res (get_from_pipe (fst stack) DISK_BUFSIZ pipe) (\<lambda>map_buffer.
     bind_res (max_lines buffer) (\<lambda>lines.
     bind_res (buffer_str map_buffer) (\<lambda>m.
     bind_res (find_primary_part (snd stack) m) (\<lambda>parts.
     bind_res (disk_loop parts 0 lines buffer disk_zero) (\<lambda>(buf, ndisk).
       Inr (buf, server\<lparr>s_ndisk := int ndisk\<rparr>)))))))"

section \<open>What the counters mean\<close>

text \<open>A device name as the kernel and \<open>lsblk\<close> print it, and a line of \<open>/proc/diskstats\<close>: the numbers of
  the device, its name, the eight counters up to the time of the writes, and what newer kernels add.\<close>

definition dev_name :: "string \<Rightarrow> bool" where
  "dev_name nm \<longleftrightarrow> nm \<noteq> [] \<and> length nm < 256 \<and> (\<forall>c\<in>set nm. \<not> isspace c \<and> c \<noteq> NUL)"

definition stat_line :: "string \<Rightarrow> nat list \<Rightarrow> string \<Rightarrow> bool" where
  "stat_line nm vs l \<longleftrightarrow> dev_name nm \<and> NL \<notin> set l \<and> length vs = 8 \<and> (\<forall>v\<in>set vs. v < 2 ^ 64)
     \<and> (\<exists>major minor more. words l = show_nat major # minor # nm # map show_nat vs @ more \<and> major < 10 ^ 9)"

lemma scan_str_words:
  assumes "words p = t # ts" and "\<forall>c\<in>set t. \<not> isspace c" and "length t < n"
  shows "scan_str n p = Inr (Some (t, after_tok p))"
proof -
  obtain ws where ws: "p = ws @ t @ after_tok p" "\<forall>c\<in>set ws. g_ascii_isspace c" "t \<noteq> []" "sep (after_tok p)"
    using assms(1) by (rule words_ConsE)
  have d: "dropWhile isspace p = t @ after_tok p"
  proof -
    have "dropWhile isspace (ws @ t @ after_tok p) = t @ after_tok p"
      using ws(2,3) assms(2) by (induction ws) (cases t; auto)+
    with ws(1) show ?thesis by simp
  qed
  have "after_tok p = [] \<or> isspace (hd (after_tok p))"
    using ws(4) by (cases "after_tok p") auto
  then have "takeWhile (\<lambda>c. \<not> isspace c) (t @ after_tok p) = t" "dropWhile (\<lambda>c. \<not> isspace c) (t @ after_tok p) = after_tok p"
    using assms(2) by (induction t) (cases "after_tok p"; auto)+
  with d ws(3) assms(3) show ?thesis by (simp add: scan_str_def Let_def)
qed

lemma scan_str_line:
  assumes "words q = t # ts" and "\<forall>c\<in>set t. \<not> isspace c" and "length t < n"
  shows "scan_str n (q @ NL # r) = Inr (Some (t, after_tok q @ NL # r))"
  using scan_str_words [of "q @ NL # r" t "ts @ words r"] words_append [of "NL # r" q] after_tok_append(1) [of q "NL # r"] assms
  by simp

subsection \<open>Disks and their partitions in the list of lsblk\<close>

text \<open>The drives of a machine: for each disk the names of its partitions.\<close>

type_synonym drives = "(string \<times> string list) list"

definition devices :: "drives \<Rightarrow> string list" where
  "devices ds = concat (map (\<lambda>(d, ps). d # ps) ds)"

definition partitions :: "drives \<Rightarrow> string list" where
  "partitions ds = concat (map snd ds)"

definition tree_text :: "drives \<Rightarrow> string" where
  "tree_text ds = unlines (concat (map (\<lambda>(d, ps). (d @ '' disk'') # map (\<lambda>p. p @ '' part'') ps) ds))"

definition drives_ok :: "drives \<Rightarrow> bool" where
  "drives_ok ds \<longleftrightarrow> (\<forall>nm\<in>set (devices ds). dev_name nm) \<and> (\<forall>(d, ps)\<in>set ds. ps \<noteq> [])
     \<and> set (partitions ds) \<inter> fst ` set ds = {}"

lemma primary_loop_line:
  assumes nm: "dev_name nm" and ty: "type \<noteq> []" "\<forall>c\<in>set type. \<not> isspace c" "length type < 256"
  shows "primary_loop junk (nm @ SP # type @ NL # r) p
    = (case write_part junk nm type (tree_step type p) of Inl e \<Rightarrow> Inl e | Inr p \<Rightarrow> primary_loop junk r p)"
proof -
  have g: "\<forall>c\<in>set nm. \<not> g_ascii_isspace c" "\<forall>c\<in>set type. \<not> g_ascii_isspace c"
    using nm ty(2) g_space_isspace unfolding dev_name_def by blast+
  have w: "words (nm @ SP # type) = [nm, type]" "after_tok (nm @ SP # type) = SP # type"
    using words_tok [of "[]" nm "SP # type"] words_tok(1) [of "[]" type "[]"] nm ty(1) g by (simp_all add: dev_name_def)
  have w': "words (SP # type) = [type]" using words_tok [of "[]" type "[]"] ty g by simp
  have n: "\<forall>c\<in>set nm. \<not> isspace c" "length nm < 256" using nm by (simp_all add: dev_name_def)
  have "NL \<notin> set (nm @ SP # type)" using n ty(2) by (auto simp: isspace_def)
  from skip_line_line [OF this, of r] have s: "skip_line (nm @ SP # type @ NL # r) = r" by simp
  have "scan_str 256 (nm @ SP # type @ NL # r) = Inr (Some (nm, SP # type @ NL # r))"
    using scan_str_line [OF w(1) n, of r] w(2) by simp
  moreover have "scan_str 256 (SP # type @ NL # r) = Inr (Some (type, after_tok (SP # type) @ NL # r))"
    using scan_str_line [OF w' ty(2,3), of r] by simp
  ultimately show ?thesis unfolding primary_loop.simps [of junk "nm @ SP # type @ NL # r"] by (simp only: sum.case option.case prod.case s)
qed

lemma tree_disk:
  "tree_step ''disk'' \<lparr>pr_parts = xs @ [e], pr_n = Suc (length xs), pr_tlvl = 1, pr_max = m\<rparr>
    = \<lparr>pr_parts = xs @ [e], pr_n = length xs, pr_tlvl = 0, pr_max = Suc m\<rparr>"
  "tree_step ''disk'' \<lparr>pr_parts = ys, pr_n = n, pr_tlvl = 0, pr_max = m\<rparr> = \<lparr>pr_parts = ys, pr_n = n, pr_tlvl = 0, pr_max = Suc m\<rparr>"
  by (simp_all add: tree_step_def disk_type_def Let_def)

lemma tree_part:
  "tree_step ''part'' \<lparr>pr_parts = xs @ [e], pr_n = Suc (length xs), pr_tlvl = 1, pr_max = m\<rparr>
    = \<lparr>pr_parts = xs @ [e], pr_n = length xs, pr_tlvl = 1, pr_max = m\<rparr>"
  "tree_step ''part'' \<lparr>pr_parts = ys, pr_n = n, pr_tlvl = 0, pr_max = m\<rparr> = \<lparr>pr_parts = ys, pr_n = n, pr_tlvl = 1, pr_max = m\<rparr>"
  by (simp_all add: tree_step_def disk_type_def Let_def)

lemma primary_loop_parts:
  assumes "\<forall>p\<in>set ps. dev_name p" and "Suc (length xs) \<le> GLIBTOP_NDISK"
  shows "\<exists>e'. primary_loop junk (unlines (map (\<lambda>p. p @ '' part'') ps) @ r)
      \<lparr>pr_parts = xs @ [e], pr_n = Suc (length xs), pr_tlvl = 1, pr_max = m\<rparr>
    = primary_loop junk r \<lparr>pr_parts = xs @ [e'], pr_n = Suc (length xs), pr_tlvl = 1, pr_max = m\<rparr>"
  using assms(1)
proof (induction ps arbitrary: e)
  case Nil
  then show ?case by auto
next
  case (Cons p ps)
  have "primary_loop junk (p @ SP # ''part'' @ NL # (unlines (map (\<lambda>p. p @ '' part'') ps) @ r))
      \<lparr>pr_parts = xs @ [e], pr_n = Suc (length xs), pr_tlvl = 1, pr_max = m\<rparr>
    = primary_loop junk (unlines (map (\<lambda>p. p @ '' part'') ps) @ r)
      \<lparr>pr_parts = xs @ [part_entry (junk (length xs)) p ''part''], pr_n = Suc (length xs), pr_tlvl = 1, pr_max = m\<rparr>"
    using assms(2) Cons.prems
    by (subst primary_loop_line) (simp_all add: isspace_def tree_part(1) [simplified] write_part_def Let_def)
  with Cons.IH Cons.prems show ?case by simp
qed

lemma tree_text_Cons:
  "tree_text ((d, p # ps) # ds) @ r
    = d @ SP # ''disk'' @ NL # (p @ SP # ''part'' @ NL # (unlines (map (\<lambda>p. p @ '' part'') ps) @ (tree_text ds @ r)))"
  by (simp add: tree_text_def)

text \<open>What the stack holds behind the output, up to the next NUL, where it adds no row: nothing, or one word.\<close>

definition no_row :: "string \<Rightarrow> bool" where
  "no_row r \<longleftrightarrow> length r < 256 \<and> (\<forall>c\<in>set r. \<not> isspace c)"

lemma primary_loop_no_row: "no_row r \<Longrightarrow> primary_loop junk r p = Inr p"
proof -
  assume "no_row r"
  then have a: "dropWhile isspace r = r" "takeWhile (\<lambda>c. \<not> isspace c) r = r" "dropWhile (\<lambda>c. \<not> isspace c) r = []" "length r < 256"
    by (cases r; simp add: no_row_def)+
  have "scan_str 256 r = Inr (if r = [] then None else Some (r, []))"
    unfolding scan_str_def a Let_def using a(4) by simp
  moreover have "scan_str 256 [] = Inr None" by (simp add: scan_str_def)
  ultimately show ?thesis by (subst primary_loop.simps) simp
qed

text \<open>Each disk takes the place of the partition before it, so that the first \<open>max\<close> elements are the
  disks.\<close>

lemma primary_loop_drives:
  assumes "\<forall>nm\<in>set (devices ds). dev_name nm" and "\<forall>(d, ps)\<in>set ds. ps \<noteq> []"
    and "Suc (length xs + length ds) \<le> GLIBTOP_NDISK" and r: "no_row r"
  shows "\<exists>xs' e'. primary_loop junk (tree_text ds @ r) \<lparr>pr_parts = xs @ [e], pr_n = Suc (length xs), pr_tlvl = 1, pr_max = length xs\<rparr>
      = Inr \<lparr>pr_parts = xs' @ [e'], pr_n = Suc (length xs'), pr_tlvl = 1, pr_max = length xs'\<rparr>
    \<and> map pi_name xs' = map pi_name xs @ map fst ds"
  using assms(1-3)
proof (induction ds arbitrary: xs e)
  case Nil
  show ?case using primary_loop_no_row [OF r] by (simp add: tree_text_def)
next
  case (Cons dp ds)
  obtain d p ps where dp: "dp = (d, p # ps)" using Cons.prems(2) by (cases dp; cases "snd dp") auto
  define xs2 where "xs2 = xs @ [part_entry (junk (length xs)) d ''disk'']"
  define rest where "rest = unlines (map (\<lambda>p. p @ '' part'') ps) @ (tree_text ds @ r)"
  have nm: "dev_name d" "dev_name p" "\<forall>p\<in>set ps. dev_name p" and ds: "\<forall>nm\<in>set (devices ds). dev_name nm"
    using Cons.prems(1) by (auto simp: dp devices_def)
  have len: "Suc (length xs2) \<le> GLIBTOP_NDISK" using Cons.prems(3) by (simp add: xs2_def)
  have "primary_loop junk (d @ SP # ''disk'' @ NL # (p @ SP # ''part'' @ NL # rest))
      \<lparr>pr_parts = xs @ [e], pr_n = Suc (length xs), pr_tlvl = 1, pr_max = length xs\<rparr>
    = primary_loop junk (p @ SP # ''part'' @ NL # rest)
      \<lparr>pr_parts = xs2, pr_n = length xs2, pr_tlvl = 0, pr_max = length xs2\<rparr>"
    using nm(1) len by (subst primary_loop_line)
      (simp_all add: isspace_def tree_disk(1) [simplified] write_part_def Let_def xs2_def)
  also have "\<dots> = primary_loop junk rest
      \<lparr>pr_parts = xs2 @ [part_entry (junk (length xs2)) p ''part''], pr_n = Suc (length xs2), pr_tlvl = 1, pr_max = length xs2\<rparr>"
    using nm(2) len by (subst primary_loop_line)
      (simp_all add: isspace_def tree_part(2) [simplified] write_part_def Let_def)
  also obtain e' where "\<dots> = primary_loop junk (tree_text ds @ r)
      \<lparr>pr_parts = xs2 @ [e'], pr_n = Suc (length xs2), pr_tlvl = 1, pr_max = length xs2\<rparr>"
    using primary_loop_parts [OF nm(3) len, of junk "tree_text ds @ r"] unfolding rest_def by blast
  finally have run: "primary_loop junk (tree_text (dp # ds) @ r) \<lparr>pr_parts = xs @ [e], pr_n = Suc (length xs), pr_tlvl = 1, pr_max = length xs\<rparr>
      = primary_loop junk (tree_text ds @ r) \<lparr>pr_parts = xs2 @ [e'], pr_n = Suc (length xs2), pr_tlvl = 1, pr_max = length xs2\<rparr>"
    using tree_text_Cons [of d p ps ds r] by (simp add: dp rest_def)
  have "map pi_name xs2 = map pi_name xs @ [d]" by (simp add: xs2_def part_entry_def Let_def)
  with Cons.IH [of xs2 e'] ds Cons.prems(2,3) show ?case unfolding run by (simp add: dp xs2_def)
qed

lemma find_primary_part_drives:
  assumes "drives_ok ds" and "length ds < GLIBTOP_NDISK" and r: "no_row r"
  obtains parts where "find_primary_part junk (tree_text ds @ r) = Inr parts"
    and "pi_name ` set (take (pr_max parts) (pr_parts parts)) = fst ` set ds"
proof (cases ds)
  case Nil
  have "find_primary_part junk (tree_text ds @ r) = Inr \<lparr>pr_parts = [], pr_n = 0, pr_tlvl = 0, pr_max = 0\<rparr>"
    using primary_loop_no_row [OF r] by (simp add: find_primary_part_def Nil tree_text_def)
  then show ?thesis using Nil that by simp
next
  case (Cons dp ds')
  obtain d p ps where dp: "dp = (d, p # ps)"
    using assms(1) Cons by (cases dp; cases "snd dp") (auto simp: drives_ok_def)
  define xs where "xs = [part_entry (junk 0) d ''disk'']"
  define rest where "rest = unlines (map (\<lambda>p. p @ '' part'') ps) @ (tree_text ds' @ r)"
  have nm: "dev_name d" "dev_name p" "\<forall>p\<in>set ps. dev_name p" and ds: "\<forall>nm\<in>set (devices ds'). dev_name nm"
    "\<forall>(d, ps)\<in>set ds'. ps \<noteq> []"
    using assms(1) by (auto simp: Cons dp devices_def drives_ok_def)
  have "find_primary_part junk (tree_text ds @ r)
    = primary_loop junk (d @ SP # ''disk'' @ NL # (p @ SP # ''part'' @ NL # rest)) \<lparr>pr_parts = [], pr_n = 0, pr_tlvl = 0, pr_max = 0\<rparr>"
    using tree_text_Cons [of d p ps ds' r] by (simp add: find_primary_part_def Cons dp rest_def)
  also have "\<dots> = primary_loop junk (p @ SP # ''part'' @ NL # rest) \<lparr>pr_parts = xs, pr_n = 1, pr_tlvl = 0, pr_max = 1\<rparr>"
    using nm(1) by (subst primary_loop_line)
      (simp_all add: isspace_def tree_disk(2) [simplified] write_part_def Let_def xs_def)
  also have "\<dots> = primary_loop junk rest
      \<lparr>pr_parts = xs @ [part_entry (junk (length xs)) p ''part''], pr_n = Suc (length xs), pr_tlvl = 1, pr_max = length xs\<rparr>"
    using nm(2) by (subst primary_loop_line)
      (simp_all add: isspace_def tree_part(2) [simplified] write_part_def Let_def xs_def)
  also obtain e' where "\<dots> = primary_loop junk (tree_text ds' @ r) \<lparr>pr_parts = xs @ [e'], pr_n = Suc (length xs), pr_tlvl = 1, pr_max = length xs\<rparr>"
    using primary_loop_parts [OF nm(3), of xs junk "tree_text ds' @ r"] unfolding rest_def by (auto simp: xs_def)
  finally have run: "find_primary_part junk (tree_text ds @ r)
    = primary_loop junk (tree_text ds' @ r) \<lparr>pr_parts = xs @ [e'], pr_n = Suc (length xs), pr_tlvl = 1, pr_max = length xs\<rparr>" .
  have "Suc (length xs + length ds') \<le> GLIBTOP_NDISK" using assms(2) by (simp add: Cons xs_def)
  from primary_loop_drives [OF ds this r, of junk e'] obtain xs' e''
    where x: "find_primary_part junk (tree_text ds @ r) = Inr \<lparr>pr_parts = xs' @ [e''], pr_n = Suc (length xs'), pr_tlvl = 1, pr_max = length xs'\<rparr>"
      and n: "map pi_name xs' = map pi_name xs @ map fst ds'" unfolding run by blast
  have "pi_name ` set xs' = fst ` set ds"
    using arg_cong [OF n, of set] by (simp add: Cons dp xs_def part_entry_def Let_def)
  with x that show ?thesis by simp
qed

subsection \<open>The rows\<close>

definition disk_row :: "glibtop_disk \<Rightarrow> nat \<Rightarrow> guint64 list" where
  "disk_row b i = [xdisk_sectors_read b i, xdisk_time_read b i, xdisk_sectors_write b i, xdisk_time_write b i]"

definition counters :: "nat list \<Rightarrow> guint64 list" where
  \<comment> \<open>sectors read, time reading, sectors written, time writing\<close>
  "counters vs = [of_nat (vs ! 2), of_nat (vs ! 3), of_nat (vs ! 6), of_nat (vs ! 7)]"

lemma skip_two: "skip_multiple_token p 2 = skip_token (skip_token p)"
  by (simp add: numeral_2_eq_2)

lemma disk_line_stat:
  assumes "stat_line nm vs l"
  shows "\<exists>b'. disk_line i (skip_multiple_token (l @ NL # r) 2) b = (b', r)
    \<and> disk_row b' = (disk_row b)(i := counters vs) \<and> dk_flags b' = dk_flags b"
proof -
  have "length vs = Suc (Suc (Suc (Suc (Suc (Suc (Suc (Suc 0)))))))" using assms by (simp add: stat_line_def)
  then obtain a b' c d e f g h where vs: "vs = [a, b', c, d, e, f, g, h]" unfolding length_Suc_conv by blast
  obtain major minor more where w: "words l = show_nat major # minor # nm # map show_nat vs @ more" and nl: "NL \<notin> set l"
    using assms by (auto simp: stat_line_def)
  have bd: "a < 2 ^ 64" "b' < 2 ^ 64" "c < 2 ^ 64" "d < 2 ^ 64" "e < 2 ^ 64" "f < 2 ^ 64" "g < 2 ^ 64" "h < 2 ^ 64"
    using assms by (auto simp: stat_line_def vs)
  show ?thesis
    using nl bd by (simp add: disk_line_def skip_two ctext w vs counters_def disk_row_def Let_def fun_eq_iff)
qed

lemma virtual_line:
  assumes "stat_line nm vs l"
  shows "is_virtual_drive parts (skip_multiple_token (l @ NL # r) 2)
    = Inr (nm \<notin> pi_name ` set (take (pr_max parts) (pr_parts parts)))"
proof -
  obtain major minor more where w: "words l = show_nat major # minor # nm # map show_nat vs @ more"
    using assms by (auto simp: stat_line_def)
  have nm: "\<forall>c\<in>set nm. \<not> isspace c" "length nm < 256" using assms by (simp_all add: stat_line_def dev_name_def)
  let ?q = "skip_token (skip_token l)"
  have "skip_multiple_token (l @ NL # r) 2 = ?q @ NL # r" by (simp add: skip_two ctext w)
  moreover have "words ?q = nm # map show_nat vs @ more" by (simp add: ctext w)
  ultimately show ?thesis
    using scan_str_line [of ?q nm _ 256 r] nm by (simp add: is_virtual_drive_def)
qed

text \<open>What the loop has written: the rows from \<open>i\<close> on are those of the devices \<open>ps\<close>, the others are kept.\<close>

definition filled :: "(string \<Rightarrow> nat list) \<Rightarrow> nat \<Rightarrow> string list \<Rightarrow> glibtop_disk \<Rightarrow> glibtop_disk \<Rightarrow> bool" where
  "filled vs i ps b b' \<longleftrightarrow> dk_flags b' = dk_flags b
     \<and> (\<forall>j. disk_row b' j = (if i \<le> j \<and> j < i + length ps then counters (vs (ps ! (j - i))) else disk_row b j))"

lemma filled_Nil: "filled vs i [] b b"
  by (auto simp: filled_def)

lemma filled_append: "filled vs i ps b b' \<Longrightarrow> filled vs (i + length ps) qs b' b'' \<Longrightarrow> filled vs i (ps @ qs) b b''"
  by (auto simp: filled_def nth_append)

lemma filled_Cons:
  "disk_row b' = (disk_row b)(i := counters (vs p)) \<Longrightarrow> dk_flags b' = dk_flags b \<Longrightarrow> filled vs (Suc i) ps b' b''
    \<Longrightarrow> filled vs i (p # ps) b b''"
  using filled_append [of vs i "[p]" b b' ps b''] by (simp add: filled_def)

lemma disk_loop_part:
  assumes "stat_line nm (vs nm) (line nm)" and "nm \<notin> pi_name ` set (take (pr_max parts) (pr_parts parts))"
    and "i < ndisk" "i < GLIBTOP_NDISK"
  shows "\<exists>b'. disk_loop parts i ndisk (line nm @ NL # r) b = disk_loop parts (Suc i) ndisk r b'
    \<and> disk_row b' = (disk_row b)(i := counters (vs nm)) \<and> dk_flags b' = dk_flags b"
  using disk_line_stat [OF assms(1), of i r b] virtual_line [OF assms(1), of parts r] assms(2-4)
  by (subst disk_loop.simps) auto

lemma disk_loop_parts:
  assumes "\<forall>nm\<in>set ps. stat_line nm (vs nm) (line nm) \<and> nm \<notin> pi_name ` set (take (pr_max parts) (pr_parts parts))"
    and "i + length ps \<le> GLIBTOP_NDISK" "i + length ps \<le> ndisk"
  shows "\<exists>b'. disk_loop parts i ndisk (unlines (map line ps) @ r) b = disk_loop parts (i + length ps) ndisk r b'
    \<and> filled vs i ps b b'"
  using assms
proof (induction ps arbitrary: i b)
  case Nil
  then show ?case using filled_Nil by auto
next
  case (Cons p ps)
  obtain b1 where b1: "disk_loop parts i ndisk (line p @ NL # unlines (map line ps) @ r) b
      = disk_loop parts (Suc i) ndisk (unlines (map line ps) @ r) b1"
    "disk_row b1 = (disk_row b)(i := counters (vs p))" "dk_flags b1 = dk_flags b"
    using disk_loop_part [of p vs line parts i ndisk "unlines (map line ps) @ r" b] Cons.prems by auto
  obtain b2 where "disk_loop parts (Suc i) ndisk (unlines (map line ps) @ r) b1 = disk_loop parts (Suc i + length ps) ndisk r b2"
    "filled vs (Suc i) ps b1 b2" using Cons.IH [of "Suc i" b1] Cons.prems by auto
  with b1(1) filled_Cons [where vs = vs and p = p and i = i, OF b1(2,3)] show ?case by auto
qed

text \<open>A disk costs one of the lines; the line behind it is read without a look at its name.\<close>

lemma disk_loop_disk:
  assumes "stat_line d (vs d) (line d)" "d \<in> pi_name ` set (take (pr_max parts) (pr_parts parts))"
    and "stat_line p (vs p) (line p)" and "i < ndisk" "i < GLIBTOP_NDISK"
  shows "\<exists>b'. disk_loop parts i ndisk (line d @ NL # line p @ NL # r) b = disk_loop parts (Suc i) (ndisk - 1) r b'
    \<and> disk_row b' = (disk_row b)(i := counters (vs p)) \<and> dk_flags b' = dk_flags b"
proof -
  obtain major minor more where w: "words (line d) = show_nat major # minor # d # map show_nat (vs d) @ more" and nl: "NL \<notin> set (line d)"
    using assms(1) by (auto simp: stat_line_def)
  have "skip_line (skip_multiple_token (line d @ NL # line p @ NL # r) 2) = line p @ NL # r"
    by (simp add: skip_two ctext w nl)
  with disk_line_stat [OF assms(3), of i r b] virtual_line [OF assms(1), of parts "line p @ NL # r"] assms(2,4,5)
  show ?thesis by (subst disk_loop.simps) auto
qed

lemma disk_loop_drives:
  assumes "\<forall>nm\<in>set (devices ds). stat_line nm (vs nm) (line nm)" and "\<forall>(d, ps)\<in>set ds. ps \<noteq> []"
    and "fst ` set ds \<subseteq> N" "set (partitions ds) \<inter> N = {}"
    and N: "N = pi_name ` set (take (pr_max parts) (pr_parts parts))"
    and "i + length (partitions ds) \<le> GLIBTOP_NDISK"
  shows "\<exists>b'. disk_loop parts i (i + length (devices ds)) (unlines (map line (devices ds))) b
      = Inr (b', i + length (partitions ds)) \<and> filled vs i (partitions ds) b b'"
  using assms(1-4,6)
proof (induction ds arbitrary: i b)
  case Nil
  have "disk_loop parts i i [] b = Inr (b, i)" by (subst disk_loop.simps) simp
  then show ?case using filled_Nil by (auto simp: devices_def partitions_def)
next
  case (Cons dp ds)
  obtain d p ps where dp: "dp = (d, p # ps)" using Cons.prems(2) by (cases dp; cases "snd dp") auto
  define n where "n = length (devices ds)"
  define rest where "rest = unlines (map line (devices ds))"
  have dev: "devices (dp # ds) = d # p # ps @ devices ds" and part: "partitions (dp # ds) = p # ps @ partitions ds"
    by (simp_all add: dp devices_def partitions_def)
  note prems = Cons.prems [unfolded dev part]
  obtain b1 where b1: "disk_loop parts i (i + Suc (Suc (length ps + n))) (line d @ NL # line p @ NL # (unlines (map line ps) @ rest)) b
      = disk_loop parts (Suc i) (i + Suc (length ps + n)) (unlines (map line ps) @ rest) b1"
    "disk_row b1 = (disk_row b)(i := counters (vs p))" "dk_flags b1 = dk_flags b"
    using disk_loop_disk [of d vs line parts p i "i + Suc (Suc (length ps + n))" "unlines (map line ps) @ rest" b]
      prems(1,3,5) by (auto simp: dp N)
  obtain b2 where b2: "disk_loop parts (Suc i) (i + Suc (length ps + n)) (unlines (map line ps) @ rest) b1
      = disk_loop parts (Suc i + length ps) (i + Suc (length ps + n)) rest b2" "filled vs (Suc i) ps b1 b2"
    using disk_loop_parts [of ps vs line parts "Suc i" "i + Suc (length ps + n)" rest b1] prems(1,4,5)
    by (auto simp: N)
  have "\<forall>nm\<in>set (devices ds). stat_line nm (vs nm) (line nm)" "\<forall>(d, ps)\<in>set ds. ps \<noteq> []" "fst ` set ds \<subseteq> N"
    "set (partitions ds) \<inter> N = {}" "(Suc i + length ps) + length (partitions ds) \<le> GLIBTOP_NDISK"
    using prems by auto
  from Cons.IH [OF this, of b2] obtain b3
    where b3: "disk_loop parts (Suc i + length ps) (Suc i + length ps + n) rest b2 = Inr (b3, Suc i + length ps + length (partitions ds))"
      "filled vs (Suc i + length ps) (partitions ds) b2 b3" unfolding n_def rest_def by blast
  have "filled vs i (p # ps @ partitions ds) b b3"
    using filled_Cons [where vs = vs and p = p and i = i, OF b1(2,3)] filled_append [OF b2(2)] b3(2) by simp
  moreover have "disk_loop parts i (i + length (devices (dp # ds))) (unlines (map line (devices (dp # ds)))) b
      = Inr (b3, i + length (partitions (dp # ds)))"
    unfolding dev part using b1(1) b2(1) b3(1) by (simp add: n_def rest_def add.assoc)
  ultimately show ?case unfolding part by blast
qed

lemma max_lines_stat:
  "\<forall>l\<in>set ls. \<exists>nm vs. stat_line nm vs l \<Longrightarrow> max_lines (unlines ls) = Inr (length ls)"
proof (induction ls)
  case Nil
  show ?case by (subst max_lines.simps) (simp add: scan_str_def)
next
  case (Cons l ls)
  obtain major ts where l: "words l = show_nat major # ts" "major < 10 ^ 9" "NL \<notin> set l"
    using Cons.prems by (auto simp: stat_line_def)
  have "length (show_nat major) < 10" using length_show_nat [of major 8] l(2) by simp
  moreover have "\<forall>c\<in>set (show_nat major). \<not> isspace c" using show_nat_no_space by blast
  ultimately show ?case
    using scan_str_line [OF l(1), of 10 "unlines ls"] Cons l(3)
    by (subst max_lines.simps) (simp add: ctext)
qed

text \<open>
  C23. The counters of the partitions: on a machine without LVM and RAID where every disk has partitions, where \<open>lsblk\<close> prints each
  disk followed by its partitions and \<open>/proc/diskstats\<close> has a line for each of them in the same order, \<open>glibtop_get_disk_s\<close> leaves out the
  disks and returns, in order, the sectors and times of their partitions; \<open>ndisk\<close> is the number of
  partitions, and all rows behind the last one are 0. The flags of the struct are not set. \<open>get_from_pipe\<close> puts no NUL behind
  the output, so that this holds where the stack has there, up to a NUL, at most one word; where it has no NUL,
  the code reads behind the buffer.
\<close>

theorem disk_spec:
  assumes ds: "drives_ok ds" and stat: "\<forall>nm\<in>set (devices ds). stat_line nm (vs nm) (line nm)"
    and len: "length ds < GLIBTOP_NDISK" "length (partitions ds) \<le> GLIBTOP_NDISK"
    and diskstats: "file_to_buffer K DISK_BUFSIZ ''/proc/diskstats'' = Inr (unlines (map line (devices ds)))"
    and pipe: "length (tree_text ds) < DISK_BUFSIZ" "length (fst stack) = DISK_BUFSIZ"
    and behind: "behind = drop (length (tree_text ds)) (fst stack)"
  shows "(NUL \<in> set behind \<longrightarrow> no_row (c_str behind) \<longrightarrow>
      (\<exists>buf. glibtop_get_disk_s K (Some (tree_text ds)) stack server = Inr (buf, server\<lparr>s_ndisk := int (length (partitions ds))\<rparr>)
        \<and> (\<forall>j. disk_row buf j = (if j < length (partitions ds) then counters (vs (partitions ds ! j)) else [0, 0, 0, 0]))
        \<and> dk_flags buf = 0))
    \<and> (NUL \<notin> set behind \<longrightarrow>
        glibtop_get_disk_s K (Some (tree_text ds)) stack server = Inl (Crash ''read behind the buffer''))"
proof -
  have lines: "max_lines (unlines (map line (devices ds))) = Inr (length (devices ds))"
    using max_lines_stat [of "map line (devices ds)"] stat by auto
  have "\<forall>(d, ps)\<in>set ds. NUL \<notin> set d \<and> (\<forall>p\<in>set ps. NUL \<notin> set p)"
    using ds unfolding drives_ok_def devices_def dev_name_def by (auto split: prod.splits)
  then have no: "NUL \<notin> set (tree_text ds)" by (auto simp: tree_text_def)
  have m: "get_from_pipe (fst stack) DISK_BUFSIZ (Some (tree_text ds)) = Inr (tree_text ds @ behind)"
    using pipe(1) by (simp add: get_from_pipe_def behind)
  have "c_str (tree_text ds @ behind) = tree_text ds @ c_str behind" if "NUL \<in> set behind"
    using no unfolding c_str_def by (intro takeWhile_append2) metis
  then have b: "buffer_str (tree_text ds @ behind) = (if NUL \<in> set behind then Inr (tree_text ds @ c_str behind)
      else Inl (Crash ''read behind the buffer''))" using no by (auto simp: buffer_str_def)
  have "\<exists>buf. glibtop_get_disk_s K (Some (tree_text ds)) stack server = Inr (buf, server\<lparr>s_ndisk := int (length (partitions ds))\<rparr>)
        \<and> filled vs 0 (partitions ds) disk_zero buf" if nul: "NUL \<in> set behind" and row: "no_row (c_str behind)"
  proof -
    obtain parts where parts: "find_primary_part (snd stack) (tree_text ds @ c_str behind) = Inr parts"
      "pi_name ` set (take (pr_max parts) (pr_parts parts)) = fst ` set ds"
      using find_primary_part_drives [OF ds len(1) row] by blast
    have "\<forall>(d, ps)\<in>set ds. ps \<noteq> []" "set (partitions ds) \<inter> fst ` set ds = {}" using ds by (simp_all add: drives_ok_def)
    moreover have "0 + length (partitions ds) \<le> GLIBTOP_NDISK" using len(2) by simp
    ultimately obtain buf where "disk_loop parts 0 (length (devices ds)) (unlines (map line (devices ds))) disk_zero
      = Inr (buf, length (partitions ds))" "filled vs 0 (partitions ds) disk_zero buf"
      using disk_loop_drives [OF stat _ subset_refl _ parts(2) [symmetric], of 0 disk_zero] unfolding add_0 by blast
    then show ?thesis
      unfolding glibtop_get_disk_s_def diskstats bind_res.simps lines m b using nul
      by (intro exI [of _ buf]) (simp add: parts(1) del: map_map)
  qed
  moreover have "glibtop_get_disk_s K (Some (tree_text ds)) stack server = Inl (Crash ''read behind the buffer'')" if "NUL \<notin> set behind"
    unfolding glibtop_get_disk_s_def diskstats bind_res.simps lines m b using that by simp
  moreover have "(\<forall>j. disk_row buf j = (if j < length (partitions ds) then counters (vs (partitions ds ! j)) else [0, 0, 0, 0]))
      \<and> dk_flags buf = 0" if "filled vs 0 (partitions ds) disk_zero buf" for buf
    using that by (simp add: filled_def disk_zero_def disk_row_def)
  ultimately show ?thesis by blast
qed

definition demo_drives :: drives where
  "demo_drives = [(''sda'', [''sda1'', ''sda2'']), (''sdb'', [''sdb1''])]"

definition demo_counters :: "string \<Rightarrow> nat list" where
  "demo_counters nm = (if nm = ''sda1'' then [1, 0, 64, 5, 2, 0, 128, 9] else if nm = ''sdb1'' then [4, 0, 8, 7, 0, 0, 0, 0]
     else [9, 9, 9, 9, 9, 9, 9, 9])"

definition demo_line :: "string \<Rightarrow> string" where
  "demo_line nm = ''   8       0 '' @ nm @ concat (map (\<lambda>v. SP # show_nat v) (demo_counters nm @ [0, 16, 14]))"

lemma demo_stat_lines: "\<forall>nm\<in>set (devices demo_drives). stat_line nm (demo_counters nm) (demo_line nm)"
proof -
  have "list_all (\<lambda>nm. NL \<notin> set (demo_line nm) \<and> length (demo_counters nm) = 8
     \<and> words (demo_line nm) = show_nat 8 # ''0'' # nm # map show_nat (demo_counters nm) @ [''0'', ''16'', ''14''])
       (devices demo_drives)" by code_simp
  moreover have "\<forall>nm\<in>set (devices demo_drives). dev_name nm \<and> (\<forall>v\<in>set (demo_counters nm). v < 2 ^ 64)"
    by (simp add: devices_def demo_drives_def dev_name_def demo_counters_def isspace_def)
  moreover have "(8 :: nat) < 10 ^ 9" by simp
  ultimately show ?thesis unfolding stat_line_def list_all_iff by metis
qed

theorem disk_spec_witness:
  "\<exists>buf. glibtop_get_disk_s (file_kernel [(''/proc/diskstats'', unlines (map demo_line (devices demo_drives)))])
      (Some (tree_text demo_drives)) (replicate DISK_BUFSIZ NUL, \<lambda>_. []) glibtop_global_server
      = Inr (buf, glibtop_global_server\<lparr>s_ndisk := 3\<rparr>)
    \<and> disk_row buf 0 = [64, 5, 128, 9] \<and> disk_row buf 2 = [8, 7, 0, 0] \<and> disk_row buf 3 = [0, 0, 0, 0]"
proof -
  let ?text = "unlines (map demo_line (devices demo_drives))" and ?ps = "partitions demo_drives"
  let ?K = "file_kernel [(''/proc/diskstats'', ?text)]"
  have ds: "drives_ok demo_drives"
    by (simp add: drives_ok_def demo_drives_def devices_def partitions_def dev_name_def isspace_def)
  have ps: "?ps = [''sda1'', ''sda2'', ''sdb1'']" by (simp add: demo_drives_def partitions_def)
  have len: "length demo_drives < GLIBTOP_NDISK" "length ?ps \<le> GLIBTOP_NDISK" using ps by (simp add: demo_drives_def, simp)
  have "length ?text < 1000" "NUL \<notin> set ?text" by code_simp+
  then have diskstats: "file_to_buffer ?K DISK_BUFSIZ ''/proc/diskstats'' = Inr ?text"
    by (simp add: file_to_buffer_def file_kernel_buffer)
  have "length (tree_text demo_drives) < 100" by code_simp
  then have pipe: "length (tree_text demo_drives) < DISK_BUFSIZ" "length (fst (replicate DISK_BUFSIZ NUL, \<lambda>_. [])) = DISK_BUFSIZ"
    by simp_all
  define n where "n = DISK_BUFSIZ - length (tree_text demo_drives)"
  have behind: "replicate n NUL = drop (length (tree_text demo_drives)) (fst (replicate DISK_BUFSIZ NUL, \<lambda>_ :: nat. [] :: string))"
    by (simp only: n_def drop_replicate fst_conv)
  have "0 < n" using pipe(1) by (simp only: n_def zero_less_diff)
  then have "NUL \<in> set (replicate n NUL)" "no_row (c_str (replicate n NUL))"
    by (simp, cases n, simp_all add: no_row_def c_str_def)
  obtain buf where buf: "glibtop_get_disk_s ?K (Some (tree_text demo_drives)) (replicate DISK_BUFSIZ NUL, \<lambda>_. []) glibtop_global_server
      = Inr (buf, glibtop_global_server\<lparr>s_ndisk := int (length ?ps)\<rparr>)"
    "\<forall>j. disk_row buf j = (if j < length ?ps then counters (demo_counters (?ps ! j)) else [0, 0, 0, 0])"
    using \<open>NUL \<in> set (replicate n NUL)\<close> \<open>no_row (c_str (replicate n NUL))\<close> disk_spec [OF ds demo_stat_lines len diskstats pipe behind, of glibtop_global_server] by blast
  show ?thesis
    using buf by (intro exI [of _ buf]) (simp add: ps counters_def demo_counters_def)
qed

end
