(* ===== verification/Structs.thy ===== *)
theory Structs
  imports Client SysStat ProcInfo ProcList ProcMap Net OpenFiles FileSystems SysLimits Disk
begin

unbundle bit_operations_syntax

text \<open>
  What every port shares when it is seen from the protocol: the structs that its getters fill as they
  lie in memory (\<open>include/glibtop/*.h\<close>, LP64, little endian), and the arguments that a call carries.
\<close>

section \<open>Structs in memory\<close>

text \<open>A member that is a character array, zeroed behind the string; the padding is zero since every
  getter starts with \<open>memset\<close>.\<close>

definition chars :: "nat \<Rightarrow> string \<Rightarrow> string" where
  "chars n s = take n (s @ replicate n NUL)"

lemma length_chars [simp]: "length (chars n s) = n"
  by (simp add: chars_def)

fun u32s_bytes :: "32 word list \<Rightarrow> string" where
  "u32s_bytes [] = []"
| "u32s_bytes (w # ws) = u32_bytes w @ u32s_bytes ws"

lemma length_u32s_bytes [simp]: "length (u32s_bytes ws) = 4 * length ws"
  by (induction ws) auto

definition cpu_bytes :: "glibtop_cpu \<Rightarrow> string" where
  "cpu_bytes b = u64s_bytes [cpu_flags b, cpu_total b, cpu_user b, cpu_nice b, cpu_sys b, cpu_idle b, cpu_iowait b,
       cpu_irq b, cpu_softirq b, cpu_frequency b]
     @ concat (map (\<lambda>x. u64s_bytes (map x [0..<GLIBTOP_NCPU]))
         [xcpu_total b, xcpu_user b, xcpu_nice b, xcpu_sys b, xcpu_idle b, xcpu_iowait b, xcpu_irq b, xcpu_softirq b])
     @ u64_bytes 0"

definition mem_bytes :: "glibtop_mem \<Rightarrow> string" where
  "mem_bytes b = u64s_bytes [mem_flags b, mem_total b, mem_used b, mem_free b, mem_shared b, mem_buffer b, mem_cached b,
     mem_user b, mem_locked b]"

definition swap_bytes :: "glibtop_swap \<Rightarrow> string" where
  "swap_bytes b = u64s_bytes [swap_flags b, swap_total b, swap_used b, swap_free b, swap_pagein b, swap_pageout b]"

text \<open>A \<open>double\<close> is its 64 bits.\<close>

definition uptime_bytes :: "64 word glibtop_uptime \<Rightarrow> string" where
  "uptime_bytes b = u64s_bytes [uptime_flags b, uptime_uptime b, uptime_idletime b, uptime_boot_time b]"

definition loadavg_bytes :: "64 word glibtop_loadavg \<Rightarrow> string" where
  "loadavg_bytes b = u64s_bytes [la_flags b, fst (la_loadavg b), fst (snd (la_loadavg b)), snd (snd (la_loadavg b)),
     la_nr_running b, la_nr_tasks b, la_last_pid b]"

definition shm_bytes :: "glibtop_shm_limits \<Rightarrow> string" where
  "shm_bytes b = u64s_bytes [shm_flags b, shm_shmmax b, shm_shmmin b, shm_shmmni b, shm_shmseg b, shm_shmall b]"

definition msg_bytes :: "glibtop_msg_limits \<Rightarrow> string" where
  "msg_bytes b = u64s_bytes [msg_flags b, msg_msgpool b, msg_msgmap b, msg_msgmax b, msg_msgmnb b, msg_msgmni b,
     msg_msgssz b, msg_msgtql b]"

definition sem_bytes :: "glibtop_sem_limits \<Rightarrow> string" where
  "sem_bytes b = u64s_bytes [sem_flags b, sem_semmap b, sem_semmni b, sem_semmns b, sem_semmnu b, sem_semmsl b,
     sem_semopm b, sem_semume b, sem_semusz b, sem_semvmx b, sem_semaem b]"

definition proclist_bytes :: "glibtop_proclist \<Rightarrow> string" where
  "proclist_bytes b = u64s_bytes [pl_flags b, pl_number b, pl_total b, pl_size b]"

definition proc_state_bytes :: "glibtop_proc_state \<Rightarrow> string" where
  "proc_state_bytes b = u64_bytes (ps_flags b) @ chars 40 (ps_cmd b)
     @ u32s_bytes [ps_state b, ps_uid b, ps_gid b, 0, 0, 0, 0, ps_last_processor b]"

definition proc_uid_bytes :: "glibtop_proc_uid \<Rightarrow> string" where
  "proc_uid_bytes b = u64_bytes (pu_flags b)
     @ u32s_bytes [pu_uid b, pu_euid b, pu_gid b, pu_egid b, 0, 0, 0, 0, pu_pid b, pu_ppid b, pu_pgrp b, pu_session b,
         pu_tty b, pu_tpgid b, pu_priority b, pu_nice b, 0]
     @ u32s_bytes (replicate 64 0) @ chars 4 []"

definition proc_mem_bytes :: "glibtop_proc_mem \<Rightarrow> string" where
  "proc_mem_bytes b = u64s_bytes [ProcInfo.pm_flags b, ProcInfo.pm_size b, pm_vsize b, pm_resident b, pm_share b, pm_rss b,
     pm_rss_rlim b]"

definition proc_time_bytes :: "glibtop_proc_time \<Rightarrow> string" where
  "proc_time_bytes b = u64s_bytes [pt_flags b, pt_start_time b, pt_rtime b, pt_utime b, pt_stime b, pt_cutime b,
       pt_cstime b, pt_timeout b, pt_it_real_value b, pt_frequency b]
     @ u64s_bytes (map (pt_xcpu_utime b) [0..<GLIBTOP_NCPU]) @ u64s_bytes (map (pt_xcpu_stime b) [0..<GLIBTOP_NCPU])"

definition proc_signal_bytes :: "glibtop_proc_signal \<Rightarrow> string" where
  "proc_signal_bytes b = u64s_bytes [ProcInfo.pi_flags b, pi_signal b, 0, pi_blocked b, 0, pi_sigignore b, 0, pi_sigcatch b, 0]"

definition proc_kernel_bytes :: "glibtop_proc_kernel \<Rightarrow> string" where
  "proc_kernel_bytes b = u64s_bytes [pk_flags b, pk_k_flags b, pk_min_flt b, pk_maj_flt b, pk_cmin_flt b, pk_cmaj_flt b,
     pk_kstk_esp b, pk_kstk_eip b, pk_nwchan b] @ chars 40 (pk_wchan b)"

definition proc_segment_bytes :: "glibtop_proc_segment \<Rightarrow> string" where
  "proc_segment_bytes b = u64s_bytes [pg_flags b, pg_text_rss b, pg_shlib_rss b, pg_data_rss b, pg_stack_rss b,
     pg_dirty_size b, pg_start_code b, pg_end_code b, pg_start_stack b]"

definition proc_args_bytes :: "glibtop_proc_args \<Rightarrow> string" where
  "proc_args_bytes b = u64s_bytes [pa_flags b, pa_size b]"

definition proc_map_bytes :: "glibtop_proc_map \<Rightarrow> string" where
  "proc_map_bytes b = u64s_bytes [pm_flags b, pm_number b, pm_total b, pm_size b]"

definition map_entry_bytes :: "glibtop_map_entry \<Rightarrow> string" where
  "map_entry_bytes e = u64s_bytes ([me_flags e, me_start e, me_end e, me_offset e, me_perm e, me_inode e, me_device e]
       @ map (me_smaps e) [SMAP_size, SMAP_rss, SMAP_shared_clean, SMAP_shared_dirty, SMAP_private_clean,
           SMAP_private_dirty, SMAP_pss, SMAP_swap]) @ chars 216 (me_filename e)"

definition mountlist_bytes :: "glibtop_mountlist \<Rightarrow> string" where
  "mountlist_bytes b = u64s_bytes [ml_flags b, ml_number b, ml_total b, ml_size b]"

definition mountentry_bytes :: "glibtop_mountentry \<Rightarrow> string" where
  "mountentry_bytes e = u64_bytes (mo_dev e) @ chars 80 (mo_devname e) @ chars 80 (mo_mountdir e) @ chars 80 (mo_type e)"

definition fsusage_bytes :: "glibtop_fsusage \<Rightarrow> string" where
  "fsusage_bytes b = u64s_bytes [fu_flags b, fu_blocks b, fu_bfree b, fu_bavail b, fu_files b, fu_ffree b]
     @ u32_bytes (fu_block_size b) @ chars 4 [] @ u64s_bytes [fu_read b, fu_write b]"

definition netload_bytes :: "glibtop_netload \<Rightarrow> string" where
  "netload_bytes b = u64s_bytes [nl_flags b, nl_if_flags b] @ u32s_bytes [nl_mtu b, nl_subnet b, nl_address b] @ chars 4 []
     @ u64s_bytes [packets_in b, packets_out b, packets_total b, bytes_in b, bytes_out b, bytes_total b, errors_in b,
         errors_out b, errors_total b, collisions b]
     @ chars 16 (address6 b) @ chars 16 (prefix6 b) @ [char_of (scope6 b)] @ chars 8 (hwaddress b) @ chars 7 []"

definition netlist_bytes :: "glibtop_netlist \<Rightarrow> string" where
  "netlist_bytes b = u64_bytes (nli_flags b) @ u32_bytes (nli_number b) @ chars 4 []"

definition ppp_bytes :: "glibtop_ppp \<Rightarrow> string" where
  "ppp_bytes b = u64s_bytes [ppp_flags b, ppp_state b, ppp_bytes_in b, ppp_bytes_out b]"

definition open_files_bytes :: "glibtop_proc_open_files \<Rightarrow> string" where
  "open_files_bytes b = u64s_bytes [of_flags b, of_number b, of_total b, of_size b]"

fun info_bytes :: "file_info \<Rightarrow> string" where
  "info_bytes NoInfo = chars 216 []"
| "info_bytes (SockInfo host port) = chars 48 (chars 47 host) @ u32_bytes port @ chars 164 []"
| "info_bytes (FileInfo nm) = chars 216 nm"
| "info_bytes (LocalInfo nm) = chars 216 nm"

definition open_entry_bytes :: "glibtop_open_files_entry \<Rightarrow> string" where
  "open_entry_bytes e = u32_bytes (fe_fd e) @ u16_bytes (fe_type e) @ chars 2 [] @ info_bytes (fe_info e)"

definition proc_wd_bytes :: "glibtop_proc_wd \<Rightarrow> string" where
  "proc_wd_bytes b = u64_bytes (wd_flags b) @ u32_bytes (wd_number b) @ chars 216 (wd_root b) @ chars 216 (wd_exe b) @ chars 4 []"

definition affinity_bytes :: "glibtop_proc_affinity \<Rightarrow> string" where
  "affinity_bytes b = u64_bytes (af_flags b) @ u32_bytes (af_number b) @ u32_bytes (if af_all b then 1 else 0)"

definition proc_io_bytes :: "glibtop_proc_io \<Rightarrow> string" where
  "proc_io_bytes b = u64s_bytes [pio_flags b, pio_disk_rchar b, pio_disk_wchar b, pio_disk_rbytes b, pio_disk_wbytes b]
     @ u64s_bytes (replicate 10 0)"

definition disk_bytes :: "glibtop_disk \<Rightarrow> string" where
  "disk_bytes b = u64_bytes (dk_flags b)
     @ concat (map (\<lambda>x. u64s_bytes (map x [0..<GLIBTOP_NDISK]))
         [xdisk_sectors_read b, xdisk_time_read b, xdisk_sectors_write b, xdisk_time_write b])
     @ u64_bytes 0"

lemmas bytes_defs = cpu_bytes_def mem_bytes_def swap_bytes_def uptime_bytes_def loadavg_bytes_def shm_bytes_def
  msg_bytes_def sem_bytes_def proclist_bytes_def proc_state_bytes_def proc_uid_bytes_def proc_mem_bytes_def
  proc_time_bytes_def proc_signal_bytes_def proc_kernel_bytes_def proc_segment_bytes_def proc_args_bytes_def
  proc_map_bytes_def mountlist_bytes_def fsusage_bytes_def netload_bytes_def netlist_bytes_def ppp_bytes_def
  open_files_bytes_def proc_wd_bytes_def affinity_bytes_def proc_io_bytes_def disk_bytes_def

section \<open>Blocks\<close>

lemma length_concat_map: "(\<And>x. x \<in> set xs \<Longrightarrow> length (f x) = n) \<Longrightarrow> length (concat (map f xs)) = n * length xs"
  by (induction xs) auto

lemma length_map_entry_bytes: "length (map_entry_bytes e) = 336"
  by (simp add: map_entry_bytes_def)

lemma length_mountentry_bytes: "length (mountentry_bytes e) = 248"
  by (simp add: mountentry_bytes_def)

lemma unat_times_le: "unat ((of_nat n :: 64 word) * of_nat k) \<le> n * k"
proof -
  have "(of_nat n :: 64 word) * of_nat k = of_nat (n * k)" by simp
  then show ?thesis by (simp only: unat_of_nat) (rule mod_less_eq_dividend)
qed

lemma total_of_struct: "bytes_u64 (drop 16 (u64s_bytes [a, b, c, d])) = c" "bytes_u64 (drop 8 (u64s_bytes [a, b])) = b"
  by simp_all

section \<open>Arguments and results\<close>

fun arg_pid :: "call_arg \<Rightarrow> 32 word" where
  "arg_pid (ArgPid pid) = pid"
| "arg_pid (ArgPidMax pid max_len) = pid"
| "arg_pid _ = 0"

fun arg_max :: "call_arg \<Rightarrow> 32 word" where
  "arg_max (ArgPidMax pid max_len) = max_len"
| "arg_max _ = 0"

fun arg_list :: "call_arg \<Rightarrow> 64 word \<times> 64 word" where
  "arg_list (ArgList which arg) = (which, arg)"
| "arg_list _ = (0, 0)"

fun arg_int :: "call_arg \<Rightarrow> 32 word" where
  "arg_int (ArgInt i) = i"
| "arg_int _ = 0"

fun arg_short :: "call_arg \<Rightarrow> 16 word" where
  "arg_short (ArgShort i) = i"
| "arg_short _ = 0"

fun arg_string :: "call_arg \<Rightarrow> string" where
  "arg_string (ArgString s) = s"
| "arg_string _ = []"

text \<open>A getter without a block, and a block of pointers, which is given as the strings they point at, one
  after the other.\<close>

definition ret :: "('b \<Rightarrow> string) \<Rightarrow> 'b res \<Rightarrow> (string \<times> string option) res" where
  "ret enc r = bind_res r (\<lambda>b. Inr (enc b, None))"

definition strings :: "string list \<Rightarrow> string" where
  "strings ss = concat (map (\<lambda>s. s @ [NUL]) ss)"

section \<open>Init functions\<close>

lemma core_set_sysdeps: "core (set_sysdeps f v s) = core s"
  by (simp add: core_def set_sysdeps_def)

end
