(* ===== verification/LinuxPort.thy ===== *)
theory LinuxPort
  imports Structs
begin

unbundle bit_operations_syntax

text \<open>
  The Linux port as a whole: the table of its functions as the service that a daemon offers, with their
  structs as \<open>Structs\<close> encodes them, and its open function and init hooks as the part
  of a client's world. The interpretations at the end carry the lemmas about any port over to it.
\<close>

section \<open>The functions of the port\<close>

text \<open>What they find on a machine: the kernel's files and the results of the calls that are parameters
  of the getters. The two caches (boot time, \<open>/sys\<close>) only save work, so that they are constants here.\<close>

record machine =
  mc_kernel :: kernel
  mc_strtod :: "string \<Rightarrow> 64 word \<times> string"
  mc_boot_time :: guint64
  mc_sysfs :: "bool option"
  mc_pagesize :: guint64
  mc_fstat_ok :: bool
  mc_mkdev :: "guint16 \<Rightarrow> guint16 \<Rightarrow> guint64"
  mc_map_junk :: "nat \<Rightarrow> glibtop_map_entry"
  mc_affinity :: "int \<Rightarrow> (nat \<Rightarrow> bool) option"
  mc_netsys :: netsys
  mc_isdn :: "16 word \<Rightarrow> guint64 list option"
  mc_ntop6 :: "string \<Rightarrow> string option"
  mc_mtab :: "mntent list option"
  mc_statvfs :: "string \<Rightarrow> statvfs option"
  mc_shminfo :: shminfo
  mc_msginfo :: msginfo
  mc_seminfo :: seminfo
  mc_lsblk :: "string option"
  mc_stack :: "string \<times> (nat \<Rightarrow> string)"

text \<open>\<open>glibtop_get_f_s\<close> for each feature: the struct, and the block behind the pointer it returns. A block
  of pointers is given as the strings they point at, one after the other.\<close>

fun linux_service :: "machine \<Rightarrow> glibtop \<Rightarrow> service" where
  "linux_service M s F_CPU a = ret cpu_bytes (glibtop_get_cpu_s (mc_kernel M) s)"
| "linux_service M s F_MEM a = ret mem_bytes (glibtop_get_mem_s (mc_kernel M) s)"
| "linux_service M s F_SWAP a = ret swap_bytes (glibtop_get_swap_s (mc_kernel M) s)"
| "linux_service M s F_UPTIME a = ret uptime_bytes (glibtop_get_uptime_s (mc_strtod M) (mc_kernel M) (mc_boot_time M))"
| "linux_service M s F_LOADAVG a = ret loadavg_bytes (glibtop_get_loadavg_s (mc_strtod M) (mc_kernel M))"
| "linux_service M s F_SHM_LIMITS a = ret shm_bytes (Inr (glibtop_get_shm_limits_s (mc_shminfo M)))"
| "linux_service M s F_MSG_LIMITS a = ret msg_bytes (Inr (glibtop_get_msg_limits_s (mc_msginfo M)))"
| "linux_service M s F_SEM_LIMITS a = ret sem_bytes (Inr (glibtop_get_sem_limits_s (mc_seminfo M)))"
| "linux_service M s F_PROCLIST a =
     bind_res (glibtop_get_proclist_s (mc_kernel M) (mc_fstat_ok M) s (fst (arg_list a)) (snd (arg_list a)))
       (\<lambda>(b, pids). Inr (proclist_bytes b, map_option u32s_bytes pids))"
| "linux_service M s F_PROC_STATE a = ret proc_state_bytes (glibtop_get_proc_state_s (mc_kernel M) (sint (arg_pid a)))"
| "linux_service M s F_PROC_UID a = ret proc_uid_bytes (Inr (glibtop_get_proc_uid_s (mc_kernel M) s (sint (arg_pid a))))"
| "linux_service M s F_PROC_MEM a = ret proc_mem_bytes (Inr (glibtop_get_proc_mem_s (mc_kernel M) (mc_pagesize M) (sint (arg_pid a))))"
| "linux_service M s F_PROC_TIME a = ret proc_time_bytes (glibtop_get_proc_time_s (mc_kernel M) s (mc_boot_time M) (sint (arg_pid a)))"
| "linux_service M s F_PROC_SIGNAL a = ret proc_signal_bytes (Inr (glibtop_get_proc_signal_s (mc_kernel M) (sint (arg_pid a))))"
| "linux_service M s F_PROC_KERNEL a = ret proc_kernel_bytes (Inr (glibtop_get_proc_kernel_s (mc_kernel M) (sint (arg_pid a))))"
| "linux_service M s F_PROC_SEGMENT a =
     ret proc_segment_bytes (Inr (glibtop_get_proc_segment_s (mc_kernel M) (mc_pagesize M) (sint (arg_pid a))))"
| "linux_service M s F_PROC_ARGS a =
     (let (b, block) = glibtop_get_proc_args_s (mc_kernel M) (sint (arg_pid a)) (arg_max a) in Inr (proc_args_bytes b, block))"
| "linux_service M s F_PROC_MAP a =
     bind_res (glibtop_get_proc_map_s (mc_mkdev M) (mc_kernel M) (mc_map_junk M) s (arg_pid a))
       (\<lambda>(b, es). Inr (proc_map_bytes b, map_option (\<lambda>es. concat (map map_entry_bytes es)) es))"
| "linux_service M s F_MOUNTLIST a =
     bind_res (glibtop_get_mountlist_s (mc_kernel M) (mc_mtab M) (arg_int a))
       (\<lambda>(b, es). Inr (mountlist_bytes b, Some (concat (map mountentry_bytes es))))"
| "linux_service M s F_FSUSAGE a =
     ret fsusage_bytes (Inr (glibtop_get_fsusage_s (mc_kernel M) (mc_mtab M) (mc_statvfs M) s (arg_string a)))"
| "linux_service M s F_NETLOAD a =
     ret (netload_bytes \<circ> fst) (glibtop_get_netload_s (mc_kernel M) (mc_netsys M) (mc_sysfs M) s (arg_string a))"
| "linux_service M s F_NETLIST a =
     (let (b, devs) = glibtop_get_netlist_s (mc_kernel M) in Inr (netlist_bytes b, map_option strings devs))"
| "linux_service M s F_PPP a = ret ppp_bytes (Inr (glibtop_get_ppp_s (mc_kernel M) (mc_isdn M (arg_short a))))"
| "linux_service M s F_PROC_OPEN_FILES a =
     (let (b, es) = glibtop_get_proc_open_files_s (mc_ntop6 M) (mc_kernel M) (sint (arg_pid a))
      in Inr (open_files_bytes b, map_option (\<lambda>es. concat (map open_entry_bytes es)) es))"
| "linux_service M s F_PROC_WD a =
     (let (b, dirs) = glibtop_get_proc_wd_s (mc_kernel M) (arg_pid a) in Inr (proc_wd_bytes b, Some (strings dirs)))"
| "linux_service M s F_PROC_AFFINITY a =
     bind_res (glibtop_get_proc_affinity_s (mc_affinity M (sint (arg_pid a))) s)
       (\<lambda>(b, cpus). Inr (affinity_bytes b, Some (concat (map u16_bytes cpus))))"
| "linux_service M s F_PROC_IO a = ret proc_io_bytes (Inr (glibtop_get_proc_io_s (mc_kernel M) s (sint (arg_pid a))))"
| "linux_service M s F_DISK a = ret (disk_bytes \<circ> fst) (glibtop_get_disk_s (mc_kernel M) (mc_lsblk M) (mc_stack M) s)"

text \<open>\<open>_glibtop_init_f_s\<close>; \<open>mountlist.c\<close> and \<open>fsusage.c\<close> have none.\<close>

fun linux_hook :: "feature \<Rightarrow> glibtop \<Rightarrow> glibtop" where
  "linux_hook F_CPU = init_cpu_s"
| "linux_hook F_MEM = init_mem_s"
| "linux_hook F_SWAP = init_swap_s"
| "linux_hook F_UPTIME = init_uptime_s"
| "linux_hook F_LOADAVG = init_loadavg_s"
| "linux_hook F_SHM_LIMITS = init_shm_limits_s"
| "linux_hook F_MSG_LIMITS = init_msg_limits_s"
| "linux_hook F_SEM_LIMITS = init_sem_limits_s"
| "linux_hook F_PROCLIST = init_proclist_s"
| "linux_hook F_PROC_STATE = init_proc_state_s"
| "linux_hook F_PROC_UID = init_proc_uid_s"
| "linux_hook F_PROC_MEM = init_proc_mem_s"
| "linux_hook F_PROC_TIME = init_proc_time_s"
| "linux_hook F_PROC_SIGNAL = init_proc_signal_s"
| "linux_hook F_PROC_KERNEL = init_proc_kernel_s"
| "linux_hook F_PROC_SEGMENT = init_proc_segment_s"
| "linux_hook F_PROC_ARGS = init_proc_args_s"
| "linux_hook F_PROC_MAP = init_proc_map_s"
| "linux_hook F_NETLOAD = init_netload_s"
| "linux_hook F_NETLIST = init_netlist_s"
| "linux_hook F_PPP = init_ppp_s"
| "linux_hook F_PROC_OPEN_FILES = init_proc_open_files_s"
| "linux_hook F_PROC_WD = init_proc_wd_s"
| "linux_hook F_PROC_AFFINITY = init_proc_affinity_s"
| "linux_hook F_PROC_IO = init_proc_io_s"
| "linux_hook F_DISK = init_disk_s"
| "linux_hook f = id"

text \<open>The world of a client on a Linux machine; \<open>base\<close> gives its environment and its connections.\<close>

definition linux_world :: "machine \<Rightarrow> string option \<Rightarrow> world \<Rightarrow> world" where
  "linux_world M uname base = base\<lparr>w_suid := (\<lambda>_. False), w_hook := linux_hook,
     w_open_s := (\<lambda>s. map_sum id fst (glibtop_open_s (mc_kernel M) uname (mc_sysfs M) s ''glibtop''))\<rparr>"

section \<open>The laws of a service\<close>

lemma linux_struct_size:
  assumes "linux_service M s f a = Inr (st, ptr)"
  shows "length st = sizeof_struct f"
  using assms
  by (cases f) (auto simp: ret_def bind_res_Inr_iff bytes_defs Let_def split: prod.splits)

lemma linux_block_size:
  assumes "linux_service M s f (daemon_arg a) = Inr (st, ptr)" and out: "output_size f st ptr \<noteq> 0"
  shows "\<exists>d. ptr = Some d \<and> unat (output_size f st ptr) \<le> length d"
proof -
  have m: "arg_max (daemon_arg a) = 0" by (cases a) simp_all
  have "f \<in> {F_PROCLIST, F_PROC_MAP, F_MOUNTLIST, F_PROC_ARGS}"
    using out by (auto simp: output_size_def split: if_splits)
  then show ?thesis
  proof (elim insertE)
    assume f: "f = F_PROCLIST"
    then obtain b pids where b: "glibtop_get_proclist_s (mc_kernel M) (mc_fstat_ok M) s (fst (arg_list (daemon_arg a))) (snd (arg_list (daemon_arg a))) = Inr (b, pids)"
      "st = proclist_bytes b" "ptr = map_option u32s_bytes pids"
      using assms(1) by (auto simp: bind_res_Inr_iff)
    then have "pl_total b = (case pids of None \<Rightarrow> 0 | Some ps \<Rightarrow> of_nat (length ps) * of_nat 4)"
      by (auto simp: glibtop_get_proclist_s_def bind_res_Inr_iff Let_def split: option.splits if_splits)
    with b out unat_times_le [of _ 4] show ?thesis
      by (cases pids) (simp_all add: f output_size_def proclist_bytes_def mult.commute)
  next
    assume f: "f = F_PROC_MAP"
    then obtain b es where b: "glibtop_get_proc_map_s (mc_mkdev M) (mc_kernel M) (mc_map_junk M) s (arg_pid (daemon_arg a)) = Inr (b, es)"
      "st = proc_map_bytes b" "ptr = map_option (\<lambda>es. concat (map map_entry_bytes es)) es"
      using assms(1) by (auto simp: bind_res_Inr_iff)
    then have "pm_total b = (case es of None \<Rightarrow> 0 | Some ps \<Rightarrow> of_nat (length ps) * of_nat 336)"
      by (auto simp: glibtop_get_proc_map_s_def bind_res_Inr_iff Let_def split: option.splits if_splits)
    with b out unat_times_le [of _ 336] length_concat_map [of _ map_entry_bytes 336, OF length_map_entry_bytes] show ?thesis
      by (cases es) (simp_all add: f output_size_def proc_map_bytes_def mult.commute)
  next
    assume f: "f = F_MOUNTLIST"
    then obtain b es where b: "glibtop_get_mountlist_s (mc_kernel M) (mc_mtab M) (arg_int (daemon_arg a)) = Inr (b, es)"
      "st = mountlist_bytes b" "ptr = Some (concat (map mountentry_bytes es))"
      using assms(1) by (auto simp: bind_res_Inr_iff)
    then have "ml_total b = of_nat (length es) * of_nat 248"
      by (auto simp: glibtop_get_mountlist_s_def bind_res_Inr_iff Let_def)
    with b unat_times_le [of "length es" 248] length_concat_map [of es mountentry_bytes 248, OF length_mountentry_bytes] show ?thesis
      by (simp add: f output_size_def mountlist_bytes_def mult.commute)
  next
    assume f: "f = F_PROC_ARGS"
    then obtain b block where b: "glibtop_get_proc_args_s (mc_kernel M) (sint (arg_pid (daemon_arg a))) 0 = (b, block)"
      "st = proc_args_bytes b" "ptr = block"
      using assms(1) m by (auto split: prod.splits)
    have "block \<noteq> None" using out b(3) by (cases block) (simp_all add: f output_size_def)
    with b(1) obtain args where "block = Some (args @ [NUL])" "pa_size b = of_nat (length args)"
      by (auto simp: glibtop_get_proc_args_s_def Let_def split: option.splits)
    moreover have "unat (of_nat (length args) + 1 :: 64 word) \<le> length args + 1"
      using unat_times_le [of "Suc (length args)" 1] by (simp add: add.commute)
    ultimately show ?thesis using b by (simp add: f output_size_def proc_args_bytes_def)
  qed simp
qed

interpretation linux_getters: getter_service "linux_service M s" for M s
  by unfold_locales (blast intro: linux_struct_size linux_block_size)+

section \<open>The laws of a port\<close>

lemma linux_hook_core: "core (linux_hook f s) = core s"
  by (cases f) (simp_all add: core_set_sysdeps init_cpu_s_def init_mem_s_def init_swap_s_def init_uptime_s_def
      init_loadavg_s_def init_shm_limits_s_def init_msg_limits_s_def init_sem_limits_s_def init_proclist_s_def
      init_proc_state_s_def init_proc_uid_s_def init_proc_mem_s_def init_proc_time_s_def init_proc_signal_s_def
      init_proc_kernel_s_def init_proc_segment_s_def init_proc_args_s_def init_proc_map_s_def init_netload_s_def
      init_netlist_s_def init_ppp_s_def init_proc_open_files_s_def init_proc_wd_s_def init_proc_affinity_s_def
      init_proc_io_s_def init_disk_s_def)

lemma open_s_core: "glibtop_open_s K uname sysfs s nm = Inr (s', sysfs') \<Longrightarrow> core s' = core s"
  by (auto simp: glibtop_open_s_def set_linux_version_def bind_res_Inr_iff core_def Let_def split: option.splits prod.splits)

interpretation linux: sysdeps_port "linux_world M uname base" for M uname base
proof unfold_locales
  show "core (w_hook (linux_world M uname base) f s) = core s" for f s
    by (simp add: linux_world_def linux_hook_core)
  show "core s' = core s" if "w_open_s (linux_world M uname base) s = Inr s'" for s s'
    using that open_s_core by (auto simp: linux_world_def map_sum_def split: sum.splits)
qed

section \<open>Clients and servers on Linux\<close>

text \<open>
  C14. On every Linux machine, whatever its files hold: a getter that returns has filled a struct of the
  size that the protocol transmits for its feature, which fits into the response, and for the
  arguments that the daemon passes, a block that is announced is there and at least as long as
  announced, so that the daemon never reads behind it.
\<close>

theorem linux_service_typed:
  assumes "linux_service M s f (daemon_arg a) = Inr (st, ptr)"
  shows "length st = sizeof_struct f \<and> length st \<le> sizeof_union
    \<and> (output_size f st ptr = 0 \<or> (\<exists>d. ptr = Some d \<and> unat (output_size f st ptr) \<le> length d))
    \<and> (\<exists>out. do_output (zero_response\<lparr>r_u := union_of st\<rparr>) offset_union (output_size f st ptr) ptr = Inr out)"
  using linux_getters.struct_size [OF assms] linux_getters.block_size [OF assms] sizeof_struct_le [of f]
    linux_getters.output_reply [OF assms] by fastforce

text \<open>
  C31. A client on one Linux machine and a daemon on another one, from end to end: with
  \<open>LIBGTOP_SERVER\<close> set to a network server a fresh client that calls a getter initialises itself on
  its own machine, connects, reads the greeting and the features and sends the request. For each feature that the daemon
  answers, with a parameter of at most 16 bytes, it gets the struct and the block that the getter returns for the argument on the daemon's
  machine, where the argument has no limit; a limit for the arguments of a process is dropped, and it gets the struct and the
  block without one. What its own machine would return plays no part.
\<close>

theorem linux_remote:
  assumes env: "w_server base = Some ('':inet:'' @ host)" "\<And>h p. \<exists>sock. w_connect base h p = Inr sock"
    and own: "file_to_buffer (mc_kernel C) STAT_BUFSIZ ''/proc/stat'' = Inr buffer"
    and a: "servable (f, a')" "unlimited a" "without_limit (f, a') = (f, a)" and r: "linux_service M server f a = Inr (st, ptr)"
    and evs: "smooth evs" "stream_bytes evs = sysdeps_request @ request f a'"
    and stream: "flowing (w_stream base)" "stream_bytes (w_stream base)
      = fst (handle_parent_connection (w_version base) (w_server_version base) (linux_service M server) sysdeps evs)"
  shows "\<exists>c'. glibtop_get_l (linux_world C (Some release) base) (linux_service C own_server) f a' fresh_client
      = Inr ((st, reply_block f st ptr), c') \<and> to_server (conn c') = stream_bytes evs"
proof (rule remote_get [OF linux.sysdeps_port_axioms linux_getters.getter_service_axioms _ _ _ a(1) _ evs])
  show "linux_service M server f (daemon_arg a') = Inr (st, ptr)" using a(3) r by (simp add: without_limit_def)
  let ?W = "linux_world C (Some release) base"
  show "w_server ?W = Some ('':inet:'' @ host)" "\<exists>sock. w_connect ?W h p = Inr sock" for h p
    using env by (simp_all add: linux_world_def)
  show "\<exists>s'. w_open_s ?W s = Inr s'" for s
    by (simp add: linux_world_def glibtop_open_s_def set_linux_version_def own Let_def split: prod.split)
  show "flowing (w_stream ?W)" "stream_bytes (w_stream ?W)
      = fst (handle_parent_connection (w_version ?W) (w_server_version ?W) (linux_service M server) sysdeps evs)"
    using stream by (simp_all add: linux_world_def)
qed

text \<open>Where the caller limits the length of a command line, the size in the struct counts the NUL, and
  the setuid server's \<open>size + 1\<close> reads a byte behind the block.\<close>

lemma slave_args_overread:
  assumes "g_file_get_contents (mc_kernel M) (proc_path (sint pid) ''/cmdline'') = Some args"
    and "max_len \<noteq> 0" "unat max_len < length args"
    and "linux_service M s F_PROC_ARGS (ArgPidMax pid max_len) = Inr (st, ptr)"
  shows "do_output (zero_response\<lparr>r_u := union_of st\<rparr>) offset_union (output_size F_PROC_ARGS st ptr) ptr
    = Inl (Crash ''write behind data'')"
proof -
  have n: "unat max_len \<noteq> 0" using assms(2) by (simp add: unat_eq_zero)
  then have r: "st = u64s_bytes [sysdeps_proc_args, of_nat (unat max_len)]" "ptr = Some (take (unat max_len - 1) args @ [NUL])"
    using assms by (simp_all add: glibtop_get_proc_args_s_def proc_args_bytes_def Let_def)
  have l: "unat max_len < 2 ^ 32" using unsigned_less [of max_len, where ?'a = nat] by simp
  have o: "output_size F_PROC_ARGS st ptr = of_nat (Suc (unat max_len))" by (simp add: r output_size_def)
  have u: "unat (of_nat (Suc (unat max_len)) :: 64 word) = Suc (unat max_len)"
    using l by (intro unat_of_nat64) simp
  then have z: "(of_nat (Suc (unat max_len)) :: 64 word) \<noteq> 0" by (metis Zero_not_Suc unsigned_0)
  show ?thesis using n assms(3) unfolding do_output_def o Let_def by (simp add: z u r del: of_nat_Suc)
qed

definition demo_machine :: "kernel \<Rightarrow> machine" where
  "demo_machine K = \<lparr>mc_kernel = K, mc_strtod = (\<lambda>s. (0, s)), mc_boot_time = 1, mc_sysfs = None, mc_pagesize = 4096,
     mc_fstat_ok = True, mc_mkdev = (\<lambda>_ _. 0),
     mc_map_junk = (\<lambda>_. \<lparr>me_flags = 0, me_start = 0, me_end = 0, me_offset = 0, me_perm = 0, me_inode = 0, me_device = 0,
        me_smaps = (\<lambda>_. 0), me_filename = []\<rparr>),
     mc_affinity = (\<lambda>_. None), mc_netsys = \<lparr>ns_socket = 0, ns_ioctl = (\<lambda>_. no_netdev), ns_getifaddrs = None\<rparr>,
     mc_isdn = (\<lambda>_. None), mc_ntop6 = (\<lambda>_. None), mc_mtab = None, mc_statvfs = (\<lambda>_. None),
     mc_shminfo = \<lparr>shmmax = 1, shmmin = 1, shmmni = 1, shmseg = 1, shmall = 1\<rparr>,
     mc_msginfo = \<lparr>msgpool = 1, msgmap = 1, msgmax = 1, msgmnb = 1, msgmni = 1, msgssz = 1, msgtql = 1\<rparr>,
     mc_seminfo = \<lparr>semmap = 1, semmni = 1, semmns = 1, semmnu = 1, semmsl = 1, semopm = 1, semume = 1, semusz = 1,
        semvmx = 1, semaem = 1\<rparr>,
     mc_lsblk = None, mc_stack = ([], \<lambda>_. [])\<rparr>"

definition demo_server_machine :: machine where
  "demo_server_machine = demo_machine (file_kernel [(''/proc/7/cmdline'', ''ls'' @ [NUL])])"

lemma demo_args:
  "linux_service demo_server_machine s F_PROC_ARGS (ArgPidMax 7 0)
     = Inr (u64s_bytes [sysdeps_proc_args, 3], Some (''ls'' @ [NUL, NUL]))"
proof -
  have s: "show_int 7 = ''7''" by code_simp
  show ?thesis
    by (simp add: demo_server_machine_def demo_machine_def glibtop_get_proc_args_s_def s g_file_get_contents_def
        file_kernel_def proc_args_bytes_def Let_def)
qed

theorem linux_service_typed_witness:
  "length (u64s_bytes [sysdeps_proc_args, 3]) = sizeof_struct F_PROC_ARGS
   \<and> (\<exists>out. do_output (zero_response\<lparr>r_u := union_of (u64s_bytes [sysdeps_proc_args, 3])\<rparr>) offset_union
        (output_size F_PROC_ARGS (u64s_bytes [sysdeps_proc_args, 3]) (Some (''ls'' @ [NUL, NUL]))) (Some (''ls'' @ [NUL, NUL])) = Inr out)"
  using linux_service_typed [of demo_server_machine undefined F_PROC_ARGS "ArgPidMax 7 0"] demo_args by simp

theorem linux_remote_witness:
  "\<exists>base c'. glibtop_get_l (linux_world (demo_machine (file_kernel [(''/proc/stat'', ''cpu 1'')])) (Some ''5.4.0'') base)
      (linux_service (demo_machine (file_kernel [(''/proc/stat'', ''cpu 1'')])) glibtop_global_server) F_PROC_ARGS (ArgPidMax 7 2) fresh_client
    = Inr ((u64s_bytes [sysdeps_proc_args, 3], Some (''ls'' @ [NUL, NUL])), c')"
proof -
  define evs where "evs = [Recv (sysdeps_request @ request F_PROC_ARGS (ArgPidMax 7 2))]"
  define out where "out = fst (handle_parent_connection (w_version demo_world) (w_server_version demo_world)
    (linux_service demo_server_machine glibtop_global_server) sysdeps_zero evs)"
  define base where "base = demo_world\<lparr>w_server := Some ('':inet:'' @ ''localhost''),
    w_stream := if out = [] then [] else [Recv out]\<rparr>"
  let ?C = "demo_machine (file_kernel [(''/proc/stat'', ''cpu 1'')])"
  have 1: "w_server base = Some ('':inet:'' @ ''localhost'')" "\<And>h p. \<exists>sock. w_connect base h p = Inr sock"
    "w_version base = w_version demo_world" "w_server_version base = w_server_version demo_world"
    by (simp_all add: base_def demo_world_def)
  have 2: "file_to_buffer (mc_kernel ?C) STAT_BUFSIZ ''/proc/stat'' = Inr ''cpu 1''"
  proof -
    have "try_file_to_buffer (file_kernel [(''/proc/stat'', ''cpu 1'')]) STAT_BUFSIZ ''/proc/stat'' = (TRY_FILE_TO_BUFFER_OK, ''cpu 1'')"
      by (rule file_kernel_buffer) simp_all
    then show ?thesis by (simp add: file_to_buffer_def demo_machine_def)
  qed
  have 3: "servable (F_PROC_ARGS, ArgPidMax 7 2)" "unlimited (ArgPidMax 7 0)"
    "without_limit (F_PROC_ARGS, ArgPidMax 7 2) = (F_PROC_ARGS, ArgPidMax 7 0)"
    by (simp_all add: servable_def answered_def PARAM_SIZE_def without_limit_def)
  have 4: "smooth evs" "stream_bytes evs = sysdeps_request @ request F_PROC_ARGS (ArgPidMax 7 2)"
    by (simp_all add: evs_def)
  have 5: "flowing (w_stream base)" "stream_bytes (w_stream base)
      = fst (handle_parent_connection (w_version base) (w_server_version base) (linux_service demo_server_machine glibtop_global_server) sysdeps_zero evs)"
    unfolding 1(3,4) by (simp_all add: base_def out_def [symmetric])
  have 6: "reply_block F_PROC_ARGS (u64s_bytes [sysdeps_proc_args, 3]) (Some (''ls'' @ [NUL, NUL])) = Some (''ls'' @ [NUL, NUL])"
    by (simp add: reply_block_def output_size_def)
  from linux_remote [OF 1(1,2) 2 3 demo_args 4 5, of "''5.4.0''" glibtop_global_server] show ?thesis
    unfolding 6 by blast
qed

end
