(* ===== verification/FreeBsd.thy ===== *)
theory FreeBsd
  imports Structs "HOL-Library.Signed_Division"
begin

unbundle bit_operations_syntax

text \<open>
  The system-wide functions of the FreeBSD port (\<open>sysdeps/freebsd\<close>): \<open>open.c\<close>, \<open>cpu.c\<close>, \<open>mem.c\<close>,
  \<open>swap.c\<close>, \<open>uptime.c\<close>, \<open>loadavg.c\<close>, \<open>shm_limits.c\<close>, \<open>msg_limits.c\<close>, \<open>sem_limits.c\<close>, \<open>sysinfo.c\<close>,
  \<open>siglist.c\<close>, \<open>disk.c\<close>, \<open>netlist.c\<close>. They fill the same structs as those of the Linux port; a definition
  that would have the name of its counterpart there ends in \<open>_fb\<close>.
\<close>

section \<open>sysctl\<close>

text \<open>
  The kernel is a parameter: \<open>fb_sysctl name\<close> are the bytes of a value, or \<open>None\<close> where there is no
  such name; \<open>fb_stack\<close> is what an uninitialised variable holds; some structs of the system's headers are
  given by the members that the code reads. As \<open>sysctl(3)\<close> says, a value that is too long for
  the variable fills it and the call fails; a shorter one leaves the rest alone.
\<close>

record clockinfo =
  ci_hz :: gint32
  ci_stathz :: gint32

record kvm_swap =
  ksw_used :: guint32
  ksw_total :: guint32

record fbsd =
  fb_sysctl :: "string \<Rightarrow> string option"
  fb_stack :: string
  fb_clockrate :: "clockinfo option"            \<comment> \<open>\<open>kern.clockrate\<close>\<close>
  fb_boottime :: "64 word option"               \<comment> \<open>\<open>tv_sec\<close> of \<open>KERN_BOOTTIME\<close>\<close>
  fb_now :: "64 word"                           \<comment> \<open>\<open>time\<close>\<close>
  fb_double :: "int \<Rightarrow> 64 word"                 \<comment> \<open>an integer as a \<open>double\<close>, given by its bits\<close>
  fb_div :: "64 word \<Rightarrow> 64 word \<Rightarrow> 64 word"      \<comment> \<open>division of doubles\<close>
  fb_loadavg :: "(64 word \<times> 64 word \<times> 64 word) option"
  fb_pagesize :: gint32
  fb_swapinfo :: "int \<times> (nat \<Rightarrow> kvm_swap)"      \<comment> \<open>\<open>kvm_getswapinfo\<close>: its value and the array\<close>
  fb_ifnames :: "string list option"            \<comment> \<open>\<open>if_nameindex\<close>\<close>
  fb_version :: nat                             \<comment> \<open>\<open>__FreeBSD_version\<close>\<close>

definition sysctl_into :: "fbsd \<Rightarrow> string \<Rightarrow> string \<Rightarrow> bool \<times> string" where
  \<comment> \<open>whether the call works, and the bytes of the variable (\<open>old\<close> are those before)\<close>
  "sysctl_into K name old =
     (case fb_sysctl K name of
        None \<Rightarrow> (False, old)
      | Some bs \<Rightarrow> (length bs \<le> length old, take (length old) bs @ drop (length bs) old))"

definition uninit :: "fbsd \<Rightarrow> nat \<Rightarrow> string" where
  "uninit K n = take n (fb_stack K @ replicate n NUL)"

definition sysctl_int :: "fbsd \<Rightarrow> string \<Rightarrow> gint32 option" where
  \<comment> \<open>into an int that is not initialised; \<open>None\<close>: the call fails\<close>
  "sysctl_int K name = (let (ok, bs) = sysctl_into K name (uninit K 4) in if ok then Some (bytes_u32 bs) else None)"

definition sysctl_long :: "fbsd \<Rightarrow> string \<Rightarrow> 64 word option" where
  "sysctl_long K name = (let (ok, bs) = sysctl_into K name (uninit K 8) in if ok then Some (bytes_u64 bs) else None)"

fun collect :: "('a \<Rightarrow> 'b option) \<Rightarrow> 'a list \<Rightarrow> 'b list option" where
  \<comment> \<open>one after the other, until one fails\<close>
  "collect f [] = Some []"
| "collect f (x # xs) =
     (case f x of None \<Rightarrow> None | Some y \<Rightarrow> map_option (\<lambda>ys. y # ys) (collect f xs))"

section \<open>open.c\<close>

definition glibtop_open_s_fb :: "fbsd \<Rightarrow> glibtop \<Rightarrow> glibtop" where
  \<comment> \<open>the result of \<open>sysctlbyname\<close> is not looked at\<close>
  "glibtop_open_s_fb K server =
     (let ncpus = bytes_u32 (snd (sysctl_into K ''hw.ncpu'' (uninit K 4)));
          real_ncpu = sint ncpus - 1
      in server\<lparr>s_real_ncpu := real_ncpu, s_ncpu := min (int GLIBTOP_NCPU - 1) real_ncpu,
           s_os_version_code := fb_version K\<rparr>)"

section \<open>cpu.c\<close>

text \<open>The five states: user, nice, sys, intr, idle.\<close>

abbreviation (input) "CPUSTATES \<equiv> 5 :: nat"
abbreviation (input) "CP_USER \<equiv> 0 :: nat"
abbreviation (input) "CP_NICE \<equiv> 1 :: nat"
abbreviation (input) "CP_SYS \<equiv> 2 :: nat"
abbreviation (input) "CP_INTR \<equiv> 3 :: nat"
abbreviation (input) "CP_IDLE \<equiv> 4 :: nat"

definition sysdeps_cpu_fb :: guint64 where
  "sysdeps_cpu_fb = flag 0 + flag 1 + flag 2 + flag 3 + flag 4 + flag 5 + flag 13"

definition sysdeps_cpu_smp_fb :: guint64 where
  "sysdeps_cpu_smp_fb = flag 6 + flag 7 + flag 8 + flag 9 + flag 10 + flag 16"

definition init_cpu_s_fb :: "glibtop \<Rightarrow> glibtop" where
  "init_cpu_s_fb server =
     set_sysdeps F_CPU (sysdeps_cpu_fb OR (if s_ncpu server \<noteq> 0 then sysdeps_cpu_smp_fb else 0)) server"

definition read_cp_times :: "fbsd \<Rightarrow> guint64 list option" where
  \<comment> \<open>the two calls for \<open>kern.cp_times\<close>; \<open>g_malloc (0)\<close> is NULL\<close>
  "read_cp_times K =
     (case fb_sysctl K ''kern.cp_times'' of
        None \<Rightarrow> None
      | Some bs \<Rightarrow>
          (let len = 8 * CPUSTATES * (length bs div (8 * CPUSTATES))
           in if bs = [] then None
              else if len < length bs then None
              else Some (bytes_u64s (length bs div 8) bs)))"

definition cpu_row_fb :: "guint64 list option \<Rightarrow> guint64 list \<Rightarrow> int \<Rightarrow> nat \<Rightarrow> guint64 list res" where
  \<comment> \<open>the five values for processor \<open>i\<close>; the division is one of longs\<close>
  "cpu_row_fb cp_times cpts ncpu i =
     (case cp_times of
        Some ts \<Rightarrow> (if length ts < i * CPUSTATES + CPUSTATES then Inl (Crash ''cp_times index'')
                    else Inr (map (\<lambda>k. ts ! (i * CPUSTATES + k)) [0..<CPUSTATES]))
      | None \<Rightarrow> Inr (map (\<lambda>k. word_of_int (sint (cpts ! k) sdiv ncpu)) [0..<CPUSTATES]))"

fun xcpu_loop_fb ::
  "guint64 list option \<Rightarrow> guint64 list \<Rightarrow> int \<Rightarrow> nat \<Rightarrow> nat \<Rightarrow> glibtop_cpu \<Rightarrow> glibtop_cpu res" where
  \<comment> \<open>with the number of iterations that are left\<close>
  "xcpu_loop_fb cp_times cpts ncpu 0 i buf = Inr buf"
| "xcpu_loop_fb cp_times cpts ncpu (Suc left) i buf =
     (if GLIBTOP_NCPU \<le> i then Inl (Crash ''xcpu index'')
      else bind_res (cpu_row_fb cp_times cpts ncpu i) (\<lambda>v.
        xcpu_loop_fb cp_times cpts ncpu left (Suc i)
          (buf\<lparr>xcpu_user := (xcpu_user buf)(i := v ! CP_USER), xcpu_nice := (xcpu_nice buf)(i := v ! CP_NICE),
             xcpu_sys := (xcpu_sys buf)(i := v ! CP_SYS), xcpu_idle := (xcpu_idle buf)(i := v ! CP_IDLE),
             xcpu_irq := (xcpu_irq buf)(i := v ! CP_INTR),
             xcpu_total := (xcpu_total buf)(i := v ! CP_USER + v ! CP_NICE + v ! CP_SYS + v ! CP_IDLE + v ! CP_INTR)\<rparr>)))"

definition stat_frequency :: "clockinfo \<Rightarrow> guint64" where
  "stat_frequency ci = scast (if ci_stathz ci \<noteq> 0 then ci_stathz ci else ci_hz ci)"

definition glibtop_get_cpu_s_fb :: "fbsd \<Rightarrow> glibtop \<Rightarrow> glibtop_cpu res" where
  "glibtop_get_cpu_s_fb K server =
     (case sysctl_into K ''kern.cp_time'' (uninit K (8 * CPUSTATES)) of
        (False, _) \<Rightarrow> Inr cpu_zero
      | (True, bs) \<Rightarrow>
          (case fb_clockrate K of
             None \<Rightarrow> Inr cpu_zero
           | Some ci \<Rightarrow>
               (let cpts = bytes_u64s CPUSTATES bs;
                    cp_times = read_cp_times K;
                    buf = cpu_zero\<lparr>cpu_user := cpts ! CP_USER, cpu_nice := cpts ! CP_NICE, cpu_sys := cpts ! CP_SYS,
                            cpu_idle := cpts ! CP_IDLE, cpu_irq := cpts ! CP_INTR, cpu_frequency := stat_frequency ci,
                            cpu_total := cpts ! CP_USER + cpts ! CP_NICE + cpts ! CP_SYS + cpts ! CP_IDLE + cpts ! CP_INTR\<rparr>;
                    ncpu = s_ncpu server + 1
                in bind_res (xcpu_loop_fb cp_times cpts ncpu (nat ncpu) 0 buf) (\<lambda>buf.
                     Inr (buf\<lparr>cpu_flags := if 1 < ncpu then sysdeps_cpu_fb OR sysdeps_cpu_smp_fb else sysdeps_cpu_fb\<rparr>)))))"

section \<open>mem.c and swap.c\<close>

definition mem_get_by_bytes :: "fbsd \<Rightarrow> string \<Rightarrow> guint64" where
  \<comment> \<open>the warning aside, a failure is not looked at\<close>
  "mem_get_by_bytes K name = bytes_u64 (snd (sysctl_into K name (replicate 8 NUL)))"

definition try_mem_get_by_bytes :: "fbsd \<Rightarrow> string \<Rightarrow> guint64" where
  "try_mem_get_by_bytes K name =
     (let (ok, bs) = sysctl_into K name (replicate 8 NUL) in if ok then bytes_u64 bs else 0)"

definition mem_get_by_pages :: "fbsd \<Rightarrow> string \<Rightarrow> guint64" where
  "mem_get_by_pages K name = ucast (bytes_u32 (snd (sysctl_into K name (replicate 4 NUL)))) * scast (fb_pagesize K)"

definition glibtop_get_mem_s_fb :: "fbsd \<Rightarrow> glibtop_mem" where
  "glibtop_get_mem_s_fb K =
     (let memtotal = mem_get_by_bytes K ''hw.physmem'';
          memactive = mem_get_by_pages K ''vm.stats.vm.v_active_count'';
          meminactive = mem_get_by_pages K ''vm.stats.vm.v_inactive_count'';
          memlaundry = mem_get_by_pages K ''vm.stats.vm.v_laundry_count'';
          memwired = mem_get_by_pages K ''vm.stats.vm.v_wire_count'';
          memcached = mem_get_by_pages K ''vm.stats.vm.v_cache_count'';
          membuffer = mem_get_by_bytes K ''vfs.bufspace'';
          memfree = mem_get_by_pages K ''vm.stats.vm.v_free_count'';
          zfs_arc_size = try_mem_get_by_bytes K ''kstat.zfs.misc.arcstats.size''
      in \<lparr>mem_flags = sysdeps_mem, mem_total = memtotal, mem_used = memtotal - memfree, mem_free = memfree,
          mem_shared = 0, mem_buffer = membuffer, mem_cached = memcached + zfs_arc_size,
          mem_user = memactive + memlaundry + memwired - zfs_arc_size, mem_locked = 0\<rparr>)"

definition swap_zero :: glibtop_swap where
  "swap_zero = \<lparr>swap_flags = 0, swap_total = 0, swap_used = 0, swap_free = 0, swap_pagein = 0, swap_pageout = 0\<rparr>"

definition glibtop_get_swap_p :: "fbsd \<Rightarrow> glibtop_swap res" where
  "glibtop_get_swap_p K =
     (let (nswdev, kvmsw) = fb_swapinfo K in
      if nswdev < 1 then Inr swap_zero
      else if 16 \<le> nswdev then Inl (Crash ''kvmsw index'')
      else (let total = ucast (ksw_total (kvmsw (nat nswdev))) * scast (fb_pagesize K);
                used = ucast (ksw_used (kvmsw (nat nswdev))) * scast (fb_pagesize K);
                buf = swap_zero\<lparr>swap_flags := sysdeps_swap, swap_used := used, swap_total := total, swap_free := total - used\<rparr>
            in case sysctl_int K ''vm.stats.vm.v_swappgsout'' of
                 None \<Rightarrow> Inr buf
               | Some swappgsout \<Rightarrow>
                   (case sysctl_int K ''vm.stats.vm.v_swappgsin'' of
                      None \<Rightarrow> Inr buf
                    | Some swappgsin \<Rightarrow>
                        Inr (buf\<lparr>swap_pagein := ucast swappgsin, swap_pageout := ucast swappgsout,
                               swap_flags := sysdeps_swap OR sysdeps_swap_paging\<rparr>))))"

section \<open>uptime.c and loadavg.c\<close>

definition sysdeps_uptime_fb :: guint64 where "sysdeps_uptime_fb = flag 0"
definition sysdeps_idletime :: guint64 where "sysdeps_idletime = flag 1"

definition required_cpu_flags :: guint64 where
  \<comment> \<open>IDLE, FREQUENCY\<close>
  "required_cpu_flags = flag 4 + flag 5"

definition init_uptime_s_fb :: "glibtop \<Rightarrow> glibtop" where
  "init_uptime_s_fb server = set_sysdeps F_UPTIME sysdeps_uptime_fb server"

definition glibtop_get_uptime_s_fb :: "fbsd \<Rightarrow> glibtop \<Rightarrow> 64 word glibtop_uptime res" where
  "glibtop_get_uptime_s_fb K server =
     (let buf = \<lparr>uptime_flags = 0, uptime_uptime = fb_double K 0, uptime_idletime = fb_double K 0, uptime_boot_time = 0\<rparr>;
          buf = (case fb_boottime K of
                   None \<Rightarrow> buf
                 | Some sec \<Rightarrow> (if sec = 0 then buf
                     else buf\<lparr>uptime_uptime := fb_double K (sint (fb_now K - sec)), uptime_flags := sysdeps_uptime_fb\<rparr>))
      in bind_res (glibtop_get_cpu_s_fb K server) (\<lambda>cpu.
           if cpu_flags cpu AND required_cpu_flags \<noteq> required_cpu_flags then Inr buf
           else Inr (buf\<lparr>uptime_idletime := fb_div K (fb_div K (fb_double K (uint (cpu_idle cpu)))
                       (fb_double K (uint (cpu_frequency cpu)))) (fb_double K (s_ncpu server + 1)),
                     uptime_flags := uptime_flags buf OR sysdeps_idletime\<rparr>)))"

definition sysdeps_last_pid :: guint64 where "sysdeps_last_pid = flag 3"

definition init_loadavg_s_fb :: "glibtop \<Rightarrow> glibtop" where
  "init_loadavg_s_fb server = set_sysdeps F_LOADAVG (sysdeps_loadavg OR sysdeps_last_pid) server"

definition glibtop_get_loadavg_s_fb :: "fbsd \<Rightarrow> 64 word glibtop_loadavg" where
  "glibtop_get_loadavg_s_fb K =
     (let zero = \<lparr>la_flags = 0, la_loadavg = (fb_double K 0, fb_double K 0, fb_double K 0), la_nr_running = 0,
                  la_nr_tasks = 0, la_last_pid = 0\<rparr>
      in case fb_loadavg K of
           None \<Rightarrow> zero
         | Some l \<Rightarrow>
             (let buf = zero\<lparr>la_loadavg := l, la_flags := sysdeps_loadavg\<rparr>
              in case sysctl_int K ''kern.lastpid'' of
                   None \<Rightarrow> buf
                 | Some last_pid \<Rightarrow> buf\<lparr>la_last_pid := scast last_pid, la_flags := sysdeps_loadavg OR sysdeps_last_pid\<rparr>))"

section \<open>IPC limits\<close>

definition glibtop_get_shm_limits_s_fb :: "fbsd \<Rightarrow> glibtop \<Rightarrow> glibtop_shm_limits" where
  \<comment> \<open>the variables are longs from version 700002 on\<close>
  "glibtop_get_shm_limits_s_fb K server =
     (let zero = \<lparr>shm_flags = 0, shm_shmmax = 0, shm_shmmin = 0, shm_shmmni = 0, shm_shmseg = 0, shm_shmall = 0\<rparr>
      in if sd (s_sysdeps server) F_SHM_LIMITS = 0 then zero
         else case collect (if fb_version K < 700002 then map_option scast \<circ> sysctl_int K else sysctl_long K)
                [''kern.ipc.shmmax'', ''kern.ipc.shmmin'', ''kern.ipc.shmmni'', ''kern.ipc.shmseg'', ''kern.ipc.shmall''] of
           Some [shmmax', shmmin', shmmni', shmseg', shmall'] \<Rightarrow>
             \<lparr>shm_flags = sysdeps_shm_limits, shm_shmmax = shmmax', shm_shmmin = shmmin', shm_shmmni = shmmni',
              shm_shmseg = shmseg', shm_shmall = shmall'\<rparr>
         | _ \<Rightarrow> zero)"

definition sysdeps_msg_limits_fb :: guint64 where
  "sysdeps_msg_limits_fb = flag 2 + flag 4 + flag 3 + flag 6 + flag 5 + flag 0"

definition init_msg_limits_s_fb :: "glibtop \<Rightarrow> glibtop" where
  "init_msg_limits_s_fb server = set_sysdeps F_MSG_LIMITS sysdeps_msg_limits_fb server"

definition glibtop_get_msg_limits_s_fb :: "fbsd \<Rightarrow> glibtop \<Rightarrow> glibtop_msg_limits" where
  "glibtop_get_msg_limits_s_fb K server =
     (let zero = \<lparr>msg_flags = 0, msg_msgpool = 0, msg_msgmap = 0, msg_msgmax = 0, msg_msgmnb = 0, msg_msgmni = 0,
                  msg_msgssz = 0, msg_msgtql = 0\<rparr>
      in if sd (s_sysdeps server) F_MSG_LIMITS = 0 then zero
         else case collect (sysctl_int K)
                [''kern.ipc.msgseg'', ''kern.ipc.msgssz'', ''kern.ipc.msgtql'', ''kern.ipc.msgmnb'', ''kern.ipc.msgmni'',
                 ''kern.ipc.msgmax''] of
           Some [msgseg', msgssz', msgtql', msgmnb', msgmni', msgmax'] \<Rightarrow>
             zero\<lparr>msg_flags := sysdeps_msg_limits_fb, msg_msgmax := scast msgmax', msg_msgmni := scast msgmni',
               msg_msgmnb := scast msgmnb', msg_msgtql := scast msgtql', msg_msgssz := scast msgssz', msg_msgpool := scast msgseg'\<rparr>
         | _ \<Rightarrow> zero)"

definition glibtop_get_sem_limits_s_fb :: "fbsd \<Rightarrow> glibtop \<Rightarrow> glibtop_sem_limits" where
  "glibtop_get_sem_limits_s_fb K server =
     (let zero = \<lparr>sem_flags = 0, sem_semmap = 0, sem_semmni = 0, sem_semmns = 0, sem_semmnu = 0, sem_semmsl = 0,
                  sem_semopm = 0, sem_semume = 0, sem_semusz = 0, sem_semvmx = 0, sem_semaem = 0\<rparr>
      in if sd (s_sysdeps server) F_SEM_LIMITS = 0 then zero
         else case collect (sysctl_int K)
                [''kern.ipc.semmap'', ''kern.ipc.semmni'', ''kern.ipc.semmns'', ''kern.ipc.semmnu'', ''kern.ipc.semmsl'',
                 ''kern.ipc.semopm'', ''kern.ipc.semume'', ''kern.ipc.semusz'', ''kern.ipc.semvmx'', ''kern.ipc.semaem''] of
           Some [semmap', semmni', semmns', semmnu', semmsl', semopm', semume', semusz', semvmx', semaem'] \<Rightarrow>
             \<lparr>sem_flags = sysdeps_sem_limits, sem_semmap = scast semmap', sem_semmni = scast semmni',
              sem_semmns = scast semmns', sem_semmnu = scast semmnu', sem_semmsl = scast semmsl', sem_semopm = scast semopm',
              sem_semume = scast semume', sem_semusz = scast semusz', sem_semvmx = scast semvmx', sem_semaem = scast semaem'\<rparr>
         | _ \<Rightarrow> zero)"

section \<open>sysinfo.c, siglist.c, disk.c, netlist.c\<close>

text \<open>A model that \<open>sysctl\<close> does not give is NULL in the table, which a lookup does not tell from a key
  that is not there.\<close>

definition cpuinfo_entry_fb :: "string option \<Rightarrow> gint32 \<Rightarrow> nat \<Rightarrow> glibtop_entry" where
  "cpuinfo_entry_fb model mhz i =
     \<lparr>labels = [Some ''processor'', Some ''vendor_id'', Some ''model name'', Some ''cpu MHz''],
      vals = (Map.empty(''processor'' \<mapsto> show_nat i))(''vendor_id'' := model, ''model name'' := model,
        ''cpu MHz'' := Some (show_int (sint mhz)))\<rparr>"

definition init_sysinfo_fb :: "fbsd \<Rightarrow> glibtop \<Rightarrow> glibtop_sysinfo \<Rightarrow> glibtop_sysinfo" where
  "init_sysinfo_fb K server sysinfo =
     (if si_flags sysinfo \<noteq> 0 then sysinfo
      else (let ncpus = word_of_int (s_ncpu server + 1) :: guint64;
                model = (case fb_sysctl K ''hw.model'' of None \<Rightarrow> None | Some bs \<Rightarrow> if bs = [] then None else Some (c_str bs));
                mhz = bytes_u32 (snd (sysctl_into K ''hw.clockrate'' (replicate 4 NUL)));
                n = min GLIBTOP_NCPU (unat ncpus)
            in \<lparr>si_flags = flag 1, si_ncpu = of_nat n, si_cpuinfo = map (cpuinfo_entry_fb model mhz) [0..<n]\<rparr>))"

definition glibtop_get_sysinfo_s_fb :: "fbsd \<Rightarrow> glibtop \<Rightarrow> glibtop_sysinfo \<Rightarrow> glibtop_sysinfo \<times> glibtop_sysinfo" where
  "glibtop_get_sysinfo_s_fb K server sysinfo = (let si = init_sysinfo_fb K server sysinfo in (si, si))"

definition glibtop_sys_siglist_fb :: "(nat \<times> (string \<times> string) option) list" where
  "glibtop_sys_siglist_fb =
     [(1, Some (''SIGHUP'', ''Hangup'')), (2, Some (''SIGINT'', ''Interrupt'')), (3, Some (''SIGQUIT'', ''Quit'')),
      (4, Some (''SIGILL'', ''Illegal Instruction'')), (5, Some (''SIGTRAP'', ''Trace/Breakpoint Trap'')),
      (6, Some (''SIGABRT'', ''Abort'')), (7, Some (''SIGEMT'', ''Emulation Trap'')),
      (8, Some (''SIGFPE'', ''Arithmetic Exception'')), (9, Some (''SIGKILL'', ''Killed'')),
      (10, Some (''SIGBUS'', ''Bus Error'')), (11, Some (''SIGSEGV'', ''Segmentation Fault'')),
      (12, Some (''SIGSYS'', ''Bad System Call'')), (13, Some (''SIGPIPE'', ''Broken Pipe'')),
      (14, Some (''SIGALRM'', ''Alarm Clock'')), (15, Some (''SIGTERM'', ''Terminated'')),
      (16, Some (''SIGURG'', ''Urgent Condition Present On Socket'')),
      (17, Some (''SIGSTOP'', ''Stop (cannot be caught or ignored)'')),
      (18, Some (''SIGTSTP'', ''Stop Signal Generated From Keyboard'')), (19, Some (''SIGCONT'', ''Continue After Stop'')),
      (20, Some (''SIGCHLD'', ''Child Status Has Changed'')),
      (21, Some (''SIGTTIN'', ''Background Read Attempted From Control Terminal'')),
      (22, Some (''SIGTTOU'', ''Background Write Attempted To Control Terminal'')),
      (23, Some (''SIGIO'', ''I/O Is Possible On A Descriptor'')), (24, Some (''SIGXCPU'', ''CPU Time Limit Exceeded'')),
      (25, Some (''SIGXFSZ'', ''File Size Limit Exceeded'')), (26, Some (''SIGVTALRM'', ''Virtual Time Alarm'')),
      (27, Some (''SIGPROF'', ''Profiling Timer Alarm'')), (28, Some (''SIGWINCH'', ''Window Size Change'')),
      (29, Some (''SIGINFO'', ''Status Request From Keyboard'')), (30, Some (''SIGUSR1'', ''User Defined Signal 1'')),
      (31, Some (''SIGUSR2'', ''User Defined Signal 2'')), (32, Some (''SIGTHR'', ''Thread Interrupt'')), (0, None)]"

definition init_disk_s_fb :: "glibtop \<Rightarrow> glibtop" where
  "init_disk_s_fb server = set_sysdeps F_DISK 0 server"

definition glibtop_get_disk_s_fb :: glibtop_disk where
  "glibtop_get_disk_s_fb = disk_zero"

definition glibtop_get_netlist_s_fb :: "fbsd \<Rightarrow> glibtop_netlist \<times> string list" where
  "glibtop_get_netlist_s_fb K =
     (let devices = (case fb_ifnames K of None \<Rightarrow> [] | Some ns \<Rightarrow> ns)
      in (\<lparr>nli_flags = sysdeps_netlist, nli_number = of_nat (length devices)\<rparr>, devices))"

section \<open>What the functions return\<close>

lemma sysctl_exact [simp]:
  "fb_sysctl K name = Some bs \<Longrightarrow> length bs = length old \<Longrightarrow> sysctl_into K name old = (True, bs)"
  "fb_sysctl K name = None \<Longrightarrow> sysctl_into K name old = (False, old)"
  by (simp_all add: sysctl_into_def)

lemma length_uninit [simp]: "length (uninit K n) = n"
  by (simp add: uninit_def)

lemma sysctl_var_exact:
  "fb_sysctl K name = Some (u32_bytes w) \<Longrightarrow> sysctl_int K name = Some w"
  "fb_sysctl K name = Some (u64_bytes v) \<Longrightarrow> sysctl_long K name = Some v"
  by (simp_all add: sysctl_int_def sysctl_long_def)

lemma bytes_u64s_exact [simp]: "bytes_u64s (length ws) (u64s_bytes ws) = ws"
  using bytes_u64s_u64s [of ws _ "[]"] by simp

lemma length_concat_rows: "\<forall>r\<in>set rows. length r = n \<Longrightarrow> length (concat rows) = n * length rows"
  by (induction rows) simp_all

lemma concat_nth:
  "\<forall>r\<in>set rows. length r = n \<Longrightarrow> i < length rows \<Longrightarrow> k < n \<Longrightarrow> concat rows ! (i * n + k) = rows ! i ! k"
  by (induction rows arbitrary: i) (auto simp: nth_append nth_Cons split: nat.splits)

lemma read_cp_times_rows:
  assumes "fb_sysctl K ''kern.cp_times'' = Some (u64s_bytes (concat rows))"
    and "\<forall>r\<in>set rows. length r = CPUSTATES" "rows \<noteq> []"
  shows "read_cp_times K = Some (concat rows)"
proof -
  have l: "length (u64s_bytes (concat rows)) = 40 * length rows"
    using length_concat_rows [OF assms(2)] by simp
  moreover have "bytes_u64s (40 * length rows div 8) (u64s_bytes (concat rows)) = concat rows"
    using bytes_u64s_exact [of "concat rows"] length_concat_rows [OF assms(2)] by simp
  moreover have "u64s_bytes (concat rows) \<noteq> []" using l assms(3) by (metis length_0_conv mult_is_0 zero_neq_numeral)
  ultimately show ?thesis by (simp add: read_cp_times_def assms(1) l)
qed

lemma cpu_row_fb_rows:
  assumes "\<forall>r\<in>set rows. length r = CPUSTATES" and "i < length rows"
  shows "cpu_row_fb (Some (concat rows)) cpts ncpu i = Inr (rows ! i)"
proof -
  have "i * 5 + 5 \<le> length (concat rows)"
    using length_concat_rows [OF assms(1)] assms(2) by simp
  moreover have "length (rows ! i) = 5" using assms by simp
  moreover have "map (\<lambda>k. concat rows ! (i * 5 + k)) [0..<5] = rows ! i"
    using \<open>length (rows ! i) = 5\<close> concat_nth [OF assms] by (auto intro!: nth_equalityI)
  ultimately show ?thesis by (simp add: cpu_row_fb_def)
qed

lemma cpu_row_fb_share:
  "length cpts = CPUSTATES \<Longrightarrow> cpu_row_fb None cpts n i = Inr (map (\<lambda>c. word_of_int (sint c sdiv n)) cpts)"
  by (auto simp: cpu_row_fb_def intro!: nth_equalityI)

definition row_of_states :: "guint64 list \<Rightarrow> guint64 list" where
  \<comment> \<open>the order of \<open>xcpu_row\<close>\<close>
  "row_of_states v = [v ! CP_USER, v ! CP_NICE, v ! CP_SYS, v ! CP_IDLE, 0, v ! CP_INTR, 0,
     v ! CP_USER + v ! CP_NICE + v ! CP_SYS + v ! CP_IDLE + v ! CP_INTR]"

lemma xcpu_loop_fb_rows:
  assumes "\<And>j. i \<le> j \<Longrightarrow> j < i + left \<Longrightarrow> cpu_row_fb cp cpts n j = Inr (v j)"
    and "i + left \<le> GLIBTOP_NCPU" and "\<And>j. i \<le> j \<Longrightarrow> xcpu_row buf j = replicate 8 0"
  shows "\<exists>b. xcpu_loop_fb cp cpts n left i buf = Inr b \<and> global_row b = global_row buf
    \<and> (\<forall>j. xcpu_row b j = (if i \<le> j \<and> j < i + left then row_of_states (v j) else xcpu_row buf j))"
  using assms
proof (induction left arbitrary: i buf)
  case 0
  then show ?case by auto
next
  case (Suc left)
  define buf' where "buf' = buf\<lparr>xcpu_user := (xcpu_user buf)(i := v i ! CP_USER), xcpu_nice := (xcpu_nice buf)(i := v i ! CP_NICE),
             xcpu_sys := (xcpu_sys buf)(i := v i ! CP_SYS), xcpu_idle := (xcpu_idle buf)(i := v i ! CP_IDLE),
             xcpu_irq := (xcpu_irq buf)(i := v i ! CP_INTR),
             xcpu_total := (xcpu_total buf)(i := v i ! CP_USER + v i ! CP_NICE + v i ! CP_SYS + v i ! CP_IDLE + v i ! CP_INTR)\<rparr>"
  have z: "xcpu_iowait buf i = 0" "xcpu_softirq buf i = 0"
    using Suc.prems(3) [of i] by (simp_all add: xcpu_row_def numeral_eq_Suc)
  have r: "xcpu_row buf' j = (if j = i then row_of_states (v i) else xcpu_row buf j)" for j
    using z by (simp add: buf'_def xcpu_row_def row_of_states_def)
  have "xcpu_loop_fb cp cpts n (Suc left) i buf = xcpu_loop_fb cp cpts n left (Suc i) buf'"
    using Suc.prems(1) [of i] Suc.prems(2) by (simp add: buf'_def)
  moreover obtain b where "xcpu_loop_fb cp cpts n left (Suc i) buf' = Inr b" "global_row b = global_row buf'"
    "\<forall>j. xcpu_row b j = (if Suc i \<le> j \<and> j < Suc i + left then row_of_states (v j) else xcpu_row buf' j)"
    using Suc.IH [of "Suc i" buf'] Suc.prems r by auto
  moreover have "global_row buf' = global_row buf" by (simp add: buf'_def global_row_def)
  ultimately show ?case using r by auto
qed

text \<open>
  The processors on FreeBSD, from opening the library to the getter: with \<open>m\<close> processors, at most
  1024 are reported, and no array is left at either end. The totals are the five counters of
  \<open>kern.cp_time\<close>, in the order of the struct; processor \<open>i\<close> has row \<open>i\<close> of \<open>kern.cp_times\<close>, or, where the kernel
  does not know that name, an equal share of the totals, rounded towards 0. Each total is the sum of
  its row, and the fields of single processors are announced exactly when there are two or more.
\<close>

theorem cpu_fb_spec:
  fixes K :: fbsd and rows :: "guint64 list list option"
  assumes hw: "fb_sysctl K ''hw.ncpu'' = Some (u32_bytes (of_nat m))" "0 < m" "m < 2 ^ 31"
    and cp: "fb_sysctl K ''kern.cp_time'' = Some (u64s_bytes cpts)" "length cpts = CPUSTATES"
    and ci: "fb_clockrate K = Some ci"
    and rows: "fb_sysctl K ''kern.cp_times'' = map_option (\<lambda>rs. u64s_bytes (concat rs)) rows"
      "\<And>rs. rows = Some rs \<Longrightarrow> length rs = m \<and> (\<forall>r\<in>set rs. length r = CPUSTATES)"
  shows "\<exists>b. glibtop_get_cpu_s_fb K (glibtop_open_s_fb K server) = Inr b
    \<and> global_row b = take 8 (row_of_states cpts) @ [stat_frequency ci,
          if 1 < m then sysdeps_cpu_fb OR sysdeps_cpu_smp_fb else sysdeps_cpu_fb]
    \<and> (\<forall>i. xcpu_row b i = (if i < min GLIBTOP_NCPU m
          then row_of_states (case rows of Some rs \<Rightarrow> rs ! i
                              | None \<Rightarrow> map (\<lambda>c. word_of_int (sint c sdiv int (min GLIBTOP_NCPU m))) cpts)
          else replicate 8 0))"
proof -
  define n where "n = min GLIBTOP_NCPU m"
  have "sint (of_nat m :: 32 word) = int m" using hw(3)
    by (simp add: signed_of_nat signed_take_bit_int_eq_self)
  then have s: "s_ncpu (glibtop_open_s_fb K server) + 1 = int n"
    using hw by (simp add: glibtop_open_s_fb_def Let_def n_def)
  define v where "v i = (case rows of Some rs \<Rightarrow> rs ! i | None \<Rightarrow> map (\<lambda>c. word_of_int (sint c sdiv int n)) cpts)" for i
  have row: "cpu_row_fb (read_cp_times K) cpts (int n) i = Inr (v i)" if "i < n" for i
  proof (cases rows)
    case None
    then have "read_cp_times K = None" using rows(1) by (simp add: read_cp_times_def)
    with None show ?thesis using cpu_row_fb_share [OF cp(2)] by (simp add: v_def)
  next
    case (Some rs)
    with rows hw(2) have "read_cp_times K = Some (concat rs)" "i < length rs"
      using that by (auto intro!: read_cp_times_rows simp: n_def)
    then show ?thesis using cpu_row_fb_rows [of rs i cpts "int n"] rows(2) [OF Some] Some by (simp add: v_def)
  qed
  define buf where "buf = cpu_zero\<lparr>cpu_user := cpts ! CP_USER, cpu_nice := cpts ! CP_NICE, cpu_sys := cpts ! CP_SYS,
                            cpu_idle := cpts ! CP_IDLE, cpu_irq := cpts ! CP_INTR, cpu_frequency := stat_frequency ci,
                            cpu_total := cpts ! CP_USER + cpts ! CP_NICE + cpts ! CP_SYS + cpts ! CP_IDLE + cpts ! CP_INTR\<rparr>"
  have g: "bytes_u64s CPUSTATES (u64s_bytes cpts) = cpts" using bytes_u64s_exact [of cpts] cp(2) by simp
  obtain b where b: "xcpu_loop_fb (read_cp_times K) cpts (int n) n 0 buf = Inr b" "global_row b = global_row buf"
    "\<forall>j. xcpu_row b j = (if j < n then row_of_states (v j) else xcpu_row buf j)"
    using xcpu_loop_fb_rows [of 0 n "read_cp_times K" cpts "int n" v buf] row
    by (auto simp: n_def buf_def xcpu_row_def cpu_zero_def numeral_eq_Suc)
  have "glibtop_get_cpu_s_fb K (glibtop_open_s_fb K server)
      = Inr (b\<lparr>cpu_flags := if 1 < n then sysdeps_cpu_fb OR sysdeps_cpu_smp_fb else sysdeps_cpu_fb\<rparr>)"
    using cp b(1) by (simp add: glibtop_get_cpu_s_fb_def ci s Let_def g buf_def)
  moreover have "xcpu_row (b\<lparr>cpu_flags := x\<rparr>) = xcpu_row b" for x by (simp add: xcpu_row_def fun_eq_iff)
  moreover have "global_row (b\<lparr>cpu_flags := x\<rparr>) = take 8 (row_of_states cpts) @ [stat_frequency ci, x]" for x
    using b(2) by (simp add: global_row_def row_of_states_def buf_def cpu_zero_def)
  moreover have "xcpu_row buf j = replicate 8 0" for j by (simp add: buf_def xcpu_row_def cpu_zero_def numeral_eq_Suc)
  moreover have "1 < n \<longleftrightarrow> 1 < m" by (simp add: n_def)
  ultimately show ?thesis using b(3) unfolding n_def [symmetric] v_def by auto
qed

definition demo_fbsd :: fbsd where
  \<comment> \<open>two processors\<close>
  "demo_fbsd =
     \<lparr>fb_sysctl = (\<lambda>name.
        if name = ''hw.ncpu'' then Some (u32_bytes 2)
        else if name = ''kern.cp_time'' then Some (u64s_bytes [5, 0, 7, 1, 90])
        else if name = ''kern.cp_times'' then Some (u64s_bytes [3, 0, 5, 1, 40, 2, 0, 2, 0, 50])
        else None),
      fb_stack = [], fb_clockrate = Some \<lparr>ci_hz = 1000, ci_stathz = 127\<rparr>, fb_boottime = None, fb_now = 0,
      fb_double = word_of_int, fb_div = (\<lambda>a b. a div b), fb_loadavg = None, fb_pagesize = 4096,
      fb_swapinfo = (0, \<lambda>_. \<lparr>ksw_used = 0, ksw_total = 0\<rparr>), fb_ifnames = None, fb_version = 1200000\<rparr>"

theorem cpu_fb_spec_witness:
  "\<exists>b. glibtop_get_cpu_s_fb demo_fbsd (glibtop_open_s_fb demo_fbsd glibtop_global_server) = Inr b
     \<and> xcpu_row b 1 = [2, 0, 2, 50, 0, 0, 0, 54] \<and> cpu_frequency b = 127"
proof -
  let ?rows = "Some [[3, 0, 5, 1, 40], [2, 0, 2, 0, 50]] :: guint64 list list option"
  have f: "fb_sysctl demo_fbsd ''hw.ncpu'' = Some (u32_bytes (of_nat 2))"
    "fb_sysctl demo_fbsd ''kern.cp_time'' = Some (u64s_bytes [5, 0, 7, 1, 90])"
    "fb_clockrate demo_fbsd = Some \<lparr>ci_hz = 1000, ci_stathz = 127\<rparr>"
    "fb_sysctl demo_fbsd ''kern.cp_times'' = map_option (\<lambda>rs. u64s_bytes (concat rs)) ?rows"
    by (simp_all add: demo_fbsd_def)
  have r: "length rs = 2 \<and> (\<forall>r\<in>set rs. length r = 5)" if "?rows = Some rs" for rs
    using that by auto
  from cpu_fb_spec [OF f(1) _ _ f(2) _ f(3,4) r, of glibtop_global_server]
  obtain b where b: "glibtop_get_cpu_s_fb demo_fbsd (glibtop_open_s_fb demo_fbsd glibtop_global_server) = Inr b"
    "global_row b = take 8 (row_of_states [5, 0, 7, 1, 90]) @ [stat_frequency \<lparr>ci_hz = 1000, ci_stathz = 127\<rparr>,
        sysdeps_cpu_fb OR sysdeps_cpu_smp_fb]"
    "xcpu_row b 1 = row_of_states [2, 0, 2, 0, 50]"
    by fastforce
  have "xcpu_row b 1 = [2, 0, 2, 50, 0, 0, 0, 54]" using b(3) by (simp add: row_of_states_def)
  moreover have "cpu_frequency b = 127"
    using b(2) by (simp add: global_row_def row_of_states_def stat_frequency_def)
  ultimately show ?thesis using b(1) by blast
qed

end
