(* ===== verification/Gnuserv.thy ===== *)
theory Gnuserv
  imports Daemon
begin

unbundle bit_operations_syntax

text \<open>
  Who may talk to the daemon: the authentication of \<open>src/daemon/gnuserv.c\<close>, the client's side of it
  in \<open>sysdeps/common/gnuslib.c\<close>, and how the servers give up the rights of the superuser
  (\<open>gnuserv.c\<close>, \<open>server.c\<close>, \<open>sysdeps/linux/suid_open.c\<close>, \<open>glibtop_suid.h\<close>).
  The log output is left out.
\<close>

section \<open>timed_read\<close>

text \<open>One byte from the socket: \<open>None\<close> where \<open>select\<close> runs into the timeout (nothing more comes), or
  \<open>select\<close> or \<open>read\<close> fail.\<close>

fun next_byte :: "nev list \<Rightarrow> (char \<times> nev list) option" where
  "next_byte (Recv (c # cs) # evs) = Some (c, if cs = [] then evs else Recv cs # evs)"
| "next_byte _ = None"

lemma next_byte_size: "next_byte evs = Some (c, evs') \<Longrightarrow> stream_size evs' < stream_size evs"
  by (cases evs rule: next_byte.cases) (auto split: if_splits)

function timed_read_loop ::
  "nat \<Rightarrow> bool \<Rightarrow> nev list \<Rightarrow> string \<Rightarrow> (string \<times> nev list) option" where
  "timed_read_loop mx one_line evs got =
     (case next_byte evs of
        None \<Rightarrow> None
      | Some (c, evs') \<Rightarrow>
          (let got = got @ [c] in
           if length got < mx \<and> \<not> (one_line \<and> c = NL) then timed_read_loop mx one_line evs' got
           else Some (got, evs')))"
  by pat_completeness auto
termination
  by (relation "measure (\<lambda>(_, _, evs, _). stream_size evs)") (auto simp: next_byte_size)

declare timed_read_loop.simps [simp del]

text \<open>The number of bytes, what is in the buffer then (\<open>buf\<close> is what it held before), the rest of the
  stream; \<open>None\<close>: the result is -1.\<close>

definition timed_read :: "string \<Rightarrow> nat \<Rightarrow> bool \<Rightarrow> nev list \<Rightarrow> (nat \<times> string \<times> nev list) option" where
  "timed_read buf mx one_line evs =
     map_option (\<lambda>(got, evs).
       (length got,
        (if one_line \<and> last got = NL then butlast got @ [NUL] else got) @ drop (length got) buf, evs))
       (timed_read_loop mx one_line evs [])"

section \<open>permitted\<close>

definition DEFAUTH_NAME :: string where "DEFAUTH_NAME = ''GNU-SECURE''"
definition MCOOKIE_NAME :: string where "MCOOKIE_NAME = ''MAGIC-1''"
abbreviation "AUTH_NAMESZ \<equiv> 15 :: nat"

text \<open>What the daemon knows: the cookie of its display (\<open>None\<close>: there is none, or it is compiled without
  Xauth), whether \<open>inetd\<close> started it, and \<open>permitted_hosts\<close>.\<close>

record auth_config =
  ac_xauth :: "string option"
  ac_inetd :: bool
  ac_hosts :: "guint64 list"

text \<open>\<open>!memcmp (buf, data, n)\<close> for a buffer of more than \<open>n\<close> bytes: the data may be shorter.\<close>

definition memcmp_eq :: "string \<Rightarrow> string \<Rightarrow> nat \<Rightarrow> bool res" where
  "memcmp_eq buf data n =
     (if n \<le> length data then Inr (take n buf = take n data)
      else if take (length data) buf = data then Inl (Crash ''memcmp reads behind the cookie'')
      else Inr False)"

text \<open>\<open>None\<close>: the function goes on with the next method.\<close>

definition check_cookie ::
  "auth_config \<Rightarrow> string \<Rightarrow> nev list \<Rightarrow> (bool option \<times> nev list) res" where
  "check_cookie A buf evs =
     (case timed_read buf 10 True evs of
        None \<Rightarrow> Inr (Some False, evs)
      | Some (_, buf, evs) \<Rightarrow>
          (let auth_data_len = sint (atoi (c_str buf)) in
           if auth_data_len < 1 \<or> 1024 < auth_data_len then Inr (Some False, evs)
           else case timed_read buf (nat auth_data_len) False evs of
             None \<Rightarrow> Inr (Some False, evs)
           | Some (n, buf, evs) \<Rightarrow>
               (if n \<noteq> nat auth_data_len then Inr (Some False, evs)
                else case ac_xauth A of
                  None \<Rightarrow> Inr (None, evs)
                | Some data \<Rightarrow>
                    (if ac_inetd A then Inr (None, evs)
                     else bind_res (memcmp_eq buf data (nat auth_data_len)) (\<lambda>eq.
                       Inr (if eq then Some True else None, evs))))))"

fun check_hosts :: "guint64 \<Rightarrow> guint64 list \<Rightarrow> bool" where
  "check_hosts host_addr [] = False"
| "check_hosts host_addr (h # hs) =
     (if h = 0 then False else if host_addr = h then True else check_hosts host_addr hs)"

text \<open>\<open>stack\<close> is what the two buffers on the stack hold when the function starts.\<close>

definition permitted ::
  "auth_config \<Rightarrow> string \<times> string \<Rightarrow> guint64 \<Rightarrow> nev list \<Rightarrow> (bool \<times> nev list) res" where
  "permitted A stack host_addr evs =
     (case timed_read (fst stack) AUTH_NAMESZ True evs of
        None \<Rightarrow> Inr (False, evs)
      | Some (_, buf, evs) \<Rightarrow>
          (let auth_protocol = c_str buf in
           if auth_protocol \<noteq> DEFAUTH_NAME \<and> auth_protocol \<noteq> MCOOKIE_NAME then Inr (False, evs)
           else bind_res (if auth_protocol = MCOOKIE_NAME then check_cookie A (snd stack) evs else Inr (None, evs))
             (\<lambda>(r, evs). case r of
                Some b \<Rightarrow> Inr (b, evs)
              | None \<Rightarrow> Inr (check_hosts host_addr (ac_hosts A), evs))))"

section \<open>setup_table\<close>

text \<open>\<open>getaddrinfo node service\<close> gives the address of the first result, if there is one; the function
  passes the host as the service.\<close>

type_synonym resolver = "string option \<Rightarrow> string option \<Rightarrow> guint32 option"

definition glibtop_internet_addr :: "resolver \<Rightarrow> string \<Rightarrow> guint64" where
  "glibtop_internet_addr getaddrinfo host =
     (case getaddrinfo None (Some host) of None \<Rightarrow> - 1 | Some a \<Rightarrow> ucast a)"

fun resolve_hosts :: "resolver \<Rightarrow> string option list \<Rightarrow> guint64 list res" where
  "resolve_hosts gai [] = Inr []"
| "resolve_hosts gai (None # names) = bind_res (resolve_hosts gai names) (\<lambda>hs. Inr (0 # hs))"
| "resolve_hosts gai (Some name # names) =
     (let h = glibtop_internet_addr gai name in
      if h = - 1 then Inl (Exit ''Can't resolve'')
      else bind_res (resolve_hosts gai names) (\<lambda>hs. Inr (h # hs)))"

text \<open>The table and the number of hosts. The address of the machine itself is looked up, but not put
  into the table.\<close>

definition setup_table ::
  "resolver \<Rightarrow> string \<Rightarrow> bool \<Rightarrow> string option list \<Rightarrow> (guint64 list \<times> nat) res" where
  "setup_table gai hostname with_xauth permitted_host_names =
     (if glibtop_internet_addr gai hostname = - 1 then Inl (Exit ''Can't resolve'')
      else bind_res (resolve_hosts gai permitted_host_names) (\<lambda>hosts.
        Inr (hosts, (if with_xauth then 1 else 0) + length permitted_host_names)))"

section \<open>A connection\<close>

text \<open>The child that answers a client: the bytes it writes and how it ends. The parent goes back to its
  loop.\<close>

definition handle_internet_request ::
  "auth_config \<Rightarrow> string \<times> string \<Rightarrow> guint64 \<Rightarrow> string \<Rightarrow> string \<Rightarrow> service \<Rightarrow> glibtop_sysdeps
     \<Rightarrow> nev list \<Rightarrow> string \<times> unit res" where
  "handle_internet_request A stack host_addr version server_version svc sysdeps evs =
     (case permitted A stack host_addr evs of
        Inl e \<Rightarrow> ([], Inl e)
      | Inr (False, _) \<Rightarrow> ([], Inr ())
      | Inr (True, evs) \<Rightarrow> handle_parent_connection version server_version svc sysdeps evs)"

section \<open>The client's side\<close>

datatype conn_target = ConnUnix string | ConnInternet string "16 word"

text \<open>\<open>euid\<close> is the effective user; \<open>hostarg\<close> and \<open>portarg\<close> are arguments, \<open>env_host\<close> and \<open>env_port\<close>
  the variables \<open>LIBGTOP_HOST\<close> and \<open>LIBGTOP_PORT\<close>.\<close>

definition glibtop_make_connection ::
  "int \<Rightarrow> string option \<Rightarrow> string option \<Rightarrow> string option \<Rightarrow> gint32 \<Rightarrow> conn_target" where
  "glibtop_make_connection euid env_host env_port hostarg portarg =
     (let hostarg = (if hostarg = None then env_host else hostarg);
          portarg = (if portarg = 0 then (case env_port of None \<Rightarrow> portarg | Some p \<Rightarrow> atoi p) else portarg);
          unix = ConnUnix (''/tmp/lgtddir'' @ show_int euid @ ''/lgtd'')
      in case hostarg of
           None \<Rightarrow> unix
         | Some h \<Rightarrow> if h = ''unix'' then unix else ConnInternet h (ucast portarg))"

text \<open>The address and port (in host order) that the client connects to, and what it writes first.
  \<open>s_addr\<close> has 32 bits, so that as a \<open>long\<close> it is never -1.\<close>

definition connect_address ::
  "resolver \<Rightarrow> (string \<Rightarrow> string \<Rightarrow> 16 word option) \<Rightarrow> int \<Rightarrow> string \<Rightarrow> 16 word \<Rightarrow> (guint32 \<times> 16 word) res" where
  "connect_address gai getservbyname uid serverhost port =
     (let s_addr = ucast (glibtop_internet_addr gai serverhost) :: guint32 in
      if (ucast s_addr :: guint64) = - 1 then Inl (Exit ''unable to find host'')
      else Inr (s_addr, if port \<noteq> 0 then port
                        else case getservbyname ''gtopd'' ''tcp'' of
                          None \<Rightarrow> of_int (21490 + uid) | Some p \<Rightarrow> p))"

definition client_credentials :: "string option \<Rightarrow> string" where
  "client_credentials xauth =
     (case xauth of
        Some data \<Rightarrow> MCOOKIE_NAME @ [NL] @ show_nat (length data) @ [NL] @ data
      | None \<Rightarrow> DEFAUTH_NAME @ [NL])"

section \<open>Users\<close>

text \<open>The ids of a process and the calls of POSIX, as Linux documents them: the superuser may set
  anything, others only to one of the ids they have; setting the real id, or an effective id that is
  not the real one, sets the saved id to the new effective id. \<open>None\<close>: the call fails.\<close>

record cred =
  ruid :: nat
  euid :: nat
  suid :: nat
  rgid :: nat
  egid :: nat
  sgid :: nat

definition setreuid :: "nat \<Rightarrow> nat \<Rightarrow> cred \<Rightarrow> cred option" where
  "setreuid r e c =
     (if euid c = 0 \<or> (r \<in> {ruid c, euid c} \<and> e \<in> {ruid c, euid c, suid c})
      then Some (c\<lparr>ruid := r, euid := e, suid := e\<rparr>) else None)"

definition setregid :: "nat \<Rightarrow> nat \<Rightarrow> cred \<Rightarrow> cred option" where
  "setregid r e c =
     (if euid c = 0 \<or> (r \<in> {rgid c, egid c} \<and> e \<in> {rgid c, egid c, sgid c})
      then Some (c\<lparr>rgid := r, egid := e, sgid := e\<rparr>) else None)"

definition SERVER_UID :: nat where "SERVER_UID = 99"
definition SERVER_GID :: nat where "SERVER_GID = 99"

text \<open>\<open>main\<close> of \<open>gnuserv.c\<close>: what the daemon does with its rights before it listens.\<close>

definition daemon_drop :: "cred \<Rightarrow> cred res" where
  "daemon_drop c =
     (if euid c = 0 then
        (case setregid SERVER_GID SERVER_GID c of
           None \<Rightarrow> Inl (Exit ''setregid (SERVER_GID)'')
         | Some c \<Rightarrow> (case setreuid SERVER_UID SERVER_UID c of
             None \<Rightarrow> Inl (Exit ''setreuid (SERVER_UID)'') | Some c \<Rightarrow> Inr c))
      else case setreuid (euid c) (euid c) c of
        None \<Rightarrow> Inl (Exit ''setreuid (euid)'') | Some c \<Rightarrow> Inr c)"

text \<open>\<open>glibtop_open_p\<close> and \<open>glibtop_init_p\<close>: the machine structure and the ids. \<open>hook\<close> are the
  init functions of the port.\<close>

definition glibtop_open_p :: "glibtop \<Rightarrow> cred \<Rightarrow> (glibtop \<times> cred) res" where
  "glibtop_open_p server c =
     (let m = \<lparr>m_uid = int (ruid c), m_euid = int (euid c), m_gid = int (rgid c), m_egid = int (egid c)\<rparr> in
      case setreuid (euid c) (ruid c) c of
        None \<Rightarrow> Inl (Exit ''_exit'')
      | Some c' \<Rightarrow> (case setregid (egid c) (rgid c) c' of
            None \<Rightarrow> Inl (Exit ''_exit'')
          | Some c'' \<Rightarrow> Inr (server\<lparr>s_machine := Some m\<rparr>, c'')))"

definition glibtop_init_p ::
  "(feature \<Rightarrow> bool) \<Rightarrow> (feature \<Rightarrow> glibtop \<Rightarrow> glibtop) \<Rightarrow> glibtop \<Rightarrow> cred \<Rightarrow> (glibtop \<times> cred) res" where
  "glibtop_init_p sf hook server c =
     (if s_flags server AND GLIBTOP_INIT_STATE_SYSDEPS \<noteq> 0 then Inr (server, c)
      else bind_res (glibtop_open_p server c) (\<lambda>(server, c).
        let server = fold hook (glibtop_init_hook_p sf) server in
        Inr (server\<lparr>s_flags := s_flags server OR GLIBTOP_INIT_STATE_SYSDEPS\<rparr>, c)))"

text \<open>\<open>glibtop_suid_enter\<close> ignores a failure, \<open>glibtop_suid_leave\<close> ends the process.\<close>

definition glibtop_suid_enter :: "glibtop_machine \<Rightarrow> cred \<Rightarrow> cred" where
  "glibtop_suid_enter m c = (case setreuid (nat (m_uid m)) (nat (m_euid m)) c of None \<Rightarrow> c | Some c \<Rightarrow> c)"

definition glibtop_suid_leave :: "glibtop_machine \<Rightarrow> cred \<Rightarrow> cred res" where
  "glibtop_suid_leave m c =
     (case setreuid (nat (m_euid m)) (nat (m_uid m)) c of None \<Rightarrow> Inl (Exit ''_exit'') | Some c \<Rightarrow> Inr c)"

text \<open>\<open>main\<close> of \<open>server.c\<close> on Linux, up to the loop over the commands. \<open>uname\<close>: whether it works.\<close>

definition suid_server_start ::
  "bool \<Rightarrow> (feature \<Rightarrow> bool) \<Rightarrow> (feature \<Rightarrow> glibtop \<Rightarrow> glibtop) \<Rightarrow> cred \<Rightarrow> (glibtop \<times> cred) res" where
  "suid_server_start uname sf hook c =
     (if \<not> uname then Inl (Exit ''_exit'')
      else let server = glibtop_global_server\<lparr>s_machine := Some \<lparr>m_uid = 0, m_euid = 0, m_gid = 0, m_egid = 0\<rparr>\<rparr> in
        bind_res (glibtop_init_p sf hook server c) (\<lambda>(server, c').
        case setreuid (euid c) (ruid c) c' of
          None \<Rightarrow> Inl (Exit ''_exit'')
        | Some c' \<Rightarrow> (case setregid (egid c) (rgid c) c' of
              None \<Rightarrow> Inl (Exit ''_exit'') | Some c' \<Rightarrow> Inr (server, c'))))"

section \<open>Reading what a client sends\<close>

lemma next_byte_smooth:
  assumes "smooth evs" and "stream_bytes evs = c # r"
  shows "\<exists>evs'. next_byte evs = Some (c, evs') \<and> smooth evs' \<and> stream_bytes evs' = r"
  using assms by (cases evs rule: next_byte.cases) (auto simp: smooth_def)

lemma timed_read_line_loop:
  assumes "smooth evs" and "stream_bytes evs = l @ NL # rest" and "NL \<notin> set l"
    and "length got + length l < mx"
  shows "\<exists>evs'. timed_read_loop mx True evs got = Some (got @ l @ [NL], evs') \<and> smooth evs' \<and> stream_bytes evs' = rest"
  using assms
proof (induction l arbitrary: evs got)
  case Nil
  then show ?case
    using next_byte_smooth [of evs NL rest] by (subst timed_read_loop.simps) auto
next
  case (Cons c l)
  obtain evs' where n: "next_byte evs = Some (c, evs')" "smooth evs'" "stream_bytes evs' = l @ NL # rest"
    using next_byte_smooth [of evs c] Cons.prems by auto
  have "timed_read_loop mx True evs got = timed_read_loop mx True evs' (got @ [c])"
    using Cons.prems n(1) by (subst timed_read_loop.simps) auto
  with Cons.IH [OF n(2,3), of "got @ [c]"] Cons.prems show ?case by auto
qed

lemma timed_read_exact_loop:
  assumes "smooth evs" and "stream_bytes evs = l @ rest" and "l \<noteq> []" and "length got + length l = mx"
  shows "\<exists>evs'. timed_read_loop mx False evs got = Some (got @ l, evs') \<and> smooth evs' \<and> stream_bytes evs' = rest"
  using assms
proof (induction l arbitrary: evs got)
  case (Cons c l)
  obtain evs' where n: "next_byte evs = Some (c, evs')" "smooth evs'" "stream_bytes evs' = l @ rest"
    using next_byte_smooth [of evs c] Cons.prems by auto
  show ?case
  proof (cases "l = []")
    case True
    with n Cons.prems show ?thesis by (subst timed_read_loop.simps) auto
  next
    case False
    then have "timed_read_loop mx False evs got = timed_read_loop mx False evs' (got @ [c])"
      using Cons.prems n(1) by (subst timed_read_loop.simps) (cases l, auto)
    with Cons.IH [OF n(2,3) False, of "got @ [c]"] Cons.prems show ?thesis by auto
  qed
qed simp

lemma timed_read_line:
  assumes "smooth evs" and "stream_bytes evs = l @ NL # rest" and "NL \<notin> set l" and "length l < mx"
  obtains evs' where "timed_read buf mx True evs = Some (Suc (length l), l @ NUL # drop (Suc (length l)) buf, evs')"
    and "smooth evs'" and "stream_bytes evs' = rest"
  using timed_read_line_loop [OF assms(1-3), of "[]" mx] assms(4) by (auto simp: timed_read_def)

lemma timed_read_exact:
  assumes "smooth evs" and "stream_bytes evs = l @ rest" and "l \<noteq> []"
  obtains evs' where "timed_read buf (length l) False evs = Some (length l, l @ drop (length l) buf, evs')"
    and "smooth evs'" and "stream_bytes evs' = rest"
  using timed_read_exact_loop [OF assms, of "[]" "length l"] by (auto simp: timed_read_def)

lemma atoi_show: "n \<le> 1024 \<Longrightarrow> sint (atoi (show_nat n)) = int n"
proof -
  assume n: "n \<le> 1024"
  have "strto 10 ([] @ show_nat n @ []) = Some (False, n, [])" by (rule strto_show) simp_all
  then have "atoi (show_nat n) = of_nat n" using n by (simp add: atoi_def strtol_def unsigned_of_nat take_bit_nat_eq_self)
  then show ?thesis using n by (simp add: sint_word_ariths(1) signed_of_nat signed_take_bit_int_eq_self)
qed

text \<open>The first line of the magic cookie protocol, the length and that many bytes.\<close>

lemma check_cookie_sent:
  assumes evs: "smooth evs" "stream_bytes evs = show_nat n @ NL # l @ rest" and n: "length l = n" "1 \<le> n" "n \<le> 1024"
    and data: "ac_xauth A = Some data" "\<not> ac_inetd A" "n \<le> length data" "l = take n data"
  shows "\<exists>evs'. check_cookie A buf evs = Inr (Some True, evs') \<and> smooth evs' \<and> stream_bytes evs' = rest"
proof -
  have "length (show_nat n) < 10" using length_show_nat [of n 3] n(3) by simp
  then obtain evs1 buf1 where 1: "timed_read buf 10 True evs = Some (Suc (length (show_nat n)), show_nat n @ NUL # buf1, evs1)"
    "smooth evs1" "stream_bytes evs1 = l @ rest"
    using timed_read_line [OF evs show_nat_plain(1), of 10 buf] by metis
  have "l \<noteq> []" using n by auto
  then obtain evs2 buf2 where 2: "timed_read (show_nat n @ NUL # buf1) n False evs1 = Some (n, l @ buf2, evs2)"
    "smooth evs2" "stream_bytes evs2 = rest"
    using timed_read_exact [OF 1(2,3), of "show_nat n @ NUL # buf1"] n(1) by metis
  have a: "sint (atoi (c_str (show_nat n @ NUL # buf1))) = int n"
    using n(3) show_nat_plain(2) [of n] by (simp add: c_str_append atoi_show)
  have m: "memcmp_eq (l @ buf2) data n = Inr True"
    using n(1) data(3,4) by (simp add: memcmp_eq_def)
  show ?thesis using 2(2,3) n data(1,2) by (simp add: check_cookie_def 1(1) a 2(1) m)
qed

lemma permitted_cookie:
  assumes evs: "smooth evs" "stream_bytes evs = MCOOKIE_NAME @ NL # rest"
    and c: "\<And>evs buf. smooth evs \<Longrightarrow> stream_bytes evs = rest \<Longrightarrow>
      \<exists>evs'. check_cookie A buf evs = Inr (Some True, evs') \<and> smooth evs' \<and> stream_bytes evs' = rest'"
  shows "\<exists>evs'. permitted A stack host_addr evs = Inr (True, evs') \<and> smooth evs' \<and> stream_bytes evs' = rest'"
proof -
  have m: "NL \<notin> set MCOOKIE_NAME" "length MCOOKIE_NAME < 15" "NUL \<notin> set MCOOKIE_NAME"
    by (simp_all add: MCOOKIE_NAME_def)
  obtain evs1 buf1 where 1: "timed_read (fst stack) 15 True evs = Some (Suc (length MCOOKIE_NAME), MCOOKIE_NAME @ NUL # buf1, evs1)"
    "smooth evs1" "stream_bytes evs1 = rest"
    using timed_read_line [OF evs m(1,2), of "fst stack"] by metis
  obtain evs' where "check_cookie A (snd stack) evs1 = Inr (Some True, evs')" "smooth evs'" "stream_bytes evs' = rest'"
    using c [OF 1(2,3)] by blast
  then show ?thesis by (simp add: permitted_def 1(1) c_str_append [OF m(3)])
qed

section \<open>Who gets in\<close>

text \<open>
  C24. What a client with the cookie of the daemon writes first is accepted, from any host and cut
  into any chunks, and exactly these bytes are used up, so the commands that follow are read from
  their start.
\<close>

theorem cookie_round_trip:
  assumes "ac_xauth A = Some data" "\<not> ac_inetd A" "data \<noteq> []" "length data \<le> 1024"
    and "smooth evs" "stream_bytes evs = client_credentials (Some data) @ rest"
  shows "\<exists>evs'. permitted A stack host_addr evs = Inr (True, evs') \<and> smooth evs' \<and> stream_bytes evs' = rest"
proof (rule permitted_cookie)
  show "stream_bytes evs = MCOOKIE_NAME @ NL # (show_nat (length data) @ NL # data @ rest)"
    using assms(6) by (simp add: client_credentials_def)
  have "1 \<le> length data" using assms(3) by (cases data) auto
  then show "\<exists>evs'. check_cookie A buf evs = Inr (Some True, evs') \<and> smooth evs' \<and> stream_bytes evs' = rest"
    if "smooth evs" "stream_bytes evs = show_nat (length data) @ NL # data @ rest" for evs buf
    using that assms(1,2,4) by (intro check_cookie_sent [of evs "length data" data rest A data]) simp_all
qed (rule assms(5))

definition demo_auth :: auth_config where
  "demo_auth = \<lparr>ac_xauth = Some ''k3y'', ac_inetd = False, ac_hosts = [0]\<rparr>"

theorem cookie_round_trip_witness:
  "\<exists>evs'. permitted demo_auth ([], []) 1 [Recv (client_credentials (Some ''k3y'')), Recv ''cmd''] = Inr (True, evs')
     \<and> stream_bytes evs' = ''cmd''"
proof -
  have "smooth [Recv (client_credentials (Some ''k3y'')), Recv ''cmd'']"
    by (simp add: client_credentials_def)
  from cookie_round_trip [OF _ _ _ _ this, of demo_auth "''k3y''" "''cmd''" "([], [])" 1]
  show ?thesis by (auto simp: demo_auth_def)
qed

text \<open>
  The daemon compares as many bytes of the cookie as the client says: a client that knows a
  first part of it, one byte is enough, is accepted from any host.
\<close>

theorem cookie_prefix_suffices:
  assumes "ac_xauth A = Some data" "\<not> ac_inetd A" "1 \<le> n" "n \<le> length data" "n \<le> 1024"
    and "smooth evs" "stream_bytes evs = MCOOKIE_NAME @ [NL] @ show_nat n @ [NL] @ take n data @ rest"
  shows "\<exists>evs'. permitted A stack host_addr evs = Inr (True, evs') \<and> stream_bytes evs' = rest"
proof -
  have "stream_bytes evs = MCOOKIE_NAME @ NL # (show_nat n @ NL # take n data @ rest)"
    using assms(7) by simp
  moreover have "\<exists>evs'. check_cookie A buf evs = Inr (Some True, evs') \<and> smooth evs' \<and> stream_bytes evs' = rest"
    if "smooth evs" "stream_bytes evs = show_nat n @ NL # take n data @ rest" for evs buf
    using that assms(1-5) by (intro check_cookie_sent [of evs n "take n data" rest A data]) simp_all
  ultimately have "\<exists>evs'. permitted A stack host_addr evs = Inr (True, evs') \<and> smooth evs' \<and> stream_bytes evs' = rest"
    by (rule permitted_cookie [OF assms(6)])
  then show ?thesis by blast
qed

theorem cookie_prefix_suffices_witness:
  "\<exists>evs'. permitted demo_auth ([], []) 1 [Recv (''MAGIC-1'' @ [NL] @ ''1'' @ [NL] @ ''k'')] = Inr (True, evs')"
proof -
  have s: "show_nat (Suc 0) = ''1''" by code_simp
  show ?thesis
    using cookie_prefix_suffices [of demo_auth "''k3y''" 1 "[Recv (''MAGIC-1'' @ [NL] @ ''1'' @ [NL] @ ''k'')]" "[]" "([], [])" 1]
    by (auto simp: demo_auth_def MCOOKIE_NAME_def s)
qed

lemma check_hosts_in: "check_hosts a hs \<Longrightarrow> a \<in> set hs \<and> a \<noteq> 0"
  by (induction hs) (auto split: if_splits)

text \<open>A line as the daemon takes it from the socket: the bytes up to a newline, at most \<open>mx\<close> of them.\<close>

definition taken_line :: "nat \<Rightarrow> string \<Rightarrow> string \<Rightarrow> bool" where
  "taken_line mx p t \<longleftrightarrow> NL \<notin> set t \<and> (p = t @ [NL] \<and> length p \<le> mx \<or> p = t \<and> length t = mx)"

text \<open>Whether the bytes a client sends start with the name of the protocol, a length, and that many of the first bytes of
  the cookie. Of a length that fills the buffer of ten bytes the number is left open.\<close>

definition presents_cookie :: "string \<Rightarrow> string \<Rightarrow> bool" where
  "presents_cookie data s \<longleftrightarrow> (\<exists>p l t u n rest. s = p @ l @ take n data @ rest
     \<and> taken_line AUTH_NAMESZ p t \<and> c_str t = MCOOKIE_NAME \<and> taken_line 10 l u
     \<and> 1 \<le> n \<and> n \<le> length data \<and> (length u < 10 \<longrightarrow> sint (atoi (c_str u)) = int n))"

lemma next_byte_bytes: "next_byte evs = Some (c, evs') \<Longrightarrow> stream_bytes evs = c # stream_bytes evs'"
  by (cases evs rule: next_byte.cases) (auto split: if_splits)

lemma timed_read_loop_taken:
  "timed_read_loop mx one_line evs got = Some (got', evs') \<Longrightarrow>
     \<exists>w. got' = got @ w \<and> w \<noteq> [] \<and> stream_bytes evs = w @ stream_bytes evs' \<and> (one_line \<longrightarrow> NL \<notin> set (butlast w))
       \<and> (one_line \<and> last w = NL \<or> mx \<le> length got') \<and> length got' \<le> max mx (Suc (length got))"
proof (induction mx one_line evs got rule: timed_read_loop.induct)
  case (1 mx one_line evs got)
  obtain c evs1 where n: "next_byte evs = Some (c, evs1)"
    using "1.prems" by (subst (asm) timed_read_loop.simps) (auto split: option.splits)
  show ?case
  proof (cases "length (got @ [c]) < mx \<and> \<not> (one_line \<and> c = NL)")
    case True
    then have "timed_read_loop mx one_line evs1 (got @ [c]) = Some (got', evs')"
      using "1.prems" n by (subst (asm) timed_read_loop.simps) simp
    from "1.IH" [OF n refl refl True this] obtain w where w: "got' = got @ c # w" "w \<noteq> []" "stream_bytes evs1 = w @ stream_bytes evs'"
      "one_line \<longrightarrow> NL \<notin> set (butlast w)" "one_line \<and> last w = NL \<or> mx \<le> length got'"
      "length got' \<le> max mx (Suc (length (got @ [c])))" by auto
    with True next_byte_bytes [OF n] show ?thesis by (intro exI [of _ "c # w"]) auto
  next
    case False
    then have "got' = got @ [c]" "evs' = evs1"
      using "1.prems" n by (subst (asm) timed_read_loop.simps; auto)+
    with False next_byte_bytes [OF n] show ?thesis by (intro exI [of _ "[c]"]) auto
  qed
qed

lemma c_str_NUL: "c_str (t @ NUL # r) = c_str t"
  by (induction t) (auto simp: c_str_def)

lemma c_str_short: "length (c_str (t @ r)) < length t \<Longrightarrow> c_str (t @ r) = c_str t"
  by (induction t) (auto simp: c_str_def)

lemma timed_read_taken_line:
  assumes "timed_read buf mx True evs = Some (n, buf', evs')" "0 < mx"
  obtains p t where "taken_line mx p t" "stream_bytes evs = p @ stream_bytes evs'"
    "length t < mx \<longrightarrow> c_str buf' = c_str t" "length (c_str buf') < mx \<longrightarrow> c_str buf' = c_str t"
proof -
  obtain w where w: "n = length w" "w \<noteq> []" "stream_bytes evs = w @ stream_bytes evs'" "NL \<notin> set (butlast w)"
    "last w = NL \<or> mx \<le> length w" "length w \<le> mx"
    "buf' = (if last w = NL then butlast w @ [NUL] else w) @ drop (length w) buf"
  proof -
    obtain w where r: "timed_read_loop mx True evs [] = Some (w, evs')" and w: "n = length w"
      "buf' = (if last w = NL then butlast w @ [NUL] else w) @ drop (length w) buf"
      using assms(1) by (auto simp: timed_read_def)
    from timed_read_loop_taken [OF r] assms(2) have "w \<noteq> []" "stream_bytes evs = w @ stream_bytes evs'" "NL \<notin> set (butlast w)"
      "last w = NL \<or> mx \<le> length w" "length w \<le> mx" by auto
    with w show ?thesis by (intro that)
  qed
  show ?thesis
  proof (cases "last w = NL")
    case True
    then have e: "w = butlast w @ [NL]" using w(2) by (metis append_butlast_last_id)
    have "c_str buf' = c_str (butlast w)" using True w(7) by (simp add: c_str_NUL)
    moreover have "taken_line mx w (butlast w)" using e w(4,6) by (auto simp: taken_line_def)
    ultimately show ?thesis using that w(3) by blast
  next
    case False
    have "NL \<notin> set w" using w(2,4) False by (metis UnE append_butlast_last_id empty_iff empty_set set_ConsD set_append)
    then have "taken_line mx w w" using False w(5,6) by (simp add: taken_line_def)
    moreover have "\<not> length w < mx" "length (c_str buf') < mx \<longrightarrow> c_str buf' = c_str w"
      using w(5,6) False c_str_short [of w "drop (length w) buf"] by (auto simp: w(7))
    ultimately show ?thesis using that w(3) by blast
  qed
qed

lemma check_cookie_true:
  assumes "check_cookie A buf evs = Inr (Some True, evs')"
  obtains data l u n rest where "ac_xauth A = Some data" "\<not> ac_inetd A" "stream_bytes evs = l @ take n data @ rest"
    "taken_line 10 l u" "1 \<le> n" "n \<le> length data" "length u < 10 \<longrightarrow> sint (atoi (c_str u)) = int n"
proof -
  obtain k buf1 evs1 where r1: "timed_read buf 10 True evs = Some (k, buf1, evs1)"
    using assms by (auto simp: check_cookie_def split: option.splits)
  define n where "n = nat (sint (atoi (c_str buf1)))"
  obtain m buf2 data where r2: "timed_read buf1 n False evs1 = Some (m, buf2, evs')" and n: "1 \<le> sint (atoi (c_str buf1))"
    and d: "ac_xauth A = Some data" "\<not> ac_inetd A" and c: "memcmp_eq buf2 data n = Inr True"
    using assms by (auto simp: check_cookie_def r1 n_def [symmetric] Let_def bind_res_Inr_iff split: option.splits if_splits)
  have n1: "1 \<le> n" "sint (atoi (c_str buf1)) = int n" using n by (simp_all add: n_def)
  obtain w where w: "stream_bytes evs1 = w @ stream_bytes evs'" "n \<le> length w" "buf2 = w @ drop (length w) buf1"
    using r2 timed_read_loop_taken [of n False evs1 "[]"] by (fastforce simp: timed_read_def)
  have dn: "n \<le> length data" "take n buf2 = take n data" using c by (auto simp: memcmp_eq_def split: if_splits)
  have "w = take n data @ drop n w"
    using dn(2) w(2,3) append_take_drop_id [of n w] by simp
  with w(1) have s: "stream_bytes evs1 = take n data @ drop n w @ stream_bytes evs'" by (metis append.assoc)
  obtain l u where l: "taken_line 10 l u" "stream_bytes evs = l @ stream_bytes evs1" "length u < 10 \<longrightarrow> c_str buf1 = c_str u"
    by (rule timed_read_taken_line [OF r1]) simp_all
  then have "length u < 10 \<longrightarrow> sint (atoi (c_str u)) = int n" using n1(2) by auto
  moreover have "stream_bytes evs = l @ take n data @ (drop n w @ stream_bytes evs')" using l(2) s by simp
  ultimately show ?thesis using that d l(1) n1(1) dn(1) by blast
qed

lemma permitted_true:
  assumes "permitted A stack host_addr evs = Inr (True, evs')"
  shows "check_hosts host_addr (ac_hosts A)
    \<or> (\<exists>data. ac_xauth A = Some data \<and> \<not> ac_inetd A \<and> presents_cookie data (stream_bytes evs))"
proof (cases "check_hosts host_addr (ac_hosts A)")
  case False
  obtain k buf1 evs1 where r1: "timed_read (fst stack) AUTH_NAMESZ True evs = Some (k, buf1, evs1)"
    using assms by (auto simp: permitted_def split: option.splits)
  have a: "c_str buf1 = MCOOKIE_NAME" "check_cookie A (snd stack) evs1 = Inr (Some True, evs')"
    using assms False by (auto simp: permitted_def r1 Let_def bind_res_Inr_iff split: option.splits if_splits)
  have z: "(0 :: nat) < AUTH_NAMESZ" "length (c_str buf1) < AUTH_NAMESZ" by (simp_all add: a(1) MCOOKIE_NAME_def)
  obtain p t where p: "taken_line AUTH_NAMESZ p t" "stream_bytes evs = p @ stream_bytes evs1" "c_str t = MCOOKIE_NAME"
    using timed_read_taken_line [OF r1 z(1)] z(2) a(1) by metis
  obtain data l u n rest where c: "ac_xauth A = Some data" "\<not> ac_inetd A" "stream_bytes evs1 = l @ take n data @ rest"
    "taken_line 10 l u" "1 \<le> n" "n \<le> length data" "length u < 10 \<longrightarrow> sint (atoi (c_str u)) = int n"
    using a(2) by (rule check_cookie_true)
  have "stream_bytes evs = p @ l @ take n data @ rest" using p(2) c(3) by simp
  then have "presents_cookie data (stream_bytes evs)" unfolding presents_cookie_def using p(1,3) c(4-7) by blast
  with c(1,2) show ?thesis by blast
qed simp

text \<open>
  C25. Nothing is told to a client that is not permitted: if the address of the peer is not in the table, and the client does
  not show the first bytes of the cookie, as many as it says and at least one, to a daemon that has a cookie and
  that \<open>inetd\<close> did not start, then whatever else the client sends, not
  a byte is written, not even the version, and no function of the library is called (the result does
  not depend on them). A table that is empty or zero, as in the default configuration, has no address.
\<close>

theorem refused_gets_nothing:
  assumes "host_addr = 0 \<or> host_addr \<notin> set (ac_hosts A)"
    and "\<forall>data. ac_xauth A = Some data \<and> \<not> ac_inetd A \<longrightarrow> \<not> presents_cookie data (stream_bytes evs)"
  shows "fst (handle_internet_request A stack host_addr v sv svc sysdeps evs) = []
    \<and> (\<forall>svc' sysdeps'. handle_internet_request A stack host_addr v sv svc sysdeps evs
          = handle_internet_request A stack host_addr v sv svc' sysdeps' evs)"
proof -
  have "permitted A stack host_addr evs \<noteq> Inr (True, evs')" for evs'
    using assms check_hosts_in [of host_addr "ac_hosts A"] permitted_true [of A stack host_addr evs evs'] by blast
  then show ?thesis
    by (auto simp: handle_internet_request_def split: sum.splits bool.splits prod.splits)
qed

text \<open>The witness: a client with the wrong cookie at a daemon that has one, and a client without a cookie.\<close>

lemma wrong_cookie: "\<not> presents_cookie ''k3y'' (MCOOKIE_NAME @ [NL] @ ''3'' @ [NL] @ ''bad'')"
proof
  assume "presents_cookie ''k3y'' (MCOOKIE_NAME @ [NL] @ ''3'' @ [NL] @ ''bad'')"
  then obtain p l t u n rest where s: "MCOOKIE_NAME @ [NL] @ ''3'' @ [NL] @ ''bad'' = p @ l @ take n ''k3y'' @ rest" and n: "1 \<le> n"
    unfolding presents_cookie_def by blast
  have "CHR ''k'' \<in> set (take n ''k3y'')" using n by (cases n) auto
  then have "CHR ''k'' \<in> set (MCOOKIE_NAME @ [NL] @ ''3'' @ [NL] @ ''bad'')" unfolding s by simp
  then show False by (simp add: MCOOKIE_NAME_def)
qed

theorem refused_gets_nothing_witness:
  "\<forall>svc sysdeps. fst (handle_internet_request demo_auth ([], []) 0x0100007f ''2.40'' ''1''
       svc sysdeps [Recv (MCOOKIE_NAME @ [NL] @ ''3'' @ [NL] @ ''bad'')]) = []
     \<and> fst (handle_internet_request (demo_auth\<lparr>ac_xauth := None\<rparr>) ([], []) 0x0100007f ''2.40'' ''1''
       svc sysdeps [Recv (client_credentials None)]) = []"
  using wrong_cookie
  by (intro allI conjI; intro refused_gets_nothing [THEN conjunct1]) (simp_all add: demo_auth_def)

definition loopback_addr :: guint32 where "loopback_addr = 0x0100007f"

text \<open>
  C26. The table of permitted hosts cannot admit a remote host: the names in the configuration are
  passed to \<open>getaddrinfo\<close> as the service, with no node, and without a node that function is
  documented to give the loopback address. So every entry of the table is the loopback address or 0,
  and the daemon ends where a name is not a known service.
\<close>

theorem setup_table_loopback:
  assumes no_node: "\<And>s a. gai None (Some s) = Some a \<Longrightarrow> a = loopback_addr"
    and "setup_table gai hostname with_xauth names = Inr (hosts, n)"
  shows "set hosts \<subseteq> {0, ucast loopback_addr} \<and> length hosts = length names
    \<and> (check_hosts host_addr hosts \<longrightarrow> host_addr = ucast loopback_addr)
    \<and> (\<forall>nm. Some nm \<in> set names \<longrightarrow> gai None (Some nm) \<noteq> None)"
proof -
  have r: "resolve_hosts gai names = Inr hosts \<Longrightarrow> set hosts \<subseteq> {0, ucast loopback_addr} \<and> length hosts = length names
      \<and> (\<forall>nm. Some nm \<in> set names \<longrightarrow> gai None (Some nm) \<noteq> None)" for names hosts
  proof (induction names arbitrary: hosts)
    case (Cons nm names)
    show ?case
    proof (cases nm)
      case None
      with Cons show ?thesis by (fastforce simp: bind_res_Inr_iff)
    next
      case (Some name)
      obtain h hs where hs: "h = glibtop_internet_addr gai name" "h \<noteq> - 1" "resolve_hosts gai names = Inr hs" "hosts = h # hs"
        using Cons.prems Some by (auto simp: Let_def bind_res_Inr_iff split: if_splits)
      then obtain a where "gai None (Some name) = Some a" by (auto simp: glibtop_internet_addr_def split: option.splits)
      with no_node hs(1) have "h = ucast loopback_addr" "gai None (Some name) \<noteq> None"
        by (auto simp: glibtop_internet_addr_def)
      with Cons.IH [OF hs(3)] Some show ?thesis by (auto simp: hs(4))
    qed
  qed simp
  have "resolve_hosts gai names = Inr hosts"
    using assms(2) by (auto simp: setup_table_def bind_res_Inr_iff split: if_splits)
  from r [OF this] check_hosts_in [of host_addr hosts] show ?thesis by blast
qed

theorem setup_table_loopback_witness:
  "setup_table (\<lambda>_ _. Some loopback_addr) ''me'' False [Some ''80'', None] = Inr ([0x0100007f, 0], 2)
     \<and> \<not> check_hosts 5 [0x0100007f, 0]"
proof -
  have r: "setup_table (\<lambda>_ _. Some loopback_addr) ''me'' False [Some ''80'', None] = Inr ([0x0100007f, 0], 2)"
    by (simp add: setup_table_def glibtop_internet_addr_def loopback_addr_def)
  from setup_table_loopback [OF _ r, of 5] r show ?thesis by (simp add: loopback_addr_def)
qed

section \<open>Rights\<close>

text \<open>
  C27. The daemon gives up its rights for good: before it listens, its three user ids are the same,
  that of the configuration if it was the superuser, its effective one otherwise, and unless this is
  the superuser's no call can set one of them to anything else. If it was the superuser, its three group ids are that of the
  configuration, and no call can set one of them to anything else; otherwise it keeps all its group ids, although the comment in the code
  says that it drops any privileges completely. The setuid server keeps the way back:
  while it waits for commands its effective user and group are the caller's, but its real ones are the file's owner's,
  \<open>glibtop_suid_enter\<close> makes the owner effective and \<open>glibtop_suid_leave\<close> undoes it.
\<close>

theorem server_rights:
  "(daemon_drop c = Inr d \<longrightarrow> (let u = (if euid c = 0 then SERVER_UID else euid c) in
      ruid d = u \<and> euid d = u \<and> cred.suid d = u \<and> (\<forall>r e d'. setreuid r e d = Some d' \<longrightarrow> d' = d)
      \<and> (if euid c = 0
         then rgid d = SERVER_GID \<and> egid d = SERVER_GID \<and> sgid d = SERVER_GID
              \<and> (\<forall>r e d'. setregid r e d = Some d' \<longrightarrow> d' = d)
         else rgid d = rgid c \<and> egid d = egid c \<and> sgid d = sgid c)))
   \<and> (suid_server_start ok sf hook c = Inr (server, d) \<and> (\<forall>f s. s_machine (hook f s) = s_machine s) \<longrightarrow>
        euid d = ruid c \<and> ruid d = euid c \<and> egid d = rgid c \<and> rgid d = egid c
        \<and> (\<exists>m. s_machine server = Some m \<and> euid (glibtop_suid_enter m d) = euid c
             \<and> glibtop_suid_leave m (glibtop_suid_enter m d) = Inr d))"
proof -
  have drop: "let u = (if euid c = 0 then SERVER_UID else euid c) in
      ruid d = u \<and> euid d = u \<and> cred.suid d = u \<and> (\<forall>r e d'. setreuid r e d = Some d' \<longrightarrow> d' = d)
      \<and> (if euid c = 0
         then rgid d = SERVER_GID \<and> egid d = SERVER_GID \<and> sgid d = SERVER_GID
              \<and> (\<forall>r e d'. setregid r e d = Some d' \<longrightarrow> d' = d)
         else rgid d = rgid c \<and> egid d = egid c \<and> sgid d = sgid c)"
    if "daemon_drop c = Inr d" for d
    using that
    by (cases c) (auto simp: daemon_drop_def setreuid_def setregid_def SERVER_UID_def SERVER_GID_def
        split: if_splits option.splits)
  have m: "s_machine (fold hook fs s) = s_machine s" if "\<forall>f s. s_machine (hook f s) = s_machine s" for fs s
    using that by (induction fs arbitrary: s) simp_all
  have "euid d = ruid c \<and> ruid d = euid c \<and> egid d = rgid c \<and> rgid d = egid c
        \<and> (\<exists>m. s_machine server = Some m \<and> euid (glibtop_suid_enter m d) = euid c
             \<and> glibtop_suid_leave m (glibtop_suid_enter m d) = Inr d)"
    if h: "suid_server_start ok sf hook c = Inr (server, d)" "\<forall>f s. s_machine (hook f s) = s_machine s" for server d
  proof -
    define k where "k = \<lparr>m_uid = int (ruid c), m_euid = int (euid c), m_gid = int (rgid c), m_egid = int (egid c)\<rparr>"
    have k: "s_machine server = Some k"
      using h(1) by (auto simp: suid_server_start_def glibtop_init_p_def glibtop_open_p_def bind_res_Inr_iff Let_def
        glibtop_global_server_def m [OF h(2)] k_def split: if_splits option.splits)
    have d: "ruid d = euid c" "euid d = ruid c" "cred.suid d = ruid c" "egid d = rgid c" "rgid d = egid c"
      using h(1) by (auto simp: suid_server_start_def bind_res_Inr_iff Let_def setreuid_def setregid_def
        split: if_splits option.splits)
    have "euid (glibtop_suid_enter k d) = euid c \<and> glibtop_suid_leave k (glibtop_suid_enter k d) = Inr d"
      using d by (cases d) (auto simp: glibtop_suid_enter_def glibtop_suid_leave_def setreuid_def k_def)
    with k d show ?thesis by blast
  qed
  with drop show ?thesis by blast
qed

theorem server_rights_witness:
  "daemon_drop \<lparr>ruid = 0, euid = 0, suid = 0, rgid = 0, egid = 0, sgid = 0\<rparr>
       = Inr \<lparr>ruid = 99, euid = 99, suid = 99, rgid = 99, egid = 99, sgid = 99\<rparr>
   \<and> setreuid 0 0 \<lparr>ruid = 99, euid = 99, suid = 99, rgid = 99, egid = 99, sgid = 99\<rparr> = None
   \<and> (\<exists>server d m. suid_server_start True (\<lambda>_. False) (\<lambda>_ s. s)
          \<lparr>ruid = 1000, euid = 0, suid = 0, rgid = 100, egid = 100, sgid = 100\<rparr> = Inr (server, d)
        \<and> euid d = 1000 \<and> euid (glibtop_suid_enter m d) = 0)"
proof -
  let ?c = "\<lparr>ruid = 0, euid = 0, suid = 0, rgid = 0, egid = 0, sgid = 0\<rparr>"
  let ?d = "\<lparr>ruid = 99, euid = 99, suid = 99, rgid = 99, egid = 99, sgid = 99\<rparr>"
  let ?s = "\<lparr>ruid = 1000, euid = 0, suid = 0, rgid = 100, egid = 100, sgid = 100\<rparr>"
  have d: "daemon_drop ?c = Inr ?d"
    by (simp add: daemon_drop_def setreuid_def setregid_def SERVER_UID_def SERVER_GID_def)
  from server_rights [THEN conjunct1, rule_format, OF d]
  have "\<forall>r e d'. setreuid r e ?d = Some d' \<longrightarrow> d' = ?d" by (simp add: Let_def SERVER_UID_def SERVER_GID_def)
  then have n: "setreuid 0 0 ?d = None" by (cases "setreuid 0 0 ?d") (auto simp: setreuid_def split: if_splits)
  obtain server e where s: "suid_server_start True (\<lambda>_. False) (\<lambda>_ s. s) ?s = Inr (server, e)"
    by (simp add: suid_server_start_def glibtop_init_p_def glibtop_open_p_def glibtop_global_server_def
        setreuid_def setregid_def Let_def)
  then have "\<exists>m. euid e = 1000 \<and> euid (glibtop_suid_enter m e) = 0"
    using server_rights [THEN conjunct2, of True "\<lambda>_. False" "\<lambda>_ s. s" ?s server e] by auto
  with d n s show ?thesis by blast
qed

end
