(* ===== verification/SuidServer.thy ===== *)
theory SuidServer
  imports Client Gnuserv
begin

unbundle bit_operations_syntax

text \<open>
  A client and the setuid server at the other end of a pipe (\<open>src/daemon/slave.c\<close>), for any port that
  has features with privileges: what one side writes is what the other side reads. The counterpart
  for the daemon is in \<open>Rpc\<close> and \<open>Client\<close>.
\<close>

section \<open>The bits of the features\<close>

lemma feature_nr_bit: "bit (GLIBTOP_SUID suidf f) n \<longleftrightarrow> suidf f \<and> n = feature_nr f"
  using feature_nr_le [of f] by (auto simp: GLIBTOP_SUID_def bit_push_bit_iff bit_1_iff bit_exp_iff)

lemma sum_suid_bits:
  assumes "distinct fs"
  shows "bit (sum_list (map (GLIBTOP_SUID suidf) fs)) n \<longleftrightarrow> (\<exists>f\<in>set fs. suidf f \<and> n = feature_nr f)"
  using assms
proof (induction fs arbitrary: n)
  case (Cons f fs)
  have "GLIBTOP_SUID suidf f AND sum_list (map (GLIBTOP_SUID suidf) fs) = 0"
    using Cons by (auto intro!: bit_word_eqI simp: bit_and_iff feature_nr_bit dest!: feature_nr_inj)
  then have "GLIBTOP_SUID suidf f + sum_list (map (GLIBTOP_SUID suidf) fs)
      = GLIBTOP_SUID suidf f OR sum_list (map (GLIBTOP_SUID suidf) fs)"
    by (rule disjunctive_add_eq_or)
  with Cons show ?case by (simp add: bit_or_iff feature_nr_bit)
qed simp

lemma server_features_bit:
  "glibtop_server_features suidf AND flag (feature_nr f) \<noteq> 0 \<longleftrightarrow> suidf f \<and> f \<in> set server_features_terms"
proof -
  have "distinct server_features_terms" by (simp add: server_features_terms_def)
  from sum_suid_bits [OF this, of suidf "feature_nr f"]
  have "bit (glibtop_server_features suidf) (feature_nr f) \<longleftrightarrow> suidf f \<and> f \<in> set server_features_terms"
    using feature_nr_inj by (auto simp: glibtop_server_features_def)
  then show ?thesis by (simp add: and_exp_eq_0_iff_not_bit)
qed

section \<open>One request\<close>

definition slave_knows :: "feature \<Rightarrow> bool" where
  \<comment> \<open>the two \<open>switch\<close>es of the server have code for it\<close>
  "slave_knows f \<longleftrightarrow> f \<notin> {F_MOUNTLIST, F_FSUSAGE, F_NETLIST, F_PROC_OPEN_FILES, F_PROC_WD, F_PROC_AFFINITY}"

fun slave_targ :: "call_arg \<Rightarrow> call_arg" where
  \<comment> \<open>the server reads \<open>max_len\<close> as a short\<close>
  "slave_targ (ArgPidMax pid max_len) = ArgPidMax pid (ucast (ucast max_len :: 16 word))"
| "slave_targ a = a"

definition cut_limit :: "call_arg \<Rightarrow> call_arg \<Rightarrow> bool" where
  \<comment> \<open>\<open>a\<close> is \<open>a'\<close> with its limit, if it has one, cut to 16 bits\<close>
  "cut_limit a' a \<longleftrightarrow> (case a' of ArgPidMax pid max_len \<Rightarrow> a = ArgPidMax pid (take_bit 16 max_len) | _ \<Rightarrow> a = a')"

lemma cut_limit_slave_targ: "cut_limit a' a \<Longrightarrow> slave_targ a' = a"
proof -
  have "ucast (ucast n :: 16 word) = take_bit 16 n" for n :: "32 word"
    by (rule bit_word_eqI) (auto simp: bit_simps)
  then show "cut_limit a' a \<Longrightarrow> slave_targ a' = a" by (cases a') (simp_all add: cut_limit_def)
qed

lemma cut_limit_short: "cut_limit (ArgPidMax pid max_len) (ArgPidMax pid max_len)" if "unat max_len < 2 ^ 16"
proof -
  have "unat (take_bit 16 max_len) = unat max_len"
    using take_bit_nat_eq_self [OF that] by (simp add: unsigned_take_bit_eq)
  then have "take_bit 16 max_len = max_len" by (rule unsigned_word_eqI)
  then show ?thesis by (simp add: cut_limit_def)
qed

lemma take_le_enc: "take k (le_enc (k + m) n @ r) = le_enc k n"
  by (induction k arbitrary: n) simp_all

lemma bytes_u16_u32: "bytes_u16 (u32_bytes w @ r) = ucast w"
proof -
  have "take 2 (u32_bytes w @ r) = le_enc 2 (unat w)"
    using take_le_enc [of 2 2] by (simp add: u32_bytes_def)
  moreover have "(of_nat (unat w mod 256 ^ 2) :: 16 word) = ucast w"
    by (rule unsigned_word_eqI [where ?'a = nat]) (simp add: unat_of_nat unsigned_ucast_eq take_bit_eq_mod)
  ultimately show ?thesis by (simp add: bytes_u16_def le_dec_enc)
qed

lemma slave_arg_fill:
  assumes "feature_arg f a" and "slave_knows f" and "length (send_buf a) \<le> PARAM_SIZE"
  shows "slave_arg f (fill (send_buf a)) = Some (slave_targ a)"
  using assms
  by (cases f; cases a) (simp_all add: slave_knows_def fill_def c_str_append append.assoc bytes_u16_u32)

lemma slave_parameter_short:
  assumes "length (send_buf a) \<le> PARAM_SIZE"
  shows "slave_parameter (call_command (GLIBTOP_CMND f) (send_buf a)) evs = Inr (fill (send_buf a), evs)"
  using parent_parameter_short [OF assms, of f evs]
  by (auto simp: parent_parameter_def slave_parameter_def bind_res_Inr_iff split: if_splits)

text \<open>The law of \<open>served\<close> for the functions \<open>glibtop_get_f_p\<close> of a port.\<close>

locale slave_service = served svc slave_targ for svc +
  fixes suidf :: "feature \<Rightarrow> bool"
  assumes announced: "suidf f \<Longrightarrow> f \<in> set server_features_terms"
begin

lemma slave_command_reply:
  assumes f: "suidf f" and known: "slave_knows f" and c: "feature_arg f a" "length (send_buf a) \<le> PARAM_SIZE"
    and r: "svc f (slave_targ a) = Inr (st, ptr)"
  shows "slave_command suidf svc sysdeps (of_nat (GLIBTOP_CMND f)) (fill (send_buf a)) = Inr (reply_bytes f (st, ptr), True)"
proof -
  have k: "slave_arg f (fill (send_buf a)) = Some (slave_targ a)" by (rule slave_arg_fill [OF c(1) known c(2)])
  have len: "length st = sizeof_struct f" using r struct_size by simp
  show ?thesis
  proof (cases "f \<in> {F_PROCLIST, F_PROC_ARGS, F_PROC_MAP}")
    case True
    then show ?thesis
      using f r output_reply [OF r] by (simp add: slave_command_def k output_size_union [OF len])
  next
    case False
    then have "output_size f st ptr = 0"
      using known by (auto simp: output_size_def slave_knows_def)
    with False f r show ?thesis
      by (simp add: slave_command_def handle_slave_command_def k do_output_def reply_bytes_def reply_block_def zero_response_def)
  qed
qed

lemma slave_answers:
  assumes f: "suidf f" and known: "slave_knows f" and c: "feature_arg f a" "length (send_buf a) \<le> PARAM_SIZE"
    and r: "svc f (slave_targ a) = Inr r"
    and evs: "smooth evs" "stream_bytes evs = request f a @ later"
  obtains evs' where "smooth evs'" "stream_bytes evs' = later"
    "slave_loop suidf svc sysdeps evs = (reply_bytes f r @ fst (slave_loop suidf svc sysdeps evs'),
       snd (slave_loop suidf svc sysdeps evs'))"
proof -
  let ?cmnd = "call_command (GLIBTOP_CMND f) (send_buf a)"
  obtain evs' where e: "do_read sizeof_command evs = Inr (sizeof_command, request f a, evs')"
    "smooth evs'" "stream_bytes evs' = later"
    using do_read_prefix [OF evs, of sizeof_command] by (auto simp: request_def sizeof_command_def)
  have b: "bytes_command (request f a) = ?cmnd" "sizeof_command \<noteq> 0" "c_command ?cmnd = of_nat (GLIBTOP_CMND f)"
    by (simp_all add: request_def sizeof_command_def call_command_def Let_def)
  have "slave_command suidf svc sysdeps (of_nat (GLIBTOP_CMND f)) (fill (send_buf a)) = Inr (reply_bytes f r, True)"
    using slave_command_reply [OF f known c, of "fst r" "snd r"] r by simp
  then have "slave_loop suidf svc sysdeps evs = (reply_bytes f r @ fst (slave_loop suidf svc sysdeps evs'),
       snd (slave_loop suidf svc sysdeps evs'))"
    by (subst slave_loop.simps) (simp add: e(1) b Let_def slave_parameter_short [OF c(2)] case_prod_unfold)
  with e(2,3) show ?thesis by (intro that)
qed

end

text \<open>For any other feature the server ends at once.\<close>

lemma slave_refuses:
  assumes f: "\<not> slave_knows f" and a: "length (send_buf a) \<le> PARAM_SIZE"
    and evs: "smooth evs" "stream_bytes evs = request f a @ later"
  shows "slave_loop suidf svc sysdeps evs = ([], Inl (Exit ''Child received unknown command''))"
proof -
  let ?cmnd = "call_command (GLIBTOP_CMND f) (send_buf a)"
  obtain evs' where e: "do_read sizeof_command evs = Inr (sizeof_command, request f a, evs')"
    using do_read_prefix [OF evs, of sizeof_command] by (auto simp: request_def sizeof_command_def)
  have b: "bytes_command (request f a) = ?cmnd" "sizeof_command \<noteq> 0" "c_command ?cmnd = of_nat (GLIBTOP_CMND f)"
    by (simp_all add: request_def sizeof_command_def call_command_def Let_def)
  have "slave_arg f p = None" for p using f by (cases f) (simp_all add: slave_knows_def)
  then have "slave_command suidf svc sysdeps (of_nat (GLIBTOP_CMND f)) (fill (send_buf a))
      = Inl (Exit ''Child received unknown command'')"
    using f by (cases "suidf f") (auto simp: slave_command_def handle_slave_command_def slave_knows_def)
  then show ?thesis
    by (subst slave_loop.simps) (simp add: e b Let_def slave_parameter_short [OF a])
qed

section \<open>The features the server announces\<close>

definition slave_sysdeps :: "(feature \<Rightarrow> bool) \<Rightarrow> glibtop_sysdeps \<Rightarrow> glibtop_sysdeps" where
  "slave_sysdeps suidf sysdeps = sysdeps\<lparr>sd_features := glibtop_server_features suidf,
     sd_flags := glibtop_server_features suidf OR 1\<rparr>"

lemma slave_answers_sysdeps:
  assumes "smooth evs" and "stream_bytes evs = sysdeps_request @ later"
  obtains evs' where "smooth evs'" "stream_bytes evs' = later"
    "slave_loop suidf svc sysdeps evs = (sysdeps_answer (slave_sysdeps suidf sysdeps) @ fst (slave_loop suidf svc sysdeps evs'),
       snd (slave_loop suidf svc sysdeps evs'))"
proof -
  let ?cmnd = "call_command GLIBTOP_CMND_SYSDEPS []"
  have bytes: "bytes_command sysdeps_request = ?cmnd" "sizeof_command \<noteq> 0" "length sysdeps_request = sizeof_command"
    by (simp_all add: sysdeps_request_def sizeof_command_def del: One_nat_def)
  obtain evs' where e: "do_read sizeof_command evs = Inr (sizeof_command, sysdeps_request, evs')"
    "smooth evs'" "stream_bytes evs' = later"
    using do_read_prefix [OF assms bytes(3)] by blast
  have p: "slave_parameter ?cmnd evs' = Inr (fill [], evs')" "c_command ?cmnd = 1"
    by (simp_all add: slave_parameter_def call_command_def Let_def)
  have n: "command_feature 1 = None"
  proof -
    have "find (\<lambda>f. (of_nat (GLIBTOP_CMND f) :: guint64) = 1) fs = None" for fs by (induction fs) auto
    then show ?thesis by (simp add: command_feature_def)
  qed
  have "slave_command suidf svc sysdeps 1 (fill []) = Inr (sysdeps_answer (slave_sysdeps suidf sysdeps), True)"
    by (simp add: slave_command_def handle_slave_command_def n do_output_def sysdeps_answer_def slave_sysdeps_def
        zero_response_def)
  then have "slave_loop suidf svc sysdeps evs = (sysdeps_answer (slave_sysdeps suidf sysdeps) @ fst (slave_loop suidf svc sysdeps evs'),
       snd (slave_loop suidf svc sysdeps evs'))"
    by (subst slave_loop.simps) (simp add: e(1) bytes Let_def p case_prod_unfold del: One_nat_def)
  with e(2,3) show ?thesis by (intro that)
qed

lemma slave_loop_empty: "smooth evs \<Longrightarrow> stream_bytes evs = [] \<Longrightarrow> slave_loop suidf svc sysdeps evs = ([], Inl Blocks)"
  by (cases evs)
    (auto simp: slave_loop.simps [of suidf svc sysdeps "[]"] do_read_def sizeof_command_def)

section \<open>A client and its setuid server\<close>

text \<open>
  The whole path to the privileged functions: a fresh client without \<open>LIBGTOP_SERVER\<close> calls a
  getter that needs privileges on its port. It chooses the pipe, starts the server, checks the
  greeting, learns from the server that it answers for this feature and sends the request, for which the
  server's \<open>switch\<close> has a case; at the
  other end runs the loop of \<open>slave.c\<close>. The getter returns exactly the struct and the block that
  the function \<open>glibtop_get_f_p\<close> of the server returns (for \<open>proc_args\<close> with \<open>max_len\<close> cut to 16
  bits), and never calls a function of its own process.
\<close>

theorem suid_get:
  assumes port: "sysdeps_port W" and svc: "slave_service svc (w_suid W)"
    and env: "w_server W = None" "w_default_server W = c # cmd" "c \<noteq> CHR '':''"
      "w_pipes W = Some pipes" "0 < w_fork W" "\<And>s. \<exists>s'. w_open_s W s = Inr s'"
    and f: "w_suid W f" and known: "slave_knows f" and a: "feature_arg f a" "length (send_buf a) \<le> PARAM_SIZE"
    and r: "svc f (slave_targ a) = Inr (st, ptr)"
    and evs: "smooth evs" "stream_bytes evs = sysdeps_request @ request f a"
    and stream: "flowing (w_stream W)" "stream_bytes (w_stream W)
      = fst (handle_slave_connection (w_version W) (w_server_version W) (w_suid W) svc sysdeps evs)"
  shows "\<exists>c'. glibtop_get_l W local_svc f a fresh_client = Inr ((st, reply_block f st ptr), c')
    \<and> to_server (conn c') = stream_bytes evs"
proof -
  obtain evs1 where e1: "smooth evs1" "stream_bytes evs1 = request f a @ []"
    "slave_loop (w_suid W) svc sysdeps evs = (sysdeps_answer (slave_sysdeps (w_suid W) sysdeps) @ fst (slave_loop (w_suid W) svc sysdeps evs1),
       snd (slave_loop (w_suid W) svc sysdeps evs1))"
    using slave_answers_sysdeps [OF evs, of "w_suid W" svc sysdeps] by auto
  obtain evs2 where e2: "smooth evs2" "stream_bytes evs2 = []"
    "slave_loop (w_suid W) svc sysdeps evs1 = (reply_bytes f (st, ptr) @ fst (slave_loop (w_suid W) svc sysdeps evs2),
       snd (slave_loop (w_suid W) svc sysdeps evs2))"
    using slave_service.slave_answers [OF svc f known a r e1(1,2)] by blast
  have S: "stream_bytes (w_stream W) = glibtop_send_version (w_version W) (w_server_version W)
      @ sysdeps_answer (slave_sysdeps (w_suid W) sysdeps) @ reply_bytes f (st, ptr)"
    using stream(2) e1(3) e2(3) slave_loop_empty [OF e2(1,2), of "w_suid W" svc sysdeps]
    by (simp add: handle_slave_connection_def)
  have fl: "glibtop_server_features (w_suid W) AND flag (feature_nr f) \<noteq> 0" "flag (feature_nr f) \<noteq> (0 :: guint64)"
    using server_features_bit [of "w_suid W" f] slave_service.announced [OF svc f] f by (auto simp del: push_bit_of_1)
  then have fl': "flag (feature_nr f) AND glibtop_server_features (w_suid W) \<noteq> 0" by (simp only: and.commute not_False_eq_True)
  have feat: "sd_features (slave_sysdeps (w_suid W) sysdeps) AND flag (feature_nr f) \<noteq> 0"
    using fl(1) by (simp add: slave_sysdeps_def)
  obtain s where s: "init_method W (flag (feature_nr f)) 0 glibtop_global_server = Inr s" "s_method s = GLIBTOP_METHOD_PIPE"
    using env(1-3) fl fl'
    by (auto simp: init_method_def init_server_def glibtop_global_server_def Let_def set_flag_def simp del: push_bit_of_1)
  have sf: "s_required s = sysdeps_zero"
    using init_method_flags [OF s(1)] by (simp add: glibtop_global_server_def)
  define c1 where "c1 = \<lparr>cl = (set_flag GLIBTOP_INIT_STATE_SERVER ((cl (being_opened s))
          \<lparr>s_input := fst pipes, s_output := snd pipes, s_pid := w_fork W\<rparr>))\<lparr>s_features := - 1\<rparr>,
        conn = \<lparr>to_server = [], write_events = [], from_server = w_stream W\<rparr>\<rparr>"
  have oc: "open_connection W (being_opened s) = Inr c1" "connected c1" "s_required (cl c1) = sysdeps_zero"
    "conn c1 = \<lparr>to_server = [], write_events = [], from_server = w_stream W\<rparr>"
    using s(2) sf env(4,5)
    by (simp_all add: open_connection_def being_opened_def c1_def Let_def set_flag_def case_prod_unfold)
  from svc have sv: "served svc slave_targ" by (simp add: slave_service_def)
  from fresh_get [OF port sv env(6) s(1) oc feat r stream(1) S] evs(2) show ?thesis by auto
qed

definition demo_suid_world :: "string \<Rightarrow> world" where
  \<comment> \<open>a port on which the memory maps need the server\<close>
  "demo_suid_world out = demo_world\<lparr>w_pipes := Some ((3, 4), (5, 6)), w_fork := 77,
     w_suid := (\<lambda>f. f = F_PROC_MAP), w_stream := [Recv out]\<rparr>"

lemma demo_slave_service: "slave_service demo_service (\<lambda>f. f = F_PROC_MAP)"
proof -
  have "served demo_service slave_targ"
    by unfold_locales (auto simp: demo_service_def output_size_def bytes_u64_zero split: if_splits)
  then show ?thesis by (simp add: slave_service_def slave_service_axioms_def server_features_terms_def)
qed

theorem suid_get_witness:
  "\<exists>W c'. glibtop_get_l W (\<lambda>_ _. Inl (Exit ''not called'')) F_PROC_MAP (ArgPid 7) fresh_client
     = Inr ((replicate 32 NUL, None), c')"
proof -
  define evs where "evs = [Recv (sysdeps_request @ request F_PROC_MAP (ArgPid 7))]"
  define out where "out = fst (handle_slave_connection (w_version demo_world) (w_server_version demo_world)
    (\<lambda>f. f = F_PROC_MAP) demo_service sysdeps_zero evs)"
  let ?W = "demo_suid_world out"
  have out: "out \<noteq> []" by (simp add: out_def handle_slave_connection_def glibtop_send_version_def Let_def case_prod_unfold)
  have 1: "sysdeps_port ?W" by unfold_locales (simp_all add: demo_suid_world_def demo_world_def)
  have 2: "w_suid ?W = (\<lambda>f. f = F_PROC_MAP)" "w_server ?W = None" "w_pipes ?W = Some ((3, 4), (5, 6))"
    "w_version ?W = w_version demo_world" "w_server_version ?W = w_server_version demo_world"
    "w_default_server ?W = CHR ''/'' # ''usr/libexec/libgtop_server2''" "0 < w_fork ?W" "\<And>s. \<exists>s'. w_open_s ?W s = Inr s'"
    by (simp_all add: demo_suid_world_def demo_world_def)
  have 3: "demo_service F_PROC_MAP (slave_targ (ArgPid 7)) = Inr (replicate 32 NUL, None)"
    "feature_arg F_PROC_MAP (ArgPid 7)" "length (send_buf (ArgPid 7)) \<le> PARAM_SIZE"
    by (simp_all add: demo_service_def PARAM_SIZE_def)
  have k: "slave_knows F_PROC_MAP" by (simp add: slave_knows_def)
  have 4: "smooth evs" "stream_bytes evs = sysdeps_request @ request F_PROC_MAP (ArgPid 7)"
    by (simp_all add: evs_def)
  have 5: "flowing (w_stream ?W)" "stream_bytes (w_stream ?W)
      = fst (handle_slave_connection (w_version ?W) (w_server_version ?W) (w_suid ?W) demo_service sysdeps_zero evs)"
    unfolding 2(1,4,5) using out by (simp_all add: demo_suid_world_def out_def [symmetric])
  from suid_get [OF 1 demo_slave_service [folded 2(1)] 2(2,6) _ 2(3,7,8) _ k 3(2,3,1) 4 5, of "\<lambda>_ _. Inl (Exit ''not called'')"]
  show ?thesis by (auto simp: reply_block_def output_size_def 2(1) bytes_u64_zero)
qed

end
