(* ===== verification/FbProc.thy ===== *)
theory FbProc
  imports FreeBsd SuidServer
begin

unbundle bit_operations_syntax

text \<open>
  What the FreeBSD port says about processes (\<open>sysdeps/freebsd\<close>): \<open>proclist.c\<close>, \<open>procstate.c\<close>,
  \<open>procuid.c\<close>, \<open>procmem.c\<close>, \<open>proctime.c\<close>, \<open>procsignal.c\<close>, \<open>prockernel.c\<close>, \<open>procsegment.c\<close>,
  \<open>procargs.c\<close>, \<open>procio.c\<close>, \<open>procaffinity.c\<close>, and \<open>glibtop_suid.h\<close>, \<open>suid_open.c\<close>. These functions run
  in the setuid server. A call of \<open>kvm\<close> sees what the kernel shows to the rights the server has at that
  moment, so that the rights are an argument and a result.
\<close>

section \<open>Rights\<close>

text \<open>\<open>m\<close> is \<open>server->machine\<close>. The rule of \<open>setregid\<close> is that of \<open>Gnuserv\<close>; FreeBSD allows the saved group in
  place of the effective one as the new real group, which in the states of this server is the same group.\<close>

definition glibtop_suid_enter_fb :: "glibtop_machine \<Rightarrow> cred \<Rightarrow> cred" where
  "glibtop_suid_enter_fb m c = (case setregid (nat (m_gid m)) (nat (m_egid m)) c of None \<Rightarrow> c | Some c \<Rightarrow> c)"

definition glibtop_suid_leave_fb :: "glibtop_machine \<Rightarrow> cred \<Rightarrow> cred res" where
  "glibtop_suid_leave_fb m c =
     (case setregid (nat (m_egid m)) (nat (m_gid m)) c of None \<Rightarrow> Inl (Exit ''_exit'') | Some c \<Rightarrow> Inr c)"

text \<open>\<open>kvm_openfiles\<close> may fail; otherwise \<open>glibtop_open_p\<close> and \<open>glibtop_init_p\<close> are the same code as on Linux.\<close>

definition glibtop_open_p_fb :: "bool \<Rightarrow> glibtop \<Rightarrow> cred \<Rightarrow> (glibtop \<times> cred) res" where
  "glibtop_open_p_fb kvm_ok server c =
     (if \<not> kvm_ok then Inl (Exit ''kvm_open'') else glibtop_open_p server c)"

type_synonym open_p = "glibtop \<Rightarrow> cred \<Rightarrow> (glibtop \<times> cred) res"

definition glibtop_init_p_bsd ::
  "open_p \<Rightarrow> (feature \<Rightarrow> bool) \<Rightarrow> (feature \<Rightarrow> glibtop \<Rightarrow> glibtop) \<Rightarrow> glibtop \<Rightarrow> cred \<Rightarrow> (glibtop \<times> cred) res" where
  \<comment> \<open>with the port's \<open>glibtop_open_p\<close>\<close>
  "glibtop_init_p_bsd open_p sf hook server c =
     (if s_flags server AND GLIBTOP_INIT_STATE_SYSDEPS \<noteq> 0 then Inr (server, c)
      else bind_res (open_p server c) (\<lambda>(server, c).
        let server = fold hook (suid_init_hook_p sf) server in
        Inr (server\<lparr>s_flags := s_flags server OR GLIBTOP_INIT_STATE_SYSDEPS\<rparr>, c)))"

text \<open>\<open>main\<close> of \<open>server.c\<close> on a system other than Linux and AIX, up to the loop over the commands.\<close>

definition suid_server_start_bsd ::
  "bool \<Rightarrow> open_p \<Rightarrow> (feature \<Rightarrow> bool) \<Rightarrow> (feature \<Rightarrow> glibtop \<Rightarrow> glibtop) \<Rightarrow> cred \<Rightarrow> (glibtop \<times> cred) res" where
  "suid_server_start_bsd uname open_p sf hook c =
     (if \<not> uname then Inl (Exit ''_exit'')
      else let server = glibtop_global_server\<lparr>s_machine := Some \<lparr>m_uid = 0, m_euid = 0, m_gid = 0, m_egid = 0\<rparr>\<rparr> in
        bind_res (glibtop_init_p_bsd open_p sf hook server c) (\<lambda>(server, c').
        case setreuid (euid c) (ruid c) c' of
          None \<Rightarrow> Inl (Exit ''_exit'')
        | Some c' \<Rightarrow> (case setregid (egid c) (rgid c) c' of
              None \<Rightarrow> Inl (Exit ''_exit'') | Some c' \<Rightarrow> Inr (server, c'))))"

definition suid_server_start_fb ::
  "bool \<Rightarrow> bool \<Rightarrow> (feature \<Rightarrow> bool) \<Rightarrow> (feature \<Rightarrow> glibtop \<Rightarrow> glibtop) \<Rightarrow> cred \<Rightarrow> (glibtop \<times> cred) res" where
  "suid_server_start_fb uname kvm_ok = suid_server_start_bsd uname (glibtop_open_p_fb kvm_ok)"

section \<open>The kernel's view of processes\<close>

text \<open>The members of \<open>struct kinfo_proc\<close> that the code reads, with their widths on amd64.\<close>

record kinfo_proc =
  ki_pid :: gint32
  ki_ppid :: gint32
  ki_pgid :: gint32
  ki_tpgid :: gint32
  ki_sid :: gint32
  ki_tdev :: guint64
  ki_uid :: guint32
  ki_ruid :: guint32
  ki_rgid :: guint32
  ki_svgid :: guint32
  ki_comm :: string
  ki_stat :: nat
  ki_nice :: "8 word"
  ki_pri_user :: "8 word"
  ki_rssize :: "64 word"
  ki_tsize :: "64 word"
  ki_dsize :: "64 word"
  ki_size :: guint64
  ki_runtime :: guint64
  ki_utime :: "64 word \<times> 64 word"       \<comment> \<open>seconds and microseconds\<close>
  ki_stime :: "64 word \<times> 64 word"
  ki_childtime :: "64 word \<times> 64 word"
  ki_ch_stime :: "64 word \<times> 64 word"
  ki_start :: "64 word \<times> 64 word"
  ki_siglist :: guint32
  ki_sigmask :: guint32
  ki_sigignore :: guint32
  ki_sigcatch :: guint32
  ki_vmspace :: guint64
  ki_wchan :: guint64
  ki_wmesg :: string
  ki_flag :: "64 word"
  ki_minflt :: "64 word"
  ki_majflt :: "64 word"
  ki_ch_minflt :: "64 word"
  ki_ch_majflt :: "64 word"
  ki_inblock :: "64 word"
  ki_oublock :: "64 word"

text \<open>\<open>kvm_getprocs (kd, KERN_PROC_PID, pid, &count)\<close> gives the entries (\<open>None\<close>: NULL), \<open>kern.proc.all\<close> all
  of them (\<open>None\<close>: one of the two calls fails), \<open>kvm_getargv\<close> the arguments of an entry.\<close>

record kvm =
  kv_getprocs :: "cred \<Rightarrow> gint32 \<Rightarrow> kinfo_proc list option"
  kv_proc_all :: "cred \<Rightarrow> kinfo_proc list option"
  kv_getargv :: "cred \<Rightarrow> kinfo_proc \<Rightarrow> gint32 \<Rightarrow> string list option"

definition one_proc :: "kinfo_proc list option \<Rightarrow> kinfo_proc option" where
  \<comment> \<open>\<open>(pinfo == NULL) || (count != 1)\<close> is \<open>None\<close>\<close>
  "one_proc ps = (case ps of Some [p] \<Rightarrow> Some p | _ \<Rightarrow> None)"

definition first_proc :: "kinfo_proc list option \<Rightarrow> kinfo_proc option" where
  \<comment> \<open>\<open>(pinfo == NULL) || (count < 1)\<close> is \<open>None\<close>\<close>
  "first_proc ps = (case ps of Some (p # _) \<Rightarrow> Some p | _ \<Rightarrow> None)"

text \<open>The call between \<open>glibtop_suid_enter\<close> and \<open>glibtop_suid_leave\<close>, which is the next one on
  either branch.\<close>

definition getprocs_suid :: "kvm \<Rightarrow> glibtop_machine \<Rightarrow> cred \<Rightarrow> gint32 \<Rightarrow> (kinfo_proc list option \<times> cred) res" where
  "getprocs_suid V m c pid =
     (let c = glibtop_suid_enter_fb m c;
          pinfo = kv_getprocs V c pid
      in bind_res (glibtop_suid_leave_fb m c) (\<lambda>c. Inr (pinfo, c)))"

section \<open>procstate.c and procuid.c\<close>

abbreviation (input) "SRUN \<equiv> 2 :: nat"
abbreviation (input) "SSLEEP \<equiv> 3 :: nat"
abbreviation (input) "SSTOP \<equiv> 4 :: nat"
abbreviation (input) "SZOMB \<equiv> 5 :: nat"
abbreviation (input) "SWAIT \<equiv> 6 :: nat"
abbreviation (input) "SLOCK \<equiv> 7 :: nat"

definition sysdeps_proc_state_fb :: guint64 where
  "sysdeps_proc_state_fb = flag 0 + flag 1 + flag 2 + flag 3"

definition init_proc_state_p :: "glibtop \<Rightarrow> glibtop" where
  "init_proc_state_p server = set_sysdeps F_PROC_STATE sysdeps_proc_state_fb server"

definition process_state_fb :: "nat \<Rightarrow> 32 word" where
  "process_state_fb st =
     (if st = SRUN then GLIBTOP_PROCESS_RUNNING
      else if st = SSLEEP then GLIBTOP_PROCESS_INTERRUPTIBLE
      else if st = SSTOP then GLIBTOP_PROCESS_STOPPED
      else if st = SZOMB then GLIBTOP_PROCESS_ZOMBIE
      else if st = SWAIT \<or> st = SLOCK then GLIBTOP_PROCESS_UNINTERRUPTIBLE
      else 0)"

definition glibtop_get_proc_state_p :: "kvm \<Rightarrow> cred \<Rightarrow> gint32 \<Rightarrow> glibtop_proc_state" where
  "glibtop_get_proc_state_p V c pid =
     (case one_proc (kv_getprocs V c pid) of
        None \<Rightarrow> proc_state_zero
      | Some p \<Rightarrow> proc_state_zero\<lparr>ps_uid := ki_ruid p, ps_gid := ki_rgid p, ps_cmd := take 39 (ki_comm p),
                    ps_state := process_state_fb (ki_stat p), ps_flags := sysdeps_proc_state_fb\<rparr>)"

definition sysdeps_proc_uid_fb :: guint64 where
  "sysdeps_proc_uid_fb = flag 0 + flag 1 + flag 3 + flag 8 + flag 9 + flag 10 + flag 13 + flag 14 + flag 15 + flag 2"

definition init_proc_uid_p :: "glibtop \<Rightarrow> glibtop" where
  "init_proc_uid_p server = set_sysdeps F_PROC_UID sysdeps_proc_uid_fb server"

definition glibtop_get_proc_uid_p :: "kvm \<Rightarrow> cred \<Rightarrow> gint32 \<Rightarrow> glibtop_proc_uid" where
  "glibtop_get_proc_uid_p V c pid =
     (if pid = 0 then proc_uid_zero
      else case one_proc (kv_getprocs V c pid) of
        None \<Rightarrow> proc_uid_zero
      | Some p \<Rightarrow> proc_uid_zero\<lparr>pu_uid := ki_ruid p, pu_euid := ki_uid p, pu_gid := ki_rgid p, pu_egid := ki_svgid p,
                    pu_ppid := ki_ppid p, pu_pgrp := ki_pgid p, pu_tpgid := ki_tpgid p, pu_nice := scast (ki_nice p),
                    pu_priority := ucast (ki_pri_user p), pu_flags := sysdeps_proc_uid_fb\<rparr>)"

section \<open>procmem.c and procsegment.c\<close>

definition sysdeps_proc_mem_fb :: guint64 where
  "sysdeps_proc_mem_fb = flag 0 + flag 1 + flag 2 + flag 4 + flag 5"

definition init_proc_mem_p :: "glibtop \<Rightarrow> glibtop" where
  "init_proc_mem_p server = set_sysdeps F_PROC_MEM sysdeps_proc_mem_fb server"

definition ps_pgtok :: "gint32 \<Rightarrow> 64 word \<Rightarrow> 64 word" where
  \<comment> \<open>the macro: a division of longs\<close>
  "ps_pgtok pagesize a = word_of_int (sint (a * scast pagesize) sdiv 1024)"

definition glibtop_get_proc_mem_p :: "fbsd \<Rightarrow> kvm \<Rightarrow> glibtop \<Rightarrow> cred \<Rightarrow> gint32 \<Rightarrow> glibtop_proc_mem" where
  \<comment> \<open>the walk over the \<open>vm_map\<close> is not compiled (\<open>#if 0\<close>)\<close>
  "glibtop_get_proc_mem_p K V server c pid =
     (if sd (s_sysdeps server) F_PROC_MEM = 0 then proc_mem_zero
      else if pid = 0 then proc_mem_zero
      else case first_proc (kv_getprocs V c pid) of
        None \<Rightarrow> proc_mem_zero
      | Some p \<Rightarrow>
          (let rss = ps_pgtok (fb_pagesize K) (ki_rssize p) * 1024
           in proc_mem_zero\<lparr>pm_rss_rlim := ki_rssize p, pm_vsize := ki_size p, ProcInfo.pm_size := ki_size p,
                pm_resident := rss, pm_rss := rss, ProcInfo.pm_flags := sysdeps_proc_mem_fb\<rparr>))"

definition sysdeps_proc_segment_fb :: guint64 where
  "sysdeps_proc_segment_fb = flag 0 + flag 2"

definition init_proc_segment_p :: "glibtop \<Rightarrow> glibtop" where
  "init_proc_segment_p server = set_sysdeps F_PROC_SEGMENT sysdeps_proc_segment_fb server"

definition glibtop_get_proc_segment_p :: "fbsd \<Rightarrow> kvm \<Rightarrow> cred \<Rightarrow> gint32 \<Rightarrow> glibtop_proc_segment" where
  "glibtop_get_proc_segment_p K V c pid =
     (if pid = 0 then proc_segment_zero
      else case one_proc (kv_getprocs V c pid) of
        None \<Rightarrow> proc_segment_zero
      | Some p \<Rightarrow> proc_segment_zero\<lparr>pg_text_rss := ki_tsize p * scast (fb_pagesize K),
                    pg_data_rss := ki_dsize p * scast (fb_pagesize K), pg_flags := sysdeps_proc_segment_fb\<rparr>)"

section \<open>proctime.c\<close>

definition sysdeps_proc_time_fb :: guint64 where "sysdeps_proc_time_fb = flag 1 + flag 8"

definition sysdeps_proc_time_user :: guint64 where
  "sysdeps_proc_time_user = flag 2 + flag 3 + flag 4 + flag 5 + flag 0"

definition init_proc_time_p :: "glibtop \<Rightarrow> glibtop" where
  "init_proc_time_p server = set_sysdeps F_PROC_TIME (sysdeps_proc_time_fb OR sysdeps_proc_time_user) server"

definition tv2sec_freq :: "64 word \<times> 64 word \<Rightarrow> guint64 \<Rightarrow> guint64" where
  "tv2sec_freq tv freq = fst tv * freq + snd tv * freq div 1000000"

definition glibtop_get_proc_time_p ::
  "fbsd \<Rightarrow> kvm \<Rightarrow> glibtop_machine \<Rightarrow> cred \<Rightarrow> gint32 \<Rightarrow> (glibtop_proc_time \<times> cred) res" where
  \<comment> \<open>where the second call fails, \<open>glibtop_suid_leave\<close> is called once more\<close>
  "glibtop_get_proc_time_p K V m c pid =
     (if pid = 0 then Inr (proc_time_zero, c)
      else bind_res (getprocs_suid V m c pid) (\<lambda>(pinfo, c).
        case one_proc pinfo of
          None \<Rightarrow> Inr (proc_time_zero, c)
        | Some p \<Rightarrow>
            (case fb_clockrate K of
               None \<Rightarrow> bind_res (glibtop_suid_leave_fb m c) (\<lambda>c. Inr (proc_time_zero, c))
             | Some ci \<Rightarrow>
                 (let frequency = stat_frequency ci
                  in Inr (proc_time_zero\<lparr>pt_frequency := frequency, pt_rtime := ki_runtime p * frequency div 1000000,
                       pt_utime := tv2sec_freq (ki_utime p) frequency, pt_stime := tv2sec_freq (ki_stime p) frequency,
                       pt_cutime := tv2sec_freq (ki_childtime p) frequency,
                       pt_cstime := if 600006 \<le> fb_version K then tv2sec_freq (ki_ch_stime p) frequency else 0,
                       pt_start_time := tv2sec_freq (ki_start p) 1,
                       pt_flags := sysdeps_proc_time_fb OR sysdeps_proc_time_user\<rparr>, c)))))"

section \<open>procsignal.c\<close>

definition init_proc_signal_p :: "glibtop \<Rightarrow> glibtop" where
  "init_proc_signal_p server = set_sysdeps F_PROC_SIGNAL sysdeps_proc_signal server"

definition glibtop_get_proc_signal_p :: "kvm \<Rightarrow> cred \<Rightarrow> gint32 \<Rightarrow> glibtop_proc_signal" where
  "glibtop_get_proc_signal_p V c pid =
     (if pid = 0 then proc_signal_zero
      else case one_proc (kv_getprocs V c pid) of
        None \<Rightarrow> proc_signal_zero
      | Some p \<Rightarrow> \<lparr>pi_flags = sysdeps_proc_signal, pi_signal = ucast (ki_siglist p), pi_blocked = ucast (ki_sigmask p),
                    pi_sigignore = ucast (ki_sigignore p), pi_sigcatch = ucast (ki_sigcatch p)\<rparr>)"

section \<open>prockernel.c\<close>

definition sysdeps_proc_kernel_pstats :: "nat \<Rightarrow> guint64" where
  "sysdeps_proc_kernel_pstats version = flag 0 + flag 1 + flag 2 + (if 600006 \<le> version then flag 3 + flag 4 else 0)"

definition sysdeps_proc_kernel_wchan :: guint64 where "sysdeps_proc_kernel_wchan = flag 8 + flag 7"

definition init_proc_kernel_p :: "fbsd \<Rightarrow> glibtop \<Rightarrow> glibtop" where
  "init_proc_kernel_p K server =
     set_sysdeps F_PROC_KERNEL (sysdeps_proc_kernel_pstats (fb_version K) OR sysdeps_proc_kernel_wchan) server"

definition glibtop_get_proc_kernel_p ::
  "fbsd \<Rightarrow> kvm \<Rightarrow> glibtop \<Rightarrow> glibtop_machine \<Rightarrow> cred \<Rightarrow> gint32 \<Rightarrow> (glibtop_proc_kernel \<times> cred) res" where
  \<comment> \<open>the first test looks at \<open>sysdeps.proc_time\<close>\<close>
  "glibtop_get_proc_kernel_p K V server m c pid =
     (if sd (s_sysdeps server) F_PROC_TIME = 0 then Inr (proc_kernel_zero, c)
      else if pid = 0 then Inr (proc_kernel_zero, c)
      else bind_res (getprocs_suid V m c pid) (\<lambda>(pinfo, c).
        case one_proc pinfo of
          None \<Rightarrow> Inr (proc_kernel_zero, c)
        | Some p \<Rightarrow>
            (let buf = proc_kernel_zero\<lparr>pk_nwchan := ki_wchan p, pk_flags := flag 7\<rparr>;
                 buf = (if ki_wchan p \<noteq> 0 \<and> ki_wmesg p \<noteq> []
                        then buf\<lparr>pk_wchan := take 39 (ki_wmesg p), pk_flags := pk_flags buf OR flag 8\<rparr> else buf);
                 buf = buf\<lparr>pk_k_flags := ki_flag p, pk_min_flt := ki_minflt p, pk_maj_flt := ki_majflt p\<rparr>;
                 buf = (if 600006 \<le> fb_version K
                        then buf\<lparr>pk_cmin_flt := pk_min_flt buf + ki_ch_minflt p, pk_cmaj_flt := pk_maj_flt buf + ki_ch_majflt p\<rparr>
                        else buf)
             in Inr (buf\<lparr>pk_flags := pk_flags buf OR sysdeps_proc_kernel_pstats (fb_version K)\<rparr>, c))))"

section \<open>procargs.c and procio.c\<close>

definition init_proc_args_p :: "glibtop \<Rightarrow> glibtop" where
  "init_proc_args_p server = set_sysdeps F_PROC_ARGS sysdeps_proc_args server"

definition glibtop_get_proc_args_p ::
  "kvm \<Rightarrow> glibtop_machine \<Rightarrow> cred \<Rightarrow> gint32 \<Rightarrow> gint32 \<Rightarrow> ((glibtop_proc_args \<times> string option) \<times> cred) res" where
  "glibtop_get_proc_args_p V m c pid max_len =
     (let zero = \<lparr>pa_flags = 0, pa_size = 0\<rparr> in
      if sint pid < 5 then Inr ((zero, None), c)
      else
        let c = glibtop_suid_enter_fb m c in
        case first_proc (kv_getprocs V c pid) of
          None \<Rightarrow> bind_res (glibtop_suid_leave_fb m c) (\<lambda>c. Inr ((zero, None), c))
        | Some p \<Rightarrow>
            (case kv_getargv V c p max_len of
               None \<Rightarrow> bind_res (glibtop_suid_leave_fb m c) (\<lambda>c. Inr ((zero, None), c))
             | Some args \<Rightarrow>
                 bind_res (glibtop_suid_leave_fb m c) (\<lambda>c.
                   let retval = strings args in
                   Inr ((\<lparr>pa_flags = sysdeps_proc_args, pa_size = of_nat (length retval - 1)\<rparr>,
                         Some (retval @ [NUL, NUL])), c))))"

definition sysdeps_proc_io_fb :: guint64 where "sysdeps_proc_io_fb = flag 2 + flag 3"

definition init_proc_io_p :: "glibtop \<Rightarrow> glibtop" where
  "init_proc_io_p server = set_sysdeps F_PROC_IO sysdeps_proc_io_fb server"

definition glibtop_get_proc_io_p ::
  "kvm \<Rightarrow> glibtop_machine \<Rightarrow> cred \<Rightarrow> gint32 \<Rightarrow> (glibtop_proc_io \<times> cred) res" where
  "glibtop_get_proc_io_p V m c pid =
     bind_res (getprocs_suid V m c pid) (\<lambda>(pinfo, c).
       case one_proc pinfo of
         None \<Rightarrow> Inr (proc_io_zero, c)
       | Some p \<Rightarrow> Inr (proc_io_zero\<lparr>pio_disk_rbytes := push_bit 10 (ki_inblock p),
                     pio_disk_wbytes := push_bit 10 (ki_oublock p), pio_flags := sysdeps_proc_io_fb\<rparr>, c))"

section \<open>proclist.c\<close>

definition init_proclist_p :: "glibtop \<Rightarrow> glibtop" where
  "init_proclist_p server = set_sysdeps F_PROCLIST sysdeps_proclist server"

definition proc_selected :: "64 word \<Rightarrow> 64 word \<Rightarrow> kinfo_proc \<Rightarrow> bool" where
  \<comment> \<open>the \<open>switch\<close> lets it pass\<close>
  "proc_selected which arg p =
     (let w = which AND GLIBTOP_KERN_PROC_MASK in
      if w = GLIBTOP_KERN_PROC_PID then ucast arg = ki_pid p
      else if w = GLIBTOP_KERN_PROC_UID then ucast arg = ki_ruid p
      else if w = GLIBTOP_KERN_PROC_PGRP then ucast arg = ki_pgid p
      else if w = GLIBTOP_KERN_PROC_SESSION then ucast arg = ki_sid p
      else if w = GLIBTOP_KERN_PROC_TTY then arg = ki_tdev p
      else if w = GLIBTOP_KERN_PROC_RUID then ucast arg = ki_ruid p
      else True)"

definition proc_kept :: "kvm \<Rightarrow> cred \<Rightarrow> 64 word \<Rightarrow> 64 word \<Rightarrow> kinfo_proc \<Rightarrow> bool" where
  \<comment> \<open>no \<open>continue\<close> behind the test for the same pid\<close>
  "proc_kept V c which arg p =
     (if \<not> proc_selected which arg p then False
      else if which AND GLIBTOP_EXCLUDE_NOTTY \<noteq> 0 \<and> ki_tdev p = - 1 then False
      else if which AND GLIBTOP_EXCLUDE_IDLE \<noteq> 0
              \<and> (let procstate = glibtop_get_proc_state_p V c (ki_pid p)
                 in ps_flags procstate AND flag 1 \<noteq> 0 \<and> ps_state procstate \<noteq> GLIBTOP_PROCESS_RUNNING) then False
      else if which AND GLIBTOP_EXCLUDE_IDLE \<noteq> 0 \<and> ki_ppid p = 0 \<and> ki_comm p = ''idle'' then False
      else if which AND GLIBTOP_EXCLUDE_SYSTEM \<noteq> 0 \<and> ki_ruid p = 0 then False
      else True)"

fun proclist_loop_fb ::
  "(kinfo_proc \<Rightarrow> bool) \<Rightarrow> gint32 option \<Rightarrow> kinfo_proc list \<Rightarrow> gint32 list \<Rightarrow> gint32 list" where
  \<comment> \<open>\<open>prev\<close> is not initialised before the first entry; the last argument is the array of pids\<close>
  "proclist_loop_fb keep prev [] pids = pids"
| "proclist_loop_fb keep prev (p # ps) pids =
     (if prev = Some (ki_pid p) then proclist_loop_fb keep prev ps pids
      else proclist_loop_fb keep (Some (ki_pid p)) ps (if keep p then pids @ [ki_pid p] else pids))"

definition glibtop_get_proclist_p ::
  "kvm \<Rightarrow> cred \<Rightarrow> 64 word \<Rightarrow> 64 word \<Rightarrow> glibtop_proclist \<times> gint32 list option" where
  "glibtop_get_proclist_p V c which arg =
     (case kv_proc_all V c of
        None \<Rightarrow> (\<lparr>pl_flags = 0, pl_number = 0, pl_total = 0, pl_size = 0\<rparr>, None)
      | Some ps \<Rightarrow>
          (let pids = proclist_loop_fb (proc_kept V c which arg) None ps []
           in (\<lparr>pl_flags = sysdeps_proclist, pl_number = of_nat (length pids), pl_total = of_nat (length pids) * 4,
                pl_size = 4\<rparr>, Some pids)))"

section \<open>procaffinity.c\<close>

text \<open>\<open>cpuset_getaffinity\<close> is a parameter (\<open>None\<close>: it fails), \<open>setsize\<close> is \<open>CPU_SETSIZE\<close>.\<close>

definition glibtop_get_proc_affinity_s_fb ::
  "fbsd \<Rightarrow> nat \<Rightarrow> (gint32 \<Rightarrow> (nat \<Rightarrow> bool) option) \<Rightarrow> glibtop \<Rightarrow> gint32 \<Rightarrow> (glibtop_proc_affinity \<times> 16 word list option) res" where
  "glibtop_get_proc_affinity_s_fb K setsize getaffinity server pid =
     (if fb_version K \<le> 800024 then Inr (\<lparr>af_flags = 0, af_number = 0, af_all = False\<rparr>, None)
      else case getaffinity pid of
        None \<Rightarrow> Inl (Exit ''cpuset_getaffinity failed'')
      | Some cpuset \<Rightarrow>
          (let n = unat (word_of_int (s_ncpu server + 1) :: 64 word);
               cpus = filter cpuset [0..<min setsize n]
           in Inr (\<lparr>af_flags = flag 0 OR flag 1, af_number = of_nat (length cpus), af_all = (length cpus = n)\<rparr>,
                   Some (map of_nat cpus))))"

section \<open>The rights between two commands\<close>

definition lowered :: "glibtop_machine \<Rightarrow> cred \<Rightarrow> bool" where
  "lowered m c \<longleftrightarrow> rgid c = nat (m_egid m) \<and> egid c = nat (m_gid m) \<and> sgid c = nat (m_gid m)"

definition raised :: "glibtop_machine \<Rightarrow> cred \<Rightarrow> cred" where
  "raised m c = c\<lparr>rgid := nat (m_gid m), egid := nat (m_egid m), sgid := nat (m_egid m)\<rparr>"

lemma enter_leave:
  assumes "lowered m c"
  shows "glibtop_suid_enter_fb m c = raised m c" "glibtop_suid_leave_fb m (raised m c) = Inr c"
    "glibtop_suid_leave_fb m c = Inr c"
  using assms
  by (cases c; simp add: lowered_def raised_def glibtop_suid_enter_fb_def glibtop_suid_leave_fb_def setregid_def)+

lemma getprocs_suid_lowered:
  "lowered m c \<Longrightarrow> getprocs_suid V m c pid = Inr (kv_getprocs V (raised m c) pid, c)"
  by (simp add: getprocs_suid_def enter_leave Let_def)

lemma getters_keep_rights:
  assumes "lowered m c"
  shows "\<exists>r. glibtop_get_proc_time_p K V m c pid = Inr (r, c)"
    and "\<exists>r. glibtop_get_proc_kernel_p K V server m c pid = Inr (r, c)"
    and "\<exists>r. glibtop_get_proc_args_p V m c pid max_len = Inr (r, c)"
    and "\<exists>r. glibtop_get_proc_io_p V m c pid = Inr (r, c)"
  using enter_leave [OF assms] getprocs_suid_lowered [OF assms]
  by (auto simp: glibtop_get_proc_time_p_def glibtop_get_proc_kernel_p_def glibtop_get_proc_args_p_def
      glibtop_get_proc_io_p_def Let_def split: option.splits)

lemma hooks_machine:
  "\<forall>f s. s_machine (hook f s) = s_machine s \<Longrightarrow> s_machine (fold hook fs s) = s_machine s"
  by (induction fs arbitrary: s) simp_all

lemma open_p_fb_machine:
  "glibtop_open_p_fb kvm_ok server c = Inr (server', c') \<Longrightarrow>
   s_machine server' = Some \<lparr>m_uid = int (ruid c), m_euid = int (euid c), m_gid = int (rgid c), m_egid = int (egid c)\<rparr>"
  by (auto simp: glibtop_open_p_fb_def glibtop_open_p_def Let_def split: if_splits option.splits)

lemma suid_start_lowered:
  assumes start: "suid_server_start_bsd uname open_p sf hook c = Inr (server, d)"
    and open_p: "\<forall>s s' c'. open_p s c = Inr (s', c') \<longrightarrow>
      s_machine s' = Some \<lparr>m_uid = int (ruid c), m_euid = int (euid c), m_gid = int (rgid c), m_egid = int (egid c)\<rparr>"
    and hook: "\<forall>f s. s_machine (hook f s) = s_machine s"
  obtains m where "s_machine server = Some m" "lowered m d" "raised m d = d\<lparr>rgid := rgid c, egid := egid c, sgid := egid c\<rparr>"
    "egid d = rgid c" "ruid d = euid c" "euid d = ruid c"
proof
  let ?m = "\<lparr>m_uid = int (ruid c), m_euid = int (euid c), m_gid = int (rgid c), m_egid = int (egid c)\<rparr>"
  let ?s = "glibtop_global_server\<lparr>s_machine := Some \<lparr>m_uid = 0, m_euid = 0, m_gid = 0, m_egid = 0\<rparr>\<rparr>"
  have flags: "s_flags glibtop_global_server AND GLIBTOP_INIT_STATE_SYSDEPS = 0" by (simp add: glibtop_global_server_def)
  obtain c' where "glibtop_init_p_bsd open_p sf hook ?s c = Inr (server, c')"
    using start by (auto simp: suid_server_start_bsd_def bind_res_Inr_iff Let_def split: if_splits option.splits)
  then obtain s' where "open_p ?s c = Inr (s', c')" "s_machine server = s_machine s'"
    by (auto simp: glibtop_init_p_bsd_def flags bind_res_Inr_iff Let_def hooks_machine [OF hook])
  with open_p show "s_machine server = Some ?m" by metis
  have d: "rgid d = egid c" "egid d = rgid c" "sgid d = rgid c" "ruid d = euid c" "euid d = ruid c"
    using start by (auto simp: suid_server_start_bsd_def bind_res_Inr_iff Let_def setreuid_def setregid_def
        split: if_splits option.splits)
  then show "lowered ?m d" "raised ?m d = d\<lparr>rgid := rgid c, egid := egid c, sgid := egid c\<rparr>"
    "egid d = rgid c" "ruid d = euid c" "euid d = ruid c"
    by (simp_all add: lowered_def raised_def)
qed

lemma suid_start_fb_lowered:
  assumes "suid_server_start_fb uname kvm_ok sf hook c = Inr (server, d)" and "\<forall>f s. s_machine (hook f s) = s_machine s"
  obtains m where "s_machine server = Some m" "lowered m d" "raised m d = d\<lparr>rgid := rgid c, egid := egid c, sgid := egid c\<rparr>"
    "egid d = rgid c" "ruid d = euid c" "euid d = ruid c"
  using suid_start_lowered [OF assms(1) [unfolded suid_server_start_fb_def] _ assms(2)] open_p_fb_machine by blast

definition same_answers :: "(cred \<Rightarrow> bool) \<Rightarrow> kvm \<Rightarrow> kvm \<Rightarrow> bool" where
  \<comment> \<open>two kernels that answer alike to a process with such rights\<close>
  "same_answers Q V V' \<longleftrightarrow>
     (\<forall>c. Q c \<longrightarrow> kv_getprocs V c = kv_getprocs V' c \<and> kv_getargv V c = kv_getargv V' c)"

lemma getters_ask_raised:
  assumes "lowered m c" and "same_answers Q V V'" "Q (raised m c)"
  shows "glibtop_get_proc_time_p K V m c pid = glibtop_get_proc_time_p K V' m c pid"
    and "glibtop_get_proc_kernel_p K V server m c pid = glibtop_get_proc_kernel_p K V' server m c pid"
    and "glibtop_get_proc_args_p V m c pid max_len = glibtop_get_proc_args_p V' m c pid max_len"
    and "glibtop_get_proc_io_p V m c pid = glibtop_get_proc_io_p V' m c pid"
proof -
  have k: "kv_getprocs V (raised m c) = kv_getprocs V' (raised m c)" "kv_getargv V (raised m c) = kv_getargv V' (raised m c)"
    using assms(2,3) by (simp_all add: same_answers_def)
  have "getprocs_suid V m c pid = getprocs_suid V' m c pid" for pid
    using getprocs_suid_lowered [OF assms(1)] k by simp
  then show "glibtop_get_proc_time_p K V m c pid = glibtop_get_proc_time_p K V' m c pid"
    and "glibtop_get_proc_kernel_p K V server m c pid = glibtop_get_proc_kernel_p K V' server m c pid"
    and "glibtop_get_proc_io_p V m c pid = glibtop_get_proc_io_p V' m c pid"
    by (simp_all only: glibtop_get_proc_time_p_def glibtop_get_proc_kernel_p_def glibtop_get_proc_io_p_def)
  show "glibtop_get_proc_args_p V m c pid max_len = glibtop_get_proc_args_p V' m c pid max_len"
    using enter_leave [OF assms(1)] k by (simp add: glibtop_get_proc_args_p_def Let_def split: option.split)
qed

lemma others_ask_lowered:
  assumes "same_answers Q V V'" "Q c"
  shows "glibtop_get_proc_signal_p V c pid = glibtop_get_proc_signal_p V' c pid"
    and "glibtop_get_proc_state_p V c pid = glibtop_get_proc_state_p V' c pid"
    and "glibtop_get_proc_uid_p V c pid = glibtop_get_proc_uid_p V' c pid"
  using assms
  by (simp_all add: same_answers_def glibtop_get_proc_signal_p_def glibtop_get_proc_state_p_def glibtop_get_proc_uid_p_def)

text \<open>
  C10. The rights of the setuid server on FreeBSD: once it has started, its effective user and group are
  the caller's. The getters for the times, the kernel's data, the arguments and the input and output of a process ask the kernel with the group of
  the file of the server: on two kernels that answer alike to a process with this group, and the user of the caller, they return the same,
  whatever the kernels answer to the caller. The getters for the state, the user and the signals ask with the group of
  the caller alone. On every path, whatever the kernel answers (no process, several, no arguments, no clock rate), a getter
  comes back with the rights it started with and never ends the process.
\<close>

theorem suid_rights_fb:
  assumes "suid_server_start_fb uname kvm_ok sf hook c = Inr (server, d)"
    and "\<forall>f s. s_machine (hook f s) = s_machine s"
  shows "egid d = rgid c \<and> euid d = ruid c
    \<and> (\<exists>m. s_machine server = Some m
        \<and> (\<forall>K V pid. \<exists>r. glibtop_get_proc_time_p K V m d pid = Inr (r, d))
        \<and> (\<forall>K V s pid. \<exists>r. glibtop_get_proc_kernel_p K V s m d pid = Inr (r, d))
        \<and> (\<forall>V pid max_len. \<exists>r. glibtop_get_proc_args_p V m d pid max_len = Inr (r, d))
        \<and> (\<forall>V pid. \<exists>r. glibtop_get_proc_io_p V m d pid = Inr (r, d))
        \<and> (\<forall>V V' K s pid max_len. same_answers (\<lambda>k. egid k = egid c \<and> euid k = ruid c) V V' \<longrightarrow>
            glibtop_get_proc_time_p K V m d pid = glibtop_get_proc_time_p K V' m d pid
            \<and> glibtop_get_proc_kernel_p K V s m d pid = glibtop_get_proc_kernel_p K V' s m d pid
            \<and> glibtop_get_proc_args_p V m d pid max_len = glibtop_get_proc_args_p V' m d pid max_len
            \<and> glibtop_get_proc_io_p V m d pid = glibtop_get_proc_io_p V' m d pid)
        \<and> (\<forall>V V' pid. same_answers (\<lambda>k. egid k = rgid c \<and> euid k = ruid c) V V' \<longrightarrow>
            glibtop_get_proc_state_p V d pid = glibtop_get_proc_state_p V' d pid
            \<and> glibtop_get_proc_uid_p V d pid = glibtop_get_proc_uid_p V' d pid
            \<and> glibtop_get_proc_signal_p V d pid = glibtop_get_proc_signal_p V' d pid))"
proof -
  obtain m where m: "s_machine server = Some m" "lowered m d" "raised m d = d\<lparr>rgid := rgid c, egid := egid c, sgid := egid c\<rparr>"
    "egid d = rgid c" "ruid d = euid c" "euid d = ruid c"
    using suid_start_fb_lowered [OF assms] by blast
  have "egid (raised m d) = egid c \<and> euid (raised m d) = ruid c" using m(3,6) by simp
  with getters_keep_rights [OF m(2)] getters_ask_raised [OF m(2)] others_ask_lowered m(1,4,6) show ?thesis
    by (intro conjI exI [of _ m] allI impI) (blast | simp)+
qed

definition sgid_kmem :: cred where
  \<comment> \<open>user 1000 of group 100 runs a file of group 2 with the bit for the group\<close>
  "sgid_kmem = \<lparr>ruid = 1000, euid = 1000, suid = 1000, rgid = 100, egid = 2, sgid = 2\<rparr>"

definition group_kvm :: kvm where
  \<comment> \<open>a kernel that tells only group 2 of its processes\<close>
  "group_kvm = \<lparr>kv_getprocs = (\<lambda>c pid. if egid c = 2 then Some [] else None), kv_proc_all = (\<lambda>_. None), kv_getargv = (\<lambda>_ _ _. None)\<rparr>"

definition open_kvm :: kvm where
  "open_kvm = group_kvm\<lparr>kv_getprocs := (\<lambda>c pid. Some [])\<rparr>"

theorem suid_rights_fb_witness:
  "\<exists>server d m. suid_server_start_fb True True (\<lambda>_. False) (\<lambda>_ s. s) sgid_kmem = Inr (server, d)
     \<and> egid d = 100 \<and> s_machine server = Some m
     \<and> (\<forall>pid. \<exists>r. glibtop_get_proc_io_p group_kvm m d pid = Inr (r, d))
     \<and> (\<forall>pid. glibtop_get_proc_io_p group_kvm m d pid = glibtop_get_proc_io_p open_kvm m d pid)"
proof -
  obtain server d where s: "suid_server_start_fb True True (\<lambda>_. False) (\<lambda>_ s. s) sgid_kmem = Inr (server, d)"
    by (simp add: suid_server_start_fb_def suid_server_start_bsd_def glibtop_init_p_bsd_def glibtop_open_p_fb_def glibtop_open_p_def sgid_kmem_def
        glibtop_global_server_def setreuid_def setregid_def Let_def)
  have k: "same_answers (\<lambda>k. egid k = egid sgid_kmem \<and> euid k = ruid sgid_kmem) group_kvm open_kvm"
    by (simp add: same_answers_def group_kvm_def open_kvm_def sgid_kmem_def)
  from suid_rights_fb [OF s] obtain m where "s_machine server = Some m" "egid d = rgid sgid_kmem"
    "\<forall>pid. \<exists>r. glibtop_get_proc_io_p group_kvm m d pid = Inr (r, d)"
    "\<forall>pid. glibtop_get_proc_io_p group_kvm m d pid = glibtop_get_proc_io_p open_kvm m d pid"
    using k by (auto 0 3)
  with s show ?thesis by (auto simp: sgid_kmem_def)
qed

section \<open>The list of processes\<close>

text \<open>The first entry of every run of entries with the same pid.\<close>

function run_heads :: "kinfo_proc list \<Rightarrow> kinfo_proc list" where
  "run_heads [] = []"
| "run_heads (p # ps) = p # run_heads (dropWhile (\<lambda>q. ki_pid q = ki_pid p) ps)"
  by pat_completeness auto
termination
  by (relation "measure length") (auto simp: le_imp_less_Suc length_dropWhile_le)

lemma proclist_loop_fb_runs:
  "proclist_loop_fb keep prev ps pids
     = pids @ map ki_pid (filter keep (run_heads (case prev of None \<Rightarrow> ps | Some q \<Rightarrow> dropWhile (\<lambda>p. ki_pid p = q) ps)))"
proof (induction ps arbitrary: prev pids)
  case (Cons p ps)
  show ?case by (cases "prev = Some (ki_pid p)") (auto simp: Cons.IH split: option.splits)
qed (simp split: option.split)

lemma run_heads_pids: "map ki_pid (run_heads ps) = remdups_adj (map ki_pid ps)"
proof (induction ps rule: run_heads.induct)
  case (2 p ps)
  have "map ki_pid (dropWhile (\<lambda>q. ki_pid q = ki_pid p) ps) = dropWhile (\<lambda>x. x = ki_pid p) (map ki_pid ps)"
    by (simp add: dropWhile_map comp_def)
  with 2 show ?case by (simp add: remdups_adj_Cons' )
qed simp

text \<open>
  The list of processes on FreeBSD: from the kernel's list, which has an entry for each thread, the
  first entry of every run with the same pid is taken, and of these the ones that the mask and the flags
  leave, in the order of the kernel. If the entries of a process stand together, as the comment in the code
  hopes, no pid comes twice. The counts fit the block.
\<close>

theorem proclist_fb_spec:
  assumes "kv_proc_all V c = Some ps"
  shows "\<exists>pids. glibtop_get_proclist_p V c which arg
      = (\<lparr>pl_flags = sysdeps_proclist, pl_number = of_nat (length pids), pl_total = of_nat (4 * length pids), pl_size = 4\<rparr>,
         Some pids)
    \<and> pids = map ki_pid (filter (proc_kept V c which arg) (run_heads ps))
    \<and> (distinct (remdups_adj (map ki_pid ps)) \<longrightarrow> distinct pids)"
proof -
  define pids where "pids = map ki_pid (filter (proc_kept V c which arg) (run_heads ps))"
  have "glibtop_get_proclist_p V c which arg
      = (\<lparr>pl_flags = sysdeps_proclist, pl_number = of_nat (length pids), pl_total = of_nat (4 * length pids), pl_size = 4\<rparr>,
         Some pids)"
    by (simp add: glibtop_get_proclist_p_def assms proclist_loop_fb_runs pids_def Let_def mult.commute)
  moreover have "distinct pids" if "distinct (remdups_adj (map ki_pid ps))"
    using that run_heads_pids [of ps] distinct_map_filter [of ki_pid "run_heads ps"] by (simp add: pids_def)
  ultimately show ?thesis unfolding pids_def by blast
qed

definition demo_proc :: kinfo_proc where
  "demo_proc = \<lparr>ki_pid = 7, ki_ppid = 1, ki_pgid = 7, ki_tpgid = 0, ki_sid = 7, ki_tdev = - 1, ki_uid = 1000, ki_ruid = 1000,
     ki_rgid = 100, ki_svgid = 100, ki_comm = ''sh'', ki_stat = 3, ki_nice = 0, ki_pri_user = 20, ki_rssize = 10,
     ki_tsize = 1, ki_dsize = 2, ki_size = 81920, ki_runtime = 0, ki_utime = (0, 0), ki_stime = (0, 0),
     ki_childtime = (0, 0), ki_ch_stime = (0, 0), ki_start = (0, 0), ki_siglist = 0, ki_sigmask = 0, ki_sigignore = 0,
     ki_sigcatch = 0, ki_vmspace = 0x1000, ki_wchan = 0, ki_wmesg = [], ki_flag = 0, ki_minflt = 0, ki_majflt = 0, ki_ch_minflt = 0,
     ki_ch_majflt = 0, ki_inblock = 0, ki_oublock = 0\<rparr>"

definition demo_kvm :: kvm where
  "demo_kvm = \<lparr>kv_getprocs = (\<lambda>c pid. if pid = 7 then Some [demo_proc] else None),
     kv_proc_all = (\<lambda>c. Some [demo_proc\<lparr>ki_pid := 1, ki_ruid := 0\<rparr>, demo_proc, demo_proc, demo_proc\<lparr>ki_pid := 8\<rparr>]),
     kv_getargv = (\<lambda>c p n. Some [''sh'', ''-c''])\<rparr>"

theorem proclist_fb_spec_witness:
  "snd (glibtop_get_proclist_p demo_kvm sgid_kmem 0x2000 0) = Some [7, 8]"
proof -
  have "kv_proc_all demo_kvm sgid_kmem = Some [demo_proc\<lparr>ki_pid := 1, ki_ruid := 0\<rparr>, demo_proc, demo_proc, demo_proc\<lparr>ki_pid := 8\<rparr>]"
    by (simp add: demo_kvm_def)
  from proclist_fb_spec [OF this, of "0x2000" 0] show ?thesis
    by (auto simp: proc_kept_def proc_selected_def demo_proc_def Let_def)
qed

end
