(* ===== verification/FbMap.thy ===== *)
theory FbMap
  imports FbProc
begin

unbundle bit_operations_syntax

text \<open>
  \<open>procmap.c\<close> under \<open>sysdeps/freebsd\<close>: the memory map of a process, read out of the kernel's memory
  with \<open>kvm_read\<close>. The code follows pointers from one \<open>vm_map_entry\<close> to the next until it is back at the
  first one; \<open>partial_function (option)\<close> models the loop, where \<open>None\<close> says that it does not end.
\<close>

section \<open>The kernel's memory\<close>

text \<open>
  What \<open>kvm_read\<close> finds at an address when it reads a struct there, with the rights of the moment;
  \<open>None\<close> where it fails (and then leaves the variable as it was). The structs are given by the members
  that the code reads. \<open>ve_next\<close> is \<open>next\<close>, or \<open>right\<close> from version 1300062 on. An \<open>inode\<close> is read
  once and looked at as the inode of UFS or as the znode of ZFS.
\<close>

record vm_entry =
  ve_next :: guint64
  ve_sub_map :: bool            \<comment> \<open>\<open>eflags & MAP_ENTRY_IS_SUB_MAP\<close>\<close>
  ve_object :: guint64
  ve_start :: guint64
  ve_end :: guint64
  ve_offset :: guint64
  ve_protection :: "8 word"

record vm_object =
  vo_vnode :: bool              \<comment> \<open>\<open>type == OBJT_VNODE\<close>\<close>
  vo_handle :: guint64

record vnode =
  vn_none :: bool               \<comment> \<open>\<open>v_type\<close> is \<open>VNON\<close> or \<open>VBAD\<close>\<close>
  vn_data :: guint64            \<comment> \<open>\<open>VTOI\<close>\<close>
  vn_cachedid :: guint64
  vn_cachedfs :: guint64

record inode =
  in_number :: guint64
  in_ump :: guint64
  in_dev :: guint64
  zn_zfsvfs :: guint64
  zn_id :: guint64

record kmem =
  km_first :: "cred \<Rightarrow> guint64 \<Rightarrow> guint64 option"     \<comment> \<open>\<open>vmspace.vm_map.header.next\<close>\<close>
  km_entry :: "cred \<Rightarrow> guint64 \<Rightarrow> vm_entry option"
  km_object :: "cred \<Rightarrow> guint64 \<Rightarrow> vm_object option"
  km_vnode :: "cred \<Rightarrow> guint64 \<Rightarrow> vnode option"
  km_tagptr :: "cred \<Rightarrow> guint64 \<Rightarrow> guint64 option"    \<comment> \<open>\<open>v_tag\<close> of the vnode at an address\<close>
  km_tagstr :: "cred \<Rightarrow> guint64 \<Rightarrow> string option"     \<comment> \<open>twelve bytes\<close>
  km_inode :: "cred \<Rightarrow> guint64 \<Rightarrow> inode option"
  km_zfs_root :: "cred \<Rightarrow> guint64 \<Rightarrow> guint64 option"  \<comment> \<open>\<open>z_root\<close>\<close>
  km_um_dev :: "cred \<Rightarrow> guint64 \<Rightarrow> guint64 option"    \<comment> \<open>\<open>um_dev\<close> of a \<open>ufsmount\<close>\<close>
  km_si_priv :: "cred \<Rightarrow> guint64 \<Rightarrow> guint64 option"   \<comment> \<open>\<open>si_priv\<close> of a \<open>cdev\<close>\<close>
  km_cdev2priv :: "guint64 \<Rightarrow> guint64"
  km_cdp_inode :: "cred \<Rightarrow> guint64 \<Rightarrow> guint64 option" \<comment> \<open>\<open>cdp_inode\<close> of a \<open>cdev_priv\<close>\<close>

section \<open>Device and inode\<close>

definition opt0 :: "guint64 option \<Rightarrow> guint64" where
  \<comment> \<open>the variable keeps its 0 where the read fails\<close>
  "opt0 v = (case v of None \<Rightarrow> 0 | Some x \<Rightarrow> x)"

definition ufs_dev :: "nat \<Rightarrow> kmem \<Rightarrow> cred \<Rightarrow> inode \<Rightarrow> guint64 option" where
  "ufs_dev version M c i =
     (if 1101001 \<le> version then
        Option.bind (km_um_dev M c (in_ump i)) (\<lambda>um_dev. km_cdp_inode M c (km_cdev2priv M um_dev))
      else if 800039 \<le> version then km_cdp_inode M c (km_cdev2priv M (in_dev i))
      else Option.bind (km_si_priv M c (in_dev i)) (\<lambda>si_priv. km_cdp_inode M c si_priv))"

definition freebsd_dev_inode :: "nat \<Rightarrow> kmem \<Rightarrow> cred \<Rightarrow> guint64 \<Rightarrow> vnode \<Rightarrow> guint64 \<times> guint64" where
  \<comment> \<open>\<open>(inum, dev)\<close>\<close>
  "freebsd_dev_inode version M c vnode vn =
     (case Option.bind (km_tagptr M c vnode) (km_tagstr M c) of
        None \<Rightarrow> (0, 0)
      | Some tag \<Rightarrow>
          (let tagstr = c_str (take 11 tag) in
           if tagstr \<noteq> ''ufs'' \<and> tagstr \<noteq> ''zfs'' then (0, 0)
           else case km_inode M c (vn_data vn) of
             None \<Rightarrow> (0, 0)
           | Some i \<Rightarrow>
               (if tagstr = ''zfs'' then (zn_id i, opt0 (km_zfs_root M c (zn_zfsvfs i)))
                else (in_number i, opt0 (ufs_dev version M c i)))))"

section \<open>The entries\<close>

definition sysdeps_map_entry_fb :: guint64 where
  "sysdeps_map_entry_fb = flag 0 + flag 1 + flag 2 + flag 3 + flag 4 + flag 5"

definition init_proc_map_p :: "glibtop \<Rightarrow> glibtop" where
  "init_proc_map_p server = set_sysdeps F_PROC_MAP sysdeps_proc_map server"

definition map_perm_fb :: "8 word \<Rightarrow> guint64" where
  \<comment> \<open>\<open>VM_PROT_READ\<close>, \<open>VM_PROT_WRITE\<close>, \<open>VM_PROT_EXECUTE\<close>\<close>
  "map_perm_fb prot = (if bit prot 0 then 1 else 0) OR (if bit prot 1 then 2 else 0) OR (if bit prot 2 then 4 else 0)"

definition map_entry_fb :: "nat \<Rightarrow> kmem \<Rightarrow> cred \<Rightarrow> vm_entry \<Rightarrow> glibtop_map_entry option" where
  \<comment> \<open>the body of the loop behind the read; \<open>None\<close> is a \<open>continue\<close>\<close>
  "map_entry_fb version M c entry =
     (if ve_sub_map entry then None
      else if ve_object entry = 0 then None
      else case km_object M c (ve_object entry) of
        None \<Rightarrow> None
      | Some ob \<Rightarrow>
          (if \<not> vo_vnode ob then None
           else if vo_handle ob = 0 then None
           else case km_vnode M c (vo_handle ob) of
             None \<Rightarrow> None
           | Some vn \<Rightarrow>
               (if vn_none vn then None
                else let (inum, dev) = (if version < 600006 then (vn_cachedid vn, vn_cachedfs vn)
                                        else freebsd_dev_inode version M c (vo_handle ob) vn)
                  in Some \<lparr>me_flags = sysdeps_map_entry_fb, me_start = ve_start entry, me_end = ve_end entry,
                       me_offset = ve_offset entry, me_perm = map_perm_fb (ve_protection entry), me_inode = inum,
                       me_device = dev, me_smaps = (\<lambda>_. 0), me_filename = []\<rparr>)))"

definition append_opt :: "'a list \<Rightarrow> 'a option \<Rightarrow> 'a list" where
  "append_opt xs x = (case x of None \<Rightarrow> xs | Some y \<Rightarrow> xs @ [y])"

definition walk_step ::
  "(guint64 \<Rightarrow> vm_entry option) \<Rightarrow> (vm_entry \<Rightarrow> glibtop_map_entry option) \<Rightarrow> bool \<Rightarrow> vm_entry
     \<Rightarrow> glibtop_map_entry list \<Rightarrow> vm_entry \<times> glibtop_map_entry list" where
  \<comment> \<open>one pass through the body: a read that fails is a \<open>continue\<close> with the entry as it was\<close>
  "walk_step rd conv update entry maps =
     (if update then
        (case rd (ve_next entry) of
           None \<Rightarrow> (entry, maps)
         | Some entry \<Rightarrow> (entry, append_opt maps (conv entry)))
      else (entry, append_opt maps (conv entry)))"

partial_function (option) map_walk ::
  "(guint64 \<Rightarrow> vm_entry option) \<Rightarrow> (vm_entry \<Rightarrow> glibtop_map_entry option) \<Rightarrow> guint64 \<Rightarrow> bool \<Rightarrow> vm_entry
     \<Rightarrow> glibtop_map_entry list \<Rightarrow> glibtop_map_entry list option" where
  "map_walk rd conv first update entry maps =
     (let s = walk_step rd conv update entry maps
      in if ve_next (fst s) \<noteq> first then map_walk rd conv first True (fst s) (snd s) else Some (snd s))"

text \<open>\<open>None\<close>: the function does not return.\<close>

definition glibtop_get_proc_map_p ::
  "fbsd \<Rightarrow> kvm \<Rightarrow> kmem \<Rightarrow> glibtop_machine \<Rightarrow> cred \<Rightarrow> gint32
     \<Rightarrow> ((glibtop_proc_map \<times> glibtop_map_entry list option) \<times> cred) res option" where
  "glibtop_get_proc_map_p K V M m c pid =
     (let zero = \<lparr>pm_flags = 0, pm_number = 0, pm_total = 0, pm_size = 0\<rparr>;
          nothing = (\<lambda>c. bind_res (glibtop_suid_leave_fb m c) (\<lambda>c. Inr ((zero, None), c)))
      in if pid = 0 then Some (Inr ((zero, None), c))
         else let c = glibtop_suid_enter_fb m c in
           case first_proc (kv_getprocs V c pid) of
             None \<Rightarrow> Some (nothing c)
           | Some p \<Rightarrow>
               (case km_first M c (ki_vmspace p) of
                  None \<Rightarrow> Some (nothing c)
                | Some first \<Rightarrow>
                    (case km_entry M c first of
                       None \<Rightarrow> Some (nothing c)
                     | Some entry \<Rightarrow>
                         map_option (\<lambda>maps.
                           bind_res (glibtop_suid_leave_fb m c) (\<lambda>c.
                             Inr ((\<lparr>pm_flags = sysdeps_proc_map, pm_number = of_nat (length maps),
                                    pm_total = of_nat (length maps) * 336, pm_size = 336\<rparr>, Some maps), c)))
                           (map_walk (km_entry M c) (map_entry_fb (fb_version K) M c) first False entry []))))"

section \<open>When the walk ends, and what it finds\<close>

text \<open>\<open>es\<close> are the entries on the way from the address \<open>a\<close> to the address \<open>b\<close>.\<close>

fun vm_path :: "(guint64 \<Rightarrow> vm_entry option) \<Rightarrow> guint64 \<Rightarrow> vm_entry list \<Rightarrow> guint64 \<Rightarrow> bool" where
  "vm_path rd a [] b \<longleftrightarrow> a = b"
| "vm_path rd a (e # es) b \<longleftrightarrow> rd a = Some e \<and> vm_path rd (ve_next e) es b"

definition vm_cycle :: "(guint64 \<Rightarrow> vm_entry option) \<Rightarrow> guint64 \<Rightarrow> vm_entry list \<Rightarrow> bool" where
  \<comment> \<open>once around, back to \<open>first\<close> for the first time\<close>
  "vm_cycle rd first es \<longleftrightarrow> es \<noteq> [] \<and> vm_path rd first es first \<and> first \<notin> ve_next ` set (butlast es)"

lemma walk_more:
  assumes "vm_path rd (ve_next e) es first" and "es \<noteq> []" and "first \<notin> ve_next ` set (butlast es)"
  shows "map_walk rd conv first True e maps = Some (maps @ List.map_filter conv es)"
  using assms
proof (induction es arbitrary: e maps)
  case (Cons e' es)
  have s: "walk_step rd conv True e maps = (e', append_opt maps (conv e'))"
    using Cons.prems by (simp add: walk_step_def)
  show ?case
  proof (cases "es = []")
    case True
    with Cons.prems s show ?thesis
      by (subst map_walk.simps) (simp add: append_opt_def map_filter_simps split: option.split)
  next
    case False
    then have "ve_next e' \<noteq> first" "first \<notin> ve_next ` set (butlast es)" using Cons.prems by auto
    with Cons.IH [of e' "append_opt maps (conv e')"] Cons.prems False s show ?thesis
      by (subst map_walk.simps) (simp add: append_opt_def map_filter_simps split: option.split)
  qed
qed simp

lemma walk_cycle:
  assumes "vm_cycle rd first es" and "rd first = Some e"
  shows "map_walk rd conv first False e [] = Some (List.map_filter conv es)"
proof -
  obtain es' where es: "es = e # es'" "vm_path rd (ve_next e) es' first"
    using assms by (cases es) (auto simp: vm_cycle_def)
  have s: "walk_step rd conv False e [] = (e, append_opt [] (conv e))" by (simp add: walk_step_def)
  show ?thesis
  proof (cases "es' = []")
    case True
    with es s show ?thesis
      by (subst map_walk.simps) (simp add: append_opt_def map_filter_simps split: option.split)
  next
    case False
    then have n: "ve_next e \<noteq> first" "first \<notin> ve_next ` set (butlast es')"
      using assms(1) by (auto simp: vm_cycle_def es(1))
    with walk_more [OF es(2) False n(2)] s show ?thesis
      by (subst map_walk.simps) (simp add: es(1) append_opt_def map_filter_simps split: option.split)
  qed
qed

lemma walk_ends_path:
  assumes "map_walk rd conv first update e maps = Some r"
  shows "ve_next e = first \<or> (\<exists>es. es \<noteq> [] \<and> vm_path rd (ve_next e) es first)"
proof (rule map_walk.raw_induct [where P = "\<lambda>rd conv first update e maps r.
      ve_next e = first \<or> (\<exists>es. es \<noteq> [] \<and> vm_path rd (ve_next e) es first)", OF _ assms])
  fix f rd conv first update e maps r
  assume ih: "\<And>rd conv first update e maps r. f rd conv first update e maps = Some r \<Longrightarrow>
      ve_next e = first \<or> (\<exists>es. es \<noteq> [] \<and> vm_path rd (ve_next e) es first)"
    and body: "(let s = walk_step rd conv update e maps
      in if ve_next (fst s) \<noteq> first then f rd conv first True (fst s) (snd s) else Some (snd s)) = Some r"
  define s where "s = walk_step rd conv update e maps"
  have r: "ve_next (fst s) \<noteq> first \<longrightarrow> f rd conv first True (fst s) (snd s) = Some r"
    using body by (auto simp: s_def Let_def split: if_splits)
  have nx: "ve_next (fst s) = first \<or> (\<exists>es. es \<noteq> [] \<and> vm_path rd (ve_next (fst s)) es first)"
  proof (cases "ve_next (fst s) = first")
    case False
    from ih [OF r [THEN mp, OF False]] show ?thesis .
  qed simp
  show "ve_next e = first \<or> (\<exists>es. es \<noteq> [] \<and> vm_path rd (ve_next e) es first)"
  proof (cases "update \<and> rd (ve_next e) \<noteq> None")
    case True
    then obtain e' where e': "rd (ve_next e) = Some e'" "fst s = e'" by (auto simp: s_def walk_step_def)
    with nx obtain es where "vm_path rd (ve_next e') es first" by (metis vm_path.simps(1))
    with e'(1) have "vm_path rd (ve_next e) (e' # es) first" by simp
    then show ?thesis by blast
  next
    case False
    then have "fst s = e" by (auto simp: s_def walk_step_def split: option.splits)
    with nx show ?thesis by simp
  qed
qed

lemma path_first_return:
  assumes "vm_path rd a es first" and "es \<noteq> []"
  shows "\<exists>es'. es' \<noteq> [] \<and> vm_path rd a es' first \<and> first \<notin> ve_next ` set (butlast es')"
  using assms
proof (induction es arbitrary: a)
  case (Cons e es)
  show ?case
  proof (cases "es = [] \<or> ve_next e = first")
    case True
    with Cons.prems have "vm_path rd a [e] first" by auto
    then show ?thesis by (intro exI [of _ "[e]"]) simp
  next
    case False
    with Cons obtain es' where "es' \<noteq> []" "vm_path rd (ve_next e) es' first" "first \<notin> ve_next ` set (butlast es')"
      by auto
    with Cons.prems False show ?thesis by (intro exI [of _ "e # es'"]) auto
  qed
qed simp

lemma walk_ends_iff:
  assumes "rd first = Some e"
  shows "(\<exists>r. map_walk rd conv first False e [] = Some r) \<longleftrightarrow> (\<exists>es. vm_cycle rd first es)"
proof
  assume "\<exists>r. map_walk rd conv first False e [] = Some r"
  then obtain r where "map_walk rd conv first False e [] = Some r" by blast
  from walk_ends_path [OF this] obtain es where "vm_path rd (ve_next e) es first" by (metis vm_path.simps(1))
  with assms have "vm_path rd first (e # es) first" by simp
  from path_first_return [OF this] show "\<exists>es. vm_cycle rd first es" by (auto simp: vm_cycle_def)
next
  assume "\<exists>es. vm_cycle rd first es"
  then show "\<exists>r. map_walk rd conv first False e [] = Some r" using walk_cycle assms by blast
qed

text \<open>
  C32. The memory map on FreeBSD, for a process whose first map entry can be read: the function returns
  exactly when following the pointers leads back to the first entry; a pointer to memory that cannot be
  read, or into a cycle without the first entry, keeps it in its loop forever (the \<open>continue\<close> behind a failed
  read tries the same address again). Where it returns, the array holds the entries that are mapped
  files, each once and in the order of the list, and the rights are those from before.
\<close>

theorem proc_map_fb_spec:
  assumes m: "lowered m c" and pid: "pid \<noteq> 0"
    and p: "first_proc (kv_getprocs V (raised m c) pid) = Some p"
      "km_first M (raised m c) (ki_vmspace p) = Some first" "km_entry M (raised m c) first = Some entry"
  shows "(glibtop_get_proc_map_p K V M m c pid \<noteq> None \<longleftrightarrow> (\<exists>es. vm_cycle (km_entry M (raised m c)) first es))
    \<and> (\<forall>es. vm_cycle (km_entry M (raised m c)) first es \<longrightarrow>
         (let maps = List.map_filter (map_entry_fb (fb_version K) M (raised m c)) es in
          glibtop_get_proc_map_p K V M m c pid
            = Some (Inr ((\<lparr>pm_flags = sysdeps_proc_map, pm_number = of_nat (length maps),
                pm_total = of_nat (length maps * 336), pm_size = 336\<rparr>, Some maps), c))))"
proof -
  let ?walk = "map_walk (km_entry M (raised m c)) (map_entry_fb (fb_version K) M (raised m c)) first False entry []"
  have g: "glibtop_get_proc_map_p K V M m c pid
      = map_option (\<lambda>maps. Inr ((\<lparr>pm_flags = sysdeps_proc_map, pm_number = of_nat (length maps),
                pm_total = of_nat (length maps * 336), pm_size = 336\<rparr>, Some maps), c)) ?walk"
    using pid by (simp add: glibtop_get_proc_map_p_def enter_leave [OF m] p Let_def)
  show ?thesis
    using walk_ends_iff [where rd = "km_entry M (raised m c)" and first = first, OF p(3)]
      walk_cycle [where rd = "km_entry M (raised m c)" and first = first, OF _ p(3)]
    by (auto simp: g Let_def)
qed

definition demo_kmem :: kmem where
  \<comment> \<open>a mapped file at 16, an anonymous entry at 32 that leads back; at 48 an entry that leads to nowhere\<close>
  "demo_kmem = \<lparr>km_first = (\<lambda>c a. if a = 0x1000 then Some 16 else if a = 0x2000 then Some 48 else None),
     km_entry = (\<lambda>c a.
       if a = 16 then Some \<lparr>ve_next = 32, ve_sub_map = False, ve_object = 64, ve_start = 0x400000, ve_end = 0x401000,
         ve_offset = 0, ve_protection = 5\<rparr>
       else if a = 32 then Some \<lparr>ve_next = 16, ve_sub_map = False, ve_object = 0, ve_start = 0x800000, ve_end = 0x801000,
         ve_offset = 0, ve_protection = 3\<rparr>
       else if a = 48 then Some \<lparr>ve_next = 8, ve_sub_map = False, ve_object = 0, ve_start = 0, ve_end = 0,
         ve_offset = 0, ve_protection = 0\<rparr>
       else None),
     km_object = (\<lambda>c a. if a = 64 then Some \<lparr>vo_vnode = True, vo_handle = 80\<rparr> else None),
     km_vnode = (\<lambda>c a. if a = 80 then Some \<lparr>vn_none = False, vn_data = 96, vn_cachedid = 0, vn_cachedfs = 0\<rparr> else None),
     km_tagptr = (\<lambda>c a. Some 112), km_tagstr = (\<lambda>c a. Some (''ufs'' @ replicate 9 NUL)),
     km_inode = (\<lambda>c a. Some \<lparr>in_number = 1234, in_ump = 128, in_dev = 0, zn_zfsvfs = 0, zn_id = 0\<rparr>),
     km_zfs_root = (\<lambda>c a. None), km_um_dev = (\<lambda>c a. Some 144), km_si_priv = (\<lambda>c a. None), km_cdev2priv = (\<lambda>a. a),
     km_cdp_inode = (\<lambda>c a. if a = 144 then Some 99 else None)\<rparr>"

definition demo_machine_fb :: glibtop_machine where
  "demo_machine_fb = \<lparr>m_uid = 1000, m_euid = 1000, m_gid = 100, m_egid = 2\<rparr>"

definition demo_lowered :: cred where
  "demo_lowered = \<lparr>ruid = 1000, euid = 1000, suid = 1000, rgid = 2, egid = 100, sgid = 100\<rparr>"

theorem proc_map_fb_spec_witness:
  "(\<exists>b e. glibtop_get_proc_map_p demo_fbsd demo_kvm demo_kmem demo_machine_fb demo_lowered 7
       = Some (Inr ((b, Some [e]), demo_lowered)) \<and> me_inode e = 1234 \<and> me_device e = 99 \<and> me_perm e = 5)
   \<and> glibtop_get_proc_map_p demo_fbsd (demo_kvm\<lparr>kv_getprocs := (\<lambda>c pid. Some [demo_proc\<lparr>ki_vmspace := 0x2000\<rparr>])\<rparr>)
       demo_kmem demo_machine_fb demo_lowered 7 = None"
proof -
  have m: "lowered demo_machine_fb demo_lowered" by (simp add: lowered_def demo_machine_fb_def demo_lowered_def)
  let ?r = "raised demo_machine_fb demo_lowered"
  let ?rd = "km_entry demo_kmem ?r"
  let ?V = "demo_kvm\<lparr>kv_getprocs := (\<lambda>c pid. Some [demo_proc\<lparr>ki_vmspace := 0x2000\<rparr>])\<rparr>"
  obtain e1 e2 e3 where e: "?rd 16 = Some e1" "?rd 32 = Some e2" "?rd 48 = Some e3" "ve_next e1 = 32" "ve_next e2 = 16"
    "ve_next e3 = 8" "?rd 8 = None"
    by (simp add: demo_kmem_def)
  have c: "vm_cycle ?rd 16 [e1, e2]" using e by (simp add: vm_cycle_def)
  have p: "first_proc (kv_getprocs demo_kvm ?r 7) = Some demo_proc" "km_first demo_kmem ?r (ki_vmspace demo_proc) = Some 16"
    "first_proc (kv_getprocs ?V ?r 7) = Some (demo_proc\<lparr>ki_vmspace := 0x2000\<rparr>)"
    "km_first demo_kmem ?r (ki_vmspace (demo_proc\<lparr>ki_vmspace := 0x2000\<rparr>)) = Some 48"
    by (simp_all add: demo_kvm_def demo_proc_def demo_kmem_def first_proc_def)
  have n: "\<not> vm_cycle ?rd 48 es" for es
  proof
    assume c: "vm_cycle ?rd 48 es"
    then obtain es' where es: "es = e3 # es'" "vm_path ?rd 8 es' 48"
      using e(3,6) by (cases es) (auto simp: vm_cycle_def)
    then show False using e(7) by (cases es') auto
  qed
  let ?maps = "List.map_filter (map_entry_fb (fb_version demo_fbsd) demo_kmem ?r) [e1, e2]"
  have perm: "map_perm_fb 5 = 5" by code_simp
  have tag: "c_str (''ufs'' @ replicate 8 NUL) = ''ufs''" by (simp add: c_str_def)
  have e': "map_entry_fb 1200000 demo_kmem ?r e1 = Some \<lparr>me_flags = sysdeps_map_entry_fb, me_start = 0x400000, me_end = 0x401000,
      me_offset = 0, me_perm = 5, me_inode = 1234, me_device = 99, me_smaps = (\<lambda>_. 0), me_filename = []\<rparr>"
    "map_entry_fb 1200000 demo_kmem ?r e2 = None"
    using e(1,2) perm tag by (auto simp: map_entry_fb_def demo_kmem_def freebsd_dev_inode_def ufs_dev_def opt0_def Let_def)
  have v: "fb_version demo_fbsd = 1200000" by (simp add: demo_fbsd_def)
  from proc_map_fb_spec [OF m _ p(1,2) e(1), of demo_fbsd] c
  have "glibtop_get_proc_map_p demo_fbsd demo_kvm demo_kmem demo_machine_fb demo_lowered 7
      = Some (Inr ((\<lparr>pm_flags = sysdeps_proc_map, pm_number = of_nat (length ?maps),
                pm_total = of_nat (length ?maps * 336), pm_size = 336\<rparr>, Some ?maps), demo_lowered))"
    by (simp add: Let_def)
  moreover from proc_map_fb_spec [OF m _ p(3,4) e(3), of demo_fbsd] n
  have "glibtop_get_proc_map_p demo_fbsd ?V demo_kmem demo_machine_fb demo_lowered 7 = None" by simp
  ultimately show ?thesis using e' by (simp add: v map_filter_simps)
qed

end
