(* ===== verification/FbMount.thy ===== *)
theory FbMount
  imports FreeBsd FileSystems
begin

unbundle bit_operations_syntax

text \<open>
  \<open>mountlist.c\<close> and \<open>fsusage.c\<close> under \<open>sysdeps/freebsd\<close>. The table of \<open>getmntinfo\<close> and the results
  of \<open>statvfs\<close> and \<open>statfs\<close> are parameters. The types of file systems that are left out stand in a
  table that the code searches with \<open>bsearch\<close>; the loop of FreeBSD's \<open>bsearch\<close> is modelled, because the
  table is not in order, so that the result depends on it.
\<close>

section \<open>strcmp and bsearch\<close>

fun strcmp :: "string \<Rightarrow> string \<Rightarrow> int" where
  "strcmp [] [] = 0"
| "strcmp [] (d # t) = - int (of_char d)"
| "strcmp (c # s) [] = int (of_char c)"
| "strcmp (c # s) (d # t) = (if c = d then strcmp s t else int (of_char c) - int (of_char d))"

lemma of_char_eq_iff: "int (of_char c) = int (of_char d) \<longleftrightarrow> c = d"
  by (metis char_of_char of_nat_eq_iff)

lemma strcmp_0: "NUL \<notin> set s \<Longrightarrow> NUL \<notin> set t \<Longrightarrow> strcmp s t = 0 \<longleftrightarrow> s = t"
proof (induction s t rule: strcmp.induct)
  case (2 d t)
  then show ?case using of_char_eq_iff [of d NUL] by auto
next
  case (3 c s)
  then show ?case using of_char_eq_iff [of c NUL] by auto
next
  case (4 c s d t)
  then show ?case using of_char_eq_iff [of c d] by auto
qed simp

text \<open>\<open>cmp\<close> compares the key with an element of the table.\<close>

function bsearch :: "('a \<Rightarrow> int) \<Rightarrow> 'a list \<Rightarrow> nat \<Rightarrow> nat \<Rightarrow> nat option" where
  "bsearch cmp tab base lim =
     (if lim = 0 then None
      else let p = base + lim div 2 in
        if cmp (tab ! p) = 0 then Some p
        else if 0 < cmp (tab ! p) then bsearch cmp tab (p + 1) ((lim - 1) div 2)
        else bsearch cmp tab base (lim div 2))"
  by pat_completeness auto
termination
  by (relation "measure (\<lambda>(cmp, tab, base, lim). lim)") auto

declare bsearch.simps [simp del]

lemma bsearch_Some: "bsearch cmp tab base lim = Some p \<Longrightarrow> base \<le> p \<and> p < base + lim \<and> cmp (tab ! p) = 0"
proof (induction cmp tab base lim rule: bsearch.induct)
  case (1 cmp tab base lim)
  define m where "m = base + lim div 2"
  have lim: "lim \<noteq> 0" using "1.prems" by (cases "lim = 0") (simp_all add: bsearch.simps)
  then have at: "(if cmp (tab ! m) = 0 then Some m else if 0 < cmp (tab ! m) then bsearch cmp tab (m + 1) ((lim - 1) div 2)
      else bsearch cmp tab base (lim div 2)) = Some p"
    using "1.prems" by (simp only: bsearch.simps [of cmp tab base lim] Let_def m_def if_False)
  note up = "1.IH"(1) [OF lim m_def] and down = "1.IH"(2) [OF lim m_def]
  show ?case using at up down lim by (auto simp: m_def split: if_splits)
qed

text \<open>Where the table is in order it finds every element.\<close>

lemma bsearch_sorted:
  assumes "\<forall>i j. base \<le> i \<and> i < j \<and> j < base + lim \<longrightarrow> (0 \<le> cmp (tab ! j) \<longrightarrow> 0 < cmp (tab ! i))"
    and "base \<le> k" "k < base + lim" "cmp (tab ! k) = 0"
  shows "bsearch cmp tab base lim = Some k"
  using assms
proof (induction cmp tab base lim rule: bsearch.induct)
  case (1 cmp tab base lim)
  define p where "p = base + lim div 2"
  have p: "p < base + lim" using "1.prems"(2,3) by (auto simp: p_def)
  have o: "0 \<le> cmp (tab ! j) \<Longrightarrow> 0 < cmp (tab ! i)" if "base \<le> i" "i < j" "j < base + lim" for i j
    using "1.prems"(1) that by blast
  have at: "bsearch cmp tab base lim = (if cmp (tab ! p) = 0 then Some p
      else if 0 < cmp (tab ! p) then bsearch cmp tab (p + 1) ((lim - 1) div 2) else bsearch cmp tab base (lim div 2))"
    using "1.prems"(2,3) by (subst bsearch.simps) (simp add: Let_def p_def)
  have lim: "lim \<noteq> 0" using "1.prems"(2,3) by auto
  consider "k = p" | "p < k" | "k < p" by linarith
  then show ?case
  proof cases
    case 1
    then show ?thesis using at "1.prems"(4) by simp
  next
    case 2
    have c: "0 < cmp (tab ! p)" using o [of p k] 2 "1.prems"(3,4) by (simp add: p_def)
    have "bsearch cmp tab (p + 1) ((lim - 1) div 2) = Some k"
      by (rule "1.IH"(1) [OF lim p_def _ _ _ _ _ "1.prems"(4)]) (use c 2 "1.prems"(3) o in \<open>auto simp: p_def\<close>)
    then show ?thesis using at c by simp
  next
    case 3
    have "cmp (tab ! p) < 0" using o [OF "1.prems"(2) 3 p] "1.prems"(4) by linarith
    moreover have "bsearch cmp tab base (lim div 2) = Some k" if "\<not> 0 < cmp (tab ! p)" "cmp (tab ! p) \<noteq> 0"
      by (rule "1.IH"(2) [OF lim p_def that(2,1) _ _ _ "1.prems"(4)]) (use 3 "1.prems"(2) o in \<open>auto simp: p_def\<close>)
    ultimately show ?thesis using at by simp
  qed
qed

section \<open>mountlist.c\<close>

record statfs =
  f_mntfromname :: string
  f_mntonname :: string
  f_fstypename :: string
  f_syncreads :: guint64
  f_asyncreads :: guint64
  f_syncwrites :: guint64
  f_asyncwrites :: guint64

record mount_entry_fb =
  me_devname :: string
  me_mountdir :: string
  me_type :: string
  me_dev :: guint64

definition read_filesystem_list :: "statfs list option \<Rightarrow> mount_entry_fb list" where
  \<comment> \<open>NULL is the empty list; \<open>None\<close>: \<open>getmntinfo\<close> returns a negative number\<close>
  "read_filesystem_list mnts =
     (case mnts of None \<Rightarrow> []
      | Some fs \<Rightarrow> map (\<lambda>fsp. \<lparr>me_devname = f_mntfromname fsp, me_mountdir = f_mntonname fsp,
                        me_type = f_fstypename fsp, me_dev = - 1\<rparr>) fs)"

definition ignored_types :: "string list" where
  "ignored_types = [''autofs'', ''devfs'', ''fdescfs'', ''fusectl'', ''linprocfs'', ''linsysfs'', ''mfs'', ''none'', ''nfs'',
     ''nullfs'', ''nwfs'', ''portalfs'', ''proc'', ''procfs'', ''smbfs'', ''tmpfs'', ''unionfs'', ''unknown'']"

definition ignore_mount_entry :: "mount_entry_fb \<Rightarrow> bool" where
  "ignore_mount_entry me \<longleftrightarrow> bsearch (strcmp (me_type me)) ignored_types 0 (length ignored_types) \<noteq> None"

text \<open>The function is the same on OpenBSD, with another table.\<close>

definition mountlist_bsd ::
  "(mount_entry_fb \<Rightarrow> bool) \<Rightarrow> statfs list option \<Rightarrow> gint32 \<Rightarrow> glibtop_mountlist \<times> glibtop_mountentry list option" where
  "mountlist_bsd ignored mnts all_fs =
     (case read_filesystem_list mnts of
        [] \<Rightarrow> (\<lparr>ml_flags = 0, ml_number = 0, ml_total = 0, ml_size = 0\<rparr>, None)
      | cur # rest \<Rightarrow>
          (let mount_array = map (\<lambda>me. \<lparr>mo_dev = me_dev me, mo_devname = g_strlcpy (me_devname me) 80,
                 mo_mountdir = g_strlcpy (me_mountdir me) 80, mo_type = g_strlcpy (me_type me) 80\<rparr>)
               (filter (\<lambda>me. all_fs \<noteq> 0 \<or> \<not> ignored me) (cur # rest))
           in (\<lparr>ml_flags = flag 2 OR flag 0 OR flag 1, ml_number = of_nat (length mount_array),
                ml_total = of_nat (length mount_array) * 248, ml_size = 248\<rparr>, Some mount_array)))"

definition glibtop_get_mountlist_s_fb ::
  "statfs list option \<Rightarrow> gint32 \<Rightarrow> glibtop_mountlist \<times> glibtop_mountentry list option" where
  "glibtop_get_mountlist_s_fb = mountlist_bsd ignore_mount_entry"

section \<open>fsusage.c\<close>

text \<open>\<open>f_bsize\<close> of the record stands for the member \<open>f_frsize\<close> that the code reads here.\<close>

definition get_fsusage_read_write_fb :: "(string \<Rightarrow> statfs option) \<Rightarrow> string \<Rightarrow> glibtop_fsusage \<Rightarrow> glibtop_fsusage" where
  "get_fsusage_read_write_fb statfs path buf =
     (case statfs path of
        None \<Rightarrow> buf
      | Some sfs \<Rightarrow>
          (let buf = buf\<lparr>fu_read := f_syncreads sfs + f_asyncreads sfs, fu_write := f_syncwrites sfs + f_asyncwrites sfs\<rparr>
           in if fu_read buf \<noteq> 0 \<or> fu_write buf \<noteq> 0 then buf\<lparr>fu_flags := fu_flags buf OR (flag 6 OR flag 7)\<rparr> else buf))"

definition glibtop_get_fsusage_s_fb ::
  "(string \<Rightarrow> statvfs option) \<Rightarrow> (string \<Rightarrow> statfs option) \<Rightarrow> string \<Rightarrow> glibtop_fsusage" where
  "glibtop_get_fsusage_s_fb statvfs statfs path =
     (case statvfs path of
        None \<Rightarrow> fsusage_zero
      | Some fsd \<Rightarrow>
          get_fsusage_read_write_fb statfs path
            (fsusage_zero\<lparr>fu_block_size := ucast (f_bsize fsd), fu_blocks := f_blocks fsd, fu_bfree := f_bfree fsd,
               fu_bavail := (if f_bfree fsd < f_bavail fsd then 0 else f_bavail fsd),
               fu_files := f_files fsd, fu_ffree := f_ffree fsd, fu_flags := sysdeps_fsusage\<rparr>))"

section \<open>What the search finds\<close>

lemma bsearch_strcmp:
  assumes "NUL \<notin> set t" and "\<forall>s\<in>set tab. NUL \<notin> set s"
    and "list_all (\<lambda>t. bsearch (strcmp t) tab 0 (length tab) \<noteq> None \<longleftrightarrow> P t) tab"
  shows "bsearch (strcmp t) tab 0 (length tab) \<noteq> None \<longleftrightarrow> t \<in> set tab \<and> P t"
proof (cases "t \<in> set tab")
  case True
  then show ?thesis using assms(3) by (simp add: list_all_iff)
next
  case False
  have "bsearch (strcmp t) tab 0 (length tab) \<noteq> Some p" for p
  proof
    assume "bsearch (strcmp t) tab 0 (length tab) = Some p"
    from bsearch_Some [OF this] have "strcmp t (tab ! p) = 0" "tab ! p \<in> set tab" by simp_all
    then show False using strcmp_0 [OF assms(1)] assms(2) False by metis
  qed
  then show ?thesis using False by auto
qed

lemma ignored_searched:
  "list_all (\<lambda>t. bsearch (strcmp t) ignored_types 0 (length ignored_types) \<noteq> None \<longleftrightarrow> t \<noteq> ''nfs'') ignored_types"
  by code_simp

lemma ignore_mount_entry_iff:
  assumes "NUL \<notin> set (me_type me)"
  shows "ignore_mount_entry me \<longleftrightarrow> me_type me \<in> set ignored_types \<and> me_type me \<noteq> ''nfs''"
  unfolding ignore_mount_entry_def
  by (rule bsearch_strcmp [OF assms _ ignored_searched]) (simp add: ignored_types_def)

definition listed_entry :: "statfs \<Rightarrow> glibtop_mountentry" where
  "listed_entry m = \<lparr>mo_dev = - 1, mo_devname = take 79 (f_mntfromname m), mo_mountdir = take 79 (f_mntonname m),
     mo_type = take 79 (f_fstypename m)\<rparr>"

definition listed_entry_fb :: "statfs \<Rightarrow> mount_entry_fb" where
  "listed_entry_fb m = \<lparr>me_devname = f_mntfromname m, me_mountdir = f_mntonname m, me_type = f_fstypename m, me_dev = - 1\<rparr>"

definition mountlist_result :: "statfs list \<Rightarrow> glibtop_mountentry list \<Rightarrow> glibtop_mountlist \<times> glibtop_mountentry list option" where
  "mountlist_result fs entries =
     (if fs = [] then (\<lparr>ml_flags = 0, ml_number = 0, ml_total = 0, ml_size = 0\<rparr>, None)
      else (\<lparr>ml_flags = 7, ml_number = of_nat (length entries), ml_total = of_nat (248 * length entries), ml_size = 248\<rparr>,
            Some entries))"

lemma mountlist_bsd_list:
  assumes "\<forall>m\<in>set fs. ignored (listed_entry_fb m) \<longleftrightarrow> P m"
  shows "mountlist_bsd ignored (Some fs) all_fs
      = mountlist_result fs (map listed_entry (filter (\<lambda>m. all_fs \<noteq> 0 \<or> \<not> P m) fs))"
proof (cases fs)
  case (Cons m ms)
  define conv :: "mount_entry_fb \<Rightarrow> glibtop_mountentry" where "conv = (\<lambda>me. \<lparr>mo_dev = me_dev me,
    mo_devname = g_strlcpy (me_devname me) 80, mo_mountdir = g_strlcpy (me_mountdir me) 80, mo_type = g_strlcpy (me_type me) 80\<rparr>)"
  have rd: "read_filesystem_list (Some fs) = listed_entry_fb m # map listed_entry_fb ms"
    by (simp add: read_filesystem_list_def listed_entry_fb_def Cons)
  have conv: "conv \<circ> listed_entry_fb = listed_entry" by (auto simp: conv_def listed_entry_fb_def listed_entry_def g_strlcpy_def)
  have "filter (\<lambda>me. all_fs \<noteq> 0 \<or> \<not> ignored me) (map listed_entry_fb fs)
      = map listed_entry_fb (filter (\<lambda>m. all_fs \<noteq> 0 \<or> \<not> P m) fs)"
    unfolding filter_map
    by (intro arg_cong [where f = "map listed_entry_fb"] filter_cong refl) (use assms in auto)
  then have "map conv (filter (\<lambda>me. all_fs \<noteq> 0 \<or> \<not> ignored me) (listed_entry_fb m # map listed_entry_fb ms))
      = map listed_entry (filter (\<lambda>m. all_fs \<noteq> 0 \<or> \<not> P m) fs)"
    by (simp only: Cons list.map map_map [symmetric] conv [symmetric])
  then show ?thesis
    unfolding mountlist_bsd_def rd list.case Let_def conv_def [symmetric]
    by (simp add: Cons mountlist_result_def mult.commute)
qed (simp add: mountlist_bsd_def read_filesystem_list_def mountlist_result_def)

text \<open>
  The list of mounted file systems on FreeBSD: with \<open>all_fs\<close> every one, otherwise those whose type is
  not in the table \<open>ignored\<close>, in the order of the kernel, each with its first 79 characters; number, size
  and total describe the block. The exception is \<open>nfs\<close>: it stands behind \<open>none\<close> in the table, where the
  binary search never finds it, so that its file systems are listed. With no file system at all, or when
  the kernel does not answer, the result is NULL and every member is zero.
\<close>

theorem mountlist_fb_spec:
  assumes "\<forall>m\<in>set fs. NUL \<notin> set (f_fstypename m)"
    and "entries = map listed_entry (filter (\<lambda>m. all_fs \<noteq> 0 \<or> f_fstypename m \<notin> set ignored_types - {''nfs''}) fs)"
  shows "glibtop_get_mountlist_s_fb (Some fs) all_fs = mountlist_result fs entries
    \<and> glibtop_get_mountlist_s_fb None all_fs = (\<lparr>ml_flags = 0, ml_number = 0, ml_total = 0, ml_size = 0\<rparr>, None)"
proof -
  have "\<forall>m\<in>set fs. ignore_mount_entry (listed_entry_fb m) \<longleftrightarrow> f_fstypename m \<in> set ignored_types - {''nfs''}"
    using assms(1) by (simp add: ignore_mount_entry_iff listed_entry_fb_def)
  from mountlist_bsd_list [OF this, of all_fs] show ?thesis
    by (simp add: glibtop_get_mountlist_s_fb_def assms(2) mountlist_bsd_def read_filesystem_list_def)
qed

definition demo_statfs :: "statfs list" where
  "demo_statfs = map (\<lambda>(d, m, t). \<lparr>f_mntfromname = d, f_mntonname = m, f_fstypename = t, f_syncreads = 0, f_asyncreads = 0,
     f_syncwrites = 0, f_asyncwrites = 0\<rparr>)
     [(''/dev/ada0p2'', ''/'', ''ufs''), (''devfs'', ''/dev'', ''devfs''), (''srv:/home'', ''/home'', ''nfs'')]"

theorem mountlist_fb_spec_witness:
  "\<exists>buf es. glibtop_get_mountlist_s_fb (Some demo_statfs) 0 = (buf, Some es) \<and> map mo_mountdir es = [''/'', ''/home'']"
proof -
  have "\<forall>m\<in>set demo_statfs. NUL \<notin> set (f_fstypename m)" by (simp add: demo_statfs_def)
  from mountlist_fb_spec [OF this refl, of 0] show ?thesis
    by (simp add: mountlist_result_def demo_statfs_def listed_entry_def ignored_types_def)
qed

end
