(* ===== verification/FbFiles.thy ===== *)
theory FbFiles
  imports FreeBsd
begin

unbundle bit_operations_syntax

text \<open>
  \<open>procopenfiles.c\<close>, \<open>procwd.c\<close> and \<open>glibtop_private.c\<close> under \<open>sysdeps/freebsd\<close>: the open files and
  the directories of a process. Depending on the version they come from the kernel
  (\<open>kinfo_getfile\<close>, or the sysctl behind it) or from the output of \<open>lsof -n -P -Fftn -p pid\<close>.
\<close>

section \<open>Where the data come from\<close>

record sockaddr =
  sa_family :: nat
  sa_path :: string        \<comment> \<open>\<open>sun_path\<close>\<close>
  sa_in :: string          \<comment> \<open>the four bytes of \<open>sin_addr\<close>\<close>
  sa_in6 :: string         \<comment> \<open>the sixteen bytes of \<open>sin6_addr\<close>\<close>
  sa_port :: nat           \<comment> \<open>the port in the order of the host\<close>

record kinfo_file =
  kf_sized :: bool         \<comment> \<open>\<open>kf_structsize == sizeof(*kif)\<close>\<close>
  kf_fd :: gint32
  kf_type :: nat
  kf_path :: string
  kf_sock_domain :: nat
  kf_sa_local :: sockaddr
  kf_sa_peer :: sockaddr

record file_env =
  fv_version :: nat                                   \<comment> \<open>\<open>__FreeBSD_version\<close>\<close>
  fv_have_getfile :: bool                             \<comment> \<open>\<open>HAVE_KINFO_GETFILE\<close>\<close>
  fv_getfile :: "gint32 \<Rightarrow> kinfo_file list"           \<comment> \<open>empty where it returns NULL\<close>
  fv_filedesc :: "gint32 \<Rightarrow> kinfo_file list option"   \<comment> \<open>\<open>KERN_PROC_FILEDESC\<close>\<close>
  fv_pathname :: "gint32 \<Rightarrow> string option"            \<comment> \<open>\<open>KERN_PROC_PATHNAME\<close>, without the NUL\<close>
  fv_find_program :: "string \<Rightarrow> string option"        \<comment> \<open>\<open>g_find_program_in_path\<close>\<close>
  fv_spawn :: "string \<Rightarrow> (string \<times> int) option"       \<comment> \<open>output and exit status\<close>
  fv_ntop6 :: "string \<Rightarrow> string option"               \<comment> \<open>\<open>inet_ntop (AF_INET6, ...)\<close>\<close>

definition uses_kinfo :: "file_env \<Rightarrow> bool" where
  "uses_kinfo E \<longleftrightarrow> 800018 < fv_version E \<or> (fv_version E < 800000 \<and> 700104 \<le> fv_version E)"

definition kinfo_files :: "file_env \<Rightarrow> gint32 \<Rightarrow> kinfo_file list option" where
  \<comment> \<open>the entries that the loop looks at; \<open>None\<close>: the function returns NULL\<close>
  "kinfo_files E pid =
     (if fv_have_getfile E then Some (fv_getfile E pid) else map_option (filter kf_sized) (fv_filedesc E pid))"

definition execute_lsof :: "file_env \<Rightarrow> gint32 \<Rightarrow> string option" where
  "execute_lsof E pid =
     (case fv_find_program E ''lsof'' of
        None \<Rightarrow> None
      | Some lsof \<Rightarrow>
          (case fv_spawn E (lsof @ '' -n -P -Fftn -p '' @ show_int (sint pid)) of
             None \<Rightarrow> None
           | Some (out, exit_status) \<Rightarrow> if exit_status \<noteq> 0 then None else Some out))"

definition safe_readlink_fb :: "(string \<Rightarrow> string option) \<Rightarrow> string \<Rightarrow> nat \<Rightarrow> string option" where
  "safe_readlink_fb readlink path bufsiz = map_option (\<lambda>tgt. c_str (take (bufsiz - 1) tgt)) (readlink path)"

fun split_str :: "string \<Rightarrow> string \<Rightarrow> string \<Rightarrow> string list" where
  \<comment> \<open>the second argument is what has been read of the current part, in reverse\<close>
  "split_str d acc [] = [rev acc]"
| "split_str d acc (c # s) =
     (if strncmp_eq (c # s) d then rev acc # split_str d [] (drop (length d - 1) s) else split_str d (c # acc) s)"

definition g_strsplit :: "string \<Rightarrow> string \<Rightarrow> string list" where
  \<comment> \<open>\<open>g_strsplit (s, d, 0)\<close>: the empty string gives no part at all\<close>
  "g_strsplit s d = (if s = [] then [] else split_str d [] s)"

section \<open>procopenfiles.c: the kernel's entries\<close>

abbreviation (input) "AF_LOCAL \<equiv> 1 :: nat"
abbreviation (input) "AF_INET \<equiv> 2 :: nat"
abbreviation (input) "AF_INET6 \<equiv> 28 :: nat"
abbreviation (input) "KF_TYPE_VNODE \<equiv> 1 :: nat"
abbreviation (input) "KF_TYPE_SOCKET \<equiv> 2 :: nat"
abbreviation (input) "KF_TYPE_PIPE \<equiv> 3 :: nat"

definition addr_to_string :: "file_env \<Rightarrow> sockaddr \<Rightarrow> string option" where
  "addr_to_string E ss =
     (if sa_family ss = AF_LOCAL then Some (if sa_path ss = [] then ''-'' else sa_path ss)
      else if sa_family ss = AF_INET then Some (inet_ntop4 (sa_in ss))
      else if sa_family ss = AF_INET6 then
        Some (case fv_ntop6 E (sa_in6 ss) of None \<Rightarrow> ''-'' | Some s \<Rightarrow> s)
      else None)"

definition addr_to_port :: "sockaddr \<Rightarrow> gint32" where
  "addr_to_port ss = (if sa_family ss = AF_INET \<or> sa_family ss = AF_INET6 then of_nat (sa_port ss) else 0)"

definition strlcpy_addr :: "string option \<Rightarrow> nat \<Rightarrow> string" where
  \<comment> \<open>\<open>g_strlcpy\<close> refuses a NULL and leaves the zeros of the entry\<close>
  "strlcpy_addr s n = (case s of None \<Rightarrow> [] | Some s \<Rightarrow> g_strlcpy s n)"

definition kinfo_info :: "file_env \<Rightarrow> kinfo_file \<Rightarrow> (guint16 \<times> file_info) option" where
  \<comment> \<open>\<open>None\<close> is a \<open>continue\<close>\<close>
  "kinfo_info E kif =
     (if kf_type kif = KF_TYPE_SOCKET then
        (if kf_sock_domain kif = AF_LOCAL then
           Some (GLIBTOP_FILE_TYPE_LOCALSOCKET, LocalInfo (strlcpy_addr
             (addr_to_string E (if sa_path (kf_sa_local kif) \<noteq> [] then kf_sa_local kif else kf_sa_peer kif)) 216))
         else if kf_sock_domain kif = AF_INET \<or> kf_sock_domain kif = AF_INET6 then
           Some (if kf_sock_domain kif = AF_INET then GLIBTOP_FILE_TYPE_INETSOCKET else GLIBTOP_FILE_TYPE_INET6SOCKET,
                 SockInfo (strlcpy_addr (addr_to_string E (kf_sa_peer kif)) 47) (addr_to_port (kf_sa_peer kif)))
         else Some (0, NoInfo))
      else if kf_type kif = KF_TYPE_PIPE then Some (GLIBTOP_FILE_TYPE_PIPE, NoInfo)
      else if kf_type kif = KF_TYPE_VNODE then Some (GLIBTOP_FILE_TYPE_FILE, FileInfo (g_strlcpy (kf_path kif) 216))
      else None)"

fun kinfo_loop :: "file_env \<Rightarrow> kinfo_file list \<Rightarrow> glibtop_open_files_entry list" where
  "kinfo_loop E [] = []"
| "kinfo_loop E (kif # ks) =
     (if sint (kf_fd kif) < 0 then kinfo_loop E ks
      else case kinfo_info E kif of
        None \<Rightarrow> kinfo_loop E ks
      | Some (type, info) \<Rightarrow> \<lparr>fe_fd = kf_fd kif, fe_type = type, fe_info = info\<rparr> # kinfo_loop E ks)"

section \<open>procopenfiles.c: the output of lsof\<close>

definition file_type :: "string \<Rightarrow> bool" where
  "file_type ftype \<longleftrightarrow>
     ftype \<in> {''VREG'', ''GDIR'', ''GREG'', ''VCHR'', ''VBLK'', ''DIR'', ''LINK'', ''REG'', ''VDIR''}"

definition remote_host :: "string \<Rightarrow> string \<Rightarrow> string list option" where
  \<comment> \<open>\<open>d\<close> is what ends the host where there is an arrow; \<open>None\<close> is a \<open>continue\<close>\<close>
  "remote_host d fname =
     (let rh = (if strstr fname ''->'' = None then Some (g_strsplit fname '':'')
                else let hosts = g_strsplit fname ''->'' in
                  if length hosts < 2 then None else Some (g_strsplit (hosts ! 1) d))
      in case rh of None \<Rightarrow> None | Some rh \<Rightarrow> if length rh < 2 then None else Some rh)"

definition lsof_info :: "string \<Rightarrow> string \<Rightarrow> (guint16 \<times> file_info) option res" where
  "lsof_info ftype fname =
     (if ftype = ''unix'' then Inr (Some (GLIBTOP_FILE_TYPE_LOCALSOCKET, LocalInfo (g_strlcpy fname 216)))
      else if ftype = ''PIPE'' then Inr (Some (GLIBTOP_FILE_TYPE_PIPE, NoInfo))
      else if file_type ftype then Inr (Some (GLIBTOP_FILE_TYPE_FILE, FileInfo (g_strlcpy fname 216)))
      else if ftype = ''IPv4'' then
        (case remote_host '':'' fname of
           None \<Rightarrow> Inr None
         | Some rh \<Rightarrow>
             Inr (Some (GLIBTOP_FILE_TYPE_INETSOCKET,
               SockInfo (g_strlcpy (if rh ! 0 = ''*'' then ''0.0.0.0'' else rh ! 0) 47) (atoi (rh ! 1)))))
      else if ftype = ''IPv6'' then
        (case remote_host '']'' fname of
           None \<Rightarrow> Inr None
         | Some rh \<Rightarrow>
             (if rh ! 0 = [] then Inl (Crash ''remote_host[0] + 1 behind the string'')
              else if rh ! 1 = [] then Inl (Crash ''remote_host[1] + 1 behind the string'')
              else Inr (Some (GLIBTOP_FILE_TYPE_INET6SOCKET,
                SockInfo (g_strlcpy (if rh ! 0 = ''*'' then ''0.0.0.0'' else drop 1 (rh ! 0)) 47) (atoi (drop 1 (rh ! 1)))))))
      else Inr None)"

fun lsof_lines ::
  "string list \<Rightarrow> gint32 \<Rightarrow> string option \<Rightarrow> glibtop_open_files_entry list \<Rightarrow> glibtop_open_files_entry list res" where
  \<comment> \<open>\<open>fd\<close>, \<open>ftype\<close> and the entries so far\<close>
  "lsof_lines [] fd ftype entries = Inr entries"
| "lsof_lines (l # ls) fd ftype entries =
     (if length l < 2 then lsof_lines ls fd ftype entries
      else if hd l \<noteq> CHR ''f'' \<and> hd l \<noteq> CHR ''t'' \<and> hd l \<noteq> CHR ''n'' then lsof_lines ls fd ftype entries
      else if hd l = CHR ''f'' then
        (if \<not> isdigit (l ! 1) then lsof_lines (drop 2 ls) fd ftype entries
         else lsof_lines ls (atoi (tl l)) ftype entries)
      else if hd l = CHR ''t'' then lsof_lines ls fd (Some (tl l)) entries
      else case ftype of
        None \<Rightarrow> lsof_lines ls fd ftype entries
      | Some t \<Rightarrow> bind_res (lsof_info t (tl l)) (\<lambda>i.
          case i of
            None \<Rightarrow> lsof_lines ls fd ftype entries
          | Some (type, info) \<Rightarrow>
              lsof_lines ls (- 1) None (entries @ [\<lparr>fe_fd = fd, fe_type = type, fe_info = info\<rparr>])))"

definition parse_output :: "string \<Rightarrow> glibtop_open_files_entry list res" where
  "parse_output out = lsof_lines (g_strsplit out [NL]) (- 1) None []"

definition glibtop_get_proc_open_files_s_fb ::
  "file_env \<Rightarrow> gint32 \<Rightarrow> (glibtop_proc_open_files \<times> glibtop_open_files_entry list option) res" where
  "glibtop_get_proc_open_files_s_fb E pid =
     (let zero = \<lparr>of_flags = 0, of_number = 0, of_total = 0, of_size = 0\<rparr>;
          result = (\<lambda>entries. (\<lparr>of_flags = sysdeps_proc_open_files, of_number = of_nat (length entries),
                       of_total = of_nat (length entries) * 224, of_size = 224\<rparr>, Some entries))
      in if uses_kinfo E then
           (case kinfo_files E pid of None \<Rightarrow> Inr (zero, None) | Some ks \<Rightarrow> Inr (result (kinfo_loop E ks)))
         else case execute_lsof E pid of
           None \<Rightarrow> Inr (zero, None)
         | Some out \<Rightarrow> bind_res (parse_output out) (\<lambda>entries. Inr (result entries)))"

section \<open>procwd.c\<close>

abbreviation (input) "KF_FD_TYPE_CWD \<equiv> - 1 :: gint32"
abbreviation (input) "KF_FD_TYPE_ROOT \<equiv> - 2 :: gint32"

fun wd_lines :: "string list \<Rightarrow> bool \<Rightarrow> bool \<Rightarrow> bool \<Rightarrow> glibtop_proc_wd \<Rightarrow> string list \<Rightarrow> glibtop_proc_wd \<times> string list" where
  \<comment> \<open>\<open>nextwd\<close>, \<open>nextrtd\<close>, \<open>havertd\<close>, \<open>buf\<close> and \<open>dirs\<close>\<close>
  "wd_lines [] nextwd nextrtd havertd buf dirs = (buf, dirs)"
| "wd_lines (l # ls) nextwd nextrtd havertd buf dirs =
     (if length l < 2 then wd_lines ls nextwd nextrtd havertd buf dirs
      else if l = ''fcwd'' then wd_lines ls True nextrtd havertd buf dirs
      else if l = ''frtd'' then wd_lines ls nextwd True havertd buf dirs
      else if hd l \<noteq> CHR ''n'' then wd_lines ls nextwd nextrtd havertd buf dirs
      else
        let dirs = (if nextwd then dirs @ [tl l] else dirs) in
        if nextrtd \<and> \<not> havertd
        then wd_lines ls False False True (buf\<lparr>wd_root := g_strlcpy (tl l) 216, wd_flags := wd_flags buf OR flag 1\<rparr>) dirs
        else wd_lines ls False nextrtd havertd buf dirs)"

fun kinfo_wd_loop :: "kinfo_file list \<Rightarrow> glibtop_proc_wd \<Rightarrow> string list \<Rightarrow> glibtop_proc_wd \<times> string list" where
  "kinfo_wd_loop [] buf dirs = (buf, dirs)"
| "kinfo_wd_loop (kif # ks) buf dirs =
     (if kf_fd kif = KF_FD_TYPE_ROOT
      then kinfo_wd_loop ks (buf\<lparr>wd_root := g_strlcpy (kf_path kif) 216, wd_flags := wd_flags buf OR flag 1\<rparr>) dirs
      else if kf_fd kif = KF_FD_TYPE_CWD then kinfo_wd_loop ks buf (dirs @ [kf_path kif])
      else kinfo_wd_loop ks buf dirs)"

definition wd_exe_fb :: "file_env \<Rightarrow> gint32 \<Rightarrow> glibtop_proc_wd \<Rightarrow> glibtop_proc_wd" where
  \<comment> \<open>216 bytes; a path of more bytes fills them without a NUL, and the second call fails\<close>
  "wd_exe_fb E pid buf =
     (case fv_pathname E pid of
        None \<Rightarrow> buf
      | Some path \<Rightarrow>
          (if length path + 1 \<le> 216 then buf\<lparr>wd_exe := path, wd_flags := wd_flags buf OR flag 2\<rparr>
           else buf\<lparr>wd_exe := take 216 path\<rparr>))"

definition glibtop_get_proc_wd_s_fb :: "file_env \<Rightarrow> gint32 \<Rightarrow> glibtop_proc_wd \<times> string list option" where
  "glibtop_get_proc_wd_s_fb E pid =
     (let buf = wd_exe_fb E pid \<lparr>wd_flags = 0, wd_number = 0, wd_root = [], wd_exe = []\<rparr>;
          result = (\<lambda>(buf, dirs). (buf\<lparr>wd_number := of_nat (length dirs), wd_flags := wd_flags buf OR flag 0\<rparr>, Some dirs))
      in if uses_kinfo E then
           (case kinfo_files E pid of None \<Rightarrow> (buf, None) | Some ks \<Rightarrow> result (kinfo_wd_loop ks buf []))
         else case execute_lsof E pid of
           None \<Rightarrow> (buf, None)
         | Some out \<Rightarrow> result (wd_lines (g_strsplit out [NL]) False False False buf []))"

section \<open>Reading the output of lsof\<close>

text \<open>What \<open>lsof\<close> prints with \<open>-n -P -Fftn\<close>: a line for the process, then for each file a line for the
  descriptor, its type and its name.\<close>

datatype lsof_target =
    LsUnix string
  | LsPipe string
  | LsFile string string
  | LsTcp4 string nat string nat    \<comment> \<open>local and remote host and port\<close>
  | LsListen4 string nat
  | LsTcp6 string nat string nat
  | LsListen6 nat
  | LsListen6At string string string nat    \<comment> \<open>the address up to its first colon, up to the second one, behind it\<close>
  | LsOther string string

fun ls_type :: "lsof_target \<Rightarrow> string" where
  "ls_type (LsUnix p) = ''unix''"
| "ls_type (LsPipe p) = ''PIPE''"
| "ls_type (LsFile t p) = t"
| "ls_type (LsTcp4 l lp r rp) = ''IPv4''"
| "ls_type (LsListen4 h p) = ''IPv4''"
| "ls_type (LsTcp6 l lp r rp) = ''IPv6''"
| "ls_type (LsListen6 p) = ''IPv6''"
| "ls_type (LsListen6At a b x p) = ''IPv6''"
| "ls_type (LsOther t n) = t"

fun ls_name :: "lsof_target \<Rightarrow> string" where
  "ls_name (LsUnix p) = p"
| "ls_name (LsPipe p) = p"
| "ls_name (LsFile t p) = p"
| "ls_name (LsTcp4 l lp r rp) = l @ '':'' @ show_nat lp @ ''->'' @ r @ '':'' @ show_nat rp"
| "ls_name (LsListen4 h p) = h @ '':'' @ show_nat p"
| "ls_name (LsTcp6 l lp r rp) = ''['' @ l @ '']:'' @ show_nat lp @ ''->['' @ r @ '']:'' @ show_nat rp"
| "ls_name (LsListen6 p) = ''*:'' @ show_nat p"
| "ls_name (LsListen6At a b x p) = ''['' @ a @ '':'' @ b @ '':'' @ x @ '']:'' @ show_nat p"
| "ls_name (LsOther t n) = n"

definition any_host :: "string \<Rightarrow> string" where
  "any_host h = (if h = ''*'' then ''0.0.0.0'' else h)"

fun ls_entry :: "lsof_target \<Rightarrow> (guint16 \<times> file_info) option" where
  "ls_entry (LsUnix p) = Some (GLIBTOP_FILE_TYPE_LOCALSOCKET, LocalInfo (take 215 p))"
| "ls_entry (LsPipe p) = Some (GLIBTOP_FILE_TYPE_PIPE, NoInfo)"
| "ls_entry (LsFile t p) = Some (GLIBTOP_FILE_TYPE_FILE, FileInfo (take 215 p))"
| "ls_entry (LsTcp4 l lp r rp) = Some (GLIBTOP_FILE_TYPE_INETSOCKET, SockInfo (take 46 (any_host r)) (of_nat rp))"
| "ls_entry (LsListen4 h p) = Some (GLIBTOP_FILE_TYPE_INETSOCKET, SockInfo (take 46 (any_host h)) (of_nat p))"
| "ls_entry (LsTcp6 l lp r rp) = Some (GLIBTOP_FILE_TYPE_INET6SOCKET, SockInfo (take 46 r) (of_nat rp))"
| "ls_entry (LsListen6 p) = Some (GLIBTOP_FILE_TYPE_INET6SOCKET, SockInfo ''0.0.0.0'' (atoi (tl (show_nat p))))"
| "ls_entry (LsListen6At a b x p) = Some (GLIBTOP_FILE_TYPE_INET6SOCKET, SockInfo (take 46 a) (atoi (tl b)))"
| "ls_entry (LsOther t n) = None"

text \<open>A socket that listens on an address such as \<open>::1\<close> or \<open>fe80::1\<close>: nothing is between the first two colons.\<close>

fun listens_at_colons :: "lsof_target \<Rightarrow> bool" where
  "listens_at_colons (LsListen6At a b x p) \<longleftrightarrow> b = []"
| "listens_at_colons _ \<longleftrightarrow> False"

definition plain_host :: "char set \<Rightarrow> string \<Rightarrow> bool" where
  "plain_host cs h \<longleftrightarrow> NL \<notin> set h \<and> CHR ''-'' \<notin> set h \<and> cs \<inter> set h = {}"

fun target_ok :: "lsof_target \<Rightarrow> bool" where
  "target_ok (LsUnix p) \<longleftrightarrow> p \<noteq> [] \<and> NL \<notin> set p"
| "target_ok (LsPipe p) \<longleftrightarrow> p \<noteq> [] \<and> NL \<notin> set p"
| "target_ok (LsFile t p) \<longleftrightarrow> file_type t \<and> p \<noteq> [] \<and> NL \<notin> set p"
| "target_ok (LsTcp4 l lp r rp) \<longleftrightarrow> plain_host {CHR '':''} l \<and> plain_host {CHR '':''} r \<and> rp < 65536"
| "target_ok (LsListen4 h p) \<longleftrightarrow> plain_host {CHR '':''} h \<and> p < 65536"
| "target_ok (LsTcp6 l lp r rp) \<longleftrightarrow> plain_host {CHR '']''} l \<and> plain_host {CHR '']''} r \<and> rp < 65536"
| "target_ok (LsListen6 p) \<longleftrightarrow> p < 65536"
| "target_ok (LsListen6At a b x p) \<longleftrightarrow> plain_host {CHR '':''} a \<and> plain_host {CHR '':''} b \<and> plain_host {} x"
| "target_ok (LsOther t n) \<longleftrightarrow> t \<noteq> [] \<and> NL \<notin> set t \<and> n \<noteq> [] \<and> NL \<notin> set n \<and> \<not> file_type t
     \<and> t \<notin> {''unix'', ''PIPE'', ''IPv4'', ''IPv6''}"

text \<open>A descriptor is a number, or a word such as \<open>cwd\<close>.\<close>

definition three_lines :: "string \<times> lsof_target \<Rightarrow> string list" where
  "three_lines = (\<lambda>(fd, t). [CHR ''f'' # fd, CHR ''t'' # ls_type t, CHR ''n'' # ls_name t])"

definition lsof_text :: "nat \<Rightarrow> (string \<times> lsof_target) list \<Rightarrow> string" where
  "lsof_text pid files = concat (map (\<lambda>l. l @ [NL]) ((CHR ''p'' # show_nat pid) # concat (map three_lines files)))"

definition file_ok :: "string \<times> lsof_target \<Rightarrow> bool" where
  "file_ok = (\<lambda>(fd, t). fd \<noteq> [] \<and> NL \<notin> set fd \<and> target_ok t)"

definition lsof_entry :: "string \<times> lsof_target \<Rightarrow> glibtop_open_files_entry option" where
  "lsof_entry = (\<lambda>(fd, t). if isdigit (hd fd)
     then map_option (\<lambda>(type, info). \<lparr>fe_fd = atoi fd, fe_type = type, fe_info = info\<rparr>) (ls_entry t) else None)"

lemma split_str_char:
  "c \<notin> set a \<Longrightarrow> split_str [c] acc (a @ c # r) = (rev acc @ a) # split_str [c] [] r"
  "c \<notin> set a \<Longrightarrow> split_str [c] acc a = [rev acc @ a]"
  by (induction a arbitrary: acc) (auto simp: strncmp_eq_def)

lemma split_str_arrow:
  "CHR ''-'' \<notin> set a \<Longrightarrow> split_str ''->'' acc (a @ CHR ''-'' # CHR ''>'' # r) = (rev acc @ a) # split_str ''->'' [] r"
  "CHR ''-'' \<notin> set a \<Longrightarrow> split_str ''->'' acc a = [rev acc @ a]"
  by (induction a arbitrary: acc) (auto simp: strncmp_eq_def)

lemma strstr_arrow:
  "CHR ''-'' \<notin> set a \<Longrightarrow> strstr a ''->'' = None"
  "(strstr (a @ CHR ''-'' # CHR ''>'' # r) ''->'' = None) = False"
  by (induction a) (auto simp: strncmp_eq_def)

lemma split_str_lines:
  "\<forall>l\<in>set ls. NL \<notin> set l \<Longrightarrow> split_str [NL] [] (concat (map (\<lambda>l. l @ [NL]) ls)) = ls @ [[]]"
  by (induction ls) (simp_all add: split_str_char)

lemma show_nat_delim:
  "c \<in> {CHR '':'', CHR '']'', CHR ''-'', NL, CHR ''*''} \<Longrightarrow> c \<notin> set (show_nat n)"
  using show_nat_chars [of n] by (auto simp: digit_val_def)

lemma atoi_port: "p < 65536 \<Longrightarrow> atoi (show_nat p) = of_nat p"
  using atoi_dec [of "[]" p] by simp

lemma remote_arrow:
  assumes "CHR ''-'' \<notin> set a" "CHR ''-'' \<notin> set h" "c \<notin> set h" "CHR ''-'' \<notin> set s" "c \<notin> set s" "h @ c # s \<noteq> []" "c \<noteq> CHR ''-''"
  shows "remote_host [c] (a @ CHR ''-'' # CHR ''>'' # h @ c # s) = Some [h, s]"
  using assms
  by (simp add: strstr_arrow(2) remote_host_def g_strsplit_def split_str_arrow split_str_char)

lemma remote_plain:
  assumes "CHR ''-'' \<notin> set h" "CHR '':'' \<notin> set h" "CHR ''-'' \<notin> set s" "CHR '':'' \<notin> set s"
  shows "remote_host d (h @ CHR '':'' # s) = Some [h, s]"
  using assms by (simp add: remote_host_def g_strsplit_def split_str_char strstr_arrow)

abbreviation "lsof_crash \<equiv> Crash ''remote_host[1] + 1 behind the string''"

lemma lsof_info_target:
  "target_ok t \<Longrightarrow> lsof_info (ls_type t) (ls_name t) = (if listens_at_colons t then Inl lsof_crash else Inr (ls_entry t))"
proof (cases t)
  case (LsTcp4 l lp r rp)
  assume "target_ok t"
  then have "remote_host '':'' (ls_name t) = Some [r, show_nat rp]" "atoi (show_nat rp) = of_nat rp"
    using remote_arrow [of "l @ '':'' @ show_nat lp" r "CHR '':''" "show_nat rp"]
    by (simp_all add: LsTcp4 plain_host_def show_nat_delim atoi_port)
  then show ?thesis by (simp add: LsTcp4 lsof_info_def file_type_def g_strlcpy_def any_host_def)
next
  case (LsListen4 h p)
  assume "target_ok t"
  then have "remote_host '':'' (ls_name t) = Some [h, show_nat p]" "atoi (show_nat p) = of_nat p"
    using remote_plain [of h "show_nat p"] by (simp_all add: LsListen4 plain_host_def show_nat_delim atoi_port)
  then show ?thesis by (simp add: LsListen4 lsof_info_def file_type_def g_strlcpy_def any_host_def)
next
  case (LsTcp6 l lp r rp)
  assume "target_ok t"
  then have "remote_host '']'' (ls_name t) = Some [CHR ''['' # r, CHR '':'' # show_nat rp]" "atoi (show_nat rp) = of_nat rp"
    using remote_arrow [of "''['' @ l @ '']:'' @ show_nat lp" "CHR ''['' # r" "CHR '']''" "CHR '':'' # show_nat rp"]
    by (simp_all add: LsTcp6 plain_host_def show_nat_delim atoi_port)
  then show ?thesis by (simp add: LsTcp6 lsof_info_def file_type_def g_strlcpy_def)
next
  case (LsListen6 p)
  assume "target_ok t"
  then have "remote_host '']'' (ls_name t) = Some [''*'', show_nat p]"
    using remote_plain [of "''*''" "show_nat p"] by (simp add: LsListen6 show_nat_delim)
  then show ?thesis by (simp add: LsListen6 lsof_info_def file_type_def g_strlcpy_def drop_Suc)
next
  case (LsListen6At a b x p)
  assume "target_ok t"
  then have ok: "CHR ''-'' \<notin> set a" "CHR '':'' \<notin> set a" "CHR ''-'' \<notin> set b" "CHR '':'' \<notin> set b" "CHR ''-'' \<notin> set x"
    by (simp_all add: LsListen6At plain_host_def)
  have "CHR ''-'' \<notin> set (ls_name t)" using ok by (simp add: LsListen6At show_nat_delim)
  moreover have "split_str '':'' [] (ls_name t) = (CHR ''['' # a) # b # split_str '':'' [] (x @ '']:'' @ show_nat p)"
    using ok split_str_char(1) [of "CHR '':''" "CHR ''['' # a" "[]" "b @ '':'' @ x @ '']:'' @ show_nat p"]
      split_str_char(1) [of "CHR '':''" b "[]" "x @ '']:'' @ show_nat p"] by (simp add: LsListen6At)
  moreover have "ls_name t \<noteq> []" by (simp add: LsListen6At)
  ultimately have r: "\<exists>hs. remote_host '']'' (ls_name t) = Some ((CHR ''['' # a) # b # hs)"
    by (simp add: remote_host_def g_strsplit_def strstr_arrow(1))
  then show ?thesis by (auto simp: LsListen6At lsof_info_def file_type_def g_strlcpy_def drop_Suc)
qed (auto simp: lsof_info_def g_strlcpy_def file_type_def)

lemma three_lines_ok:
  assumes "file_ok f" and "l \<in> set (three_lines f)"
  shows "NL \<notin> set l"
proof (cases f)
  case (Pair fd t)
  with assms show ?thesis
    by (cases t) (auto simp: file_ok_def three_lines_def plain_host_def file_type_def show_nat_delim)
qed

definition lsof_fatal :: "string \<times> lsof_target \<Rightarrow> bool" where
  "lsof_fatal = (\<lambda>(fd, t). isdigit (hd fd) \<and> listens_at_colons t)"

lemma lsof_lines_files:
  "\<forall>f\<in>set files. file_ok f \<Longrightarrow>
   lsof_lines (concat (map three_lines files) @ [[]]) fd ftype entries
     = (if \<exists>f\<in>set files. lsof_fatal f then Inl lsof_crash else Inr (entries @ List.map_filter lsof_entry files))"
proof (induction files arbitrary: fd ftype entries)
  case (Cons f files)
  obtain nr t where f: "f = (nr, t)" by (cases f)
  have ok: "nr \<noteq> []" "target_ok t" using Cons.prems by (simp_all add: f file_ok_def)
  have ne: "ls_type t \<noteq> []" "ls_name t \<noteq> []"
    using ok(2) by (cases t; auto simp: file_type_def)+
  show ?case
    using Cons.IH Cons.prems ok ne lsof_info_target [OF ok(2)]
    by (cases nr; cases "ls_type t"; cases "ls_name t"; cases "ls_entry t")
      (auto simp: f three_lines_def lsof_entry_def lsof_fatal_def map_filter_simps)
qed (simp add: map_filter_simps)

text \<open>
  C33. The output of \<open>lsof\<close>: whatever files it lists, in any order, the result has an entry for each
  numbered descriptor of a known type, with its number, its kind and its path, or host and port of the
  peer. Descriptors that are words (\<open>cwd\<close>, \<open>txt\<close>) and unknown types are passed over and disturb
  nothing. The exceptions are the listening sockets of IPv6. On any address, the port loses its first digit. On an address
  with something between its first two colons, what is in front of them is taken for the host and what is between them, without its first
  digit, for the port. On any other address (\<open>[::1]:22\<close>) the code reads behind a string.
\<close>

theorem lsof_round_trip:
  assumes "\<forall>f\<in>set files. file_ok f"
  shows "parse_output (lsof_text pid files)
    = (if \<exists>f\<in>set files. lsof_fatal f then Inl lsof_crash else Inr (List.map_filter lsof_entry files))"
proof -
  have "\<forall>l\<in>set ((CHR ''p'' # show_nat pid) # concat (map three_lines files)). NL \<notin> set l"
    using assms three_lines_ok by (auto simp: show_nat_delim)
  from split_str_lines [OF this] lsof_lines_files [OF assms] show ?thesis
    by (simp add: parse_output_def g_strsplit_def lsof_text_def)
qed

definition demo_lsof :: "(string \<times> lsof_target) list" where
  "demo_lsof = [(''cwd'', LsFile ''VDIR'' ''/home''), (''0'', LsFile ''VCHR'' ''/dev/null''), (''3'', LsOther ''KQUEUE'' ''x''),
     (''4'', LsTcp4 ''10.0.0.1'' 22 ''10.0.0.2'' 4000), (''5'', LsListen6 22)]"

theorem lsof_round_trip_witness:
  "parse_output (lsof_text 7 demo_lsof) = Inr [\<lparr>fe_fd = 0, fe_type = GLIBTOP_FILE_TYPE_FILE, fe_info = FileInfo ''/dev/null''\<rparr>,
     \<lparr>fe_fd = 4, fe_type = GLIBTOP_FILE_TYPE_INETSOCKET, fe_info = SockInfo ''10.0.0.2'' 4000\<rparr>,
     \<lparr>fe_fd = 5, fe_type = GLIBTOP_FILE_TYPE_INET6SOCKET, fe_info = SockInfo ''0.0.0.0'' 2\<rparr>]
   \<and> parse_output (lsof_text 7 [(''3'', LsListen6At [] [] ''1'' 22)]) = Inl lsof_crash"
proof -
  have ok: "\<forall>f\<in>set demo_lsof. file_ok f" "\<forall>f\<in>set [(''3'', LsListen6At [] [] ''1'' 22)]. file_ok f"
    by (simp_all add: demo_lsof_def file_ok_def plain_host_def file_type_def)
  have "show_nat 22 = ''22''" "show_nat 2 = ''2''" "show_nat 0 = ''0''" "show_nat 4 = ''4''" "show_nat 5 = ''5''" by code_simp+
  moreover from this have "atoi ''2'' = 2" "atoi ''0'' = 0" "atoi ''4'' = 4" "atoi ''5'' = 5"
    using atoi_port [of 2] atoi_port [of 0] atoi_port [of 4] atoi_port [of 5] by simp_all
  moreover have "isdigit (CHR ''0'')" "isdigit (CHR ''3'')" "isdigit (CHR ''4'')" "isdigit (CHR ''5'')" "\<not> isdigit (CHR ''c'')" by code_simp+
  ultimately show ?thesis
    unfolding lsof_round_trip [OF ok(1)] lsof_round_trip [OF ok(2)]
    by (simp add: demo_lsof_def lsof_entry_def lsof_fatal_def map_filter_simps any_host_def)
qed

end
