(* ===== verification/FbNet.thy ===== *)
theory FbNet
  imports FreeBsd
begin

unbundle bit_operations_syntax

text \<open>
  \<open>netload.c\<close> and \<open>ppp.c\<close> under \<open>sysdeps/freebsd\<close>: the traffic of an interface, its addresses, and the
  state of an ISDN connection. What \<open>getifaddrs\<close> gives and what the \<open>ioctl\<close>s say are parameters.
\<close>

section \<open>netload.c\<close>

record if_data =
  ifi_mtu :: guint64
  ifi_ipackets :: guint64
  ifi_opackets :: guint64
  ifi_ibytes :: guint64
  ifi_obytes :: guint64
  ifi_ierrors :: guint64
  ifi_oerrors :: guint64
  ifi_collisions :: guint64

text \<open>An element of the list by the family of its address: the data of the link and the eight bytes from
  \<open>LLADDR\<close> on, or an address with its mask, which may be NULL.\<close>

datatype ifa_data =
    IfaLink if_data string
  | IfaInet guint32 "guint32 option"
  | IfaInet6 string guint32 "string option"
  | IfaOther

record ifaddrs_fb =
  ifb_name :: string
  ifb_addr :: ifa_data

record net_env =
  nv_getifaddrs :: "ifaddrs_fb list option"
  nv_socket :: bool                                    \<comment> \<open>\<open>socket (AF_INET, SOCK_DGRAM, 0)\<close> works\<close>
  nv_media :: "string \<Rightarrow> (gint32 \<times> gint32) option"     \<comment> \<open>\<open>ifm_current\<close> and \<open>ifm_active\<close>\<close>
  nv_flags :: "string \<Rightarrow> (16 word \<times> 16 word) option"   \<comment> \<open>\<open>ifr_flags\<close> and \<open>ifr_flagshigh\<close>\<close>

definition sysdeps_netload_fb :: guint64 where
  "sysdeps_netload_fb = flag 0 + flag 1 + flag 4 + flag 5 + flag 6 + flag 7 + flag 8 + flag 9 + flag 10 + flag 11
     + flag 12 + flag 13 + flag 17"

definition sysdeps_netload_data_fb :: guint64 where "sysdeps_netload_data_fb = flag 2 + flag 3"
definition sysdeps_netload6 :: guint64 where "sysdeps_netload6 = flag 14 + flag 15 + flag 16"

definition init_netload_p :: "glibtop \<Rightarrow> glibtop" where
  "init_netload_p server = set_sysdeps F_NETLOAD sysdeps_netload_fb server"

text \<open>The \<open>IFF_\<close> constants of FreeBSD, where \<open>IFF_ALTPHYS\<close> is \<open>IFF_LINK2\<close>.\<close>

definition iff_table_fb :: "(32 word \<times> nat) list" where
  "iff_table_fb = [(0x1, 1), (0x2, 2), (0x4, 3), (0x8, 4), (0x10, 5), (0x40, 6), (0x80, 7), (0x100, 8), (0x200, 9),
     (0x400, 10), (0x800, 11), (0x1000, 12), (0x2000, 13), (0x4000, 14), (0x4000, 15), (0x8000, 16)]"

definition if_flag_bits_fb :: "32 word \<Rightarrow> guint64 \<Rightarrow> guint64" where
  "if_flag_bits_fb flags r = fold (\<lambda>(iff, n) r. if flags AND iff \<noteq> 0 then r OR flag n else r) iff_table_fb r"

definition is_80211 :: "gint32 \<Rightarrow> bool" where
  \<comment> \<open>\<open>IFM_TYPE (x) & IFM_IEEE80211\<close>\<close>
  "is_80211 x \<longleftrightarrow> (x AND 0xe0) AND 0x80 \<noteq> 0"

definition media_flags :: "(gint32 \<times> gint32) option \<Rightarrow> guint64 \<Rightarrow> guint64" where
  "media_flags media r =
     (case media of
        None \<Rightarrow> r
      | Some (current, active) \<Rightarrow>
          (let r = (if is_80211 current then r OR flag 17 else r)
           in if is_80211 active then r OR flag 17 else r))"

definition netload_link :: "net_env \<Rightarrow> string \<Rightarrow> if_data \<Rightarrow> string \<Rightarrow> glibtop_netload \<Rightarrow> glibtop_netload" where
  "netload_link N name d lladdr buf =
     (if \<not> nv_socket N then buf
      else
        let buf = buf\<lparr>nl_if_flags := media_flags (nv_media N (g_strlcpy name 16)) (nl_if_flags buf)\<rparr> in
        case nv_flags N (g_strlcpy name 16) of
          None \<Rightarrow> buf
        | Some (low, high) \<Rightarrow>
            (let flags = (scast low AND 0xffff) OR push_bit 16 (scast high)
             in buf\<lparr>nl_if_flags := if_flag_bits_fb flags (nl_if_flags buf),
                  packets_in := ifi_ipackets d, packets_out := ifi_opackets d,
                  packets_total := ifi_ipackets d + ifi_opackets d,
                  bytes_in := ifi_ibytes d, bytes_out := ifi_obytes d, bytes_total := ifi_ibytes d + ifi_obytes d,
                  errors_in := ifi_ierrors d, errors_out := ifi_oerrors d, errors_total := ifi_ierrors d + ifi_oerrors d,
                  collisions := ifi_collisions d, hwaddress := take 8 lladdr, nl_mtu := ucast (ifi_mtu d),
                  nl_flags := nl_flags buf OR sysdeps_netload_fb\<rparr>))"

definition netload_addr :: "net_env \<Rightarrow> ifaddrs_fb \<Rightarrow> glibtop_netload \<Rightarrow> glibtop_netload res" where
  "netload_addr N ifa buf =
     (case ifb_addr ifa of
        IfaLink d lladdr \<Rightarrow> Inr (netload_link N (ifb_name ifa) d lladdr buf)
      | IfaInet a nm \<Rightarrow>
          (case nm of
             None \<Rightarrow> Inl (Crash ''ifa_netmask is NULL'')
           | Some m \<Rightarrow> Inr (buf\<lparr>nl_address := a, nl_subnet := m AND a, nl_flags := nl_flags buf OR sysdeps_netload_data_fb\<rparr>))
      | IfaInet6 a scope nm \<Rightarrow>
          (case nm of
             None \<Rightarrow> Inl (Crash ''ifa_netmask is NULL'')
           | Some m \<Rightarrow> Inr (buf\<lparr>address6 := a, scope6 := unat (ucast scope :: 8 word), prefix6 := m,
                        nl_flags := nl_flags buf OR sysdeps_netload6\<rparr>))
      | IfaOther \<Rightarrow> Inr buf)"

fun netload_loop_fb :: "net_env \<Rightarrow> string \<Rightarrow> ifaddrs_fb list \<Rightarrow> glibtop_netload \<Rightarrow> glibtop_netload res" where
  "netload_loop_fb N interface [] buf = Inr buf"
| "netload_loop_fb N interface (ifa # ifas) buf =
     (if ifb_name ifa \<noteq> interface then netload_loop_fb N interface ifas buf
      else bind_res (netload_addr N ifa buf) (netload_loop_fb N interface ifas))"

definition glibtop_get_netload_p :: "net_env \<Rightarrow> glibtop \<Rightarrow> string \<Rightarrow> glibtop_netload res" where
  "glibtop_get_netload_p N server interface =
     (if sd (s_sysdeps server) F_NETLOAD = 0 then Inr netload_zero
      else case nv_getifaddrs N of
        None \<Rightarrow> Inr netload_zero
      | Some ifas \<Rightarrow> netload_loop_fb N interface ifas netload_zero)"

section \<open>ppp.c\<close>

text \<open>\<open>i4b\<close> and \<open>acct\<close> are \<open>HAVE_I4B\<close> and \<open>HAVE_I4B_ACCT\<close>; \<open>nlist_ok\<close> says whether \<open>kvm_nlist\<close> works, and
  \<open>softc\<close> is what \<open>kvm_read\<close> finds: the phase and the two counters. Without \<open>HAVE_I4B\<close> the function does
  nothing, not even to the buffer, which is an argument for that reason.\<close>

datatype ppp_phase = PHASE_DEAD | PHASE_ESTABLISH | PHASE_TERMINATE | PHASE_AUTHENTICATE | PHASE_NETWORK

definition init_ppp_p :: "bool \<Rightarrow> bool \<Rightarrow> bool \<Rightarrow> glibtop \<Rightarrow> glibtop" where
  "init_ppp_p i4b acct nlist_ok server =
     (let server = (if i4b then set_sysdeps F_PPP (if acct then flag 0 OR (flag 1 + flag 2) else flag 0) server else server)
      in if \<not> nlist_ok then set_sysdeps F_PPP 0 server else server)"

definition ppp_state_fb :: "bool \<Rightarrow> ppp_phase \<Rightarrow> guint64" where
  \<comment> \<open>without \<open>acct\<close> the phase is not read\<close>
  "ppp_state_fb acct phase =
     (if \<not> acct then 0
      else case phase of
        PHASE_DEAD \<Rightarrow> 1 | PHASE_TERMINATE \<Rightarrow> 1 | PHASE_ESTABLISH \<Rightarrow> 2 | PHASE_NETWORK \<Rightarrow> 2 | PHASE_AUTHENTICATE \<Rightarrow> 0)"

definition glibtop_get_ppp_p ::
  "bool \<Rightarrow> bool \<Rightarrow> (ppp_phase \<times> guint64 \<times> guint64) option \<Rightarrow> glibtop \<Rightarrow> glibtop_ppp \<Rightarrow> glibtop_ppp" where
  "glibtop_get_ppp_p i4b acct softc server buf =
     (if \<not> i4b then buf
      else
        let zero = \<lparr>ppp_flags = 0, ppp_state = 0, ppp_bytes_in = 0, ppp_bytes_out = 0\<rparr> in
        if sd (s_sysdeps server) F_PPP = 0 then zero
        else case softc of
          None \<Rightarrow> zero
        | Some (phase, inb, outb) \<Rightarrow>
            (if acct
             then \<lparr>ppp_flags = flag 0 OR (flag 1 + flag 2), ppp_state = ppp_state_fb acct phase,
                    ppp_bytes_in = inb, ppp_bytes_out = outb\<rparr>
             else zero\<lparr>ppp_flags := flag 0, ppp_state := ppp_state_fb acct phase\<rparr>))"

section \<open>What is reported for an interface\<close>

text \<open>The last element of a kind.\<close>

definition last_some :: "('a \<Rightarrow> 'b option) \<Rightarrow> 'a list \<Rightarrow> 'b option" where
  "last_some f xs = (case List.map_filter f xs of [] \<Rightarrow> None | ys \<Rightarrow> Some (last ys))"

lemma last_some_Cons:
  "last_some f (x # xs) = (case last_some f xs of None \<Rightarrow> f x | Some y \<Rightarrow> Some y)"
  by (cases "List.map_filter f xs") (auto simp: last_some_def map_filter_simps split: option.splits list.splits)

lemma last_some_Nil [simp]: "last_some f [] = None"
  by (simp add: last_some_def map_filter_simps)

definition link_of :: "string \<Rightarrow> ifaddrs_fb \<Rightarrow> if_data option" where
  "link_of i ifa = (case ifb_addr ifa of IfaLink d _ \<Rightarrow> if ifb_name ifa = i then Some d else None | _ \<Rightarrow> None)"

definition inet_of :: "string \<Rightarrow> ifaddrs_fb \<Rightarrow> (guint32 \<times> guint32) option" where
  "inet_of i ifa = (case ifb_addr ifa of IfaInet a (Some m) \<Rightarrow> if ifb_name ifa = i then Some (a, m) else None | _ \<Rightarrow> None)"

definition masks_set :: "string \<Rightarrow> ifaddrs_fb list \<Rightarrow> bool" where
  "masks_set i ifas \<longleftrightarrow> (\<forall>ifa\<in>set ifas. ifb_name ifa = i \<longrightarrow>
     (\<forall>a. ifb_addr ifa \<noteq> IfaInet a None) \<and> (\<forall>a s. ifb_addr ifa \<noteq> IfaInet6 a s None))"

definition counters_of :: "if_data \<Rightarrow> glibtop_netload \<Rightarrow> bool" where
  "counters_of d b \<longleftrightarrow> packets_in b = ifi_ipackets d \<and> packets_out b = ifi_opackets d
     \<and> packets_total b = ifi_ipackets d + ifi_opackets d \<and> bytes_in b = ifi_ibytes d \<and> bytes_out b = ifi_obytes d
     \<and> bytes_total b = ifi_ibytes d + ifi_obytes d \<and> errors_total b = ifi_ierrors d + ifi_oerrors d
     \<and> collisions b = ifi_collisions d \<and> nl_mtu b = ucast (ifi_mtu d)"

definition reported :: "if_data option \<Rightarrow> (guint32 \<times> guint32) option \<Rightarrow> glibtop_netload \<Rightarrow> glibtop_netload \<Rightarrow> bool" where
  \<comment> \<open>from the third argument to the fourth\<close>
  "reported ld am buf b \<longleftrightarrow>
     (case ld of Some d \<Rightarrow> counters_of d b | None \<Rightarrow> (\<forall>d. counters_of d buf \<longrightarrow> counters_of d b))
     \<and> (case am of Some (a, m) \<Rightarrow> nl_address b = a \<and> nl_subnet b = m AND a
        | None \<Rightarrow> nl_address b = nl_address buf \<and> nl_subnet b = nl_subnet buf)"

lemma reported_trans:
  "reported ld am buf b \<Longrightarrow> reported ld' am' b c \<Longrightarrow>
   reported (case ld' of None \<Rightarrow> ld | Some d \<Rightarrow> Some d) (case am' of None \<Rightarrow> am | Some x \<Rightarrow> Some x) buf c"
  by (auto simp: reported_def split: option.splits)

lemma netload_addr_steps:
  assumes "nv_socket N" "nv_flags N (g_strlcpy (ifb_name ifa) 16) \<noteq> None" "masks_set (ifb_name ifa) [ifa]"
  shows "\<exists>b. netload_addr N ifa buf = Inr b \<and> reported (link_of (ifb_name ifa) ifa) (inet_of (ifb_name ifa) ifa) buf b"
proof (cases "ifb_addr ifa")
  case (IfaLink d l)
  then show ?thesis using assms
    by (auto simp: netload_addr_def netload_link_def link_of_def inet_of_def reported_def counters_of_def Let_def)
next
  case (IfaInet a m)
  then show ?thesis using assms
    by (cases m) (auto simp: netload_addr_def link_of_def inet_of_def reported_def counters_of_def masks_set_def)
next
  case (IfaInet6 a s m)
  then show ?thesis using assms
    by (cases m) (auto simp: netload_addr_def link_of_def inet_of_def reported_def counters_of_def masks_set_def)
qed (auto simp: netload_addr_def link_of_def inet_of_def reported_def counters_of_def)

text \<open>
  The traffic of an interface on FreeBSD: the counters and the MTU are those of the last link entry of
  that name, whatever other interfaces and addresses stand in the list, each total is the sum of its two
  directions, and address and subnet are those of the last IPv4 entry of that name (an interface
  with several addresses reports one of them).
\<close>

theorem netload_fb_spec:
  assumes "nv_getifaddrs N = Some ifas" and "sd (s_sysdeps server) F_NETLOAD \<noteq> 0" and "masks_set i ifas"
    and "nv_socket N" and "nv_flags N (g_strlcpy i 16) \<noteq> None"
  shows "\<exists>b. glibtop_get_netload_p N server i = Inr b
    \<and> (\<forall>d. last_some (link_of i) ifas = Some d \<longrightarrow> counters_of d b)
    \<and> (case last_some (inet_of i) ifas of
         Some (a, m) \<Rightarrow> nl_address b = a \<and> nl_subnet b = m AND a
       | None \<Rightarrow> nl_address b = 0 \<and> nl_subnet b = 0)"
proof -
  have "\<exists>b. netload_loop_fb N i ifas buf = Inr b \<and> reported (last_some (link_of i) ifas) (last_some (inet_of i) ifas) buf b" for buf
    using assms(3)
  proof (induction ifas arbitrary: buf)
    case (Cons ifa ifas)
    have ok: "masks_set i ifas" using Cons.prems by (simp add: masks_set_def)
    show ?case
    proof (cases "ifb_name ifa = i")
      case False
      then have "link_of i ifa = None" "inet_of i ifa = None"
        by (auto simp: link_of_def inet_of_def split: ifa_data.split option.split)
      then have "last_some (link_of i) (ifa # ifas) = last_some (link_of i) ifas"
        "last_some (inet_of i) (ifa # ifas) = last_some (inet_of i) ifas"
        by (simp_all add: last_some_Cons split: option.split)
      with Cons.IH [OF ok, of buf] False show ?thesis by simp
    next
      case True
      have "masks_set (ifb_name ifa) [ifa]" using Cons.prems True by (simp add: masks_set_def)
      from netload_addr_steps [OF assms(4) _ this, of buf] assms(5) True obtain b where
        b: "netload_addr N ifa buf = Inr b" "reported (link_of i ifa) (inet_of i ifa) buf b"
        by auto
      from Cons.IH [OF ok, of b] obtain c where
        c: "netload_loop_fb N i ifas b = Inr c" "reported (last_some (link_of i) ifas) (last_some (inet_of i) ifas) b c"
        by blast
      from reported_trans [OF b(2) c(2)] b(1) c(1) True show ?thesis
        by (simp only: last_some_Cons netload_loop_fb.simps bind_res.simps not_True_eq_False if_False simp_thms) blast
    qed
  qed (simp add: reported_def)
  from this [of netload_zero] show ?thesis
    using assms(1,2) by (auto simp: glibtop_get_netload_p_def reported_def netload_zero_def split: option.splits)
qed

definition demo_if_data :: if_data where
  "demo_if_data = \<lparr>ifi_mtu = 1500, ifi_ipackets = 3, ifi_opackets = 4, ifi_ibytes = 300, ifi_obytes = 400, ifi_ierrors = 0,
     ifi_oerrors = 1, ifi_collisions = 0\<rparr>"

definition demo_net :: net_env where
  "demo_net = \<lparr>nv_getifaddrs = Some [\<lparr>ifb_name = ''lo0'', ifb_addr = IfaInet 0x0100007f (Some 0xff)\<rparr>,
       \<lparr>ifb_name = ''em0'', ifb_addr = IfaLink demo_if_data (replicate 8 NUL)\<rparr>,
       \<lparr>ifb_name = ''em0'', ifb_addr = IfaInet 0x0200000a (Some 0xffffff)\<rparr>,
       \<lparr>ifb_name = ''em0'', ifb_addr = IfaInet 0x0300000a (Some 0xff)\<rparr>],
     nv_socket = True, nv_media = (\<lambda>_. None), nv_flags = (\<lambda>_. Some (0x43, 0))\<rparr>"

theorem netload_fb_spec_witness:
  "\<exists>b. glibtop_get_netload_p demo_net (init_netload_p glibtop_global_server) ''em0'' = Inr b
     \<and> packets_total b = 7 \<and> nl_mtu b = 1500 \<and> nl_address b = 0x0300000a \<and> nl_subnet b = 0x0a"
proof -
  have sd: "sd (s_sysdeps (init_netload_p glibtop_global_server)) F_NETLOAD \<noteq> 0"
    by (simp add: init_netload_p_def set_sysdeps_def sysdeps_netload_fb_def)
  obtain ifas where i: "nv_getifaddrs demo_net = Some ifas" "masks_set ''em0'' ifas"
    "last_some (link_of ''em0'') ifas = Some demo_if_data" "last_some (inet_of ''em0'') ifas = Some (0x0300000a, 0xff)"
    by (simp add: demo_net_def masks_set_def last_some_Cons link_of_def inet_of_def)
  have "nv_socket demo_net" "nv_flags demo_net (g_strlcpy ''em0'' 16) \<noteq> None" by (simp_all add: demo_net_def)
  from netload_fb_spec [OF i(1) sd i(2) this] i(3,4) show ?thesis
    by (auto simp: counters_of_def demo_if_data_def)
qed

end
