(* ===== verification/FbPort.thy ===== *)
theory FbPort
  imports FbMap FbMount FbFiles FbNet
begin

unbundle bit_operations_syntax

text \<open>
  The FreeBSD port as a whole: which functions run in the client and which in the setuid server
  (\<open>sysdeps/freebsd/glibtop_server.h\<close>), the tables of both as services, the init functions, and the two
  ends of the pipe between them.
\<close>

section \<open>The functions of the port\<close>

record fb_machine =
  fm_sys :: fbsd
  fm_kvm :: kvm
  fm_kmem :: kmem
  fm_files :: file_env
  fm_net :: net_env
  fm_mounts :: "statfs list option"
  fm_statvfs :: "string \<Rightarrow> statvfs option"
  fm_statfs :: "string \<Rightarrow> statfs option"
  fm_setsize :: nat
  fm_affinity :: "gint32 \<Rightarrow> (nat \<Rightarrow> bool) option"
  fm_i4b :: bool
  fm_acct :: bool
  fm_nlist_ok :: bool
  fm_softc :: "(ppp_phase \<times> guint64 \<times> guint64) option"

definition suid_fb :: "feature \<Rightarrow> bool" where
  \<comment> \<open>\<open>GLIBTOP_SUID_F\<close> is not zero\<close>
  "suid_fb f \<longleftrightarrow> f \<in> {F_SWAP, F_PROCLIST, F_PROC_STATE, F_PROC_UID, F_PROC_MEM, F_PROC_TIME, F_PROC_SIGNAL, F_PROC_KERNEL,
     F_PROC_SEGMENT, F_PROC_ARGS, F_PROC_MAP, F_NETLOAD, F_PPP, F_PROC_IO}"

text \<open>The functions \<open>glibtop_get_f_p\<close> in the setuid server, which has the rights \<open>c\<close> and, as everything
  between two commands, comes back to them. The buffer that \<open>ppp\<close> may leave alone is the cleared one of the
  server. A getter that does not return is written as \<open>Blocks\<close>.\<close>

fun fb_server_service :: "fb_machine \<Rightarrow> glibtop \<Rightarrow> glibtop_machine \<Rightarrow> cred \<Rightarrow> service" where
  "fb_server_service M s m c F_SWAP a = ret swap_bytes (glibtop_get_swap_p (fm_sys M))"
| "fb_server_service M s m c F_PROCLIST a =
     (let (b, pids) = glibtop_get_proclist_p (fm_kvm M) c (fst (arg_list a)) (snd (arg_list a))
      in Inr (proclist_bytes b, map_option u32s_bytes pids))"
| "fb_server_service M s m c F_PROC_STATE a = ret proc_state_bytes (Inr (glibtop_get_proc_state_p (fm_kvm M) c (arg_pid a)))"
| "fb_server_service M s m c F_PROC_UID a = ret proc_uid_bytes (Inr (glibtop_get_proc_uid_p (fm_kvm M) c (arg_pid a)))"
| "fb_server_service M s m c F_PROC_MEM a =
     ret proc_mem_bytes (Inr (glibtop_get_proc_mem_p (fm_sys M) (fm_kvm M) s c (arg_pid a)))"
| "fb_server_service M s m c F_PROC_TIME a =
     ret (proc_time_bytes \<circ> fst) (glibtop_get_proc_time_p (fm_sys M) (fm_kvm M) m c (arg_pid a))"
| "fb_server_service M s m c F_PROC_SIGNAL a = ret proc_signal_bytes (Inr (glibtop_get_proc_signal_p (fm_kvm M) c (arg_pid a)))"
| "fb_server_service M s m c F_PROC_KERNEL a =
     ret (proc_kernel_bytes \<circ> fst) (glibtop_get_proc_kernel_p (fm_sys M) (fm_kvm M) s m c (arg_pid a))"
| "fb_server_service M s m c F_PROC_SEGMENT a =
     ret proc_segment_bytes (Inr (glibtop_get_proc_segment_p (fm_sys M) (fm_kvm M) c (arg_pid a)))"
| "fb_server_service M s m c F_PROC_ARGS a =
     bind_res (glibtop_get_proc_args_p (fm_kvm M) m c (arg_pid a) (arg_max a)) (\<lambda>((b, block), _). Inr (proc_args_bytes b, block))"
| "fb_server_service M s m c F_PROC_MAP a =
     (case glibtop_get_proc_map_p (fm_sys M) (fm_kvm M) (fm_kmem M) m c (arg_pid a) of
        None \<Rightarrow> Inl Blocks
      | Some r \<Rightarrow> bind_res r (\<lambda>((b, es), _). Inr (proc_map_bytes b, map_option (\<lambda>es. concat (map map_entry_bytes es)) es)))"
| "fb_server_service M s m c F_NETLOAD a = ret netload_bytes (glibtop_get_netload_p (fm_net M) s (arg_string a))"
| "fb_server_service M s m c F_PPP a =
     ret ppp_bytes (Inr (glibtop_get_ppp_p (fm_i4b M) (fm_acct M) (fm_softc M) s
       \<lparr>ppp_flags = 0, ppp_state = 0, ppp_bytes_in = 0, ppp_bytes_out = 0\<rparr>))"
| "fb_server_service M s m c F_PROC_IO a =
     ret (proc_io_bytes \<circ> fst) (glibtop_get_proc_io_p (fm_kvm M) m c (arg_pid a))"
| "fb_server_service M s m c f a = Inl (Crash ''the server has no function for the feature'')"

text \<open>The functions \<open>glibtop_get_f_s\<close> of the client's own process.\<close>

fun fb_client_service :: "fb_machine \<Rightarrow> glibtop \<Rightarrow> service" where
  "fb_client_service M s F_CPU a = ret cpu_bytes (glibtop_get_cpu_s_fb (fm_sys M) s)"
| "fb_client_service M s F_MEM a = ret mem_bytes (Inr (glibtop_get_mem_s_fb (fm_sys M)))"
| "fb_client_service M s F_UPTIME a = ret uptime_bytes (glibtop_get_uptime_s_fb (fm_sys M) s)"
| "fb_client_service M s F_LOADAVG a = ret loadavg_bytes (Inr (glibtop_get_loadavg_s_fb (fm_sys M)))"
| "fb_client_service M s F_SHM_LIMITS a = ret shm_bytes (Inr (glibtop_get_shm_limits_s_fb (fm_sys M) s))"
| "fb_client_service M s F_MSG_LIMITS a = ret msg_bytes (Inr (glibtop_get_msg_limits_s_fb (fm_sys M) s))"
| "fb_client_service M s F_SEM_LIMITS a = ret sem_bytes (Inr (glibtop_get_sem_limits_s_fb (fm_sys M) s))"
| "fb_client_service M s F_MOUNTLIST a =
     (let (b, es) = glibtop_get_mountlist_s_fb (fm_mounts M) (arg_int a)
      in Inr (mountlist_bytes b, map_option (\<lambda>es. concat (map mountentry_bytes es)) es))"
| "fb_client_service M s F_FSUSAGE a =
     ret fsusage_bytes (Inr (glibtop_get_fsusage_s_fb (fm_statvfs M) (fm_statfs M) (arg_string a)))"
| "fb_client_service M s F_NETLIST a =
     (let (b, devs) = glibtop_get_netlist_s_fb (fm_sys M) in Inr (netlist_bytes b, Some (strings devs)))"
| "fb_client_service M s F_PROC_OPEN_FILES a =
     bind_res (glibtop_get_proc_open_files_s_fb (fm_files M) (arg_pid a))
       (\<lambda>(b, es). Inr (open_files_bytes b, map_option (\<lambda>es. concat (map open_entry_bytes es)) es))"
| "fb_client_service M s F_PROC_WD a =
     (let (b, dirs) = glibtop_get_proc_wd_s_fb (fm_files M) (arg_pid a) in Inr (proc_wd_bytes b, map_option strings dirs))"
| "fb_client_service M s F_PROC_AFFINITY a =
     bind_res (glibtop_get_proc_affinity_s_fb (fm_sys M) (fm_setsize M) (fm_affinity M) s (arg_pid a))
       (\<lambda>(b, cpus). Inr (affinity_bytes b, map_option (\<lambda>cs. concat (map u16_bytes cs)) cpus))"
| "fb_client_service M s F_DISK a = ret disk_bytes (Inr glibtop_get_disk_s_fb)"
| "fb_client_service M s f a = Inl (Crash ''the client has no function for the feature'')"

text \<open>\<open>_glibtop_init_f_s\<close> and \<open>_glibtop_init_f_p\<close>; where the function and its constants are those of the
  Linux port, so is the definition.\<close>

fun fb_hook :: "fb_machine \<Rightarrow> feature \<Rightarrow> glibtop \<Rightarrow> glibtop" where
  "fb_hook M F_CPU = init_cpu_s_fb"
| "fb_hook M F_MEM = init_mem_s"
| "fb_hook M F_SWAP = init_swap_s"
| "fb_hook M F_UPTIME = init_uptime_s_fb"
| "fb_hook M F_LOADAVG = init_loadavg_s_fb"
| "fb_hook M F_SHM_LIMITS = init_shm_limits_s"
| "fb_hook M F_MSG_LIMITS = init_msg_limits_s_fb"
| "fb_hook M F_SEM_LIMITS = init_sem_limits_s"
| "fb_hook M F_PROCLIST = init_proclist_p"
| "fb_hook M F_PROC_STATE = init_proc_state_p"
| "fb_hook M F_PROC_UID = init_proc_uid_p"
| "fb_hook M F_PROC_MEM = init_proc_mem_p"
| "fb_hook M F_PROC_TIME = init_proc_time_p"
| "fb_hook M F_PROC_SIGNAL = init_proc_signal_p"
| "fb_hook M F_PROC_KERNEL = init_proc_kernel_p (fm_sys M)"
| "fb_hook M F_PROC_SEGMENT = init_proc_segment_p"
| "fb_hook M F_PROC_ARGS = init_proc_args_p"
| "fb_hook M F_PROC_MAP = init_proc_map_p"
| "fb_hook M F_NETLOAD = init_netload_p"
| "fb_hook M F_NETLIST = init_netlist_s"
| "fb_hook M F_PPP = init_ppp_p (fm_i4b M) (fm_acct M) (fm_nlist_ok M)"
| "fb_hook M F_PROC_OPEN_FILES = init_proc_open_files_s"
| "fb_hook M F_PROC_WD = init_proc_wd_s"
| "fb_hook M F_PROC_AFFINITY = init_proc_affinity_s"
| "fb_hook M F_PROC_IO = init_proc_io_p"
| "fb_hook M F_DISK = init_disk_s_fb"
| "fb_hook M f = id"

definition fb_world :: "fb_machine \<Rightarrow> world \<Rightarrow> world" where
  "fb_world M base = base\<lparr>w_suid := suid_fb, w_hook := fb_hook M, w_open_s := (\<lambda>s. Inr (glibtop_open_s_fb (fm_sys M) s))\<rparr>"

section \<open>The laws of the services\<close>

lemma fb_server_struct_size:
  "fb_server_service M s m c f a = Inr (st, ptr) \<Longrightarrow> length st = sizeof_struct f"
  by (cases f) (auto simp: ret_def bind_res_Inr_iff bytes_defs Let_def split: prod.splits option.splits)

lemma fb_client_struct_size:
  "fb_client_service M s f a = Inr (st, ptr) \<Longrightarrow> length st = sizeof_struct f"
  by (cases f) (auto simp: ret_def bind_res_Inr_iff bytes_defs Let_def split: prod.splits option.splits)

lemma fb_server_block_size:
  assumes "fb_server_service M s m c f a = Inr (st, ptr)" and out: "output_size f st ptr \<noteq> 0"
  shows "\<exists>d. ptr = Some d \<and> unat (output_size f st ptr) \<le> length d"
proof -
  have "f \<in> {F_PROCLIST, F_PROC_MAP, F_MOUNTLIST, F_PROC_ARGS}"
    using out by (auto simp: output_size_def split: if_splits)
  then show ?thesis
  proof (elim insertE)
    assume f: "f = F_PROCLIST"
    then obtain b pids where b: "glibtop_get_proclist_p (fm_kvm M) c (fst (arg_list a)) (snd (arg_list a)) = (b, pids)"
      "st = proclist_bytes b" "ptr = map_option u32s_bytes pids"
      using assms(1) by (auto split: prod.splits)
    then have "pl_total b = (case pids of None \<Rightarrow> 0 | Some ps \<Rightarrow> of_nat (length ps) * of_nat 4)"
      by (auto simp: glibtop_get_proclist_p_def Let_def split: option.splits)
    with b out unat_times_le [of _ 4] show ?thesis
      by (cases pids) (simp_all add: f output_size_def proclist_bytes_def mult.commute)
  next
    assume f: "f = F_PROC_MAP"
    then obtain b es c' where b: "glibtop_get_proc_map_p (fm_sys M) (fm_kvm M) (fm_kmem M) m c (arg_pid a) = Some (Inr ((b, es), c'))"
      "st = proc_map_bytes b" "ptr = map_option (\<lambda>es. concat (map map_entry_bytes es)) es"
      using assms(1) by (auto simp: bind_res_Inr_iff split: option.splits)
    then have "pm_total b = (case es of None \<Rightarrow> 0 | Some ps \<Rightarrow> of_nat (length ps) * of_nat 336)"
      by (auto simp: glibtop_get_proc_map_p_def bind_res_Inr_iff Let_def split: option.splits if_splits)
    with b out unat_times_le [of _ 336] length_concat_map [of _ map_entry_bytes 336, OF length_map_entry_bytes] show ?thesis
      by (cases es) (simp_all add: f output_size_def proc_map_bytes_def mult.commute)
  next
    assume f: "f = F_MOUNTLIST"
    then show ?thesis using assms(1) by simp
  next
    assume f: "f = F_PROC_ARGS"
    then obtain b block c' where b: "glibtop_get_proc_args_p (fm_kvm M) m c (arg_pid a) (arg_max a) = Inr ((b, block), c')"
      "st = proc_args_bytes b" "ptr = block"
      using assms(1) by (auto simp: bind_res_Inr_iff)
    have "block \<noteq> None" using out b(3) by (cases block) (simp_all add: f output_size_def)
    with b(1) obtain retval where "block = Some (retval @ [NUL, NUL])" "pa_size b = of_nat (length retval - 1)"
      by (auto simp: glibtop_get_proc_args_p_def bind_res_Inr_iff Let_def split: option.splits if_splits)
    moreover have "unat (of_nat (length retval - 1) + 1 :: 64 word) \<le> length retval - 1 + 1"
      using unat_times_le [of "Suc (length retval - 1)" 1] by (simp add: add.commute)
    ultimately show ?thesis using b by (simp add: f output_size_def proc_args_bytes_def)
  qed simp
qed

interpretation fb_server: slave_service "fb_server_service M s m c" suid_fb for M s m c
  by unfold_locales (blast intro: fb_server_struct_size fb_server_block_size,
      blast intro: fb_server_struct_size fb_server_block_size, auto simp: suid_fb_def server_features_terms_def)

lemma fb_hook_core: "core (fb_hook M f s) = core s"
  by (cases f) (simp_all add: core_set_sysdeps init_cpu_s_fb_def init_mem_s_def init_swap_s_def init_uptime_s_fb_def
      init_loadavg_s_fb_def init_shm_limits_s_def init_msg_limits_s_fb_def init_sem_limits_s_def init_proclist_p_def
      init_proc_state_p_def init_proc_uid_p_def init_proc_mem_p_def init_proc_time_p_def init_proc_signal_p_def
      init_proc_kernel_p_def init_proc_segment_p_def init_proc_args_p_def init_proc_map_p_def init_netload_p_def
      init_netlist_s_def init_ppp_p_def init_proc_open_files_s_def init_proc_wd_s_def init_proc_affinity_s_def
      init_proc_io_p_def init_disk_s_fb_def Let_def)

lemma fb_open_core: "core (glibtop_open_s_fb K s) = core s"
  by (simp add: glibtop_open_s_fb_def core_def Let_def)

interpretation fb_port: sysdeps_port "fb_world M base" for M base
  by unfold_locales (auto simp: fb_world_def fb_hook_core fb_open_core)

section \<open>A client and its server\<close>

lemma fb_hooks_machine: "s_machine (fb_hook M f s) = s_machine s"
  by (cases f) (simp_all add: set_sysdeps_def init_cpu_s_fb_def init_mem_s_def init_swap_s_def init_uptime_s_fb_def
      init_loadavg_s_fb_def init_shm_limits_s_def init_msg_limits_s_fb_def init_sem_limits_s_def init_proclist_p_def
      init_proc_state_p_def init_proc_uid_p_def init_proc_mem_p_def init_proc_time_p_def init_proc_signal_p_def
      init_proc_kernel_p_def init_proc_segment_p_def init_proc_args_p_def init_proc_map_p_def init_netload_p_def
      init_netlist_s_def init_ppp_p_def init_proc_open_files_s_def init_proc_wd_s_def init_proc_affinity_s_def
      init_proc_io_p_def init_disk_s_fb_def Let_def)

text \<open>
  C12. A user's program on FreeBSD asks for something that needs the group of the kernel's memory: its
  client starts the setuid server, which starts with the rights of the file and gives them up
  (\<open>main\<close> of \<open>server.c\<close>), and gets through the pipe exactly what the function \<open>glibtop_get_f_p\<close> returns for
  its argument when it runs with the rights of that server, for each of the fourteen such features of the port, with a parameter of
  at most 16 bytes and a limit for the arguments of a process below 65536. With a greater limit it gets what the
  function returns for the limit modulo 65536. The program itself calls no getter of its own, and the server's effective user and
  group are those of the caller.
\<close>

theorem freebsd_suid:
  assumes start: "suid_server_start_fb True True suid_fb (fb_hook M) c = Inr (server, d)" "s_machine server = Some m"
    and env: "w_server base = None" "w_default_server base = ch # cmd" "ch \<noteq> CHR '':''" "w_pipes base = Some pipes" "0 < w_fork base"
    and f: "suid_fb f" and a: "feature_arg f a'" "length (send_buf a') \<le> PARAM_SIZE" "cut_limit a' a"
    and r: "fb_server_service M server m d f a = Inr (st, ptr)"
    and evs: "smooth evs" "stream_bytes evs = sysdeps_request @ request f a'"
    and stream: "flowing (w_stream base)" "stream_bytes (w_stream base)
      = fst (handle_slave_connection (w_version base) (w_server_version base) suid_fb (fb_server_service M server m d)
          (s_sysdeps server) evs)"
  shows "(\<exists>c'. glibtop_get_l (fb_world M base) (fb_client_service M own_server) f a' fresh_client
        = Inr ((st, reply_block f st ptr), c') \<and> to_server (conn c') = stream_bytes evs)
    \<and> euid d = ruid c \<and> egid d = rgid c"
proof
  let ?W = "fb_world M base"
  have w: "w_suid ?W = suid_fb" "w_server ?W = None" "w_default_server ?W = ch # cmd" "w_pipes ?W = Some pipes" "0 < w_fork ?W"
    "\<And>s. \<exists>s'. w_open_s ?W s = Inr s'" "w_stream ?W = w_stream base" "w_version ?W = w_version base"
    "w_server_version ?W = w_server_version base"
    using env by (simp_all add: fb_world_def)
  have k: "slave_knows f" using f by (auto simp: suid_fb_def slave_knows_def)
  from suid_get [OF fb_port.sysdeps_port_axioms fb_server.slave_service_axioms [folded w(1)] w(2,3) env(3) w(4,5,6)
      f [folded w(1)] k a(1,2) r [folded cut_limit_slave_targ [OF a(3)]] evs, of "s_sysdeps server" "fb_client_service M own_server"] stream
  show "\<exists>c'. glibtop_get_l ?W (fb_client_service M own_server) f a' fresh_client
      = Inr ((st, reply_block f st ptr), c') \<and> to_server (conn c') = stream_bytes evs"
    by (simp add: w(1,7,8,9))
  show "euid d = ruid c \<and> egid d = rgid c"
    using suid_start_fb_lowered [OF start(1)] fb_hooks_machine by metis
qed

definition demo_fb :: fb_machine where
  "demo_fb = \<lparr>fm_sys = demo_fbsd, fm_kvm = demo_kvm, fm_kmem = demo_kmem,
     fm_files = \<lparr>fv_version = 1300000, fv_have_getfile = True, fv_getfile = (\<lambda>_. []), fv_filedesc = (\<lambda>_. None),
       fv_pathname = (\<lambda>_. None), fv_find_program = (\<lambda>_. None), fv_spawn = (\<lambda>_. None), fv_ntop6 = (\<lambda>_. None)\<rparr>,
     fm_net = demo_net, fm_mounts = None, fm_statvfs = (\<lambda>_. None), fm_statfs = (\<lambda>_. None), fm_setsize = 256,
     fm_affinity = (\<lambda>_. None), fm_i4b = False, fm_acct = False, fm_nlist_ok = True, fm_softc = None\<rparr>"

theorem freebsd_suid_witness:
  "\<exists>base c'. glibtop_get_l (fb_world demo_fb base) (fb_client_service demo_fb glibtop_global_server) F_PROC_STATE (ArgPid 7) fresh_client
     = Inr ((proc_state_bytes (proc_state_zero\<lparr>ps_uid := 1000, ps_gid := 100, ps_cmd := ''sh'',
         ps_state := GLIBTOP_PROCESS_INTERRUPTIBLE, ps_flags := sysdeps_proc_state_fb\<rparr>), None), c')"
proof -
  obtain server d where s: "suid_server_start_fb True True suid_fb (fb_hook demo_fb) sgid_kmem = Inr (server, d)"
    by (simp add: suid_server_start_fb_def suid_server_start_bsd_def glibtop_init_p_bsd_def glibtop_open_p_fb_def glibtop_open_p_def sgid_kmem_def
        glibtop_global_server_def setreuid_def setregid_def Let_def)
  obtain m where m: "s_machine server = Some m" using suid_start_fb_lowered [OF s] fb_hooks_machine by metis
  define evs where "evs = [Recv (sysdeps_request @ request F_PROC_STATE (ArgPid 7))]"
  define out where "out = fst (handle_slave_connection (w_version demo_world) (w_server_version demo_world)
    suid_fb (fb_server_service demo_fb server m d) (s_sysdeps server) evs)"
  define base where "base = demo_world\<lparr>w_pipes := Some ((3, 4), (5, 6)), w_fork := 77, w_stream := [Recv out]\<rparr>"
  have out: "out \<noteq> []" by (simp add: out_def handle_slave_connection_def glibtop_send_version_def Let_def case_prod_unfold)
  have 1: "w_server base = None" "w_default_server base = CHR ''/'' # ''usr/libexec/libgtop_server2''"
    "w_pipes base = Some ((3, 4), (5, 6))" "0 < w_fork base" "w_version base = w_version demo_world"
    "w_server_version base = w_server_version demo_world"
    by (simp_all add: base_def demo_world_def)
  have 2: "suid_fb F_PROC_STATE" "feature_arg F_PROC_STATE (ArgPid 7)" "length (send_buf (ArgPid 7)) \<le> PARAM_SIZE"
    "cut_limit (ArgPid 7) (ArgPid 7)"
    by (simp_all add: suid_fb_def PARAM_SIZE_def cut_limit_def)
  have 3: "fb_server_service demo_fb server m d F_PROC_STATE (ArgPid 7)
      = Inr (proc_state_bytes (proc_state_zero\<lparr>ps_uid := 1000, ps_gid := 100, ps_cmd := ''sh'',
          ps_state := GLIBTOP_PROCESS_INTERRUPTIBLE, ps_flags := sysdeps_proc_state_fb\<rparr>), None)"
    by (simp add: ret_def demo_fb_def demo_kvm_def demo_proc_def glibtop_get_proc_state_p_def one_proc_def process_state_fb_def)
  have 4: "smooth evs" "stream_bytes evs = sysdeps_request @ request F_PROC_STATE (ArgPid 7)"
    by (simp_all add: evs_def)
  have 5: "flowing (w_stream base)" "stream_bytes (w_stream base)
      = fst (handle_slave_connection (w_version base) (w_server_version base) suid_fb (fb_server_service demo_fb server m d)
          (s_sysdeps server) evs)"
    unfolding 1(5,6) using out by (simp_all add: base_def out_def [symmetric])
  from freebsd_suid [OF s m 1(1,2) _ 1(3,4) 2 3 4 5, of glibtop_global_server] show ?thesis
    by (auto simp: reply_block_def output_size_def)
qed

end
