(* ===== verification/ObSys.thy ===== *)
theory ObSys
  imports FbMount
begin

unbundle bit_operations_syntax

text \<open>
  The system-wide functions of the OpenBSD port (\<open>sysdeps/openbsd\<close>): \<open>open.c\<close>, \<open>cpu.c\<close>, \<open>mem.c\<close>,
  \<open>swap.c\<close>, \<open>uptime.c\<close>, \<open>loadavg.c\<close>, \<open>shm_limits.c\<close>, \<open>msg_limits.c\<close>, \<open>sem_limits.c\<close>, \<open>sysinfo.c\<close>,
  \<open>disk.c\<close>, \<open>netlist.c\<close>, \<open>mountlist.c\<close>, \<open>fsusage.c\<close>. A definition that would have the name of
  its counterpart in another port ends in \<open>_ob\<close>; where the code is the same in both (the table of the
  signals, the empty disk getter, the list of interfaces), it is the definition of the other port. The call of
  \<open>glibtop_init_s\<close> or \<open>glibtop_init_p\<close> at the head of each getter does nothing, since every getter
  is called behind the initialisation.
\<close>

section \<open>What the kernel says\<close>

record cp_row =
  cp_user :: "64 word"
  cp_nice :: "64 word"
  cp_sys :: "64 word"
  cp_intr :: "64 word"
  cp_idle :: "64 word"

record uvmexp =
  uv_npages :: gint32
  uv_free :: gint32
  uv_wired :: gint32
  uv_pgswapin :: gint32
  uv_pgswapout :: gint32

record swapent =
  se_enabled :: bool           \<comment> \<open>\<open>se_flags & SWF_ENABLE\<close>\<close>
  se_nblks :: gint32
  se_inuse :: gint32

record shminfo_ob =
  ob_shmmax :: gint32
  ob_shmmin :: gint32
  ob_shmmni :: gint32
  ob_shmseg :: gint32
  ob_shmall :: gint32

text \<open>The results of the calls of \<open>sysctl\<close> and its like; \<open>None\<close> where a call fails.\<close>

record obsd =
  ob_ncpu :: "gint32 option"                    \<comment> \<open>\<open>HW_NCPU\<close>\<close>
  ob_cptime :: "cp_row option"                  \<comment> \<open>\<open>KERN_CPTIME\<close>\<close>
  ob_cptime2 :: "nat \<Rightarrow> cp_row option"           \<comment> \<open>\<open>KERN_CPTIME2\<close> of a processor\<close>
  ob_clockrate :: "clockinfo option"
  ob_boottime :: "64 word option"
  ob_now :: "64 word"
  ob_double :: "int \<Rightarrow> 64 word"
  ob_div :: "64 word \<Rightarrow> 64 word \<Rightarrow> 64 word"
  ob_loadavg :: "64 word \<times> 64 word \<times> 64 word"   \<comment> \<open>the array behind \<open>getloadavg\<close>\<close>
  ob_pagesize :: gint32
  ob_uvmexp :: "uvmexp option"
  ob_numbufpages :: "64 word option"            \<comment> \<open>\<open>VFS_BCACHESTAT\<close>\<close>
  ob_nswap :: int                               \<comment> \<open>\<open>swapctl (SWAP_NSWAP)\<close>\<close>
  ob_swaplist :: "swapent list option"          \<comment> \<open>\<open>None\<close>: \<open>swapctl (SWAP_STATS)\<close> does not give \<open>nswap\<close>\<close>
  ob_shminfo :: "shminfo_ob option"
  ob_msginfo :: "msginfo option"
  ob_seminfo :: "seminfo option"
  ob_model :: "string option"                   \<comment> \<open>\<open>HW_MODEL\<close>\<close>
  ob_cpuspeed :: "gint32 option"
  ob_ifnames :: "string list option"
  ob_version :: nat                             \<comment> \<open>the macro \<open>OpenBSD\<close>\<close>

section \<open>open.c and cpu.c\<close>

definition glibtop_open_s_ob :: "obsd \<Rightarrow> glibtop \<Rightarrow> glibtop" where
  "glibtop_open_s_ob K server =
     (let ncpus = (case ob_ncpu K of None \<Rightarrow> 1 | Some n \<Rightarrow> n);
          real_ncpu = sint ncpus - 1
      in server\<lparr>s_real_ncpu := real_ncpu, s_ncpu := min (int GLIBTOP_NCPU - 1) real_ncpu,
           s_os_version_code := ob_version K\<rparr>)"

definition cp_total :: "cp_row \<Rightarrow> 64 word" where
  "cp_total r = cp_user r + cp_nice r + cp_sys r + cp_idle r + cp_intr r"

definition put_row :: "nat \<Rightarrow> cp_row \<Rightarrow> glibtop_cpu \<Rightarrow> glibtop_cpu" where
  "put_row i r buf = buf\<lparr>xcpu_user := (xcpu_user buf)(i := cp_user r), xcpu_nice := (xcpu_nice buf)(i := cp_nice r),
     xcpu_sys := (xcpu_sys buf)(i := cp_sys r), xcpu_idle := (xcpu_idle buf)(i := cp_idle r),
     xcpu_irq := (xcpu_irq buf)(i := cp_intr r), xcpu_total := (xcpu_total buf)(i := cp_total r)\<rparr>"

fun xcpu_loop_ob :: "obsd \<Rightarrow> nat \<Rightarrow> nat \<Rightarrow> glibtop_cpu \<Rightarrow> glibtop_cpu res" where
  \<comment> \<open>with the number of iterations that are left; a block that was freed is used all the same, since the
    pointer is not NULL\<close>
  "xcpu_loop_ob K 0 i buf = Inr buf"
| "xcpu_loop_ob K (Suc left) i buf =
     (case ob_cptime2 K i of
        None \<Rightarrow> Inl (Crash ''cp_times is used after free'')
      | Some r \<Rightarrow>
          (if GLIBTOP_NCPU \<le> i then Inl (Crash ''xcpu index'')
           else xcpu_loop_ob K left (Suc i) (put_row i r buf)))"

definition glibtop_get_cpu_s_ob :: "obsd \<Rightarrow> glibtop \<Rightarrow> glibtop_cpu res" where
  "glibtop_get_cpu_s_ob K server =
     (if sd (s_sysdeps server) F_CPU = 0 then Inr cpu_zero
      else case ob_cptime K of
        None \<Rightarrow> Inr cpu_zero
      | Some cpts \<Rightarrow>
          (case ob_clockrate K of
             None \<Rightarrow> Inr cpu_zero
           | Some ci \<Rightarrow>
               (let buf = cpu_zero\<lparr>cpu_user := cp_user cpts, cpu_nice := cp_nice cpts, cpu_sys := cp_sys cpts,
                      cpu_idle := cp_idle cpts, cpu_irq := cp_intr cpts, cpu_frequency := stat_frequency ci,
                      cpu_total := cp_total cpts\<rparr>;
                    ncpu = s_ncpu server + 1
                in bind_res (xcpu_loop_ob K (nat ncpu) 0 buf) (\<lambda>buf.
                     Inr (buf\<lparr>cpu_flags := if 1 < ncpu then sysdeps_cpu_fb OR sysdeps_cpu_smp_fb else sysdeps_cpu_fb\<rparr>)))))"

section \<open>mem.c and swap.c\<close>

definition sysdeps_mem_ob :: guint64 where
  "sysdeps_mem_ob = flag 0 + flag 1 + flag 2 + flag 3 + flag 4 + flag 5 + flag 6 + flag 7"

definition init_mem_s_ob :: "glibtop \<Rightarrow> glibtop" where
  "init_mem_s_ob server = set_sysdeps F_MEM sysdeps_mem_ob server"

function log2_loop :: "int \<Rightarrow> nat" where
  "log2_loop pagesize = (if 1 < pagesize then Suc (log2_loop (pagesize div 2)) else 0)"
  by pat_completeness auto
termination
  by (relation "measure nat") auto

declare log2_loop.simps [simp del]

text \<open>A page has at least 1024 bytes.\<close>

definition pageshift :: "obsd \<Rightarrow> nat" where
  "pageshift K = log2_loop (sint (ob_pagesize K)) - 10"

definition pagetok :: "obsd \<Rightarrow> 'a::len word \<Rightarrow> 'a word" where
  \<comment> \<open>a shift in the type of the argument\<close>
  "pagetok K n = push_bit (pageshift K) n"

definition kbytes :: "obsd \<Rightarrow> gint32 \<Rightarrow> guint64" where
  "kbytes K n = push_bit 10 (scast (pagetok K n))"

definition mem_zero :: glibtop_mem where
  "mem_zero = \<lparr>mem_flags = 0, mem_total = 0, mem_used = 0, mem_free = 0, mem_shared = 0, mem_buffer = 0, mem_cached = 0,
     mem_user = 0, mem_locked = 0\<rparr>"

definition glibtop_get_mem_s_ob :: "obsd \<Rightarrow> glibtop \<Rightarrow> glibtop_mem" where
  "glibtop_get_mem_s_ob K server =
     (if sd (s_sysdeps server) F_MEM = 0 then mem_zero
      else case (ob_uvmexp K, ob_numbufpages K) of
        (Some uv, Some numbufpages) \<Rightarrow>
          (let total = kbytes K (uv_npages uv);
               free = kbytes K (uv_free uv);
               cached = push_bit 10 (pagetok K numbufpages)
           in \<lparr>mem_flags = sysdeps_mem_ob, mem_total = total, mem_used = kbytes K (uv_npages uv - uv_free uv),
               mem_free = free, mem_shared = 0, mem_buffer = 0, mem_cached = cached, mem_user = total - free - cached - 0,
               mem_locked = kbytes K (uv_wired uv)\<rparr>)
      | _ \<Rightarrow> mem_zero)"

definition sysdeps_swap_ob :: guint64 where
  "sysdeps_swap_ob = flag 0 + flag 1 + flag 2 + flag 3 + flag 4"

definition init_swap_p_ob :: "glibtop \<Rightarrow> glibtop" where
  "init_swap_p_ob server = set_sysdeps F_SWAP sysdeps_swap_ob server"

text \<open>The two static variables (-1 at first) are an argument and a result.\<close>

definition glibtop_get_swap_p_ob :: "obsd \<Rightarrow> glibtop \<Rightarrow> gint32 \<times> gint32 \<Rightarrow> glibtop_swap \<times> gint32 \<times> gint32" where
  "glibtop_get_swap_p_ob K server st =
     (let (swappgsin, swappgsout) = st in
      if sd (s_sysdeps server) F_SWAP = 0 then (swap_zero, st)
      else case ob_uvmexp K of
        None \<Rightarrow> (swap_zero, st)
      | Some uv \<Rightarrow>
          (let buf = (if sint swappgsin < 0 then swap_zero
                      else swap_zero\<lparr>swap_pagein := scast (uv_pgswapin uv - swappgsin),
                             swap_pageout := scast (uv_pgswapout uv - swappgsout)\<rparr>);
               st = (uv_pgswapin uv, uv_pgswapout uv)
           in if ob_nswap K < 0 then (buf, st)
              else case ob_swaplist K of
                None \<Rightarrow> (buf, st)
              | Some swaplist \<Rightarrow>
                  (let on = filter se_enabled swaplist;
                       avail = sum_list (map (\<lambda>e. scast (se_nblks e)) on) * 512;
                       inuse = sum_list (map (\<lambda>e. scast (se_inuse e)) on) * 512
                   in (buf\<lparr>swap_flags := sysdeps_swap_ob, swap_used := inuse, swap_free := avail, swap_total := inuse + avail\<rparr>,
                       st))))"

section \<open>uptime.c and loadavg.c\<close>

definition sysdeps_uptime_ob :: guint64 where "sysdeps_uptime_ob = flag 0 + flag 1 + flag 2"

definition init_uptime_s_ob :: "glibtop \<Rightarrow> glibtop" where
  "init_uptime_s_ob server = set_sysdeps F_UPTIME sysdeps_uptime_ob server"

definition glibtop_get_uptime_s_ob :: "obsd \<Rightarrow> glibtop \<Rightarrow> 64 word glibtop_uptime \<Rightarrow> 64 word glibtop_uptime res" where
  \<comment> \<open>the buffer is not cleared\<close>
  "glibtop_get_uptime_s_ob K server buf =
     (let buf = (case ob_boottime K of
                   None \<Rightarrow> buf
                 | Some sec \<Rightarrow> (if sec = 0 then buf
                     else buf\<lparr>uptime_uptime := ob_double K (sint (ob_now K - sec)), uptime_boot_time := sec\<rparr>))
      in bind_res (glibtop_get_cpu_s_ob K server) (\<lambda>cpu.
           Inr (buf\<lparr>uptime_idletime := ob_div K (ob_div K (ob_double K (uint (cpu_idle cpu)))
                       (ob_double K (uint (cpu_frequency cpu)))) (ob_double K (s_ncpu server + 1)),
                  uptime_flags := sysdeps_uptime_ob\<rparr>)))"

definition init_loadavg_s_ob :: "glibtop \<Rightarrow> glibtop" where
  "init_loadavg_s_ob server = set_sysdeps F_LOADAVG (flag 0) server"

definition glibtop_get_loadavg_s_ob :: "obsd \<Rightarrow> 64 word glibtop_loadavg" where
  "glibtop_get_loadavg_s_ob K =
     \<lparr>la_flags = flag 0, la_loadavg = ob_loadavg K, la_nr_running = 0, la_nr_tasks = 0, la_last_pid = 0\<rparr>"

section \<open>IPC limits\<close>

text \<open>The init functions read the limits once into a static variable, whose members are zero where
  the call has failed; they announce the feature only if it has not.\<close>

definition init_shm_limits_p :: "obsd \<Rightarrow> glibtop \<Rightarrow> glibtop" where
  "init_shm_limits_p K server =
     (if ob_shminfo K = None then server else set_sysdeps F_SHM_LIMITS sysdeps_shm_limits server)"

definition glibtop_get_shm_limits_p :: "obsd \<Rightarrow> glibtop \<Rightarrow> glibtop_shm_limits" where
  "glibtop_get_shm_limits_p K server =
     (if sd (s_sysdeps server) F_SHM_LIMITS = 0
      then \<lparr>shm_flags = 0, shm_shmmax = 0, shm_shmmin = 0, shm_shmmni = 0, shm_shmseg = 0, shm_shmall = 0\<rparr>
      else case ob_shminfo K of
        None \<Rightarrow> \<lparr>shm_flags = sysdeps_shm_limits, shm_shmmax = 0, shm_shmmin = 0, shm_shmmni = 0, shm_shmseg = 0, shm_shmall = 0\<rparr>
      | Some i \<Rightarrow>
          \<lparr>shm_flags = sysdeps_shm_limits, shm_shmmax = scast (ob_shmmax i), shm_shmmin = scast (ob_shmmin i),
           shm_shmmni = scast (ob_shmmni i), shm_shmseg = scast (ob_shmseg i), shm_shmall = scast (ob_shmall i)\<rparr>)"

definition sysdeps_msg_limits_ob :: guint64 where
  "sysdeps_msg_limits_ob = flag 2 + flag 4 + flag 3 + flag 6 + flag 5"

definition init_msg_limits_p :: "obsd \<Rightarrow> glibtop \<Rightarrow> glibtop" where
  "init_msg_limits_p K server =
     (if ob_msginfo K = None then server else set_sysdeps F_MSG_LIMITS sysdeps_msg_limits_ob server)"

definition msg_zero :: glibtop_msg_limits where
  "msg_zero = \<lparr>msg_flags = 0, msg_msgpool = 0, msg_msgmap = 0, msg_msgmax = 0, msg_msgmnb = 0, msg_msgmni = 0,
     msg_msgssz = 0, msg_msgtql = 0\<rparr>"

definition glibtop_get_msg_limits_p :: "obsd \<Rightarrow> glibtop \<Rightarrow> glibtop_msg_limits" where
  "glibtop_get_msg_limits_p K server =
     (if sd (s_sysdeps server) F_MSG_LIMITS = 0 then msg_zero
      else case ob_msginfo K of
        None \<Rightarrow> msg_zero\<lparr>msg_flags := sysdeps_msg_limits_ob\<rparr>
      | Some i \<Rightarrow>
          msg_zero\<lparr>msg_flags := sysdeps_msg_limits_ob, msg_msgmax := scast (msgmax i), msg_msgmni := scast (msgmni i),
            msg_msgmnb := scast (msgmnb i), msg_msgtql := scast (msgtql i), msg_msgssz := scast (msgtql i)\<rparr>)"

definition sysdeps_sem_limits_ob :: guint64 where
  "sysdeps_sem_limits_ob = flag 1 + flag 2 + flag 3 + flag 4 + flag 5 + flag 6 + flag 7 + flag 8 + flag 9"

definition init_sem_limits_p :: "obsd \<Rightarrow> glibtop \<Rightarrow> glibtop" where
  "init_sem_limits_p K server =
     (if ob_seminfo K = None then server else set_sysdeps F_SEM_LIMITS sysdeps_sem_limits_ob server)"

definition sem_zero :: glibtop_sem_limits where
  "sem_zero = \<lparr>sem_flags = 0, sem_semmap = 0, sem_semmni = 0, sem_semmns = 0, sem_semmnu = 0, sem_semmsl = 0,
     sem_semopm = 0, sem_semume = 0, sem_semusz = 0, sem_semvmx = 0, sem_semaem = 0\<rparr>"

definition glibtop_get_sem_limits_p :: "obsd \<Rightarrow> glibtop \<Rightarrow> glibtop_sem_limits" where
  \<comment> \<open>\<open>semume\<close> and \<open>semusz\<close> are announced and not set\<close>
  "glibtop_get_sem_limits_p K server =
     (if sd (s_sysdeps server) F_SEM_LIMITS = 0 then sem_zero
      else case ob_seminfo K of
        None \<Rightarrow> sem_zero\<lparr>sem_flags := sysdeps_sem_limits_ob\<rparr>
      | Some i \<Rightarrow>
          sem_zero\<lparr>sem_flags := sysdeps_sem_limits_ob, sem_semmni := scast (semmni i), sem_semmns := scast (semmns i),
            sem_semmnu := scast (semmnu i), sem_semmsl := scast (semmsl i), sem_semopm := scast (semopm i),
            sem_semvmx := scast (semvmx i), sem_semaem := scast (semaem i)\<rparr>)"

section \<open>sysinfo.c\<close>

definition init_sysinfo_ob :: "obsd \<Rightarrow> glibtop_sysinfo \<Rightarrow> glibtop_sysinfo" where
  "init_sysinfo_ob K sysinfo =
     (if si_flags sysinfo \<noteq> 0 then sysinfo
      else (let ncpus = (case ob_ncpu K of None \<Rightarrow> 1 | Some n \<Rightarrow> n);
                model = (case ob_model K of None \<Rightarrow> None | Some bs \<Rightarrow> if bs = [] then None else Some (c_str bs));
                mhz = (case ob_cpuspeed K of None \<Rightarrow> 0 | Some s \<Rightarrow> s);
                n = min GLIBTOP_NCPU (unat ncpus)
            in \<lparr>si_flags = flag 1, si_ncpu = of_nat n, si_cpuinfo = map (cpuinfo_entry_fb model mhz) [0..<n]\<rparr>))"

definition glibtop_get_sysinfo_s_ob :: "obsd \<Rightarrow> glibtop_sysinfo \<Rightarrow> glibtop_sysinfo \<times> glibtop_sysinfo" where
  "glibtop_get_sysinfo_s_ob K sysinfo = (let si = init_sysinfo_ob K sysinfo in (si, si))"

section \<open>netlist.c\<close>

definition glibtop_get_netlist_s_ob :: "obsd \<Rightarrow> glibtop_netlist \<times> string list" where
  "glibtop_get_netlist_s_ob K =
     (let devices = (case ob_ifnames K of None \<Rightarrow> [] | Some ns \<Rightarrow> ns)
      in (\<lparr>nli_flags = sysdeps_netlist, nli_number = of_nat (length devices)\<rparr>, devices))"

section \<open>mountlist.c and fsusage.c\<close>

definition ignored_types_ob :: "string list" where
  "ignored_types_ob = [''autofs'', ''devfs'', ''fusectl'', ''linprocfs'', ''linsysfs'', ''mfs'', ''none'', ''nfs'',
     ''nullfs'', ''nwfs'', ''portalfs'', ''proc'', ''procfs'', ''smbfs'', ''tmpfs'', ''unionfs'', ''unknown'']"

definition ignore_mount_entry_ob :: "mount_entry_fb \<Rightarrow> bool" where
  "ignore_mount_entry_ob me \<longleftrightarrow> bsearch (strcmp (me_type me)) ignored_types_ob 0 (length ignored_types_ob) \<noteq> None"

definition glibtop_get_mountlist_s_ob ::
  "statfs list option \<Rightarrow> gint32 \<Rightarrow> glibtop_mountlist \<times> glibtop_mountentry list option" where
  "glibtop_get_mountlist_s_ob = mountlist_bsd ignore_mount_entry_ob"

definition get_fsusage_read_write_ob :: "(string \<Rightarrow> statfs option) \<Rightarrow> string \<Rightarrow> glibtop_fsusage \<Rightarrow> glibtop_fsusage" where
  "get_fsusage_read_write_ob statfs path buf =
     (case statfs path of
        None \<Rightarrow> buf
      | Some sfs \<Rightarrow> buf\<lparr>fu_read := f_syncreads sfs + f_asyncreads sfs, fu_write := f_syncwrites sfs + f_asyncwrites sfs,
                      fu_flags := fu_flags buf OR (flag 6 OR flag 7)\<rparr>)"

definition glibtop_get_fsusage_s_ob ::
  "(string \<Rightarrow> statvfs option) \<Rightarrow> (string \<Rightarrow> statfs option) \<Rightarrow> string \<Rightarrow> glibtop_fsusage" where
  "glibtop_get_fsusage_s_ob statvfs statfs path =
     (case statvfs path of
        None \<Rightarrow> fsusage_zero
      | Some fsd \<Rightarrow>
          get_fsusage_read_write_ob statfs path
            (fsusage_zero\<lparr>fu_block_size := ucast (f_bsize fsd), fu_blocks := f_blocks fsd, fu_bfree := f_bfree fsd,
               fu_bavail := (if f_bfree fsd < f_bavail fsd then 0 else f_bavail fsd),
               fu_files := f_files fsd, fu_ffree := f_ffree fsd, fu_flags := sysdeps_fsusage\<rparr>))"

lemma ignored_searched_ob:
  "list_all (\<lambda>t. bsearch (strcmp t) ignored_types_ob 0 (length ignored_types_ob) \<noteq> None \<longleftrightarrow> t \<noteq> ''nfs'') ignored_types_ob"
  by code_simp

lemma mountlist_ob_list:
  assumes "\<forall>m\<in>set fs. NUL \<notin> set (f_fstypename m)"
  shows "glibtop_get_mountlist_s_ob (Some fs) all_fs = mountlist_result fs
    (map listed_entry (filter (\<lambda>m. all_fs \<noteq> 0 \<or> f_fstypename m \<notin> set ignored_types_ob - {''nfs''}) fs))"
proof -
  have tab: "\<forall>s\<in>set ignored_types_ob. NUL \<notin> set s" by (simp add: ignored_types_ob_def)
  have "\<forall>m\<in>set fs. ignore_mount_entry_ob (listed_entry_fb m) \<longleftrightarrow> f_fstypename m \<in> set ignored_types_ob - {''nfs''}"
    using assms bsearch_strcmp [OF _ tab ignored_searched_ob] by (simp add: ignore_mount_entry_ob_def listed_entry_fb_def)
  from mountlist_bsd_list [OF this, of all_fs] show ?thesis by (simp add: glibtop_get_mountlist_s_ob_def)
qed

section \<open>Processors\<close>

lemma xcpu_loop_ob_rows:
  assumes "\<forall>j. i \<le> j \<and> j < i + left \<longrightarrow> ob_cptime2 K j = Some (row j)" and "i + left \<le> GLIBTOP_NCPU"
  shows "xcpu_loop_ob K left i buf = Inr (fold (\<lambda>j. put_row j (row j)) [i..<i + left] buf)"
  using assms
proof (induction left arbitrary: i buf)
  case (Suc left)
  have "ob_cptime2 K i = Some (row i)" using Suc.prems(1) by simp
  with Suc.IH [of "Suc i" "put_row i (row i) buf"] Suc.prems show ?case by (simp add: upt_rec)
qed simp

lemma xcpu_loop_ob_freed:
  assumes "i \<le> j" "j < i + left" "ob_cptime2 K j = None" "i + left \<le> GLIBTOP_NCPU"
  shows "xcpu_loop_ob K left i buf = Inl (Crash ''cp_times is used after free'')"
  using assms
proof (induction left arbitrary: i buf)
  case (Suc left)
  show ?case
  proof (cases "i = j")
    case False
    with Suc show ?thesis by (simp split: option.split)
  qed (use Suc.prems in simp)
qed simp

lemma fold_rows:
  fixes row :: "nat \<Rightarrow> cp_row"
  defines "F n buf \<equiv> fold (\<lambda>j. put_row j (row j)) [0..<n] buf"
  shows "xcpu_user (F n buf) j = (if j < n then cp_user (row j) else xcpu_user buf j)"
    and "xcpu_idle (F n buf) j = (if j < n then cp_idle (row j) else xcpu_idle buf j)"
    and "xcpu_total (F n buf) j = (if j < n then cp_total (row j) else xcpu_total buf j)"
    and "cpu_total (F n buf) = cpu_total buf" "cpu_idle (F n buf) = cpu_idle buf"
  unfolding F_def by (induction n) (auto simp: put_row_def)

text \<open>
  The processors on OpenBSD: where the kernel answers for every processor, at most 1024 of them, each has
  the counters of its own row and their sum, and the members behind them are zero. Where the kernel
  refuses one of them, the code frees the block for its answer, sees that the pointer is not NULL and reads
  from the block.
\<close>

theorem cpu_ob_spec:
  assumes "ob_ncpu K = Some n" "1 \<le> sint n" and "ob_cptime K = Some c" "ob_clockrate K = Some ci"
    and "sd (s_sysdeps server) F_CPU \<noteq> 0"
    and "m = min GLIBTOP_NCPU (nat (sint n))"
  shows "(case glibtop_get_cpu_s_ob K (glibtop_open_s_ob K server) of
      Inr b \<Rightarrow> (\<forall>i<m. \<exists>r. ob_cptime2 K i = Some r \<and> xcpu_user b i = cp_user r \<and> xcpu_idle b i = cp_idle r
            \<and> xcpu_total b i = cp_total r)
          \<and> (\<forall>i\<ge>m. xcpu_total b i = 0) \<and> cpu_total b = cp_total c \<and> cpu_idle b = cp_idle c
    | Inl e \<Rightarrow> e = Crash ''cp_times is used after free'' \<and> (\<exists>i<m. ob_cptime2 K i = None))"
proof -
  define server' where "server' = glibtop_open_s_ob K server"
  have s: "s_ncpu server' + 1 = int m" "sd (s_sysdeps server') F_CPU \<noteq> 0"
    using assms by (auto simp: server'_def glibtop_open_s_ob_def Let_def)
  show ?thesis
  proof (cases "\<exists>i<m. ob_cptime2 K i = None")
    case True
    then obtain i where "i < m" "ob_cptime2 K i = None" by blast
    with xcpu_loop_ob_freed [of 0 i m K] assms s True show ?thesis
      by (simp add: glibtop_get_cpu_s_ob_def server'_def [symmetric] Let_def)
  next
    case False
    define row where "row j = the (ob_cptime2 K j)" for j
    from False have row: "\<forall>j<m. ob_cptime2 K j = Some (row j)" by (auto simp: row_def)
    then have "xcpu_loop_ob K m 0 buf = Inr (fold (\<lambda>j. put_row j (row j)) [0..<m] buf)" for buf
      using xcpu_loop_ob_rows [of 0 m K row] assms(6) by simp
    then show ?thesis using assms(3,4) s row
      by (simp add: glibtop_get_cpu_s_ob_def server'_def [symmetric] Let_def fold_rows cpu_zero_def)
  qed
qed

definition demo_row :: "64 word \<Rightarrow> cp_row" where
  "demo_row n = \<lparr>cp_user = n, cp_nice = 0, cp_sys = 1, cp_intr = 0, cp_idle = 5\<rparr>"

definition demo_obsd :: obsd where
  "demo_obsd = \<lparr>ob_ncpu = Some 2, ob_cptime = Some (demo_row 7), ob_cptime2 = (\<lambda>i. if i < 2 then Some (demo_row (of_nat i)) else None),
     ob_clockrate = Some \<lparr>ci_hz = 100, ci_stathz = 128\<rparr>, ob_boottime = None, ob_now = 0, ob_double = (\<lambda>_. 0), ob_div = (\<lambda>_ _. 0),
     ob_loadavg = (0, 0, 0), ob_pagesize = 4096, ob_uvmexp = None, ob_numbufpages = None, ob_nswap = 0, ob_swaplist = None,
     ob_shminfo = None, ob_msginfo = None, ob_seminfo = None, ob_model = None, ob_cpuspeed = None, ob_ifnames = None,
     ob_version = 202304\<rparr>"

theorem cpu_ob_spec_witness:
  "(\<exists>b. glibtop_get_cpu_s_ob demo_obsd (glibtop_open_s_ob demo_obsd (init_cpu_s_fb glibtop_global_server)) = Inr b
      \<and> xcpu_total b 1 = 7 \<and> xcpu_total b 2 = 0)
   \<and> (\<exists>e. glibtop_get_cpu_s_ob (demo_obsd\<lparr>ob_ncpu := Some 3\<rparr>)
        (glibtop_open_s_ob (demo_obsd\<lparr>ob_ncpu := Some 3\<rparr>) (init_cpu_s_fb glibtop_global_server)) = Inl e)"
proof -
  let ?s = "init_cpu_s_fb glibtop_global_server" and ?K = "demo_obsd\<lparr>ob_ncpu := Some 3\<rparr>"
  have sd: "sd (s_sysdeps ?s) F_CPU \<noteq> 0"
    by (simp add: init_cpu_s_fb_def set_sysdeps_def glibtop_global_server_def sysdeps_cpu_fb_def)
  have d: "ob_ncpu demo_obsd = Some 2" "ob_cptime demo_obsd = Some (demo_row 7)" "ob_clockrate demo_obsd = Some \<lparr>ci_hz = 100, ci_stathz = 128\<rparr>"
    "ob_ncpu ?K = Some 3" "ob_cptime ?K = Some (demo_row 7)" "ob_clockrate ?K = Some \<lparr>ci_hz = 100, ci_stathz = 128\<rparr>"
    by (simp_all add: demo_obsd_def)
  have n: "ob_cptime2 demo_obsd 1 = Some (demo_row 1)" "ob_cptime2 demo_obsd 0 = Some (demo_row 0)" "ob_cptime2 ?K 2 = None"
    by (simp_all add: demo_obsd_def)
  from cpu_ob_spec [OF d(1) _ d(2,3) sd refl] n(1,2)
  have 1: "\<exists>b. glibtop_get_cpu_s_ob demo_obsd (glibtop_open_s_ob demo_obsd ?s) = Inr b \<and> xcpu_total b 1 = 7 \<and> xcpu_total b 2 = 0"
    by (auto simp: cp_total_def demo_row_def less_2_cases_iff split: sum.splits)
  from cpu_ob_spec [OF d(4) _ d(5,6) sd refl] n(3)
  have 2: "\<exists>e. glibtop_get_cpu_s_ob ?K (glibtop_open_s_ob ?K ?s) = Inl e"
    by (auto split: sum.splits dest!: spec [of _ 2])
  from 1 2 show ?thesis by blast
qed

end
