(* ===== verification/ObProc.thy ===== *)
theory ObProc
  imports FbProc ObSys
begin

unbundle bit_operations_syntax

text \<open>
  What the OpenBSD port says about processes (\<open>sysdeps/openbsd\<close>): \<open>suid_open.c\<close>, \<open>proclist.c\<close>,
  \<open>procstate.c\<close>, \<open>procuid.c\<close>, \<open>procmem.c\<close>, \<open>proctime.c\<close>, \<open>procsignal.c\<close>, \<open>prockernel.c\<close>,
  \<open>procsegment.c\<close>, \<open>procargs.c\<close>, \<open>procio.c\<close>, \<open>procwd.c\<close>. Entering and leaving the rights of the setuid
  server is the code of \<open>FbProc\<close>.
\<close>

section \<open>suid\_open.c\<close>

definition glibtop_open_p_ob :: "bool \<Rightarrow> open_p" where
  "glibtop_open_p_ob kvm_ok server c =
     (if \<not> kvm_ok then Inl (Exit ''kvm_openfiles'') else glibtop_open_p server c)"

definition suid_server_start_ob ::
  "bool \<Rightarrow> bool \<Rightarrow> (feature \<Rightarrow> bool) \<Rightarrow> (feature \<Rightarrow> glibtop \<Rightarrow> glibtop) \<Rightarrow> cred \<Rightarrow> (glibtop \<times> cred) res" where
  "suid_server_start_ob uname kvm_ok = suid_server_start_bsd uname (glibtop_open_p_ob kvm_ok)"

section \<open>The kernel's view of processes\<close>

text \<open>The members of \<open>struct kinfo_proc\<close> that the code reads, with their widths.\<close>

record kinfo_ob =
  p_pid :: gint32
  p_ppid :: gint32
  p_pgid :: gint32            \<comment> \<open>\<open>p__pgid\<close>\<close>
  p_tpgid :: gint32
  p_ruid :: guint32
  p_svuid :: guint32
  p_rgid :: guint32
  p_svgid :: guint32
  p_comm :: string
  p_stat :: nat
  p_nice :: "8 word"
  p_priority :: "8 word"
  p_flag :: gint32
  p_vm_tsize :: gint32
  p_vm_dsize :: gint32
  p_vm_ssize :: gint32
  p_vm_rssize :: gint32
  p_uru_maxrss :: guint64
  p_uru_ixrss :: guint64
  p_uru_minflt :: guint64
  p_uru_majflt :: guint64
  p_rtime_sec :: guint32
  p_rtime_usec :: guint32
  p_uutime_sec :: guint32
  p_uutime_usec :: guint32
  p_ustime_sec :: guint32
  p_ustime_usec :: guint32
  p_uctime_sec :: guint32
  p_uctime_usec :: guint32
  p_ustart_sec :: guint64
  p_siglist :: guint32
  p_sigmask :: guint32
  p_sigignore :: guint32
  p_sigcatch :: guint32
  p_wchan :: guint64
  p_wmesg :: string
  p_vmspace :: guint64

text \<open>\<open>kvm_getprocs (kd, op, arg, ...)\<close> gives a block of \<open>count\<close> entries, or NULL.\<close>

record kvm_ob =
  ok_getprocs :: "cred \<Rightarrow> gint32 \<Rightarrow> gint32 \<Rightarrow> kinfo_ob list option"
  ok_getargv :: "cred \<Rightarrow> kinfo_ob \<Rightarrow> gint32 \<Rightarrow> string list option"

definition kern_proc_pid :: "kvm_ob \<Rightarrow> cred \<Rightarrow> gint32 \<Rightarrow> kinfo_ob list option" where
  "kern_proc_pid V c pid = ok_getprocs V c 1 pid"

definition entry_0 :: "kinfo_ob list option \<Rightarrow> kinfo_ob option res" where
  \<comment> \<open>\<open>pinfo [0]\<close> behind a test for NULL alone: a block of no entries is read behind its end\<close>
  "entry_0 pinfo =
     (case pinfo of
        None \<Rightarrow> Inr None
      | Some [] \<Rightarrow> Inl (Crash ''pinfo [0] of no entries'')
      | Some (p # ps) \<Rightarrow> Inr (Some p))"

definition entry_counted :: "kinfo_ob list option \<Rightarrow> kinfo_ob option" where
  \<comment> \<open>\<open>(pinfo == NULL) || (count < 1)\<close> is \<open>None\<close>\<close>
  "entry_counted pinfo = (case pinfo of Some (p # ps) \<Rightarrow> Some p | _ \<Rightarrow> None)"

section \<open>procstate.c and procuid.c\<close>

abbreviation (input) "SIDL_OB \<equiv> 1 :: nat"
abbreviation (input) "SRUN_OB \<equiv> 2 :: nat"
abbreviation (input) "SSLEEP_OB \<equiv> 3 :: nat"
abbreviation (input) "SSTOP_OB \<equiv> 4 :: nat"
abbreviation (input) "SZOMB_OB \<equiv> 5 :: nat"
abbreviation (input) "SONPROC_OB \<equiv> 7 :: nat"

definition sysdeps_proc_state_ob :: guint64 where "sysdeps_proc_state_ob = flag 0 + flag 2 + flag 3"

definition init_proc_state_p_ob :: "glibtop \<Rightarrow> glibtop" where
  "init_proc_state_p_ob server = set_sysdeps F_PROC_STATE sysdeps_proc_state_ob server"

definition process_state_ob :: "nat \<Rightarrow> 32 word option" where
  \<comment> \<open>\<open>None\<close> is the default of the \<open>switch\<close>\<close>
  "process_state_ob st =
     (if st = SIDL_OB then Some 0
      else if st = SRUN_OB then Some GLIBTOP_PROCESS_RUNNING
      else if st = SSLEEP_OB then Some GLIBTOP_PROCESS_INTERRUPTIBLE
      else if st = SSTOP_OB then Some GLIBTOP_PROCESS_STOPPED
      else if st = SZOMB_OB then Some GLIBTOP_PROCESS_ZOMBIE
      else None)"

definition glibtop_get_proc_state_p_ob :: "kvm_ob \<Rightarrow> cred \<Rightarrow> gint32 \<Rightarrow> glibtop_proc_state res" where
  "glibtop_get_proc_state_p_ob V c pid =
     (if pid = 0 then Inr proc_state_zero
      else bind_res (entry_0 (kern_proc_pid V c pid)) (\<lambda>e.
        case e of
          None \<Rightarrow> Inr proc_state_zero
        | Some p \<Rightarrow>
            (let buf = proc_state_zero\<lparr>ps_cmd := g_strlcpy (p_comm p) 40, ps_uid := p_svuid p, ps_gid := p_svgid p,
                         ps_flags := sysdeps_proc_state_ob\<rparr>
             in Inr (case process_state_ob (p_stat p) of
                       None \<Rightarrow> buf
                     | Some st \<Rightarrow> buf\<lparr>ps_state := st, ps_flags := ps_flags buf OR flag 1\<rparr>))))"

definition sysdeps_proc_uid_ob :: guint64 where
  "sysdeps_proc_uid_ob = flag 0 + flag 1 + flag 2 + flag 3 + flag 8 + flag 9 + flag 10 + flag 13 + flag 14 + flag 15"

definition init_proc_uid_p_ob :: "glibtop \<Rightarrow> glibtop" where
  "init_proc_uid_p_ob server = set_sysdeps F_PROC_UID sysdeps_proc_uid_ob server"

definition glibtop_get_proc_uid_p_ob :: "kvm_ob \<Rightarrow> cred \<Rightarrow> gint32 \<Rightarrow> glibtop_proc_uid res" where
  "glibtop_get_proc_uid_p_ob V c pid =
     (if pid = 0 then Inr proc_uid_zero
      else bind_res (entry_0 (kern_proc_pid V c pid)) (\<lambda>e.
        case e of
          None \<Rightarrow> Inr proc_uid_zero
        | Some p \<Rightarrow>
            Inr (proc_uid_zero\<lparr>pu_uid := p_ruid p, pu_euid := p_svuid p, pu_gid := p_rgid p, pu_egid := p_svgid p,
                   pu_pid := p_pid p, pu_ppid := p_ppid p, pu_pgrp := p_pgid p, pu_tpgid := p_tpgid p,
                   pu_nice := ucast (p_nice p), pu_priority := ucast (p_priority p), pu_flags := sysdeps_proc_uid_ob\<rparr>)))"

section \<open>procmem.c and procsegment.c\<close>

definition sysdeps_proc_mem_ob :: guint64 where
  "sysdeps_proc_mem_ob = flag 0 + flag 1 + flag 2 + flag 4 + flag 5"

definition sysdeps_proc_mem_share_ob :: guint64 where "sysdeps_proc_mem_share_ob = flag 3"

definition init_proc_mem_p_ob :: "glibtop \<Rightarrow> glibtop" where
  "init_proc_mem_p_ob server = set_sysdeps F_PROC_MEM (sysdeps_proc_mem_ob OR sysdeps_proc_mem_share_ob) server"

definition glibtop_get_proc_mem_p_ob :: "obsd \<Rightarrow> kvm_ob \<Rightarrow> glibtop \<Rightarrow> cred \<Rightarrow> gint32 \<Rightarrow> glibtop_proc_mem" where
  "glibtop_get_proc_mem_p_ob K V server c pid =
     (if sd (s_sysdeps server) F_PROC_MEM = 0 then proc_mem_zero
      else if pid = 0 then proc_mem_zero
      else case entry_counted (kern_proc_pid V c pid) of
        None \<Rightarrow> proc_mem_zero
      | Some p \<Rightarrow>
          (let vsize = kbytes K (p_vm_tsize p + p_vm_dsize p + p_vm_ssize p);
               rss = kbytes K (p_vm_rssize p)
           in proc_mem_zero\<lparr>pm_rss_rlim := p_uru_maxrss p, pm_vsize := vsize, ProcInfo.pm_size := vsize, pm_resident := rss,
                pm_rss := rss, pm_share := p_uru_ixrss p,
                ProcInfo.pm_flags := sysdeps_proc_mem_ob OR sysdeps_proc_mem_share_ob\<rparr>))"

definition init_proc_segment_p_ob :: "glibtop \<Rightarrow> glibtop" where
  "init_proc_segment_p_ob server = set_sysdeps F_PROC_SEGMENT sysdeps_proc_segment_fb server"

definition glibtop_get_proc_segment_p_ob :: "obsd \<Rightarrow> kvm_ob \<Rightarrow> cred \<Rightarrow> gint32 \<Rightarrow> glibtop_proc_segment res" where
  \<comment> \<open>products of ints, 32 bits wide\<close>
  "glibtop_get_proc_segment_p_ob K V c pid =
     (if pid = 0 then Inr proc_segment_zero
      else bind_res (entry_0 (kern_proc_pid V c pid)) (\<lambda>e.
        case e of
          None \<Rightarrow> Inr proc_segment_zero
        | Some p \<Rightarrow>
            Inr (proc_segment_zero\<lparr>pg_text_rss := scast (p_vm_tsize p * ob_pagesize K),
                   pg_data_rss := scast (p_vm_dsize p * ob_pagesize K), pg_flags := sysdeps_proc_segment_fb\<rparr>)))"

section \<open>proctime.c\<close>

definition proc_clockrate :: "obsd \<Rightarrow> guint32" where
  \<comment> \<open>the static variable behind the init function\<close>
  "proc_clockrate K =
     (let clockrate = (case ob_clockrate K of None \<Rightarrow> 0 | Some ci \<Rightarrow> ci_hz ci) in if clockrate = 0 then 1 else clockrate)"

definition init_proc_time_p_ob :: "glibtop \<Rightarrow> glibtop" where
  "init_proc_time_p_ob server = set_sysdeps F_PROC_TIME (sysdeps_proc_time_fb OR sysdeps_proc_time_user) server"

definition usecs :: "guint32 \<Rightarrow> guint32 \<Rightarrow> guint64" where
  \<comment> \<open>a sum of products of 32 bits, widened when it is stored\<close>
  "usecs sec usec = ucast (sec * 1000000 + usec)"

definition glibtop_get_proc_time_p_ob :: "obsd \<Rightarrow> kvm_ob \<Rightarrow> cred \<Rightarrow> gint32 \<Rightarrow> glibtop_proc_time res" where
  "glibtop_get_proc_time_p_ob K V c pid =
     (if pid = 0 then Inr proc_time_zero
      else bind_res (entry_0 (kern_proc_pid V c pid)) (\<lambda>e.
        case e of
          None \<Rightarrow> Inr proc_time_zero
        | Some p \<Rightarrow>
            (let clockrate = proc_clockrate K
             in Inr (proc_time_zero\<lparr>
                  pt_rtime := ucast (p_rtime_sec p * clockrate + p_rtime_usec p * clockrate div 1000000),
                  pt_frequency := ucast clockrate,
                  pt_utime := usecs (p_uutime_sec p) (p_uutime_usec p),
                  pt_stime := usecs (p_ustime_sec p) (p_ustime_usec p),
                  pt_cutime := usecs (p_uctime_sec p) (p_uctime_usec p),
                  pt_cstime := 0, pt_start_time := p_ustart_sec p,
                  pt_flags := sysdeps_proc_time_fb OR sysdeps_proc_time_user\<rparr>))))"

section \<open>procsignal.c and prockernel.c\<close>

definition init_proc_signal_p_ob :: "glibtop \<Rightarrow> glibtop" where
  "init_proc_signal_p_ob server = set_sysdeps F_PROC_SIGNAL sysdeps_proc_signal server"

definition glibtop_get_proc_signal_p_ob :: "kvm_ob \<Rightarrow> cred \<Rightarrow> gint32 \<Rightarrow> glibtop_proc_signal res" where
  "glibtop_get_proc_signal_p_ob V c pid =
     (if pid = 0 then Inr proc_signal_zero
      else bind_res (entry_0 (kern_proc_pid V c pid)) (\<lambda>e.
        case e of
          None \<Rightarrow> Inr proc_signal_zero
        | Some p \<Rightarrow>
            Inr \<lparr>pi_flags = sysdeps_proc_signal, pi_signal = ucast (p_siglist p), pi_blocked = ucast (p_sigmask p),
                 pi_sigignore = ucast (p_sigignore p), pi_sigcatch = ucast (p_sigcatch p)\<rparr>))"

definition sysdeps_proc_kernel_pstats_ob :: guint64 where
  "sysdeps_proc_kernel_pstats_ob = flag 0 + flag 1 + flag 2"

definition init_proc_kernel_p_ob :: "glibtop \<Rightarrow> glibtop" where
  "init_proc_kernel_p_ob server =
     set_sysdeps F_PROC_KERNEL (sysdeps_proc_kernel_pstats_ob OR sysdeps_proc_kernel_wchan) server"

definition glibtop_get_proc_kernel_p_ob ::
  "kvm_ob \<Rightarrow> glibtop \<Rightarrow> glibtop_machine \<Rightarrow> cred \<Rightarrow> gint32 \<Rightarrow> (glibtop_proc_kernel \<times> cred) res" where
  \<comment> \<open>the first test looks at \<open>sysdeps.proc_time\<close>\<close>
  "glibtop_get_proc_kernel_p_ob V server m c pid =
     (if sd (s_sysdeps server) F_PROC_TIME = 0 then Inr (proc_kernel_zero, c)
      else if pid = 0 then Inr (proc_kernel_zero, c)
      else
        let c = glibtop_suid_enter_fb m c; pinfo = kern_proc_pid V c pid in
        bind_res (glibtop_suid_leave_fb m c) (\<lambda>c.
        bind_res (entry_0 pinfo) (\<lambda>e.
        case e of
          None \<Rightarrow> Inr (proc_kernel_zero, c)
        | Some p \<Rightarrow>
            (let buf = proc_kernel_zero\<lparr>pk_nwchan := p_wchan p, pk_flags := flag 7\<rparr>;
                 buf = (if p_wchan p \<noteq> 0 \<and> p_wmesg p \<noteq> []
                        then buf\<lparr>pk_wchan := g_strlcpy (p_wmesg p) 40, pk_flags := pk_flags buf OR flag 8\<rparr> else buf)
             in Inr (buf\<lparr>pk_k_flags := scast (p_flag p), pk_min_flt := p_uru_minflt p, pk_maj_flt := p_uru_majflt p,
                       pk_flags := pk_flags buf OR sysdeps_proc_kernel_pstats_ob\<rparr>, c)))))"

section \<open>procargs.c, procio.c and procwd.c\<close>

abbreviation (input) "P_SYSTEM \<equiv> 0x200 :: gint32"

definition init_proc_args_p_ob :: "glibtop \<Rightarrow> glibtop" where
  "init_proc_args_p_ob server = set_sysdeps F_PROC_ARGS sysdeps_proc_args server"

definition glibtop_get_proc_args_p_ob ::
  "kvm_ob \<Rightarrow> glibtop_machine \<Rightarrow> cred \<Rightarrow> gint32 \<Rightarrow> gint32 \<Rightarrow> ((glibtop_proc_args \<times> string option) \<times> cred) res" where
  "glibtop_get_proc_args_p_ob V m c pid max_len =
     (let zero = \<lparr>pa_flags = 0, pa_size = 0\<rparr> in
      if sint pid < 2 then Inr ((zero, None), c)
      else
        let c = glibtop_suid_enter_fb m c;
            nothing = bind_res (glibtop_suid_leave_fb m c) (\<lambda>c. Inr ((zero, None), c)) in
        bind_res (entry_0 (kern_proc_pid V c pid)) (\<lambda>e.
        case e of
          None \<Rightarrow> nothing
        | Some p \<Rightarrow>
            (if p_flag p AND P_SYSTEM \<noteq> 0 then nothing
             else case ok_getargv V c p max_len of
               None \<Rightarrow> nothing
             | Some args \<Rightarrow>
                 bind_res (glibtop_suid_leave_fb m c) (\<lambda>c.
                   let retval = strings args in
                   Inr ((\<lparr>pa_flags = sysdeps_proc_args, pa_size = of_nat (length retval - 1)\<rparr>,
                         Some (retval @ [NUL, NUL])), c)))))"

definition init_proc_io_s_ob :: "glibtop \<Rightarrow> glibtop" where
  "init_proc_io_s_ob server = set_sysdeps F_PROC_IO 0 server"

definition glibtop_get_proc_io_s_ob :: "gint32 \<Rightarrow> glibtop_proc_io" where
  "glibtop_get_proc_io_s_ob pid = proc_io_zero"

definition glibtop_get_proc_wd_s_ob :: "glibtop_proc_wd \<Rightarrow> gint32 \<Rightarrow> glibtop_proc_wd \<times> string list option" where
  \<comment> \<open>the buffer is not touched\<close>
  "glibtop_get_proc_wd_s_ob buf pid = (buf, None)"

definition glibtop_get_proc_affinity_s_ob :: "gint32 \<Rightarrow> glibtop_proc_affinity \<times> 16 word list option" where
  "glibtop_get_proc_affinity_s_ob pid = (\<lparr>af_flags = 0, af_number = 0, af_all = False\<rparr>, None)"

section \<open>proclist.c\<close>

definition init_proclist_p_ob :: "glibtop \<Rightarrow> glibtop" where
  "init_proclist_p_ob server = set_sysdeps F_PROCLIST sysdeps_proclist server"

fun proclist_loop_ob :: "64 word \<Rightarrow> kinfo_ob list \<Rightarrow> nat \<Rightarrow> gint32 list \<Rightarrow> gint32 list" where
  \<comment> \<open>the entries behind \<open>pinfo[i]\<close>, how many of them the loop still looks at, the array of pids\<close>
  "proclist_loop_ob which [] left pids = pids"
| "proclist_loop_ob which (p # ps) left pids =
     (if left = 0 then pids
      else if which AND GLIBTOP_EXCLUDE_IDLE \<noteq> 0 \<and> p_stat p \<noteq> SRUN_OB then proclist_loop_ob which ps (left - 1) pids
      else if which AND GLIBTOP_EXCLUDE_SYSTEM \<noteq> 0 \<and> p_ruid p = 0 then proclist_loop_ob which ps (left - 1) pids
      else proclist_loop_ob which ps (left - 1) (pids @ [p_pid p]))"

definition glibtop_get_proclist_p_ob ::
  "kvm_ob \<Rightarrow> cred \<Rightarrow> 64 word \<Rightarrow> 64 word \<Rightarrow> glibtop_proclist \<times> gint32 list option" where
  \<comment> \<open>\<open>g_realloc (NULL, 0)\<close> is NULL\<close>
  "glibtop_get_proclist_p_ob V c real_which arg =
     (case ok_getprocs V c (ucast (real_which AND GLIBTOP_KERN_PROC_MASK)) (ucast arg) of
        None \<Rightarrow> (\<lparr>pl_flags = 0, pl_number = 0, pl_total = 0, pl_size = 0\<rparr>, None)
      | Some pinfo \<Rightarrow>
          (if length pinfo < 1 then (\<lparr>pl_flags = 0, pl_number = 0, pl_total = 0, pl_size = 0\<rparr>, None)
           else
             let count = length pinfo - 1;
                 pids = proclist_loop_ob real_which pinfo count []
             in (\<lparr>pl_flags = sysdeps_proclist, pl_number = of_nat (length pids), pl_total = of_nat (length pids) * 4,
                  pl_size = 4\<rparr>, if count = 0 then None else Some pids)))"

section \<open>The rights between two commands\<close>

lemma open_p_ob_machine:
  "glibtop_open_p_ob kvm_ok server c = Inr (server', c') \<Longrightarrow>
   s_machine server' = Some \<lparr>m_uid = int (ruid c), m_euid = int (euid c), m_gid = int (rgid c), m_egid = int (egid c)\<rparr>"
  by (auto simp: glibtop_open_p_ob_def glibtop_open_p_def Let_def split: if_splits option.splits)

definition no_entries :: "kvm_ob \<Rightarrow> cred \<Rightarrow> gint32 \<Rightarrow> bool" where
  "no_entries V c pid \<longleftrightarrow> kern_proc_pid V c pid = Some []"

lemma entry_0_total: "(\<exists>e. entry_0 (kern_proc_pid V c pid) = Inr e) \<longleftrightarrow> \<not> no_entries V c pid"
  by (auto simp: entry_0_def no_entries_def split: option.split list.split)

lemma proc_kernel_keeps:
  assumes "lowered m c" and "\<not> no_entries V (raised m c) pid"
  shows "\<exists>r. glibtop_get_proc_kernel_p_ob V server m c pid = Inr (r, c)"
  using assms(2) unfolding entry_0_total [symmetric]
  by (auto simp: glibtop_get_proc_kernel_p_ob_def enter_leave [OF assms(1)] Let_def split: option.split)

lemma proc_args_keeps:
  assumes "lowered m c" and "\<not> no_entries V (raised m c) pid"
  shows "\<exists>r. glibtop_get_proc_args_p_ob V m c pid max_len = Inr (r, c)"
  using assms(2) unfolding entry_0_total [symmetric]
  by (auto simp: glibtop_get_proc_args_p_ob_def enter_leave [OF assms(1)] Let_def split: option.split)

lemma no_entries_crash:
  assumes "lowered m c" and "no_entries V (raised m c) pid"
  shows "sd (s_sysdeps server) F_PROC_TIME \<noteq> 0 \<Longrightarrow> pid \<noteq> 0 \<Longrightarrow>
      glibtop_get_proc_kernel_p_ob V server m c pid = Inl (Crash ''pinfo [0] of no entries'')"
    and "2 \<le> sint pid \<Longrightarrow> glibtop_get_proc_args_p_ob V m c pid max_len = Inl (Crash ''pinfo [0] of no entries'')"
  using assms(2) by (simp_all add: no_entries_def entry_0_def glibtop_get_proc_kernel_p_ob_def
      glibtop_get_proc_args_p_ob_def enter_leave [OF assms(1)] Let_def)

text \<open>
  C11. The rights of the setuid server on OpenBSD: it starts as on FreeBSD with the effective user and
  group of its caller, and the getters that raise the group come back with the rights they were called with,
  as long as the kernel's answer is NULL or has an entry. An answer of no entries, which the test for NULL lets
  pass, is read behind its end.
\<close>

theorem suid_rights_ob:
  assumes "suid_server_start_ob uname kvm_ok sf hook c = Inr (server, d)"
    and "\<forall>f s. s_machine (hook f s) = s_machine s"
  shows "egid d = rgid c \<and> euid d = ruid c
    \<and> (\<exists>m. s_machine server = Some m \<and> egid (glibtop_suid_enter_fb m d) = egid c
        \<and> (\<forall>V s pid max_len. \<not> no_entries V (glibtop_suid_enter_fb m d) pid \<longrightarrow>
             (\<exists>r. glibtop_get_proc_kernel_p_ob V s m d pid = Inr (r, d))
             \<and> (\<exists>r. glibtop_get_proc_args_p_ob V m d pid max_len = Inr (r, d)))
        \<and> (\<forall>V pid max_len. no_entries V (glibtop_suid_enter_fb m d) pid \<and> 2 \<le> sint pid \<longrightarrow>
             glibtop_get_proc_args_p_ob V m d pid max_len = Inl (Crash ''pinfo [0] of no entries'')))"
proof -
  obtain m where m: "s_machine server = Some m" "lowered m d" "raised m d = d\<lparr>rgid := rgid c, egid := egid c, sgid := egid c\<rparr>"
    "egid d = rgid c" "ruid d = euid c" "euid d = ruid c"
    using suid_start_lowered [OF assms(1) [unfolded suid_server_start_ob_def] _ assms(2)] open_p_ob_machine by blast
  have e: "glibtop_suid_enter_fb m d = raised m d" "egid (raised m d) = egid c" using m(2,3) enter_leave(1) by simp_all
  show ?thesis
    using m(1,4,6) proc_kernel_keeps [OF m(2)] proc_args_keeps [OF m(2)] no_entries_crash(2) [OF m(2)]
    by (intro conjI exI [of _ m]) (simp_all add: e)
qed

definition empty_kvm :: kvm_ob where
  "empty_kvm = \<lparr>ok_getprocs = (\<lambda>_ _ _. Some []), ok_getargv = (\<lambda>_ _ _. None)\<rparr>"

definition null_kvm :: kvm_ob where
  "null_kvm = \<lparr>ok_getprocs = (\<lambda>_ _ _. None), ok_getargv = (\<lambda>_ _ _. None)\<rparr>"

theorem suid_rights_ob_witness:
  "\<exists>server d m. suid_server_start_ob True True (\<lambda>_. False) (\<lambda>_ s. s) sgid_kmem = Inr (server, d)
     \<and> s_machine server = Some m \<and> egid d = 100 \<and> egid (glibtop_suid_enter_fb m d) = 2
     \<and> (\<exists>r. glibtop_get_proc_args_p_ob null_kvm m d 7 80 = Inr (r, d))
     \<and> glibtop_get_proc_args_p_ob empty_kvm m d 7 80 = Inl (Crash ''pinfo [0] of no entries'')"
proof -
  obtain server d where s: "suid_server_start_ob True True (\<lambda>_. False) (\<lambda>_ s. s) sgid_kmem = Inr (server, d)"
    by (simp add: suid_server_start_ob_def suid_server_start_bsd_def glibtop_init_p_bsd_def glibtop_open_p_ob_def glibtop_open_p_def
        sgid_kmem_def glibtop_global_server_def setreuid_def setregid_def Let_def)
  have "no_entries empty_kvm c pid" "\<not> no_entries null_kvm c pid" for c pid
    by (simp_all add: no_entries_def kern_proc_pid_def empty_kvm_def null_kvm_def)
  with suid_rights_ob [OF s] s show ?thesis by (auto simp: sgid_kmem_def)
qed

section \<open>The list of processes, and the times of a process\<close>

definition listed_ob :: "64 word \<Rightarrow> kinfo_ob \<Rightarrow> bool" where
  "listed_ob which p \<longleftrightarrow> (which AND GLIBTOP_EXCLUDE_IDLE \<noteq> 0 \<longrightarrow> p_stat p = SRUN_OB)
     \<and> (which AND GLIBTOP_EXCLUDE_SYSTEM \<noteq> 0 \<longrightarrow> p_ruid p \<noteq> 0)"

lemma proclist_loop_ob_filter:
  "proclist_loop_ob which ps left pids = pids @ map p_pid (filter (listed_ob which) (take left ps))"
proof (induction ps arbitrary: left pids)
  case (Cons p ps)
  then show ?case by (cases left) (auto simp: listed_ob_def)
qed simp

text \<open>
  C34. The list of processes on OpenBSD: the loop stops one entry early, so that the list has the pids of all
  the entries but the last one that the flags leave, in the order of the kernel. A process
  that is just running on a processor (\<open>SONPROC\<close>) counts as idle.
\<close>

theorem proclist_ob_spec:
  assumes "ok_getprocs V c (ucast (which AND GLIBTOP_KERN_PROC_MASK)) (ucast arg) = Some (ps @ [p])"
  shows "\<exists>pids. glibtop_get_proclist_p_ob V c which arg
      = (\<lparr>pl_flags = sysdeps_proclist, pl_number = of_nat (length pids), pl_total = of_nat (4 * length pids), pl_size = 4\<rparr>,
         if ps = [] then None else Some pids)
    \<and> pids = map p_pid (filter (\<lambda>q. (which AND GLIBTOP_EXCLUDE_IDLE \<noteq> 0 \<longrightarrow> p_stat q = SRUN_OB)
         \<and> (which AND GLIBTOP_EXCLUDE_SYSTEM \<noteq> 0 \<longrightarrow> p_ruid q \<noteq> 0)) ps)"
proof -
  have g: "glibtop_get_proclist_p_ob V c which arg
      = (\<lparr>pl_flags = sysdeps_proclist, pl_number = of_nat (length pids), pl_total = of_nat (4 * length pids), pl_size = 4\<rparr>,
         if ps = [] then None else Some pids)" if "pids = map p_pid (filter (listed_ob which) ps)" for pids
    using that by (simp add: glibtop_get_proclist_p_ob_def assms proclist_loop_ob_filter Let_def mult.commute)
  have l: "listed_ob which = (\<lambda>q. (which AND GLIBTOP_EXCLUDE_IDLE \<noteq> 0 \<longrightarrow> p_stat q = SRUN_OB)
         \<and> (which AND GLIBTOP_EXCLUDE_SYSTEM \<noteq> 0 \<longrightarrow> p_ruid q \<noteq> 0))"
    by (rule ext) (simp only: listed_ob_def)
  show ?thesis unfolding l [symmetric]
    by (intro exI conjI, rule g [OF refl], rule refl)
qed

definition demo_ob_proc :: kinfo_ob where
  "demo_ob_proc = \<lparr>p_pid = 7, p_ppid = 1, p_pgid = 7, p_tpgid = 0, p_ruid = 1000, p_svuid = 1000, p_rgid = 100, p_svgid = 100,
     p_comm = ''sh'', p_stat = 2, p_nice = 20, p_priority = 32, p_flag = 0, p_vm_tsize = 100, p_vm_dsize = 0, p_vm_ssize = 1,
     p_vm_rssize = 50, p_uru_maxrss = 0, p_uru_ixrss = 0, p_uru_minflt = 0, p_uru_majflt = 0, p_rtime_sec = 1,
     p_rtime_usec = 500000, p_uutime_sec = 5000, p_uutime_usec = 7, p_ustime_sec = 0, p_ustime_usec = 0, p_uctime_sec = 0,
     p_uctime_usec = 0, p_ustart_sec = 9, p_siglist = 0, p_sigmask = 0, p_sigignore = 0, p_sigcatch = 0, p_wchan = 0,
     p_wmesg = [], p_vmspace = 0x1000\<rparr>"

definition demo_kvm_ob :: kvm_ob where
  "demo_kvm_ob = \<lparr>ok_getprocs = (\<lambda>c op arg. if op = 1 then Some [demo_ob_proc]
      else Some [demo_ob_proc, demo_ob_proc\<lparr>p_pid := 8, p_stat := SONPROC_OB\<rparr>, demo_ob_proc\<lparr>p_pid := 9\<rparr>,
        demo_ob_proc\<lparr>p_pid := 10\<rparr>]),
     ok_getargv = (\<lambda>c p n. Some [''sh'', ''-c''])\<rparr>"

theorem proclist_ob_spec_witness:
  "snd (glibtop_get_proclist_p_ob demo_kvm_ob sgid_kmem GLIBTOP_EXCLUDE_IDLE 0) = Some [7, 9]"
proof -
  have "ok_getprocs demo_kvm_ob sgid_kmem (ucast (GLIBTOP_EXCLUDE_IDLE AND GLIBTOP_KERN_PROC_MASK)) (ucast (0 :: 64 word))
      = Some ([demo_ob_proc, demo_ob_proc\<lparr>p_pid := 8, p_stat := SONPROC_OB\<rparr>, demo_ob_proc\<lparr>p_pid := 9\<rparr>]
         @ [demo_ob_proc\<lparr>p_pid := 10\<rparr>])"
    by (simp add: demo_kvm_ob_def)
  from proclist_ob_spec [OF this] show ?thesis by (auto simp: demo_ob_proc_def)
qed

lemma unat_usecs: "unat (usecs sec usec) = (unat sec * 1000000 + unat usec) mod 2 ^ 32"
by (simp add: usecs_def unat_word_ariths mod_simps)

text \<open>
  The times of a process on OpenBSD: the real time is in ticks, the others are in
  microseconds, computed with 32 bits. They are right up to 4294 seconds of processor time and are
  reduced modulo \<open>2 ^ 32\<close> behind that.
\<close>

theorem proc_time_ob_spec:
  assumes "pid \<noteq> 0" "kern_proc_pid V c pid = Some (p # ps)"
  shows "\<exists>b. glibtop_get_proc_time_p_ob K V c pid = Inr b
    \<and> unat (pt_utime b) = (unat (p_uutime_sec p) * 1000000 + unat (p_uutime_usec p)) mod 2 ^ 32
    \<and> unat (pt_stime b) = (unat (p_ustime_sec p) * 1000000 + unat (p_ustime_usec p)) mod 2 ^ 32
    \<and> unat (pt_cutime b) = (unat (p_uctime_sec p) * 1000000 + unat (p_uctime_usec p)) mod 2 ^ 32
    \<and> (unat (p_uutime_sec p) < 4294 \<and> unat (p_uutime_usec p) < 1000000 \<longrightarrow>
         unat (pt_utime b) = unat (p_uutime_sec p) * 1000000 + unat (p_uutime_usec p))
    \<and> pt_frequency b \<noteq> 0"
proof -
  have "proc_clockrate K \<noteq> 0" by (simp add: proc_clockrate_def Let_def)
  then have "unat (ucast (proc_clockrate K) :: guint64) \<noteq> 0" by (simp only: unat_ucast_32_64 unat_eq_zero not_False_eq_True)
  then have "ucast (proc_clockrate K) \<noteq> (0 :: guint64)" by (metis unsigned_0)
  then show ?thesis
    using assms by (simp add: glibtop_get_proc_time_p_ob_def entry_0_def unat_usecs Let_def)
qed

theorem proc_time_ob_spec_witness:
  "\<exists>b. glibtop_get_proc_time_p_ob demo_obsd demo_kvm_ob sgid_kmem 7 = Inr b \<and> unat (pt_utime b) = 705032711"
proof -
  have "kern_proc_pid demo_kvm_ob sgid_kmem 7 = Some [demo_ob_proc]" by (simp add: kern_proc_pid_def demo_kvm_ob_def)
  from proc_time_ob_spec [OF _ this] show ?thesis by (auto simp: demo_ob_proc_def)
qed

end
