(* ===== verification/ObMap.thy ===== *)
theory ObMap
  imports FbMap ObProc "HOL-Library.Tree"
begin

unbundle bit_operations_syntax

text \<open>
  \<open>procmap.c\<close> under \<open>sysdeps/openbsd\<close>: the memory map of a process, which the code copies from the
  kernel's red-black tree with one \<open>kvm_read\<close> for each node. What is read at an address is a parameter (\<open>None\<close>:
  the read fails, or there is no memory for the node). The pointers in the kernel may be anything, so that
  the recursion is a partial function: \<open>None\<close> is a call that does not return.
\<close>

section \<open>Copying the tree\<close>

record map_entry_ob =
  mo_left :: guint64
  mo_right :: guint64
  mo_submap :: bool            \<comment> \<open>\<open>UVM_ET_ISSUBMAP\<close>\<close>
  mo_uvm_obj :: guint64
  mo_start :: guint64
  mo_end :: guint64
  mo_offset :: guint64
  mo_protection :: "8 word"

record vnode_ob =
  vb_u_flags :: guint32        \<comment> \<open>\<open>v_uvm.u_flags\<close>; \<open>!u_flags & UVM_VNODE_VALID\<close> is true if no flag is set at all\<close>
  vb_vreg_ufs :: bool          \<comment> \<open>\<open>v_type == VREG\<close> and \<open>v_tag == VT_UFS\<close>\<close>
  vb_data :: guint64

record kmem_ob =
  ko_vmspace :: "cred \<Rightarrow> guint64 \<Rightarrow> guint64 option"             \<comment> \<open>the root of \<open>vm_map.addr\<close>\<close>
  ko_entry :: "cred \<Rightarrow> guint64 \<Rightarrow> map_entry_ob option"
  ko_vnode :: "cred \<Rightarrow> guint64 \<Rightarrow> vnode_ob option"
  ko_inode :: "cred \<Rightarrow> guint64 \<Rightarrow> (guint32 \<times> gint32) option"   \<comment> \<open>\<open>i_number\<close> and \<open>i_dev\<close>\<close>

partial_function (option) load_vmmap_entries :: "(guint64 \<Rightarrow> map_entry_ob option) \<Rightarrow> guint64 \<Rightarrow> int option" where
  \<comment> \<open>the result is the number of entries, or -1; the copy is stored in the parameter \<open>rptr\<close>, which is a local variable
    of the call, so that the caller's tree is not a result\<close>
  "load_vmmap_entries rd kptr =
     (if kptr = 0 then Some 0
      else case rd kptr of
        None \<Rightarrow> Some (- 1)
      | Some entry \<Rightarrow>
          Option.bind (load_vmmap_entries rd (mo_left entry)) (\<lambda>left_sz.
            if left_sz = - 1 then Some (- 1)
            else Option.bind (load_vmmap_entries rd (mo_right entry)) (\<lambda>right_sz.
              if right_sz = - 1 then Some (- 1) else Some (1 + left_sz + right_sz))))"

section \<open>The walk over the copy\<close>

definition sysdeps_map_entry_ob :: guint64 where
  "sysdeps_map_entry_ob = flag 0 + flag 1 + flag 2 + flag 3 + flag 4 + flag 5"

definition init_proc_map_p_ob :: "glibtop \<Rightarrow> glibtop" where
  "init_proc_map_p_ob server = set_sysdeps F_PROC_MAP sysdeps_proc_map server"

fun map_loop_ob :: "kmem_ob \<Rightarrow> cred \<Rightarrow> map_entry_ob list \<Rightarrow> glibtop_map_entry list \<Rightarrow> glibtop_map_entry list option" where
  \<comment> \<open>\<open>RBT_FOREACH\<close>; \<open>None\<close>: a read fails, and the function returns NULL\<close>
  "map_loop_ob M c [] maps = Some maps"
| "map_loop_ob M c (e # es) maps =
     (if mo_submap e then map_loop_ob M c es maps
      else if mo_uvm_obj e = 0 then map_loop_ob M c es maps
      else case ko_vnode M c (mo_uvm_obj e) of
        None \<Rightarrow> None
      | Some vn \<Rightarrow>
          (if vb_u_flags vn = 0 then map_loop_ob M c es maps
           else if \<not> vb_vreg_ufs vn \<or> vb_data vn = 0 then map_loop_ob M c es maps
           else case ko_inode M c (vb_data vn) of
             None \<Rightarrow> None
           | Some (inum, dev) \<Rightarrow>
               map_loop_ob M c es (maps @ [\<lparr>me_flags = sysdeps_map_entry_ob, me_start = mo_start e, me_end = mo_end e,
                 me_offset = mo_offset e, me_perm = map_perm_fb (mo_protection e), me_inode = ucast inum,
                 me_device = scast dev, me_smaps = (\<lambda>_. 0), me_filename = []\<rparr>])))"

definition glibtop_get_proc_map_p_ob ::
  "kvm_ob \<Rightarrow> kmem_ob \<Rightarrow> glibtop_machine \<Rightarrow> cred \<Rightarrow> gint32
     \<Rightarrow> ((glibtop_proc_map \<times> glibtop_map_entry list option) \<times> cred) res option" where
  "glibtop_get_proc_map_p_ob V M m c pid =
     (let zero = \<lparr>pm_flags = 0, pm_number = 0, pm_total = 0, pm_size = 0\<rparr>;
          leave = (\<lambda>c r. bind_res (glibtop_suid_leave_fb m c) (\<lambda>c. Inr (r, c)))
      in if pid = 0 then Some (Inr ((zero, None), c))
         else let c = glibtop_suid_enter_fb m c in
           case entry_0 (kern_proc_pid V c pid) of
             Inl e \<Rightarrow> Some (Inl e)
           | Inr None \<Rightarrow> Some (leave c (zero, None))
           | Inr (Some p) \<Rightarrow>
               (case ko_vmspace M c (p_vmspace p) of
                  None \<Rightarrow> Some (leave c (zero, None))
                | Some kroot \<Rightarrow>
                    (let root = Leaf in
                     Option.bind (load_vmmap_entries (ko_entry M c) kroot) (\<lambda>nentries.
                       if nentries = - 1 then Some (Inl (Exit ''kvm_read (entry)''))
                       else
                         let buf = \<lparr>pm_flags = sysdeps_proc_map, pm_number = word_of_int nentries,
                                     pm_total = word_of_int nentries * 336, pm_size = 336\<rparr>
                         in case map_loop_ob M c (inorder root) [] of
                              None \<Rightarrow> Some (leave c (buf, None))
                            | Some maps \<Rightarrow>
                                Some (leave c (\<lparr>pm_flags = sysdeps_proc_map, pm_number = of_nat (length maps),
                                   pm_total = of_nat (length maps) * 336, pm_size = 336\<rparr>, Some maps))))))"

section \<open>What comes of it\<close>

text \<open>At the address there is a copy of the tree in the kernel's memory.\<close>

fun tree_at :: "(guint64 \<Rightarrow> map_entry_ob option) \<Rightarrow> guint64 \<Rightarrow> map_entry_ob tree \<Rightarrow> bool" where
  "tree_at rd kptr Leaf \<longleftrightarrow> kptr = 0"
| "tree_at rd kptr (Node l e r) \<longleftrightarrow> kptr \<noteq> 0 \<and> rd kptr = Some e \<and> tree_at rd (mo_left e) l \<and> tree_at rd (mo_right e) r"

lemma load_tree: "tree_at rd kptr t \<Longrightarrow> load_vmmap_entries rd kptr = Some (int (size t))"
proof (induction t arbitrary: kptr)
  case (Node l e r)
  then have "load_vmmap_entries rd (mo_left e) = Some (int (size l))"
    "load_vmmap_entries rd (mo_right e) = Some (int (size r))" by simp_all
  with Node.prems show ?case by (subst load_vmmap_entries.simps) simp
qed (subst load_vmmap_entries.simps, simp)

lemma load_result:
  assumes "load_vmmap_entries rd kptr = Some n"
  shows "if n = - 1 then \<nexists>t. tree_at rd kptr t else \<exists>t. tree_at rd kptr t \<and> n = int (size t)"
proof (cases "\<exists>t. tree_at rd kptr t")
  case True
  with load_tree assms show ?thesis by fastforce
next
  case False
  have "n = - 1 \<or> (\<exists>t. tree_at rd kptr t)"
  proof (rule load_vmmap_entries.raw_induct [where P = "\<lambda>rd kptr n. n = - 1 \<or> (\<exists>t. tree_at rd kptr t)", OF _ assms])
    fix f rd kptr n
    assume ih: "\<And>rd kptr n. f rd kptr = Some n \<Longrightarrow> n = - 1 \<or> (\<exists>t. tree_at rd kptr t)"
      and body: "(if kptr = 0 then Some 0
      else case rd kptr of
        None \<Rightarrow> Some (- 1)
      | Some entry \<Rightarrow>
          Option.bind (f rd (mo_left entry)) (\<lambda>left_sz.
            if left_sz = - 1 then Some (- 1)
            else Option.bind (f rd (mo_right entry)) (\<lambda>right_sz.
              if right_sz = - 1 then Some (- 1) else Some (1 + left_sz + right_sz)))) = Some n"
    show "n = - 1 \<or> (\<exists>t. tree_at rd kptr t)"
    proof (cases "n = - 1 \<or> kptr = 0")
      case True
      then show ?thesis by (metis tree_at.simps(1))
    next
      case False
      with body obtain e where e: "rd kptr = Some e" by (auto split: option.splits)
      with body False obtain l where l: "f rd (mo_left e) = Some l" "l \<noteq> - 1" by (auto simp: bind_eq_Some_conv split: if_splits)
      with body False e obtain r where r: "f rd (mo_right e) = Some r" "r \<noteq> - 1" by (auto simp: bind_eq_Some_conv split: if_splits)
      from ih [OF l(1)] ih [OF r(1)] l(2) r(2) obtain tl tr where "tree_at rd (mo_left e) tl" "tree_at rd (mo_right e) tr" by blast
      with e False have "tree_at rd kptr (Node tl e tr)" by simp
      then show ?thesis by blast
    qed
  qed
  with False show ?thesis by auto
qed

text \<open>
  C35. The memory map on OpenBSD, for a process whose address space can be read: the copy of the
  tree is dropped, since the function that makes it assigns it to its own parameter. So whatever the map of the process
  is, a call that returns gives an empty array and the rights it was called with; it returns where the pointers
  in the kernel form a finite tree, and ends the server where a node of it cannot be read.
\<close>

theorem proc_map_ob_spec:
  assumes m: "lowered m c" and "pid \<noteq> 0" and "kern_proc_pid V (raised m c) pid = Some (p # ps)"
    and "ko_vmspace M (raised m c) (p_vmspace p) = Some kroot"
  shows "(\<forall>t. tree_at (ko_entry M (raised m c)) kroot t \<longrightarrow>
        glibtop_get_proc_map_p_ob V M m c pid
          = Some (Inr ((\<lparr>pm_flags = sysdeps_proc_map, pm_number = 0, pm_total = 0, pm_size = 336\<rparr>, Some []), c)))
    \<and> (\<forall>r. (\<nexists>t. tree_at (ko_entry M (raised m c)) kroot t) \<and> glibtop_get_proc_map_p_ob V M m c pid = Some r \<longrightarrow>
        r = Inl (Exit ''kvm_read (entry)''))"
proof -
  let ?load = "load_vmmap_entries (ko_entry M (raised m c)) kroot"
  have g: "glibtop_get_proc_map_p_ob V M m c pid = Option.bind ?load (\<lambda>n. Some (if n = - 1 then Inl (Exit ''kvm_read (entry)'')
      else Inr ((\<lparr>pm_flags = sysdeps_proc_map, pm_number = 0, pm_total = 0, pm_size = 336\<rparr>, Some []), c)))"
    using assms by (cases ?load) (simp_all add: glibtop_get_proc_map_p_ob_def enter_leave [OF m] entry_0_def Let_def)
  have "n = - 1" if "?load = Some n" "\<nexists>t. tree_at (ko_entry M (raised m c)) kroot t" for n
    using load_result [OF that(1)] that(2) by (metis (full_types))
  then show ?thesis
    unfolding g by (auto simp: bind_eq_Some_conv load_tree)
qed

definition demo_kmem_ob :: kmem_ob where
  \<comment> \<open>at 16 a node with a left child at 32; at 64 a node whose child cannot be read\<close>
  "demo_kmem_ob = \<lparr>ko_vmspace = (\<lambda>c a. if a = 0x1000 then Some 16 else Some 64),
     ko_entry = (\<lambda>c a.
       if a = 16 then Some \<lparr>mo_left = 32, mo_right = 0, mo_submap = False, mo_uvm_obj = 96, mo_start = 0x400000,
         mo_end = 0x401000, mo_offset = 0, mo_protection = 5\<rparr>
       else if a = 32 then Some \<lparr>mo_left = 0, mo_right = 0, mo_submap = False, mo_uvm_obj = 0, mo_start = 0x200000,
         mo_end = 0x201000, mo_offset = 0, mo_protection = 3\<rparr>
       else if a = 64 then Some \<lparr>mo_left = 8, mo_right = 0, mo_submap = False, mo_uvm_obj = 0, mo_start = 0, mo_end = 0,
         mo_offset = 0, mo_protection = 0\<rparr>
       else None),
     ko_vnode = (\<lambda>c a. Some \<lparr>vb_u_flags = 1, vb_vreg_ufs = True, vb_data = 112\<rparr>), ko_inode = (\<lambda>c a. Some (1234, 0))\<rparr>"

definition demo_machine :: glibtop_machine where
  "demo_machine = \<lparr>m_uid = 1000, m_euid = 1000, m_gid = 100, m_egid = 2\<rparr>"

definition demo_lowered :: cred where
  "demo_lowered = \<lparr>ruid = 1000, euid = 1000, suid = 1000, rgid = 2, egid = 100, sgid = 100\<rparr>"

theorem proc_map_ob_spec_witness:
  "glibtop_get_proc_map_p_ob demo_kvm_ob demo_kmem_ob demo_machine demo_lowered 7
     = Some (Inr ((\<lparr>pm_flags = sysdeps_proc_map, pm_number = 0, pm_total = 0, pm_size = 336\<rparr>, Some []), demo_lowered))"
proof -
  let ?rd = "ko_entry demo_kmem_ob (raised demo_machine demo_lowered)"
  have m: "lowered demo_machine demo_lowered" by (simp add: lowered_def demo_machine_def demo_lowered_def)
  have p: "kern_proc_pid demo_kvm_ob (raised demo_machine demo_lowered) 7 = Some [demo_ob_proc]"
    "ko_vmspace demo_kmem_ob (raised demo_machine demo_lowered) (p_vmspace demo_ob_proc) = Some 16"
    by (simp_all add: kern_proc_pid_def demo_kvm_ob_def demo_kmem_ob_def demo_ob_proc_def)
  obtain t where "tree_at ?rd 16 t"
  proof
    show "tree_at ?rd 16 (Node (Node Leaf (the (?rd 32)) Leaf) (the (?rd 16)) Leaf)" by (simp add: demo_kmem_ob_def)
  qed
  with proc_map_ob_spec [OF m _ p] show ?thesis by auto
qed

end
