(* ===== verification/ObNet.thy ===== *)
theory ObNet
  imports FbNet ObSys
begin

unbundle bit_operations_syntax

text \<open>
  \<open>netload.c\<close> and \<open>ppp.c\<close> under \<open>sysdeps/openbsd\<close>: the counters and the addresses of an interface, which the
  code finds by following the kernel's lists with \<open>kvm_read\<close>. What is read at an address is a parameter,
  and the pointers may be anything: \<open>None\<close> is a call that does not return.
\<close>

section \<open>netload.c\<close>

text \<open>The address in an \<open>ifaddr\<close>. The code looks for it at the offset that \<open>ifa_addr\<close> has from the block in the
  kernel; if the kernel keeps it elsewhere, that is behind the end of the copy.\<close>

datatype sockaddr_ob =
    SaLink string               \<comment> \<open>the eight bytes from \<open>LLADDR\<close> on\<close>
  | SaInet guint32              \<comment> \<open>\<open>sin_addr\<close>\<close>
  | SaInet6 string guint32      \<comment> \<open>the sixteen bytes and \<open>sin6_scope_id\<close>\<close>
  | SaOther
  | SaElsewhere

record ifaddr_ob =
  ao_next :: guint64
  ao_addr :: sockaddr_ob
  ao_netmask :: guint32         \<comment> \<open>\<open>ia_netmask\<close> of the union\<close>

record ifnet_ob =
  io_xname :: string
  io_next :: guint64
  io_addrlist :: guint64
  io_flags :: "16 word"
  io_data :: if_data

record net_ob =
  no_ifnet :: "guint64 option"                                   \<comment> \<open>what is read at \<open>_ifnet\<close>\<close>
  no_interface :: "guint64 \<Rightarrow> ifnet_ob option"
  no_ifaddr :: "guint64 \<Rightarrow> ifaddr_ob option"
  no_prefix6 :: "string \<Rightarrow> string \<Rightarrow> guint32 \<Rightarrow> string option"  \<comment> \<open>\<open>SIOCGIFNETMASK_IN6\<close> by interface, address and scope;
                                                                  \<open>None\<close> also if there is no socket\<close>

definition sysdeps_netload_ob :: guint64 where
  "sysdeps_netload_ob = flag 0 + flag 4 + flag 5 + flag 6 + flag 7 + flag 8 + flag 9 + flag 10 + flag 11 + flag 12 + flag 13"

definition sysdeps_netload_data_ob :: guint64 where "sysdeps_netload_data_ob = flag 3 + flag 2 + flag 1"

definition init_netload_p_ob :: "glibtop \<Rightarrow> glibtop" where
  "init_netload_p_ob server = set_sysdeps F_NETLOAD sysdeps_netload_ob server"

text \<open>\<open>flags & IFF_...\<close> and the bit of \<open>if_flags\<close> for it.\<close>

definition iff_table_ob :: "(16 word \<times> nat) list" where
  "iff_table_ob = [(0x1, 1), (0x2, 2), (0x4, 3), (0x8, 4), (0x10, 5), (0x40, 6), (0x80, 7), (0x100, 8), (0x200, 9),
     (0x400, 10), (0x800, 11), (0x1000, 12), (0x2000, 13), (0x4000, 14), (0x8000, 16)]"

definition if_flag_bits_ob :: "16 word \<Rightarrow> guint64" where
  "if_flag_bits_ob flags = fold (\<lambda>(iff, n) r. if flags AND iff \<noteq> 0 then r OR flag n else r) iff_table_ob 0"

definition netload_counters_ob :: "ifnet_ob \<Rightarrow> glibtop_netload" where
  "netload_counters_ob i =
     (let d = io_data i in
      netload_zero\<lparr>nl_if_flags := if_flag_bits_ob (io_flags i),
        packets_in := ifi_ipackets d, packets_out := ifi_opackets d, packets_total := ifi_ipackets d + ifi_opackets d,
        bytes_in := ifi_ibytes d, bytes_out := ifi_obytes d, bytes_total := ifi_ibytes d + ifi_obytes d,
        errors_in := ifi_ierrors d, errors_out := ifi_oerrors d, errors_total := ifi_ierrors d + ifi_oerrors d,
        collisions := ifi_collisions d, nl_flags := sysdeps_netload_ob\<rparr>)"

definition linklocal :: "string \<Rightarrow> bool" where
  \<comment> \<open>\<open>IN6_IS_ADDR_LINKLOCAL\<close>\<close>
  "linklocal a \<longleftrightarrow> of_char (a ! 0) = (0xfe :: nat) \<and> (of_char (a ! 1) :: nat) div 64 = 2"

definition netload_inet6 :: "net_ob \<Rightarrow> string \<Rightarrow> string \<Rightarrow> guint32 \<Rightarrow> glibtop_netload \<Rightarrow> glibtop_netload" where
  "netload_inet6 N interface a scope buf =
     (let buf = buf\<lparr>address6 := a, nl_flags := nl_flags buf OR flag 14\<rparr>;
          scope' = (if linklocal a then of_nat (of_char (a ! 2) * 256 + of_char (a ! 3)) else scope);
          a' = (if linklocal a then a[2 := NUL, 3 := NUL] else a);
          buf = buf\<lparr>scope6 := unat (ucast scope' :: 8 word), nl_flags := nl_flags buf OR flag 16\<rparr>
      in case no_prefix6 N (g_strlcpy interface 16) a' scope' of
           None \<Rightarrow> buf
         | Some pre \<Rightarrow> buf\<lparr>prefix6 := pre, nl_flags := nl_flags buf OR flag 15\<rparr>)"

definition netload_addr_ob :: "net_ob \<Rightarrow> string \<Rightarrow> ifnet_ob \<Rightarrow> ifaddr_ob \<Rightarrow> glibtop_netload \<Rightarrow> glibtop_netload res" where
  "netload_addr_ob N interface i ifa buf =
     (case ao_addr ifa of
        SaLink ll \<Rightarrow> Inr (buf\<lparr>hwaddress := ll, nl_flags := nl_flags buf OR flag 17\<rparr>)
      | SaInet a \<Rightarrow> Inr (buf\<lparr>nl_subnet := ao_netmask ifa, nl_address := a, nl_mtu := ucast (ifi_mtu (io_data i)),
                       nl_flags := nl_flags buf OR sysdeps_netload_data_ob\<rparr>)
      | SaInet6 a scope \<Rightarrow> Inr (netload_inet6 N interface a scope buf)
      | SaOther \<Rightarrow> Inr buf
      | SaElsewhere \<Rightarrow> Inl (Crash ''ifa_addr is not in the block''))"

partial_function (option) find_ifnet ::
  "(guint64 \<Rightarrow> ifnet_ob option) \<Rightarrow> string \<Rightarrow> guint64 \<Rightarrow> ifnet_ob option res option" where
  \<comment> \<open>the outer loop up to the interface\<close>
  "find_ifnet rd interface a =
     (if a = 0 then Some (Inr None)
      else case rd a of
        None \<Rightarrow> Some (Inl (Exit ''kvm_read (ifnetaddr)''))
      | Some i \<Rightarrow>
          (if g_strlcpy (io_xname i) 32 \<noteq> interface then find_ifnet rd interface (io_next i) else Some (Inr (Some i))))"

partial_function (option) addr_walk ::
  "(guint64 \<Rightarrow> ifaddr_ob option) \<Rightarrow> (ifaddr_ob \<Rightarrow> glibtop_netload \<Rightarrow> glibtop_netload res) \<Rightarrow> guint64
     \<Rightarrow> glibtop_netload \<Rightarrow> glibtop_netload res option" where
  "addr_walk rd body a buf =
     (if a = 0 then Some (Inr buf)
      else case rd a of
        None \<Rightarrow> Some (Inl (Exit ''kvm_read (ifaddraddr)''))
      | Some ifa \<Rightarrow>
          (case body ifa buf of
             Inl e \<Rightarrow> Some (Inl e)
           | Inr buf \<Rightarrow> addr_walk rd body (ao_next ifa) buf))"

definition glibtop_get_netload_p_ob :: "net_ob \<Rightarrow> string \<Rightarrow> glibtop_netload res option" where
  "glibtop_get_netload_p_ob N interface =
     (case no_ifnet N of
        None \<Rightarrow> Some (Inl (Crash ''ifnetaddr is not initialised''))
      | Some ifnetaddr \<Rightarrow>
          Option.bind (find_ifnet (no_interface N) interface ifnetaddr) (\<lambda>found.
            case found of
              Inl e \<Rightarrow> Some (Inl e)
            | Inr None \<Rightarrow> Some (Inr netload_zero)
            | Inr (Some i) \<Rightarrow>
                addr_walk (no_ifaddr N) (netload_addr_ob N interface i) (io_addrlist i) (netload_counters_ob i)))"

section \<open>ppp.c\<close>

text \<open>As on FreeBSD, but for the tests of \<open>sysdeps.ppp\<close>, and a read that fails ends the server.\<close>

definition init_ppp_p_ob :: "bool \<Rightarrow> bool \<Rightarrow> glibtop \<Rightarrow> glibtop" where
  "init_ppp_p_ob i4b acct server =
     (if i4b then set_sysdeps F_PPP (if acct then flag 0 OR (flag 1 + flag 2) else flag 0) server else server)"

definition glibtop_get_ppp_p_ob ::
  "bool \<Rightarrow> bool \<Rightarrow> (ppp_phase \<times> guint64 \<times> guint64) option \<Rightarrow> glibtop_ppp \<Rightarrow> glibtop_ppp res" where
  "glibtop_get_ppp_p_ob i4b acct softc buf =
     (if \<not> i4b then Inr buf
      else case softc of
        None \<Rightarrow> Inl (Exit ''kvm_read (i4bisppp_softc)'')
      | Some (phase, inb, outb) \<Rightarrow>
          (let zero = \<lparr>ppp_flags = flag 0, ppp_state = ppp_state_fb acct phase, ppp_bytes_in = 0, ppp_bytes_out = 0\<rparr>
           in Inr (if acct
                   then zero\<lparr>ppp_bytes_in := inb, ppp_bytes_out := outb, ppp_flags := ppp_flags zero OR (flag 1 + flag 2)\<rparr>
                   else zero)))"

section \<open>What is found along the lists\<close>

text \<open>From the address \<open>a\<close> the pointers lead through the elements \<open>es\<close> to NULL.\<close>

fun klist :: "(guint64 \<Rightarrow> 'e option) \<Rightarrow> ('e \<Rightarrow> guint64) \<Rightarrow> guint64 \<Rightarrow> 'e list \<Rightarrow> bool" where
  "klist rd nxt a [] \<longleftrightarrow> a = 0"
| "klist rd nxt a (e # es) \<longleftrightarrow> a \<noteq> 0 \<and> rd a = Some e \<and> klist rd nxt (nxt e) es"

lemma find_ifnet_klist:
  "klist rd io_next a is \<Longrightarrow>
   find_ifnet rd interface a = Some (Inr (List.find (\<lambda>i. g_strlcpy (io_xname i) 32 = interface) is))"
  by (induction "is" arbitrary: a) (subst find_ifnet.simps, auto)+

lemma addr_walk_klist:
  "klist rd ao_next a ifas \<Longrightarrow>
   addr_walk rd body a buf = Some (fold (\<lambda>ifa r. bind_res r (body ifa)) ifas (Inr buf))"
proof (induction ifas arbitrary: a buf)
  case (Cons ifa ifas)
  have e: "fold (\<lambda>ifa r. bind_res r (body ifa)) ifas (Inl e) = Inl e" for e by (induction ifas) simp_all
  from Cons show ?case by (subst addr_walk.simps) (simp add: e split: sum.split)
qed (subst addr_walk.simps, simp)

definition inet_ob :: "ifaddr_ob \<Rightarrow> (guint32 \<times> guint32) option" where
  "inet_ob ifa = (case ao_addr ifa of SaInet a \<Rightarrow> Some (a, ao_netmask ifa) | _ \<Rightarrow> None)"

definition link_ob :: "ifaddr_ob \<Rightarrow> string option" where
  "link_ob ifa = (case ao_addr ifa of SaLink l \<Rightarrow> Some l | _ \<Rightarrow> None)"

definition told_ob :: "ifnet_ob \<Rightarrow> ifaddr_ob list \<Rightarrow> glibtop_netload \<Rightarrow> bool" where
  "told_ob i ifas b \<longleftrightarrow>
     packets_in b = ifi_ipackets (io_data i) \<and> packets_total b = ifi_ipackets (io_data i) + ifi_opackets (io_data i)
     \<and> bytes_total b = ifi_ibytes (io_data i) + ifi_obytes (io_data i)
     \<and> errors_total b = ifi_ierrors (io_data i) + ifi_oerrors (io_data i) \<and> nl_if_flags b = if_flag_bits_ob (io_flags i)
     \<and> (case last_some inet_ob ifas of
          None \<Rightarrow> nl_address b = 0 \<and> nl_subnet b = 0 \<and> nl_mtu b = 0
        | Some (a, m) \<Rightarrow> nl_address b = a \<and> nl_subnet b = m \<and> nl_mtu b = ucast (ifi_mtu (io_data i)))
     \<and> (case last_some link_ob ifas of None \<Rightarrow> hwaddress b = replicate 8 NUL | Some l \<Rightarrow> hwaddress b = l)"

lemma last_some_snoc: "last_some f (xs @ [x]) = (case f x of None \<Rightarrow> last_some f xs | Some y \<Rightarrow> Some y)"
  by (induction xs) (auto simp: last_some_Cons split: option.splits)

lemma addr_ob_told:
  assumes "told_ob i ifas b" "ao_addr ifa \<noteq> SaElsewhere"
  shows "\<exists>b'. netload_addr_ob N interface i ifa b = Inr b' \<and> told_ob i (ifas @ [ifa]) b'"
  using assms by (cases "ao_addr ifa")
    (auto simp: netload_addr_ob_def netload_inet6_def told_ob_def last_some_snoc inet_ob_def link_ob_def Let_def
      split: option.split)

lemma addrs_ob_told:
  assumes "\<forall>ifa\<in>set ifas. ao_addr ifa \<noteq> SaElsewhere"
  shows "\<exists>b. fold (\<lambda>ifa r. bind_res r (netload_addr_ob N interface i ifa)) ifas (Inr (netload_counters_ob i)) = Inr b
    \<and> told_ob i ifas b"
  using assms
proof (induction ifas rule: rev_induct)
  case Nil
  then show ?case by (simp add: told_ob_def netload_counters_ob_def netload_zero_def Let_def)
next
  case (snoc ifa ifas)
  then obtain b where b: "fold (\<lambda>ifa r. bind_res r (netload_addr_ob N interface i ifa)) ifas (Inr (netload_counters_ob i)) = Inr b"
    "told_ob i ifas b" by auto
  with addr_ob_told [OF b(2), of ifa N interface] snoc.prems show ?case by auto
qed

text \<open>
  The traffic of an interface on OpenBSD: where the kernel's lists end, the call returns. It reports the first
  interface of the name (as far as its first 31 characters) with its counters, their sums, its flags, and the last of
  its IPv4 addresses with the netmask as the subnet; the MTU is only there with such an address. For a name that
  no interface has, everything is zero.
\<close>

theorem netload_ob_spec:
  assumes "no_ifnet N = Some a" "klist (no_interface N) io_next a ifs"
    and "\<forall>i\<in>set ifs. klist (no_ifaddr N) ao_next (io_addrlist i) (addrs i) \<and> (\<forall>ifa\<in>set (addrs i). ao_addr ifa \<noteq> SaElsewhere)"
  shows "\<exists>b. glibtop_get_netload_p_ob N interface = Some (Inr b)
    \<and> (case List.find (\<lambda>i. take 31 (io_xname i) = interface) ifs of
         None \<Rightarrow> b = netload_zero
       | Some i \<Rightarrow> told_ob i (addrs i) b)"
proof -
  have s: "g_strlcpy n 32 = take 31 n" for n by (simp add: g_strlcpy_def)
  note f = find_ifnet_klist [OF assms(2), of interface, unfolded s]
  show ?thesis
  proof (cases "List.find (\<lambda>i. take 31 (io_xname i) = interface) ifs")
    case None
    with f assms(1) show ?thesis by (simp add: glibtop_get_netload_p_ob_def)
  next
    case (Some i)
    then have "i \<in> set ifs" by (auto simp: find_Some_iff)
    with assms(3) have k: "klist (no_ifaddr N) ao_next (io_addrlist i) (addrs i)" "\<forall>ifa\<in>set (addrs i). ao_addr ifa \<noteq> SaElsewhere"
      by auto
    from addrs_ob_told [OF k(2)] f assms(1) Some show ?thesis
      by (simp add: glibtop_get_netload_p_ob_def addr_walk_klist [OF k(1)])
  qed
qed

definition demo_ifnet :: "string \<Rightarrow> guint64 \<Rightarrow> guint64 \<Rightarrow> ifnet_ob" where
  "demo_ifnet n nxt addrs = \<lparr>io_xname = n, io_next = nxt, io_addrlist = addrs, io_flags = 0x8843, io_data = demo_if_data\<rparr>"

definition demo_net_ob :: net_ob where
  "demo_net_ob = \<lparr>no_ifnet = Some 16,
     no_interface = (\<lambda>a. if a = 16 then Some (demo_ifnet ''lo0'' 32 0) else if a = 32 then Some (demo_ifnet ''em0'' 0 64) else None),
     no_ifaddr = (\<lambda>a. if a = 64 then Some \<lparr>ao_next = 80, ao_addr = SaInet 0x0200000a, ao_netmask = 0xffffff\<rparr>
       else if a = 80 then Some \<lparr>ao_next = 0, ao_addr = SaInet6 (replicate 16 (CHR ''x'')) 0, ao_netmask = 0\<rparr> else None),
     no_prefix6 = (\<lambda>_ _ _. None)\<rparr>"

theorem netload_ob_spec_witness:
  "\<exists>b. glibtop_get_netload_p_ob demo_net_ob ''em0'' = Some (Inr b) \<and> packets_total b = 7 \<and> nl_mtu b = 1500
     \<and> nl_address b = 0x0200000a \<and> nl_subnet b = 0xffffff"
proof -
  let ?addrs = "\<lambda>i. if io_addrlist i = 0 then [] else
    [\<lparr>ao_next = 80, ao_addr = SaInet 0x0200000a, ao_netmask = 0xffffff\<rparr>,
     \<lparr>ao_next = 0, ao_addr = SaInet6 (replicate 16 (CHR ''x'')) 0, ao_netmask = 0\<rparr>]"
  let ?ifs = "[demo_ifnet ''lo0'' 32 0, demo_ifnet ''em0'' 0 64]"
  have "no_ifnet demo_net_ob = Some 16" "klist (no_interface demo_net_ob) io_next 16 ?ifs"
    by (simp_all add: demo_net_ob_def demo_ifnet_def)
  moreover have "\<forall>i\<in>set ?ifs. klist (no_ifaddr demo_net_ob) ao_next (io_addrlist i) (?addrs i)
      \<and> (\<forall>ifa\<in>set (?addrs i). ao_addr ifa \<noteq> SaElsewhere)"
    by (simp add: demo_net_ob_def demo_ifnet_def)
  ultimately show ?thesis
    using netload_ob_spec [where N = demo_net_ob and ifs = ?ifs and addrs = ?addrs and interface = "''em0''"]
    by (auto simp: demo_ifnet_def told_ob_def last_some_Cons inet_ob_def demo_if_data_def)
qed

end
