(* ===== verification/ObFiles.thy ===== *)
theory ObFiles
  imports FbFiles ObSys
begin

unbundle bit_operations_syntax

text \<open>
  \<open>procopenfiles.c\<close> under \<open>sysdeps/openbsd\<close>: the open files of a process from \<open>kvm_getfiles\<close>, whose result is
  a parameter: the entries, or NULL with the count that the call leaves behind.
\<close>

record kinfo_file_ob =
  ko_fd :: gint32
  ko_type :: nat               \<comment> \<open>\<open>f_type\<close>\<close>
  ko_family :: nat
  ko_sotype :: nat
  ko_protocol :: nat
  ko_faddr :: string           \<comment> \<open>the sixteen bytes of \<open>inp_faddru\<close>\<close>
  ko_fport :: nat              \<comment> \<open>\<open>inp_fport\<close> in the order of the host\<close>
  ko_vtype :: nat
  ko_vt_non :: bool            \<comment> \<open>\<open>v_tag == VT_NON\<close>\<close>
  ko_vclone :: bool            \<comment> \<open>\<open>v_flag & VCLONE\<close>\<close>
  ko_rdev :: guint32
  ko_fileid :: guint64
  ko_mntonname :: string

record files_ob =
  fo_open :: bool                                                \<comment> \<open>\<open>kvm_openfiles\<close> does not give NULL\<close>
  fo_getfiles :: "gint32 \<Rightarrow> int + kinfo_file_ob list"
  fo_devname :: "guint32 \<Rightarrow> bool \<Rightarrow> string"                      \<comment> \<open>of a character device?\<close>

abbreviation (input) "AF_INET6_OB \<equiv> 24 :: nat"

definition addr_to_string_ob :: "kinfo_file_ob \<Rightarrow> string option" where
  \<comment> \<open>the first four bytes of the address, which is of IPv6 as well\<close>
  "addr_to_string_ob kf =
     (if ko_protocol kf = 6 \<or> ko_protocol kf = 17 then
        (if ko_fport kf \<noteq> 0
         then Some (if take 4 (ko_faddr kf) = replicate 4 NUL then ''*'' else inet_ntop4 (take 4 (ko_faddr kf)))
         else None)
      else None)"

definition stypename :: "nat \<Rightarrow> string" where
  "stypename t =
     (if t > 5 then CHR ''?'' # show_nat t
      else [''unused'', ''stream'', ''dgram'', ''raw'', ''rdm'', ''seqpak''] ! t)"

definition vnode_name :: "files_ob \<Rightarrow> kinfo_file_ob \<Rightarrow> string" where
  \<comment> \<open>in a buffer of \<open>MAXPATHLEN\<close> bytes\<close>
  "vnode_name E kf =
     take 1023 (if ko_vtype kf = 3 \<or> ko_vtype kf = 4 then ''/dev/'' @ fo_devname E (ko_rdev kf) (ko_vtype kf = 4)
                else ''inode '' @ show_nat (unat (ko_fileid kf)) @ '' on '' @ ko_mntonname kf)"

definition file_info_ob :: "files_ob \<Rightarrow> kinfo_file_ob \<Rightarrow> (guint16 \<times> file_info) option" where
  \<comment> \<open>\<open>None\<close> is a \<open>continue\<close>\<close>
  "file_info_ob E kf =
     (if ko_type kf = 2 then
        (if ko_family kf = AF_LOCAL then
           Some (GLIBTOP_FILE_TYPE_LOCALSOCKET, LocalInfo (g_strlcpy (stypename (ko_sotype kf)) 216))
         else if ko_family kf = AF_INET \<or> ko_family kf = AF_INET6_OB then
           Some (if ko_family kf = AF_INET then GLIBTOP_FILE_TYPE_INETSOCKET else GLIBTOP_FILE_TYPE_INET6SOCKET,
                 SockInfo (strlcpy_addr (addr_to_string_ob kf) 47) (of_nat (ko_fport kf)))
         else Some (0, NoInfo))
      else if ko_type kf = 3 then Some (GLIBTOP_FILE_TYPE_PIPE, NoInfo)
      else if ko_type kf = 1 then
        (if ko_vtype kf = 0 \<or> ko_vtype kf = 8 \<or> (ko_vt_non kf \<and> \<not> ko_vclone kf) then None
         else Some (GLIBTOP_FILE_TYPE_FILE, FileInfo (g_strlcpy (vnode_name E kf) 216)))
      else None)"

fun files_loop_ob :: "files_ob \<Rightarrow> kinfo_file_ob list \<Rightarrow> glibtop_open_files_entry list \<Rightarrow> glibtop_open_files_entry list" where
  "files_loop_ob E [] entries = entries"
| "files_loop_ob E (kf # ks) entries =
     (if sint (ko_fd kf) < 0 then files_loop_ob E ks entries
      else case file_info_ob E kf of
        None \<Rightarrow> files_loop_ob E ks entries
      | Some (type, info) \<Rightarrow> files_loop_ob E ks (entries @ [\<lparr>fe_fd = ko_fd kf, fe_type = type, fe_info = info\<rparr>]))"

definition glibtop_get_proc_open_files_s_ob ::
  "files_ob \<Rightarrow> gint32 \<Rightarrow> (glibtop_proc_open_files \<times> glibtop_open_files_entry list) res" where
  \<comment> \<open>the calls that gave NULL are followed by a warning only\<close>
  "glibtop_get_proc_open_files_s_ob E pid =
     (let result = (\<lambda>entries. (\<lparr>of_flags = sysdeps_proc_open_files, of_number = of_nat (length entries),
                       of_total = of_nat (length entries) * 224, of_size = 224\<rparr>, entries))
      in if \<not> fo_open E then Inl (Crash ''kvm_getfiles (NULL)'')
         else case fo_getfiles E pid of
           Inl cnt \<Rightarrow> if cnt \<le> 0 then Inr (result []) else Inl (Crash ''kf is NULL'')
         | Inr ks \<Rightarrow> Inr (result (files_loop_ob E ks [])))"

section \<open>What is listed\<close>

definition file_entry_ob :: "files_ob \<Rightarrow> kinfo_file_ob \<Rightarrow> glibtop_open_files_entry option" where
  "file_entry_ob E kf = (if sint (ko_fd kf) < 0 then None
     else map_option (\<lambda>(type, info). \<lparr>fe_fd = ko_fd kf, fe_type = type, fe_info = info\<rparr>) (file_info_ob E kf))"

lemma files_loop_ob_entries:
  "files_loop_ob E ks entries = entries @ List.map_filter (file_entry_ob E) ks"
  by (induction ks arbitrary: entries) (auto simp: file_entry_ob_def map_filter_simps split: option.splits prod.splits)

lemma map_filter_mem: "x \<in> set xs \<Longrightarrow> f x = Some y \<Longrightarrow> y \<in> set (List.map_filter f xs)"
  by (induction xs) (auto simp: map_filter_simps split: option.split)

text \<open>
  The open files on OpenBSD: an entry for each descriptor of the kernel's list, in its order, except for
  those that are no socket, pipe or file and for files whose vnode is gone; the peer of a TCP connection over IPv6
  is written with the first four bytes of its address in dotted decimal, as a host of IPv4.
\<close>

theorem open_files_ob_spec:
  assumes "fo_open E" "fo_getfiles E pid = Inr ks"
  shows "\<exists>entries. glibtop_get_proc_open_files_s_ob E pid
      = Inr (\<lparr>of_flags = sysdeps_proc_open_files, of_number = of_nat (length entries),
          of_total = of_nat (224 * length entries), of_size = 224\<rparr>, entries)
    \<and> map fe_fd entries = map ko_fd (filter (\<lambda>kf. 0 \<le> sint (ko_fd kf) \<and>
         (ko_type kf \<in> {2, 3} \<or> ko_type kf = 1 \<and> ko_vtype kf \<noteq> 0 \<and> ko_vtype kf \<noteq> 8 \<and> (ko_vt_non kf \<longrightarrow> ko_vclone kf))) ks)
    \<and> (\<forall>kf\<in>set ks. 0 \<le> sint (ko_fd kf) \<and> ko_type kf = 2 \<and> ko_family kf = AF_INET6_OB \<and> ko_protocol kf = 6
          \<and> ko_fport kf \<noteq> 0 \<and> take 4 (ko_faddr kf) \<noteq> replicate 4 NUL \<longrightarrow>
         \<lparr>fe_fd = ko_fd kf, fe_type = GLIBTOP_FILE_TYPE_INET6SOCKET,
          fe_info = SockInfo (take 46 (inet_ntop4 (take 4 (ko_faddr kf)))) (of_nat (ko_fport kf))\<rparr> \<in> set entries)"
proof (intro exI conjI ballI impI)
  let ?es = "List.map_filter (file_entry_ob E) ks"
  show "glibtop_get_proc_open_files_s_ob E pid
      = Inr (\<lparr>of_flags = sysdeps_proc_open_files, of_number = of_nat (length ?es),
          of_total = of_nat (224 * length ?es), of_size = 224\<rparr>, ?es)"
    by (simp add: glibtop_get_proc_open_files_s_ob_def assms files_loop_ob_entries Let_def mult.commute)
  show "map fe_fd ?es = map ko_fd (filter (\<lambda>kf. 0 \<le> sint (ko_fd kf) \<and>
         (ko_type kf \<in> {2, 3} \<or> ko_type kf = 1 \<and> ko_vtype kf \<noteq> 0 \<and> ko_vtype kf \<noteq> 8 \<and> (ko_vt_non kf \<longrightarrow> ko_vclone kf))) ks)"
    by (induction ks) (auto simp: map_filter_simps file_entry_ob_def file_info_ob_def)
  fix kf
  assume "kf \<in> set ks"
    and k: "0 \<le> sint (ko_fd kf) \<and> ko_type kf = 2 \<and> ko_family kf = AF_INET6_OB \<and> ko_protocol kf = 6
          \<and> ko_fport kf \<noteq> 0 \<and> take 4 (ko_faddr kf) \<noteq> replicate 4 NUL"
  have "file_entry_ob E kf = Some \<lparr>fe_fd = ko_fd kf, fe_type = GLIBTOP_FILE_TYPE_INET6SOCKET,
          fe_info = SockInfo (take 46 (inet_ntop4 (take 4 (ko_faddr kf)))) (of_nat (ko_fport kf))\<rparr>"
    using k by (simp add: file_entry_ob_def file_info_ob_def addr_to_string_ob_def strlcpy_addr_def g_strlcpy_def)
  from \<open>kf \<in> set ks\<close> this show "\<lparr>fe_fd = ko_fd kf, fe_type = GLIBTOP_FILE_TYPE_INET6SOCKET,
          fe_info = SockInfo (take 46 (inet_ntop4 (take 4 (ko_faddr kf)))) (of_nat (ko_fport kf))\<rparr> \<in> set ?es"
    by (rule map_filter_mem)
qed

definition demo_sock_ob :: kinfo_file_ob where
  "demo_sock_ob = \<lparr>ko_fd = 3, ko_type = 2, ko_family = 24, ko_sotype = 1, ko_protocol = 6,
     ko_faddr = CHR '' '' # CHR 0x01 # CHR 0x0D # CHR 0xB8 # replicate 12 NUL, ko_fport = 443, ko_vtype = 0,
     ko_vt_non = False, ko_vclone = False, ko_rdev = 0, ko_fileid = 0, ko_mntonname = []\<rparr>"

definition demo_files_ob :: files_ob where
  "demo_files_ob = \<lparr>fo_open = True,
     fo_getfiles = (\<lambda>pid. Inr [demo_sock_ob, demo_sock_ob\<lparr>ko_fd := 4, ko_type := 1\<rparr>, demo_sock_ob\<lparr>ko_fd := 5, ko_type := 3\<rparr>]),
     fo_devname = (\<lambda>_ _. [])\<rparr>"

theorem open_files_ob_spec_witness:
  "\<exists>b entries. glibtop_get_proc_open_files_s_ob demo_files_ob 7 = Inr (b, entries) \<and> map fe_fd entries = [3, 5]
     \<and> \<lparr>fe_fd = 3, fe_type = GLIBTOP_FILE_TYPE_INET6SOCKET, fe_info = SockInfo ''32.1.13.184'' 443\<rparr> \<in> set entries"
proof -
  have n: "take 46 (inet_ntop4 [CHR '' '', CHR 0x01, CHR 0x0D, CHR 0xB8]) = ''32.1.13.184''" by code_simp
  have ks: "fo_open demo_files_ob" "fo_getfiles demo_files_ob 7 = Inr [demo_sock_ob, demo_sock_ob\<lparr>ko_fd := 4, ko_type := 1\<rparr>,
      demo_sock_ob\<lparr>ko_fd := 5, ko_type := 3\<rparr>]"
    by (simp_all add: demo_files_ob_def)
  have s: "ko_fd demo_sock_ob = 3" "ko_type demo_sock_ob = 2" "ko_family demo_sock_ob = 24" "ko_protocol demo_sock_ob = 6"
    "ko_fport demo_sock_ob = 443" "ko_vtype demo_sock_ob = 0"
    "take 4 (ko_faddr demo_sock_ob) = [CHR '' '', CHR 0x01, CHR 0x0D, CHR 0xB8]"
    by (simp_all add: demo_sock_ob_def)
  have z: "[CHR '' '', CHR 0x01, CHR 0x0D, CHR 0xB8] \<noteq> replicate 4 NUL" by code_simp
  from open_files_ob_spec [OF ks] obtain entries b where
    e: "glibtop_get_proc_open_files_s_ob demo_files_ob 7 = Inr (b, entries)" "map fe_fd entries = [3, 5]"
    "\<lparr>fe_fd = 3, fe_type = GLIBTOP_FILE_TYPE_INET6SOCKET,
      fe_info = SockInfo (take 46 (inet_ntop4 [CHR '' '', CHR 0x01, CHR 0x0D, CHR 0xB8])) 443\<rparr> \<in> set entries"
    using z by (auto simp: s)
  then show ?thesis unfolding n by (intro exI conjI)
qed

end
