(* ===== verification/ObPort.thy ===== *)
theory ObPort
  imports FbPort ObMap ObNet ObFiles
begin

unbundle bit_operations_syntax

text \<open>
  The OpenBSD port as a whole: which functions run in the client and which in the setuid server
  (\<open>sysdeps/openbsd/glibtop_server.h\<close>), the tables of both as services, the init functions, and the two
  ends of the pipe between them.
\<close>

section \<open>The functions of the port\<close>

record ob_machine =
  om_sys :: obsd
  om_swap :: "gint32 \<times> gint32"          \<comment> \<open>the static variables of \<open>swap.c\<close>\<close>
  om_kvm :: kvm_ob
  om_kmem :: kmem_ob
  om_files :: files_ob
  om_net :: net_ob
  om_mounts :: "statfs list option"
  om_statvfs :: "string \<Rightarrow> statvfs option"
  om_statfs :: "string \<Rightarrow> statfs option"
  om_i4b :: bool
  om_acct :: bool
  om_softc :: "(ppp_phase \<times> guint64 \<times> guint64) option"

definition suid_ob :: "feature \<Rightarrow> bool" where
  "suid_ob f \<longleftrightarrow> f \<in> {F_SWAP, F_SHM_LIMITS, F_MSG_LIMITS, F_SEM_LIMITS, F_PROCLIST, F_PROC_STATE, F_PROC_UID, F_PROC_MEM,
     F_PROC_TIME, F_PROC_SIGNAL, F_PROC_KERNEL, F_PROC_SEGMENT, F_PROC_ARGS, F_PROC_MAP, F_NETLOAD, F_PPP}"

text \<open>The functions \<open>glibtop_get_f_p\<close> in the setuid server with the rights \<open>c\<close>, and the functions
  \<open>glibtop_get_f_s\<close> in the client's own process. A buffer that a getter leaves alone is one that was cleared. A getter
  that does not return is written as \<open>Blocks\<close>.\<close>

definition returns :: "'a res option \<Rightarrow> 'a res" where
  "returns r = (case r of None \<Rightarrow> Inl Blocks | Some r \<Rightarrow> r)"

fun ob_server_service :: "ob_machine \<Rightarrow> glibtop \<Rightarrow> glibtop_machine \<Rightarrow> cred \<Rightarrow> service" where
  "ob_server_service M s m c F_SWAP a = ret swap_bytes (Inr (fst (glibtop_get_swap_p_ob (om_sys M) s (om_swap M))))"
| "ob_server_service M s m c F_SHM_LIMITS a = ret shm_bytes (Inr (glibtop_get_shm_limits_p (om_sys M) s))"
| "ob_server_service M s m c F_MSG_LIMITS a = ret msg_bytes (Inr (glibtop_get_msg_limits_p (om_sys M) s))"
| "ob_server_service M s m c F_SEM_LIMITS a = ret sem_bytes (Inr (glibtop_get_sem_limits_p (om_sys M) s))"
| "ob_server_service M s m c F_PROCLIST a =
     (let (b, pids) = glibtop_get_proclist_p_ob (om_kvm M) c (fst (arg_list a)) (snd (arg_list a))
      in Inr (proclist_bytes b, map_option u32s_bytes pids))"
| "ob_server_service M s m c F_PROC_STATE a = ret proc_state_bytes (glibtop_get_proc_state_p_ob (om_kvm M) c (arg_pid a))"
| "ob_server_service M s m c F_PROC_UID a = ret proc_uid_bytes (glibtop_get_proc_uid_p_ob (om_kvm M) c (arg_pid a))"
| "ob_server_service M s m c F_PROC_MEM a =
     ret proc_mem_bytes (Inr (glibtop_get_proc_mem_p_ob (om_sys M) (om_kvm M) s c (arg_pid a)))"
| "ob_server_service M s m c F_PROC_TIME a =
     ret proc_time_bytes (glibtop_get_proc_time_p_ob (om_sys M) (om_kvm M) c (arg_pid a))"
| "ob_server_service M s m c F_PROC_SIGNAL a = ret proc_signal_bytes (glibtop_get_proc_signal_p_ob (om_kvm M) c (arg_pid a))"
| "ob_server_service M s m c F_PROC_KERNEL a =
     ret (proc_kernel_bytes \<circ> fst) (glibtop_get_proc_kernel_p_ob (om_kvm M) s m c (arg_pid a))"
| "ob_server_service M s m c F_PROC_SEGMENT a =
     ret proc_segment_bytes (glibtop_get_proc_segment_p_ob (om_sys M) (om_kvm M) c (arg_pid a))"
| "ob_server_service M s m c F_PROC_ARGS a =
     bind_res (glibtop_get_proc_args_p_ob (om_kvm M) m c (arg_pid a) (arg_max a)) (\<lambda>((b, block), _). Inr (proc_args_bytes b, block))"
| "ob_server_service M s m c F_PROC_MAP a =
     bind_res (returns (glibtop_get_proc_map_p_ob (om_kvm M) (om_kmem M) m c (arg_pid a)))
       (\<lambda>((b, es), _). Inr (proc_map_bytes b, map_option (\<lambda>es. concat (map map_entry_bytes es)) es))"
| "ob_server_service M s m c F_NETLOAD a = ret netload_bytes (returns (glibtop_get_netload_p_ob (om_net M) (arg_string a)))"
| "ob_server_service M s m c F_PPP a =
     ret ppp_bytes (glibtop_get_ppp_p_ob (om_i4b M) (om_acct M) (om_softc M)
       \<lparr>ppp_flags = 0, ppp_state = 0, ppp_bytes_in = 0, ppp_bytes_out = 0\<rparr>)"
| "ob_server_service M s m c f a = Inl (Crash ''the server has no function for the feature'')"

fun ob_client_service :: "ob_machine \<Rightarrow> glibtop \<Rightarrow> service" where
  "ob_client_service M s F_CPU a = ret cpu_bytes (glibtop_get_cpu_s_ob (om_sys M) s)"
| "ob_client_service M s F_MEM a = ret mem_bytes (Inr (glibtop_get_mem_s_ob (om_sys M) s))"
| "ob_client_service M s F_UPTIME a =
     ret uptime_bytes (glibtop_get_uptime_s_ob (om_sys M) s
       \<lparr>uptime_flags = 0, uptime_uptime = 0, uptime_idletime = 0, uptime_boot_time = 0\<rparr>)"
| "ob_client_service M s F_LOADAVG a = ret loadavg_bytes (Inr (glibtop_get_loadavg_s_ob (om_sys M)))"
| "ob_client_service M s F_MOUNTLIST a =
     (let (b, es) = glibtop_get_mountlist_s_ob (om_mounts M) (arg_int a)
      in Inr (mountlist_bytes b, map_option (\<lambda>es. concat (map mountentry_bytes es)) es))"
| "ob_client_service M s F_FSUSAGE a =
     ret fsusage_bytes (Inr (glibtop_get_fsusage_s_ob (om_statvfs M) (om_statfs M) (arg_string a)))"
| "ob_client_service M s F_NETLIST a =
     (let (b, devs) = glibtop_get_netlist_s_ob (om_sys M) in Inr (netlist_bytes b, Some (strings devs)))"
| "ob_client_service M s F_PROC_OPEN_FILES a =
     bind_res (glibtop_get_proc_open_files_s_ob (om_files M) (arg_pid a))
       (\<lambda>(b, es). Inr (open_files_bytes b, Some (concat (map open_entry_bytes es))))"
| "ob_client_service M s F_PROC_WD a =
     (let (b, dirs) = glibtop_get_proc_wd_s_ob \<lparr>wd_flags = 0, wd_number = 0, wd_root = [], wd_exe = []\<rparr> (arg_pid a)
      in Inr (proc_wd_bytes b, map_option strings dirs))"
| "ob_client_service M s F_PROC_AFFINITY a =
     (let (b, cpus) = glibtop_get_proc_affinity_s_ob (arg_pid a)
      in Inr (affinity_bytes b, map_option (\<lambda>cs. concat (map u16_bytes cs)) cpus))"
| "ob_client_service M s F_PROC_IO a = ret proc_io_bytes (Inr (glibtop_get_proc_io_s_ob (arg_pid a)))"
| "ob_client_service M s F_DISK a = ret disk_bytes (Inr glibtop_get_disk_s_fb)"
| "ob_client_service M s f a = Inl (Crash ''the client has no function for the feature'')"

text \<open>\<open>_glibtop_init_f_s\<close> and \<open>_glibtop_init_f_p\<close>.\<close>

fun ob_hook :: "ob_machine \<Rightarrow> feature \<Rightarrow> glibtop \<Rightarrow> glibtop" where
  "ob_hook M F_CPU = init_cpu_s_fb"
| "ob_hook M F_MEM = init_mem_s_ob"
| "ob_hook M F_SWAP = init_swap_p_ob"
| "ob_hook M F_UPTIME = init_uptime_s_ob"
| "ob_hook M F_LOADAVG = init_loadavg_s_ob"
| "ob_hook M F_SHM_LIMITS = init_shm_limits_p (om_sys M)"
| "ob_hook M F_MSG_LIMITS = init_msg_limits_p (om_sys M)"
| "ob_hook M F_SEM_LIMITS = init_sem_limits_p (om_sys M)"
| "ob_hook M F_PROCLIST = init_proclist_p_ob"
| "ob_hook M F_PROC_STATE = init_proc_state_p_ob"
| "ob_hook M F_PROC_UID = init_proc_uid_p_ob"
| "ob_hook M F_PROC_MEM = init_proc_mem_p_ob"
| "ob_hook M F_PROC_TIME = init_proc_time_p_ob"
| "ob_hook M F_PROC_SIGNAL = init_proc_signal_p_ob"
| "ob_hook M F_PROC_KERNEL = init_proc_kernel_p_ob"
| "ob_hook M F_PROC_SEGMENT = init_proc_segment_p_ob"
| "ob_hook M F_PROC_ARGS = init_proc_args_p_ob"
| "ob_hook M F_PROC_MAP = init_proc_map_p_ob"
| "ob_hook M F_NETLOAD = init_netload_p_ob"
| "ob_hook M F_NETLIST = init_netlist_s"
| "ob_hook M F_PPP = init_ppp_p_ob (om_i4b M) (om_acct M)"
| "ob_hook M F_PROC_OPEN_FILES = init_proc_open_files_s"
| "ob_hook M F_PROC_WD = init_proc_wd_s"
| "ob_hook M F_PROC_AFFINITY = init_proc_affinity_s"
| "ob_hook M F_PROC_IO = init_proc_io_s_ob"
| "ob_hook M F_DISK = init_disk_s_fb"
| "ob_hook M f = id"

definition ob_world :: "ob_machine \<Rightarrow> world \<Rightarrow> world" where
  "ob_world M base = base\<lparr>w_suid := suid_ob, w_hook := ob_hook M, w_open_s := (\<lambda>s. Inr (glibtop_open_s_ob (om_sys M) s))\<rparr>"

section \<open>The laws of the services\<close>

lemma ob_server_struct_size:
  "ob_server_service M s m c f a = Inr (st, ptr) \<Longrightarrow> length st = sizeof_struct f"
  by (cases f) (auto simp: ret_def bind_res_Inr_iff bytes_defs Let_def split: prod.splits option.splits)

lemma ob_client_struct_size:
  "ob_client_service M s f a = Inr (st, ptr) \<Longrightarrow> length st = sizeof_struct f"
  by (cases f) (auto simp: ret_def bind_res_Inr_iff bytes_defs Let_def split: prod.splits option.splits)

lemma proclist_ob_total:
  "glibtop_get_proclist_p_ob V c which arg = (b, pids) \<Longrightarrow>
   pl_total b = (case pids of None \<Rightarrow> 0 | Some ps \<Rightarrow> of_nat (length ps) * of_nat 4)"
  by (auto simp: glibtop_get_proclist_p_ob_def proclist_loop_ob_filter Let_def split: option.splits if_splits)

lemma proc_args_ob_block:
  assumes "glibtop_get_proc_args_p_ob V m c pid max_len = Inr ((b, block), c')" and "block \<noteq> None"
  shows "\<exists>retval. block = Some (retval @ [NUL, NUL]) \<and> pa_size b = of_nat (length retval - 1)"
proof -
  have pid: "\<not> sint pid < 2" using assms by (auto simp: glibtop_get_proc_args_p_ob_def Let_def)
  let ?c = "glibtop_suid_enter_fb m c"
  obtain e where e: "entry_0 (kern_proc_pid V ?c pid) = Inr e"
    using assms(1) pid by (auto simp: glibtop_get_proc_args_p_ob_def bind_res_Inr_iff Let_def)
  show ?thesis
  proof (cases "\<exists>p args. e = Some p \<and> p_flag p AND P_SYSTEM = 0 \<and> ok_getargv V ?c p max_len = Some args")
    case True
    with assms(1) pid e show ?thesis by (auto simp: glibtop_get_proc_args_p_ob_def bind_res_Inr_iff Let_def)
  next
    case False
    with assms pid e show ?thesis
      by (cases e) (auto simp: glibtop_get_proc_args_p_ob_def bind_res_Inr_iff Let_def split: if_split_asm option.split_asm)
  qed
qed

lemma proc_map_ob_total:
  "glibtop_get_proc_map_p_ob V M m c pid = Some (Inr ((b, es), c')) \<Longrightarrow> pm_total b = 0"
  by (auto simp: glibtop_get_proc_map_p_ob_def bind_res_Inr_iff bind_eq_Some_conv Let_def
      split: option.splits sum.splits if_splits)

lemma ob_server_block_size:
  assumes "ob_server_service M s m c f a = Inr (st, ptr)" and out: "output_size f st ptr \<noteq> 0"
  shows "\<exists>d. ptr = Some d \<and> unat (output_size f st ptr) \<le> length d"
proof -
  have "f \<in> {F_PROCLIST, F_PROC_MAP, F_MOUNTLIST, F_PROC_ARGS}"
    using out by (auto simp: output_size_def split: if_splits)
  then show ?thesis
  proof (elim insertE)
    assume f: "f = F_PROCLIST"
    then obtain b pids where b: "glibtop_get_proclist_p_ob (om_kvm M) c (fst (arg_list a)) (snd (arg_list a)) = (b, pids)"
      "st = proclist_bytes b" "ptr = map_option u32s_bytes pids"
      using assms(1) by (auto split: prod.splits)
    from proclist_ob_total [OF b(1)] b out unat_times_le [of _ 4] show ?thesis
      by (cases pids) (simp_all add: f output_size_def proclist_bytes_def mult.commute)
  next
    assume f: "f = F_PROC_MAP"
    then obtain b es c' where b: "glibtop_get_proc_map_p_ob (om_kvm M) (om_kmem M) m c (arg_pid a) = Some (Inr ((b, es), c'))"
      "st = proc_map_bytes b"
      using assms(1) by (auto simp: bind_res_Inr_iff returns_def split: option.splits)
    from proc_map_ob_total [OF b(1)] b(2) out show ?thesis by (simp add: f output_size_def proc_map_bytes_def)
  next
    assume f: "f = F_MOUNTLIST"
    then show ?thesis using assms(1) by simp
  next
    assume f: "f = F_PROC_ARGS"
    then obtain b block c' where b: "glibtop_get_proc_args_p_ob (om_kvm M) m c (arg_pid a) (arg_max a) = Inr ((b, block), c')"
      "st = proc_args_bytes b" "ptr = block"
      using assms(1) by (auto simp: bind_res_Inr_iff)
    have "block \<noteq> None" using out b(3) by (cases block) (simp_all add: f output_size_def)
    with proc_args_ob_block [OF b(1)] obtain retval where
      "block = Some (retval @ [NUL, NUL])" "pa_size b = of_nat (length retval - 1)" by blast
    moreover have "unat (of_nat (length retval - 1) + 1 :: 64 word) \<le> length retval - 1 + 1"
      using unat_times_le [of "Suc (length retval - 1)" 1] by (simp add: add.commute)
    ultimately show ?thesis using b by (simp add: f output_size_def proc_args_bytes_def)
  qed simp
qed

interpretation ob_server: slave_service "ob_server_service M s m c" suid_ob for M s m c
  by unfold_locales (blast intro: ob_server_struct_size ob_server_block_size,
      blast intro: ob_server_struct_size ob_server_block_size, auto simp: suid_ob_def server_features_terms_def)

lemmas ob_init_defs = init_cpu_s_fb_def init_mem_s_ob_def init_swap_p_ob_def init_uptime_s_ob_def init_loadavg_s_ob_def
  init_shm_limits_p_def init_msg_limits_p_def init_sem_limits_p_def init_proclist_p_ob_def init_proc_state_p_ob_def
  init_proc_uid_p_ob_def init_proc_mem_p_ob_def init_proc_time_p_ob_def init_proc_signal_p_ob_def init_proc_kernel_p_ob_def
  init_proc_segment_p_ob_def init_proc_args_p_ob_def init_proc_map_p_ob_def init_netload_p_ob_def init_netlist_s_def
  init_ppp_p_ob_def init_proc_open_files_s_def init_proc_wd_s_def init_proc_affinity_s_def init_proc_io_s_ob_def
  init_disk_s_fb_def

lemma ob_hook_core: "core (ob_hook M f s) = core s"
  by (cases f) (simp_all add: core_set_sysdeps ob_init_defs)

lemma ob_open_core: "core (glibtop_open_s_ob K s) = core s"
  by (simp add: glibtop_open_s_ob_def core_def Let_def)

interpretation ob_port: sysdeps_port "ob_world M base" for M base
  by unfold_locales (auto simp: ob_world_def ob_hook_core ob_open_core)

section \<open>A client and its server\<close>

lemma ob_hooks_machine: "s_machine (ob_hook M f s) = s_machine s"
  by (cases f) (simp_all add: set_sysdeps_def ob_init_defs)

lemma openbsd_suid:
  assumes start: "suid_server_start_ob True True suid_ob (ob_hook M) c = Inr (server, d)" "s_machine server = Some m"
    and env: "w_server base = None" "w_default_server base = ch # cmd" "ch \<noteq> CHR '':''" "w_pipes base = Some pipes" "0 < w_fork base"
    and f: "suid_ob f" and a: "feature_arg f a" "length (send_buf a) \<le> PARAM_SIZE"
    and r: "ob_server_service M server m d f (slave_targ a) = Inr (st, ptr)"
    and evs: "smooth evs" "stream_bytes evs = sysdeps_request @ request f a"
    and stream: "flowing (w_stream base)" "stream_bytes (w_stream base)
      = fst (handle_slave_connection (w_version base) (w_server_version base) suid_ob (ob_server_service M server m d)
          (s_sysdeps server) evs)"
  shows "(\<exists>c'. glibtop_get_l (ob_world M base) (ob_client_service M own_server) f a fresh_client
        = Inr ((st, reply_block f st ptr), c') \<and> to_server (conn c') = stream_bytes evs)
    \<and> euid d = ruid c \<and> egid d = rgid c"
proof
  let ?W = "ob_world M base"
  have w: "w_suid ?W = suid_ob" "w_server ?W = None" "w_default_server ?W = ch # cmd" "w_pipes ?W = Some pipes" "0 < w_fork ?W"
    "\<And>s. \<exists>s'. w_open_s ?W s = Inr s'" "w_stream ?W = w_stream base" "w_version ?W = w_version base"
    "w_server_version ?W = w_server_version base"
    using env by (simp_all add: ob_world_def)
  have k: "slave_knows f" using f by (auto simp: suid_ob_def slave_knows_def)
  from suid_get [OF ob_port.sysdeps_port_axioms ob_server.slave_service_axioms [folded w(1)] w(2,3) env(3) w(4,5,6)
      f [folded w(1)] k a r evs, of "s_sysdeps server" "ob_client_service M own_server"] stream
  show "\<exists>c'. glibtop_get_l ?W (ob_client_service M own_server) f a fresh_client
      = Inr ((st, reply_block f st ptr), c') \<and> to_server (conn c') = stream_bytes evs"
    by (simp add: w(1,7,8,9))
  show "euid d = ruid c \<and> egid d = rgid c"
    using suid_start_lowered [OF start(1) [unfolded suid_server_start_ob_def]] open_p_ob_machine ob_hooks_machine by metis
qed

end
