(* ===== verification/CygSys.thy ===== *)
theory CygSys
  imports SysLimits FileSystems
begin

unbundle bit_operations_syntax

text \<open>
  The Cygwin port, \<open>sysdeps/cygwin\<close>: the functions that say something of the system. The port is a
  copy of an early state of the Linux port, from before the version of the kernel was looked at. Where its text is that of
  \<open>sysdeps/linux\<close> and no pointer is moved over white space (\<open>sem_limits.c\<close>, \<open>shm_limits.c\<close>, \<open>siglist.c\<close>, the readers of files in
  \<open>glibtop_private.c\<close>), the definitions of that port are used. The lemmas at the end say where both ports agree.
\<close>

section \<open>glibtop_private.h\<close>

text \<open>The C library's \<open>isspace\<close> takes the place of GLib's: a vertical tab is white space.\<close>

definition next_token_cyg :: "string \<Rightarrow> string" where
  "next_token_cyg p = dropWhile isspace p"

definition skip_token_cyg :: "string \<Rightarrow> string" where
  "skip_token_cyg p =
     (let p = next_token_cyg p;
          p = dropWhile (\<lambda>c. \<not> isspace c) p
      in next_token_cyg p)"

fun skip_multiple_token_cyg :: "string \<Rightarrow> nat \<Rightarrow> string" where
  "skip_multiple_token_cyg p 0 = p"
| "skip_multiple_token_cyg p (Suc count) = skip_multiple_token_cyg (skip_token_cyg p) count"

fun read_boot_time_loop_cyg :: "string list \<Rightarrow> guint64" where
  "read_boot_time_loop_cyg [] = 0"
| "read_boot_time_loop_cyg (line # lines) =
     (if strncmp_eq line ''btime'' then fst (strtoul 10 (skip_token_cyg line))
      else read_boot_time_loop_cyg lines)"

definition read_boot_time_cyg :: "kernel \<Rightarrow> guint64 res" where
  "read_boot_time_cyg K =
     (case fopen_lines K ''/proc/stat'' of
        None \<Rightarrow> Inl (Exit ''fopen(/proc/stat)'')
      | Some lines \<Rightarrow> Inr (read_boot_time_loop_cyg lines))"

definition get_boot_time_cyg :: "kernel \<Rightarrow> guint64 \<Rightarrow> guint64 res" where
  \<comment> \<open>the second argument is the static \<open>boot_time\<close>; the result is its new value\<close>
  "get_boot_time_cyg K boot_time = (if boot_time = 0 then read_boot_time_cyg K else Inr boot_time)"

section \<open>open.c\<close>

definition glibtop_open_s_cyg :: "kernel \<Rightarrow> glibtop \<Rightarrow> string \<Rightarrow> glibtop res" where
  "glibtop_open_s_cyg K server program_name =
     (let server = server\<lparr>s_name := Some program_name\<rparr> in
      bind_res (file_to_buffer K BUFSIZ ''/proc/stat'') (\<lambda>buffer.
        let real_ncpu = count_cpu_lines (skip_line buffer) 0
        in Inr (server\<lparr>s_real_ncpu := real_ncpu, s_ncpu := min (int GLIBTOP_NCPU - 1) real_ncpu\<rparr>)))"

section \<open>cpu.c\<close>

definition init_cpu_s_cyg :: "glibtop \<Rightarrow> glibtop" where
  "init_cpu_s_cyg server =
     set_sysdeps F_CPU (sysdeps_cpu OR (if s_ncpu server \<noteq> 0 then sysdeps_cpu_smp else 0)) server"

definition get_cpu_global_cyg :: "string \<Rightarrow> glibtop_cpu \<times> string" where
  "get_cpu_global_cyg buffer =
     (let p = skip_token_cyg buffer;
          (user, p) = strtoull 0 p;
          (nice, p) = strtoull 0 p;
          (sys, p) = strtoull 0 p;
          (idle, p) = strtoull 0 p
      in (cpu_zero\<lparr>cpu_user := user, cpu_nice := nice, cpu_sys := sys, cpu_idle := idle,
             cpu_total := user + nice + sys + idle, cpu_frequency := 100, cpu_flags := sysdeps_cpu\<rparr>, p))"

definition get_xcpu_cyg :: "nat \<Rightarrow> string \<Rightarrow> glibtop_cpu \<Rightarrow> glibtop_cpu \<times> string" where
  \<comment> \<open>the body of the loop after \<open>"cpuN"\<close>\<close>
  "get_xcpu_cyg i p buf =
     (let (user, p) = strtoull 0 p;
          (nice, p) = strtoull 0 p;
          (sys, p) = strtoull 0 p;
          (idle, p) = strtoull 0 p
      in (buf\<lparr>xcpu_user := (xcpu_user buf)(i := user), xcpu_nice := (xcpu_nice buf)(i := nice),
            xcpu_sys := (xcpu_sys buf)(i := sys), xcpu_idle := (xcpu_idle buf)(i := idle),
            xcpu_total := (xcpu_total buf)(i := user + nice + sys + idle)\<rparr>, p))"

fun xcpu_loop_cyg :: "nat \<Rightarrow> nat \<Rightarrow> string \<Rightarrow> glibtop_cpu \<Rightarrow> glibtop_cpu res" where
  "xcpu_loop_cyg 0 i p buf = Inr buf"
| "xcpu_loop_cyg (Suc left) i p buf =
     (let p = skip_line p in
      if \<not> check_cpu_line p i then Inr buf
      else if GLIBTOP_NCPU \<le> i then Inl (Crash ''xcpu index'')
      else (let (buf, p) = get_xcpu_cyg i (skip_token_cyg p) buf
            in xcpu_loop_cyg left (Suc i) p buf))"

definition glibtop_get_cpu_s_cyg :: "kernel \<Rightarrow> glibtop \<Rightarrow> glibtop_cpu res" where
  "glibtop_get_cpu_s_cyg K server =
     bind_res (file_to_buffer K BUFSIZ ''/proc/stat'') (\<lambda>buffer.
       let (buf, p) = get_cpu_global_cyg buffer in
     bind_res (xcpu_loop_cyg (nat (s_ncpu server + 1)) 0 p buf) (\<lambda>buf.
       Inr (if s_ncpu server \<noteq> 0 then buf\<lparr>cpu_flags := cpu_flags buf OR sysdeps_cpu_smp\<rparr> else buf)))"

section \<open>mem.c and swap.c\<close>

definition sysdeps_mem_cyg :: guint64 where
  \<comment> \<open>TOTAL, USED, FREE, SHARED, USER\<close>
  "sysdeps_mem_cyg = flag 0 + flag 1 + flag 2 + flag 3 + flag 6"

definition init_mem_s_cyg :: "glibtop \<Rightarrow> glibtop" where
  "init_mem_s_cyg server = set_sysdeps F_MEM sysdeps_mem_cyg server"

definition glibtop_get_mem_s_cyg :: "kernel \<Rightarrow> glibtop_mem res" where
  "glibtop_get_mem_s_cyg K =
     bind_res (file_to_buffer K BUFSIZ ''/proc/meminfo'') (\<lambda>buffer.
       let total = get_scaled buffer (Some ''MemTotal:'');
           free = get_scaled buffer (Some ''MemFree:'')
       in Inr \<lparr>mem_flags = sysdeps_mem_cyg, mem_total = total, mem_used = total - free, mem_free = free,
               mem_shared = 0, mem_buffer = 0, mem_cached = 0, mem_user = total - free, mem_locked = 0\<rparr>)"

definition glibtop_get_swap_s_cyg :: "kernel \<Rightarrow> glibtop_swap res" where
  "glibtop_get_swap_s_cyg K =
     bind_res (file_to_buffer K BUFSIZ ''/proc/meminfo'') (\<lambda>buffer.
       let total = get_scaled buffer (Some ''SwapTotal:'');
           free = get_scaled buffer (Some ''SwapFree:'');
           buf = \<lparr>swap_flags = sysdeps_swap, swap_total = total, swap_used = total - free,
                  swap_free = free, swap_pagein = 0, swap_pageout = 0\<rparr>
       in bind_res (file_to_buffer K BUFSIZ ''/proc/stat'') (\<lambda>buffer.
            case strstr buffer (NL # ''swap'') of
              None \<Rightarrow> Inr buf
            | Some p \<Rightarrow>
                (let p = skip_token_cyg p;
                     (pagein, p) = strtoull 0 p;
                     (pageout, p) = strtoull 0 p
                 in Inr (buf\<lparr>swap_pagein := pagein, swap_pageout := pageout,
                           swap_flags := swap_flags buf OR sysdeps_swap_paging\<rparr>))))"

section \<open>uptime.c\<close>

definition glibtop_get_uptime_s_cyg ::
  "(string \<Rightarrow> 'd \<times> string) \<Rightarrow> kernel \<Rightarrow> guint64 \<Rightarrow> 'd glibtop_uptime res" where
  "glibtop_get_uptime_s_cyg strtod K boot_time =
     bind_res (file_to_buffer K BUFSIZ ''/proc/uptime'') (\<lambda>buffer.
       let (uptime, p) = strtod buffer;
           (idletime, p) = strtod p
       in bind_res (get_boot_time_cyg K boot_time) (\<lambda>boot_time.
            Inr \<lparr>uptime_flags = sysdeps_uptime, uptime_uptime = uptime, uptime_idletime = idletime,
                 uptime_boot_time = boot_time\<rparr>))"

section \<open>loadavg.c\<close>

definition glibtop_get_loadavg_s_cyg ::
  "(string \<Rightarrow> 'd \<times> string) \<Rightarrow> kernel \<Rightarrow> 'd glibtop_loadavg res" where
  "glibtop_get_loadavg_s_cyg strtod K =
     bind_res (file_to_buffer K BUFSIZ ''/proc/loadavg'') (\<lambda>buffer.
       let (l0, p) = strtod buffer;
           (l1, p) = strtod p;
           (l2, p) = strtod p;
           buf = \<lparr>la_flags = sysdeps_loadavg, la_loadavg = (l0, l1, l2), la_nr_running = 0,
                  la_nr_tasks = 0, la_last_pid = 0\<rparr>;
           old = next_token_cyg p
       in if \<not> loadavg_scan old then Inr buf
          else (let (nr_running, p) = strtoull 0 old in
            case p of
              [] \<Rightarrow> Inl (Crash ''loadavg: p++ behind the NUL'')
            | _ # p \<Rightarrow>
                (let (nr_tasks, p) = strtoull 0 p;
                     (last_pid, p) = strtoull 0 p
                 in Inr (buf\<lparr>la_nr_running := nr_running, la_nr_tasks := nr_tasks,
                           la_last_pid := last_pid,
                           la_flags := la_flags buf OR sysdeps_loadavg_tasks\<rparr>))))"

section \<open>msg_limits.c\<close>

definition sysdeps_msg_limits_cyg :: guint64 where
  "sysdeps_msg_limits_cyg = flag 2 + flag 3 + flag 4 + flag 5 + flag 6"

definition init_msg_limits_s_cyg :: "glibtop \<Rightarrow> glibtop" where
  "init_msg_limits_s_cyg server = set_sysdeps F_MSG_LIMITS sysdeps_msg_limits_cyg server"

definition glibtop_get_msg_limits_s_cyg :: "msginfo \<Rightarrow> glibtop_msg_limits" where
  "glibtop_get_msg_limits_s_cyg mi =
     \<lparr>msg_flags = sysdeps_msg_limits_cyg, msg_msgpool = 0, msg_msgmap = 0, msg_msgmax = scast (msgmax mi),
      msg_msgmnb = scast (msgmnb mi), msg_msgmni = scast (msgmni mi), msg_msgssz = scast (msgssz mi),
      msg_msgtql = scast (msgtql mi)\<rparr>"

section \<open>sysinfo.c\<close>

text \<open>One entry for each paragraph of the buffer, at most \<open>GLIBTOP_NCPU\<close>, and none behind an empty one.\<close>

fun cpuinfo_loop_cyg :: "string list \<Rightarrow> glibtop_entry list \<Rightarrow> glibtop_entry list" where
  "cpuinfo_loop_cyg [] cpus = cpus"
| "cpuinfo_loop_cyg (this_proc # ps) cpus =
     (if length cpus < GLIBTOP_NCPU \<and> this_proc \<noteq> [] then
        cpuinfo_loop_cyg ps
          (cpus @ [cpuinfo_entry (g_strsplit_set this_proc [CHR '':'', NL]) \<lparr>labels = [], vals = Map.empty\<rparr>])
      else cpus)"

definition init_sysinfo_cyg :: "kernel \<Rightarrow> glibtop_sysinfo \<Rightarrow> glibtop_sysinfo res" where
  "init_sysinfo_cyg K sysinfo =
     (if si_flags sysinfo \<noteq> 0 then Inr sysinfo
      else bind_res (file_to_buffer K 16384 ''/proc/cpuinfo'') (\<lambda>buffer.
        let cpus = cpuinfo_loop_cyg (g_strsplit_blank buffer) []
        in Inr \<lparr>si_flags = flag 1, si_ncpu = of_nat (length cpus), si_cpuinfo = cpus\<rparr>))"

definition glibtop_get_sysinfo_s_cyg :: "kernel \<Rightarrow> glibtop_sysinfo \<Rightarrow> (glibtop_sysinfo \<times> glibtop_sysinfo) res" where
  \<comment> \<open>the value, and the static variable afterwards\<close>
  "glibtop_get_sysinfo_s_cyg K sysinfo = bind_res (init_sysinfo_cyg K sysinfo) (\<lambda>si. Inr (si, si))"

section \<open>mountlist.c\<close>

definition ignore_list_cyg :: "kernel \<Rightarrow> string list" where
  "ignore_list_cyg K =
     (case fgets_lines K 128 ''/proc/filesystems'' of
        None \<Rightarrow> [''none'']
      | Some ls \<Rightarrow> ''none'' # map (\<lambda>line. g_strstrip (drop 5 line)) (filter (\<lambda>line. strncmp_eq line ''nodev'') ls))"

definition ignore_fs_cyg :: "kernel \<Rightarrow> string \<Rightarrow> bool" where
  "ignore_fs_cyg K fstype \<longleftrightarrow> fstype \<in> set (ignore_list_cyg K)"

text \<open>\<open>g_array_set_size\<close> does not clear a new element, and nothing writes its \<open>dev\<close>: \<open>junk\<close> is what the
  memory of the elements held.\<close>

definition mount_entry_cyg :: "guint64 \<Rightarrow> mntent \<Rightarrow> glibtop_mountentry" where
  "mount_entry_cyg dev mnt = \<lparr>mo_dev = dev, mo_devname = g_strlcpy (mnt_fsname mnt) 80,
     mo_mountdir = g_strlcpy (mnt_dir mnt) 80, mo_type = g_strlcpy (mnt_type mnt) 80\<rparr>"

fun mount_loop_cyg :: "(mntent \<Rightarrow> bool) \<Rightarrow> (nat \<Rightarrow> guint64) \<Rightarrow> mntent list \<Rightarrow> glibtop_mountentry list \<Rightarrow> glibtop_mountentry list" where
  "mount_loop_cyg ignored junk [] entries = entries"
| "mount_loop_cyg ignored junk (mnt # ms) entries =
     (if ignored mnt then mount_loop_cyg ignored junk ms entries
      else mount_loop_cyg ignored junk ms (entries @ [mount_entry_cyg (junk (length entries)) mnt]))"

definition glibtop_get_mountlist_s_cyg ::
  "kernel \<Rightarrow> (nat \<Rightarrow> guint64) \<Rightarrow> mntent list option \<Rightarrow> gint32 \<Rightarrow> glibtop_mountlist \<times> glibtop_mountentry list" where
  "glibtop_get_mountlist_s_cyg K junk mtab all_fs =
     (let entries = (case mtab of
            None \<Rightarrow> []
          | Some ms \<Rightarrow> mount_loop_cyg (\<lambda>mnt. all_fs = 0 \<and> ignore_fs_cyg K (mnt_type mnt)) junk ms [])
      in (\<lparr>ml_flags = flag 2 OR flag 0 OR flag 1, ml_number = of_nat (length entries),
           ml_total = of_nat (length entries) * 248, ml_size = 248\<rparr>, entries))"

section \<open>Both ports\<close>

text \<open>A text without vertical tabs, and pointers into it.\<close>

definition novt :: "string \<Rightarrow> bool" where
  "novt p \<longleftrightarrow> CHR 0x0B \<notin> set p"

lemma isspace_g: "isspace c \<longleftrightarrow> g_ascii_isspace c \<or> c = CHR 0x0B"
  by (auto simp: isspace_def g_ascii_isspace_def)

lemma novt_subset: "novt p \<Longrightarrow> set q \<subseteq> set p \<Longrightarrow> novt q"
  by (auto simp: novt_def)

lemma novt_dropWhile [ctext]: "novt p \<Longrightarrow> novt (dropWhile P p)"
  by (erule novt_subset) (auto dest: set_dropWhileD)

lemma dropWhile_isspace:
  "novt p \<Longrightarrow> dropWhile isspace p = dropWhile g_ascii_isspace p"
  "novt p \<Longrightarrow> dropWhile (\<lambda>c. \<not> isspace c) p = dropWhile (\<lambda>c. \<not> g_ascii_isspace c) p"
  by (induction p) (auto simp: isspace_g novt_def)

lemma next_token_cyg [ctext]: "novt p \<Longrightarrow> next_token_cyg p = next_token p"
  by (simp add: next_token_cyg_def next_token_def dropWhile_isspace)

lemma novt_next_token [ctext]: "novt p \<Longrightarrow> novt (next_token p)"
  by (simp add: next_token_def novt_dropWhile)

lemma skip_token_cyg [ctext]: "novt p \<Longrightarrow> skip_token_cyg p = skip_token p"
  by (simp add: skip_token_cyg_def skip_token_def next_token_cyg dropWhile_isspace Let_def novt_next_token
      novt_dropWhile)

lemma novt_skip_token [ctext]: "novt p \<Longrightarrow> novt (skip_token p)"
  by (simp add: skip_token_def Let_def novt_next_token novt_dropWhile)

lemma novt_skip_multiple [ctext]: "novt p \<Longrightarrow> novt (skip_multiple_token p n)"
  by (induction p n rule: skip_multiple_token.induct) (simp_all add: novt_skip_token)

lemma skip_multiple_cyg [ctext]: "novt p \<Longrightarrow> skip_multiple_token_cyg p n = skip_multiple_token p n"
  by (induction p n rule: skip_multiple_token.induct) (simp_all add: novt_skip_token skip_token_cyg)

lemma novt_skip_line [ctext]: "novt p \<Longrightarrow> novt (skip_line p)"
proof -
  have "skip_line p = tl (dropWhile (\<lambda>c. c \<noteq> NL) p)" 
    by (cases "dropWhile (\<lambda>c. c \<noteq> NL) p") (simp_all add: skip_line_def del: dropWhile_eq_Nil_conv)
  then show "novt p \<Longrightarrow> novt (skip_line p)"
    using novt_dropWhile [of p "\<lambda>c. c \<noteq> NL"] by (cases "dropWhile (\<lambda>c. c \<noteq> NL) p") (auto simp: novt_def)
qed

lemma strto_suffix: "strto base p = Some (neg, n, r) \<Longrightarrow> set r \<subseteq> set p"
proof -
  assume r: "strto base p = Some (neg, n, r)"
  have sign: "set (snd (strto_sign q)) \<subseteq> set q" for q by (cases q) auto
  have prefix: "set (snd (strto_prefix base q)) \<subseteq> set q" for q
    by (auto simp: strto_prefix_def dest: in_set_dropD)
  obtain b where r: "r = dropWhile (\<lambda>c. digit_val c < b) (snd (strto_prefix base (snd (strto_sign (dropWhile isspace p)))))"
    using r by (auto simp: strto_def Let_def split: prod.splits if_splits)
  have "set r \<subseteq> set (snd (strto_prefix base (snd (strto_sign (dropWhile isspace p)))))"
    unfolding r by (auto dest: set_dropWhileD)
  also have "\<dots> \<subseteq> set (snd (strto_sign (dropWhile isspace p)))" by (rule prefix)
  also have "\<dots> \<subseteq> set (dropWhile isspace p)" by (rule sign)
  also have "\<dots> \<subseteq> set p" by (auto dest: set_dropWhileD)
  finally show ?thesis .
qed

lemma novt_strto [ctext]:
  "novt p \<Longrightarrow> novt (snd (strtoull base p))" "novt p \<Longrightarrow> novt (snd (strtol base p))"
  by (auto simp: strtoull_def strtol_def novt_def split: option.splits if_splits dest: strto_suffix)

lemma novt_drop [ctext]: "novt p \<Longrightarrow> novt (drop n p)"
  by (auto simp: novt_def dest: in_set_dropD)

lemma novt_strstr: "novt p \<Longrightarrow> strstr p key = Some q \<Longrightarrow> novt q"
  by (induction p key rule: strstr.induct) (auto simp: novt_def split: if_splits)

text \<open>A kernel none of whose files holds a vertical tab.\<close>

definition plain_kernel :: "kernel \<Rightarrow> bool" where
  "plain_kernel K \<longleftrightarrow> (\<forall>path evs c. k_read K path = Some evs \<longrightarrow> Chunk c \<in> set evs \<longrightarrow> novt c)"

lemma novt_read_loop: "\<forall>c. Chunk c \<in> set evs \<longrightarrow> novt c \<Longrightarrow> novt buf \<Longrightarrow> novt (snd (read_loop room evs buf))"
proof (induction room evs buf rule: read_loop.induct)
  case (4 room c evs buf)
  then have "novt (buf @ take room c)" by (auto simp: novt_def dest: in_set_takeD)
  with 4 show ?case by auto
qed (auto split: if_splits)

lemma novt_c_str: "novt p \<Longrightarrow> novt (c_str p)"
  by (auto simp: c_str_def novt_def dest: set_takeWhileD)

lemma novt_try_file:
  assumes "plain_kernel K"
  shows "novt (snd (try_file_to_buffer K n path))"
proof (cases "k_read K path")
  case (Some evs)
  then have "novt (snd (read_loop (n - 1) evs []))"
    using assms by (intro novt_read_loop) (auto simp: plain_kernel_def novt_def)
  with Some show ?thesis by (auto simp: try_file_to_buffer_def novt_c_str split: prod.split)
qed (simp add: try_file_to_buffer_def novt_def)

lemma novt_file_to_buffer: "plain_kernel K \<Longrightarrow> file_to_buffer K n path = Inr b \<Longrightarrow> novt b"
  using novt_try_file [of K n path] by (auto simp: file_to_buffer_def split: prod.splits try_file.splits)

lemma novt_proc_file: "plain_kernel K \<Longrightarrow> proc_file_to_buffer K n name pid = Some b \<Longrightarrow> novt b"
  using novt_try_file [of K n "proc_path pid name"] by (auto simp: proc_file_to_buffer_def split: prod.splits try_file.splits)

lemma novt_stdio: "\<forall>c. Chunk c \<in> set evs \<longrightarrow> novt c \<Longrightarrow> novt (stdio_text evs)"
  by (induction evs rule: stdio_text.induct) (auto simp: novt_def)

lemma novt_lines: "plain_kernel K \<Longrightarrow> fopen_lines K path = Some ls \<Longrightarrow> l \<in> set ls \<Longrightarrow> novt l"
proof -
  assume k: "plain_kernel K" "fopen_lines K path = Some ls" "l \<in> set ls"
  then obtain evs l' where e: "k_read K path = Some evs" "l' \<in> set (split_lines (stdio_text evs))" "l = c_str l'"
    by (auto simp: fopen_lines_def)
  have "novt (stdio_text evs)" using k(1) e(1) by (intro novt_stdio) (auto simp: plain_kernel_def)
  moreover have "set l' \<subseteq> set (concat (split_lines (stdio_text evs)))" unfolding set_concat using e(2) by blast
  ultimately have "novt l'" unfolding concat_split_lines by (rule novt_subset)
  then show "novt l" by (simp add: e(3) novt_c_str)
qed

lemma boot_time_cyg: "plain_kernel K \<Longrightarrow> get_boot_time_cyg K t = get_boot_time K t"
proof -
  assume k: "plain_kernel K"
  have "\<forall>l\<in>set ls. novt l \<Longrightarrow> read_boot_time_loop_cyg ls = read_boot_time_loop ls" for ls
    by (induction ls) (auto simp: skip_token_cyg)
  then show ?thesis using novt_lines [OF k]
    by (auto simp: get_boot_time_cyg_def get_boot_time_def read_boot_time_cyg_def read_boot_time_def split: option.splits)
qed

text \<open>The system getters, on a Linux kernel before 2.6.\<close>

lemma cpu_global_cyg:
  assumes "novt b" "\<not> kernel_2_6 server"
  shows "get_cpu_global_cyg b = get_cpu_global server b" "novt (snd (get_cpu_global server b))"
  using assms by (simp_all add: get_cpu_global_cyg_def get_cpu_global_def Let_def split_beta ctext)

lemma xcpu_loop_cyg:
  assumes "\<not> kernel_2_6 server"
  shows "novt p \<Longrightarrow> xcpu_loop_cyg n i p buf = xcpu_loop server n i p buf"
  using assms
  by (induction n i p buf rule: xcpu_loop_cyg.induct)
    (simp_all add: get_xcpu_cyg_def get_xcpu_def Let_def split_beta ctext)

lemma xcpu_loop_flags: "xcpu_loop server n i p buf = Inr b' \<Longrightarrow> cpu_flags b' = cpu_flags buf"
  by (induction server n i p buf rule: xcpu_loop.induct)
    (auto simp: Let_def get_xcpu_def split_beta split: if_splits)

lemma cpu_cyg:
  assumes "plain_kernel K" "\<not> kernel_2_6 server"
    and fits: "file_to_buffer K BUFSIZ ''/proc/stat'' = file_to_buffer K STAT_BUFSIZ ''/proc/stat''"
  shows "glibtop_get_cpu_s_cyg K server = glibtop_get_cpu_s K server"
proof (cases "file_to_buffer K STAT_BUFSIZ ''/proc/stat''")
  case (Inr b)
  have b: "novt b" using novt_file_to_buffer [OF assms(1) Inr] .
  note g = cpu_global_cyg [OF b assms(2)]
  have "xcpu_loop_cyg n i (snd (get_cpu_global server b)) buf = xcpu_loop server n i (snd (get_cpu_global server b)) buf" for n i buf
    using xcpu_loop_cyg [OF assms(2) g(2)] .
  then show ?thesis
    using assms(2)
    by (simp add: glibtop_get_cpu_s_cyg_def glibtop_get_cpu_s_def fits Inr g(1) split_beta Let_def)
      (cases "xcpu_loop server (nat (s_ncpu server + 1)) 0 (snd (get_cpu_global server b)) (fst (get_cpu_global server b))"; simp)
qed (simp add: glibtop_get_cpu_s_cyg_def glibtop_get_cpu_s_def fits)

lemma swap_cyg:
  assumes "plain_kernel K" "\<not> kernel_2_6 server"
  shows "glibtop_get_swap_s_cyg K = glibtop_get_swap_s K server"
proof (cases "file_to_buffer K BUFSIZ ''/proc/stat''")
  case (Inr b)
  show ?thesis
  proof (cases "strstr b (NL # ''swap'')")
    case (Some q)
    have "skip_token_cyg q = skip_token q"
      using novt_strstr [OF novt_file_to_buffer [OF assms(1) Inr] Some] by (rule skip_token_cyg)
    then show ?thesis
      using assms(2) Some by (simp add: glibtop_get_swap_s_cyg_def glibtop_get_swap_s_def Let_def Inr)
  qed (use assms(2) Inr in \<open>simp add: glibtop_get_swap_s_cyg_def glibtop_get_swap_s_def Let_def\<close>)
qed (use assms(2) in \<open>simp add: glibtop_get_swap_s_cyg_def glibtop_get_swap_s_def Let_def\<close>)

lemma open_cyg:
  assumes fits: "file_to_buffer K BUFSIZ ''/proc/stat'' = file_to_buffer K STAT_BUFSIZ ''/proc/stat''"
    and "set_linux_version K uname sysfs (s\<lparr>s_name := Some nm\<rparr>) = Inr (s', sysfs')"
  shows "map_sum id (\<lambda>t. t\<lparr>s_os_version_code := s_os_version_code s'\<rparr>) (glibtop_open_s_cyg K s nm)
    = map_sum id fst (glibtop_open_s K uname sysfs s nm)"
proof -
  have "s' = s\<lparr>s_name := Some nm, s_os_version_code := s_os_version_code s'\<rparr>"
    using assms(2) by (auto simp: set_linux_version_def Let_def split: option.splits prod.splits)
  then show ?thesis
    using assms(2)
    by (cases "file_to_buffer K STAT_BUFSIZ ''/proc/stat''"; cases s')
      (auto simp: glibtop_open_s_cyg_def glibtop_open_s_def fits Let_def)
qed

end
