(* ===== verification/CygProc.thy ===== *)
theory CygProc
  imports CygSys ProcList ProcMap
begin

unbundle bit_operations_syntax

text \<open>
  The Cygwin port, \<open>sysdeps/cygwin\<close>: the functions that say something of a process. \<open>proclist.c\<close>,
  \<open>procargs.c\<close>, \<open>procwd.c\<close>, \<open>procopenfiles.c\<close> are the files of the Linux port; \<open>procmem.c\<close> and \<open>procsignal.c\<close>
  differ from them in nothing that the definitions say.
\<close>

section \<open>procstate.c and procuid.c\<close>

definition glibtop_get_proc_state_s_cyg :: "kernel \<Rightarrow> int \<Rightarrow> glibtop_proc_state res" where
  "glibtop_get_proc_state_s_cyg K pid =
     (case k_stat K (proc_path pid []) of
        None \<Rightarrow> Inr proc_state_zero
      | Some (uid, gid) \<Rightarrow>
          (let buf = proc_state_zero\<lparr>ps_uid := uid, ps_gid := gid, ps_flags := sysdeps_proc_state_uid\<rparr> in
           case proc_stat_to_buffer K BUFSIZ pid of
             None \<Rightarrow> Inr buf
           | Some buffer \<Rightarrow>
               (case proc_stat_after_cmd buffer of
                  (None, _) \<Rightarrow> Inl (Crash ''next_token (NULL)'')
                | (Some p, buffer) \<Rightarrow>
                    (let buf = buf\<lparr>ps_state := process_state (next_token_cyg p)\<rparr>
                     in case skip_token_cyg buffer of
                          [] \<Rightarrow> Inl (Exit ''Bad data in /proc/pid/stat'')
                        | c # p \<Rightarrow>
                            (if c \<noteq> CHR ''('' then Inl (Exit ''Bad data in /proc/pid/stat'')
                             else Inr (buf\<lparr>ps_cmd := g_strlcpy p 40,
                                         ps_flags := ps_flags buf OR sysdeps_proc_state\<rparr>))))))"

definition proc_uid_status_cyg :: "string \<Rightarrow> glibtop_proc_uid \<times> bool" where
  "proc_uid_status_cyg buffer =
     (let buf = proc_uid_zero in
      case strstr buffer (NL # ''Pid:'') of
        None \<Rightarrow> (buf, False)
      | Some p \<Rightarrow>
          (let p = skip_token_cyg p;
               (pid, p) = strtol32 p;
               p = skip_token_cyg p;
               (ppid, p) = strtol32 p;
               buf = buf\<lparr>pu_pid := pid, pu_ppid := ppid\<rparr>
           in case strstr p (NL # ''Uid:'') of
                None \<Rightarrow> (buf, False)
              | Some p \<Rightarrow>
                  (let p = skip_token_cyg p;
                       (uid, p) = strtol32 p;
                       (euid, p) = strtol32 p;
                       buf = buf\<lparr>pu_uid := uid, pu_euid := euid\<rparr>
                   in case strstr p (NL # ''Gid:'') of
                        None \<Rightarrow> (buf, False)
                      | Some p \<Rightarrow>
                          (let p = skip_token_cyg p;
                               (gid, p) = strtol32 p;
                               (egid, p) = strtol32 p
                           in (buf\<lparr>pu_gid := gid, pu_egid := egid, pu_flags := sysdeps_proc_uid\<rparr>, True)))))"

definition proc_uid_stat_cyg :: "string \<Rightarrow> glibtop_proc_uid \<Rightarrow> glibtop_proc_uid" where
  "proc_uid_stat_cyg p buf =
     (let p = skip_multiple_token_cyg p 2;
          (pgrp, p) = strtol32 p;
          (session, p) = strtol32 p;
          (tty, p) = strtol32 p;
          (tpgid, p) = strtol32 p;
          p = skip_multiple_token_cyg p 9;
          (priority, p) = strtol32 p;
          (nice, p) = strtol32 p;
          tty = (if tty = 0 then - 1 else tty)
      in buf\<lparr>pu_pgrp := pgrp, pu_session := session, pu_tty := tty, pu_tpgid := tpgid,
            pu_priority := priority, pu_nice := nice,
            pu_flags := pu_flags buf OR sysdeps_proc_uid_stat\<rparr>)"

definition glibtop_get_proc_uid_s_cyg :: "kernel \<Rightarrow> int \<Rightarrow> glibtop_proc_uid" where
  "glibtop_get_proc_uid_s_cyg K pid =
     (case proc_status_to_buffer K BUFSIZ pid of
        None \<Rightarrow> proc_uid_zero
      | Some buffer \<Rightarrow>
          (case proc_uid_status_cyg buffer of
             (buf, False) \<Rightarrow> buf
           | (buf, True) \<Rightarrow>
               (case proc_stat_to_buffer K BUFSIZ pid of
                  None \<Rightarrow> buf
                | Some buffer \<Rightarrow>
                    (case proc_stat_after_cmd buffer of
                       (None, _) \<Rightarrow> buf
                     | (Some p, _) \<Rightarrow> proc_uid_stat_cyg p buf))))"

section \<open>proctime.c\<close>

definition proc_time_stat_cyg :: "guint64 \<Rightarrow> string \<Rightarrow> glibtop_proc_time \<times> string" where
  "proc_time_stat_cyg boot_time p =
     (let p = skip_multiple_token_cyg p 11;
          (utime, p) = strtoull 0 p;
          (stime, p) = strtoull 0 p;
          (cutime, p) = strtoull 0 p;
          (cstime, p) = strtoull 0 p;
          p = skip_multiple_token_cyg p 3;
          (it_real_value, p) = strtoull 0 p;
          (start, p) = strtoull 0 p
      in (proc_time_zero\<lparr>pt_utime := utime, pt_stime := stime, pt_rtime := utime + stime,
            pt_cutime := cutime, pt_cstime := cstime, pt_it_real_value := it_real_value,
            pt_start_time := boot_time + start div 100, pt_frequency := 100,
            pt_flags := sysdeps_proc_time\<rparr>, p))"

fun proc_xcpu_loop_cyg :: "nat \<Rightarrow> nat \<Rightarrow> string \<Rightarrow> glibtop_proc_time \<Rightarrow> glibtop_proc_time res" where
  "proc_xcpu_loop_cyg 0 i p buf = Inr buf"
| "proc_xcpu_loop_cyg (Suc left) i p buf =
     (case p of
        [] \<Rightarrow> Inl (Crash ''proctime: p + 1 behind the NUL'')
      | _ # p1 \<Rightarrow>
          (if \<not> check_cpu_line p1 i then Inr buf
           else if GLIBTOP_NCPU \<le> i then Inl (Crash ''xcpu index'')
           else (let p = skip_token_cyg p;
                     (utime, p) = strtoull 0 p;
                     (stime, p) = strtoull 0 p
                 in proc_xcpu_loop_cyg left (Suc i) p
                      (buf\<lparr>pt_xcpu_utime := (pt_xcpu_utime buf)(i := utime),
                           pt_xcpu_stime := (pt_xcpu_stime buf)(i := stime)\<rparr>))))"

definition glibtop_get_proc_time_s_cyg ::
  "kernel \<Rightarrow> glibtop \<Rightarrow> guint64 \<Rightarrow> int \<Rightarrow> glibtop_proc_time res" where
  "glibtop_get_proc_time_s_cyg K server boot_time pid =
     (case proc_stat_to_buffer K BUFSIZ pid of
        None \<Rightarrow> Inr proc_time_zero
      | Some buffer \<Rightarrow>
          (case proc_stat_after_cmd buffer of
             (None, _) \<Rightarrow> Inr proc_time_zero
           | (Some p0, cmd) \<Rightarrow>
               bind_res (get_boot_time_cyg K boot_time) (\<lambda>boot_time.
               let (buf, p) = proc_time_stat_cyg boot_time p0 in
               if s_ncpu server = 0 then Inr buf
               else case proc_file_to_buffer K BUFSIZ ''/cpu'' pid of
                 None \<Rightarrow> Inr buf
               | Some new \<Rightarrow>
                   (let p = reread new (cmd @ NUL # p0) (length buffer - length p);
                        p = skip_multiple_token_cyg p 3
                    in bind_res (proc_xcpu_loop_cyg (nat (s_ncpu server + 1)) 0 p buf) (\<lambda>buf.
                         Inr (buf\<lparr>pt_flags := pt_flags buf OR sysdeps_proc_time_smp\<rparr>))))))"

section \<open>procsegment.c and procsignal.c\<close>

definition glibtop_get_proc_segment_s_cyg :: "kernel \<Rightarrow> guint64 \<Rightarrow> int \<Rightarrow> glibtop_proc_segment" where
  "glibtop_get_proc_segment_s_cyg K pagesize pid =
     (case proc_stat_to_buffer K BUFSIZ pid of
        None \<Rightarrow> proc_segment_zero
      | Some buffer \<Rightarrow>
          (case proc_stat_after_cmd buffer of
             (None, _) \<Rightarrow> proc_segment_zero
           | (Some p, _) \<Rightarrow>
               (let p = skip_multiple_token_cyg p 23;
                    (start_code, p) = strtoull 0 p;
                    (end_code, p) = strtoull 0 p;
                    (start_stack, p) = strtoull 0 p;
                    buf = proc_segment_zero\<lparr>pg_start_code := start_code, pg_end_code := end_code,
                            pg_start_stack := start_stack, pg_flags := sysdeps_proc_segment\<rparr>
                in case proc_statm_to_buffer K BUFSIZ pid of
                     None \<Rightarrow> buf
                   | Some buffer \<Rightarrow>
                       (let p = skip_multiple_token_cyg buffer 3;
                            (text_rss, p) = strtoull 0 p;
                            (shlib_rss, p) = strtoull 0 p;
                            (data_rss, p) = strtoull 0 p;
                            (dirty_size, p) = strtoull 0 p
                        in buf\<lparr>pg_text_rss := text_rss * pagesize, pg_shlib_rss := shlib_rss * pagesize,
                              pg_data_rss := data_rss * pagesize, pg_dirty_size := dirty_size * pagesize,
                              pg_flags := pg_flags buf OR sysdeps_proc_segment_statm\<rparr>))))"

definition glibtop_get_proc_signal_s_cyg :: "kernel \<Rightarrow> int \<Rightarrow> glibtop_proc_signal" where
  "glibtop_get_proc_signal_s_cyg K pid =
     (case proc_stat_to_buffer K BUFSIZ pid of
        None \<Rightarrow> proc_signal_zero
      | Some buffer \<Rightarrow>
          (case proc_stat_after_cmd buffer of
             (None, _) \<Rightarrow> proc_signal_zero
           | (Some p, _) \<Rightarrow>
               (let p = skip_multiple_token_cyg p 28;
                    (signal, p) = strtoull 0 p;
                    (blocked, p) = strtoull 0 p;
                    (sigignore, p) = strtoull 0 p;
                    (sigcatch, p) = strtoull 0 p
                in \<lparr>pi_flags = sysdeps_proc_signal, pi_signal = signal, pi_blocked = blocked,
                    pi_sigignore = sigignore, pi_sigcatch = sigcatch\<rparr>)))"

section \<open>procmap.c\<close>

text \<open>\<open>sscanf (line, "%16llx-%16llx %4c %16llx %02hx:%02hx %llu%*[ ]%n", ...)\<close>: \<open>None\<close> where it does not return 7,
  otherwise the seven values and the text behind the last of them.\<close>

definition maps_scan :: "string \<Rightarrow> (map_fields \<times> string) option" where
  "maps_scan s =
     Option.bind (scan_num 16 (Some 16) s) (\<lambda>(start, s).
     Option.bind (scan_lit (CHR ''-'') s) (\<lambda>s.
     Option.bind (scan_num 16 (Some 16) s) (\<lambda>(fin, s).
       let s = dropWhile isspace s; flags = take 4 s in
     Option.bind (scan_num 16 (Some 16) (drop 4 s)) (\<lambda>(offset, s).
     Option.bind (scan_num 16 (Some 2) s) (\<lambda>(dev_major, s).
     Option.bind (scan_lit (CHR '':'') s) (\<lambda>s.
     Option.bind (scan_num 16 (Some 2) s) (\<lambda>(dev_minor, s).
     Option.bind (scan_num 10 None s) (\<lambda>(inode, s).
       Some (\<lparr>mf_start = scan_u64 start, mf_end = scan_u64 fin, mf_flags = flags, mf_offset = scan_u64 offset,
              mf_major = ucast (scan_u64 dev_major), mf_minor = ucast (scan_u64 dev_minor),
              mf_inode = scan_u64 inode, mf_filename = []\<rparr>, s)))))))))"

text \<open>\<open>%*[ ]\<close> needs a blank: without one \<open>%n\<close> is not reached, the call still returns 7, and \<open>line_end\<close> has no value.\<close>

definition parse_maps_line :: "string \<Rightarrow> map_fields option res" where
  "parse_maps_line line =
     (case maps_scan line of
        None \<Rightarrow> Inr None
      | Some (f, rest) \<Rightarrow>
          (if rest = [] \<or> hd rest \<noteq> SP then Inl (Crash ''procmap: line_end is not set'')
           else Inr (Some (f\<lparr>mf_filename := g_strstrip (dropWhile (\<lambda>c. c = SP) rest)\<rparr>))))"

definition MKDEV :: "guint16 \<Rightarrow> guint16 \<Rightarrow> guint64" where
  \<comment> \<open>computed as an \<open>int\<close>\<close>
  "MKDEV ma mi = scast (push_bit 20 (ucast ma) OR ucast mi :: 32 word)"

fun maps_loop :: "(nat \<Rightarrow> glibtop_map_entry) \<Rightarrow> nat \<Rightarrow> string list \<Rightarrow> glibtop_map_entry list res" where
  "maps_loop junk added [] = Inr []"
| "maps_loop junk added (line # lines) =
     bind_res (parse_maps_line line) (\<lambda>pl. case pl of
       None \<Rightarrow> maps_loop junk added lines
     | Some f \<Rightarrow> bind_res (maps_loop junk (Suc added) lines) (\<lambda>entries.
         Inr (fill_entry MKDEV False f (junk added) # entries)))"

definition glibtop_get_proc_map_s_cyg ::
  "kernel \<Rightarrow> (nat \<Rightarrow> glibtop_map_entry) \<Rightarrow> 32 word \<Rightarrow> (glibtop_proc_map \<times> glibtop_map_entry list option) res" where
  "glibtop_get_proc_map_s_cyg K junk pid =
     (case fopen_lines K (''/proc/'' @ show_nat (unat pid) @ ''/maps'') of
        None \<Rightarrow> Inr (\<lparr>pm_flags = 0, pm_number = 0, pm_total = 0, pm_size = 0\<rparr>, None)
      | Some lines \<Rightarrow>
          bind_res (maps_loop junk 0 lines) (\<lambda>entries.
            Inr (\<lparr>pm_flags = sysdeps_proc_map, pm_number = of_nat (length entries),
                  pm_total = of_nat (length entries) * 336, pm_size = 336\<rparr>, Some entries)))"

section \<open>prockernel.c and procaffinity.c\<close>

text \<open>These functions answer nothing.\<close>

definition init_proc_kernel_s_cyg :: "glibtop \<Rightarrow> glibtop" where
  "init_proc_kernel_s_cyg server = set_sysdeps F_PROC_KERNEL 0 server"

definition glibtop_get_proc_kernel_s_cyg :: glibtop_proc_kernel where
  "glibtop_get_proc_kernel_s_cyg = proc_kernel_zero"

definition init_proc_affinity_s_cyg :: "glibtop \<Rightarrow> glibtop" where
  "init_proc_affinity_s_cyg server = set_sysdeps F_PROC_AFFINITY 0 server"

definition glibtop_get_proc_affinity_s_cyg :: "glibtop_proc_affinity \<times> guint16 list option" where
  "glibtop_get_proc_affinity_s_cyg = (\<lparr>af_flags = 0, af_number = 0, af_all = False\<rparr>, None)"

section \<open>Both ports\<close>

lemma novt_strtol32 [ctext]: "novt p \<Longrightarrow> novt (snd (strtol32 p))"
  using novt_strto(2) [of p 0] by (simp add: strtol32_def split_beta)

lemma set_strrchr: "strrchr p c = Some q \<Longrightarrow> set q \<subseteq> set p"
  by (induction p c arbitrary: q rule: strrchr.induct) (auto split: option.splits if_splits)

lemma novt_after_cmd:
  assumes "novt b" "proc_stat_after_cmd b = (p, cmd)"
  shows "novt cmd" "p = Some q \<Longrightarrow> novt q"
proof -
  show "novt cmd" using assms by (auto simp: proc_stat_after_cmd_def novt_def dest: in_set_takeD split: option.splits)
  assume p: "p = Some q"
  show "novt q"
  proof (cases "strrchr b (CHR '')'')")
    case (Some r)
    then have "q = tl r" using assms(2) p by (simp add: proc_stat_after_cmd_def)
    then show ?thesis
      using novt_subset [OF assms(1), of "tl r"] set_strrchr [OF Some] by (cases r) auto
  qed (use assms(2) p in \<open>simp add: proc_stat_after_cmd_def del: strrchr_None\<close>)
qed

lemma proc_uid_status_cyg: "novt b \<Longrightarrow> proc_uid_status_cyg b = proc_uid_status b"
proof -
  assume b: "novt b"
  show ?thesis
  proof (cases "strstr b (NL # ''Pid:'')")
    case (Some p)
    have p: "novt p" using novt_strstr [OF b Some] .
    define p1 where "p1 = snd (strtol32 (skip_token (snd (strtol32 (skip_token p)))))"
    have p1: "novt p1" using p by (simp add: p1_def ctext)
    show ?thesis
    proof (cases "strstr p1 (NL # ''Uid:'')")
      case (Some u)
      have u: "novt u" using novt_strstr [OF p1 Some] .
      define u1 where "u1 = snd (strtol32 (snd (strtol32 (skip_token u))))"
      have u1: "novt u1" using u by (simp add: u1_def ctext)
      show ?thesis
      proof (cases "strstr u1 (NL # ''Gid:'')")
        case (Some g)
        have "novt g" using novt_strstr [OF u1 Some] .
        then show ?thesis using \<open>strstr b _ = _\<close> \<open>strstr p1 _ = _\<close> Some p u
          by (simp add: proc_uid_status_cyg_def proc_uid_status_def Let_def split_beta ctext flip: p1_def u1_def)
      qed (use \<open>strstr b _ = _\<close> \<open>strstr p1 _ = _\<close> p u in
          \<open>simp add: proc_uid_status_cyg_def proc_uid_status_def Let_def split_beta ctext flip: p1_def u1_def\<close>)
    qed (use \<open>strstr b _ = _\<close> p in
        \<open>simp add: proc_uid_status_cyg_def proc_uid_status_def Let_def split_beta ctext flip: p1_def\<close>)
  qed (simp add: proc_uid_status_cyg_def proc_uid_status_def)
qed

lemma proc_uid_stat_cyg:
  "novt p \<Longrightarrow> LINUX_VERSION_CODE 1 3 39 \<le> s_os_version_code server \<Longrightarrow> proc_uid_stat_cyg p buf = proc_uid_stat server p buf"
  by (simp add: proc_uid_stat_cyg_def proc_uid_stat_def Let_def split_beta ctext LINUX_VERSION_CODE_def)

lemma proc_uid_cyg:
  assumes k: "plain_kernel K" and v: "LINUX_VERSION_CODE 1 3 39 \<le> s_os_version_code server"
  shows "glibtop_get_proc_uid_s_cyg K pid = glibtop_get_proc_uid_s K server pid"
proof -
  have "proc_uid_status_cyg b = proc_uid_status b" if "proc_status_to_buffer K BUFSIZ pid = Some b" for b
    using that by (intro proc_uid_status_cyg) (auto simp: proc_status_to_buffer_def intro: novt_proc_file [OF k])
  moreover have "proc_uid_stat_cyg p buf = proc_uid_stat server p buf"
    if "proc_stat_to_buffer K BUFSIZ pid = Some b" "proc_stat_after_cmd b = (Some p, cmd)" for b p cmd buf
    using that v novt_after_cmd(2) [OF novt_proc_file [OF k] that(2)]
    by (intro proc_uid_stat_cyg) (auto simp: proc_stat_to_buffer_def)
  ultimately show ?thesis
    by (auto simp: glibtop_get_proc_uid_s_cyg_def glibtop_get_proc_uid_s_def split: option.split prod.split bool.split)
qed

lemma proc_stat_buffer:
  assumes "plain_kernel K" "proc_stat_to_buffer K BUFSIZ pid = Some b" "proc_stat_after_cmd b = (Some p, cmd)"
  shows "novt p" "novt cmd"
  using novt_after_cmd [OF novt_proc_file [OF assms(1)] assms(3)] assms(2) by (auto simp: proc_stat_to_buffer_def)

lemma proc_time_stat_cyg:
  "novt p \<Longrightarrow> proc_time_stat_cyg t p = proc_time_stat t p"
  by (simp add: proc_time_stat_cyg_def proc_time_stat_def Let_def split_beta ctext)

lemma proc_xcpu_loop_cyg:
  "novt p \<Longrightarrow> proc_xcpu_loop_cyg n i p buf = proc_xcpu_loop n i p buf"
proof (induction n arbitrary: i p buf)
  case (Suc n)
  then show ?case by (cases p) (simp_all add: Let_def split_beta ctext)
qed simp

lemma novt_reread: "novt new \<Longrightarrow> novt old \<Longrightarrow> novt (reread new old k)"
  by (auto simp: reread_def novt_def c_str_def dest!: set_takeWhileD in_set_dropD)

lemma proc_time_cyg:
  assumes k: "plain_kernel K"
  shows "glibtop_get_proc_time_s_cyg K server t pid = glibtop_get_proc_time_s K server t pid"
proof (cases "proc_stat_to_buffer K BUFSIZ pid")
  case (Some b)
  obtain q cmd where q: "proc_stat_after_cmd b = (q, cmd)" by (cases "proc_stat_after_cmd b")
  show ?thesis
  proof (cases q)
    case (Some p)
    note n = proc_stat_buffer [OF k \<open>proc_stat_to_buffer _ _ _ = _\<close> q [unfolded Some]]
    show ?thesis
    proof (cases "proc_file_to_buffer K BUFSIZ ''/cpu'' pid")
      case (Some new)
      have "novt new" using novt_proc_file [OF k Some] .
      then have "novt (reread new (cmd @ NUL # p) j)" for j
        using n by (intro novt_reread) (auto simp: novt_def)
      then show ?thesis using \<open>proc_stat_to_buffer _ _ _ = _\<close> q \<open>q = _\<close> Some n(1)
        by (cases "get_boot_time K t"; cases "s_ncpu server = 0")
          (simp_all add: glibtop_get_proc_time_s_cyg_def glibtop_get_proc_time_s_def boot_time_cyg [OF k] proc_time_stat_cyg
            proc_xcpu_loop_cyg Let_def split_beta ctext)
    next
      case None
      then show ?thesis using \<open>proc_stat_to_buffer _ _ _ = _\<close> q \<open>q = _\<close> n(1)
        by (cases "get_boot_time K t"; cases "s_ncpu server = 0")
          (simp_all add: glibtop_get_proc_time_s_cyg_def glibtop_get_proc_time_s_def boot_time_cyg [OF k] proc_time_stat_cyg
            Let_def split_beta)
    qed
  qed (use Some q in \<open>simp add: glibtop_get_proc_time_s_cyg_def glibtop_get_proc_time_s_def\<close>)
qed (simp add: glibtop_get_proc_time_s_cyg_def glibtop_get_proc_time_s_def)

lemma after_cmd_cong:
  assumes "plain_kernel K" and "\<And>p. novt p \<Longrightarrow> f p = g p"
  shows "(case proc_stat_to_buffer K BUFSIZ pid of None \<Rightarrow> z
      | Some b \<Rightarrow> (case proc_stat_after_cmd b of (None, _) \<Rightarrow> z | (Some p, _) \<Rightarrow> f p))
    = (case proc_stat_to_buffer K BUFSIZ pid of None \<Rightarrow> z
      | Some b \<Rightarrow> (case proc_stat_after_cmd b of (None, _) \<Rightarrow> z | (Some p, _) \<Rightarrow> g p))"
  using assms proc_stat_buffer [OF assms(1)] by (auto split: option.split prod.split)

lemma proc_segment_cyg:
  assumes k: "plain_kernel K"
  shows "glibtop_get_proc_segment_s_cyg K pagesize pid = glibtop_get_proc_segment_s K pagesize pid"
  unfolding glibtop_get_proc_segment_s_cyg_def glibtop_get_proc_segment_s_def
proof (rule after_cmd_cong [OF k], goal_cases)
  case (1 p)
  show ?case
  proof (cases "proc_statm_to_buffer K BUFSIZ pid")
    case (Some b)
    then have "novt b" by (auto simp: proc_statm_to_buffer_def intro: novt_proc_file [OF k])
    with 1 Some show ?thesis by (simp add: Let_def split_beta ctext)
  qed (use 1 in \<open>simp add: Let_def split_beta ctext\<close>)
qed

lemma proc_signal_cyg:
  assumes k: "plain_kernel K"
  shows "glibtop_get_proc_signal_s_cyg K pid = glibtop_get_proc_signal_s K pid"
  unfolding glibtop_get_proc_signal_s_cyg_def glibtop_get_proc_signal_s_def
  by (rule after_cmd_cong [OF k]) (simp add: Let_def split_beta ctext)

lemma proc_state_cyg:
  assumes k: "plain_kernel K"
  shows "glibtop_get_proc_state_s_cyg K pid
    = map_sum id (\<lambda>b. b\<lparr>ps_last_processor := 0\<rparr>) (glibtop_get_proc_state_s K pid)"
proof (cases "k_stat K (proc_path pid [])")
  case (Some ids)
  obtain uid gid where ids: "ids = (uid, gid)" by (cases ids)
  show ?thesis
  proof (cases "proc_stat_to_buffer K BUFSIZ pid")
    case (Some b)
    obtain q cmd where q: "proc_stat_after_cmd b = (q, cmd)" by (cases "proc_stat_after_cmd b")
    show ?thesis
    proof (cases q)
      case (Some p)
      note n = proc_stat_buffer [OF k \<open>proc_stat_to_buffer _ _ _ = _\<close> q [unfolded Some]]
      show ?thesis
        using \<open>k_stat _ _ = _\<close> ids \<open>proc_stat_to_buffer _ _ _ = _\<close> q Some
        by (simp add: glibtop_get_proc_state_s_cyg_def glibtop_get_proc_state_s_def Let_def next_token_cyg [OF n(1)]
            skip_token_cyg [OF n(2)] proc_state_zero_def split: list.split)
    qed (use \<open>k_stat _ _ = _\<close> ids Some q in
        \<open>simp add: glibtop_get_proc_state_s_cyg_def glibtop_get_proc_state_s_def Let_def\<close>)
  qed (use Some ids in \<open>simp add: glibtop_get_proc_state_s_cyg_def glibtop_get_proc_state_s_def Let_def proc_state_zero_def\<close>)
qed (simp add: glibtop_get_proc_state_s_cyg_def glibtop_get_proc_state_s_def proc_state_zero_def)

section \<open>The memory map\<close>

text \<open>A number that is no wider than its conversion allows.\<close>

lemma scan_hex_le:
  assumes "hex ds" "\<forall>c\<in>set ws. isspace c" "length ds \<le> n"
    and "16 \<le> digit_val d" "d \<noteq> CHR ''x''" "d \<noteq> CHR ''X''"
  shows "scan_num 16 (Some n) (ws @ ds @ d # r) = Some ((False, hexval ds), d # r)"
proof -
  have "dropWhile isspace (ws @ ds @ d # r) = ds @ d # r"
    using assms(1,2) hex_not_space by (induction ws) (cases ds; auto simp: hex_def)+
  moreover have "strto 16 (ds @ take (n - length ds) (d # r)) = Some (False, hexval ds, take (n - length ds) (d # r))"
    using strto_hexdigits [OF assms(1), of "[]" "take (n - length ds) (d # r)"] assms(4-6)
    by (cases "n - length ds") simp_all
  ultimately show ?thesis using assms(3) by (simp add: scan_num_def)
qed

definition narrow :: "map_text \<Rightarrow> bool" where
  \<comment> \<open>what the widths in the format allow, and a name that \<open>g_strstrip\<close> leaves alone\<close>
  "narrow m \<longleftrightarrow> (\<forall>ds\<in>{mt_start m, mt_end m, mt_offset m}. length ds \<le> 16)
     \<and> length (mt_major m) \<le> 2 \<and> length (mt_minor m) \<le> 2 \<and> \<not> isspace (hd (mt_perm m))
     \<and> (mt_name m = [] \<or> \<not> g_ascii_isspace (last (mt_name m)))"

lemma scan_u64_pos [simp]: "v < 2 ^ 64 \<Longrightarrow> scan_u64 (False, v) = of_nat v"
  by (simp add: scan_u64_def)

lemma g_strstrip_name:
  assumes "nm = [] \<or> \<not> g_ascii_isspace (hd nm) \<and> \<not> g_ascii_isspace (last nm)"
  shows "g_strstrip (nm @ [NL]) = nm"
proof (cases nm rule: rev_cases)
  case (snoc ys y)
  with assms show ?thesis by (cases ys) (simp_all add: g_strstrip_def)
qed (simp add: g_strstrip_def)

lemma parse_maps_line_text:
  assumes ok: "map_text_ok m" and n: "narrow m"
  shows "parse_maps_line (map_line m) = Inr (Some (text_fields m))"
proof -
  define r5 where "r5 = mt_pad m @ mt_name m @ [NL]"
  define r4 where "r4 = show_nat (mt_inode m) @ SP # r5"
  define r3 where "r3 = mt_minor m @ SP # r4"
  define r2 where "r2 = mt_offset m @ SP # mt_major m @ CHR '':'' # r3"
  define r1 where "r1 = mt_perm m @ SP # r2"
  have line: "map_line m = [] @ mt_start m @ CHR ''-'' # mt_end m @ SP # r1"
    by (simp add: map_line_def r1_def r2_def r3_def r4_def r5_def)
  have h: "hex ds" "hexval ds < 2 ^ 64"
    if "ds \<in> {mt_start m, mt_end m, mt_offset m, mt_major m, mt_minor m}" for ds
    using ok that unfolding map_text_ok_def by blast+
  have sp: "\<forall>c\<in>set [SP]. isspace c" by (simp add: isspace_def)
  have 1: "scan_num 16 (Some 16) (map_line m) = Some ((False, hexval (mt_start m)), CHR ''-'' # mt_end m @ SP # r1)"
    unfolding line using h n by (intro scan_hex_le) (simp_all add: digit_val_delims narrow_def)
  have 2: "scan_num 16 (Some 16) ([] @ mt_end m @ SP # r1) = Some ((False, hexval (mt_end m)), SP # r1)"
    using h n by (intro scan_hex_le) (simp_all add: digit_val_delims narrow_def)
  have 3: "dropWhile isspace (SP # r1) = mt_perm m @ SP # r2" "length (mt_perm m) = 4"
    using ok n by (cases "mt_perm m"; auto simp: r1_def map_text_ok_def narrow_def isspace_def)+
  have 4: "scan_num 16 (Some 16) ([SP] @ mt_offset m @ SP # mt_major m @ CHR '':'' # r3)
      = Some ((False, hexval (mt_offset m)), SP # mt_major m @ CHR '':'' # r3)"
    using h n sp by (intro scan_hex_le) (simp_all add: digit_val_delims narrow_def)
  have 5: "scan_num 16 (Some 2) ([SP] @ mt_major m @ CHR '':'' # r3) = Some ((False, hexval (mt_major m)), CHR '':'' # r3)"
    using h n sp by (intro scan_hex_le) (simp_all add: digit_val_delims narrow_def)
  have 6: "scan_num 16 (Some 2) ([] @ mt_minor m @ SP # r4) = Some ((False, hexval (mt_minor m)), SP # r4)"
    using h n by (intro scan_hex_le) (simp_all add: digit_val_delims narrow_def)
  have 7: "scan_num 10 None ([SP] @ show_nat (mt_inode m) @ SP # r5) = Some ((False, mt_inode m), SP # r5)"
    by (intro scan_num_show) simp_all
  have 8: "g_strstrip (dropWhile (\<lambda>c. c = SP) (SP # r5)) = mt_name m"
  proof -
    have "dropWhile (\<lambda>c. c = SP) (SP # r5) = dropWhile (\<lambda>c. c = SP) (mt_name m @ [NL])"
      using ok by (auto simp: r5_def map_text_ok_def dropWhile_append dropWhile_eq_Nil_conv)
    also have "\<dots> = mt_name m @ [NL]" using ok by (cases "mt_name m") (auto simp: map_text_ok_def)
    finally show ?thesis using ok n g_strstrip_name [of "mt_name m"] by (auto simp: map_text_ok_def narrow_def)
  qed
  have "maps_scan (map_line m) = Some ((text_fields m)\<lparr>mf_filename := []\<rparr>, SP # r5)"
    using 1 2 3 4 5 6 7 h ok by (simp add: maps_scan_def Let_def r2_def r3_def r4_def text_fields_def map_text_ok_def)
  then show ?thesis using 8 by (simp add: parse_maps_line_def text_fields_def)
qed

lemma maps_loop_lines:
  assumes "\<forall>m\<in>set ms. map_text_ok m \<and> narrow m"
  shows "maps_loop junk k (map map_line ms)
    = Inr (map (\<lambda>(i, m). fill_entry MKDEV False (text_fields m) (junk i)) (enumerate k ms))"
  using assms by (induction ms arbitrary: k) (simp_all add: parse_maps_line_text)

lemma map_loop_lines:
  assumes "\<forall>m\<in>set ms. map_text_ok m"
  shows "map_loop mkdev False junk k (map map_line ms)
    = Inr (map (\<lambda>(i, m). fill_entry mkdev False (text_fields m) (junk i)) (enumerate k ms))"
  using assms by (induction ms arbitrary: k) (simp_all add: parse_line_text)

text \<open>The device: the major number in front of the 20 bits of the minor one, where the \<open>int\<close> does not overflow.\<close>

lemma MKDEV_number:
  assumes a: "a < 256" and b: "b < 256"
  shows "MKDEV (of_nat a) (of_nat b) = of_nat (a * 2 ^ 20 + b)"
proof -
  have u: "(ucast (of_nat n :: 16 word) :: 32 word) = of_nat n" if "n < 256" for n
  proof -
    have "unat (of_nat n :: 16 word) = n" using that by (simp add: unsigned_of_nat take_bit_nat_eq_self)
    then show ?thesis by (metis of_nat_unat)
  qed
  have "\<not> bit (push_bit 20 a) k \<or> \<not> bit b k" for k
  proof -
    have "b = take_bit 8 b" using b by (simp add: take_bit_nat_eq_self)
    then have "\<not> bit b k" if "8 \<le> k" using that by (metis bit_take_bit_iff leD)
    then show ?thesis by (cases "8 \<le> k") (auto simp: bit_push_bit_iff)
  qed
  then have or: "push_bit 20 a OR b = a * 2 ^ 20 + b"
    using disjunctive_add [of "push_bit 20 a" b] by (simp add: push_bit_eq_mult)
  have "push_bit 20 (of_nat a) OR of_nat b = (of_nat (a * 2 ^ 20 + b) :: 32 word)"
    unfolding or [symmetric] of_nat_or_eq by (simp only: push_bit_of_nat)
  moreover have "a * 2 ^ 20 + b < 2 ^ 31" using a b by simp
  then have "sint (of_nat (a * 2 ^ 20 + b) :: 32 word) = int (a * 2 ^ 20 + b)"
    by (simp add: signed_of_nat signed_take_bit_int_eq_self del: of_nat_add of_nat_mult)
  ultimately show ?thesis
    unfolding MKDEV_def u [OF a] u [OF b] by (simp only: scast_eq of_int_of_nat_eq)
qed

text \<open>What an entry should be: the addresses, the offset, the inode and the name of the line, the device of its two numbers, one bit
  for each letter of the permissions, the flags of the seven first fields. The sizes are not written.\<close>

definition entry_of_line :: "glibtop_map_entry \<Rightarrow> map_text \<Rightarrow> glibtop_map_entry \<Rightarrow> bool" where
  "entry_of_line junk m e \<longleftrightarrow>
     me_start e = of_nat (hexval (mt_start m)) \<and> me_end e = of_nat (hexval (mt_end m))
     \<and> me_offset e = of_nat (hexval (mt_offset m))
     \<and> me_device e = of_nat (hexval (mt_major m) * 2 ^ 20 + hexval (mt_minor m))
     \<and> me_inode e = of_nat (mt_inode m) \<and> me_filename e = take 215 (mt_name m)
     \<and> (\<forall>k. bit (me_flags e) k \<longleftrightarrow> k \<le> 6) \<and> me_smaps e = me_smaps junk
     \<and> (\<forall>k. bit (me_perm e) k \<longleftrightarrow> k = 0 \<and> mt_perm m ! 0 = CHR ''r'' \<or> k = 1 \<and> mt_perm m ! 1 = CHR ''w''
           \<or> k = 2 \<and> mt_perm m ! 2 = CHR ''x'' \<or> k = 3 \<and> mt_perm m ! 3 = CHR ''s'' \<or> k = 4 \<and> mt_perm m ! 3 = CHR ''p'')"

lemma fill_entry_line:
  assumes "map_text_ok m" "narrow m"
  shows "entry_of_line junk m (fill_entry MKDEV False (text_fields m) junk)"
proof -
  have h: "hex (mt_major m)" "hex (mt_minor m)" "length (mt_major m) \<le> 2" "length (mt_minor m) \<le> 2"
    using assms by (auto simp: map_text_ok_def narrow_def)
  have two: "hexval ds < 256" if "hex ds" "length ds \<le> 2" for ds
  proof -
    have "hexval ds < 16 ^ length ds" using that(1) by (intro digits_to_nat_less) (simp add: hex_def)
    also have "\<dots> \<le> 16 ^ 2" using that(2) by (intro power_increasing) simp_all
    finally show ?thesis by simp
  qed
  have fl: "bit sysdeps_map_entry k \<longleftrightarrow> k \<le> 6" for k
  proof -
    have "sysdeps_map_entry = mask 7" by (simp add: sysdeps_map_entry_def mask_eq_exp_minus_1)
    then have "bit sysdeps_map_entry k = bit (mask 7 :: guint64) k" by (rule arg_cong)
    then show ?thesis unfolding bit_mask_iff by auto
  qed
  show ?thesis
    using MKDEV_number [OF two [OF h(1,3)] two [OF h(2,4)]] fl map_perm_bits
    by (simp add: entry_of_line_def fill_entry_def text_fields_def ucast_of_nat16 g_strlcpy_def)
qed


definition maps_kernel :: kernel where
  "maps_kernel = file_kernel [(''/proc/7/maps'', map_line demo_map)]"

lemma maps_kernel_lines: "fopen_lines maps_kernel (''/proc/'' @ show_nat (unat (7 :: 32 word)) @ ''/maps'') = Some (map map_line [demo_map])"
proof -
  have s: "show_nat 7 = ''7''" "show_nat 1234 = ''1234''" by code_simp+
  have "text_lines [map_line demo_map]"
  proof -
    have "map_line demo_map = butlast (map_line demo_map) @ [NL]" by (simp add: map_line_def butlast_append)
    moreover have "NL \<notin> set (butlast (map_line demo_map))" "NUL \<notin> set (butlast (map_line demo_map))"
      by (simp_all add: map_line_def demo_map_def butlast_append s)
    ultimately show ?thesis by auto
  qed
  moreover have "k_read maps_kernel ''/proc/7/maps'' = Some [Chunk (concat [map_line demo_map])]"
    by (simp add: maps_kernel_def file_kernel_def map_line_def)
  ultimately show ?thesis using fopen_lines_text [of maps_kernel "''/proc/7/maps''" "[map_line demo_map]"] by (simp add: s)
qed


section \<open>The port and the Linux port of old kernels\<close>

text \<open>
  C36. What became of the code: on a machine none of whose files holds a vertical tab and whose \<open>/proc/stat\<close> fits the
  smaller buffer of this port, its functions for the processors, the swap space, and the owner, times, segments and signals of a
  process answer exactly what the Linux port answers on a kernel between 1.3.39 and 2.6; the state of a process
  differs in the last processor alone.
\<close>

theorem cygwin_as_linux:
  assumes "plain_kernel K"
    and "file_to_buffer K BUFSIZ ''/proc/stat'' = file_to_buffer K STAT_BUFSIZ ''/proc/stat''"
    and "LINUX_VERSION_CODE 1 3 39 \<le> s_os_version_code server" "\<not> kernel_2_6 server"
  shows "glibtop_get_cpu_s_cyg K server = glibtop_get_cpu_s K server
    \<and> glibtop_get_swap_s_cyg K = glibtop_get_swap_s K server
    \<and> glibtop_get_proc_uid_s_cyg K pid = glibtop_get_proc_uid_s K server pid
    \<and> glibtop_get_proc_time_s_cyg K server t pid = glibtop_get_proc_time_s K server t pid
    \<and> glibtop_get_proc_segment_s_cyg K pagesize pid = glibtop_get_proc_segment_s K pagesize pid
    \<and> glibtop_get_proc_signal_s_cyg K pid = glibtop_get_proc_signal_s K pid
    \<and> glibtop_get_proc_state_s_cyg K pid = map_sum id (\<lambda>b. b\<lparr>ps_last_processor := 0\<rparr>) (glibtop_get_proc_state_s K pid)"
  using assms
  by (simp add: cpu_cyg swap_cyg proc_uid_cyg proc_time_cyg proc_segment_cyg proc_signal_cyg proc_state_cyg)

lemma demo_process_plain: "plain_kernel demo_process"
proof -
  have "novt (show_int 7 @ '' ('' @ ''a) (b'' @ '')'' @ demo_rest)"
    by (simp add: novt_def show_int_7 demo_rest_def)
  then show ?thesis by (auto simp: plain_kernel_def demo_process_def file_kernel_def split: if_splits)
qed

theorem cygwin_as_linux_witness:
  "\<exists>b. glibtop_get_proc_state_s_cyg demo_process 7 = Inr b \<and> ps_cmd b = ''a) (b'' \<and> ps_last_processor b = 0
     \<and> glibtop_get_proc_state_s demo_process 7 = Inr (b\<lparr>ps_last_processor := 36\<rparr>)
     \<and> glibtop_get_proc_signal_s_cyg demo_process 7 = glibtop_get_proc_signal_s demo_process 7"
proof -
  let ?s = "glibtop_global_server\<lparr>s_os_version_code := 0x20400\<rparr>"
  have "file_to_buffer demo_process BUFSIZ ''/proc/stat'' = file_to_buffer demo_process STAT_BUFSIZ ''/proc/stat''"
    by (simp add: file_to_buffer_def try_file_to_buffer_def demo_process_def file_kernel_def show_int_7)
  moreover have "LINUX_VERSION_CODE 1 3 39 \<le> s_os_version_code ?s" "\<not> kernel_2_6 ?s"
    by (simp_all add: LINUX_VERSION_CODE_def kernel_2_6_def)
  ultimately have e: "glibtop_get_proc_signal_s_cyg demo_process 7 = glibtop_get_proc_signal_s demo_process 7"
    "glibtop_get_proc_state_s_cyg demo_process 7
       = map_sum id (\<lambda>b. b\<lparr>ps_last_processor := 0\<rparr>) (glibtop_get_proc_state_s demo_process 7)"
    using cygwin_as_linux [OF demo_process_plain, of ?s 7] by blast+
  obtain b where "glibtop_get_proc_state_s demo_process 7 = Inr b" "ps_cmd b = ''a) (b''" "ps_last_processor b = 36"
    using proc_state_spec_witness by auto
  then show ?thesis using e by (intro exI [of _ "b\<lparr>ps_last_processor := 0\<rparr>"]) simp
qed

end
