(* ===== verification/Common.thy ===== *)
theory Common
  imports Client FileSystems
begin

unbundle bit_operations_syntax

text \<open>
  \<open>sysdeps/common\<close>, as far as the ports have no file of their own in its place: \<open>fsusage.c\<close>, \<open>error.c\<close> and the aliases
  in \<open>default.c\<close>. What \<open>statvfs\<close> or \<open>statfs\<close> leaves is a parameter.
\<close>

section \<open>fsusage.c\<close>

text \<open>Unsigned members that are narrower than 64 bits.\<close>

definition PROPAGATE_ALL_ONES :: "'a::len word \<Rightarrow> guint64" where
  "PROPAGATE_ALL_ONES x =
     (if LENGTH('a) < 64
         \<and> (if LENGTH('a) < 32 then NOT (ucast x :: 32 word) = - push_bit LENGTH('a) 1 else NOT x = 0)
      then - 1 else ucast x)"

definition EXTRACT_TOP_BIT :: "'a::len word \<Rightarrow> guint64" where
  "EXTRACT_TOP_BIT x = ucast x AND push_bit (LENGTH('a) - 1) 1"

definition PROPAGATE_TOP_BIT :: "'a::len word \<Rightarrow> guint64" where
  "PROPAGATE_TOP_BIT x = ucast x OR NOT (EXTRACT_TOP_BIT x - 1)"

text \<open>The structs: the members that the function reads. A \<open>long\<close> of \<open>struct statfs\<close> has 64 bits and a sign.\<close>

record vfs_stat = statvfs +
  f_frsize :: "64 word"

record statfs_long =
  fl_fsize :: "64 word"
  fl_bsize :: "64 word"
  fl_blocks :: "64 word"
  fl_bfree :: "64 word"
  fl_bavail :: "64 word"
  fl_files :: "64 word"
  fl_ffree :: "64 word"
  fl_spare :: "64 word \<times> 64 word \<times> 64 word"

record fs_data =  \<comment> \<open>\<open>fd_req\<close> of Ultrix\<close>
  btot :: "32 word"
  bfree :: "32 word"
  bfreen :: "32 word"
  gtot :: "32 word"
  gfree :: "32 word"

text \<open>What \<open>configure\<close> found, with the result of the call.\<close>

datatype fsd =
    STAT_STATFS3_OSF1 "statfs_long option"
  | STAT_STATFS2_FS_DATA "fs_data option"
  | STAT_STATFS2_BSIZE bool "statfs_long option"  \<comment> \<open>\<open>STATFS_TRUNCATES_BLOCK_COUNTS\<close>\<close>
  | STAT_STATVFS bool "vfs_stat option"           \<comment> \<open>Solaris, FreeBSD, OpenBSD\<close>
  | STAT_STATFS2_FSIZE "statfs_long option"
  | STAT_STATFS4 bool "statfs_long option"        \<comment> \<open>AIX\<close>

definition untruncated :: "statfs_long \<Rightarrow> statfs_long" where
  "untruncated d =
     (if sint (fl_blocks d) = 0x7fffffff div sint (fl_bsize d) \<and> 0 < sint (fst (fl_spare d))
      then d\<lparr>fl_blocks := fst (fl_spare d), fl_bfree := fst (snd (fl_spare d)), fl_bavail := snd (snd (fl_spare d))\<rparr>
      else d)"

definition long_usage :: "guint32 \<Rightarrow> statfs_long \<Rightarrow> glibtop_fsusage" where
  "long_usage block_size d = fsusage_zero\<lparr>fu_block_size := block_size, fu_blocks := fl_blocks d, fu_bfree := fl_bfree d,
     fu_bavail := (if sint (fl_bfree d) < sint (fl_bavail d) then 0 else fl_bavail d),
     fu_files := fl_files d, fu_ffree := fl_ffree d, fu_flags := sysdeps_fsusage\<rparr>"

text \<open>\<open>glibtop_init_r\<close> at its start finds the server initialised by the stub that called it. No port that uses this file
  reads or writes bytes: \<open>_glibtop_get_fsusage_read_write\<close> is empty. The division by a \<open>f_bsize\<close> of 0 is not one that a system
  with truncated counts makes.\<close>

fun glibtop_get_fsusage_s_common :: "fsd \<Rightarrow> glibtop_fsusage" where
  "glibtop_get_fsusage_s_common (STAT_STATFS3_OSF1 r) =
     (case r of None \<Rightarrow> fsusage_zero | Some d \<Rightarrow> long_usage (ucast (PROPAGATE_ALL_ONES (fl_fsize d))) d)"
| "glibtop_get_fsusage_s_common (STAT_STATFS2_FS_DATA r) =
     (case r of None \<Rightarrow> fsusage_zero
      | Some d \<Rightarrow> fsusage_zero\<lparr>fu_block_size := 1024, fu_blocks := PROPAGATE_ALL_ONES (btot d),
          fu_bfree := PROPAGATE_ALL_ONES (bfree d), fu_bavail := PROPAGATE_TOP_BIT (bfreen d),
          fu_files := PROPAGATE_ALL_ONES (gtot d), fu_ffree := PROPAGATE_ALL_ONES (gfree d), fu_flags := sysdeps_fsusage\<rparr>)"
| "glibtop_get_fsusage_s_common (STAT_STATFS2_BSIZE truncates r) =
     (case r of None \<Rightarrow> fsusage_zero
      | Some d \<Rightarrow> long_usage (ucast (PROPAGATE_ALL_ONES (fl_bsize d))) (if truncates then untruncated d else d))"
| "glibtop_get_fsusage_s_common (STAT_STATVFS svr4 r) =
     (case r of None \<Rightarrow> fsusage_zero
      | Some d \<Rightarrow> fsusage_zero\<lparr>fu_block_size := ucast (if svr4 then f_frsize d else f_bsize d), fu_blocks := f_blocks d,
          fu_bfree := f_bfree d, fu_bavail := (if f_bfree d < f_bavail d then 0 else f_bavail d),
          fu_files := f_files d, fu_ffree := f_ffree d, fu_flags := sysdeps_fsusage\<rparr>)"
| "glibtop_get_fsusage_s_common (STAT_STATFS2_FSIZE r) =
     (case r of None \<Rightarrow> fsusage_zero | Some d \<Rightarrow> long_usage (ucast (PROPAGATE_ALL_ONES (fl_fsize d))) d)"
| "glibtop_get_fsusage_s_common (STAT_STATFS4 aix r) =
     (case r of None \<Rightarrow> fsusage_zero
      | Some d \<Rightarrow> if aix then long_usage (ucast (PROPAGATE_ALL_ONES (fl_bsize d))) d
                  else long_usage 512 (d\<lparr>fl_bavail := fl_bfree d\<rparr>))"

text \<open>What the macros compute: a value of all ones stays one, a negative one keeps its sign.\<close>

lemma propagate_all_ones:
  fixes x :: "'a::len word"
  assumes "LENGTH('a) \<le> 64"
  shows "PROPAGATE_ALL_ONES x = (if x = - 1 then - 1 else ucast x)"
proof -
  have all: "(NOT (ucast x :: 32 word) = - push_bit LENGTH('a) 1) = (x = - 1)" if l: "LENGTH('a) < 32"
  proof -
    have m: "NOT (- push_bit LENGTH('a) 1 :: 32 word) = mask LENGTH('a)"
      by (simp add: mask_eq_exp_minus_1 push_bit_of_1 not_eq_complement)
    have "(NOT (ucast x :: 32 word) = - push_bit LENGTH('a) 1) = ((ucast x :: 32 word) = mask LENGTH('a))"
      using m by (metis bit.double_compl)
    also have "\<dots> = (x = - 1)"
    proof
      assume u: "(ucast x :: 32 word) = mask LENGTH('a)"
      show "x = - 1"
      proof (rule bit_word_eqI)
        fix n assume n: "n < LENGTH('a)"
        then have "bit (ucast x :: 32 word) n" using l by (simp add: u bit_mask_iff)
        then show "bit x n = bit (- 1 :: 'a word) n" using n by (simp add: bit_ucast_iff)
      qed
    next
      assume "x = - 1"
      then show "(ucast x :: 32 word) = mask LENGTH('a)"
        using l by (intro bit_word_eqI) (auto simp: bit_ucast_iff bit_mask_iff)
    qed
    finally show ?thesis .
  qed
  have "(NOT x = 0) = (x = - 1)" by (metis bit.compl_zero bit.double_compl)
  moreover have "(ucast (- 1 :: 'a word) :: guint64) = - 1" if "LENGTH('a) = 64"
    using that by (intro bit_word_eqI) (simp add: bit_simps)
  ultimately show ?thesis using all assms
    by (cases "LENGTH('a) < 64"; cases "LENGTH('a) < 32") (auto simp: PROPAGATE_ALL_ONES_def)
qed

lemma propagate_top_bit:
  fixes x :: "'a::len word"
  assumes "LENGTH('a) \<le> 64"
  shows "PROPAGATE_TOP_BIT x = scast x"
proof (rule bit_word_eqI)
  fix n assume n: "n < LENGTH(64)"
  have t: "EXTRACT_TOP_BIT x = (if bit x (LENGTH('a) - 1) then push_bit (LENGTH('a) - 1) 1 else 0)"
    using assms by (intro bit_word_eqI) (auto simp: EXTRACT_TOP_BIT_def bit_simps)
  have m: "bit (NOT (push_bit (LENGTH('a) - 1) 1 - 1 :: guint64)) n \<longleftrightarrow> LENGTH('a) - 1 \<le> n"
    using n by (simp add: push_bit_of_1 flip: mask_eq_exp_minus_1) (simp add: bit_simps not_less)
  have "bit x n \<Longrightarrow> n = LENGTH('a) - 1 \<or> n < LENGTH('a) - 1"
    using bit_imp_le_length [of x n] by linarith
  then show "bit (PROPAGATE_TOP_BIT x) n = bit (scast x :: guint64) n"
    using n m assms by (auto simp: PROPAGATE_TOP_BIT_def t bit_simps min_def not_le)
qed

section \<open>error.c\<close>

datatype message_level = MESSAGE_DEBUG | MESSAGE_WARNING | MESSAGE_ERROR

fun level_name :: "message_level \<Rightarrow> string" where
  "level_name MESSAGE_DEBUG = ''DEBUG''"
| "level_name MESSAGE_WARNING = ''WARNING''"
| "level_name MESSAGE_ERROR = ''ERROR''"

text \<open>The text that goes to \<open>stderr\<close>. \<open>own\<close> is \<open>getpid ()\<close>, \<open>body\<close> the format filled in, \<open>error\<close> the text of the error
  number; \<open>None\<close> stands for the NULL server and for the number 0. The pids are printed with \<open>%u\<close>.\<close>

definition print_message :: "32 word \<Rightarrow> glibtop option \<Rightarrow> message_level \<Rightarrow> string \<Rightarrow> string option \<Rightarrow> string" where
  "print_message own server level body error =
     (case Option.bind server s_name of Some nm \<Rightarrow> nm | None \<Rightarrow> ''LibGTop-Server'')
     @ (case server of
          Some s \<Rightarrow> (if s_pid s \<noteq> 0 then ''(c='' @ show_nat (unat own) @ ''/s='' @ show_nat (nat (s_pid s mod 2 ^ 32)) @ '')''
                    else ''(c='' @ show_nat (unat own) @ '')'')
        | None \<Rightarrow> ''(c='' @ show_nat (unat own) @ '')'')
     @ '': ['' @ level_name level @ ''] '' @ body
     @ (case error of None \<Rightarrow> [] | Some e \<Rightarrow> '': '' @ e) @ [NL]"

text \<open>What a call does to the process: \<open>LIBGTOP_ENABLE_DEBUG\<close> and \<open>LIBGTOP_FATAL_WARNINGS\<close> are chosen when the library is built.\<close>

datatype ending = Returns | Exit_1 | Abort

record build =
  enable_debug :: bool
  fatal_warnings :: bool

definition glibtop_error_io_vr :: "build \<Rightarrow> 32 word \<Rightarrow> glibtop option \<Rightarrow> string \<Rightarrow> string option \<Rightarrow> string \<times> ending" where
  "glibtop_error_io_vr B own server body error =
     (print_message own server MESSAGE_ERROR body error, if enable_debug B then Abort else Exit_1)"

definition glibtop_error_vr :: "build \<Rightarrow> 32 word \<Rightarrow> glibtop option \<Rightarrow> string \<Rightarrow> string \<times> ending" where
  "glibtop_error_vr B own server body =
     (print_message own server MESSAGE_ERROR body None, if enable_debug B then Abort else Exit_1)"

definition glibtop_warn_io_vr :: "build \<Rightarrow> 32 word \<Rightarrow> glibtop option \<Rightarrow> string \<Rightarrow> string option \<Rightarrow> string \<times> ending" where
  "glibtop_warn_io_vr B own server body error =
     (print_message own server MESSAGE_WARNING body error, if fatal_warnings B then Abort else Returns)"

definition glibtop_warn_vr :: "build \<Rightarrow> 32 word \<Rightarrow> glibtop option \<Rightarrow> string \<Rightarrow> string \<times> ending" where
  "glibtop_warn_vr B own server body =
     (print_message own server MESSAGE_WARNING body None, if fatal_warnings B then Abort else Returns)"

definition glibtop_debug_vr :: "32 word \<Rightarrow> glibtop option \<Rightarrow> string \<Rightarrow> string \<times> ending" where
  "glibtop_debug_vr own server body = (print_message own server MESSAGE_DEBUG body None, Returns)"

text \<open>The functions that take their arguments one by one: \<open>errno\<close> is an argument, \<open>strerror\<close> a parameter.\<close>

definition error_text :: "(32 word \<Rightarrow> string) \<Rightarrow> 32 word \<Rightarrow> string option" where
  "error_text strerror errno = (if errno = 0 then None else Some (strerror errno))"

definition glibtop_error_io_r ::
  "build \<Rightarrow> 32 word \<Rightarrow> (32 word \<Rightarrow> string) \<Rightarrow> 32 word \<Rightarrow> glibtop option \<Rightarrow> string \<Rightarrow> string \<times> ending" where
  "glibtop_error_io_r B own strerror errno server body = glibtop_error_io_vr B own server body (error_text strerror errno)"

definition glibtop_warn_io_r ::
  "build \<Rightarrow> 32 word \<Rightarrow> (32 word \<Rightarrow> string) \<Rightarrow> 32 word \<Rightarrow> glibtop option \<Rightarrow> string \<Rightarrow> string \<times> ending" where
  "glibtop_warn_io_r B own strerror errno server body = glibtop_warn_io_vr B own server body (error_text strerror errno)"

definition glibtop_error :: "build \<Rightarrow> 32 word \<Rightarrow> glibtop \<Rightarrow> string \<Rightarrow> string \<times> ending" where
  \<comment> \<open>with the global server\<close>
  "glibtop_error B own global body = glibtop_error_vr B own (Some global) body"

definition glibtop_warn :: "build \<Rightarrow> 32 word \<Rightarrow> glibtop \<Rightarrow> string \<Rightarrow> string \<times> ending" where
  "glibtop_warn B own global body = glibtop_warn_vr B own (Some global) body"

lemma error_ends: "snd (glibtop_error_io_r B own se e server body) \<noteq> Returns" "snd (glibtop_error_vr B own server body) \<noteq> Returns"
  by (simp_all add: glibtop_error_io_r_def glibtop_error_io_vr_def glibtop_error_vr_def)

section \<open>default.c\<close>

text \<open>An alias without a suffix calls the function on \<open>glibtop_global_server\<close>; here that is the client that is passed on.\<close>

definition glibtop_init :: "world \<Rightarrow> client \<Rightarrow> client res" where
  "glibtop_init W global = glibtop_init_r W 0 0 global"

definition glibtop_close :: "client \<Rightarrow> (closed \<times> client) res" where
  "glibtop_close global = glibtop_close_r global"

definition glibtop_get :: "world \<Rightarrow> service \<Rightarrow> feature \<Rightarrow> call_arg \<Rightarrow> client \<Rightarrow> ((string \<times> string option) \<times> client) res" where
  "glibtop_get W svc f a global = glibtop_get_l W svc f a global"

end
