(* ===== verification/CygPort.thy ===== *)
theory CygPort
  imports LinuxPort CygProc Common
begin

unbundle bit_operations_syntax

text \<open>
  The Cygwin port as a whole: the table of its functions as a service, its init functions, and the
  interpretations that carry the lemmas about any port over to it. All functions run in the client
  (\<open>glibtop_server.h\<close> gives no feature to a server). The port has no \<open>procio.c\<close>, so that the library does not link
  there; the service has no function for that feature.
\<close>

section \<open>The functions of the port\<close>

record cyg_machine = machine +
  ym_mount_junk :: "nat \<Rightarrow> guint64"
  ym_fsd :: "string \<Rightarrow> fsd"

definition suid_cyg :: "feature \<Rightarrow> bool" where
  "suid_cyg f \<longleftrightarrow> False"

definition netload_none :: glibtop_netload where "netload_none = netload_zero"

definition netlist_none :: "glibtop_netlist \<times> string list option" where
  "netlist_none = (\<lparr>nli_flags = 0, nli_number = 0\<rparr>, None)"

definition ppp_none :: glibtop_ppp where
  "ppp_none = \<lparr>ppp_flags = 0, ppp_state = 0, ppp_bytes_in = 0, ppp_bytes_out = 0\<rparr>"

definition disk_none :: glibtop_disk where "disk_none = disk_zero"

fun cyg_service :: "cyg_machine \<Rightarrow> glibtop \<Rightarrow> service" where
  "cyg_service M s F_CPU a = ret cpu_bytes (glibtop_get_cpu_s_cyg (mc_kernel M) s)"
| "cyg_service M s F_MEM a = ret mem_bytes (glibtop_get_mem_s_cyg (mc_kernel M))"
| "cyg_service M s F_SWAP a = ret swap_bytes (glibtop_get_swap_s_cyg (mc_kernel M))"
| "cyg_service M s F_UPTIME a = ret uptime_bytes (glibtop_get_uptime_s_cyg (mc_strtod M) (mc_kernel M) (mc_boot_time M))"
| "cyg_service M s F_LOADAVG a = ret loadavg_bytes (glibtop_get_loadavg_s_cyg (mc_strtod M) (mc_kernel M))"
| "cyg_service M s F_SHM_LIMITS a = ret shm_bytes (Inr (glibtop_get_shm_limits_s (mc_shminfo M)))"
| "cyg_service M s F_MSG_LIMITS a = ret msg_bytes (Inr (glibtop_get_msg_limits_s_cyg (mc_msginfo M)))"
| "cyg_service M s F_SEM_LIMITS a = ret sem_bytes (Inr (glibtop_get_sem_limits_s (mc_seminfo M)))"
| "cyg_service M s F_PROCLIST a =
     bind_res (glibtop_get_proclist_s (mc_kernel M) (mc_fstat_ok M) s (fst (arg_list a)) (snd (arg_list a)))
       (\<lambda>(b, pids). Inr (proclist_bytes b, map_option u32s_bytes pids))"
| "cyg_service M s F_PROC_STATE a = ret proc_state_bytes (glibtop_get_proc_state_s_cyg (mc_kernel M) (sint (arg_pid a)))"
| "cyg_service M s F_PROC_UID a = ret proc_uid_bytes (Inr (glibtop_get_proc_uid_s_cyg (mc_kernel M) (sint (arg_pid a))))"
| "cyg_service M s F_PROC_MEM a = ret proc_mem_bytes (Inr (glibtop_get_proc_mem_s (mc_kernel M) (mc_pagesize M) (sint (arg_pid a))))"
| "cyg_service M s F_PROC_TIME a =
     ret proc_time_bytes (glibtop_get_proc_time_s_cyg (mc_kernel M) s (mc_boot_time M) (sint (arg_pid a)))"
| "cyg_service M s F_PROC_SIGNAL a = ret proc_signal_bytes (Inr (glibtop_get_proc_signal_s_cyg (mc_kernel M) (sint (arg_pid a))))"
| "cyg_service M s F_PROC_KERNEL a = ret proc_kernel_bytes (Inr glibtop_get_proc_kernel_s_cyg)"
| "cyg_service M s F_PROC_SEGMENT a =
     ret proc_segment_bytes (Inr (glibtop_get_proc_segment_s_cyg (mc_kernel M) (mc_pagesize M) (sint (arg_pid a))))"
| "cyg_service M s F_PROC_ARGS a =
     (let (b, block) = glibtop_get_proc_args_s (mc_kernel M) (sint (arg_pid a)) (arg_max a) in Inr (proc_args_bytes b, block))"
| "cyg_service M s F_PROC_MAP a =
     bind_res (glibtop_get_proc_map_s_cyg (mc_kernel M) (mc_map_junk M) (arg_pid a))
       (\<lambda>(b, es). Inr (proc_map_bytes b, map_option (\<lambda>es. concat (map map_entry_bytes es)) es))"
| "cyg_service M s F_MOUNTLIST a =
     (let (b, es) = glibtop_get_mountlist_s_cyg (mc_kernel M) (ym_mount_junk M) (mc_mtab M) (arg_int a)
      in Inr (mountlist_bytes b, Some (concat (map mountentry_bytes es))))"
| "cyg_service M s F_FSUSAGE a = ret fsusage_bytes (Inr (glibtop_get_fsusage_s_common (ym_fsd M (arg_string a))))"
| "cyg_service M s F_NETLOAD a = ret netload_bytes (Inr netload_none)"
| "cyg_service M s F_NETLIST a = (let (b, devs) = netlist_none in Inr (netlist_bytes b, map_option strings devs))"
| "cyg_service M s F_PPP a = ret ppp_bytes (Inr ppp_none)"
| "cyg_service M s F_PROC_OPEN_FILES a =
     (let (b, es) = glibtop_get_proc_open_files_s (mc_ntop6 M) (mc_kernel M) (sint (arg_pid a))
      in Inr (open_files_bytes b, map_option (\<lambda>es. concat (map open_entry_bytes es)) es))"
| "cyg_service M s F_PROC_WD a =
     (let (b, dirs) = glibtop_get_proc_wd_s (mc_kernel M) (arg_pid a) in Inr (proc_wd_bytes b, Some (strings dirs)))"
| "cyg_service M s F_PROC_AFFINITY a =
     (let (b, cpus) = glibtop_get_proc_affinity_s_cyg in Inr (affinity_bytes b, map_option (\<lambda>cs. concat (map u16_bytes cs)) cpus))"
| "cyg_service M s F_PROC_IO a = Inl (Crash ''the port has no procio.c'')"
| "cyg_service M s F_DISK a = ret disk_bytes (Inr disk_none)"

fun cyg_hook :: "feature \<Rightarrow> glibtop \<Rightarrow> glibtop" where
  "cyg_hook F_CPU = init_cpu_s_cyg"
| "cyg_hook F_MEM = init_mem_s_cyg"
| "cyg_hook F_MSG_LIMITS = init_msg_limits_s_cyg"
| "cyg_hook F_PROC_MEM = set_sysdeps F_PROC_MEM sysdeps_proc_mem"
| "cyg_hook F_PROC_KERNEL = init_proc_kernel_s_cyg"
| "cyg_hook F_PROC_AFFINITY = init_proc_affinity_s_cyg"
| "cyg_hook F_NETLOAD = set_sysdeps F_NETLOAD 0"
| "cyg_hook F_NETLIST = set_sysdeps F_NETLIST 0"
| "cyg_hook F_PPP = set_sysdeps F_PPP 0"
| "cyg_hook F_DISK = set_sysdeps F_DISK 0"
| "cyg_hook F_PROC_IO = id"
| "cyg_hook f = linux_hook f"

definition cyg_world :: "cyg_machine \<Rightarrow> world \<Rightarrow> world" where
  "cyg_world M base = base\<lparr>w_suid := suid_cyg, w_hook := cyg_hook,
     w_open_s := (\<lambda>s. glibtop_open_s_cyg (mc_kernel M) s ''glibtop'')\<rparr>"

section \<open>The laws\<close>

lemmas none_defs = netload_none_def netlist_none_def ppp_none_def disk_none_def glibtop_get_proc_affinity_s_cyg_def

lemma cyg_struct_size:
  assumes "cyg_service M s f a = Inr (st, ptr)"
  shows "length st = sizeof_struct f"
  using assms
  by (cases f) (auto simp: ret_def bind_res_Inr_iff bytes_defs none_defs Let_def netload_zero_def split: prod.splits)

lemma cyg_block_size:
  assumes r: "cyg_service M s f (daemon_arg a) = Inr (st, ptr)" and out: "output_size f st ptr \<noteq> 0"
  shows "\<exists>d. ptr = Some d \<and> unat (output_size f st ptr) \<le> length d"
proof -
  have "f \<in> {F_PROCLIST, F_PROC_ARGS, F_PROC_MAP, F_MOUNTLIST}"
    using out by (auto simp: output_size_def split: if_splits)
  then show ?thesis
  proof (elim insertE)
    assume f: "f = F_PROCLIST"
    show ?thesis by (rule linux_block_size [of "machine.truncate M" s f a, OF _ out]) (use r f in \<open>simp add: machine.truncate_def\<close>)
  next
    assume f: "f = F_PROC_ARGS"
    show ?thesis by (rule linux_block_size [of "machine.truncate M" s f a, OF _ out]) (use r f in \<open>simp add: machine.truncate_def\<close>)
  next
    assume f: "f = F_PROC_MAP"
    then obtain b es where b: "glibtop_get_proc_map_s_cyg (mc_kernel M) (mc_map_junk M) (arg_pid (daemon_arg a)) = Inr (b, es)"
      "st = proc_map_bytes b" "ptr = map_option (\<lambda>es. concat (map map_entry_bytes es)) es"
      using r by (auto simp: bind_res_Inr_iff)
    then have "pm_total b = (case es of None \<Rightarrow> 0 | Some ps \<Rightarrow> of_nat (length ps) * of_nat 336)"
      by (auto simp: glibtop_get_proc_map_s_cyg_def bind_res_Inr_iff split: option.splits)
    with b out unat_times_le [of _ 336] length_concat_map [of _ map_entry_bytes 336, OF length_map_entry_bytes] show ?thesis
      by (cases es) (simp_all add: f output_size_def proc_map_bytes_def mult.commute)
  next
    assume f: "f = F_MOUNTLIST"
    then obtain b es where b: "glibtop_get_mountlist_s_cyg (mc_kernel M) (ym_mount_junk M) (mc_mtab M) (arg_int (daemon_arg a)) = (b, es)"
      "st = mountlist_bytes b" "ptr = Some (concat (map mountentry_bytes es))"
      using r by (auto simp: Let_def split: prod.splits)
    then have "ml_total b = of_nat (length es) * of_nat 248"
      by (auto simp: glibtop_get_mountlist_s_cyg_def Let_def)
    with b unat_times_le [of "length es" 248] length_concat_map [of es mountentry_bytes 248, OF length_mountentry_bytes] show ?thesis
      by (simp add: f output_size_def mountlist_bytes_def mult.commute)
  qed simp
qed

interpretation cyg_getters: getter_service "cyg_service M s" for M s
  by unfold_locales (blast intro: cyg_struct_size cyg_block_size)+

lemma cyg_hook_core: "core (cyg_hook f s) = core s"
  by (cases f) (simp_all add: core_set_sysdeps linux_hook_core init_cpu_s_cyg_def init_mem_s_cyg_def init_msg_limits_s_cyg_def
      init_proc_kernel_s_cyg_def init_proc_affinity_s_cyg_def del: linux_hook.simps)

lemma cyg_open_core: "glibtop_open_s_cyg K s nm = Inr s' \<Longrightarrow> core s' = core s"
  by (auto simp: glibtop_open_s_cyg_def bind_res_Inr_iff core_def Let_def)

interpretation cyg: sysdeps_port "cyg_world M base" for M base
  by unfold_locales (auto simp: cyg_world_def cyg_hook_core cyg_open_core)

end
