(* ===== verification/CommonMount.thy ===== *)
theory CommonMount
  imports Common FbMount
begin

unbundle bit_operations_syntax

text \<open>
  \<open>sysdeps/common/mountlist.c\<close>: the table of the mounted file systems on the systems whose port has no file of its own
  for it. \<open>configure\<close> defines one of the \<open>MOUNTED_\<close> macros. The branch for AIX (\<open>MOUNTED_VMOUNT\<close>) lacks a comma and
  does not compile; it is left out.
\<close>

section \<open>What the system gives\<close>

record mnt_stat =                \<comment> \<open>\<open>struct statfs\<close>, \<open>struct fs_data\<close>, \<open>struct mnttab\<close>\<close>
  mt_from :: string
  mt_on :: string
  mt_name :: string              \<comment> \<open>the name of the type, or what a table of the system has for its number\<close>
  mt_number :: "16 word"         \<comment> \<open>\<open>f_type\<close>, as \<open>fstype_to_string\<close> gets it\<close>
  mt_dev :: guint64

text \<open>The lists are \<open>None\<close> where the first call fails. A \<open>bool\<close> says whether the last call (\<open>endmntent\<close>, \<open>fclose\<close>,
  \<open>getmnt\<close>) works.\<close>

datatype mounted =
    MOUNTED_LISTMNTENT "mntent list option"
  | MOUNTED_GETMNTENT1 "mntent list option" bool
  | MOUNTED_GETMNTINFO bool "string \<Rightarrow> 16 word option" "mnt_stat list option"
      \<comment> \<open>NetBSD, OpenBSD or FreeBSD; the values of the \<open>MOUNT_\<close> macros by the names in \<open>fstype_to_string\<close>\<close>
  | MOUNTED_GETMNT "mnt_stat list" bool
  | MOUNTED_GETFSSTAT "mnt_stat list option"
  | MOUNTED_FREAD "mnt_stat list option" bool
  | MOUNTED_FREAD_FSTYP "string \<Rightarrow> string option" "mnt_stat list option" bool
      \<comment> \<open>with the type that \<open>statfs\<close> and \<open>sysfs\<close> give for a directory\<close>
  | MOUNTED_GETMNTTBL "mnt_stat list"
  | MOUNTED_GETMNTENT2 "mnt_stat list option" bool bool   \<comment> \<open>and whether the last \<open>getmntent\<close> gives an error\<close>

section \<open>mountlist.c\<close>

record mount_entry =
  md_devname :: string
  md_mountdir :: string
  md_type :: "string option"     \<comment> \<open>\<open>None\<close>: the pointer is not set\<close>
  md_dev :: guint64

definition fstype_names :: "string list" where
  "fstype_names = [''pc'', ''mfs'', ''lo'', ''tfs'', ''tmp'', ''ufs'', ''nfs'', ''msdos'', ''lfs'', ''lofs'', ''fdesc'', ''portal'',
     ''null'', ''umap'', ''kernfs'', ''procfs'', ''afs'', ''cd9660'', ''union'', ''devfs'', ''ext2fs'']"

definition fstype_to_string :: "(string \<Rightarrow> 16 word option) \<Rightarrow> 16 word \<Rightarrow> string" where
  \<comment> \<open>the \<open>switch\<close> over the macros that are defined\<close>
  "fstype_to_string mount_macro t =
     (case List.find (\<lambda>nm. mount_macro nm = Some t) fstype_names of None \<Rightarrow> ''?'' | Some nm \<Rightarrow> nm)"

definition entry_mntent :: "guint64 \<Rightarrow> mntent \<Rightarrow> mount_entry" where
  "entry_mntent dev mnt = \<lparr>md_devname = mnt_fsname mnt, md_mountdir = mnt_dir mnt, md_type = Some (mnt_type mnt), md_dev = dev\<rparr>"

definition entry_stat :: "string option \<Rightarrow> mnt_stat \<Rightarrow> mount_entry" where
  "entry_stat ty st = \<lparr>md_devname = mt_from st, md_mountdir = mt_on st, md_type = ty, md_dev = - 1\<rparr>"

definition devopt :: "mntent \<Rightarrow> guint64" where
  "devopt mnt = (case strstr (mnt_opts mnt) ''dev='' of None \<Rightarrow> - 1 | Some opt \<Rightarrow> fst (strtoull 0 (drop 4 opt)))"

fun read_filesystem_list_c :: "mounted \<Rightarrow> mount_entry list option" where
  "read_filesystem_list_c (MOUNTED_LISTMNTENT ms) = map_option (map (entry_mntent (- 1))) ms"
| "read_filesystem_list_c (MOUNTED_GETMNTENT1 ms ended) =
     (case ms of None \<Rightarrow> None | Some ms \<Rightarrow> if \<not> ended then None else Some (map (\<lambda>mnt. entry_mntent (devopt mnt) mnt) ms))"
| "read_filesystem_list_c (MOUNTED_GETMNTINFO bsd mount_macro ms) =
     map_option (map (\<lambda>fsp. entry_stat (Some (if bsd then mt_name fsp else fstype_to_string mount_macro (mt_number fsp))) fsp)) ms"
| "read_filesystem_list_c (MOUNTED_GETMNT ms ended) =
     (if \<not> ended then None else Some (map (\<lambda>fsd. (entry_stat (Some (mt_name fsd)) fsd)\<lparr>md_dev := mt_dev fsd\<rparr>) ms))"
| "read_filesystem_list_c (MOUNTED_GETFSSTAT ms) = map_option (map (\<lambda>st. entry_stat (Some (mt_name st)) st)) ms"
| "read_filesystem_list_c (MOUNTED_FREAD ms closed) =
     (case ms of None \<Rightarrow> None
      | Some ms \<Rightarrow> if \<not> closed then None
          else Some (map (\<lambda>mnt. (entry_stat (Some []) mnt)\<lparr>md_devname := ''/dev/'' @ mt_from mnt\<rparr>) ms))"
| "read_filesystem_list_c (MOUNTED_FREAD_FSTYP fstyp ms closed) =
     (case ms of None \<Rightarrow> None
      | Some ms \<Rightarrow> if \<not> closed then None else Some (map (\<lambda>mnt. entry_stat (fstyp (mt_on mnt)) mnt) ms))"
| "read_filesystem_list_c (MOUNTED_GETMNTTBL ms) = Some (map (\<lambda>ent. entry_stat (Some (mt_name ent)) ent) ms)"
| "read_filesystem_list_c (MOUNTED_GETMNTENT2 ms closed failed) =
     (case ms of None \<Rightarrow> None
      | Some ms \<Rightarrow> if \<not> closed then None else if failed then None
          else Some (map (\<lambda>mnt. entry_stat (Some (mt_name mnt)) mnt) ms))"

definition ignored_types_c :: "string list" where
  "ignored_types_c = [''autofs'', ''binfmt_misc'', ''ctfs'', ''devfs'', ''devpts'', ''fusectl'', ''linprocfs'', ''mfs'', ''mntfs'',
     ''mqueue'', ''none'', ''nsfd'', ''objfs'', ''openpromfs'', ''proc'', ''procfs'', ''rpc_pipefs'', ''securityfs'', ''supermount'',
     ''sysfs'', ''tmpfs'', ''unknown'', ''usbdevfs'', ''usbfs'']"

definition ignore_mount_entry_c :: "string \<Rightarrow> bool" where
  \<comment> \<open>of the type of an entry\<close>
  "ignore_mount_entry_c ty \<longleftrightarrow> bsearch (strcmp ty) ignored_types_c 0 (length ignored_types_c) \<noteq> None"

fun mount_array_loop :: "bool \<Rightarrow> mount_entry list \<Rightarrow> glibtop_mountentry list \<Rightarrow> glibtop_mountentry list res" where
  \<comment> \<open>the type of an entry is always looked at\<close>
  "mount_array_loop all_fs [] mount_array = Inr mount_array"
| "mount_array_loop all_fs (cur # entries) mount_array =
     (case md_type cur of
        None \<Rightarrow> Inl (Crash ''me_type is not set'')
      | Some ty \<Rightarrow>
          mount_array_loop all_fs entries
            (if all_fs \<or> \<not> ignore_mount_entry_c ty
             then mount_array @ [\<lparr>mo_dev = md_dev cur, mo_devname = g_strlcpy (md_devname cur) 80,
                    mo_mountdir = g_strlcpy (md_mountdir cur) 80, mo_type = g_strlcpy ty 80\<rparr>]
             else mount_array))"

definition glibtop_get_mountlist_s_common ::
  "mounted \<Rightarrow> gint32 \<Rightarrow> (glibtop_mountlist \<times> glibtop_mountentry list option) res" where
  \<comment> \<open>a list without entries is NULL as well; so is the data of an empty \<open>GArray\<close>\<close>
  "glibtop_get_mountlist_s_common mounted all_fs =
     (case read_filesystem_list_c mounted of
        None \<Rightarrow> Inr (\<lparr>ml_flags = 0, ml_number = 0, ml_total = 0, ml_size = 0\<rparr>, None)
      | Some [] \<Rightarrow> Inr (\<lparr>ml_flags = 0, ml_number = 0, ml_total = 0, ml_size = 0\<rparr>, None)
      | Some entries \<Rightarrow>
          bind_res (mount_array_loop (all_fs \<noteq> 0) entries []) (\<lambda>mount_array.
            let number = of_nat (length mount_array) in
            Inr (\<lparr>ml_flags = flag 2 OR flag 0 OR flag 1, ml_number = number, ml_total = number * 248, ml_size = 248\<rparr>,
                 if mount_array = [] then None else Some mount_array)))"

section \<open>What is listed\<close>

lemma ignored_searched_c:
  "list_all (\<lambda>t. bsearch (strcmp t) ignored_types_c 0 (length ignored_types_c) \<noteq> None \<longleftrightarrow> t \<noteq> []) ignored_types_c"
  by code_simp

lemma ignore_mount_entry_c_iff:
  assumes "NUL \<notin> set ty"
  shows "ignore_mount_entry_c ty \<longleftrightarrow> ty \<in> set ignored_types_c"
proof -
  have "ty \<in> set ignored_types_c \<and> ty \<noteq> [] \<longleftrightarrow> ignore_mount_entry_c ty"
    unfolding ignore_mount_entry_c_def
    by (rule bsearch_strcmp [OF assms _ ignored_searched_c, symmetric]) (simp add: ignored_types_c_def)
  then show ?thesis by (auto simp: ignored_types_c_def)
qed

definition listed_entry_c :: "mount_entry \<Rightarrow> glibtop_mountentry" where
  "listed_entry_c me = \<lparr>mo_dev = md_dev me, mo_devname = take 79 (md_devname me), mo_mountdir = take 79 (md_mountdir me),
     mo_type = take 79 (the (md_type me))\<rparr>"

lemma mount_array_loop_filter:
  "\<forall>me\<in>set entries. \<exists>ty. md_type me = Some ty \<and> NUL \<notin> set ty \<Longrightarrow>
   mount_array_loop all_fs entries mount_array = Inr (mount_array @ map listed_entry_c
     (filter (\<lambda>me. all_fs \<or> the (md_type me) \<notin> set ignored_types_c) entries))"
proof (induction entries arbitrary: mount_array)
  case (Cons me entries)
  then obtain ty where "md_type me = Some ty" "NUL \<notin> set ty" by auto
  with Cons show ?case by (simp add: ignore_mount_entry_c_iff listed_entry_c_def g_strlcpy_def)
qed simp

theorem mountlist_common_spec:
  \<comment> \<open>every mounted file system whose type is not in the table, each with its first 79 characters, in the order of the
    system; with \<open>all_fs\<close> every one\<close>
  assumes "read_filesystem_list_c mounted = Some entries" "entries \<noteq> []"
    and "\<forall>me\<in>set entries. \<exists>ty. md_type me = Some ty \<and> NUL \<notin> set ty"
    and "listed = map listed_entry_c (filter (\<lambda>me. all_fs \<noteq> 0 \<or> the (md_type me) \<notin> set ignored_types_c) entries)"
  shows "glibtop_get_mountlist_s_common mounted all_fs =
    Inr (\<lparr>ml_flags = flag 2 OR flag 0 OR flag 1, ml_number = of_nat (length listed), ml_total = of_nat (length listed) * 248,
          ml_size = 248\<rparr>, if listed = [] then None else Some listed)"
proof -
  have "mount_array_loop (all_fs \<noteq> 0) entries [] = Inr listed"
    using mount_array_loop_filter [OF assms(3)] assms(4) by simp
  with assms(1,2) show ?thesis
    by (cases entries) (simp_all add: glibtop_get_mountlist_s_common_def Let_def del: mount_array_loop.simps)
qed

lemma svr3_unknown_type:
  \<comment> \<open>on SVR3 a file system whose type cannot be found out makes the call use a pointer that is not set\<close>
  assumes "fstyp (mt_on mnt) = None" "mnt \<in> set ms"
  shows "glibtop_get_mountlist_s_common (MOUNTED_FREAD_FSTYP fstyp (Some ms) True) all_fs = Inl (Crash ''me_type is not set'')"
proof -
  have "mount_array_loop all_fs (map (\<lambda>mnt. entry_stat (fstyp (mt_on mnt)) mnt) ms) array = Inl (Crash ''me_type is not set'')"
    for all_fs array
    using assms(2) assms(1) by (induction ms arbitrary: array) (auto simp: entry_stat_def split: option.split)
  with assms(2) show ?thesis by (cases ms) (auto simp: glibtop_get_mountlist_s_common_def)
qed

lemma mountlist_common_total:
  "glibtop_get_mountlist_s_common mounted all_fs = Inr (b, es) \<Longrightarrow>
   ml_total b = (case es of None \<Rightarrow> 0 | Some es \<Rightarrow> of_nat (length es) * of_nat 248)"
  by (auto simp: glibtop_get_mountlist_s_common_def bind_res_Inr_iff Let_def
      simp del: mount_array_loop.simps split: option.splits list.splits if_split_asm)

end
