(* ===== verification/DwSys.thy ===== *)
theory DwSys
  imports ObSys
begin

unbundle bit_operations_syntax

text \<open>
  The Darwin port, \<open>sysdeps/darwin\<close>: the functions that say something of the system (\<open>nosuid.c\<close>, \<open>cpu.c\<close>, \<open>mem.c\<close>,
  \<open>swap.c\<close>, \<open>uptime.c\<close>, \<open>loadavg.c\<close>, \<open>sysinfo.c\<close>, \<open>siglist.c\<close>, \<open>netlist.c\<close>), and those that only clear the buffer.
  A definition ends in \<open>_dw\<close> where another port has one of its name. What the Mach and BSD calls give is a parameter. The call
  of \<open>glibtop_init_p\<close> or \<open>glibtop_init_s\<close> at the head of a getter does nothing, since every getter is
  called behind the initialisation.
\<close>

section \<open>What the kernel says\<close>

record cpu_ticks =
  tk_user :: guint32
  tk_sys :: guint32
  tk_idle :: guint32
  tk_nice :: guint32

record vm_statistics =
  vs_free :: guint32
  vs_active :: guint32
  vs_inactive :: guint32
  vs_wire :: guint32
  vs_pageins :: guint32
  vs_pageouts :: guint32

text \<open>\<open>None\<close> where a call fails. \<open>double\<close>s are their 64 bits and the conversion to them a parameter.\<close>

record darwin =
  dw_processors :: "cpu_ticks list option"      \<comment> \<open>\<open>host_processor_info\<close>: the array and its length\<close>
  dw_vm :: "vm_statistics option"               \<comment> \<open>\<open>host_statistics\<close>\<close>
  dw_page :: "64 word"                          \<comment> \<open>\<open>vm_page_size\<close>\<close>
  dw_vardir :: "string list option"             \<comment> \<open>the names in \<open>/private/var/vm\<close>\<close>
  dw_stat :: "string \<Rightarrow> 64 word option"          \<comment> \<open>\<open>st_size\<close>\<close>
  dw_statfs :: "(guint64 \<times> guint32) option"     \<comment> \<open>\<open>f_bfree\<close> and \<open>f_bsize\<close> of \<open>/private/var/vm\<close>\<close>
  dw_loadavg :: "(64 word \<times> 64 word \<times> 64 word) option"
  dw_boottime :: "64 word option"
  dw_now :: "64 word"
  dw_double :: "int \<Rightarrow> 64 word"
  dw_hw_ncpu :: "gint32 option"
  dw_hw_model :: "string option"                \<comment> \<open>the bytes of \<open>hw.model\<close>; \<open>Some []\<close>: its length is 0\<close>
  dw_hw_cpufrequency :: "gint32 option"
  dw_ifnames :: "string list option"

section \<open>nosuid.c and cpu.c\<close>

definition glibtop_open_s_dw :: "darwin \<Rightarrow> glibtop \<Rightarrow> glibtop res" where
  "glibtop_open_s_dw K server =
     (case dw_processors K of
        None \<Rightarrow> Inl (Exit ''host_processor_info'')
      | Some pinfo \<Rightarrow>
          Inr (server\<lparr>s_ncpu := if length pinfo \<le> GLIBTOP_NCPU then int (length pinfo) else int GLIBTOP_NCPU\<rparr>))"

definition sysdeps_cpu_dw :: guint64 where
  "sysdeps_cpu_dw = flag 0 + flag 1 + flag 2 + flag 3 + flag 4 + flag 5 + flag 6 + flag 7 + flag 8 + flag 9 + flag 10"

definition init_cpu_p_dw :: "glibtop \<Rightarrow> glibtop" where
  "init_cpu_p_dw server = set_sysdeps F_CPU sysdeps_cpu_dw server"

definition ticks_total :: "cpu_ticks \<Rightarrow> guint64" where
  "ticks_total t = ucast (tk_user t) + ucast (tk_sys t) + ucast (tk_idle t) + ucast (tk_nice t)"

definition put_ticks :: "nat \<Rightarrow> cpu_ticks \<Rightarrow> glibtop_cpu \<Rightarrow> glibtop_cpu" where
  "put_ticks i t buf =
     (let buf = buf\<lparr>xcpu_user := (xcpu_user buf)(i := ucast (tk_user t)), xcpu_sys := (xcpu_sys buf)(i := ucast (tk_sys t)),
            xcpu_idle := (xcpu_idle buf)(i := ucast (tk_idle t)), xcpu_nice := (xcpu_nice buf)(i := ucast (tk_nice t)),
            xcpu_total := (xcpu_total buf)(i := ticks_total t)\<rparr>
      in buf\<lparr>cpu_user := cpu_user buf + xcpu_user buf i, cpu_sys := cpu_sys buf + xcpu_sys buf i,
             cpu_idle := cpu_idle buf + xcpu_idle buf i, cpu_nice := cpu_nice buf + xcpu_nice buf i,
             cpu_total := cpu_total buf + xcpu_total buf i\<rparr>)"

fun xcpu_loop_dw :: "cpu_ticks list \<Rightarrow> nat \<Rightarrow> nat \<Rightarrow> glibtop_cpu \<Rightarrow> glibtop_cpu res" where
  \<comment> \<open>with the number of iterations that are left; the array has the length of this call, the loop the bound of
    \<open>glibtop_open_p\<close>\<close>
  "xcpu_loop_dw pinfo 0 i buf = Inr buf"
| "xcpu_loop_dw pinfo (Suc left) i buf =
     (if length pinfo \<le> i then Inl (Crash ''pinfo index'')
      else xcpu_loop_dw pinfo left (Suc i) (put_ticks i (pinfo ! i) buf))"

definition glibtop_get_cpu_p_dw :: "darwin \<Rightarrow> glibtop \<Rightarrow> glibtop_cpu res" where
  "glibtop_get_cpu_p_dw K server =
     (case dw_processors K of
        None \<Rightarrow> Inr cpu_zero
      | Some pinfo \<Rightarrow>
          bind_res (xcpu_loop_dw pinfo (nat (s_ncpu server)) 0 cpu_zero) (\<lambda>buf.
            Inr (buf\<lparr>cpu_frequency := 100, cpu_flags := sysdeps_cpu_dw\<rparr>)))"

section \<open>mem.c and swap.c\<close>

definition sysdeps_mem_dw :: guint64 where "sysdeps_mem_dw = flag 0 + flag 1 + flag 2"

definition init_mem_p_dw :: "glibtop \<Rightarrow> glibtop" where
  "init_mem_p_dw server = set_sysdeps F_MEM sysdeps_mem_dw server"

definition glibtop_get_mem_p_dw :: "darwin \<Rightarrow> glibtop_mem" where
  \<comment> \<open>the four counters are added with 32 bits\<close>
  "glibtop_get_mem_p_dw K =
     (case dw_vm K of
        None \<Rightarrow> mem_zero
      | Some vm \<Rightarrow>
          (let total = ucast (vs_active vm + vs_inactive vm + vs_free vm + vs_wire vm) * dw_page K;
               free = ucast (vs_free vm) * dw_page K
           in mem_zero\<lparr>mem_total := total, mem_free := free, mem_used := total - free, mem_flags := sysdeps_mem_dw\<rparr>))"

definition sysdeps_swap_dw :: guint64 where
  "sysdeps_swap_dw = flag 0 + flag 1 + flag 2 + flag 3 + flag 4"

definition init_swap_p_dw :: "glibtop \<Rightarrow> glibtop" where
  "init_swap_p_dw server = set_sysdeps F_SWAP sysdeps_swap_dw server"

abbreviation (input) "MAXNAMLEN \<equiv> 255 :: nat"

fun swapfile_loop :: "(string \<Rightarrow> 64 word option) \<Rightarrow> string list \<Rightarrow> guint64 \<Rightarrow> guint64 res" where
  \<comment> \<open>the array \<open>fname\<close> has \<open>MAXNAMLEN\<close> bytes\<close>
  "swapfile_loop st [] used = Inr used"
| "swapfile_loop st (d_name # ds) used =
     (if take 8 d_name \<noteq> ''swapfile'' then swapfile_loop st ds used
      else
        let fname = ''/private/var/vm/'' @ d_name in
        if MAXNAMLEN \<le> length fname then Inl (Crash ''strcat behind fname'')
        else case st fname of
          None \<Rightarrow> swapfile_loop st ds used
        | Some sz \<Rightarrow> swapfile_loop st ds (used + sz))"

definition glibtop_get_swap_p_dw :: "darwin \<Rightarrow> glibtop_swap res" where
  "glibtop_get_swap_p_dw K =
     (case dw_vardir K of
        None \<Rightarrow> Inr swap_zero
      | Some names \<Rightarrow>
          bind_res (swapfile_loop (dw_stat K) names 0) (\<lambda>used.
            case dw_statfs K of
              None \<Rightarrow> Inr swap_zero
            | Some (bfree, bsize) \<Rightarrow>
                (let total = bfree * ucast bsize + used
                 in case dw_vm K of
                      None \<Rightarrow> Inr swap_zero
                    | Some vm \<Rightarrow>
                        Inr (swap_zero\<lparr>swap_total := total, swap_used := used, swap_free := total - used,
                               swap_pagein := ucast (vs_pageins vm), swap_pageout := ucast (vs_pageouts vm),
                               swap_flags := sysdeps_swap_dw\<rparr>))))"

section \<open>uptime.c and loadavg.c\<close>

definition init_uptime_p_dw :: "glibtop \<Rightarrow> glibtop" where
  "init_uptime_p_dw server = set_sysdeps F_UPTIME (flag 0) server"

definition glibtop_get_uptime_p_dw :: "darwin \<Rightarrow> 64 word glibtop_uptime" where
  "glibtop_get_uptime_p_dw K =
     (let zero = \<lparr>uptime_flags = 0, uptime_uptime = 0, uptime_idletime = 0, uptime_boot_time = 0\<rparr>
      in case dw_boottime K of
           None \<Rightarrow> zero
         | Some sec \<Rightarrow> zero\<lparr>uptime_uptime := dw_double K (sint (dw_now K - sec + 30)), uptime_flags := flag 0\<rparr>)"

definition init_loadavg_p_dw :: "glibtop \<Rightarrow> glibtop" where
  "init_loadavg_p_dw server = set_sysdeps F_LOADAVG (flag 0) server"

definition glibtop_get_loadavg_p_dw :: "darwin \<Rightarrow> 64 word glibtop_loadavg" where
  "glibtop_get_loadavg_p_dw K =
     (let zero = \<lparr>la_flags = 0, la_loadavg = (0, 0, 0), la_nr_running = 0, la_nr_tasks = 0, la_last_pid = 0\<rparr>
      in case dw_loadavg K of
           None \<Rightarrow> zero
         | Some ldavg \<Rightarrow> zero\<lparr>la_flags := flag 0, la_loadavg := ldavg\<rparr>)"

section \<open>sysinfo.c and siglist.c\<close>

definition cpuinfo_entry_dw :: "string option \<Rightarrow> int \<Rightarrow> nat \<Rightarrow> glibtop_entry" where
  \<comment> \<open>a value is \<open>None\<close> where \<open>g_strdup (NULL)\<close> is stored\<close>
  "cpuinfo_entry_dw model mhz i =
     \<lparr>labels = [Some ''processor'', Some ''vendor_id'', Some ''cpu MHz''],
      vals = (Map.empty(''processor'' \<mapsto> show_nat i))(''vendor_id'' := model, ''cpu MHz'' := Some (show_int mhz))\<rparr>"

definition init_sysinfo_dw :: "darwin \<Rightarrow> glibtop_sysinfo \<Rightarrow> glibtop_sysinfo" where
  \<comment> \<open>\<open>hw.ncpu\<close> writes the low half of the 64 bits of \<open>ncpus\<close>\<close>
  "init_sysinfo_dw K sysinfo =
     (if si_flags sysinfo \<noteq> 0 then sysinfo
      else (let ncpus = (case dw_hw_ncpu K of None \<Rightarrow> 1 | Some n \<Rightarrow> (ucast n :: guint64));
                model = (case dw_hw_model K of None \<Rightarrow> None | Some bs \<Rightarrow> if bs = [] then None else Some (c_str bs));
                mhz = (case dw_hw_cpufrequency K of None \<Rightarrow> 0 | Some f \<Rightarrow> sint f) sdiv 1000000;
                n = min GLIBTOP_NCPU (unat ncpus)
            in \<lparr>si_flags = flag 1, si_ncpu = of_nat n, si_cpuinfo = map (cpuinfo_entry_dw model mhz) [0..<n]\<rparr>))"

definition glibtop_get_sysinfo_s_dw :: "darwin \<Rightarrow> glibtop_sysinfo \<Rightarrow> glibtop_sysinfo \<times> glibtop_sysinfo" where
  "glibtop_get_sysinfo_s_dw K sysinfo = (let si = init_sysinfo_dw K sysinfo in (si, si))"

definition glibtop_sys_siglist_dw :: "(nat \<times> string option) list" where
  \<comment> \<open>the descriptions are NULL\<close>
  "glibtop_sys_siglist_dw =
     [(1, Some ''SIGHUP''), (2, Some ''SIGINT''), (3, Some ''SIGQUIT''), (4, Some ''SIGILL''), (5, Some ''SIGTRAP''),
      (6, Some ''SIGTRAP''), (7, Some ''SIGEMT''), (8, Some ''SIGFPE''), (9, Some ''SIGKILL''), (10, Some ''SIGBUS''),
      (11, Some ''SIGSEGV''), (12, Some ''SIGSYS''), (13, Some ''SIGPIPE''), (14, Some ''SIGALRM''), (15, Some ''SIGTERM''),
      (16, Some ''SIGURG''), (17, Some ''SIGSTOP''), (18, Some ''SIGTSTP''), (19, Some ''SIGCONT''), (20, Some ''SIGCHLD''),
      (21, Some ''SIGTTIN''), (22, Some ''SIGTTOU''), (23, Some ''SIGIO''), (24, Some ''SIGXCPU''), (25, Some ''SIGXFSZ''),
      (26, Some ''SIGVTALRM''), (27, Some ''SIGPROF''), (28, Some ''SIGWINCH''), (29, Some ''SIGWINFO''), (30, Some ''SIGUSR1''),
      (31, Some ''SIGUSR2''), (0, None)]"

section \<open>netlist.c\<close>

definition init_netlist_s_dw :: "glibtop \<Rightarrow> glibtop" where
  "init_netlist_s_dw server = set_sysdeps F_NETLIST (flag 0) server"

fun if_name_loop :: "string list \<Rightarrow> string list \<Rightarrow> guint32 \<Rightarrow> string list \<times> guint32" where
  "if_name_loop [] devs number = (devs, number)"
| "if_name_loop (if_name # ifs) devs number = if_name_loop ifs (devs @ [if_name]) (number + 1)"

definition glibtop_get_netlist_s_dw :: "darwin \<Rightarrow> glibtop_netlist \<times> string list" where
  "glibtop_get_netlist_s_dw K =
     (let (devs, number) = if_name_loop (case dw_ifnames K of None \<Rightarrow> [] | Some ifs \<Rightarrow> ifs) [] 0
      in (\<lparr>nli_flags = flag 0, nli_number = number\<rparr>, devs))"

section \<open>Functions that clear the buffer\<close>

definition clears :: "feature \<Rightarrow> glibtop \<Rightarrow> glibtop" where
  \<comment> \<open>the init functions whose \<open>_glibtop_sysdeps_f\<close> is 0\<close>
  "clears f server = set_sysdeps f 0 server"

definition init_shm_limits_p_dw :: "glibtop \<Rightarrow> glibtop" where "init_shm_limits_p_dw = clears F_SHM_LIMITS"
definition init_msg_limits_p_dw :: "glibtop \<Rightarrow> glibtop" where "init_msg_limits_p_dw = clears F_MSG_LIMITS"
definition init_sem_limits_p_dw :: "glibtop \<Rightarrow> glibtop" where "init_sem_limits_p_dw = clears F_SEM_LIMITS"
definition init_proc_kernel_p_dw :: "glibtop \<Rightarrow> glibtop" where "init_proc_kernel_p_dw = clears F_PROC_KERNEL"
definition init_proc_segment_p_dw :: "glibtop \<Rightarrow> glibtop" where "init_proc_segment_p_dw = clears F_PROC_SEGMENT"
definition init_ppp_p_dw :: "glibtop \<Rightarrow> glibtop" where "init_ppp_p_dw = clears F_PPP"
definition init_proc_wd_p_dw :: "glibtop \<Rightarrow> glibtop" where "init_proc_wd_p_dw = clears F_PROC_WD"
definition init_disk_s_dw :: "glibtop \<Rightarrow> glibtop" where "init_disk_s_dw = clears F_DISK"
definition init_proc_io_s_dw :: "glibtop \<Rightarrow> glibtop" where "init_proc_io_s_dw = clears F_PROC_IO"
definition init_proc_open_files_s_dw :: "glibtop \<Rightarrow> glibtop" where "init_proc_open_files_s_dw = clears F_PROC_OPEN_FILES"

definition init_proc_affinity_s_dw :: "glibtop \<Rightarrow> glibtop" where
  \<comment> \<open>NUMBER and ALL, though the getter gives neither\<close>
  "init_proc_affinity_s_dw server = set_sysdeps F_PROC_AFFINITY (flag 0 OR flag 1) server"

definition glibtop_get_shm_limits_p_dw :: glibtop_shm_limits where
  "glibtop_get_shm_limits_p_dw = \<lparr>shm_flags = 0, shm_shmmax = 0, shm_shmmin = 0, shm_shmmni = 0, shm_shmseg = 0, shm_shmall = 0\<rparr>"

definition glibtop_get_msg_limits_p_dw :: glibtop_msg_limits where "glibtop_get_msg_limits_p_dw = msg_zero"
definition glibtop_get_sem_limits_p_dw :: glibtop_sem_limits where "glibtop_get_sem_limits_p_dw = sem_zero"
definition glibtop_get_proc_kernel_p_dw :: "gint32 \<Rightarrow> glibtop_proc_kernel" where "glibtop_get_proc_kernel_p_dw pid = proc_kernel_zero"
definition glibtop_get_proc_segment_p_dw :: "gint32 \<Rightarrow> glibtop_proc_segment" where
  "glibtop_get_proc_segment_p_dw pid = proc_segment_zero"

definition glibtop_get_ppp_p_dw :: glibtop_ppp where
  "glibtop_get_ppp_p_dw = \<lparr>ppp_flags = 0, ppp_state = 0, ppp_bytes_in = 0, ppp_bytes_out = 0\<rparr>"

definition glibtop_get_proc_wd_p_dw :: "gint32 \<Rightarrow> glibtop_proc_wd \<times> string list option" where
  "glibtop_get_proc_wd_p_dw pid = (\<lparr>wd_flags = 0, wd_number = 0, wd_root = [], wd_exe = []\<rparr>, None)"

definition glibtop_get_disk_s_dw :: glibtop_disk where "glibtop_get_disk_s_dw = disk_zero"

definition glibtop_get_proc_io_s_dw :: "gint32 \<Rightarrow> glibtop_proc_io" where
  \<comment> \<open>the flags are a static constant without an initialiser\<close>
  "glibtop_get_proc_io_s_dw pid = proc_io_zero\<lparr>pio_flags := 0\<rparr>"

definition glibtop_get_proc_affinity_s_dw :: "gint32 \<Rightarrow> glibtop_proc_affinity \<times> guint16 list option" where
  "glibtop_get_proc_affinity_s_dw pid = (\<lparr>af_flags = 0, af_number = 0, af_all = False\<rparr>, None)"

definition glibtop_get_proc_open_files_s_dw ::
  "gint32 \<Rightarrow> glibtop_proc_open_files \<times> glibtop_open_files_entry list option" where
  "glibtop_get_proc_open_files_s_dw pid = (\<lparr>of_flags = 0, of_number = 0, of_total = 0, of_size = 0\<rparr>, None)"

section \<open>Processors, memory and swap\<close>

lemma xcpu_loop_dw_fold:
  "i + left \<le> length pinfo \<Longrightarrow>
   xcpu_loop_dw pinfo left i buf = Inr (fold (\<lambda>j. put_ticks j (pinfo ! j)) [i..<i + left] buf)"
proof (induction left arbitrary: i buf)
  case (Suc left)
  with Suc.IH [of "Suc i" "put_ticks i (pinfo ! i) buf"] show ?case by (simp add: upt_rec)
qed simp

lemma xcpu_loop_dw_short:
  "i \<le> length pinfo \<Longrightarrow> length pinfo < i + left \<Longrightarrow> xcpu_loop_dw pinfo left i buf = Inl (Crash ''pinfo index'')"
  by (induction left arbitrary: i buf) auto

lemma fold_ticks:
  fixes pinfo :: "cpu_ticks list"
  defines "F n \<equiv> fold (\<lambda>j. put_ticks j (pinfo ! j)) [0..<n] cpu_zero"
  shows "xcpu_user (F n) j = (if j < n then ucast (tk_user (pinfo ! j)) else 0)"
    and "xcpu_total (F n) j = (if j < n then ticks_total (pinfo ! j) else 0)"
    and "n \<le> length pinfo \<Longrightarrow> cpu_user (F n) = (\<Sum>t\<leftarrow>take n pinfo. ucast (tk_user t))"
    and "n \<le> length pinfo \<Longrightarrow> cpu_idle (F n) = (\<Sum>t\<leftarrow>take n pinfo. ucast (tk_idle t))"
    and "n \<le> length pinfo \<Longrightarrow> cpu_total (F n) = (\<Sum>t\<leftarrow>take n pinfo. ticks_total t)"
  unfolding F_def by (induction n) (auto simp: put_ticks_def cpu_zero_def take_Suc_conv_app_nth Let_def)

theorem cpu_dw_spec:
  \<comment> \<open>each of the processors has the ticks the kernel gives for it, and the sums are over all of them; if the kernel
    gives fewer than it did when the server was opened, the code reads behind the array\<close>
  assumes "dw_processors K = Some pinfo" and "s_ncpu server = int n"
  shows "case glibtop_get_cpu_p_dw K server of
      Inr b \<Rightarrow> n \<le> length pinfo \<and> (\<forall>i<n. xcpu_user b i = ucast (tk_user (pinfo ! i)) \<and> xcpu_total b i = ticks_total (pinfo ! i))
        \<and> (\<forall>i\<ge>n. xcpu_total b i = 0) \<and> cpu_total b = sum_list (map ticks_total (take n pinfo))
        \<and> cpu_user b = (\<Sum>t\<leftarrow>take n pinfo. ucast (tk_user t))
    | Inl e \<Rightarrow> length pinfo < n \<and> e = Crash ''pinfo index''"
proof (cases "n \<le> length pinfo")
  case True
  with xcpu_loop_dw_fold [of 0 n pinfo cpu_zero] assms show ?thesis
    by (simp add: glibtop_get_cpu_p_dw_def fold_ticks)
next
  case False
  with xcpu_loop_dw_short [of 0 pinfo n cpu_zero] assms show ?thesis by (simp add: glibtop_get_cpu_p_dw_def)
qed

lemma opened_ncpu:
  "glibtop_open_s_dw K s = Inr s' \<Longrightarrow> \<exists>pinfo. dw_processors K = Some pinfo \<and> s_ncpu s' = int (min (length pinfo) GLIBTOP_NCPU)"
  by (auto simp: glibtop_open_s_dw_def split: option.splits)

theorem cpu_dw_opened:
  \<comment> \<open>directly behind the opening nothing is read behind the array\<close>
  assumes "glibtop_open_s_dw K s = Inr s'"
  shows "\<exists>b. glibtop_get_cpu_p_dw K s' = Inr b"
  using opened_ncpu [OF assms] cpu_dw_spec [of K _ s'] by (cases "glibtop_get_cpu_p_dw K s'") fastforce+

lemma swapfile_loop_sum:
  "\<forall>d\<in>set ds. take 8 d = ''swapfile'' \<longrightarrow> length d < 239 \<Longrightarrow>
   swapfile_loop st ds used = Inr (used + (\<Sum>d\<leftarrow>filter (\<lambda>d. take 8 d = ''swapfile'') ds.
     case st (''/private/var/vm/'' @ d) of None \<Rightarrow> 0 | Some sz \<Rightarrow> sz))"
  by (induction ds arbitrary: used) (auto split: option.split)

theorem swap_dw_spec:
  \<comment> \<open>the free swap is the free space of the file system, the used swap the size of the swap files\<close>
  assumes "dw_vardir K = Some ds" and "\<forall>d\<in>set ds. take 8 d = ''swapfile'' \<longrightarrow> length d < 239"
    and "dw_statfs K = Some (bfree, bsize)" and "dw_vm K = Some vm"
  shows "\<exists>b. glibtop_get_swap_p_dw K = Inr b \<and> swap_free b = bfree * ucast bsize \<and> swap_total b = swap_used b + swap_free b
    \<and> swap_used b = (\<Sum>d\<leftarrow>filter (\<lambda>d. take 8 d = ''swapfile'') ds.
        case dw_stat K (''/private/var/vm/'' @ d) of None \<Rightarrow> 0 | Some sz \<Rightarrow> sz)"
  using assms by (simp add: glibtop_get_swap_p_dw_def swapfile_loop_sum)

lemma if_name_loop_all: "if_name_loop ifs devs n = (devs @ ifs, n + of_nat (length ifs))"
  by (induction ifs arbitrary: devs n) simp_all

lemma netlist_dw_all:
  "glibtop_get_netlist_s_dw K = (\<lparr>nli_flags = flag 0, nli_number = of_nat (length ds)\<rparr>, ds)"
    if "dw_ifnames K = Some ds"
  using that by (simp add: glibtop_get_netlist_s_dw_def if_name_loop_all)

end
