(* ===== verification/DwProc.thy ===== *)
theory DwProc
  imports DwSys FbProc
begin

unbundle bit_operations_syntax

text \<open>
  What the Darwin port says about processes (\<open>sysdeps/darwin\<close>): \<open>open.c\<close>, \<open>glibtop_suid.h\<close>, \<open>proclist.c\<close>,
  \<open>procstate.c\<close>, \<open>procuid.c\<close>, \<open>procsignal.c\<close>, \<open>proctime.c\<close> and \<open>procargs.c\<close>. These functions run in the setuid server.
  Its \<open>glibtop_suid_enter\<close> and \<open>glibtop_suid_leave\<close> are those of Linux: they change the user, not the group.
\<close>

section \<open>open.c\<close>

definition glibtop_open_p_dw :: "darwin \<Rightarrow> glibtop \<Rightarrow> cred \<Rightarrow> (glibtop \<times> cred) res" where
  "glibtop_open_p_dw K server c =
     (let m = \<lparr>m_uid = int (ruid c), m_euid = int (euid c), m_gid = int (rgid c), m_egid = int (egid c)\<rparr> in
      case setreuid (euid c) (ruid c) c of
        None \<Rightarrow> Inl (Exit ''_exit'')
      | Some c' \<Rightarrow>
          (case setregid (egid c) (rgid c) c' of
             None \<Rightarrow> Inl (Exit ''_exit'')
           | Some c'' \<Rightarrow>
               (case dw_processors K of
                  None \<Rightarrow> Inl (Exit ''host_processor_info'')
                | Some pinfo \<Rightarrow>
                    Inr (server\<lparr>s_name := Some ''glibtop'', s_machine := Some m,
                      s_ncpu := if length pinfo \<le> GLIBTOP_NCPU then int (length pinfo) else int GLIBTOP_NCPU\<rparr>, c''))))"

definition suid_server_start_dw ::
  "bool \<Rightarrow> darwin \<Rightarrow> (feature \<Rightarrow> bool) \<Rightarrow> (feature \<Rightarrow> glibtop \<Rightarrow> glibtop) \<Rightarrow> cred \<Rightarrow> (glibtop \<times> cred) res" where
  "suid_server_start_dw uname K = suid_server_start_bsd uname (glibtop_open_p_dw K)"

section \<open>The kernel's view of processes\<close>

record kinfo_dw =
  kd_pid :: gint32
  kd_stat :: nat
  kd_comm :: string
  kd_ruid :: guint32
  kd_svuid :: guint32
  kd_rgid :: guint32
  kd_svgid :: guint32
  kd_ppid :: gint32
  kd_pgid :: gint32
  kd_tpgid :: gint32
  kd_nice :: "8 word"
  kd_priority :: "8 word"
  kd_siglist :: gint32
  kd_sigmask :: guint32
  kd_sigignore :: guint32
  kd_sigcatch :: guint32
  kd_start_sec :: "64 word"

type_synonym time_value = "gint32 \<times> gint32"     \<comment> \<open>seconds and microseconds\<close>

record task_basic =
  tb_virtual :: "64 word"
  tb_resident :: "64 word"
  tb_user :: time_value
  tb_system :: time_value

text \<open>
  \<open>sysctl\<close> for one process gives an entry, or nothing for a pid that is not there: then the
  variable of the caller keeps what the stack held (\<open>mp_junk\<close>). For a list, the first call gives the length in bytes, the second
  the entries. A task is named by its port, which the kernel gives out according to the rights of the
  caller.
\<close>

record mach =
  mp_pid :: "gint32 \<Rightarrow> kinfo_dw option option"
  mp_junk :: kinfo_dw
  mp_length :: "gint32 \<Rightarrow> gint32 \<Rightarrow> nat option"
  mp_list :: "gint32 \<Rightarrow> gint32 \<Rightarrow> kinfo_dw list option"
  mp_task :: "cred \<Rightarrow> gint32 \<Rightarrow> nat option"
  mp_basic :: "nat \<Rightarrow> task_basic option"
  mp_times :: "nat \<Rightarrow> (time_value \<times> time_value) option"
  mp_self :: nat                                 \<comment> \<open>\<open>mach_task_self ()\<close>\<close>
  mp_time_add :: "time_value \<Rightarrow> time_value \<Rightarrow> time_value"   \<comment> \<open>\<open>time_value_add\<close>\<close>
  mp_procargs :: "cred \<Rightarrow> gint32 \<Rightarrow> (nat \<times> string) option"  \<comment> \<open>\<open>bufsize\<close> and the 4096 bytes of \<open>argbuf\<close>\<close>

definition kinfo_pid :: "mach \<Rightarrow> gint32 \<Rightarrow> kinfo_dw option" where
  "kinfo_pid P pid = map_option (\<lambda>k. case k of None \<Rightarrow> mp_junk P | Some k \<Rightarrow> k) (mp_pid P pid)"

section \<open>proclist.c\<close>

definition init_proclist_p_dw :: "glibtop \<Rightarrow> glibtop" where
  "init_proclist_p_dw server = set_sysdeps F_PROCLIST (flag 1 + flag 0 + flag 2) server"

abbreviation (input) "SRUN_DW \<equiv> 2 :: nat"

fun proclist_loop_dw :: "64 word \<Rightarrow> kinfo_dw list \<Rightarrow> gint32 list \<Rightarrow> gint32 list" where
  "proclist_loop_dw which [] pids_chain = pids_chain"
| "proclist_loop_dw which (k # ks) pids_chain =
     (if which AND GLIBTOP_EXCLUDE_IDLE \<noteq> 0 \<and> kd_stat k \<noteq> SRUN_DW then proclist_loop_dw which ks pids_chain
      else if which AND GLIBTOP_EXCLUDE_SYSTEM \<noteq> 0 \<and> kd_ruid k = 0 then proclist_loop_dw which ks pids_chain
      else proclist_loop_dw which ks (pids_chain @ [kd_pid k]))"

definition glibtop_get_proclist_p_dw :: "mach \<Rightarrow> 64 word \<Rightarrow> 64 word \<Rightarrow> glibtop_proclist \<times> gint32 list option" where
  \<comment> \<open>\<open>g_malloc (0)\<close> is NULL\<close>
  "glibtop_get_proclist_p_dw P which arg =
     (let zero = \<lparr>pl_flags = 0, pl_number = 0, pl_total = 0, pl_size = 0\<rparr>;
          op = ucast (which AND GLIBTOP_KERN_PROC_MASK); arg = ucast arg in
      case mp_length P op arg of
        None \<Rightarrow> (zero, None)
      | Some len \<Rightarrow>
          (if len = 0 then (zero, None)
           else case mp_list P op arg of
             None \<Rightarrow> (zero, None)
           | Some ks \<Rightarrow>
               (if length ks = 0 then (zero, None)
                else
                  let pids_chain = proclist_loop_dw which ks []; total = of_nat (length pids_chain) in
                  (\<lparr>pl_flags = flag 1 + flag 0 + flag 2, pl_number = total, pl_total = total * 4, pl_size = 4\<rparr>,
                   Some pids_chain))))"

section \<open>procstate.c, procuid.c and procsignal.c\<close>

definition sysdeps_proc_state_dw :: guint64 where "sysdeps_proc_state_dw = flag 0 + flag 1 + flag 2 + flag 3"

definition init_proc_state_p_dw :: "glibtop \<Rightarrow> glibtop" where
  "init_proc_state_p_dw server = set_sysdeps F_PROC_STATE sysdeps_proc_state_dw server"

definition process_state_dw :: "nat \<Rightarrow> 32 word option" where
  \<comment> \<open>the \<open>switch\<close>: SIDL, SRUN, SSLEEP, SSTOP, SZOMB; \<open>None\<close> is the return of the last case\<close>
  "process_state_dw st =
     (if st = 1 then Some 0
      else if st = 2 then Some (of_nat (of_char (CHR ''R'')))
      else if st = 3 then Some (of_nat (of_char (CHR ''S'')))
      else if st = 4 then Some (of_nat (of_char (CHR ''T'')))
      else if st = 5 then Some (of_nat (of_char (CHR ''Z'')))
      else None)"

definition glibtop_get_proc_state_p_dw :: "mach \<Rightarrow> gint32 \<Rightarrow> glibtop_proc_state" where
  "glibtop_get_proc_state_p_dw P pid =
     (case kinfo_pid P pid of
        None \<Rightarrow> proc_state_zero
      | Some k \<Rightarrow>
          (let buf = proc_state_zero\<lparr>ps_cmd := take 39 (kd_comm k), ps_uid := kd_svuid k, ps_gid := kd_svgid k\<rparr>
           in case process_state_dw (kd_stat k) of
                None \<Rightarrow> buf
              | Some st \<Rightarrow> buf\<lparr>ps_state := st, ps_flags := sysdeps_proc_state_dw\<rparr>))"

definition sysdeps_proc_uid_dw :: guint64 where
  \<comment> \<open>PID and TTY, which are not set, but not NICE and PRIORITY, which are\<close>
  "sysdeps_proc_uid_dw = flag 0 + flag 1 + flag 2 + flag 3 + flag 8 + flag 9 + flag 10 + flag 12 + flag 13"

definition init_proc_uid_p_dw :: "glibtop \<Rightarrow> glibtop" where
  "init_proc_uid_p_dw server = set_sysdeps F_PROC_UID sysdeps_proc_uid_dw server"

definition glibtop_get_proc_uid_p_dw :: "mach \<Rightarrow> gint32 \<Rightarrow> glibtop_proc_uid" where
  "glibtop_get_proc_uid_p_dw P pid =
     (case kinfo_pid P pid of
        None \<Rightarrow> proc_uid_zero
      | Some k \<Rightarrow> proc_uid_zero\<lparr>pu_uid := kd_ruid k, pu_euid := kd_svuid k, pu_gid := kd_rgid k, pu_egid := kd_svgid k,
                    pu_ppid := kd_ppid k, pu_pgrp := kd_pgid k, pu_tpgid := kd_tpgid k, pu_nice := scast (kd_nice k),
                    pu_priority := ucast (kd_priority k), pu_flags := sysdeps_proc_uid_dw\<rparr>)"

definition sysdeps_proc_signal_dw :: guint64 where "sysdeps_proc_signal_dw = flag 0 + flag 1 + flag 2 + flag 3"

definition init_proc_signal_p_dw :: "glibtop \<Rightarrow> glibtop" where
  "init_proc_signal_p_dw server = set_sysdeps F_PROC_SIGNAL sysdeps_proc_signal_dw server"

definition glibtop_get_proc_signal_p_dw :: "mach \<Rightarrow> gint32 \<Rightarrow> glibtop_proc_signal" where
  "glibtop_get_proc_signal_p_dw P pid =
     (case kinfo_pid P pid of
        None \<Rightarrow> proc_signal_zero
      | Some k \<Rightarrow> \<lparr>pi_flags = sysdeps_proc_signal_dw, pi_signal = scast (kd_siglist k), pi_blocked = ucast (kd_sigmask k),
                    pi_sigignore = ucast (kd_sigignore k), pi_sigcatch = ucast (kd_sigcatch k)\<rparr>)"

section \<open>proctime.c\<close>

definition sysdeps_proc_time_dw :: guint64 where "sysdeps_proc_time_dw = flag 2 + flag 3 + flag 8 + flag 0"

definition init_proc_time_p_dw :: "glibtop \<Rightarrow> glibtop" where
  "init_proc_time_p_dw server = set_sysdeps F_PROC_TIME sysdeps_proc_time_dw server"

definition tv2usec :: "time_value \<Rightarrow> guint64" where
  \<comment> \<open>the macro \<open>tv2sec\<close>\<close>
  "tv2usec tv = scast (fst tv) * 1000000 + scast (snd tv)"

definition time_sum :: "mach \<Rightarrow> time_value \<Rightarrow> time_value \<Rightarrow> time_value" where
  \<comment> \<open>starting with \<open>{0, 0}\<close>\<close>
  "time_sum P a b = mp_time_add P (mp_time_add P (0, 0) a) b"

text \<open>The result has the ports that the call got from the kernel and did not give back.\<close>

definition glibtop_get_proc_time_p_dw ::
  "mach \<Rightarrow> glibtop_machine \<Rightarrow> cred \<Rightarrow> gint32 \<Rightarrow> (glibtop_proc_time \<times> cred \<times> nat list) res" where
  \<comment> \<open>\<open>glibtop_suid_leave\<close> is also called where \<open>sysctl\<close> fails, before \<open>glibtop_suid_enter\<close>\<close>
  "glibtop_get_proc_time_p_dw P m c pid =
     (case kinfo_pid P pid of
        None \<Rightarrow> bind_res (glibtop_suid_leave m c) (\<lambda>c. Inr (proc_time_zero, c, []))
      | Some k \<Rightarrow>
          (let c = glibtop_suid_enter m c; task = mp_task P c pid in
           bind_res (glibtop_suid_leave m c) (\<lambda>c.
           case task of
             None \<Rightarrow> Inr (proc_time_zero, c, [])
           | Some task \<Rightarrow>
               (let kept_port = (if task \<noteq> mp_self P then [] else [task]) in
                case mp_basic P task of
                  None \<Rightarrow> Inr (proc_time_zero, c, kept_port)
                | Some ti \<Rightarrow>
                    (case mp_times P task of
                       None \<Rightarrow> Inr (proc_time_zero, c, kept_port)
                     | Some (tti_user, tti_system) \<Rightarrow>
                         (let utime = time_sum P (tb_user ti) tti_user; stime = time_sum P (tb_system ti) tti_system in
                          Inr (proc_time_zero\<lparr>pt_utime := tv2usec utime div 10000, pt_stime := tv2usec stime div 10000,
                                 pt_frequency := 1000000 div 10000, pt_start_time := kd_start_sec k,
                                 pt_flags := sysdeps_proc_time_dw\<rparr>, c, [task])))))))"

section \<open>procargs.c\<close>

definition init_proc_args_p_dw :: "glibtop \<Rightarrow> glibtop" where
  "init_proc_args_p_dw server = set_sysdeps F_PROC_ARGS (flag 0) server"

definition int_at :: "string \<Rightarrow> nat \<Rightarrow> gint32" where
  "int_at b p = bytes_u32 (drop p b)"

text \<open>A pointer is its offset in \<open>argbuf\<close>. The loop reads the int before the pointer; the test for the start of the
  array comes behind it and is a test for equality.\<close>

fun zero_back :: "string \<Rightarrow> nat \<Rightarrow> nat option res" where
  "zero_back b ip =
     (if ip < 4 then Inl (Crash ''before argbuf'')
      else if int_at b (ip - 4) = 0 then Inr (Some (ip - 4))
      else if ip - 4 = 0 then Inr None
      else zero_back b (ip - 4))"

declare zero_back.simps [simp del]

definition strlen_at :: "string \<Rightarrow> nat \<Rightarrow> nat res" where
  "strlen_at b p = (if NUL \<in> set (drop p b) then Inr (length (c_str (drop p b))) else Inl (Crash ''behind argbuf''))"

function skip_nuls :: "string \<Rightarrow> nat \<Rightarrow> nat res" where
  \<comment> \<open>\<open>while (!*start) start++\<close>\<close>
  "skip_nuls b start =
     (if length b \<le> start then Inl (Crash ''behind argbuf'')
      else if b ! start = NUL then skip_nuls b (start + 1) else Inr start)"
  by pat_completeness auto
termination
  by (relation "measure (\<lambda>(b, start). length b - start)") auto

declare skip_nuls.simps [simp del]

fun back_to_nul :: "string \<Rightarrow> nat \<Rightarrow> nat \<Rightarrow> nat" where
  \<comment> \<open>\<open>while (*str != '\0' && str > start) str--\<close>\<close>
  "back_to_nul b start str = (if b ! str \<noteq> NUL \<and> start < str then back_to_nul b start (str - 1) else str)"

declare back_to_nul.simps [simp del]

function find_assignment :: "string \<Rightarrow> nat \<Rightarrow> nat \<Rightarrow> nat \<Rightarrow> nat" where
  \<comment> \<open>the \<open>for\<close> loop; \<open>stop\<close> is \<open>end - 1\<close>\<close>
  "find_assignment b start stop str =
     (if stop \<le> str then str
      else if b ! str = CHR ''='' then back_to_nul b start str
      else find_assignment b start stop (str + 1))"
  by pat_completeness auto
termination
  by (relation "measure (\<lambda>(b, start, stop, str). stop - str)") auto

declare find_assignment.simps [simp del]

definition args_start :: "string \<Rightarrow> nat \<Rightarrow> nat option res" where
  \<comment> \<open>where the arguments start; \<open>None\<close> is a return of NULL; the subtraction goes below 0 where the first loop
    crashes at once\<close>
  "args_start b bufsize =
     bind_res (zero_back b (bufsize - 8)) (\<lambda>ip.
     case ip of
       None \<Rightarrow> Inr None
     | Some ip \<Rightarrow>
         (let start = ip + 4 in
          bind_res (zero_back b ip) (\<lambda>ip.
          case ip of
            None \<Rightarrow> Inr None
          | Some ip \<Rightarrow>
              (let ip = ip + 4 in
               if int_at b ip AND 0xbfff0000 = 0xbfff0000
               then let ip = ip + 8 in
                 bind_res (strlen_at b ip) (\<lambda>n.
                 bind_res (skip_nuls b (ip + 4 * ((n + 3) div 4))) (\<lambda>start. Inr (Some start)))
               else Inr (Some start)))))"

definition no_arg_char :: "char \<Rightarrow> bool" where
  \<comment> \<open>\<open>char\<close> has a sign\<close>
  "no_arg_char ch \<longleftrightarrow> ch = CHR ''-'' \<or> ch = CHR ''?'' \<or> (of_char ch :: nat) \<le> 32 \<or> 128 \<le> (of_char ch :: nat)"

definition args_len :: "guint32 \<Rightarrow> nat \<Rightarrow> nat" where
  "args_len max_len n = (if max_len \<noteq> 0 \<and> unat max_len < n then unat max_len else n)"

definition glibtop_get_proc_args_p_dw ::
  "mach \<Rightarrow> glibtop_machine \<Rightarrow> cred \<Rightarrow> gint32 \<Rightarrow> guint32 \<Rightarrow> ((glibtop_proc_args \<times> string option) \<times> cred) res" where
  "glibtop_get_proc_args_p_dw P m c pid max_len =
     (let nothing = (\<lparr>pa_flags = 0, pa_size = 0\<rparr>, None);
          c = glibtop_suid_enter m c; got = mp_procargs P c pid in
      bind_res (glibtop_suid_leave m c) (\<lambda>c.
      case got of
        None \<Rightarrow> Inr (nothing, c)
      | Some (bufsize, argbuf) \<Rightarrow>
          bind_res (args_start argbuf bufsize) (\<lambda>start.
          case start of
            None \<Rightarrow> Inr (nothing, c)
          | Some start \<Rightarrow>
              bind_res (strlen_at argbuf start) (\<lambda>n.
              let fin = find_assignment argbuf start (bufsize - 1) (start + n) in
              if no_arg_char (argbuf ! start) then Inr (nothing, c)
              else
                let len = args_len max_len (fin - start) in
                if length argbuf < start + len then Inl (Crash ''behind argbuf'')
                else Inr ((\<lparr>pa_flags = flag 0, pa_size = of_nat len\<rparr>, Some (take len (drop start argbuf) @ [NUL])), c)))))"

section \<open>Rights\<close>

definition lowered_user :: "glibtop_machine \<Rightarrow> cred \<Rightarrow> bool" where
  "lowered_user m c \<longleftrightarrow> ruid c = nat (m_euid m) \<and> euid c = nat (m_uid m) \<and> cred.suid c = nat (m_uid m)"

definition raised_user :: "glibtop_machine \<Rightarrow> cred \<Rightarrow> cred" where
  "raised_user m c = c\<lparr>ruid := nat (m_uid m), euid := nat (m_euid m), suid := nat (m_euid m)\<rparr>"

lemma enter_leave_user:
  assumes "lowered_user m c"
  shows "glibtop_suid_enter m c = raised_user m c" "glibtop_suid_leave m (raised_user m c) = Inr c"
    "glibtop_suid_leave m c = Inr c"
  using assms
  by (cases c; simp add: lowered_user_def raised_user_def glibtop_suid_enter_def glibtop_suid_leave_def setreuid_def)+

lemma suid_start_dw_lowered:
  assumes start: "suid_server_start_dw uname K sf hook c = Inr (server, d)"
    and hook: "\<forall>f s. s_machine (hook f s) = s_machine s"
  obtains m where "s_machine server = Some m" "lowered_user m d" "euid d = ruid c" "ruid d = euid c" "egid d = rgid c"
    "euid (raised_user m d) = euid c" "egid (raised_user m d) = rgid c" "euid c = ruid c \<Longrightarrow> raised_user m d = d"
proof -
  let ?m = "\<lparr>m_uid = int (ruid c), m_euid = int (euid c), m_gid = int (rgid c), m_egid = int (egid c)\<rparr>"
  have "\<forall>s s' c'. glibtop_open_p_dw K s c = Inr (s', c') \<longrightarrow> s_machine s' = Some ?m"
    by (auto simp: glibtop_open_p_dw_def Let_def split: option.splits)
  from suid_start_lowered [OF start [unfolded suid_server_start_dw_def] this hook]
  obtain m where m: "s_machine server = Some m" "lowered m d" "raised m d = d\<lparr>rgid := rgid c, egid := egid c, sgid := egid c\<rparr>"
    "egid d = rgid c" "ruid d = euid c" "euid d = ruid c" .
  have "s_machine server = Some ?m"
  proof -
    let ?s = "glibtop_global_server\<lparr>s_machine := Some \<lparr>m_uid = 0, m_euid = 0, m_gid = 0, m_egid = 0\<rparr>\<rparr>"
    have flags: "s_flags glibtop_global_server AND GLIBTOP_INIT_STATE_SYSDEPS = 0" by (simp add: glibtop_global_server_def)
    obtain c' where "glibtop_init_p_bsd (glibtop_open_p_dw K) sf hook ?s c = Inr (server, c')"
      using start by (auto simp: suid_server_start_dw_def suid_server_start_bsd_def bind_res_Inr_iff Let_def split: if_splits option.splits)
    then obtain s' where "glibtop_open_p_dw K ?s c = Inr (s', c')" "s_machine server = s_machine s'"
      by (auto simp: glibtop_init_p_bsd_def flags bind_res_Inr_iff Let_def hooks_machine [OF hook])
    with \<open>\<forall>s s' c'. glibtop_open_p_dw K s c = Inr (s', c') \<longrightarrow> s_machine s' = Some ?m\<close> show ?thesis by metis
  qed
  moreover have "cred.suid d = ruid c"
    using start by (auto simp: suid_server_start_dw_def suid_server_start_bsd_def bind_res_Inr_iff Let_def setreuid_def setregid_def
        split: if_splits option.splits)
  ultimately show ?thesis
    using that [of ?m] m(4-6) by (cases d) (simp add: lowered_user_def raised_user_def)
qed

lemma proc_time_dw_keeps:
  "lowered_user m c \<Longrightarrow> \<exists>b ports. glibtop_get_proc_time_p_dw P m c pid = Inr (b, c, ports)"
  by (auto simp: glibtop_get_proc_time_p_dw_def enter_leave_user Let_def split: option.splits)

lemma proc_args_dw_keeps:
  "lowered_user m c \<Longrightarrow> glibtop_get_proc_args_p_dw P m c pid max_len = Inr (r, c') \<Longrightarrow> c' = c"
  by (auto simp: glibtop_get_proc_args_p_dw_def enter_leave_user Let_def bind_res_Inr_iff split: option.splits if_splits)

text \<open>
  The rights of the server on Darwin: it starts with the effective user and group of its caller, and
  \<open>glibtop_suid_enter\<close> raises the user alone. Installed with the set-group-id bit and without the set-user-id
  bit, as the build does it, the server runs its privileged parts with the rights of the caller.
\<close>

theorem suid_rights_dw:
  assumes "suid_server_start_dw uname K sf hook c = Inr (server, d)" and "\<forall>f s. s_machine (hook f s) = s_machine s"
  shows "euid d = ruid c \<and> egid d = rgid c
    \<and> (\<exists>m. s_machine server = Some m \<and> euid (glibtop_suid_enter m d) = euid c \<and> egid (glibtop_suid_enter m d) = rgid c
        \<and> (euid c = ruid c \<longrightarrow> glibtop_suid_enter m d = d)
        \<and> (\<forall>P pid. \<exists>b ports. glibtop_get_proc_time_p_dw P m d pid = Inr (b, d, ports)))"
proof -
  obtain m where m: "s_machine server = Some m" "lowered_user m d" "euid d = ruid c" "egid d = rgid c"
    "euid (raised_user m d) = euid c" "egid (raised_user m d) = rgid c" "euid c = ruid c \<Longrightarrow> raised_user m d = d"
    using suid_start_dw_lowered [OF assms] by metis
  then show ?thesis using proc_time_dw_keeps [OF m(2)] by (auto simp: enter_leave_user(1) [OF m(2)])
qed

section \<open>Lists and states of processes\<close>

definition listed_dw :: "64 word \<Rightarrow> kinfo_dw \<Rightarrow> bool" where
  "listed_dw which k \<longleftrightarrow> \<not> (which AND GLIBTOP_EXCLUDE_IDLE \<noteq> 0 \<and> kd_stat k \<noteq> SRUN_DW)
     \<and> \<not> (which AND GLIBTOP_EXCLUDE_SYSTEM \<noteq> 0 \<and> kd_ruid k = 0)"

lemma proclist_loop_dw_filter: "proclist_loop_dw which ks ps = ps @ map kd_pid (filter (listed_dw which) ks)"
  by (induction ks arbitrary: ps) (simp_all add: listed_dw_def)

lemma proclist_dw_total:
  "glibtop_get_proclist_p_dw P which arg = (b, pids) \<Longrightarrow>
   pl_total b = (case pids of None \<Rightarrow> 0 | Some ps \<Rightarrow> of_nat (length ps) * of_nat 4)"
  by (auto simp: glibtop_get_proclist_p_dw_def Let_def split: option.splits if_splits)

lemma process_state_letters:
  "process_state_dw st = Some w \<Longrightarrow> w \<in> {0, 82, 83, 84, 90}"
  by (auto simp: process_state_dw_def split: if_splits)

theorem proc_state_dw_unknown:
  \<comment> \<open>no process is ever reported as running, interruptible or a zombie, since the state is a letter and not
    one of the constants of \<open>procstate.h\<close>\<close>
  "ps_state (glibtop_get_proc_state_p_dw P pid) \<notin> {GLIBTOP_PROCESS_RUNNING, GLIBTOP_PROCESS_INTERRUPTIBLE,
     GLIBTOP_PROCESS_UNINTERRUPTIBLE, GLIBTOP_PROCESS_ZOMBIE, GLIBTOP_PROCESS_STOPPED}"
proof -
  have "ps_state (glibtop_get_proc_state_p_dw P pid) \<in> {0, 82, 83, 84, 90}"
    using process_state_letters
    by (auto simp: glibtop_get_proc_state_p_dw_def proc_state_zero_def Let_def split: option.split)
  then show ?thesis by auto
qed

section \<open>Arguments\<close>

lemma proc_args_dw_block:
  assumes "glibtop_get_proc_args_p_dw P m c pid max_len = Inr ((b, block), c')" and "block \<noteq> None"
  shows "\<exists>s. block = Some (s @ [NUL]) \<and> pa_size b = of_nat (length s) \<and> (max_len \<noteq> 0 \<longrightarrow> length s \<le> unat max_len)"
proof -
  have len: "max_len \<noteq> 0 \<Longrightarrow> args_len max_len n \<le> unat max_len" for n by (simp add: args_len_def)
  obtain start n argbuf where "\<not> length argbuf < start + args_len max_len n" "pa_size b = of_nat (args_len max_len n)"
    "block = Some (take (args_len max_len n) (drop start argbuf) @ [NUL])"
    using assms by (auto simp: glibtop_get_proc_args_p_dw_def Let_def bind_res_Inr_iff split: option.splits if_splits)
  with len [of n] show ?thesis by (intro exI [of _ "take (args_len max_len n) (drop start argbuf)"]) auto
qed

lemma back_to_nul_at:
  "k \<le> j \<Longrightarrow> b ! k = NUL \<Longrightarrow> \<forall>i. k < i \<and> i \<le> j \<longrightarrow> b ! i \<noteq> NUL \<Longrightarrow> start \<le> k \<Longrightarrow> back_to_nul b start j = k"
proof (induction "j - k" arbitrary: j)
  case 0
  then show ?case by (subst back_to_nul.simps) simp
next
  case (Suc n)
  have "back_to_nul b start (j - 1) = k" by (rule Suc.hyps(1)) (use Suc.prems Suc.hyps(2) in auto)
  with Suc.prems Suc.hyps(2) show ?case by (subst back_to_nul.simps) simp
qed

lemma find_assignment_at:
  "str \<le> j \<Longrightarrow> j < stop \<Longrightarrow> b ! j = CHR ''='' \<Longrightarrow> \<forall>i. str \<le> i \<and> i < j \<longrightarrow> b ! i \<noteq> CHR ''='' \<Longrightarrow>
   find_assignment b start stop str = back_to_nul b start j"
proof (induction "j - str" arbitrary: str)
  case 0
  then show ?case by (subst find_assignment.simps) simp
next
  case (Suc n)
  have "find_assignment b start stop (str + 1) = back_to_nul b start j"
    by (rule Suc.hyps(1)) (use Suc.prems Suc.hyps(2) in auto)
  with Suc.prems Suc.hyps(2) show ?case by (subst find_assignment.simps) simp
qed

lemma find_assignment_slice:
  assumes b: "drop start b = u @ NUL # e @ CHR ''='' # rest" and str: "start \<le> str" "str \<le> start + length u"
    and u: "CHR ''='' \<notin> set (drop (str - start) u)" and e: "NUL \<notin> set e" "CHR ''='' \<notin> set e"
    and stop: "start + length u + 1 + length e < stop"
  shows "find_assignment b start stop str = start + length u"
proof -
  let ?k = "start + length u" and ?j = "start + length u + 1 + length e"
  have le: "start \<le> length b" using b by (cases "start \<le> length b") auto
  have nth: "b ! (start + i) = (u @ NUL # e @ CHR ''='' # rest) ! i" for i using b nth_drop [OF le, of i] by simp
  have nth': "b ! (?k + 1 + i) = (e @ CHR ''='' # rest) ! i" "b ! ?k = NUL" for i
    using nth [of "length u + 1 + i"] nth [of "length u"] by (simp_all add: nth_append add.assoc)
  have "b ! i \<noteq> CHR ''=''" if "str \<le> i" "i < ?j" for i
  proof -
    consider "i < ?k" | "i = ?k" | "?k < i" by linarith
    then show ?thesis
    proof cases
      case 1
      then have "i - start < length u" using str that by linarith
      then have "b ! i = drop (str - start) u ! (i - str)" using nth [of "i - start"] str that by (simp add: nth_append)
      then have "b ! i \<in> set (drop (str - start) u)"
        using nth_mem [of "i - str" "drop (str - start) u"] 1 that str by simp
      with u show ?thesis by metis
    next
      case 3
      then have "i - ?k - 1 < length e" using that by linarith
      then have "b ! i = e ! (i - ?k - 1)" "i - ?k - 1 < length e" using nth'(1) [of "i - ?k - 1"] that 3 by (simp_all add: nth_append)
      with e show ?thesis by (metis nth_mem)
    qed (simp add: nth')
  qed
  moreover have "b ! i \<noteq> NUL" if "?k < i" "i \<le> ?j" for i
  proof (cases "i = ?j")
    case False
    then have "i - ?k - 1 < length e" using that by linarith
    then have "b ! i = e ! (i - ?k - 1)" "i - ?k - 1 < length e" using nth'(1) [of "i - ?k - 1"] that by (simp_all add: nth_append)
    with e show ?thesis by (metis nth_mem)
  qed (use nth'(1) [of "length e"] in simp)
  moreover have "b ! ?j = CHR ''=''" using nth'(1) [of "length e"] by simp
  ultimately show ?thesis
    using find_assignment_at [of str ?j stop b start] back_to_nul_at [of ?k ?j b start] nth'(2) str stop by simp
qed

theorem args_dw_spec:
  \<comment> \<open>what is copied are the arguments from the first on, each with its NUL but the last, up to the string in front of the first
    assignment; arguments that contain a \<open>=\<close> themselves count as assignments\<close>
  assumes b: "drop start b = strings (a # args) @ e @ CHR ''='' # rest"
    and "NUL \<notin> set a" "\<forall>s\<in>set args. CHR ''='' \<notin> set s" "NUL \<notin> set e" "CHR ''='' \<notin> set e"
    and stop: "start + length (strings (a # args)) + length e < bufsize - 1"
  shows "strlen_at b start = Inr (length a)"
    and "take (find_assignment b start (bufsize - 1) (start + length a) - start) (drop start b) = butlast (strings (a # args))"
proof -
  obtain v where v: "strings (a # args) = a @ v @ [NUL]" "CHR ''='' \<notin> set v"
  proof -
    have s: "CHR ''='' \<notin> set (NUL # strings args)" using assms(3) by (auto simp: strings_def)
    obtain v where v: "NUL # strings args = v @ [NUL]" by (cases args rule: rev_cases) (auto simp: strings_def)
    with s have "CHR ''='' \<notin> set (v @ [NUL])" by metis
    with v show ?thesis using that [of v] by (simp add: strings_def)
  qed
  show "strlen_at b start = Inr (length a)"
    using b assms(2) v by (simp add: strlen_at_def strings_def c_str_append)
  have "find_assignment b start (bufsize - 1) (start + length a) = start + length (a @ v)"
    by (rule find_assignment_slice [where e = e and rest = rest]) (use b v assms in simp_all)
  with b v show "take (find_assignment b start (bufsize - 1) (start + length a) - start) (drop start b) = butlast (strings (a # args))"
    by (simp add: butlast_append)
qed

end
