(* ===== verification/DwMem.thy ===== *)
theory DwMem
  imports DwProc
begin

unbundle bit_operations_syntax

text \<open>
  \<open>procmem.c\<close> and \<open>procmap.c\<close> under \<open>sysdeps/darwin\<close>: the walks over the address space of a task, and the table of the
  memory objects that several of its regions share. What \<open>vm_region\<close> answers is a parameter, and it may
  answer anything, so that the walks are partial functions: \<open>None\<close> is a call that does not return.
\<close>

section \<open>What the kernel says of a region\<close>

record vm_top =
  vt_obj_id :: guint32
  vt_ref_count :: guint32
  vt_private :: guint32           \<comment> \<open>\<open>private_pages_resident\<close>\<close>
  vt_shared :: guint32            \<comment> \<open>\<open>shared_pages_resident\<close>\<close>
  vt_share_mode :: guint32

record vm_submap_info =
  vi_is_submap :: bool
  vi_offset :: guint64
  vi_protection :: gint32
  vi_share_mode :: guint32

text \<open>\<open>vm_region\<close> gives the region that contains the address or is the next one behind it, with its start and its
  size; of the basic information the code reads \<open>reserved\<close>. The four macros of \<open>mach/shared_memory_server.h\<close>
  are parameters.\<close>

record vm_regions =
  vr_basic :: "nat \<Rightarrow> 64 word \<Rightarrow> (64 word \<times> 64 word \<times> bool) option"
  vr_top :: "nat \<Rightarrow> 64 word \<Rightarrow> (64 word \<times> 64 word \<times> vm_top) option"
  vr_recurse :: "nat \<Rightarrow> 64 word \<Rightarrow> guint32 \<Rightarrow> (64 word \<times> 64 word \<times> guint32 \<times> vm_submap_info) option"
  vr_page :: "64 word"            \<comment> \<open>\<open>vm_page_size\<close>\<close>
  vr_text :: "64 word"            \<comment> \<open>\<open>GLOBAL_SHARED_TEXT_SEGMENT\<close>\<close>
  vr_data :: "64 word"
  vr_data_size :: "64 word"       \<comment> \<open>\<open>SHARED_DATA_REGION_SIZE\<close>\<close>

abbreviation (input) "SM_COW \<equiv> 1 :: guint32"
abbreviation (input) "SM_PRIVATE \<equiv> 2 :: guint32"
abbreviation (input) "SM_EMPTY \<equiv> 3 :: guint32"
abbreviation (input) "SM_SHARED \<equiv> 4 :: guint32"
abbreviation (input) "SM_TRUESHARED \<equiv> 5 :: guint32"
abbreviation (input) "SM_PRIVATE_ALIASED \<equiv> 6 :: guint32"
abbreviation (input) "SM_SHARED_ALIASED \<equiv> 7 :: guint32"

definition TEXT_SEGMENT_START :: "vm_regions \<Rightarrow> 64 word" where "TEXT_SEGMENT_START R = vr_text R"
definition DATA_SEGMENT_END :: "vm_regions \<Rightarrow> 64 word" where "DATA_SEGMENT_END R = vr_data R + vr_data_size R"

section \<open>procmem.c: the table\<close>

definition SHARED_TABLE_SIZE :: nat where "SHARED_TABLE_SIZE = 137"

record shared_info =
  sh_obj_id :: guint32
  sh_share_mode :: guint32
  sh_page_count :: guint32
  sh_ref_count :: guint32
  sh_task_ref_count :: guint32
  sh_size :: "64 word"

text \<open>A bucket is its head, which lies in the table, with the elements along \<open>next\<close>.\<close>

type_synonym shared_table = "shared_info list list"

definition zero_info :: shared_info where
  "zero_info = \<lparr>sh_obj_id = 0, sh_share_mode = 0, sh_page_count = 0, sh_ref_count = 0, sh_task_ref_count = 0, sh_size = 0\<rparr>"

definition shared_table_init :: shared_table where
  "shared_table_init = replicate SHARED_TABLE_SIZE [zero_info]"

definition new_info :: "vm_top \<Rightarrow> 64 word \<Rightarrow> shared_info" where
  "new_info ti sz = \<lparr>sh_obj_id = vt_obj_id ti, sh_share_mode = vt_share_mode ti, sh_page_count = vt_shared ti,
     sh_ref_count = vt_ref_count ti, sh_task_ref_count = 1, sh_size = sz\<rparr>"

fun bucket_register :: "vm_top \<Rightarrow> 64 word \<Rightarrow> shared_info list \<Rightarrow> shared_info list" where
  \<comment> \<open>the loop over \<open>info\<close>; \<open>g_malloc\<close> does not fail\<close>
  "bucket_register ti sz [] = [new_info ti sz]"
| "bucket_register ti sz (info # infos) =
     (if sh_obj_id info = vt_obj_id ti then info\<lparr>sh_task_ref_count := sh_task_ref_count info + 1\<rparr> # infos
      else info # bucket_register ti sz infos)"

definition bucket_of :: "guint32 \<Rightarrow> nat" where "bucket_of obj = unat obj mod SHARED_TABLE_SIZE"

definition shared_table_register :: "vm_top \<Rightarrow> 64 word \<Rightarrow> shared_table \<Rightarrow> shared_table" where
  "shared_table_register ti sz table =
     table[bucket_of (vt_obj_id ti) := bucket_register ti sz (table ! bucket_of (vt_obj_id ti))]"

section \<open>procmem.c: the walk\<close>

definition sysdeps_proc_mem_dw :: guint64 where "sysdeps_proc_mem_dw = flag 0 + flag 1 + flag 2 + flag 3 + flag 4"

definition init_proc_mem_p_dw :: "glibtop \<Rightarrow> glibtop" where
  "init_proc_mem_p_dw server = set_sysdeps F_PROC_MEM sysdeps_proc_mem_dw server"

record mem_walk =
  wk_private :: "64 word"
  wk_vprivate :: "64 word"
  wk_split :: bool
  wk_table :: shared_table

definition walk_init :: mem_walk where
  "walk_init = \<lparr>wk_private = 0, wk_vprivate = 0, wk_split = False, wk_table = shared_table_init\<rparr>"

definition pages :: "vm_regions \<Rightarrow> guint32 \<Rightarrow> 64 word" where "pages R n = ucast n * vr_page R"

definition share_mode_step :: "vm_regions \<Rightarrow> 64 word \<Rightarrow> vm_top \<Rightarrow> mem_walk \<Rightarrow> mem_walk" where
  \<comment> \<open>the \<open>switch\<close>\<close>
  "share_mode_step R sz ti w =
     (if vt_share_mode ti = SM_COW then
        (if vt_ref_count ti = 1
         then w\<lparr>wk_private := wk_private w + pages R (vt_private ti) + pages R (vt_shared ti), wk_vprivate := wk_vprivate w + sz\<rparr>
         else w\<lparr>wk_table := shared_table_register ti sz (wk_table w), wk_vprivate := wk_vprivate w + pages R (vt_private ti)\<rparr>)
      else if vt_share_mode ti = SM_PRIVATE then
        w\<lparr>wk_private := wk_private w + pages R (vt_private ti), wk_vprivate := wk_vprivate w + sz\<rparr>
      else if vt_share_mode ti = SM_SHARED then w\<lparr>wk_table := shared_table_register ti sz (wk_table w)\<rparr>
      else w)"

definition in_shared_segment :: "vm_regions \<Rightarrow> 64 word \<Rightarrow> bool" where
  "in_shared_segment R address \<longleftrightarrow> TEXT_SEGMENT_START R \<le> address \<and> address < DATA_SEGMENT_END R"

definition region_step :: "vm_regions \<Rightarrow> 64 word \<Rightarrow> 64 word \<Rightarrow> bool \<Rightarrow> vm_top \<Rightarrow> mem_walk \<Rightarrow> mem_walk" where
  \<comment> \<open>the body of the loop behind the two calls\<close>
  "region_step R address sz reserved ti w =
     (if in_shared_segment R address then
        (let w = (if \<not> wk_split w \<and> vt_share_mode ti = SM_EMPTY \<and> reserved then w\<lparr>wk_split := True\<rparr> else w)
         in if vt_share_mode ti \<noteq> SM_PRIVATE then w else share_mode_step R sz ti w)
      else share_mode_step R sz ti w)"

partial_function (option) region_walk :: "vm_regions \<Rightarrow> nat \<Rightarrow> 64 word \<Rightarrow> mem_walk \<Rightarrow> mem_walk option" where
  "region_walk R task address w =
     (case vr_basic R task address of
        None \<Rightarrow> Some w
      | Some (address1, _, reserved) \<Rightarrow>
          (case vr_top R task address1 of
             None \<Rightarrow> Some w
           | Some (address2, sz, ti) \<Rightarrow> region_walk R task (address2 + sz) (region_step R address2 sz reserved ti w)))"

record mem_sums =
  ms_private :: "64 word"
  ms_vprivate :: "64 word"
  ms_shared :: "64 word"

definition sum_info :: "vm_regions \<Rightarrow> shared_info \<Rightarrow> mem_sums \<Rightarrow> mem_sums" where
  "sum_info R i s =
     (if sh_share_mode i = SM_SHARED \<and> sh_ref_count i = sh_task_ref_count i
      then s\<lparr>ms_private := ms_private s + pages R (sh_page_count i), ms_vprivate := ms_vprivate s + sh_size i\<rparr>
      else s\<lparr>ms_shared := ms_shared s + pages R (sh_page_count i)\<rparr>)"

definition sum_table :: "vm_regions \<Rightarrow> shared_table \<Rightarrow> mem_sums \<Rightarrow> mem_sums" where
  \<comment> \<open>the loop over the buckets and the elements of each\<close>
  "sum_table R table s = fold (\<lambda>bucket s. fold (sum_info R) bucket s) table s"

definition glibtop_get_proc_mem_p_dw ::
  "mach \<Rightarrow> vm_regions \<Rightarrow> glibtop_machine \<Rightarrow> cred \<Rightarrow> gint32 \<Rightarrow> (glibtop_proc_mem \<times> cred \<times> nat list) res option" where
  \<comment> \<open>with the ports that the call keeps\<close>
  "glibtop_get_proc_mem_p_dw P R m c pid =
     (let c = glibtop_suid_enter m c; task = mp_task P c pid in
      case glibtop_suid_leave m c of
        Inl e \<Rightarrow> Some (Inl e)
      | Inr c \<Rightarrow>
          (case task of
             None \<Rightarrow> Some (Inr (proc_mem_zero, c, []))
           | Some task \<Rightarrow>
               (case mp_basic P task of
                  None \<Rightarrow> Some (Inr (proc_mem_zero, c, [task]))
                | Some tinfo \<Rightarrow>
                    (let c = glibtop_suid_enter m c in
                     Option.bind (region_walk R task 0 walk_init) (\<lambda>w. Some (
                       bind_res (glibtop_suid_leave m c) (\<lambda>c.
                       let s = sum_table R (wk_table w)
                             \<lparr>ms_private = wk_private w, ms_vprivate = wk_vprivate w, ms_shared = 0\<rparr>;
                           vsize = (if wk_split w then tb_virtual tinfo - (DATA_SEGMENT_END R - TEXT_SEGMENT_START R)
                                    else tb_virtual tinfo)
                       in Inr (proc_mem_zero\<lparr>ProcInfo.pm_size := ms_vprivate s, pm_vsize := vsize, pm_resident := tb_resident tinfo,
                                 pm_share := ms_shared s, pm_rss := ms_private s, ProcInfo.pm_flags := sysdeps_proc_mem_dw\<rparr>,
                               c, [task]))))))))"

section \<open>procmap.c\<close>

definition init_proc_map_p_dw :: "glibtop \<Rightarrow> glibtop" where
  "init_proc_map_p_dw server = set_sysdeps F_PROC_MAP (flag 1 + flag 0 + flag 2) server"

definition sysdeps_map_entry_dw :: guint64 where "sysdeps_map_entry_dw = flag 0 + flag 1 + flag 2 + flag 3"

definition map_perm_dw :: "vm_submap_info \<Rightarrow> guint64" where
  "map_perm_dw i =
     (let perm = (if vi_protection i AND 1 \<noteq> 0 then 1 else 0);
          perm = (if vi_protection i AND 2 \<noteq> 0 then perm OR 2 else perm);
          perm = (if vi_protection i AND 4 \<noteq> 0 then perm OR 4 else perm);
          perm = (if vi_share_mode i = SM_PRIVATE \<or> vi_share_mode i = SM_PRIVATE_ALIASED then perm OR 16 else perm)
      in if vi_share_mode i = SM_SHARED \<or> vi_share_mode i = SM_TRUESHARED \<or> vi_share_mode i = SM_SHARED_ALIASED
         then perm OR 8 else perm)"

definition map_entry_dw :: "64 word \<Rightarrow> 64 word \<Rightarrow> vm_submap_info \<Rightarrow> glibtop_map_entry" where
  "map_entry_dw address sz i =
     \<lparr>me_flags = sysdeps_map_entry_dw, me_start = address, me_end = address + sz - 1, me_offset = vi_offset i,
      me_perm = map_perm_dw i, me_inode = 0, me_device = 0, me_smaps = (\<lambda>_. 0), me_filename = []\<rparr>"

partial_function (option) submap_walk ::
  "vm_regions \<Rightarrow> nat \<Rightarrow> 64 word \<Rightarrow> guint32 \<Rightarrow> glibtop_map_entry list \<Rightarrow> glibtop_map_entry list option" where
  "submap_walk R task address nesting_depth maps =
     (case vr_recurse R task address nesting_depth of
        None \<Rightarrow> Some maps
      | Some (address, sz, nesting_depth, info) \<Rightarrow>
          (if vi_is_submap info then submap_walk R task address (nesting_depth + 1) maps
           else submap_walk R task (address + sz) nesting_depth (maps @ [map_entry_dw address sz info])))"

definition glibtop_get_proc_map_p_dw ::
  "mach \<Rightarrow> vm_regions \<Rightarrow> glibtop_machine \<Rightarrow> cred \<Rightarrow> gint32
     \<Rightarrow> ((glibtop_proc_map \<times> glibtop_map_entry list option) \<times> cred \<times> nat list) res option" where
  \<comment> \<open>\<open>maps\<close> is NULL where there is no entry\<close>
  "glibtop_get_proc_map_p_dw P R m c pid =
     (let zero = \<lparr>pm_flags = 0, pm_number = 0, pm_total = 0, pm_size = 0\<rparr>; c = glibtop_suid_enter m c in
      case mp_task P c pid of
        None \<Rightarrow> Some (bind_res (glibtop_suid_leave m c) (\<lambda>c. Inr ((zero, None), c, [])))
      | Some task \<Rightarrow>
          Option.bind (submap_walk R task 0 0 []) (\<lambda>maps. Some (
            bind_res (glibtop_suid_leave m c) (\<lambda>c.
            let n = of_nat (length maps) in
            Inr ((\<lparr>pm_flags = flag 1 + flag 0 + flag 2, pm_number = n, pm_total = n * 336, pm_size = 336\<rparr>,
                  if maps = [] then None else Some maps), c, [task])))))"

section \<open>What the table holds\<close>

text \<open>The contract of the table with the walk that fills it: what it holds after a sequence of registrations, and
  what the sums over it are.\<close>

locale sharing_table =
  fixes init :: 't
    and register :: "vm_top \<Rightarrow> 64 word \<Rightarrow> 't \<Rightarrow> 't"
    and holds :: "(vm_top \<times> 64 word) list \<Rightarrow> 't \<Rightarrow> bool"
    and total :: "'t \<Rightarrow> mem_sums \<Rightarrow> mem_sums"
    and spec :: "(vm_top \<times> 64 word) list \<Rightarrow> mem_sums \<Rightarrow> mem_sums"
  assumes holds_init: "holds [] init"
    and holds_register: "holds regs t \<Longrightarrow> holds (regs @ [(ti, sz)]) (register ti sz t)"
    and total_spec: "holds regs t \<Longrightarrow> total t s = spec regs s"
begin

lemma holds_fold: "holds regs (fold (\<lambda>(ti, sz). register ti sz) regs init)"
  by (induction regs rule: rev_induct) (auto intro: holds_init holds_register)

lemma total_fold: "total (fold (\<lambda>(ti, sz). register ti sz) regs init) s = spec regs s"
  by (rule total_spec [OF holds_fold])

end

definition object_ids :: "(vm_top \<times> 64 word) list \<Rightarrow> guint32 set" where
  "object_ids regs = (vt_obj_id \<circ> fst) ` set regs"

definition shared_object :: "(vm_top \<times> 64 word) list \<Rightarrow> guint32 \<Rightarrow> shared_info" where
  \<comment> \<open>what the first region with the object says, and the number of the regions with it\<close>
  "shared_object regs obj =
     (let rs = filter (\<lambda>(ti, _). vt_obj_id ti = obj) regs
      in (new_info (fst (hd rs)) (snd (hd rs)))\<lparr>sh_task_ref_count := of_nat (length rs)\<rparr>)"

definition bucket_holds :: "(vm_top \<times> 64 word) list \<Rightarrow> nat \<Rightarrow> shared_info list \<Rightarrow> bool" where
  "bucket_holds regs k bucket \<longleftrightarrow> bucket \<noteq> []
     \<and> hd bucket = zero_info\<lparr>sh_task_ref_count := sh_task_ref_count (hd bucket)\<rparr>
     \<and> distinct (map sh_obj_id (tl bucket))
     \<and> set (tl bucket) = shared_object regs ` {obj \<in> object_ids regs. obj \<noteq> 0 \<and> bucket_of obj = k}"

definition table_holds :: "(vm_top \<times> 64 word) list \<Rightarrow> shared_table \<Rightarrow> bool" where
  "table_holds regs table \<longleftrightarrow> length table = SHARED_TABLE_SIZE \<and> (\<forall>k<SHARED_TABLE_SIZE. bucket_holds regs k (table ! k))"

lemma obj_id_shared_object: "obj \<in> object_ids regs \<Longrightarrow> sh_obj_id (shared_object regs obj) = obj"
proof -
  assume "obj \<in> object_ids regs"
  then have "filter (\<lambda>(ti, _). vt_obj_id ti = obj) regs \<noteq> []" by (auto simp: object_ids_def filter_empty_conv)
  then have "hd (filter (\<lambda>(ti, _). vt_obj_id ti = obj) regs) \<in> set (filter (\<lambda>(ti, _). vt_obj_id ti = obj) regs)" by (rule hd_in_set)
  then show ?thesis by (auto simp: shared_object_def new_info_def Let_def split_beta)
qed

lemma shared_object_other: "vt_obj_id ti \<noteq> obj \<Longrightarrow> shared_object (regs @ [(ti, sz)]) obj = shared_object regs obj"
  by (simp add: shared_object_def)

lemma shared_object_first:
  "vt_obj_id ti \<notin> object_ids regs \<Longrightarrow> shared_object (regs @ [(ti, sz)]) (vt_obj_id ti) = new_info ti sz"
proof -
  assume "vt_obj_id ti \<notin> object_ids regs"
  then have "filter (\<lambda>(t, _). vt_obj_id t = vt_obj_id ti) regs = []" by (auto simp: object_ids_def filter_empty_conv image_iff)
  then show ?thesis by (simp add: shared_object_def new_info_def)
qed

lemma shared_object_again:
  assumes "vt_obj_id ti \<in> object_ids regs"
  shows "shared_object (regs @ [(ti, sz)]) (vt_obj_id ti)
    = (shared_object regs (vt_obj_id ti))\<lparr>sh_task_ref_count := sh_task_ref_count (shared_object regs (vt_obj_id ti)) + 1\<rparr>"
proof -
  have "filter (\<lambda>(t, _). vt_obj_id t = vt_obj_id ti) regs \<noteq> []" using assms by (force simp: object_ids_def filter_empty_conv)
  then show ?thesis by (simp add: shared_object_def Let_def add.commute)
qed

lemma object_ids_snoc: "object_ids (regs @ [(ti, sz)]) = insert (vt_obj_id ti) (object_ids regs)"
  by (auto simp: object_ids_def)

lemma bucket_register_new:
  "vt_obj_id ti \<notin> sh_obj_id ` set infos \<Longrightarrow> bucket_register ti sz infos = infos @ [new_info ti sz]"
  by (induction infos) auto

lemma bucket_register_old:
  assumes "distinct (map sh_obj_id infos)" "i \<in> set infos" "sh_obj_id i = vt_obj_id ti"
  shows "map sh_obj_id (bucket_register ti sz infos) = map sh_obj_id infos
    \<and> set (bucket_register ti sz infos) = insert (i\<lparr>sh_task_ref_count := sh_task_ref_count i + 1\<rparr>) (set infos - {i})"
  using assms
proof (induction infos)
  case (Cons j js)
  show ?case
  proof (cases "sh_obj_id j = vt_obj_id ti")
    case True
    with Cons.prems have "i = j" by (metis list.set_map image_eqI distinct.simps(2) list.simps(9) set_ConsD)
    moreover have "j \<notin> set js" using Cons.prems(1) by auto
    ultimately show ?thesis using True by auto
  next
    case False
    with Cons show ?thesis by auto
  qed
qed simp

lemma bucket_holds_register:
  assumes b: "bucket_holds regs (bucket_of (vt_obj_id ti)) bucket"
  shows "bucket_holds (regs @ [(ti, sz)]) (bucket_of (vt_obj_id ti)) (bucket_register ti sz bucket)"
proof -
  let ?o = "vt_obj_id ti" and ?k = "bucket_of (vt_obj_id ti)"
  let ?objs = "\<lambda>regs. {obj \<in> object_ids regs. obj \<noteq> 0 \<and> bucket_of obj = ?k}"
  obtain h infos where bucket: "bucket = h # infos" and h: "h = zero_info\<lparr>sh_task_ref_count := sh_task_ref_count h\<rparr>"
    and d: "distinct (map sh_obj_id infos)" and s: "set infos = shared_object regs ` ?objs regs"
    using b by (cases bucket) (auto simp: bucket_holds_def)
  have h0: "sh_obj_id h = 0" by (subst h) (simp add: zero_info_def)
  have ids: "sh_obj_id ` set infos = ?objs regs" using obj_id_shared_object by (force simp: s image_image)
  show ?thesis
  proof (cases "?o = 0")
    case True
    then have "shared_object (regs @ [(ti, sz)]) ` ?objs (regs @ [(ti, sz)]) = set infos"
      unfolding s by (intro image_cong) (auto simp: object_ids_snoc shared_object_other)
    moreover have "h\<lparr>sh_task_ref_count := x\<rparr> = zero_info\<lparr>sh_task_ref_count := x\<rparr>" for x by (subst h) simp
    ultimately show ?thesis using True h0 d by (simp add: bucket bucket_holds_def)
  next
    case o: False
    have "?objs (regs @ [(ti, sz)]) = insert ?o (?objs regs - {?o})" using o by (auto simp: object_ids_snoc)
    moreover have "shared_object (regs @ [(ti, sz)]) ` (?objs regs - {?o}) = shared_object regs ` (?objs regs - {?o})"
      by (intro image_cong) (auto intro: shared_object_other)
    ultimately have objs: "shared_object (regs @ [(ti, sz)]) ` ?objs (regs @ [(ti, sz)])
        = insert (shared_object (regs @ [(ti, sz)]) ?o) (shared_object regs ` (?objs regs - {?o}))"
      by (simp only: image_insert)
    show ?thesis
    proof (cases "?o \<in> object_ids regs")
      case True
      let ?i = "shared_object regs ?o"
      have i: "?i \<in> set infos" "sh_obj_id ?i = ?o" using True o obj_id_shared_object [OF True] by (auto simp: s)
      note r = bucket_register_old [OF d i, of sz]
      have "shared_object regs ` (?objs regs - {?o}) = set infos - {?i}"
      proof -
        have "inj_on (shared_object regs) (?objs regs)" by (rule inj_onI) (metis (mono_tags, lifting) mem_Collect_eq obj_id_shared_object)
        then show ?thesis unfolding s using True o by (subst inj_on_image_set_diff [of _ "?objs regs"]) auto
      qed
      with o h0 h d r objs shared_object_again [OF True, of sz] show ?thesis by (simp add: bucket bucket_holds_def)
    next
      case False
      then have "?o \<notin> sh_obj_id ` set infos" by (simp add: ids)
      note r = bucket_register_new [OF this, of sz]
      have "?objs regs - {?o} = ?objs regs" using False by auto
      with objs have "shared_object (regs @ [(ti, sz)]) ` ?objs (regs @ [(ti, sz)]) = insert (new_info ti sz) (set infos)"
        using shared_object_first [OF False, of sz] by (simp add: s)
      with o h0 h d r ids False show ?thesis by (simp add: bucket bucket_holds_def new_info_def image_iff)
    qed
  qed
qed

lemma bucket_holds_other:
  assumes "bucket_holds regs k bucket" "k \<noteq> bucket_of (vt_obj_id ti)"
  shows "bucket_holds (regs @ [(ti, sz)]) k bucket"
proof -
  have "shared_object (regs @ [(ti, sz)]) ` {obj \<in> object_ids (regs @ [(ti, sz)]). obj \<noteq> 0 \<and> bucket_of obj = k}
      = shared_object regs ` {obj \<in> object_ids regs. obj \<noteq> 0 \<and> bucket_of obj = k}"
    using assms(2) by (intro image_cong) (auto simp: object_ids_snoc intro: shared_object_other)
  with assms(1) show ?thesis by (simp add: bucket_holds_def)
qed

lemma nth_list_update': "i < length xs \<Longrightarrow> xs[j := x] ! i = (if i = j then x else xs ! i)"
  by auto

lemma table_holds_init: "table_holds [] shared_table_init"
  by (simp add: table_holds_def shared_table_init_def bucket_holds_def object_ids_def zero_info_def)

lemma table_holds_register:
  "table_holds regs table \<Longrightarrow> table_holds (regs @ [(ti, sz)]) (shared_table_register ti sz table)"
  by (auto simp: table_holds_def shared_table_register_def nth_list_update' intro: bucket_holds_register bucket_holds_other)

section \<open>The sums over the table\<close>

definition is_own :: "shared_info \<Rightarrow> bool" where
  \<comment> \<open>all references to the object are from this task\<close>
  "is_own i \<longleftrightarrow> sh_share_mode i = SM_SHARED \<and> sh_ref_count i = sh_task_ref_count i"

definition own_pages :: "vm_regions \<Rightarrow> shared_info \<Rightarrow> 64 word" where
  "own_pages R i = (if is_own i then pages R (sh_page_count i) else 0)"

definition own_size :: "shared_info \<Rightarrow> 64 word" where "own_size i = (if is_own i then sh_size i else 0)"

definition others_pages :: "vm_regions \<Rightarrow> shared_info \<Rightarrow> 64 word" where
  "others_pages R i = (if is_own i then 0 else pages R (sh_page_count i))"

definition real_objects :: "(vm_top \<times> 64 word) list \<Rightarrow> guint32 set" where
  \<comment> \<open>an object whose id is 0 is taken for the zeroed head of the first bucket\<close>
  "real_objects regs = object_ids regs - {0}"

definition objects_spec :: "vm_regions \<Rightarrow> (vm_top \<times> 64 word) list \<Rightarrow> mem_sums \<Rightarrow> mem_sums" where
  "objects_spec R regs s =
     \<lparr>ms_private = ms_private s + (\<Sum>obj\<in>real_objects regs. own_pages R (shared_object regs obj)),
      ms_vprivate = ms_vprivate s + (\<Sum>obj\<in>real_objects regs. own_size (shared_object regs obj)),
      ms_shared = ms_shared s + (\<Sum>obj\<in>real_objects regs. others_pages R (shared_object regs obj))\<rparr>"

lemma fold_sum_info:
  "fold (sum_info R) is s =
     \<lparr>ms_private = ms_private s + sum_list (map (own_pages R) is), ms_vprivate = ms_vprivate s + sum_list (map own_size is),
      ms_shared = ms_shared s + sum_list (map (others_pages R) is)\<rparr>"
  by (induction "is" arbitrary: s) (simp_all add: sum_info_def own_pages_def own_size_def others_pages_def is_own_def)

lemma sum_table_concat:
  "sum_table R table s = fold (sum_info R) (concat table) s"
  by (induction table arbitrary: s) (simp_all add: sum_table_def)

lemma finite_object_ids [simp]: "finite (object_ids regs)"
  by (simp add: object_ids_def)

lemma bucket_sum:
  fixes f :: "shared_info \<Rightarrow> 64 word"
  assumes b: "bucket_holds regs k bucket" and f: "\<And>n. f (zero_info\<lparr>sh_task_ref_count := n\<rparr>) = 0"
  shows "sum_list (map f bucket) = (\<Sum>obj\<in>{obj \<in> real_objects regs. bucket_of obj = k}. f (shared_object regs obj))"
proof -
  let ?objs = "{obj \<in> object_ids regs. obj \<noteq> 0 \<and> bucket_of obj = k}"
  obtain h infos where bucket: "bucket = h # infos" and h: "h = zero_info\<lparr>sh_task_ref_count := sh_task_ref_count h\<rparr>"
    and d: "distinct (map sh_obj_id infos)" and s: "set infos = shared_object regs ` ?objs"
    using b by (cases bucket) (auto simp: bucket_holds_def)
  have "f h = 0" by (subst h) (rule f)
  moreover have "sum_list (map f infos) = sum f (set infos)"
    using d by (simp add: sum_list_distinct_conv_sum_set distinct_map)
  moreover have "inj_on (shared_object regs) ?objs"
    by (rule inj_onI) (metis (mono_tags, lifting) mem_Collect_eq obj_id_shared_object)
  moreover have "?objs = {obj \<in> real_objects regs. bucket_of obj = k}" by (auto simp: real_objects_def)
  ultimately show ?thesis by (simp add: bucket s sum.reindex)
qed

lemma table_sum:
  fixes f :: "shared_info \<Rightarrow> 64 word"
  assumes t: "table_holds regs table" and f: "\<And>n. f (zero_info\<lparr>sh_task_ref_count := n\<rparr>) = 0"
  shows "sum_list (map f (concat table)) = (\<Sum>obj\<in>real_objects regs. f (shared_object regs obj))"
proof -
  have "sum_list (map f (concat table)) = (\<Sum>bucket\<leftarrow>table. sum_list (map f bucket))"
    by (induction table) simp_all
  also have "\<dots> = (\<Sum>k<SHARED_TABLE_SIZE. sum_list (map f (table ! k)))"
    using t by (simp add: sum_list_sum_nth table_holds_def atLeast0LessThan)
  also have "\<dots> = (\<Sum>k<SHARED_TABLE_SIZE. \<Sum>obj\<in>{obj \<in> real_objects regs. bucket_of obj = k}. f (shared_object regs obj))"
    using t f by (intro sum.cong) (auto simp: table_holds_def intro: bucket_sum)
  also have "\<dots> = (\<Sum>obj\<in>real_objects regs. f (shared_object regs obj))"
    by (rule sum.group) (auto simp: real_objects_def bucket_of_def SHARED_TABLE_SIZE_def)
  finally show ?thesis .
qed

lemma zero_info_sums: "own_pages R (zero_info\<lparr>sh_task_ref_count := n\<rparr>) = 0"
  "own_size (zero_info\<lparr>sh_task_ref_count := n\<rparr>) = 0" "others_pages R (zero_info\<lparr>sh_task_ref_count := n\<rparr>) = 0"
  by (simp_all add: own_pages_def own_size_def others_pages_def is_own_def zero_info_def pages_def)

interpretation shared: sharing_table shared_table_init shared_table_register table_holds "sum_table R" "objects_spec R" for R
proof unfold_locales
  show "table_holds [] shared_table_init" by (rule table_holds_init)
  show "table_holds (regs @ [(ti, sz)]) (shared_table_register ti sz t)" if "table_holds regs t" for regs t ti sz
    using that by (rule table_holds_register)
  show "sum_table R t s = objects_spec R regs s" if "table_holds regs t" for regs t s
    by (simp add: sum_table_concat fold_sum_info objects_spec_def table_sum [OF that] zero_info_sums)
qed

section \<open>The walk\<close>

type_synonym region = "64 word \<times> 64 word \<times> bool \<times> vm_top"

fun region_list :: "vm_regions \<Rightarrow> nat \<Rightarrow> 64 word \<Rightarrow> region list \<Rightarrow> bool" where
  \<comment> \<open>the regions that the two calls give from the address on\<close>
  "region_list R task a [] \<longleftrightarrow> (case vr_basic R task a of None \<Rightarrow> True | Some (a1, _, _) \<Rightarrow> vr_top R task a1 = None)"
| "region_list R task a ((ad, sz, res, ti) # rs) \<longleftrightarrow>
     (\<exists>a1 s1. vr_basic R task a = Some (a1, s1, res) \<and> vr_top R task a1 = Some (ad, sz, ti)) \<and> region_list R task (ad + sz) rs"

definition step_region :: "vm_regions \<Rightarrow> region \<Rightarrow> mem_walk \<Rightarrow> mem_walk" where
  "step_region R = (\<lambda>(ad, sz, res, ti). region_step R ad sz res ti)"

lemma region_walk_list: "region_list R task a rs \<Longrightarrow> region_walk R task a w = Some (fold (step_region R) rs w)"
proof (induction rs arbitrary: a w)
  case Nil
  then show ?case by (subst region_walk.simps) (auto split: option.splits)
next
  case (Cons r rs)
  obtain ad sz res ti where r: "r = (ad, sz, res, ti)" by (metis prod_cases4)
  with Cons show ?case by (subst region_walk.simps) (auto simp: step_region_def)
qed

text \<open>Regions in the segment that all tasks share count only if they are private.\<close>

definition counted :: "vm_regions \<Rightarrow> region \<Rightarrow> bool" where
  "counted R = (\<lambda>(ad, sz, res, ti). in_shared_segment R ad \<longrightarrow> vt_share_mode ti = SM_PRIVATE)"

definition sole :: "vm_top \<Rightarrow> bool" where "sole ti \<longleftrightarrow> vt_share_mode ti = SM_COW \<and> vt_ref_count ti = 1"

definition region_pages :: "vm_regions \<Rightarrow> region \<Rightarrow> 64 word" where
  "region_pages R = (\<lambda>(ad, sz, res, ti).
     if sole ti then pages R (vt_private ti) + pages R (vt_shared ti)
     else if vt_share_mode ti = SM_PRIVATE then pages R (vt_private ti) else 0)"

definition region_size :: "vm_regions \<Rightarrow> region \<Rightarrow> 64 word" where
  "region_size R = (\<lambda>(ad, sz, res, ti).
     if sole ti \<or> vt_share_mode ti = SM_PRIVATE then sz
     else if vt_share_mode ti = SM_COW then pages R (vt_private ti) else 0)"

definition splits :: "vm_regions \<Rightarrow> region \<Rightarrow> bool" where
  "splits R = (\<lambda>(ad, sz, res, ti). in_shared_segment R ad \<and> vt_share_mode ti = SM_EMPTY \<and> res)"

definition registered :: "vm_regions \<Rightarrow> region list \<Rightarrow> (vm_top \<times> 64 word) list" where
  \<comment> \<open>the regions of shared objects\<close>
  "registered R rs = map (\<lambda>(ad, sz, res, ti). (ti, sz))
     (filter (\<lambda>(ad, sz, res, ti). vt_share_mode ti = SM_SHARED \<or> vt_share_mode ti = SM_COW \<and> vt_ref_count ti \<noteq> 1) (filter (counted R) rs))"

lemma fold_step_region:
  "fold (step_region R) rs w =
     \<lparr>wk_private = wk_private w + sum_list (map (region_pages R) (filter (counted R) rs)),
      wk_vprivate = wk_vprivate w + sum_list (map (region_size R) (filter (counted R) rs)),
      wk_split = (wk_split w \<or> (\<exists>r\<in>set rs. splits R r)),
      wk_table = fold (\<lambda>(ti, sz). shared_table_register ti sz) (registered R rs) (wk_table w)\<rparr>"
proof (induction rs arbitrary: w)
  case (Cons r rs)
  obtain ad sz res ti where r: "r = (ad, sz, res, ti)" by (metis prod_cases4)
  show ?case
    unfolding fold_Cons comp_def Cons.IH
    by (cases "in_shared_segment R ad"; cases "vt_share_mode ti = SM_PRIVATE"; cases "vt_share_mode ti = SM_COW")
      (auto simp: r step_region_def region_step_def share_mode_step_def counted_def region_pages_def region_size_def
        sole_def splits_def registered_def add.assoc)
qed (simp add: registered_def)

definition moves_on :: "vm_regions \<Rightarrow> nat \<Rightarrow> bool" where
  \<comment> \<open>as documented: a region that is found ends behind the address, and below the end of the address space\<close>
  "moves_on R task \<longleftrightarrow> (\<forall>a a1 s1 res ad sz ti. vr_basic R task a = Some (a1, s1, res) \<longrightarrow> vr_top R task a1 = Some (ad, sz, ti)
     \<longrightarrow> unat a < unat ad + unat sz \<and> unat ad + unat sz < 2 ^ 64)"

lemma region_list_exists:
  assumes m: "moves_on R task"
  shows "\<exists>rs. region_list R task a rs"
proof (induction "2 ^ 64 - unat a" arbitrary: a rule: less_induct)
  case less
  show ?case
  proof (cases "\<exists>a1 s1 res ad sz ti. vr_basic R task a = Some (a1, s1, res) \<and> vr_top R task a1 = Some (ad, sz, ti)")
    case True
    then obtain a1 s1 res ad sz ti where v: "vr_basic R task a = Some (a1, s1, res)" "vr_top R task a1 = Some (ad, sz, ti)"
      by blast
    with m have u: "unat a < unat ad + unat sz" "unat ad + unat sz < 2 ^ 64" unfolding moves_on_def by blast+
    then have "unat (ad + sz) = unat ad + unat sz" by (simp add: unat_word_ariths)
    with u have "2 ^ 64 - unat (ad + sz) < 2 ^ 64 - unat a" by linarith
    from less [OF this] obtain rs where "region_list R task (ad + sz) rs" by blast
    with v have "region_list R task a ((ad, sz, res, ti) # rs)" by simp
    then show ?thesis by blast
  next
    case False
    then have "vr_top R task a1 = None" if "vr_basic R task a = Some (a1, s1, res)" for a1 s1 res
      using that by (metis not_Some_eq prod_cases3)
    then have "region_list R task a []" by (auto split: option.split)
    then show ?thesis by blast
  qed
qed

definition mem_of_regions :: "vm_regions \<Rightarrow> task_basic \<Rightarrow> region list \<Rightarrow> glibtop_proc_mem \<Rightarrow> bool" where
  \<comment> \<open>what the answer says of the regions: the sums over those that count and over the objects\<close>
  "mem_of_regions R tinfo rs b \<longleftrightarrow>
     (let regs = registered R rs; own = filter (counted R) rs in
        pm_rss b = sum_list (map (region_pages R) own) + (\<Sum>obj\<in>real_objects regs. own_pages R (shared_object regs obj))
        \<and> ProcInfo.pm_size b = sum_list (map (region_size R) own) + (\<Sum>obj\<in>real_objects regs. own_size (shared_object regs obj))
        \<and> pm_share b = (\<Sum>obj\<in>real_objects regs. others_pages R (shared_object regs obj))
        \<and> pm_resident b = tb_resident tinfo
        \<and> pm_vsize b = tb_virtual tinfo - (if \<exists>r\<in>set rs. splits R r then DATA_SEGMENT_END R - TEXT_SEGMENT_START R else 0))"

text \<open>
  C38. The memory of a process on Darwin: if the kernel answers for regions as it is documented, the
  call returns, with the rights it was called with, and the result is the sum over the regions. Shared objects count once, with what
  the first region with the object says: as private memory of the process if the regions of the process make up all
  references to the object, and as shared memory otherwise. The table of 137 chained buckets does the same as this
  set of objects, but for one object: that with the id 0 is lost.
\<close>

theorem proc_mem_dw_spec:
  assumes m: "lowered_user m c" and task: "mp_task P (raised_user m c) pid = Some task" and t: "mp_basic P task = Some tinfo"
    and on: "moves_on R task"
  shows "\<exists>rs b. region_list R task 0 rs \<and> glibtop_get_proc_mem_p_dw P R m c pid = Some (Inr (b, c, [task]))
    \<and> mem_of_regions R tinfo rs b"
proof -
  obtain rs where rs: "region_list R task 0 rs" using region_list_exists [OF on] by blast
  define w where "w = fold (step_region R) rs walk_init"
  define s where "s = objects_spec R (registered R rs) \<lparr>ms_private = wk_private w, ms_vprivate = wk_vprivate w, ms_shared = 0\<rparr>"
  have walk: "region_walk R task 0 walk_init = Some w" using region_walk_list [OF rs] by (simp add: w_def)
  have w: "w = \<lparr>wk_private = sum_list (map (region_pages R) (filter (counted R) rs)),
      wk_vprivate = sum_list (map (region_size R) (filter (counted R) rs)), wk_split = (\<exists>r\<in>set rs. splits R r),
      wk_table = fold (\<lambda>(ti, sz). shared_table_register ti sz) (registered R rs) shared_table_init\<rparr>"
    unfolding w_def fold_step_region by (simp add: walk_init_def)
  have s: "sum_table R (wk_table w) \<lparr>ms_private = wk_private w, ms_vprivate = wk_vprivate w, ms_shared = 0\<rparr> = s"
    by (simp add: s_def shared.total_fold w)
  have g: "glibtop_get_proc_mem_p_dw P R m c pid = Some (Inr (proc_mem_zero\<lparr>ProcInfo.pm_size := ms_vprivate s,
      pm_vsize := (if wk_split w then tb_virtual tinfo - (DATA_SEGMENT_END R - TEXT_SEGMENT_START R) else tb_virtual tinfo),
      pm_resident := tb_resident tinfo, pm_share := ms_shared s, pm_rss := ms_private s,
      ProcInfo.pm_flags := sysdeps_proc_mem_dw\<rparr>, c, [task]))"
    using task t by (simp add: glibtop_get_proc_mem_p_dw_def enter_leave_user [OF m] walk s Let_def)
  have "ms_private s = wk_private w + (\<Sum>obj\<in>real_objects (registered R rs). own_pages R (shared_object (registered R rs) obj))"
    "ms_vprivate s = wk_vprivate w + (\<Sum>obj\<in>real_objects (registered R rs). own_size (shared_object (registered R rs) obj))"
    "ms_shared s = (\<Sum>obj\<in>real_objects (registered R rs). others_pages R (shared_object (registered R rs) obj))"
    by (simp_all add: s_def objects_spec_def)
  with rs g show ?thesis
    by (intro exI [of _ rs] exI conjI) (assumption, rule g, simp add: mem_of_regions_def Let_def w)
qed

lemma region_list_unique: "region_list R task a rs \<Longrightarrow> region_list R task a rs' \<Longrightarrow> rs = rs'"
proof (induction rs arbitrary: a rs')
  case Nil
  then show ?case by (cases rs') (auto split: option.splits)
next
  case (Cons r rs)
  obtain ad sz res ti where r: "r = (ad, sz, res, ti)" by (metis prod_cases4)
  from Cons.prems r obtain a1 s1 where v: "vr_basic R task a = Some (a1, s1, res)" "vr_top R task a1 = Some (ad, sz, ti)"
    "region_list R task (ad + sz) rs" by auto
  with Cons.prems(2) obtain rs'' where "rs' = r # rs''" "region_list R task (ad + sz) rs''" by (cases rs') (auto simp: r)
  with Cons.IH [OF v(3)] show ?case by simp
qed

definition demo_regions :: "(64 word \<times> 64 word \<times> vm_top) list" where
  \<comment> \<open>an object in two regions, a private region, and an object of the same bucket that others use\<close>
  "demo_regions =
     [(0x1000, 0x1000, \<lparr>vt_obj_id = 5, vt_ref_count = 2, vt_private = 0, vt_shared = 1, vt_share_mode = SM_SHARED\<rparr>),
      (0x3000, 0x2000, \<lparr>vt_obj_id = 5, vt_ref_count = 2, vt_private = 0, vt_shared = 1, vt_share_mode = SM_SHARED\<rparr>),
      (0x6000, 0x1000, \<lparr>vt_obj_id = 9, vt_ref_count = 1, vt_private = 1, vt_shared = 0, vt_share_mode = SM_PRIVATE\<rparr>),
      (0x8000, 0x4000, \<lparr>vt_obj_id = 142, vt_ref_count = 3, vt_private = 1, vt_shared = 2, vt_share_mode = SM_COW\<rparr>)]"

definition demo_vm :: vm_regions where
  "demo_vm = \<lparr>vr_basic = (\<lambda>_ a. map_option (\<lambda>(ad, sz, _). (ad, sz, False)) (List.find (\<lambda>(ad, sz, _). a < ad + sz) demo_regions)),
     vr_top = (\<lambda>_ a. List.find (\<lambda>(ad, sz, _). a < ad + sz) demo_regions), vr_recurse = (\<lambda>_ _ _. None), vr_page = 0x1000,
     vr_text = 0x90000000, vr_data = 0xa0000000, vr_data_size = 0x10000000\<rparr>"

definition demo_kinfo_dw :: kinfo_dw where
  "demo_kinfo_dw = \<lparr>kd_pid = 7, kd_stat = 2, kd_comm = ''sh'', kd_ruid = 501, kd_svuid = 501, kd_rgid = 20, kd_svgid = 20, kd_ppid = 1,
     kd_pgid = 7, kd_tpgid = 7, kd_nice = 0, kd_priority = 31, kd_siglist = 0, kd_sigmask = 0, kd_sigignore = 0, kd_sigcatch = 0,
     kd_start_sec = 0\<rparr>"

definition demo_mach :: mach where
  "demo_mach = \<lparr>mp_pid = (\<lambda>pid. Some (if pid = 7 then Some demo_kinfo_dw else None)), mp_junk = demo_kinfo_dw,
     mp_length = (\<lambda>_ _. Some 648), mp_list = (\<lambda>_ _. Some [demo_kinfo_dw]),
     mp_task = (\<lambda>c pid. if euid c = 0 then Some 3 else None),
     mp_basic = (\<lambda>_. Some \<lparr>tb_virtual = 0x8000, tb_resident = 0x4000, tb_user = (1, 0), tb_system = (0, 0)\<rparr>),
     mp_times = (\<lambda>_. Some ((0, 0), (0, 0))), mp_self = 1, mp_time_add = (\<lambda>a b. (fst a + fst b, snd a + snd b)),
     mp_procargs = (\<lambda>_ _. None)\<rparr>"

definition demo_machine_dw :: glibtop_machine where
  "demo_machine_dw = \<lparr>m_uid = 501, m_euid = 0, m_gid = 20, m_egid = 20\<rparr>"

definition demo_user :: cred where
  "demo_user = \<lparr>ruid = 0, euid = 501, suid = 501, rgid = 20, egid = 20, sgid = 20\<rparr>"

lemma demo_moves_on: "moves_on demo_vm task"
  unfolding moves_on_def demo_vm_def demo_regions_def
  by (auto simp: word_less_nat_alt split: if_splits)

theorem proc_mem_dw_spec_witness:
  "\<exists>b. glibtop_get_proc_mem_p_dw demo_mach demo_vm demo_machine_dw demo_user 7 = Some (Inr (b, demo_user, [3]))
     \<and> pm_rss b = 0x2000 \<and> pm_share b = 0x2000 \<and> ProcInfo.pm_size b = 0x3000"
proof -
  have m: "lowered_user demo_machine_dw demo_user" by (simp add: lowered_user_def demo_machine_dw_def demo_user_def)
  have t: "mp_task demo_mach (raised_user demo_machine_dw demo_user) 7 = Some 3"
    by (simp add: demo_mach_def raised_user_def demo_machine_dw_def)
  have i: "mp_basic demo_mach 3 = Some \<lparr>tb_virtual = 0x8000, tb_resident = 0x4000, tb_user = (1, 0), tb_system = (0, 0)\<rparr>"
    by (simp add: demo_mach_def)
  let ?rs = "map (\<lambda>(ad, sz, ti). (ad, sz, False, ti)) demo_regions"
  have rs: "region_list demo_vm 3 0 ?rs" by (simp add: demo_vm_def demo_regions_def)
  have reg: "filter (counted demo_vm) ?rs = ?rs"
    "registered demo_vm ?rs = map (\<lambda>(ad, sz, ti). (ti, sz)) [demo_regions ! 0, demo_regions ! 1, demo_regions ! 3]"
    by (simp_all add: registered_def counted_def in_shared_segment_def TEXT_SEGMENT_START_def demo_vm_def demo_regions_def)
  have obj: "real_objects (registered demo_vm ?rs) = {5, 142}"
    unfolding real_objects_def object_ids_def reg by (auto simp: demo_regions_def)
  have u: "region_list demo_vm 3 0 rs' \<longleftrightarrow> rs' = ?rs" for rs' using region_list_unique [OF _ rs] rs by blast
  from proc_mem_dw_spec [OF m t i demo_moves_on] obtain b where
    "glibtop_get_proc_mem_p_dw demo_mach demo_vm demo_machine_dw demo_user 7 = Some (Inr (b, demo_user, [3]))"
    "mem_of_regions demo_vm \<lparr>tb_virtual = 0x8000, tb_resident = 0x4000, tb_user = (1, 0), tb_system = (0, 0)\<rparr> ?rs b"
    unfolding u by blast
  then show ?thesis
    unfolding mem_of_regions_def Let_def obj unfolding reg
    by (simp add: shared_object_def new_info_def own_pages_def own_size_def others_pages_def is_own_def region_pages_def
        region_size_def sole_def pages_def demo_regions_def demo_vm_def)
qed

section \<open>The memory map\<close>

text \<open>The entries that the walk makes of the kernel's answers from an address and a depth on.\<close>

inductive submaps :: "vm_regions \<Rightarrow> nat \<Rightarrow> 64 word \<Rightarrow> guint32 \<Rightarrow> glibtop_map_entry list \<Rightarrow> bool" for R task where
  submaps_end: "vr_recurse R task a d = None \<Longrightarrow> submaps R task a d []"
| submaps_down: "vr_recurse R task a d = Some (a', sz, d', i) \<Longrightarrow> vi_is_submap i \<Longrightarrow> submaps R task a' (d' + 1) es
    \<Longrightarrow> submaps R task a d es"
| submaps_region: "vr_recurse R task a d = Some (a', sz, d', i) \<Longrightarrow> \<not> vi_is_submap i \<Longrightarrow> submaps R task (a' + sz) d' es
    \<Longrightarrow> submaps R task a d (map_entry_dw a' sz i # es)"

lemma submap_walk_submaps: "submaps R task a d es \<Longrightarrow> submap_walk R task a d maps = Some (maps @ es)"
  by (induction arbitrary: maps rule: submaps.induct) (subst submap_walk.simps, simp)+

lemma submap_walk_returns:
  assumes "submap_walk R task a d maps = Some maps'"
  shows "\<exists>es. submaps R task a d es \<and> maps' = maps @ es"
proof (rule submap_walk.raw_induct [where P = "\<lambda>R task a d maps maps'. \<exists>es. submaps R task a d es \<and> maps' = maps @ es", OF _ assms])
  fix f R task a d maps maps'
  assume 1: "\<And>R task a d maps maps'. f R task a d maps = Some maps' \<Longrightarrow> \<exists>es. submaps R task a d es \<and> maps' = maps @ es"
    "(case vr_recurse R task a d of
        None \<Rightarrow> Some maps
      | Some (address, sz, nesting_depth, info) \<Rightarrow>
          (if vi_is_submap info then f R task address (nesting_depth + 1) maps
           else f R task (address + sz) nesting_depth (maps @ [map_entry_dw address sz info]))) = Some maps'"
  show "\<exists>es. submaps R task a d es \<and> maps' = maps @ es"
  proof (cases "vr_recurse R task a d")
    case None
    with 1(2) show ?thesis by (auto intro: submaps_end)
  next
    case (Some r)
    obtain a' sz d' i where r: "r = (a', sz, d', i)" by (metis prod_cases4)
    show ?thesis
    proof (cases "vi_is_submap i")
      case True
      with 1(2) Some r have "f R task a' (d' + 1) maps = Some maps'" by simp
      from 1(1) [OF this] Some r True show ?thesis by (auto intro: submaps_down)
    next
      case False
      with 1(2) Some r have "f R task (a' + sz) d' (maps @ [map_entry_dw a' sz i]) = Some maps'" by simp
      from 1(1) [OF this] obtain es where "submaps R task (a' + sz) d' es" "maps' = maps @ map_entry_dw a' sz i # es" by auto
      with submaps_region [OF Some [unfolded r] False] show ?thesis by blast
    qed
  qed
qed

definition maps_on :: "vm_regions \<Rightarrow> nat \<Rightarrow> bool" where
  \<comment> \<open>as documented: a region that is found is not in front of the address, not empty, and ends below the end of the
    address space\<close>
  "maps_on R task \<longleftrightarrow> (\<forall>a d a' sz d' i. vr_recurse R task a d = Some (a', sz, d', i) \<longrightarrow>
     a \<le> a' \<and> 0 < sz \<and> unat a' + unat sz < 2 ^ 64)"

lemma entry_bounds:
  assumes "0 < sz" "unat a + unat sz < 2 ^ 64"
  shows "me_start (map_entry_dw a sz i) = a" "a \<le> me_end (map_entry_dw a sz i)" "me_end (map_entry_dw a sz i) < a + sz"
proof -
  have u: "unat (a + sz) = unat a + unat sz" using assms by (simp add: unat_word_ariths)
  have s: "0 < unat sz" using assms(1) by (simp add: word_less_nat_alt)
  then have "unat (a + sz - 1) = unat a + unat sz - 1" using u by (metis (no_types) add_gr_0 unat_minus_one unat_eq_zero less_irrefl)
  with u s show "a \<le> me_end (map_entry_dw a sz i)" "me_end (map_entry_dw a sz i) < a + sz"
    by (simp_all add: map_entry_dw_def word_le_nat_alt word_less_nat_alt)
qed (simp add: map_entry_dw_def)

lemma submaps_sorted:
  assumes "submaps R task a d es" and "maps_on R task"
  shows "sorted_wrt (\<lambda>e f. me_end e < me_start f) es \<and> (\<forall>e\<in>set es. a \<le> me_start e \<and> me_start e \<le> me_end e)"
  using assms(1)
proof induction
  case (submaps_down a d a' sz d' i es)
  with assms(2) have "a \<le> a'" unfolding maps_on_def by blast
  with submaps_down.IH show ?case by (auto intro: order_trans)
next
  case (submaps_region a d a' sz d' i es)
  with assms(2) have k: "a \<le> a'" "0 < sz" "unat a' + unat sz < 2 ^ 64" unfolding maps_on_def by blast+
  note b = entry_bounds [OF k(2,3), of i]
  have "a' \<le> a' + sz" using b(2,3) by (meson less_imp_le order_trans)
  with k(1) b submaps_region.IH show ?case by (auto intro: less_le_trans order_trans)
qed simp

text \<open>
  The memory map of a process on Darwin: a call that returns for a task the kernel gives out has an entry for
  each region the kernel answers with, through all submaps. Where the kernel answers as documented, the entries are in
  the order of the addresses and do not overlap; the end is the address of the last byte.
\<close>

theorem proc_map_dw_spec:
  assumes m: "lowered_user m c" and task: "mp_task P (raised_user m c) pid = Some task"
  shows "glibtop_get_proc_map_p_dw P R m c pid = Some r \<longleftrightarrow>
      (\<exists>es. submaps R task 0 0 es \<and> r = Inr ((\<lparr>pm_flags = flag 1 + flag 0 + flag 2, pm_number = of_nat (length es),
           pm_total = of_nat (length es) * 336, pm_size = 336\<rparr>, if es = [] then None else Some es), c, [task]))"
    and "submaps R task 0 0 es \<Longrightarrow> maps_on R task \<Longrightarrow> sorted_wrt (\<lambda>e f. me_end e < me_start f) es"
proof -
  have "submap_walk R task 0 0 [] = Some es \<longleftrightarrow> submaps R task 0 0 es" for es
    using submap_walk_submaps [of R task 0 0 es "[]"] submap_walk_returns [of R task 0 0 "[]" es] by auto
  then show "glibtop_get_proc_map_p_dw P R m c pid = Some r \<longleftrightarrow>
      (\<exists>es. submaps R task 0 0 es \<and> r = Inr ((\<lparr>pm_flags = flag 1 + flag 0 + flag 2, pm_number = of_nat (length es),
           pm_total = of_nat (length es) * 336, pm_size = 336\<rparr>, if es = [] then None else Some es), c, [task]))"
    using task by (auto simp: glibtop_get_proc_map_p_dw_def enter_leave_user [OF m] bind_eq_Some_conv Let_def)
  show "submaps R task 0 0 es \<Longrightarrow> maps_on R task \<Longrightarrow> sorted_wrt (\<lambda>e f. me_end e < me_start f) es"
    using submaps_sorted by blast
qed

end
