(* ===== verification/DwNet.thy ===== *)
theory DwNet
  imports DwSys
begin

unbundle bit_operations_syntax

text \<open>
  \<open>netload.c\<close> under \<open>sysdeps/darwin\<close>: the counters of an interface, from the messages that \<open>sysctl\<close> writes into a
  buffer. What a header at an offset of the buffer holds is a parameter; the length in a header may
  be anything, also 0, so that the walk is a partial function.
\<close>

section \<open>The messages\<close>

record if_data32 =
  id_mtu :: guint32
  id_ipackets :: guint32
  id_opackets :: guint32
  id_ibytes :: guint32
  id_obytes :: guint32
  id_ierrors :: guint32
  id_oerrors :: guint32
  id_collisions :: guint32

text \<open>A \<open>struct if_msghdr\<close> with the \<open>struct sockaddr_dl\<close> behind it. The name in \<open>sdl_data\<close> has no NUL of its own: behind it
  come the bytes of the link address.\<close>

record if_msg =
  im_type :: "8 word"
  im_msglen :: "16 word"
  im_flags :: gint32
  im_data :: if_data32
  im_family :: "8 word"
  im_nlen :: "8 word"
  im_sdl_data :: string

record net_dw =
  nd_size :: "nat option"        \<comment> \<open>\<open>bufsize\<close> of the first call of \<open>sysctl\<close>; \<open>None\<close>: it fails\<close>
  nd_written :: "nat option"     \<comment> \<open>\<open>bufsize\<close> behind the second\<close>
  nd_at :: "nat \<Rightarrow> if_msg"

abbreviation (input) "RTM_NEWADDR \<equiv> 0xc :: 8 word"
abbreviation (input) "RTM_IFINFO \<equiv> 0xe :: 8 word"
abbreviation (input) "AF_LINK_DW \<equiv> 18 :: 8 word"

section \<open>netload.c\<close>

definition sysdeps_netload_dw :: guint64 where
  "sysdeps_netload_dw = flag 0 + flag 1 + flag 4 + flag 5 + flag 6 + flag 7 + flag 8 + flag 9 + flag 10 + flag 11 + flag 12 + flag 13"

definition init_netload_p_dw :: "glibtop \<Rightarrow> glibtop" where
  "init_netload_p_dw server = set_sysdeps F_NETLOAD sysdeps_netload_dw server"

partial_function (option) skip_newaddr :: "(nat \<Rightarrow> if_msg) \<Rightarrow> nat \<Rightarrow> nat \<Rightarrow> nat option" where
  \<comment> \<open>the inner loop: the end of the buffer and the pointer\<close>
  "skip_newaddr msg_at eob ptr =
     (if eob \<le> ptr then Some ptr
      else if im_type (msg_at ptr) \<noteq> RTM_NEWADDR then Some ptr
      else skip_newaddr msg_at eob (ptr + unat (im_msglen (msg_at ptr))))"

definition is_named :: "string \<Rightarrow> if_msg \<Rightarrow> bool" where
  \<comment> \<open>the three tests in front of \<open>goto FOUND\<close>\<close>
  "is_named interface m \<longleftrightarrow> im_family m = AF_LINK_DW \<and> length interface = unat (im_nlen m) \<and> c_str (im_sdl_data m) = interface"

partial_function (option) find_if :: "(nat \<Rightarrow> if_msg) \<Rightarrow> nat \<Rightarrow> string \<Rightarrow> nat \<Rightarrow> if_msg option option" where
  "find_if msg_at eob interface ptr =
     (if eob \<le> ptr then Some None
      else if im_type (msg_at ptr) \<noteq> RTM_IFINFO then Some None
      else Option.bind (skip_newaddr msg_at eob (ptr + unat (im_msglen (msg_at ptr)))) (\<lambda>ptr'.
        if is_named interface (msg_at ptr) then Some (Some (msg_at ptr)) else find_if msg_at eob interface ptr'))"

text \<open>The bits that are tested and the constants \<open>GLIBTOP_IF_FLAGS_\<close> for them; \<open>IFF_NOARP\<close> is tested twice, the second time
  for PROMISC. The constants are the numbers of bits, but the code sets them as they are, without a shift.\<close>

definition iff_table_dw :: "(gint32 \<times> nat) list" where
  "iff_table_dw = [(0x1, 1), (0x2, 2), (0x4, 3), (0x8, 4), (0x10, 5), (0x40, 6), (0x80, 7), (0x80, 8), (0x200, 9),
     (0x400, 10), (0x800, 11), (0x1000, 12), (0x2000, 13), (0x4000, 14), (0x4000, 15), (0x8000, 16)]"

definition if_flag_bits_dw :: "gint32 \<Rightarrow> guint64" where
  "if_flag_bits_dw flags = fold (\<lambda>(iff, n) r. if flags AND iff \<noteq> 0 then r OR of_nat n else r) iff_table_dw 0"

definition netload_counters_dw :: "if_msg \<Rightarrow> glibtop_netload" where
  "netload_counters_dw m =
     (let d = im_data m in
      netload_zero\<lparr>nl_if_flags := if_flag_bits_dw (im_flags m), nl_mtu := id_mtu d,
        packets_in := ucast (id_ipackets d), packets_out := ucast (id_opackets d),
        packets_total := ucast (id_ipackets d) + ucast (id_opackets d),
        bytes_in := ucast (id_ibytes d), bytes_out := ucast (id_obytes d),
        bytes_total := ucast (id_ibytes d) + ucast (id_obytes d),
        errors_in := ucast (id_ierrors d), errors_out := ucast (id_oerrors d),
        errors_total := ucast (id_ierrors d) + ucast (id_oerrors d),
        collisions := ucast (id_collisions d), nl_flags := sysdeps_netload_dw\<rparr>)"

text \<open>What the call does with memory, in order: at the end of the branch for an interface that is found, \<open>g_free\<close> gets
  the buffer of the caller in place of \<open>rtbuf\<close>. \<open>g_malloc\<close> of 0 bytes gives NULL.\<close>

datatype mem_call = GMallocRtbuf nat | GFreeRtbuf | GFreeBuf

record netload_dw_result =
  nr_buf :: glibtop_netload
  nr_memory :: "mem_call list"

definition glibtop_get_netload_p_dw :: "net_dw \<Rightarrow> string \<Rightarrow> netload_dw_result option" where
  "glibtop_get_netload_p_dw N interface =
     (case nd_size N of
        None \<Rightarrow> Some \<lparr>nr_buf = netload_zero, nr_memory = []\<rparr>
      | Some bufsize \<Rightarrow>
          (if bufsize = 0 then Some \<lparr>nr_buf = netload_zero, nr_memory = [GMallocRtbuf 0]\<rparr>
           else case nd_written N of
             None \<Rightarrow> Some \<lparr>nr_buf = netload_zero, nr_memory = [GMallocRtbuf bufsize, GFreeRtbuf]\<rparr>
           | Some eob \<Rightarrow>
               map_option (\<lambda>found. case found of
                   None \<Rightarrow> \<lparr>nr_buf = netload_zero, nr_memory = [GMallocRtbuf bufsize, GFreeRtbuf]\<rparr>
                 | Some ifm \<Rightarrow> \<lparr>nr_buf = netload_counters_dw ifm, nr_memory = [GMallocRtbuf bufsize, GFreeBuf]\<rparr>)
                 (find_if (nd_at N) eob interface 0)))"

section \<open>What is found\<close>

text \<open>The messages for addresses from an offset on, and the messages for interfaces with those behind each of them.\<close>

inductive address_msgs :: "(nat \<Rightarrow> if_msg) \<Rightarrow> nat \<Rightarrow> nat \<Rightarrow> nat \<Rightarrow> bool" for msg_at eob where
  "eob \<le> p \<or> im_type (msg_at p) \<noteq> RTM_NEWADDR \<Longrightarrow> address_msgs msg_at eob p p"
| "p < eob \<Longrightarrow> im_type (msg_at p) = RTM_NEWADDR \<Longrightarrow> address_msgs msg_at eob (p + unat (im_msglen (msg_at p))) q
     \<Longrightarrow> address_msgs msg_at eob p q"

fun if_msgs :: "(nat \<Rightarrow> if_msg) \<Rightarrow> nat \<Rightarrow> nat \<Rightarrow> if_msg list \<Rightarrow> bool" where
  "if_msgs msg_at eob ptr [] \<longleftrightarrow> eob \<le> ptr \<or> im_type (msg_at ptr) \<noteq> RTM_IFINFO"
| "if_msgs msg_at eob ptr (m # ms) \<longleftrightarrow> ptr < eob \<and> msg_at ptr = m \<and> im_type m = RTM_IFINFO
     \<and> (\<exists>ptr'. address_msgs msg_at eob (ptr + unat (im_msglen m)) ptr' \<and> if_msgs msg_at eob ptr' ms)"

lemma address_msgs_skip: "address_msgs msg_at eob p q \<Longrightarrow> skip_newaddr msg_at eob p = Some q"
  by (induction rule: address_msgs.induct) (subst skip_newaddr.simps, auto)+

lemma find_if_msgs: "if_msgs msg_at eob ptr ms \<Longrightarrow> find_if msg_at eob interface ptr = Some (List.find (is_named interface) ms)"
proof (induction ms arbitrary: ptr)
  case (Cons m ms)
  then obtain ptr' where m: "ptr < eob" "msg_at ptr = m" "im_type m = RTM_IFINFO" "if_msgs msg_at eob ptr' ms"
    and "address_msgs msg_at eob (ptr + unat (im_msglen m)) ptr'" by auto
  note address_msgs_skip [OF this(5)]
  with m Cons.IH [OF m(4)] show ?case by (subst find_if.simps) simp
qed (subst find_if.simps, auto)

lemma address_msgs_exist:
  assumes "\<forall>p<eob. 0 < im_msglen (msg_at p)"
  shows "\<exists>q. address_msgs msg_at eob p q \<and> p \<le> q"
proof (induction "eob - p" arbitrary: p rule: less_induct)
  case less
  show ?case
  proof (cases "p < eob \<and> im_type (msg_at p) = RTM_NEWADDR")
    case True
    with assms have "0 < unat (im_msglen (msg_at p))" by (simp add: word_less_nat_alt)
    with True have "eob - (p + unat (im_msglen (msg_at p))) < eob - p" by linarith
    from less [OF this] obtain q where
      "address_msgs msg_at eob (p + unat (im_msglen (msg_at p))) q" "p + unat (im_msglen (msg_at p)) \<le> q" by blast
    moreover from this True have "address_msgs msg_at eob p q" by (intro address_msgs.intros(2) [of p]) blast+
    ultimately show ?thesis by (intro exI [of _ q]) simp
  next
    case False
    then show ?thesis by (intro exI [of _ p] conjI address_msgs.intros(1)) auto
  qed
qed

lemma if_msgs_exist:
  assumes pos: "\<forall>p<eob. 0 < im_msglen (msg_at p)"
  shows "\<exists>ms. if_msgs msg_at eob p ms"
proof (induction "eob - p" arbitrary: p rule: less_induct)
  case less
  show ?case
  proof (cases "p < eob \<and> im_type (msg_at p) = RTM_IFINFO")
    case True
    with pos have "0 < unat (im_msglen (msg_at p))" by (simp add: word_less_nat_alt)
    moreover obtain q where q: "address_msgs msg_at eob (p + unat (im_msglen (msg_at p))) q"
      "p + unat (im_msglen (msg_at p)) \<le> q" using address_msgs_exist [OF pos] by blast
    ultimately have "eob - q < eob - p" using True by linarith
    from less [OF this] obtain ms where "if_msgs msg_at eob q ms" by blast
    with True q have "if_msgs msg_at eob p (msg_at p # ms)" by auto
    then show ?thesis by blast
  next
    case False
    then have "if_msgs msg_at eob p []" by auto
    then show ?thesis by blast
  qed
qed

lemma if_msgs_unique: "if_msgs msg_at eob p ms \<Longrightarrow> if_msgs msg_at eob p ms' \<Longrightarrow> ms = ms'"
proof (induction ms arbitrary: p ms')
  case (Cons m ms)
  then show ?case by (cases ms') (auto dest!: address_msgs_skip)
qed (metis if_msgs.simps leD neq_Nil_conv)

text \<open>The messages that the call takes for the interface: of its name, and with nothing or a zero byte behind the name.\<close>

definition names_interface :: "string \<Rightarrow> if_msg \<Rightarrow> bool" where
  "names_interface interface m \<longleftrightarrow> im_family m = 18 \<and> unat (im_nlen m) = length interface \<and> NUL \<notin> set interface
     \<and> (im_sdl_data m = interface \<or> (\<exists>rest. im_sdl_data m = interface @ NUL # rest))"

lemma is_named_names: "is_named interface m \<longleftrightarrow> names_interface interface m"
proof -
  have "c_str d = s \<longleftrightarrow> NUL \<notin> set s \<and> (d = s \<or> (\<exists>rest. d = s @ NUL # rest))" for d s
  proof
    assume s: "c_str d = s"
    have n: "NUL \<notin> set s" unfolding s [symmetric] c_str_def using set_takeWhileD by fastforce
    define t where "t = dropWhile (\<lambda>c. c \<noteq> NUL) d"
    have "d = s @ t" unfolding t_def s [symmetric] c_str_def by simp
    moreover have "t = [] \<or> hd t = NUL"
      using hd_dropWhile [of "\<lambda>c. c \<noteq> NUL" d] unfolding t_def by blast
    ultimately show "NUL \<notin> set s \<and> (d = s \<or> (\<exists>rest. d = s @ NUL # rest))"
      using n by (cases t) auto
  qed (auto simp: c_str_id c_str_append)
  then show ?thesis by (auto simp: is_named_def names_interface_def)
qed

text \<open>The numbers of the flags and the bits of \<open>ifm_flags\<close> that each stands for, as \<open>net/if.h\<close> has them.\<close>

definition flag_number :: "gint32 \<Rightarrow> nat \<Rightarrow> bool" where
  "flag_number f n \<longleftrightarrow> n = 1 \<and> bit f 0 \<or> n = 2 \<and> bit f 1 \<or> n = 3 \<and> bit f 2 \<or> n = 4 \<and> bit f 3 \<or> n = 5 \<and> bit f 4
     \<or> n = 6 \<and> bit f 6 \<or> n \<in> {7, 8} \<and> bit f 7 \<or> n = 9 \<and> bit f 9 \<or> n = 10 \<and> bit f 10 \<or> n = 11 \<and> bit f 11
     \<or> n = 12 \<and> bit f 12 \<or> n = 13 \<and> bit f 13 \<or> n \<in> {14, 15} \<and> bit f 14 \<or> n = 16 \<and> bit f 15"

lemma fold_or_bit:
  fixes flags :: gint32 and r :: guint64
  shows "bit (fold (\<lambda>(iff, n) r. if flags AND iff \<noteq> 0 then r OR of_nat n else r) tab r) k
    \<longleftrightarrow> bit r k \<or> (\<exists>(iff, n)\<in>set tab. flags AND iff \<noteq> 0 \<and> bit (of_nat n :: guint64) k)"
  by (induction tab arbitrary: r) (auto simp: bit_or_iff split: if_splits)

lemma if_flag_bits_numbers:
  "bit (if_flag_bits_dw f) k \<longleftrightarrow> (\<exists>n. flag_number f n \<and> bit (of_nat n :: guint64) k)"
proof -
  define P where "P = (\<lambda>iff. f AND iff \<noteq> 0)"
  define B where "B = (\<lambda>n. bit (of_nat n :: guint64) k)"
  have a: "P 0x1 = bit f 0" "P 0x2 = bit f 1" "P 0x4 = bit f 2" "P 0x8 = bit f 3" "P 0x10 = bit f 4" "P 0x40 = bit f 6"
    "P 0x80 = bit f 7" "P 0x200 = bit f 9" "P 0x400 = bit f 10" "P 0x800 = bit f 11" "P 0x1000 = bit f 12" "P 0x2000 = bit f 13"
    "P 0x4000 = bit f 14" "P 0x8000 = bit f 15"
    using and_exp_eq_0_iff_not_bit [of f 0] and_exp_eq_0_iff_not_bit [of f 1] and_exp_eq_0_iff_not_bit [of f 2]
      and_exp_eq_0_iff_not_bit [of f 3] and_exp_eq_0_iff_not_bit [of f 4] and_exp_eq_0_iff_not_bit [of f 6]
      and_exp_eq_0_iff_not_bit [of f 7] and_exp_eq_0_iff_not_bit [of f 9] and_exp_eq_0_iff_not_bit [of f 10]
      and_exp_eq_0_iff_not_bit [of f 11] and_exp_eq_0_iff_not_bit [of f 12] and_exp_eq_0_iff_not_bit [of f 13]
      and_exp_eq_0_iff_not_bit [of f 14] and_exp_eq_0_iff_not_bit [of f 15] by (simp_all add: P_def)
  have "(\<exists>(iff, n)\<in>set iff_table_dw. P iff \<and> B n) \<longleftrightarrow> (\<exists>n. flag_number f n \<and> B n)"
    by (simp add: iff_table_dw_def flag_number_def conj_disj_distribR ex_disj_distrib a)
  then show ?thesis unfolding if_flag_bits_dw_def fold_or_bit P_def B_def by simp
qed

lemma if_flags_up_alone: "if_flag_bits_dw 0x1 = 1" "if_flag_bits_dw 0x80 = 15"
  by (simp_all add: if_flag_bits_dw_def iff_table_dw_def)

text \<open>
  C39. The traffic of an interface on Darwin: where every message has a length that is not 0, the call returns. If \<open>sysctl\<close> writes its
  messages, then for the first interface whose
  name is that of the call, and whose link address starts with a zero byte or is not there, it writes each counter of the message
  and the sums of both directions
  into the buffer; its flags are the numbers of the flags that are set, in place of their bits, put together with OR, and NOARP counts as
  PROMISC too. Then it frees the buffer, which is the caller's, and not its own copy of the messages. For a name
  that is not found, and where \<open>sysctl\<close> fails, it clears the buffer and frees what it has allocated.
\<close>

theorem netload_dw_spec:
  assumes pos: "\<forall>eob p. nd_written N = Some eob \<and> p < eob \<longrightarrow> 0 < im_msglen (nd_at N p)"
  shows "\<exists>r. glibtop_get_netload_p_dw N interface = Some r
    \<and> (nd_size N \<in> {None, Some 0} \<longrightarrow> nr_buf r = netload_zero \<and> GFreeBuf \<notin> set (nr_memory r))
    \<and> (\<forall>bufsize. nd_size N = Some bufsize \<and> bufsize \<noteq> 0 \<and> nd_written N = None \<longrightarrow>
         nr_buf r = netload_zero \<and> nr_memory r = [GMallocRtbuf bufsize, GFreeRtbuf])
    \<and> (\<forall>bufsize eob. nd_size N = Some bufsize \<and> bufsize \<noteq> 0 \<and> nd_written N = Some eob \<longrightarrow>
       (\<exists>ms. if_msgs (nd_at N) eob 0 ms
        \<and> (case List.find (names_interface interface) ms of
             None \<Rightarrow> nr_buf r = netload_zero \<and> nr_memory r = [GMallocRtbuf bufsize, GFreeRtbuf]
           | Some m \<Rightarrow> nr_memory r = [GMallocRtbuf bufsize, GFreeBuf]
               \<and> (\<forall>k. bit (nl_if_flags (nr_buf r)) k \<longleftrightarrow> (\<exists>n. flag_number (im_flags m) n \<and> bit (of_nat n :: guint64) k))
               \<and> nl_mtu (nr_buf r) = id_mtu (im_data m)
               \<and> packets_in (nr_buf r) = ucast (id_ipackets (im_data m)) \<and> packets_out (nr_buf r) = ucast (id_opackets (im_data m))
               \<and> packets_total (nr_buf r) = ucast (id_ipackets (im_data m)) + ucast (id_opackets (im_data m))
               \<and> bytes_in (nr_buf r) = ucast (id_ibytes (im_data m)) \<and> bytes_out (nr_buf r) = ucast (id_obytes (im_data m))
               \<and> bytes_total (nr_buf r) = ucast (id_ibytes (im_data m)) + ucast (id_obytes (im_data m))
               \<and> errors_in (nr_buf r) = ucast (id_ierrors (im_data m)) \<and> errors_out (nr_buf r) = ucast (id_oerrors (im_data m))
               \<and> errors_total (nr_buf r) = ucast (id_ierrors (im_data m)) + ucast (id_oerrors (im_data m))
               \<and> collisions (nr_buf r) = ucast (id_collisions (im_data m))
               \<and> (\<forall>k. bit (nl_flags (nr_buf r)) k \<longleftrightarrow> k \<in> {0, 1} \<union> {4..13}))))"
proof -
  have fl: "bit sysdeps_netload_dw k \<longleftrightarrow> k \<in> {0, 1} \<union> {4..13}" for k
  proof -
    have "sysdeps_netload_dw = mask 14 AND NOT (push_bit 2 (mask 2))"
      by (simp add: sysdeps_netload_dw_def mask_eq_exp_minus_1)
    then have "bit sysdeps_netload_dw k = bit (mask 14 AND NOT (push_bit 2 (mask 2)) :: guint64) k" by (rule arg_cong)
    then show ?thesis by (auto simp: bit_and_iff bit_not_iff bit_push_bit_iff bit_mask_iff)
  qed
  have named: "is_named interface = names_interface interface" by (rule ext) (rule is_named_names)
  show ?thesis
  proof (cases "nd_written N")
    case None
    then show ?thesis by (cases "nd_size N") (auto simp: glibtop_get_netload_p_dw_def)
  next
    case (Some eob)
    then have "\<forall>p<eob. 0 < im_msglen (nd_at N p)" using pos by blast
    then obtain ms where ms: "if_msgs (nd_at N) eob 0 ms" using if_msgs_exist by blast
    show ?thesis
      using Some ms find_if_msgs [OF ms, of interface] fl if_flag_bits_numbers
      by (cases "nd_size N"; cases "List.find (names_interface interface) ms")
        (auto simp: glibtop_get_netload_p_dw_def netload_counters_dw_def named Let_def intro!: exI [of _ ms])
  qed
qed

definition demo_if_msg :: "string \<Rightarrow> gint32 \<Rightarrow> guint32 \<Rightarrow> if_msg" where
  "demo_if_msg nm flags n = \<lparr>im_type = RTM_IFINFO, im_msglen = 132, im_flags = flags,
     im_data = \<lparr>id_mtu = 1500, id_ipackets = n, id_opackets = 2, id_ibytes = 300, id_obytes = 4, id_ierrors = 0, id_oerrors = 0,
       id_collisions = 0\<rparr>,
     im_family = AF_LINK_DW, im_nlen = 3, im_sdl_data = nm @ [NUL]\<rparr>"

definition demo_net_dw :: net_dw where
  \<comment> \<open>the loopback interface and one with the flag for NOARP, each with an address behind it\<close>
  "demo_net_dw = \<lparr>nd_size = Some 600, nd_written = Some 312,
     nd_at = (\<lambda>p. if p = 0 then demo_if_msg ''lo0'' 0x49 7 else if p = 156 then demo_if_msg ''en0'' 0x8880 5
        else (demo_if_msg ''en0'' 0 0)\<lparr>im_type := RTM_NEWADDR, im_msglen := 24\<rparr>)\<rparr>"

theorem netload_dw_spec_witness:
  "\<exists>r. glibtop_get_netload_p_dw demo_net_dw ''en0'' = Some r \<and> nr_memory r = [GMallocRtbuf 600, GFreeBuf] \<and> packets_in (nr_buf r) = 5
     \<and> packets_total (nr_buf r) = 7 \<and> bytes_out (nr_buf r) = 4 \<and> \<not> bit (nl_if_flags (nr_buf r)) 6"
proof -
  let ?at = "nd_at demo_net_dw"
  have s: "nd_size demo_net_dw = Some 600" "nd_written demo_net_dw = Some 312"
    "\<forall>eob p. nd_written demo_net_dw = Some eob \<and> p < eob \<longrightarrow> 0 < im_msglen (?at p)"
    by (simp_all add: demo_net_dw_def demo_if_msg_def)
  have at: "im_type (?at 132) = RTM_NEWADDR" "unat (im_msglen (?at 132)) = 24" "im_type (?at 156) = RTM_IFINFO"
    "im_type (?at 288) = RTM_NEWADDR" "unat (im_msglen (?at 288)) = 24"
    by (simp_all add: demo_net_dw_def demo_if_msg_def)
  have e: "address_msgs ?at 312 156 156" "address_msgs ?at 312 312 312"
    by (rule address_msgs.intros(1), simp add: at)+
  have k: "address_msgs ?at 312 132 156" "address_msgs ?at 312 288 312"
    by (rule address_msgs.intros(2); simp add: at e)+
  have ms: "if_msgs ?at 312 0 [demo_if_msg ''lo0'' 0x49 7, demo_if_msg ''en0'' 0x8880 5]"
  proof -
    have m: "?at 0 = demo_if_msg ''lo0'' 0x49 7" "?at 156 = demo_if_msg ''en0'' 0x8880 5"
      by (simp_all add: demo_net_dw_def)
    have l: "unat (im_msglen (demo_if_msg nm f n)) = 132" "im_type (demo_if_msg nm f n) = RTM_IFINFO" for nm f n
      by (simp_all add: demo_if_msg_def)
    have two: "if_msgs ?at 312 156 [demo_if_msg ''en0'' 0x8880 5]"
      using m k(2) l by (simp add: exI [of _ 312])
    show ?thesis
      unfolding if_msgs.simps(2) [of ?at 312 0] using m k(1) l two by (intro conjI exI [of _ 156]) simp_all
  qed
  have n: "List.find (names_interface ''en0'') [demo_if_msg ''lo0'' 0x49 7, demo_if_msg ''en0'' 0x8880 5] = Some (demo_if_msg ''en0'' 0x8880 5)"
    by (simp add: names_interface_def demo_if_msg_def)
  have u: "if_msgs ?at 312 0 ms \<longleftrightarrow> ms = [demo_if_msg ''lo0'' 0x49 7, demo_if_msg ''en0'' 0x8880 5]" for ms
    using if_msgs_unique [OF ms] ms by blast
  have six: "\<not> bit (of_nat n :: guint64) 6" if "flag_number f n" for f n
  proof -
    have "n < 2 ^ 5" using that by (auto simp: flag_number_def)
    then have "of_nat n = (take_bit 5 (of_nat n) :: guint64)"
      by (metis of_nat_take_bit take_bit_nat_eq_self)
    then have "bit (of_nat n :: guint64) 6 = bit (take_bit 5 (of_nat n) :: guint64) 6" by (rule arg_cong)
    then show ?thesis unfolding bit_take_bit_iff by simp
  qed
  obtain r where r: "glibtop_get_netload_p_dw demo_net_dw ''en0'' = Some r"
    and c: "\<forall>bufsize eob. nd_size demo_net_dw = Some bufsize \<and> bufsize \<noteq> 0 \<and> nd_written demo_net_dw = Some eob \<longrightarrow>
       (\<exists>ms. if_msgs ?at eob 0 ms
        \<and> (case List.find (names_interface ''en0'') ms of
             None \<Rightarrow> nr_buf r = netload_zero \<and> nr_memory r = [GMallocRtbuf bufsize, GFreeRtbuf]
           | Some m \<Rightarrow> nr_memory r = [GMallocRtbuf bufsize, GFreeBuf]
               \<and> (\<forall>k. bit (nl_if_flags (nr_buf r)) k \<longleftrightarrow> (\<exists>n. flag_number (im_flags m) n \<and> bit (of_nat n :: guint64) k))
               \<and> packets_in (nr_buf r) = ucast (id_ipackets (im_data m))
               \<and> packets_total (nr_buf r) = ucast (id_ipackets (im_data m)) + ucast (id_opackets (im_data m))
               \<and> bytes_out (nr_buf r) = ucast (id_obytes (im_data m))))"
    using netload_dw_spec [OF s(3), of "''en0''"] by (fastforce split: option.splits)
  define m where "m = demo_if_msg ''en0'' 0x8880 5"
  have "600 \<noteq> (0 :: nat)" by simp
  then have "nd_size demo_net_dw = Some 600 \<and> 600 \<noteq> (0 :: nat) \<and> nd_written demo_net_dw = Some 312" using s(1,2) by blast
  note c [rule_format, OF this, unfolded u simp_thms n option.case]
  then have "nr_memory r = [GMallocRtbuf 600, GFreeBuf]" "packets_in (nr_buf r) = ucast (id_ipackets (im_data m))"
    "packets_total (nr_buf r) = ucast (id_ipackets (im_data m)) + ucast (id_opackets (im_data m))"
    "bytes_out (nr_buf r) = ucast (id_obytes (im_data m))"
    "\<forall>k. bit (nl_if_flags (nr_buf r)) k \<longleftrightarrow> (\<exists>n. flag_number (im_flags m) n \<and> bit (of_nat n :: guint64) k)"
    unfolding m_def by blast+
  moreover have "im_data m = \<lparr>id_mtu = 1500, id_ipackets = 5, id_opackets = 2, id_ibytes = 300, id_obytes = 4, id_ierrors = 0, id_oerrors = 0,
       id_collisions = 0\<rparr>" by (simp add: m_def demo_if_msg_def)
  ultimately show ?thesis using r six by auto
qed

end
