(* ===== verification/DwPort.thy ===== *)
theory DwPort
  imports ObPort CommonMount DwMem DwNet
begin

unbundle bit_operations_syntax

text \<open>
  The Darwin port as a whole: which functions run in the client and which in the setuid server
  (\<open>sysdeps/darwin/glibtop_server.h\<close>), the tables of both as services, the init functions, and the two
  ends of the pipe between them.
\<close>

section \<open>The functions of the port\<close>

record dw_machine =
  dm_sys :: darwin
  dm_mach :: mach
  dm_vm :: vm_regions
  dm_net :: net_dw
  dm_mounted :: mounted
  dm_fsd :: "string \<Rightarrow> fsd"

definition suid_dw :: "feature \<Rightarrow> bool" where
  "suid_dw f \<longleftrightarrow> f \<notin> {F_DISK, F_NETLIST, F_PROC_AFFINITY, F_PROC_IO, F_PROC_OPEN_FILES, F_MOUNTLIST, F_FSUSAGE}"

text \<open>The server passes the address of a member of its response, which lies on its stack: a \<open>g_free\<close> of it
  aborts the process.\<close>

definition netload_served :: "netload_dw_result option \<Rightarrow> glibtop_netload res" where
  "netload_served r = bind_res (returns (map_option Inr r)) (\<lambda>r.
     if GFreeBuf \<in> set (nr_memory r) then Inl (Crash ''g_free of a member of the response'') else Inr (nr_buf r))"

fun dw_server_service :: "dw_machine \<Rightarrow> glibtop \<Rightarrow> glibtop_machine \<Rightarrow> cred \<Rightarrow> service" where
  "dw_server_service M s m c F_CPU a = ret cpu_bytes (glibtop_get_cpu_p_dw (dm_sys M) s)"
| "dw_server_service M s m c F_MEM a = ret mem_bytes (Inr (glibtop_get_mem_p_dw (dm_sys M)))"
| "dw_server_service M s m c F_SWAP a = ret swap_bytes (glibtop_get_swap_p_dw (dm_sys M))"
| "dw_server_service M s m c F_UPTIME a = ret uptime_bytes (Inr (glibtop_get_uptime_p_dw (dm_sys M)))"
| "dw_server_service M s m c F_LOADAVG a = ret loadavg_bytes (Inr (glibtop_get_loadavg_p_dw (dm_sys M)))"
| "dw_server_service M s m c F_SHM_LIMITS a = ret shm_bytes (Inr glibtop_get_shm_limits_p_dw)"
| "dw_server_service M s m c F_MSG_LIMITS a = ret msg_bytes (Inr glibtop_get_msg_limits_p_dw)"
| "dw_server_service M s m c F_SEM_LIMITS a = ret sem_bytes (Inr glibtop_get_sem_limits_p_dw)"
| "dw_server_service M s m c F_PROCLIST a =
     (let (b, pids) = glibtop_get_proclist_p_dw (dm_mach M) (fst (arg_list a)) (snd (arg_list a))
      in Inr (proclist_bytes b, map_option u32s_bytes pids))"
| "dw_server_service M s m c F_PROC_STATE a = ret proc_state_bytes (Inr (glibtop_get_proc_state_p_dw (dm_mach M) (arg_pid a)))"
| "dw_server_service M s m c F_PROC_UID a = ret proc_uid_bytes (Inr (glibtop_get_proc_uid_p_dw (dm_mach M) (arg_pid a)))"
| "dw_server_service M s m c F_PROC_MEM a =
     ret (proc_mem_bytes \<circ> fst) (returns (glibtop_get_proc_mem_p_dw (dm_mach M) (dm_vm M) m c (arg_pid a)))"
| "dw_server_service M s m c F_PROC_TIME a =
     ret (proc_time_bytes \<circ> fst) (glibtop_get_proc_time_p_dw (dm_mach M) m c (arg_pid a))"
| "dw_server_service M s m c F_PROC_SIGNAL a = ret proc_signal_bytes (Inr (glibtop_get_proc_signal_p_dw (dm_mach M) (arg_pid a)))"
| "dw_server_service M s m c F_PROC_KERNEL a = ret proc_kernel_bytes (Inr (glibtop_get_proc_kernel_p_dw (arg_pid a)))"
| "dw_server_service M s m c F_PROC_SEGMENT a = ret proc_segment_bytes (Inr (glibtop_get_proc_segment_p_dw (arg_pid a)))"
| "dw_server_service M s m c F_PROC_ARGS a =
     bind_res (glibtop_get_proc_args_p_dw (dm_mach M) m c (arg_pid a) (arg_max a)) (\<lambda>((b, block), _). Inr (proc_args_bytes b, block))"
| "dw_server_service M s m c F_PROC_MAP a =
     bind_res (returns (glibtop_get_proc_map_p_dw (dm_mach M) (dm_vm M) m c (arg_pid a)))
       (\<lambda>((b, es), _). Inr (proc_map_bytes b, map_option (\<lambda>es. concat (map map_entry_bytes es)) es))"
| "dw_server_service M s m c F_NETLOAD a = ret netload_bytes (netload_served (glibtop_get_netload_p_dw (dm_net M) (arg_string a)))"
| "dw_server_service M s m c F_PPP a = ret ppp_bytes (Inr glibtop_get_ppp_p_dw)"
| "dw_server_service M s m c F_PROC_WD a =
     (let (b, dirs) = glibtop_get_proc_wd_p_dw (arg_pid a) in Inr (proc_wd_bytes b, map_option strings dirs))"
| "dw_server_service M s m c f a = Inl (Crash ''the server has no function for the feature'')"

fun dw_client_service :: "dw_machine \<Rightarrow> service" where
  "dw_client_service M F_MOUNTLIST a =
     bind_res (glibtop_get_mountlist_s_common (dm_mounted M) (arg_int a))
       (\<lambda>(b, es). Inr (mountlist_bytes b, map_option (\<lambda>es. concat (map mountentry_bytes es)) es))"
| "dw_client_service M F_FSUSAGE a = ret fsusage_bytes (Inr (glibtop_get_fsusage_s_common (dm_fsd M (arg_string a))))"
| "dw_client_service M F_NETLIST a =
     (let (b, devs) = glibtop_get_netlist_s_dw (dm_sys M) in Inr (netlist_bytes b, Some (strings devs)))"
| "dw_client_service M F_PROC_OPEN_FILES a =
     (let (b, es) = glibtop_get_proc_open_files_s_dw (arg_pid a)
      in Inr (open_files_bytes b, map_option (\<lambda>es. concat (map open_entry_bytes es)) es))"
| "dw_client_service M F_PROC_AFFINITY a =
     (let (b, cpus) = glibtop_get_proc_affinity_s_dw (arg_pid a)
      in Inr (affinity_bytes b, map_option (\<lambda>cs. concat (map u16_bytes cs)) cpus))"
| "dw_client_service M F_PROC_IO a = ret proc_io_bytes (Inr (glibtop_get_proc_io_s_dw (arg_pid a)))"
| "dw_client_service M F_DISK a = ret disk_bytes (Inr glibtop_get_disk_s_dw)"
| "dw_client_service M f a = Inl (Crash ''the client has no function for the feature'')"

fun dw_hook :: "feature \<Rightarrow> glibtop \<Rightarrow> glibtop" where
  "dw_hook F_CPU = init_cpu_p_dw"
| "dw_hook F_MEM = init_mem_p_dw"
| "dw_hook F_SWAP = init_swap_p_dw"
| "dw_hook F_UPTIME = init_uptime_p_dw"
| "dw_hook F_LOADAVG = init_loadavg_p_dw"
| "dw_hook F_SHM_LIMITS = init_shm_limits_p_dw"
| "dw_hook F_MSG_LIMITS = init_msg_limits_p_dw"
| "dw_hook F_SEM_LIMITS = init_sem_limits_p_dw"
| "dw_hook F_PROCLIST = init_proclist_p_dw"
| "dw_hook F_PROC_STATE = init_proc_state_p_dw"
| "dw_hook F_PROC_UID = init_proc_uid_p_dw"
| "dw_hook F_PROC_MEM = init_proc_mem_p_dw"
| "dw_hook F_PROC_TIME = init_proc_time_p_dw"
| "dw_hook F_PROC_SIGNAL = init_proc_signal_p_dw"
| "dw_hook F_PROC_KERNEL = init_proc_kernel_p_dw"
| "dw_hook F_PROC_SEGMENT = init_proc_segment_p_dw"
| "dw_hook F_PROC_ARGS = init_proc_args_p_dw"
| "dw_hook F_PROC_MAP = init_proc_map_p_dw"
| "dw_hook F_NETLOAD = init_netload_p_dw"
| "dw_hook F_NETLIST = init_netlist_s_dw"
| "dw_hook F_PPP = init_ppp_p_dw"
| "dw_hook F_PROC_OPEN_FILES = init_proc_open_files_s_dw"
| "dw_hook F_PROC_WD = init_proc_wd_p_dw"
| "dw_hook F_PROC_AFFINITY = init_proc_affinity_s_dw"
| "dw_hook F_PROC_IO = init_proc_io_s_dw"
| "dw_hook F_DISK = init_disk_s_dw"
| "dw_hook f = id"

definition dw_world :: "dw_machine \<Rightarrow> world \<Rightarrow> world" where
  "dw_world M base = base\<lparr>w_suid := suid_dw, w_hook := dw_hook, w_open_s := glibtop_open_s_dw (dm_sys M)\<rparr>"

section \<open>The laws of the services\<close>

lemmas dw_zero_defs = glibtop_get_proc_wd_p_dw_def glibtop_get_proc_open_files_s_dw_def glibtop_get_proc_affinity_s_dw_def

lemma dw_server_struct_size:
  "dw_server_service M s m c f a = Inr (st, ptr) \<Longrightarrow> length st = sizeof_struct f"
  by (cases f) (auto simp: ret_def bind_res_Inr_iff bytes_defs dw_zero_defs Let_def split: prod.splits option.splits)

lemma dw_client_struct_size:
  "dw_client_service M f a = Inr (st, ptr) \<Longrightarrow> length st = sizeof_struct f"
  by (cases f) (auto simp: ret_def bind_res_Inr_iff bytes_defs dw_zero_defs Let_def split: prod.splits option.splits)

lemma proc_map_dw_total:
  "glibtop_get_proc_map_p_dw P R m c pid = Some (Inr ((b, es), c')) \<Longrightarrow>
   pm_total b = (case es of None \<Rightarrow> 0 | Some es \<Rightarrow> of_nat (length es) * of_nat 336)"
  by (auto simp: glibtop_get_proc_map_p_dw_def bind_res_Inr_iff bind_eq_Some_conv Let_def split: option.splits if_split_asm)

lemma dw_server_block_size:
  assumes "dw_server_service M s m c f a = Inr (st, ptr)" and out: "output_size f st ptr \<noteq> 0"
  shows "\<exists>d. ptr = Some d \<and> unat (output_size f st ptr) \<le> length d"
proof -
  have "f \<in> {F_PROCLIST, F_PROC_MAP, F_MOUNTLIST, F_PROC_ARGS}"
    using out by (auto simp: output_size_def split: if_splits)
  then show ?thesis
  proof (elim insertE)
    assume f: "f = F_PROCLIST"
    then obtain b pids where b: "glibtop_get_proclist_p_dw (dm_mach M) (fst (arg_list a)) (snd (arg_list a)) = (b, pids)"
      "st = proclist_bytes b" "ptr = map_option u32s_bytes pids"
      using assms(1) by (auto split: prod.splits)
    from proclist_dw_total [OF b(1)] b out unat_times_le [of _ 4] show ?thesis
      by (cases pids) (simp_all add: f output_size_def proclist_bytes_def mult.commute)
  next
    assume f: "f = F_PROC_MAP"
    then obtain b es c' where b: "glibtop_get_proc_map_p_dw (dm_mach M) (dm_vm M) m c (arg_pid a) = Some (Inr ((b, es), c'))"
      "st = proc_map_bytes b" "ptr = map_option (\<lambda>es. concat (map map_entry_bytes es)) es"
      using assms(1) by (auto simp: bind_res_Inr_iff returns_def split: option.splits)
    from proc_map_dw_total [OF b(1)] b out unat_times_le [of _ 336] length_concat_map [of _ map_entry_bytes 336, OF length_map_entry_bytes]
    show ?thesis by (cases es) (simp_all add: f output_size_def proc_map_bytes_def mult.commute)
  next
    assume f: "f = F_MOUNTLIST"
    then show ?thesis using assms(1) by simp
  next
    assume f: "f = F_PROC_ARGS"
    then obtain b block c' where b: "glibtop_get_proc_args_p_dw (dm_mach M) m c (arg_pid a) (arg_max a) = Inr ((b, block), c')"
      "st = proc_args_bytes b" "ptr = block"
      using assms(1) by (auto simp: bind_res_Inr_iff)
    have "block \<noteq> None" using out b(3) by (cases block) (simp_all add: f output_size_def)
    with proc_args_dw_block [OF b(1)] obtain s where "block = Some (s @ [NUL])" "pa_size b = of_nat (length s)" by blast
    moreover have "unat (of_nat (length s) + 1 :: 64 word) \<le> length s + 1"
      using unat_times_le [of "Suc (length s)" 1] by (simp add: add.commute)
    ultimately show ?thesis using b by (simp add: f output_size_def proc_args_bytes_def)
  qed simp
qed

interpretation dw_server: slave_service "dw_server_service M s m c" suid_dw for M s m c
proof unfold_locales
  show "f \<in> set server_features_terms" if "suid_dw f" for f
    using that by (cases f) (simp_all add: suid_dw_def server_features_terms_def)
qed (blast intro: dw_server_struct_size dw_server_block_size)+

lemmas dw_init_defs = init_cpu_p_dw_def init_mem_p_dw_def init_swap_p_dw_def init_uptime_p_dw_def init_loadavg_p_dw_def
  init_shm_limits_p_dw_def init_msg_limits_p_dw_def init_sem_limits_p_dw_def init_proclist_p_dw_def init_proc_state_p_dw_def
  init_proc_uid_p_dw_def init_proc_mem_p_dw_def init_proc_time_p_dw_def init_proc_signal_p_dw_def init_proc_kernel_p_dw_def
  init_proc_segment_p_dw_def init_proc_args_p_dw_def init_proc_map_p_dw_def init_netload_p_dw_def init_netlist_s_dw_def
  init_ppp_p_dw_def init_proc_open_files_s_dw_def init_proc_wd_p_dw_def init_proc_affinity_s_dw_def init_proc_io_s_dw_def
  init_disk_s_dw_def clears_def

lemma dw_hook_core: "core (dw_hook f s) = core s"
  by (cases f) (simp_all add: core_set_sysdeps dw_init_defs)

lemma dw_open_core: "glibtop_open_s_dw K s = Inr s' \<Longrightarrow> core s' = core s"
  by (auto simp: glibtop_open_s_dw_def core_def split: option.splits)

interpretation dw_port: sysdeps_port "dw_world M base" for M base
  by unfold_locales (auto simp: dw_world_def dw_hook_core dw_open_core)

section \<open>A client and its server\<close>

lemma dw_hooks_machine: "s_machine (dw_hook f s) = s_machine s"
  by (cases f) (simp_all add: set_sysdeps_def dw_init_defs)

theorem darwin_suid:
  \<comment> \<open>what the server returns arrives in the client, for the features its \<open>switch\<close> knows; the server has the rights of the
    user\<close>
  assumes start: "suid_server_start_dw True (dm_sys M) suid_dw dw_hook c = Inr (server, d)" "s_machine server = Some m"
    and env: "w_server base = None" "w_default_server base = ch # cmd" "ch \<noteq> CHR '':''" "w_pipes base = Some pipes" "0 < w_fork base"
    and f: "suid_dw f" "slave_knows f" and a: "feature_arg f a" "length (send_buf a) \<le> PARAM_SIZE"
    and r: "dw_server_service M server m d f (slave_targ a) = Inr (st, ptr)"
    and evs: "smooth evs" "stream_bytes evs = sysdeps_request @ request f a"
    and stream: "flowing (w_stream base)" "stream_bytes (w_stream base)
      = fst (handle_slave_connection (w_version base) (w_server_version base) suid_dw (dw_server_service M server m d)
          (s_sysdeps server) evs)"
  shows "(\<exists>c'. glibtop_get_l (dw_world M base) (dw_client_service M) f a fresh_client
        = Inr ((st, reply_block f st ptr), c') \<and> to_server (conn c') = stream_bytes evs)
    \<and> euid d = ruid c \<and> egid d = rgid c"
proof
  let ?W = "dw_world M base"
  obtain pinfo where "dw_processors (dm_sys M) = Some pinfo"
    using start(1) by (auto simp: suid_server_start_dw_def suid_server_start_bsd_def glibtop_init_p_bsd_def glibtop_open_p_dw_def
        glibtop_global_server_def bind_res_Inr_iff Let_def split: option.splits)
  with env have w: "w_suid ?W = suid_dw" "w_server ?W = None" "w_default_server ?W = ch # cmd" "w_pipes ?W = Some pipes"
    "0 < w_fork ?W" "\<And>s. \<exists>s'. w_open_s ?W s = Inr s'" "w_stream ?W = w_stream base" "w_version ?W = w_version base"
    "w_server_version ?W = w_server_version base"
    by (simp_all add: dw_world_def glibtop_open_s_dw_def)
  from suid_get [OF dw_port.sysdeps_port_axioms dw_server.slave_service_axioms [folded w(1)] w(2,3) env(3) w(4,5,6)
      f(1) [folded w(1)] f(2) a r evs, of "s_sysdeps server" "dw_client_service M"] stream
  show "\<exists>c'. glibtop_get_l ?W (dw_client_service M) f a fresh_client
      = Inr ((st, reply_block f st ptr), c') \<and> to_server (conn c') = stream_bytes evs"
    by (simp add: w(1,7,8,9))
  show "euid d = ruid c \<and> egid d = rgid c"
    using suid_rights_dw [OF start(1)] dw_hooks_machine by blast
qed

text \<open>
  C40. The working directory is among the features that the server announces, but neither \<open>switch\<close> of
  \<open>slave.c\<close> has a case for it. A client that asks for it gets no reply: its server
  writes the greeting and the answer about its features, and ends with an error at the request,
  though \<open>glibtop_get_proc_wd_p\<close> would give a result.
\<close>

theorem darwin_proc_wd:
  assumes evs: "smooth evs" "stream_bytes evs = sysdeps_request @ request F_PROC_WD (ArgPid pid) @ later"
  shows "glibtop_server_features suid_dw AND flag (feature_nr F_PROC_WD) \<noteq> 0
    \<and> dw_server_service M s m c F_PROC_WD (ArgPid pid) = Inr (proc_wd_bytes (fst (glibtop_get_proc_wd_p_dw pid)), None)
    \<and> handle_slave_connection version server_version suid_dw (dw_server_service M s m c) sysdeps evs
      = (glibtop_send_version version server_version @ sysdeps_answer (slave_sysdeps suid_dw sysdeps),
         Inl (Exit ''Child received unknown command''))"
proof (intro conjI)
  let ?svc = "dw_server_service M s m c"
  show "glibtop_server_features suid_dw AND flag (feature_nr F_PROC_WD) \<noteq> 0"
    unfolding server_features_bit by (simp add: suid_dw_def server_features_terms_def)
  show "?svc F_PROC_WD (ArgPid pid) = Inr (proc_wd_bytes (fst (glibtop_get_proc_wd_p_dw pid)), None)"
    by (simp add: glibtop_get_proc_wd_p_dw_def)
  obtain evs1 where e1: "smooth evs1" "stream_bytes evs1 = request F_PROC_WD (ArgPid pid) @ later"
    "slave_loop suid_dw ?svc sysdeps evs = (sysdeps_answer (slave_sysdeps suid_dw sysdeps) @ fst (slave_loop suid_dw ?svc sysdeps evs1),
       snd (slave_loop suid_dw ?svc sysdeps evs1))"
    using slave_answers_sysdeps [OF evs, of suid_dw ?svc sysdeps] by blast
  have "slave_loop suid_dw ?svc sysdeps evs1 = ([], Inl (Exit ''Child received unknown command''))"
    by (rule slave_refuses [OF _ _ e1(1,2)]) (simp_all add: slave_knows_def PARAM_SIZE_def)
  with e1(3) show "handle_slave_connection version server_version suid_dw ?svc sysdeps evs
      = (glibtop_send_version version server_version @ sysdeps_answer (slave_sysdeps suid_dw sysdeps),
         Inl (Exit ''Child received unknown command''))"
    by (simp add: handle_slave_connection_def)
qed

theorem darwin_proc_wd_witness:
  "\<forall>M s m c. snd (handle_slave_connection ''2'' ''1'' suid_dw (dw_server_service M s m c) sysdeps_zero
     [Recv (sysdeps_request @ request F_PROC_WD (ArgPid 7))]) = Inl (Exit ''Child received unknown command'')"
proof (intro allI)
  fix M s m c
  have 1: "smooth [Recv (sysdeps_request @ request F_PROC_WD (ArgPid 7))]" by simp
  have 2: "stream_bytes [Recv (sysdeps_request @ request F_PROC_WD (ArgPid 7))]
      = sysdeps_request @ request F_PROC_WD (ArgPid 7) @ []" by simp
  from darwin_proc_wd [OF 1 2, of M s m c "''2''" "''1''" sysdeps_zero]
  show "snd (handle_slave_connection ''2'' ''1'' suid_dw (dw_server_service M s m c) sysdeps_zero
     [Recv (sysdeps_request @ request F_PROC_WD (ArgPid 7))]) = Inl (Exit ''Child received unknown command'')" by simp
qed

end
