(* ===== verification/Spec2Isabelle.thy ===== *)
theory Spec2Isabelle
  imports LinuxPort FbPort ObPort CygPort DwPort
begin

text \<open>
  A model of libgtop and the facts that make it correct.

  \<^bold>\<open>The program.\<close> A program that links libgtop asks for numbers about the system: \<open>glibtop_get_cpu\<close>
  and its like, one function per \<^emph>\<open>feature\<close>. Each port (\<open>sysdeps/linux\<close>, \<open>sysdeps/freebsd\<close>, \<open>sysdeps/openbsd\<close> and others)
  has a getter per feature with the suffix \<open>_s\<close>, or \<open>_p\<close> where it needs privileges. The stubs \<open>_l\<close>
  that \<open>lib/lib.pl\<close> generates from \<open>features.def\<close> initialise the library at the first call
  (\<open>lib/init.c\<close>, \<open>open.c\<close>, \<open>close.c\<close>), and then either call the getter of the port or send the call
  to a server (\<open>lib/command.c\<close>, \<open>read.c\<close>, \<open>write.c\<close>, \<open>read_data.c\<close>): the setuid server at the other end
  of a pipe (\<open>src/daemon/slave.c\<close>) or a daemon on another machine (\<open>src/daemon/main.c\<close>, with
  \<open>gnuserv.c\<close> for who may connect).

  \<^bold>\<open>The theories.\<close>
  \<^item> \<open>Prelude\<close>: integers of C, errors as values (\<open>res\<close>: \<open>Inl\<close> is an exit, a crash, or a call that
    blocks forever), C strings, the functions of the C library and of GLib on them. \<open>Scanf\<close>: \<open>sscanf\<close>.
  \<^item> \<open>Wire\<close>: \<open>include/glibtop/command.h\<close> and the primitives that move bytes, on the client's and on the
    server's side. The locale \<open>exact_reader\<close> states what a reader promises; both readers are
    interpretations of it.
  \<^item> \<open>Server\<close>: \<open>struct _glibtop\<close>, the feature tables (\<open>lib/sysdeps.c\<close>,
    \<open>sysdeps/common/sysdeps_suid.c\<close>), \<open>lib/parameter.c\<close>. Setting and getting a parameter is a round trip.
  \<^item> \<open>Client\<close>: the life of a client. The locale \<open>sysdeps_port\<close> states what a port promises of its open
    function and its init hooks; \<open>reachable\<close> is the relation of the states a client can get
    into, and the invariant is proved by induction over it; \<open>undisturbed\<close> are those in which no call has changed the
    method of an open client.
  \<^item> \<open>Daemon\<close>: the two servers and the arguments of a call. \<open>Rpc\<close>: a client and a daemon together. The
    locale \<open>getter_service\<close> states what a table of getters promises (structs of the size the feature has,
    blocks as long as announced); in it a remote call is proved to return what the getter
    returns, and whole sessions are a refinement of calling the getters one after another. This is so for the features
    that the daemon answers and parameters of at most 16 bytes (\<open>servable\<close>), without a limit for the arguments of a process, which
    the daemon drops (\<open>without_limit\<close>). The places where the protocol fails (parameters that are never sent, features without an
    answer, a read behind the end of the command) are theorems as well.
  \<^item> \<open>Gnuserv\<close>: the authentication (\<open>presents_cookie\<close>: what a client shows that the daemon compares with its cookie), and
    the rights of the servers: who keeps which user and group ids, and which of them a call can still change.
  \<^item> \<open>ProcText\<close>: how the Linux port reads and walks the files under \<open>/proc\<close>. The getters
    are built on the text that a file gives (\<open>try_file_to_buffer\<close>); \<open>file_in_memory\<close> is the same function on the buffer in memory,
    where also shows what is in front of and behind this text. On it rest \<open>SysStat\<close>
    (processors, memory, swap, uptime, load), \<open>ProcInfo\<close> (one process), \<open>ProcList\<close> (list of
    processes, working directories, affinity), \<open>ProcMap\<close> (memory maps), \<open>OpenFiles\<close>, \<open>Net\<close>
    (interfaces), \<open>FileSystems\<close> (mounts and their usage), \<open>SysLimits\<close> (limits of IPC, descriptions of
    processors, names of signals), \<open>Disk\<close> (counters of the disks). Each getter is proved to return what
    the text of the kernel says, for every text of the format that \<open>proc(5)\<close> documents. The specifications are written
    over what the kernel prints and not over the parsers: the fields of a process with the files that they make
    (\<open>process\<close>, \<open>proc_entries\<close> in \<open>ProcList\<close>), the lines of a map, the rows of the tables of sockets (\<open>socket_of\<close>).
  \<^item> \<open>SuidServer\<close>: a client and the setuid server at the other end of a pipe, with the locale
    \<open>slave_service\<close> for the functions of the server. \<open>Structs\<close>: the structs of the getters as bytes.
  \<^item> \<open>LinuxPort\<close>: the getters of \<open>sysdeps/linux\<close> as one table. It interprets \<open>sysdeps_port\<close> and
    \<open>getter_service\<close>; by these the theorems about any port hold for Linux.
  \<^item> \<open>sysdeps/freebsd\<close>: \<open>FreeBsd\<close> (the system as a whole), \<open>FbProc\<close> (processes, and the rights of the
    setuid server, which are an argument and a result of each getter), \<open>FbMap\<close> (the walk through the
    memory of the kernel, a \<open>partial_function\<close>, with the condition under which it ends), \<open>FbMount\<close> (mounts, and
    what \<open>bsearch\<close> finds in a table that is not in order), \<open>FbFiles\<close> (open files, from the kernel or from
    \<open>lsof\<close>), \<open>FbNet\<close> (interfaces), \<open>FbPort\<close> (the port as a whole, with the interpretations of
    \<open>sysdeps_port\<close> and \<open>slave_service\<close>). What a call into the kernel gives is a parameter.
  \<^item> \<open>sysdeps/openbsd\<close> in the same layout: \<open>ObSys\<close>, \<open>ObProc\<close>, \<open>ObMap\<close> (the copy of the tree in the kernel's
    memory, a recursion that ends where the pointers form a tree, and what becomes of the copy), \<open>ObNet\<close> (the
    interfaces in the kernel's lists), \<open>ObFiles\<close>, \<open>ObPort\<close>. What the two ports share is defined and proved
    once, in the theories of FreeBSD (\<open>suid_server_start_bsd\<close>, \<open>mountlist_bsd\<close>, the rights).
  \<^item> \<open>sysdeps/cygwin\<close>, an old copy of the Linux port: \<open>CygSys\<close>, \<open>CygProc\<close>, \<open>CygPort\<close>, with the lemmas that say under
    which conditions its getters are those of Linux. \<open>Common\<close> and \<open>CommonMount\<close>: what \<open>sysdeps/common\<close> holds for the ports
    without a file of their own (usage of file systems, the table of mounts), and the messages.
  \<^item> \<open>sysdeps/darwin\<close>: \<open>DwSys\<close>, \<open>DwProc\<close>, \<open>DwMem\<close> (the walks over the regions of a task, and the hash table of the objects
    that they share, with the locale \<open>sharing_table\<close>: after any registrations the table holds the set of the objects),
    \<open>DwNet\<close> (the messages about interfaces, and whose memory is freed), \<open>DwPort\<close>. Here almost every getter runs in the
    setuid server, also one for which its \<open>switch\<close> has no case (\<open>darwin_proc_wd\<close>).

  \<^bold>\<open>Conventions.\<close> A file of the kernel is what the successive calls of \<open>read\<close> meet (\<open>rdev\<close>), a
  connection what the successive calls of \<open>read\<close> or \<open>recv\<close> meet (\<open>nev\<close>): bytes, an
  interruption, an error, the end. So short reads and signals are part of every statement about
  reading. Integers have their width (\<open>guint64\<close> is \<open>64 word\<close>); \<open>int\<close> stands for an \<open>int\<close> of C that no
  arithmetic takes out of its range. Memory that nobody has written is a parameter (\<open>junk\<close>, \<open>stack\<close>).
  What is read outside of a buffer is a \<open>Crash\<close>. Values of type \<open>double\<close> are a type parameter, their parser an
  argument.

  \<^bold>\<open>Bounds.\<close> No definition has fuel: loops over a buffer or a stream are structural or have a measure; the
  loops over pointers and answers of the kernel, which may not end (\<open>map_walk\<close>, \<open>load_vmmap_entries\<close>, \<open>find_ifnet\<close>,
  \<open>addr_walk\<close>, \<open>region_walk\<close>, \<open>submap_walk\<close>, \<open>find_if\<close>), are partial functions, and the theorems say where they end; the server loops consume their input, so that they end
  when the stream ends (\<open>servers_end\<close>) and are \<open>Blocks\<close> where it goes on in silence.

  \<^bold>\<open>Not modelled.\<close> The ports for other systems (\<open>aix\<close>, \<open>bsd\<close>, \<open>osf1\<close>, \<open>solaris\<close>, \<open>stub\<close>, \<open>stub_suid\<close>, \<open>sun4\<close>);
  in \<open>sysdeps/common\<close> the branches of \<open>mountlist.c\<close> for AIX, which does not compile, and of \<open>fsusage.c\<close> for a system
  without \<open>statfs\<close>; where a getter prints a message (that an error ends the process is in \<open>gerr\<close>);
  \<open>lib/boxed.c\<close> (types for bindings); the examples; the sockets themselves (\<open>accept\<close>, \<open>select\<close>, \<open>fork\<close>), of which the
  model has the outcomes.
\<close>

end
